(* ===== verification/Go_Prelude.thy ===== *)
theory Go_Prelude
  imports Main "HOL-Library.Word" "HOL-Library.AList" "HOL-Library.Sublist"
    "HOL-Library.Char_ord" "HOL-Library.List_Lexorder" "HOL-Library.While_Combinator"
begin

text \<open>
  What the component theories share: the Go data types they are written over (bytes, slices
  that may be nil, times, maps), the part of the package \<open>strings\<close> the sources call, and
  what it means that a component implements a specification.

  \<^item> A \<open>time.Time\<close> is the number of nanoseconds since Go's zero time, so that
    \<open>IsZero\<close> is \<open>t = 0\<close>; a \<open>time.Duration\<close> is its number of nanoseconds.
  \<^item> A slice is an optional list: \<open>None\<close> is the nil slice, which the sources
    distinguish from an empty one (a nil body in a resume patch keeps the stored body, an empty
    one replaces it).
  \<^item> A Go map is an association list. Every operation keeps its keys distinct, so that
    \<open>length\<close> is Go's \<open>len\<close>.
  \<^item> A Go string is a list of bytes, written as Isabelle's \<open>string\<close>. The
    functions of the package \<open>strings\<close> take their ASCII fast path exactly as in Go; where a
    byte \<open>\<ge> 0x80\<close> makes Go consult the Unicode tables, the model consults the
    record \<open>go_env\<close>, a parameter of every definition that needs it.
\<close>

type_synonym byte = "8 word"
type_synonym gotime = int
type_synonym duration = int
type_synonym 'a slice = "'a list option"
type_synonym ('k, 'v) gomap = "('k \<times> 'v) list"

definition elems :: "'a slice \<Rightarrow> 'a list" where
  "elems s = (case s of None \<Rightarrow> [] | Some xs \<Rightarrow> xs)"

lemma elems_simps [simp]: "elems None = []" "elems (Some xs) = xs"
  by (simp_all add: elems_def)

text \<open>\<open>append([]T(nil), xs...)\<close>: copies the elements; the copy of a slice with no
  element is the nil slice.\<close>

definition append_nil :: "'a list \<Rightarrow> 'a slice" where
  "append_nil xs = (if xs = [] then None else Some xs)"

lemma elems_append_nil [simp]: "elems (append_nil xs) = xs"
  by (simp add: append_nil_def)

subsection \<open>Go maps\<close>

abbreviation keys :: "('k, 'v) gomap \<Rightarrow> 'k set" where
  "keys m \<equiv> fst ` set m"

lemma map_of_eq_None_keys: "map_of m k = None \<longleftrightarrow> k \<notin> keys m"
  by (simp add: map_of_eq_None_iff)

lemma keys_eq_dom: "keys m = dom (map_of m)"
  by (simp add: dom_map_of_conv_image_fst)

lemma in_keys_iff: "k \<in> keys m \<longleftrightarrow> (\<exists>v. map_of m k = Some v)"
  by (metis map_of_eq_None_keys not_Some_eq)

lemma keys_delete [simp]: "keys (AList.delete k m) = keys m - {k}"
  by (auto simp: AList.delete_eq)

lemma keys_update [simp]: "keys (AList.update k v m) = insert k (keys m)"
  by (simp add: AList.dom_update)

lemma map_of_update [simp]:
  "map_of (AList.update k v m) k' = (if k' = k then Some v else map_of m k')"
  by (simp add: AList.update_conv')

lemma map_of_delete [simp]:
  "map_of (AList.delete k m) k' = (if k' = k then None else map_of m k')"
  by (simp add: AList.delete_conv')

lemma length_delete_le: "length (AList.delete k m) \<le> length m"
  by (simp add: AList.delete_eq)

lemma length_delete_key:
  assumes "distinct (map fst m)" and "k \<in> keys m"
  shows "Suc (length (AList.delete k m)) = length m"
  using assms
proof (induction m)
  case Nil
  then show ?case by simp
next
  case (Cons p m)
  show ?case
  proof (cases "fst p = k")
    case True
    with Cons.prems have "k \<notin> keys m" by auto
    then have "AList.delete k m = m" by (simp add: AList.delete_idem)
    with True show ?thesis by (cases p) simp
  next
    case False
    with Cons show ?thesis by (cases p) auto
  qed
qed

lemma length_update_new:
  "k \<notin> keys m \<Longrightarrow> length (AList.update k v m) = Suc (length m)"
  by (induction m) auto

lemma length_update_old:
  "k \<in> keys m \<Longrightarrow> length (AList.update k v m) = length m"
  by (induction m) auto

text \<open>A sum over the values of a map, the shape of the inbox's byte accounting.\<close>

definition vsum :: "('v \<Rightarrow> int) \<Rightarrow> ('k, 'v) gomap \<Rightarrow> int" where
  "vsum f m = sum_list (map (f \<circ> snd) m)"

lemma vsum_Nil [simp]: "vsum f [] = 0"
  and vsum_Cons [simp]: "vsum f (p # m) = f (snd p) + vsum f m"
  by (simp_all add: vsum_def)

lemma vsum_delete:
  "distinct (map fst m) \<Longrightarrow> map_of m k = Some v \<Longrightarrow> vsum f (AList.delete k m) = vsum f m - f v"
proof (induction m)
  case Nil
  then show ?case by simp
next
  case (Cons p m)
  show ?case
  proof (cases "fst p = k")
    case True
    with Cons.prems have "k \<notin> keys m" by auto
    then have "AList.delete k m = m" by (simp add: AList.delete_idem)
    with True Cons.prems show ?thesis by (cases p) simp
  next
    case False
    with Cons show ?thesis by (cases p) auto
  qed
qed

lemma vsum_update_new:
  "k \<notin> keys m \<Longrightarrow> vsum f (AList.update k v m) = vsum f m + f v"
  by (induction m) auto

lemma vsum_update_old:
  "distinct (map fst m) \<Longrightarrow> map_of m k = Some w \<Longrightarrow>
   vsum f (AList.update k v m) = vsum f m - f w + f v"
  by (induction m) (auto dest: map_of_SomeD split: if_splits simp: image_iff)

lemma vsum_nonneg: "(\<And>k v. (k, v) \<in> set m \<Longrightarrow> 0 \<le> f v) \<Longrightarrow> 0 \<le> vsum f m"
  by (induction m) force+

lemma distinct_keys_card: "distinct (map fst m) \<Longrightarrow> length m = card (keys m)"
  by (metis distinct_card length_map set_map)

subsection \<open>Components and their specifications\<close>

text \<open>Running a sequence of operations on a component, where \<open>None\<close> is an operation that does
  not return, and on the specification of one.\<close>

fun runSome :: "('o \<Rightarrow> 'c \<Rightarrow> ('c \<times> 'r) option) \<Rightarrow> 'o list \<Rightarrow> 'c \<Rightarrow> ('c \<times> 'r list) option" where
  "runSome step [] c = Some (c, [])"
| "runSome step (o1 # os) c =
     (case step o1 c of None \<Rightarrow> None
      | Some (c', r) \<Rightarrow> map_option (\<lambda>(c'', rs). (c'', r # rs)) (runSome step os c'))"

fun runSpec :: "('o \<Rightarrow> 'l \<Rightarrow> 'l \<times> 'r) \<Rightarrow> 'o list \<Rightarrow> 'l \<Rightarrow> 'l \<times> 'r list" where
  "runSpec step [] l = (l, [])"
| "runSpec step (o1 # os) l =
     (case step o1 l of (l', r) \<Rightarrow> (case runSpec step os l' of (l'', rs) \<Rightarrow> (l'', r # rs)))"

text \<open>A component that always returns and does on its states what its specification does on
  abstract ones does so over any sequence of operations.\<close>

locale implements =
  fixes rel :: "'c \<Rightarrow> 'l \<Rightarrow> bool" and step :: "'o \<Rightarrow> 'c \<Rightarrow> ('c \<times> 'r) option"
    and spec :: "'o \<Rightarrow> 'l \<Rightarrow> 'l \<times> 'r"
  assumes step_spec: "rel c l \<Longrightarrow> \<exists>c'. step x c = Some (c', snd (spec x l)) \<and> rel c' (fst (spec x l))"
begin

lemma run_spec: "rel c l \<Longrightarrow>
    \<exists>c'. runSome step os c = Some (c', snd (runSpec spec os l)) \<and> rel c' (fst (runSpec spec os l))"
proof (induction os arbitrary: c l)
  case (Cons x os)
  obtain l1 r where s: "spec x l = (l1, r)" by fastforce
  from step_spec[OF Cons.prems, of x] s obtain c1 where c1: "step x c = Some (c1, r)" "rel c1 l1" by auto
  from Cons.IH[OF c1(2)] obtain c' where "runSome step os c1 = Some (c', snd (runSpec spec os l1))"
    "rel c' (fst (runSpec spec os l1))" by blast
  with s c1 show ?case by (auto split: prod.splits)
qed simp

end

end
