(* ===== verification/Go_Strings.thy ===== *)
theory Go_Strings
  imports Go_Prelude
begin

text \<open>
  The functions of Go's package \<open>strings\<close> (and \<open>bytes.Contains\<close>) that the sources
  call, over byte strings. \<open>go_env\<close> holds what is consulted outside ASCII (the Unicode
  tables) and the path \<open>net/url\<close> parses out of a URL.
\<close>

record go_env =
  uc_equalFold :: "string \<Rightarrow> string \<Rightarrow> bool"
  uc_toLower :: "string \<Rightarrow> string"
  uc_trimSpace :: "string \<Rightarrow> string"
  uc_trimRightSpace :: "string \<Rightarrow> string"
  url_parse_path :: "string \<Rightarrow> string option"

text \<open>An environment for concrete evaluations on ASCII inputs: outside ASCII it changes
  nothing, and the path of a URL is what precedes the query or fragment.\<close>

definition ascii_env :: go_env where
  "ascii_env = \<lparr>uc_equalFold = (=), uc_toLower = id, uc_trimSpace = id,
     uc_trimRightSpace = id,
     url_parse_path = (\<lambda>u. Some (takeWhile (\<lambda>c. c \<noteq> CHR ''?'' \<and> c \<noteq> CHR ''#'') u))\<rparr>"

definition code :: "char \<Rightarrow> nat" where
  "code c = of_char c"

definition runeSelf :: "char \<Rightarrow> bool" where
  "runeSelf c \<longleftrightarrow> 128 \<le> code c"

definition isASCII :: "string \<Rightarrow> bool" where
  "isASCII s = list_all (\<lambda>c. \<not> runeSelf c) s"

definition upperASCII :: "char \<Rightarrow> bool" where
  "upperASCII c \<longleftrightarrow> 65 \<le> code c \<and> code c \<le> 90"

definition lowerByte :: "char \<Rightarrow> char" where
  "lowerByte c = (if upperASCII c then char_of (code c + 32) else c)"

definition ToLower :: "go_env \<Rightarrow> string \<Rightarrow> string" where
  "ToLower u s = (if isASCII s then map lowerByte s else uc_toLower u s)"

text \<open>The loop of \<open>EqualFold\<close>: two bytes agree when they are equal or when the smaller is an
  upper-case ASCII letter and the larger its lower-case form.\<close>

definition foldByteEq :: "char \<Rightarrow> char \<Rightarrow> bool" where
  "foldByteEq x y =
     (x = y \<or> (let lo = min (code x) (code y); hi = max (code x) (code y)
               in 65 \<le> lo \<and> lo \<le> 90 \<and> hi = lo + 32))"

fun EqualFold :: "go_env \<Rightarrow> string \<Rightarrow> string \<Rightarrow> bool" where
  "EqualFold u [] t = (t = [])"
| "EqualFold u (x # s) [] = False"
| "EqualFold u (x # s) (y # t) =
     (if runeSelf x \<or> runeSelf y then uc_equalFold u (x # s) (y # t)
      else foldByteEq x y \<and> EqualFold u s t)"

definition asciiSpace :: "char \<Rightarrow> bool" where
  "asciiSpace c \<longleftrightarrow> code c \<in> {9, 10, 11, 12, 13, 32}"

definition TrimSpace :: "go_env \<Rightarrow> string \<Rightarrow> string" where
  "TrimSpace u s =
     (let a = dropWhile asciiSpace s
      in if a \<noteq> [] \<and> runeSelf (hd a) then uc_trimSpace u a
         else let b = rev (dropWhile asciiSpace (rev a))
              in if b \<noteq> [] \<and> runeSelf (last b) then uc_trimRightSpace u b else b)"

definition HasPrefix :: "'a list \<Rightarrow> 'a list \<Rightarrow> bool" where
  "HasPrefix s p = (take (length p) s = p)"

definition HasSuffix :: "'a list \<Rightarrow> 'a list \<Rightarrow> bool" where
  "HasSuffix s p = (length p \<le> length s \<and> drop (length s - length p) s = p)"

fun Contains :: "'a list \<Rightarrow> 'a list \<Rightarrow> bool" where
  "Contains [] p = (p = [])"
| "Contains (x # s) p = (HasPrefix (x # s) p \<or> Contains s p)"

definition TrimPrefix :: "string \<Rightarrow> string \<Rightarrow> string" where
  "TrimPrefix s p = (if HasPrefix s p then drop (length p) s else s)"

text \<open>Index of the first byte, or of the last byte, that satisfies a test.\<close>

fun indexWhere :: "('a \<Rightarrow> bool) \<Rightarrow> 'a list \<Rightarrow> nat option" where
  "indexWhere P [] = None"
| "indexWhere P (x # s) = (if P x then Some 0 else map_option Suc (indexWhere P s))"

definition IndexAny :: "string \<Rightarrow> string \<Rightarrow> nat option" where
  "IndexAny s cs = indexWhere (\<lambda>c. c \<in> set cs) s"

definition IndexByte :: "string \<Rightarrow> char \<Rightarrow> nat option" where
  "IndexByte s c = indexWhere (\<lambda>x. x = c) s"

definition LastIndexByte :: "string \<Rightarrow> char \<Rightarrow> nat option" where
  "LastIndexByte s c =
     map_option (\<lambda>i. length s - 1 - i) (indexWhere (\<lambda>x. x = c) (rev s))"

text \<open>Conversions between strings and byte slices.\<close>

definition bytes_of :: "string \<Rightarrow> byte list" where
  "bytes_of = map (\<lambda>c. word_of_nat (code c))"

definition string_of :: "byte list \<Rightarrow> string" where
  "string_of = map (\<lambda>b. char_of (unat b))"

subsection \<open>Facts about the string functions\<close>

lemma code_lt [simp]: "code c < 256"
  by (simp add: code_def)

lemma code_inject [simp]: "code c = code d \<longleftrightarrow> c = d"
  by (simp add: code_def)

lemma code_char_of [simp]: "n < 256 \<Longrightarrow> code (char_of n) = n"
  by (simp add: code_def)

lemma HasPrefix_iff: "HasPrefix s p \<longleftrightarrow> prefix p s"
  by (metis HasPrefix_def append_eq_conv_conj prefix_def take_is_prefix)

lemma HasSuffix_iff: "HasSuffix s p \<longleftrightarrow> suffix p s"
  unfolding HasSuffix_def suffix_def
  by (metis append_eq_conv_conj append_take_drop_id diff_diff_cancel length_append
      length_drop le_add2 diff_add_inverse2)

lemma Contains_iff: "Contains s p \<longleftrightarrow> sublist p s"
  by (induction s) (simp_all add: HasPrefix_iff sublist_Cons_right)

lemma indexWhere_Some:
  "indexWhere P s = Some i \<Longrightarrow> i < length s \<and> P (s ! i) \<and> (\<forall>j < i. \<not> P (s ! j))"
proof (induction s arbitrary: i)
  case Nil
  then show ?case by simp
next
  case (Cons x s)
  show ?case
  proof (cases "P x")
    case True
    with Cons.prems show ?thesis by simp
  next
    case False
    with Cons.prems obtain j where "indexWhere P s = Some j" and "i = Suc j" by auto
    with Cons.IH[of j] False show ?thesis by (auto simp: nth_Cons split: nat.splits)
  qed
qed

lemma indexWhere_None: "indexWhere P s = None \<longleftrightarrow> (\<forall>x \<in> set s. \<not> P x)"
  by (induction s) auto

lemma lowerByte_ascii [simp]: "\<not> runeSelf (lowerByte c) \<longleftrightarrow> \<not> runeSelf c"
  by (auto simp: lowerByte_def runeSelf_def upperASCII_def)

lemma lowerByte_idem [simp]: "lowerByte (lowerByte c) = lowerByte c"
  by (auto simp: lowerByte_def upperASCII_def)

lemma foldByteEq_lower: "foldByteEq x y \<longleftrightarrow> lowerByte x = lowerByte y"
proof -
  have "lowerByte x = lowerByte y \<longleftrightarrow> code (lowerByte x) = code (lowerByte y)" by simp
  also have "\<dots> \<longleftrightarrow> foldByteEq x y"
    by (auto simp: foldByteEq_def lowerByte_def upperASCII_def Let_def min_def max_def
        simp flip: code_inject)
  finally show ?thesis by simp
qed

lemma ToLower_ascii: "isASCII s \<Longrightarrow> ToLower u s = map lowerByte s"
  by (simp add: ToLower_def)

lemma isASCII_lower [simp]: "isASCII (map lowerByte s) \<longleftrightarrow> isASCII s"
  by (simp add: isASCII_def list_all_iff)

lemma ToLower_idem: "isASCII s \<Longrightarrow> ToLower u (ToLower u s) = ToLower u s"
  by (simp add: ToLower_ascii comp_def)

text \<open>On ASCII strings \<open>EqualFold\<close> is equality of the lower-case forms, whatever the Unicode
  tables say.\<close>

lemma EqualFold_ascii:
  "isASCII s \<Longrightarrow> isASCII t \<Longrightarrow> EqualFold u s t \<longleftrightarrow> ToLower u s = ToLower u t"
proof (induction u s t rule: EqualFold.induct)
  case (3 u x s y t)
  then show ?case by (auto simp: ToLower_def isASCII_def foldByteEq_lower)
qed (auto simp: ToLower_def isASCII_def)

lemma EqualFold_refl_ascii: "isASCII s \<Longrightarrow> EqualFold u s s"
  by (simp add: EqualFold_ascii)

lemma string_of_bytes_of [simp]: "string_of (bytes_of s) = s"
proof -
  have "char_of (unat (word_of_nat (code c) :: byte)) = c" for c
    by (simp add: code_def unat_of_nat)
  then show ?thesis by (simp add: string_of_def bytes_of_def comp_def)
qed

lemma bytes_of_string_of [simp]: "bytes_of (string_of b) = b"
proof -
  have "unat x < 2 ^ LENGTH(8)" for x :: byte by (rule unsigned_less)
  then have "word_of_nat (code (char_of (unat x))) = x" for x :: byte by simp
  then show ?thesis by (simp add: string_of_def bytes_of_def comp_def)
qed

lemma length_bytes_of [simp]: "length (bytes_of s) = length s"
  and length_string_of [simp]: "length (string_of b) = length b"
  by (simp_all add: bytes_of_def string_of_def)

lemma TrimSpace_id:
  assumes "isASCII s" and "s = [] \<or> (\<not> asciiSpace (hd s) \<and> \<not> asciiSpace (last s))"
  shows "TrimSpace u s = s"
proof (cases "s = []")
  case True
  then show ?thesis by (simp add: TrimSpace_def)
next
  case False
  with assms(2) have 1: "dropWhile asciiSpace s = s" by (cases s) auto
  from False assms(2) have 2: "dropWhile asciiSpace (rev s) = rev s"
    by (cases "rev s") (auto simp: last_rev[symmetric] hd_rev)
  have "\<not> runeSelf (hd s)" "\<not> runeSelf (last s)" using assms(1) False by (auto simp: isASCII_def list_all_iff)
  with 1 2 show ?thesis by (simp add: TrimSpace_def Let_def)
qed

end
