(* ===== verification/Model_Flow.thy ===== *)
theory Model_Flow
  imports Go_Strings
begin

text \<open>
  The data of \<open>internal/model/flow.go\<close>: a captured flow with its two HTTP sides and its
  optional TLS, HTTP/2, SOCKS, WebSocket and gRPC parts, and the functions on it: the time it is
  ordered by for eviction, its path, and the number of bytes it is charged for. Go's \<open>int\<close>
  and \<open>int64\<close> are integers here; the sizes they hold are lengths of byte slices in memory.
\<close>

subsection \<open>Constants\<close>

definition FlowStateOpen :: string where "FlowStateOpen = ''open''"
definition FlowStatePaused :: string where "FlowStatePaused = ''paused''"
definition FlowStateCompleted :: string where "FlowStateCompleted = ''completed''"
definition FlowStateDropped :: string where "FlowStateDropped = ''dropped''"

definition RulePhaseRequest :: string where "RulePhaseRequest = ''request''"
definition RulePhaseResponse :: string where "RulePhaseResponse = ''response''"
definition RulePhaseWebSocket :: string where "RulePhaseWebSocket = ''websocket''"

definition WSMaxFrames :: nat where "WSMaxFrames = 4096"
definition WSFrameOverhead :: int where "WSFrameOverhead = 64"
definition GRPCMaxNestDepth :: nat where "GRPCMaxNestDepth = 8"
definition GRPCFieldOverhead :: int where "GRPCFieldOverhead = 16"
definition GRPCDecodeTruncated :: string where "GRPCDecodeTruncated = ''truncated''"
definition GRPCDecodeMalformed :: string where "GRPCDecodeMalformed = ''malformed''"

lemmas flow_state_defs =
  FlowStateOpen_def FlowStatePaused_def FlowStateCompleted_def FlowStateDropped_def

lemma flow_states_distinct [simp]:
  "FlowStateOpen \<noteq> FlowStatePaused" "FlowStateCompleted \<noteq> FlowStatePaused"
  "FlowStateDropped \<noteq> FlowStatePaused" "FlowStatePaused \<noteq> []" "FlowStateCompleted \<noteq> []"
  "FlowStatePaused \<noteq> FlowStateOpen" "FlowStatePaused \<noteq> FlowStateCompleted"
  "FlowStatePaused \<noteq> FlowStateDropped"
  by (simp_all add: flow_state_defs)

subsection \<open>Data\<close>

record header =
  hdr_Name :: string
  hdr_Value :: string

record HTTPMessage =
  msg_Headers :: "header slice"
  msg_Trailers :: "header slice"
  msg_Body :: "byte slice"
  msg_Size :: int
  msg_Truncated :: bool

record HTTP2Info =
  h2_StreamID :: "32 word"
  h2_ParentStreamID :: "32 word"
  h2_PromisedID :: "32 word"
  h2_Pushed :: bool

record SOCKSInfo =
  socks_Version :: int
  socks_ATYP :: string
  socks_Dest :: string
  socks_Command :: string
  socks_BND :: string
  socks_User :: string
  socks_LastDest :: string
  socks_Datagrams :: int

record WebSocketFrame =
  fr_Direction :: string
  fr_Opcode :: string
  fr_OpcodeNum :: int
  fr_Fin :: bool
  fr_Masked :: bool
  fr_CloseCode :: int
  fr_Payload :: "byte slice"
  fr_Size :: int
  fr_Truncated :: bool
  fr_Action :: string

record WebSocketInfo =
  ws_FrameCount :: int
  ws_Truncated :: bool
  ws_Frames :: "WebSocketFrame slice"

datatype ProtoField =
  ProtoField (pf_Number: int) (pf_WireType: int) (pf_Text: string) (pf_Uint: "64 word")
    (pf_Nested: "ProtoField list option")

record GRPCMessage =
  gm_Compressed :: bool
  gm_Length :: int
  gm_Fields :: "ProtoField slice"

record GRPCInfo =
  grpc_ContentType :: string
  grpc_Compressed :: bool
  grpc_Messages :: "GRPCMessage slice"
  grpc_Truncated :: bool
  grpc_DecodeError :: string

record TLSInfo =
  tls_SNI :: string
  tls_Version :: string
  tls_CipherSuite :: string
  tls_ALPN :: string
  tls_UpstreamVerified :: bool
  tls_LeafDNS :: "string slice"

record Timings =
  tm_DNSMs :: int
  tm_ConnectMs :: int
  tm_TLSMs :: int
  tm_TTFBMs :: int
  tm_TotalMs :: int

record Flow =
  fl_ID :: string
  fl_StartedAt :: gotime
  fl_CompletedAt :: gotime
  fl_State :: string
  fl_PausedPhase :: string
  fl_ClientAddr :: string
  fl_Method :: string
  fl_URL :: string
  fl_Host :: string
  fl_Scheme :: string
  fl_Protocol :: string
  fl_Status :: int
  fl_Error :: string
  fl_Intercepted :: bool
  fl_Request :: HTTPMessage
  fl_Response :: HTTPMessage
  fl_TLS :: "TLSInfo option"
  fl_HTTP2 :: "HTTP2Info option"
  fl_SOCKS :: "SOCKSInfo option"
  fl_WebSocket :: "WebSocketInfo option"
  fl_GRPC :: "GRPCInfo option"
  fl_Via :: string
  fl_OriginalDest :: string
  fl_Timings :: Timings
  fl_RuleIDs :: "string slice"
  fl_Truncated :: bool

record InsertResult =
  ir_ID :: string
  ir_Generation :: nat

record FlowFilter =
  q_Host :: string
  q_Method :: string
  q_PathPrefix :: string
  q_Status :: int
  q_After :: gotime
  q_Intercepted :: "bool option"
  q_Scheme :: string
  q_RuleID :: string
  q_Protocol :: string
  q_Via :: string

record ListQuery =
  lq_Filter :: FlowFilter
  lq_Cursor :: string
  lq_Limit :: int

record StoreStats =
  st_FlowCount :: int
  st_Bytes :: int
  st_Generation :: nat
  st_Epoch :: nat
  st_Evictions :: nat

subsection \<open>Operations\<close>

definition EvictTime :: "Flow \<Rightarrow> gotime" where
  "EvictTime f = (if fl_CompletedAt f \<noteq> 0 then fl_CompletedAt f else fl_StartedAt f)"

definition flowPath :: "go_env \<Rightarrow> Flow \<Rightarrow> string" where
  "flowPath u f =
     (if fl_URL f = '''' then ''''
      else case url_parse_path u (fl_URL f) of
        None \<Rightarrow> (case IndexAny (fl_URL f) ''?#'' of Some i \<Rightarrow> take i (fl_URL f) | None \<Rightarrow> fl_URL f)
      | Some p \<Rightarrow> if p = '''' then ''/'' else p)"

definition headersResident :: "header slice \<Rightarrow> int" where
  "headersResident hs =
     sum_list (map (\<lambda>h. int (length (hdr_Name h) + length (hdr_Value h) + 4)) (elems hs))"

definition messageResident :: "HTTPMessage \<Rightarrow> int" where
  "messageResident m =
     (let n = int (length (elems (msg_Body m)))
      in (if n = 0 then msg_Size m else n)
         + headersResident (msg_Headers m) + headersResident (msg_Trailers m))"

definition frameResident :: "WebSocketFrame \<Rightarrow> int" where
  "frameResident fr =
     (let l = int (length (elems (fr_Payload fr)))
      in WSFrameOverhead + (if l > 0 then l else fr_Size fr))"

definition websocketResident :: "WebSocketInfo option \<Rightarrow> int" where
  "websocketResident w =
     (case w of None \<Rightarrow> 0 | Some ws \<Rightarrow> sum_list (map frameResident (elems (ws_Frames ws))))"

fun protoFieldResident :: "ProtoField \<Rightarrow> int" where
  "protoFieldResident (ProtoField num wt tx v nested) =
     GRPCFieldOverhead + int (length tx) +
     (case nested of None \<Rightarrow> 0 | Some fs \<Rightarrow> sum_list (map protoFieldResident fs))"

definition grpcMessageResident :: "GRPCMessage \<Rightarrow> int" where
  "grpcMessageResident m =
     GRPCFieldOverhead + sum_list (map protoFieldResident (elems (gm_Fields m)))"

definition grpcResident :: "GRPCInfo option \<Rightarrow> int" where
  "grpcResident g =
     (case g of None \<Rightarrow> 0
      | Some g \<Rightarrow> int (length (grpc_ContentType g) + length (grpc_DecodeError g))
                + sum_list (map grpcMessageResident (elems (grpc_Messages g))))"

definition TreeBytes :: "GRPCInfo \<Rightarrow> int" where
  "TreeBytes g = grpcResident (Some g)"

definition ResidentBytes :: "Flow \<Rightarrow> int" where
  "ResidentBytes f =
     messageResident (fl_Request f) + messageResident (fl_Response f)
     + websocketResident (fl_WebSocket f) + grpcResident (fl_GRPC f)"

subsection \<open>Well-formed flows\<close>

text \<open>Sizes are counts. Everything the proxy captures sets them to the length of a byte slice.\<close>

definition wf_message :: "HTTPMessage \<Rightarrow> bool" where
  "wf_message m \<longleftrightarrow> 0 \<le> msg_Size m"

definition wf_websocket :: "WebSocketInfo option \<Rightarrow> bool" where
  "wf_websocket w =
     (case w of None \<Rightarrow> True | Some ws \<Rightarrow> list_all (\<lambda>fr. 0 \<le> fr_Size fr) (elems (ws_Frames ws)))"

definition wf_flow :: "Flow \<Rightarrow> bool" where
  "wf_flow f \<longleftrightarrow>
     wf_message (fl_Request f) \<and> wf_message (fl_Response f) \<and> wf_websocket (fl_WebSocket f)"

lemma headersResident_nonneg [simp]: "0 \<le> headersResident hs"
  by (auto simp: headersResident_def intro!: sum_list_nonneg)

lemma messageResident_nonneg [simp]: "wf_message m \<Longrightarrow> 0 \<le> messageResident m"
  by (simp add: messageResident_def wf_message_def Let_def)

lemma websocketResident_nonneg [simp]: "wf_websocket w \<Longrightarrow> 0 \<le> websocketResident w"
  by (auto simp: websocketResident_def wf_websocket_def frameResident_def WSFrameOverhead_def
      Let_def list_all_iff intro!: sum_list_nonneg split: option.splits)

lemma protoFieldResident_pos: "0 < protoFieldResident f"
proof (induction f)
  case (ProtoField num wt tx v nested)
  have "0 \<le> (case nested of None \<Rightarrow> 0 | Some fs \<Rightarrow> sum_list (map protoFieldResident fs))"
  proof (cases nested)
    case None
    then show ?thesis by simp
  next
    case (Some fs)
    with ProtoField have "\<forall>g \<in> set fs. 0 \<le> protoFieldResident g"
      by (meson less_imp_le option.set_intros)
    with Some show ?thesis by (auto intro!: sum_list_nonneg)
  qed
  then show ?case by (simp add: GRPCFieldOverhead_def)
qed

lemma grpcMessageResident_pos: "0 < grpcMessageResident m"
proof -
  have "0 \<le> sum_list (map protoFieldResident (elems (gm_Fields m)))"
    using protoFieldResident_pos by (auto intro!: sum_list_nonneg simp: less_imp_le)
  then show ?thesis by (simp add: grpcMessageResident_def GRPCFieldOverhead_def)
qed

lemma grpcResident_nonneg [simp]: "0 \<le> grpcResident g"
  using grpcMessageResident_pos
  by (auto simp: grpcResident_def less_imp_le intro!: sum_list_nonneg add_nonneg_nonneg
      split: option.splits)

lemma ResidentBytes_nonneg [simp]: "wf_flow f \<Longrightarrow> 0 \<le> ResidentBytes f"
  by (simp add: ResidentBytes_def wf_flow_def)

end
