(* ===== verification/Store_Flow.thy ===== *)
theory Store_Flow
  imports Model_Flow
begin

text \<open>
  The functions of the package \<open>store\<close> that work on one flow: the deep copies of
  \<open>clone.go\<close>, the filter of \<open>filter.go\<close> and the body caps of \<open>memory.go\<close>.
  Values are immutable in the model, so a deep copy is a value; what the copies may change is
  whether a slice with no element is nil, and the lemmas say so.
\<close>

subsection \<open>Deep copies (clone.go)\<close>

definition cloneHeaders :: "header slice \<Rightarrow> header slice" where
  "cloneHeaders hs = (case hs of None \<Rightarrow> None | Some xs \<Rightarrow> Some xs)"

definition cloneBytes :: "byte slice \<Rightarrow> byte slice" where
  "cloneBytes b = (case b of None \<Rightarrow> None | Some xs \<Rightarrow> Some xs)"

definition cloneMessage :: "HTTPMessage \<Rightarrow> HTTPMessage" where
  "cloneMessage m =
     m\<lparr>msg_Headers := cloneHeaders (msg_Headers m),
       msg_Trailers := cloneHeaders (msg_Trailers m),
       msg_Body := (case msg_Body m of None \<Rightarrow> None | Some b \<Rightarrow> cloneBytes (Some b))\<rparr>"

definition cloneHTTP2 :: "HTTP2Info option \<Rightarrow> HTTP2Info option" where
  "cloneHTTP2 w = (case w of None \<Rightarrow> None | Some h \<Rightarrow> Some h)"

definition cloneSOCKS :: "SOCKSInfo option \<Rightarrow> SOCKSInfo option" where
  "cloneSOCKS w = (case w of None \<Rightarrow> None | Some h \<Rightarrow> Some h)"

definition cloneFrame :: "WebSocketFrame \<Rightarrow> WebSocketFrame" where
  "cloneFrame fr =
     (case fr_Payload fr of None \<Rightarrow> fr | Some p \<Rightarrow> fr\<lparr>fr_Payload := append_nil p\<rparr>)"

definition cloneWebSocket :: "WebSocketInfo option \<Rightarrow> WebSocketInfo option" where
  "cloneWebSocket w =
     (case w of None \<Rightarrow> None
      | Some ws \<Rightarrow> Some (ws\<lparr>ws_Frames :=
          (case ws_Frames ws of None \<Rightarrow> None | Some frs \<Rightarrow> Some (map cloneFrame frs))\<rparr>))"

fun cloneProtoField :: "ProtoField \<Rightarrow> ProtoField" where
  "cloneProtoField (ProtoField num wt tx v nested) =
     ProtoField num wt tx v (case nested of None \<Rightarrow> None | Some fs \<Rightarrow> Some (map cloneProtoField fs))"

definition cloneProtoFields :: "ProtoField slice \<Rightarrow> ProtoField slice" where
  "cloneProtoFields fs = (case fs of None \<Rightarrow> None | Some xs \<Rightarrow> Some (map cloneProtoField xs))"

definition cloneGRPC :: "GRPCInfo option \<Rightarrow> GRPCInfo option" where
  "cloneGRPC w =
     (case w of None \<Rightarrow> None
      | Some g \<Rightarrow> Some (g\<lparr>grpc_Messages :=
          (case grpc_Messages g of None \<Rightarrow> None
           | Some ms \<Rightarrow> Some (map (\<lambda>m. m\<lparr>gm_Fields := cloneProtoFields (gm_Fields m)\<rparr>) ms))\<rparr>))"

definition cloneTLS :: "TLSInfo option \<Rightarrow> TLSInfo option" where
  "cloneTLS w =
     (case w of None \<Rightarrow> None
      | Some t \<Rightarrow> Some (case tls_LeafDNS t of None \<Rightarrow> t
                      | Some ns \<Rightarrow> t\<lparr>tls_LeafDNS := append_nil ns\<rparr>))"

definition cloneFlow :: "Flow \<Rightarrow> Flow" where
  "cloneFlow f =
     f\<lparr>fl_Request := cloneMessage (fl_Request f),
       fl_Response := cloneMessage (fl_Response f),
       fl_TLS := cloneTLS (fl_TLS f),
       fl_HTTP2 := cloneHTTP2 (fl_HTTP2 f),
       fl_SOCKS := cloneSOCKS (fl_SOCKS f),
       fl_WebSocket := cloneWebSocket (fl_WebSocket f),
       fl_GRPC := cloneGRPC (fl_GRPC f),
       fl_RuleIDs := (case fl_RuleIDs f of None \<Rightarrow> None | Some ids \<Rightarrow> append_nil ids)\<rparr>"

lemma cloneHeaders_id [simp]: "cloneHeaders hs = hs"
  and cloneBytes_id [simp]: "cloneBytes b = b"
  by (simp_all add: cloneHeaders_def cloneBytes_def split: option.splits)

lemma cloneHTTP2_id [simp]: "cloneHTTP2 h = h"
  and cloneSOCKS_id [simp]: "cloneSOCKS k = k"
  by (simp_all add: cloneHTTP2_def cloneSOCKS_def split: option.splits)

lemma cloneMessage_id [simp]: "cloneMessage m = m"
  by (simp add: cloneMessage_def split: option.splits)

lemma cloneProtoField_id [simp]: "cloneProtoField f = f"
proof (induction f)
  case (ProtoField num wt tx v nested)
  then have "map cloneProtoField fs = fs" if "nested = Some fs" for fs
    using that by (auto intro: map_idI)
  then show ?case by (simp split: option.splits)
qed

lemma cloneGRPC_id [simp]: "cloneGRPC g = g"
  by (auto simp: cloneGRPC_def cloneProtoFields_def map_idI split: option.splits)

lemma cloneFrame_fields [simp]:
  "elems (fr_Payload (cloneFrame fr)) = elems (fr_Payload fr)"
  "fr_Size (cloneFrame fr) = fr_Size fr"
  by (simp_all add: cloneFrame_def split: option.splits)

lemma append_nil_idem [simp]: "append_nil (elems (append_nil xs)) = append_nil xs"
  by simp

lemma cloneFrame_idem [simp]: "cloneFrame (cloneFrame fr) = cloneFrame fr"
  by (auto simp: cloneFrame_def append_nil_def split: option.splits)

lemma cloneFlow_fields [simp]:
  "fl_ID (cloneFlow f) = fl_ID f" "fl_State (cloneFlow f) = fl_State f"
  "fl_StartedAt (cloneFlow f) = fl_StartedAt f" "fl_CompletedAt (cloneFlow f) = fl_CompletedAt f"
  "fl_Host (cloneFlow f) = fl_Host f" "fl_PausedPhase (cloneFlow f) = fl_PausedPhase f"
  "fl_Request (cloneFlow f) = fl_Request f" "fl_Response (cloneFlow f) = fl_Response f"
  "fl_GRPC (cloneFlow f) = fl_GRPC f"
  "fl_WebSocket (cloneFlow f) = cloneWebSocket (fl_WebSocket f)"
  by (simp_all add: cloneFlow_def)

lemma frameResident_clone [simp]: "frameResident (cloneFrame fr) = frameResident fr"
  by (simp add: frameResident_def Let_def)

lemma websocketResident_clone [simp]: "websocketResident (cloneWebSocket w) = websocketResident w"
  by (simp add: websocketResident_def cloneWebSocket_def comp_def split: option.splits)

lemma wf_websocket_clone [simp]: "wf_websocket (cloneWebSocket w) = wf_websocket w"
  by (simp add: wf_websocket_def cloneWebSocket_def list_all_iff split: option.splits)

text \<open>A clone is charged what the original is charged, and cloning twice is cloning once.\<close>

lemma ResidentBytes_clone [simp]: "ResidentBytes (cloneFlow f) = ResidentBytes f"
  by (simp add: ResidentBytes_def)

lemma wf_flow_clone [simp]: "wf_flow (cloneFlow f) = wf_flow f"
  by (simp add: wf_flow_def)

lemma cloneFlow_idem: "cloneFlow (cloneFlow f) = cloneFlow f"
  by (auto simp: cloneFlow_def cloneTLS_def cloneWebSocket_def append_nil_def
      split: option.splits if_splits)

subsection \<open>Filters (filter.go)\<close>

fun hasRule :: "string list \<Rightarrow> string \<Rightarrow> bool" where
  "hasRule [] want = False"
| "hasRule (x # ids) want = (if x = want then True else hasRule ids want)"

lemma hasRule_iff: "hasRule ids want \<longleftrightarrow> want \<in> set ids"
  by (induction ids) auto

definition matchFilter :: "go_env \<Rightarrow> Flow \<Rightarrow> FlowFilter \<Rightarrow> bool" where
  "matchFilter u f q =
     (if q_Host q \<noteq> '''' \<and> \<not> EqualFold u (fl_Host f) (q_Host q) then False
      else if q_Method q \<noteq> '''' \<and> \<not> EqualFold u (fl_Method f) (q_Method q) then False
      else if q_Scheme q \<noteq> '''' \<and> fl_Scheme f \<noteq> q_Scheme q then False
      else if q_Status q \<noteq> 0 \<and> fl_Status f \<noteq> q_Status q then False
      else if (case q_Intercepted q of None \<Rightarrow> False | Some b \<Rightarrow> fl_Intercepted f \<noteq> b) then False
      else if q_After q \<noteq> 0 \<and> \<not> q_After q < fl_StartedAt f then False
      else if q_PathPrefix q \<noteq> '''' \<and> \<not> HasPrefix (flowPath u f) (q_PathPrefix q) then False
      else if q_RuleID q \<noteq> '''' \<and> \<not> hasRule (elems (fl_RuleIDs f)) (q_RuleID q) then False
      else if q_Protocol q \<noteq> '''' \<and> \<not> EqualFold u (fl_Protocol f) (q_Protocol q) then False
      else if q_Via q \<noteq> '''' \<and> fl_Via f \<noteq> q_Via q then False
      else True)"

definition emptyFilter :: FlowFilter where
  "emptyFilter = \<lparr>q_Host = '''', q_Method = '''', q_PathPrefix = '''', q_Status = 0, q_After = 0,
     q_Intercepted = None, q_Scheme = '''', q_RuleID = '''', q_Protocol = '''', q_Via = ''''\<rparr>"

lemma matchFilter_empty [simp]: "matchFilter u f emptyFilter"
  by (simp add: matchFilter_def emptyFilter_def)

end
