(* ===== verification/Store_Caps.thy ===== *)
theory Store_Caps
  imports Store_Flow
begin

text \<open>
  The caps an inserted flow is cut down to (\<open>internal/store/memory.go\<close>,
  \<open>applyBodyCaps\<close> and the three functions it calls). The lemmas bound every captured
  part by the cap, show that what is kept is a prefix of what was captured, and that a cut is
  always flagged.
\<close>

subsection \<open>Definitions\<close>

definition truncateSide :: "HTTPMessage \<Rightarrow> int \<Rightarrow> HTTPMessage \<times> bool" where
  "truncateSide msg cap =
     (let m1 = (if int (length (elems (msg_Body msg))) > cap
                then msg\<lparr>msg_Body := append_nil (take (nat cap) (elems (msg_Body msg))),
                         msg_Truncated := True\<rparr>
                else msg);
          n = int (length (elems (msg_Body m1)));
          m2 = (if msg_Size m1 = 0 then m1\<lparr>msg_Size := n\<rparr>
                else if msg_Size m1 > cap \<and> n > 0 then m1\<lparr>msg_Size := n, msg_Truncated := True\<rparr>
                else m1)
      in (m2, msg_Truncated m2))"

text \<open>The loop over the frames: the frames kept, and whether it returned early.\<close>

fun wsCapLoop :: "int \<Rightarrow> int \<Rightarrow> WebSocketFrame list \<Rightarrow> WebSocketFrame list \<times> bool" where
  "wsCapLoop cap used [] = ([], False)"
| "wsCapLoop cap used (fr # frs) =
     (let p = elems (fr_Payload fr); remain = cap - used
      in if remain \<le> 0 then ([], True)
         else if int (length p) > remain then
           (let q = take (nat remain) p
            in ([fr\<lparr>fr_Payload := append_nil q, fr_Truncated := True, fr_Size := int (length q)\<rparr>],
                True))
         else (let fr' = (if fr_Size fr = 0 then fr\<lparr>fr_Size := int (length p)\<rparr> else fr);
                   (rest, cut) = wsCapLoop cap (used + int (length p)) frs
               in (fr' # rest, cut)))"

definition truncateWebSocket ::
    "WebSocketInfo option \<Rightarrow> int \<Rightarrow> WebSocketInfo option \<times> bool" where
  "truncateWebSocket w cap =
     (case w of None \<Rightarrow> (None, False)
      | Some ws \<Rightarrow>
          if cap \<le> 0 then (Some ws, False)
          else case ws_Frames ws of
            None \<Rightarrow> (Some ws, ws_Truncated ws)
          | Some frs \<Rightarrow>
              (let over = length frs > WSMaxFrames;
                   frs1 = (if over then take WSMaxFrames frs else frs);
                   (frs2, cut) = wsCapLoop cap 0 frs1
               in (Some (ws\<lparr>ws_Frames := Some frs2,
                            ws_Truncated := ws_Truncated ws \<or> over \<or> cut\<rparr>),
                   ws_Truncated ws \<or> over \<or> cut)))"

text \<open>One round of the loop of \<open>truncateGRPC\<close>: drop the last field of the last message, or
  the last message when it has no field left.\<close>

definition grpcCapStep :: "GRPCInfo \<Rightarrow> GRPCInfo" where
  "grpcCapStep g =
     (let ms = elems (grpc_Messages g); l = last ms; fs = elems (gm_Fields l);
          ms' = (if fs \<noteq> [] then butlast ms @ [l\<lparr>gm_Fields := Some (butlast fs)\<rparr>]
                 else butlast ms)
      in g\<lparr>grpc_Messages := Some ms', grpc_Truncated := True,
           grpc_DecodeError := (if grpc_DecodeError g = '''' then GRPCDecodeTruncated
                                else grpc_DecodeError g)\<rparr>)"

definition grpcSize :: "GRPCInfo \<Rightarrow> nat" where
  "grpcSize g = sum_list (map (\<lambda>m. Suc (length (elems (gm_Fields m)))) (elems (grpc_Messages g)))"

lemma grpcCapStep_decreases:
  assumes "elems (grpc_Messages g) \<noteq> []"
  shows "grpcSize (grpcCapStep g) < grpcSize g"
proof -
  obtain ms l where ms: "elems (grpc_Messages g) = ms @ [l]"
    using assms by (metis rev_exhaust)
  show ?thesis
    by (cases "elems (gm_Fields l) = []")
      (simp_all add: grpcSize_def grpcCapStep_def ms Let_def)
qed

function grpcCapLoop :: "int \<Rightarrow> GRPCInfo \<Rightarrow> GRPCInfo" where
  "grpcCapLoop cap g =
     (if TreeBytes g > cap \<and> elems (grpc_Messages g) \<noteq> []
      then grpcCapLoop cap (grpcCapStep g) else g)"
  by pat_completeness auto
termination
  by (relation "measure (grpcSize \<circ> snd)") (auto simp: grpcCapStep_decreases)

declare grpcCapLoop.simps [simp del]

definition truncateGRPC :: "GRPCInfo option \<Rightarrow> int \<Rightarrow> GRPCInfo option \<times> bool" where
  "truncateGRPC w cap =
     (case w of None \<Rightarrow> (None, False)
      | Some g \<Rightarrow>
          if cap \<le> 0 then (Some g, False)
          else (Some (grpcCapLoop cap g),
                grpc_Truncated g \<or> (TreeBytes g > cap \<and> elems (grpc_Messages g) \<noteq> [])))"

definition applyBodyCaps :: "Flow \<Rightarrow> int \<Rightarrow> Flow" where
  "applyBodyCaps f cap =
     (if cap \<le> 0 then f
      else let (rq, t1) = truncateSide (fl_Request f) cap;
               (rs, t2) = truncateSide (fl_Response f) cap;
               (ws, t3) = truncateWebSocket (fl_WebSocket f) cap;
               (gr, t4) = truncateGRPC (fl_GRPC f) cap
           in f\<lparr>fl_Request := rq, fl_Response := rs, fl_WebSocket := ws, fl_GRPC := gr,
                fl_Truncated := fl_Truncated f \<or> t1 \<or> t2 \<or> t3 \<or> t4\<rparr>)"

subsection \<open>One side of an exchange\<close>

abbreviation bodyOf :: "HTTPMessage \<Rightarrow> byte list" where
  "bodyOf m \<equiv> elems (msg_Body m)"

lemma truncateSide_body:
  "0 < cap \<Longrightarrow> bodyOf (fst (truncateSide m cap)) = take (nat cap) (bodyOf m)"
  by (simp add: truncateSide_def Let_def)

lemma truncateSide_flag:
  "0 < cap \<Longrightarrow> int (length (bodyOf m)) > cap \<Longrightarrow> snd (truncateSide m cap)"
  by (simp add: truncateSide_def Let_def)

lemma truncateSide_result: "snd (truncateSide m cap) = msg_Truncated (fst (truncateSide m cap))"
  by (simp add: truncateSide_def Let_def)

lemma truncateSide_wf: "wf_message m \<Longrightarrow> wf_message (fst (truncateSide m cap))"
  by (simp add: truncateSide_def wf_message_def Let_def)

lemma truncateSide_size_pos:
  "0 < cap \<Longrightarrow> wf_message m \<Longrightarrow> bodyOf (fst (truncateSide m cap)) \<noteq> [] \<Longrightarrow>
   0 < msg_Size (fst (truncateSide m cap))"
  by (auto simp: truncateSide_def wf_message_def Let_def split: if_splits)

subsection \<open>WebSocket frames\<close>

definition payloads :: "WebSocketFrame list \<Rightarrow> byte list" where
  "payloads frs = concat (map (elems \<circ> fr_Payload) frs)"

lemma payloads_simps [simp]:
  "payloads [] = []" "payloads (fr # frs) = elems (fr_Payload fr) @ payloads frs"
  by (simp_all add: payloads_def)

lemma wsCapLoop_bound:
  "used \<le> cap \<Longrightarrow> int (length (payloads (fst (wsCapLoop cap used frs)))) \<le> cap - used"
proof (induction cap used frs rule: wsCapLoop.induct)
  case (2 cap used fr frs)
  show ?case
  proof (cases "cap - used \<le> 0 \<or> int (length (elems (fr_Payload fr))) > cap - used")
    case True
    with "2.prems" show ?thesis by (auto simp: Let_def)
  next
    case False
    with 2 have "int (length (payloads (fst
        (wsCapLoop cap (used + int (length (elems (fr_Payload fr)))) frs))))
        \<le> cap - (used + int (length (elems (fr_Payload fr))))" by simp
    with False show ?thesis by (simp add: Let_def case_prod_beta)
  qed
qed simp

lemma wsCapLoop_prefix: "prefix (payloads (fst (wsCapLoop cap used frs))) (payloads frs)"
proof (induction cap used frs rule: wsCapLoop.induct)
  case (2 cap used fr frs)
  show ?case
  proof (cases "cap - used \<le> 0 \<or> int (length (elems (fr_Payload fr))) > cap - used")
    case True
    then show ?thesis by (auto simp: Let_def take_is_prefix prefix_prefix)
  next
    case False
    with 2 have "prefix (payloads (fst
        (wsCapLoop cap (used + int (length (elems (fr_Payload fr)))) frs))) (payloads frs)"
      by simp
    with False show ?thesis by (simp add: Let_def case_prod_beta)
  qed
qed simp

lemma wsCapLoop_length: "length (fst (wsCapLoop cap used frs)) \<le> length frs"
  by (induction cap used frs rule: wsCapLoop.induct) (auto simp: Let_def split: prod.splits)

text \<open>The frames returned say how long their payload is, which is what the spill reader splits
  the spilled bytes by.\<close>

definition sized_frame :: "WebSocketFrame \<Rightarrow> bool" where
  "sized_frame fr \<longleftrightarrow> fr_Size fr = int (length (elems (fr_Payload fr)))"

lemma wsCapLoop_sized:
  "list_all (\<lambda>fr. fr_Size fr = 0 \<or> sized_frame fr) frs \<Longrightarrow>
   list_all sized_frame (fst (wsCapLoop cap used frs))"
  by (induction cap used frs rule: wsCapLoop.induct)
    (auto simp: Let_def sized_frame_def split: prod.splits)

lemma wsCapLoop_wf:
  "list_all (\<lambda>fr. 0 \<le> fr_Size fr) frs \<Longrightarrow>
   list_all (\<lambda>fr. 0 \<le> fr_Size fr) (fst (wsCapLoop cap used frs))"
  by (induction cap used frs rule: wsCapLoop.induct) (auto simp: Let_def split: prod.splits)

lemma wsCapLoop_uncut:
  "\<not> snd (wsCapLoop cap used frs) \<Longrightarrow> payloads (fst (wsCapLoop cap used frs)) = payloads frs"
  by (induction cap used frs rule: wsCapLoop.induct)
    (auto simp: Let_def split: prod.splits if_splits)

lemma truncateWebSocket_wf:
  assumes "wf_websocket w"
  shows "wf_websocket (fst (truncateWebSocket w cap))"
proof -
  have "list_all (\<lambda>fr. 0 \<le> fr_Size fr) (fst (wsCapLoop cap 0 (take n frs)))"
    if "list_all (\<lambda>fr. 0 \<le> fr_Size fr) frs" for frs n
    using that by (intro wsCapLoop_wf) (auto simp: list_all_iff dest: in_set_takeD)
  from this[of _ WSMaxFrames] assms wsCapLoop_wf[of _ cap 0] show ?thesis
    by (auto simp: truncateWebSocket_def wf_websocket_def Let_def case_prod_beta
        split: option.splits)
qed

definition framesOf :: "WebSocketInfo option \<Rightarrow> WebSocketFrame list" where
  "framesOf w = (case w of None \<Rightarrow> [] | Some ws \<Rightarrow> elems (ws_Frames ws))"

lemma truncateWebSocket_frames:
  "0 < cap \<Longrightarrow> framesOf (fst (truncateWebSocket w cap)) =
   fst (wsCapLoop cap 0 (take WSMaxFrames (framesOf w)))"
  by (auto simp: truncateWebSocket_def framesOf_def Let_def case_prod_beta split: option.splits)

lemma payloads_take_prefix: "prefix (payloads (take n frs)) (payloads frs)"
  by (metis append_take_drop_id concat_append map_append payloads_def prefixI)

lemma truncateWebSocket_cut:
  "0 < cap \<Longrightarrow> \<not> snd (truncateWebSocket w cap) \<Longrightarrow>
   payloads (framesOf (fst (truncateWebSocket w cap))) = payloads (framesOf w)"
  by (auto simp: truncateWebSocket_def framesOf_def Let_def case_prod_beta wsCapLoop_uncut
      split: option.splits if_splits)

subsection \<open>gRPC trees\<close>

lemma grpcCapLoop_bound:
  "TreeBytes (grpcCapLoop cap g) \<le> cap \<or> elems (grpc_Messages (grpcCapLoop cap g)) = []"
proof (induction cap g rule: grpcCapLoop.induct)
  case (1 cap g)
  show ?case
  proof (cases "TreeBytes g > cap \<and> elems (grpc_Messages g) \<noteq> []")
    case True
    with 1 have "TreeBytes (grpcCapLoop cap (grpcCapStep g)) \<le> cap \<or>
        elems (grpc_Messages (grpcCapLoop cap (grpcCapStep g))) = []" by simp
    with True show ?thesis by (simp add: grpcCapLoop.simps [of cap g])
  next
    case False
    then show ?thesis by (auto simp: grpcCapLoop.simps [of cap g])
  qed
qed

lemma grpcCapLoop_keep:
  "TreeBytes g \<le> cap \<or> elems (grpc_Messages g) = [] \<Longrightarrow> grpcCapLoop cap g = g"
  by (auto simp: grpcCapLoop.simps [of cap g])

subsection \<open>The caps on a flow\<close>

lemma applyBodyCaps_fields [simp]:
  "fl_ID (applyBodyCaps f cap) = fl_ID f" "fl_State (applyBodyCaps f cap) = fl_State f"
  "fl_StartedAt (applyBodyCaps f cap) = fl_StartedAt f"
  "fl_CompletedAt (applyBodyCaps f cap) = fl_CompletedAt f"
  "fl_Host (applyBodyCaps f cap) = fl_Host f"
  by (simp_all add: applyBodyCaps_def Let_def case_prod_beta)

lemma applyBodyCaps_parts:
  assumes "0 < cap"
  shows "fl_Request (applyBodyCaps f cap) = fst (truncateSide (fl_Request f) cap)"
    and "fl_Response (applyBodyCaps f cap) = fst (truncateSide (fl_Response f) cap)"
    and "fl_WebSocket (applyBodyCaps f cap) = fst (truncateWebSocket (fl_WebSocket f) cap)"
    and "fl_GRPC (applyBodyCaps f cap) = fst (truncateGRPC (fl_GRPC f) cap)"
    and "fl_Truncated (applyBodyCaps f cap) \<longleftrightarrow>
         fl_Truncated f \<or> snd (truncateSide (fl_Request f) cap)
         \<or> snd (truncateSide (fl_Response f) cap) \<or> snd (truncateWebSocket (fl_WebSocket f) cap)
         \<or> snd (truncateGRPC (fl_GRPC f) cap)"
  using assms by (simp_all add: applyBodyCaps_def Let_def case_prod_beta)

lemma applyBodyCaps_wf: "wf_flow f \<Longrightarrow> wf_flow (applyBodyCaps f cap)"
  by (auto simp: applyBodyCaps_def wf_flow_def Let_def case_prod_beta truncateSide_wf
      truncateWebSocket_wf)

end
