(* ===== verification/Store_Spill.thy ===== *)
theory Store_Spill
  imports Store_Caps
begin

text \<open>
  The spill files of the inbox (\<open>internal/store/spill.go\<close>). A path is the pair of the
  arguments of \<open>filepath.Join\<close>, a directory and a file name with no separator; the empty
  string that stands for "no file" is \<open>None\<close>. The file system is a map from paths to
  contents and every call may fail: the record \<open>io\<close> says which calls do, and what a failed
  write leaves behind.
\<close>

subsection \<open>The file system\<close>

type_synonym path = "string \<times> string"
type_synonym filesys = "(path, byte list) gomap"

record io =
  io_write :: "path \<Rightarrow> byte list option option"
  io_rename :: "path \<Rightarrow> bool"
  io_remove :: "path \<Rightarrow> bool"
  io_read :: "path \<Rightarrow> bool"
  io_mkdir :: "string \<Rightarrow> bool"
  io_readdir :: "string \<Rightarrow> bool"

definition io_ok :: io where
  "io_ok = \<lparr>io_write = (\<lambda>_. None), io_rename = (\<lambda>_. False), io_remove = (\<lambda>_. False),
     io_read = (\<lambda>_. False), io_mkdir = (\<lambda>_. False), io_readdir = (\<lambda>_. False)\<rparr>"

definition WriteFile :: "io \<Rightarrow> path \<Rightarrow> byte list \<Rightarrow> filesys \<Rightarrow> filesys \<times> bool" where
  "WriteFile io p b fs =
     (case io_write io p of
        None \<Rightarrow> (AList.update p b fs, True)
      | Some None \<Rightarrow> (AList.delete p fs, False)
      | Some (Some b') \<Rightarrow> (AList.update p b' fs, False))"

definition Rename :: "io \<Rightarrow> path \<Rightarrow> path \<Rightarrow> filesys \<Rightarrow> filesys \<times> bool" where
  "Rename io src dst fs =
     (if io_rename io src then (fs, False)
      else case map_of fs src of None \<Rightarrow> (fs, False)
      | Some b \<Rightarrow> (AList.update dst b (AList.delete src fs), True))"

definition Remove :: "io \<Rightarrow> path \<Rightarrow> filesys \<Rightarrow> filesys" where
  "Remove io p fs = (if io_remove io p then fs else AList.delete p fs)"

datatype read_error = NotExist | ReadFailed

definition ReadFile :: "io \<Rightarrow> path \<Rightarrow> filesys \<Rightarrow> read_error + byte list" where
  "ReadFile io p fs =
     (if io_read io p then Inl ReadFailed
      else case map_of fs p of None \<Rightarrow> Inl NotExist | Some b \<Rightarrow> Inr b)"

definition removeOpt :: "io \<Rightarrow> path option \<Rightarrow> filesys \<Rightarrow> filesys" where
  "removeOpt io p fs = (case p of None \<Rightarrow> fs | Some q \<Rightarrow> Remove io q fs)"

subsection \<open>Spill names\<close>

text \<open>The pattern \<open>(?i)^[0-7][0-9A-HJKMNP-TV-Z]{25}-(req|resp|ws).body(.tmp)?$\<close> over ASCII
  names: the identifier is a ULID in Crockford's alphabet, in either case.\<close>

definition crockford :: "char \<Rightarrow> bool" where
  "crockford c \<longleftrightarrow> lowerByte c \<in> set ''0123456789abcdefghjkmnpqrstvwxyz''"

definition isULID :: "string \<Rightarrow> bool" where
  "isULID s \<longleftrightarrow> length s = 26 \<and> hd s \<in> set ''01234567'' \<and> list_all crockford (tl s)"

definition spillName :: "string \<Rightarrow> bool" where
  "spillName n \<longleftrightarrow> isULID (take 26 n) \<and>
     map lowerByte (drop 26 n) \<in>
       {''-req.body'', ''-req.body.tmp'', ''-resp.body'', ''-resp.body.tmp'',
        ''-ws.body'', ''-ws.body.tmp''}"

subsection \<open>Operations\<close>

record spillJob =
  reqTmp :: "path option"
  reqFinal :: "path option"
  respTmp :: "path option"
  respFinal :: "path option"
  wsTmp :: "path option"
  wsFinal :: "path option"

definition emptyJob :: spillJob where
  "emptyJob = \<lparr>reqTmp = None, reqFinal = None, respTmp = None, respFinal = None,
     wsTmp = None, wsFinal = None\<rparr>"

definition spillPath :: "string \<Rightarrow> string \<Rightarrow> string \<Rightarrow> path" where
  "spillPath dir name side = (dir, name @ ''-'' @ side @ ''.body'')"

definition spillTmpPath :: "string \<Rightarrow> string \<Rightarrow> string \<Rightarrow> path" where
  "spillTmpPath dir name side = (dir, name @ ''-'' @ side @ ''.body.tmp'')"

definition wsConcat :: "WebSocketInfo option \<Rightarrow> byte list" where
  "wsConcat w =
     (case w of None \<Rightarrow> []
      | Some ws \<Rightarrow>
          if sum_list (map (\<lambda>fr. length (elems (fr_Payload fr))) (elems (ws_Frames ws))) = 0 then []
          else concat (map (\<lambda>fr. elems (fr_Payload fr)) (elems (ws_Frames ws))))"

definition unlinkSpillJob :: "io \<Rightarrow> spillJob option \<Rightarrow> filesys \<Rightarrow> filesys" where
  "unlinkSpillJob io job fs =
     (case job of None \<Rightarrow> fs
      | Some j \<Rightarrow> removeOpt io (wsTmp j) (removeOpt io (respTmp j) (removeOpt io (reqTmp j) fs)))"

text \<open>Write the temporary files of a flow: the new file system, and a job (\<open>None\<close> when nothing
  is spilled) or a failure. \<open>stageOne\<close> is the block the source repeats per side.\<close>

definition stageOne ::
    "io \<Rightarrow> int \<Rightarrow> path \<Rightarrow> byte list \<Rightarrow> filesys \<Rightarrow> filesys \<times> (unit + path option)" where
  "stageOne io threshold tmp b fs =
     (if int (length b) \<ge> threshold then
        (let (fs', ok) = WriteFile io tmp b fs
         in if ok then (fs', Inr (Some tmp)) else (fs', Inl ()))
      else (fs, Inr None))"

definition writeSpillTemps ::
    "io \<Rightarrow> string \<Rightarrow> int \<Rightarrow> Flow \<Rightarrow> filesys \<Rightarrow> filesys \<times> (unit + spillJob option)" where
  "writeSpillTemps io dir threshold f fs =
     (if dir = '''' \<or> threshold \<le> 0 then (fs, Inr None)
      else let ident = fl_ID f in
      case stageOne io threshold (spillTmpPath dir ident ''req'') (bodyOf (fl_Request f)) fs of
        (fs1, Inl _) \<Rightarrow> (fs1, Inl ())
      | (fs1, Inr t1) \<Rightarrow>
        (let j1 = emptyJob\<lparr>reqTmp := t1,
                    reqFinal := map_option (\<lambda>_. spillPath dir ident ''req'') t1\<rparr> in
        case stageOne io threshold (spillTmpPath dir ident ''resp'') (bodyOf (fl_Response f)) fs1 of
          (fs2, Inl _) \<Rightarrow> (unlinkSpillJob io (Some j1) fs2, Inl ())
        | (fs2, Inr t2) \<Rightarrow>
          (let j2 = j1\<lparr>respTmp := t2,
                      respFinal := map_option (\<lambda>_. spillPath dir ident ''resp'') t2\<rparr> in
          case stageOne io threshold (spillTmpPath dir ident ''ws'') (wsConcat (fl_WebSocket f)) fs2 of
            (fs3, Inl _) \<Rightarrow> (unlinkSpillJob io (Some j2) fs3, Inl ())
          | (fs3, Inr t3) \<Rightarrow>
            (let j3 = j2\<lparr>wsTmp := t3,
                        wsFinal := map_option (\<lambda>_. spillPath dir ident ''ws'') t3\<rparr>
             in (fs3, Inr (if t1 = None \<and> t2 = None \<and> t3 = None then None else Some j3))))))"

definition stageSideSpill ::
    "io \<Rightarrow> string \<Rightarrow> int \<Rightarrow> string \<Rightarrow> string \<Rightarrow> byte list \<Rightarrow> filesys \<Rightarrow>
     filesys \<times> (unit + (path \<times> path) option)" where
  "stageSideSpill io dir threshold ident side body fs =
     (if dir = '''' \<or> threshold \<le> 0 \<or> int (length body) < threshold then (fs, Inr None)
      else let tmp = spillTmpPath dir ident side;
               (fs', ok) = WriteFile io tmp body fs
           in if ok then (fs', Inr (Some (tmp, spillPath dir ident side)))
              else (Remove io tmp fs', Inl ()))"

definition clearWSPayloads :: "WebSocketInfo option \<Rightarrow> WebSocketInfo option" where
  "clearWSPayloads w =
     map_option (\<lambda>ws. ws\<lparr>ws_Frames := map_option
       (map (\<lambda>fr. (if fr_Size fr = 0 then fr\<lparr>fr_Size := int (length (elems (fr_Payload fr)))\<rparr>
                   else fr)\<lparr>fr_Payload := None\<rparr>)) (ws_Frames ws)\<rparr>) w"

text \<open>A record of the inbox (\<open>memory.go\<close>) carries the paths of its spilled parts; the
  breakpoint fields are used by \<open>breakpoint.go\<close>.\<close>

record ResumePatch =
  rp_Headers :: "header slice"
  rp_Body :: "byte slice"

definition emptyPatch :: ResumePatch where
  "emptyPatch = \<lparr>rp_Headers = None, rp_Body = None\<rparr>"

datatype store_error =
    ErrFull | ErrStaleEpoch | ErrTooLarge | ErrNotFound | ErrSpill | ErrOverNewCap
  | ErrBreakpointInactive | ErrDropped | ErrBreakpointTimeout
  | ErrContext | ErrNilFlow | ErrOptions

record pauseResult =
  pr_patch :: ResumePatch
  pr_err :: "store_error option"

definition emptyResult :: pauseResult where
  "emptyResult = \<lparr>pr_patch = emptyPatch, pr_err = None\<rparr>"

record flowrec =
  rec_flow :: Flow
  rec_resident :: int
  rec_reqSpill :: "path option"
  rec_respSpill :: "path option"
  rec_wsSpill :: "path option"
  rec_wasPaused :: bool
  rec_pauseDone :: bool
  rec_pauseResult :: pauseResult

definition unlinkRecord :: "io \<Rightarrow> flowrec \<Rightarrow> filesys \<Rightarrow> filesys" where
  "unlinkRecord io r fs =
     removeOpt io (rec_wsSpill r) (removeOpt io (rec_respSpill r) (removeOpt io (rec_reqSpill r) fs))"

text \<open>Rename the temporary files to their final names. \<open>commitOne\<close> is the block the source
  repeats per side: the temporary name still to be removed, and the record with the side's path
  set and its bytes dropped. The result of \<open>commitSpill\<close> holds what is left of the job and
  the record, or the failure.\<close>

definition spilledReq :: "path \<Rightarrow> flowrec \<Rightarrow> flowrec" where
  "spilledReq d r = r\<lparr>rec_reqSpill := Some d,
     rec_flow := rec_flow r\<lparr>fl_Request := fl_Request (rec_flow r)\<lparr>msg_Body := None\<rparr>\<rparr>\<rparr>"

definition spilledResp :: "path \<Rightarrow> flowrec \<Rightarrow> flowrec" where
  "spilledResp d r = r\<lparr>rec_respSpill := Some d,
     rec_flow := rec_flow r\<lparr>fl_Response := fl_Response (rec_flow r)\<lparr>msg_Body := None\<rparr>\<rparr>\<rparr>"

definition spilledWS :: "path \<Rightarrow> flowrec \<Rightarrow> flowrec" where
  "spilledWS d r = r\<lparr>rec_wsSpill := Some d,
     rec_flow := rec_flow r\<lparr>fl_WebSocket := clearWSPayloads (fl_WebSocket (rec_flow r))\<rparr>\<rparr>"

definition commitOne ::
    "io \<Rightarrow> path option \<Rightarrow> path option \<Rightarrow> (path \<Rightarrow> flowrec \<Rightarrow> flowrec) \<Rightarrow> flowrec \<Rightarrow> filesys \<Rightarrow>
     filesys \<times> path option \<times> flowrec \<times> bool" where
  "commitOne io tmp final spilled r fs =
     (case (tmp, final) of
        (Some t, Some d) \<Rightarrow>
          (let (fs', ok) = Rename io t d fs
           in if ok then (fs', None, spilled d r, True) else (fs', tmp, r, False))
      | _ \<Rightarrow> (fs, tmp, r, True))"

definition commitSpill ::
    "io \<Rightarrow> flowrec \<Rightarrow> spillJob option \<Rightarrow> filesys \<Rightarrow> filesys \<times> spillJob option \<times> (unit + flowrec)" where
  "commitSpill io r job fs =
     (case job of None \<Rightarrow> (fs, None, Inr r)
      | Some j \<Rightarrow>
        (let (fs1, t1, r1, ok1) = commitOne io (reqTmp j) (reqFinal j) spilledReq r fs;
             j1 = j\<lparr>reqTmp := t1\<rparr>
         in if \<not> ok1 then (fs1, Some j1, Inl ())
         else let (fs2, t2, r2, ok2) = commitOne io (respTmp j1) (respFinal j1) spilledResp r1 fs1;
                  j2 = j1\<lparr>respTmp := t2\<rparr>
         in if \<not> ok2 then (unlinkRecord io r1 fs2, Some j2, Inl ())
         else let (fs3, t3, r3, ok3) = commitOne io (wsTmp j2) (wsFinal j2) spilledWS r2 fs2;
                  j3 = j2\<lparr>wsTmp := t3\<rparr>
         in if \<not> ok3 then (unlinkRecord io r2 fs3, Some j3, Inl ())
         else (fs3, Some j3, Inr r3)))"

text \<open>The record is the same but for spilled sides.\<close>

lemma commitOne_record:
  assumes "commitOne io t d sp r fs = (fs', t', r', ok)" and "P r" and "\<And>p. P r \<Longrightarrow> P (sp p r)"
  shows "P r'"
  using assms by (auto simp: commitOne_def Let_def case_prod_beta split: option.splits if_splits)

lemma commitSpill_record:
  assumes c: "commitSpill io r job fs = (fs', job', Inr r')" and P: "P r"
    and "\<And>p r. P r \<Longrightarrow> P (spilledReq p r)" "\<And>p r. P r \<Longrightarrow> P (spilledResp p r)"
      "\<And>p r. P r \<Longrightarrow> P (spilledWS p r)"
  shows "P r'"
proof (cases job)
  case None
  with c P show ?thesis by (simp add: commitSpill_def)
next
  case (Some j)
  obtain fs1 t1 r1 ok1 where 1: "commitOne io (reqTmp j) (reqFinal j) spilledReq r fs = (fs1, t1, r1, ok1)"
    by (metis prod_cases4)
  obtain fs2 t2 r2 ok2 where 2: "commitOne io (respTmp j) (respFinal j) spilledResp r1 fs1 = (fs2, t2, r2, ok2)"
    by (metis prod_cases4)
  obtain fs3 t3 r3 ok3 where 3: "commitOne io (wsTmp j) (wsFinal j) spilledWS r2 fs2 = (fs3, t3, r3, ok3)"
    by (metis prod_cases4)
  have "P r1" by (rule commitOne_record[where P = P, OF 1 P assms(3)])
  then have "P r2" by (rule commitOne_record[where P = P, OF 2 _ assms(4)])
  then have "P r3" by (rule commitOne_record[where P = P, OF 3 _ assms(5)])
  with c Some 1 2 3 show ?thesis by (simp add: commitSpill_def Let_def split: if_splits)
qed

text \<open>Remove every spill file of a directory. The result says whether a removal failed or the
  directory could not be read.\<close>

definition unlinkAllSpill :: "io \<Rightarrow> string \<Rightarrow> filesys \<Rightarrow> filesys \<times> bool" where
  "unlinkAllSpill io dir fs =
     (if dir = '''' then (fs, True)
      else if io_readdir io dir then (fs, False)
      else (filter (\<lambda>(p, b). \<not> (fst p = dir \<and> spillName (snd p) \<and> \<not> io_remove io p)) fs,
            list_all (\<lambda>(p, b). \<not> (fst p = dir \<and> spillName (snd p) \<and> io_remove io p)) fs))"

definition ensureSpillDir :: "io \<Rightarrow> string \<Rightarrow> bool" where
  "ensureSpillDir io dir = (if dir = '''' then True else \<not> io_mkdir io dir)"

record recSnap =
  sn_flow :: Flow
  sn_reqSpill :: "path option"
  sn_respSpill :: "path option"
  sn_wsSpill :: "path option"

definition snapshotRecord :: "flowrec \<Rightarrow> recSnap" where
  "snapshotRecord r =
     \<lparr>sn_flow = cloneFlow (rec_flow r), sn_reqSpill = rec_reqSpill r,
      sn_respSpill = rec_respSpill r, sn_wsSpill = rec_wsSpill r\<rparr>"

text \<open>Split the spilled payload bytes over the frames by their sizes (which are never negative).\<close>

fun wsReload :: "byte list \<Rightarrow> WebSocketFrame list \<Rightarrow> WebSocketFrame list" where
  "wsReload b [] = []"
| "wsReload b (fr # frs) =
     (let n = (if fr_Size fr = 0 then length (elems (fr_Payload fr)) else nat (fr_Size fr))
      in if n = 0 then fr # wsReload b frs
         else if n > length b then fr\<lparr>fr_Payload := append_nil b\<rparr> # frs
         else fr\<lparr>fr_Payload := append_nil (take n b)\<rparr> # wsReload (drop n b) frs)"

definition loadSide :: "io \<Rightarrow> path option \<Rightarrow> HTTPMessage \<Rightarrow> filesys \<Rightarrow> read_error + HTTPMessage" where
  "loadSide io sp m fs =
     (case sp of None \<Rightarrow> Inr m
      | Some p \<Rightarrow> if length (bodyOf m) = 0 \<and> msg_Size m > 0
                 then (case ReadFile io p fs of Inl e \<Rightarrow> Inl e | Inr b \<Rightarrow> Inr (m\<lparr>msg_Body := Some b\<rparr>))
                 else Inr m)"

definition loadSpill :: "io \<Rightarrow> recSnap \<Rightarrow> filesys \<Rightarrow> read_error + Flow" where
  "loadSpill io s fs =
     (case loadSide io (sn_reqSpill s) (fl_Request (sn_flow s)) fs of Inl e \<Rightarrow> Inl e
      | Inr rq \<Rightarrow>
     (case loadSide io (sn_respSpill s) (fl_Response (sn_flow s)) fs of Inl e \<Rightarrow> Inl e
      | Inr rs \<Rightarrow>
        (let f = (sn_flow s)\<lparr>fl_Request := rq, fl_Response := rs\<rparr>
         in case (sn_wsSpill s, fl_WebSocket f) of
              (Some p, Some ws) \<Rightarrow>
                (case ReadFile io p fs of Inl e \<Rightarrow> Inl e
                 | Inr b \<Rightarrow> Inr (f\<lparr>fl_WebSocket :=
                     Some (ws\<lparr>ws_Frames := map_option (wsReload b) (ws_Frames ws)\<rparr>)\<rparr>))
            | _ \<Rightarrow> Inr f)))"

end
