(* ===== verification/Store_Events.thy ===== *)
theory Store_Events
  imports Store_Spill
begin

text \<open>
  Membership events and their subscribers (\<open>internal/store/events.go\<close>). A subscriber's channel
  is its buffer, oldest event first, with its capacity; \<open>pushEvent\<close> never blocks: it drops the
  oldest buffered event until the new one fits.
\<close>

definition EventInserted :: string where "EventInserted = ''inserted''"
definition EventPaused :: string where "EventPaused = ''paused''"
definition EventResumed :: string where "EventResumed = ''resumed''"
definition EventDropped :: string where "EventDropped = ''dropped''"
definition EventDeleted :: string where "EventDeleted = ''deleted''"
definition EventWiped :: string where "EventWiped = ''wiped''"

record event =
  ev_Kind :: string
  ev_ID :: string
  ev_Host :: string
  ev_Gen :: nat

record subscriber =
  sub_name :: nat
  sub_cap :: nat
  sub_ch :: "event list"

fun pushEvent :: "nat \<Rightarrow> 'e list \<Rightarrow> 'e \<Rightarrow> 'e list" where
  "pushEvent cap ch ev =
     (if length ch < cap then ch @ [ev]
      else case ch of [] \<Rightarrow> [] | _ # rest \<Rightarrow> pushEvent cap rest ev)"

declare pushEvent.simps [simp del]

definition emit :: "event \<Rightarrow> subscriber list \<Rightarrow> subscriber list" where
  "emit ev subs = map (\<lambda>s. s\<lparr>sub_ch := pushEvent (sub_cap s) (sub_ch s) ev\<rparr>) subs"

definition subscribe :: "nat \<Rightarrow> int \<Rightarrow> subscriber list \<Rightarrow> subscriber list" where
  "subscribe name cap subs =
     subs @ [\<lparr>sub_name = name, sub_cap = nat (if cap \<le> 0 then 16 else cap), sub_ch = []\<rparr>]"

text \<open>\<open>cancel\<close> removes the first subscriber of that name (subscribers are distinct pointers).\<close>

fun cancelSub :: "nat \<Rightarrow> subscriber list \<Rightarrow> subscriber list" where
  "cancelSub name [] = []"
| "cancelSub name (s # subs) = (if sub_name s = name then subs else s # cancelSub name subs)"

subsection \<open>The buffer is a ring\<close>

lemma pushEvent_room: "length ch < cap \<Longrightarrow> pushEvent cap ch ev = ch @ [ev]"
  by (simp add: pushEvent.simps)

text \<open>The general shape: drop just enough of the oldest events.\<close>

lemma pushEvent_ring:
  "0 < cap \<Longrightarrow> pushEvent cap ch ev = drop (Suc (length ch) - cap) (ch @ [ev])"
proof (induction cap ch ev rule: pushEvent.induct)
  case (1 cap ch ev)
  show ?case
  proof (cases "length ch < cap")
    case True
    then show ?thesis by (simp add: pushEvent_room)
  next
    case False
    with "1.prems" obtain x rest where ch: "ch = x # rest" by (cases ch) auto
    with 1 False have "pushEvent cap rest ev = drop (Suc (length rest) - cap) (rest @ [ev])"
      by simp
    with False ch show ?thesis
      by (simp add: pushEvent.simps [of cap "x # rest" ev] Suc_diff_le del: drop_append)
  qed
qed

definition wf_sub :: "subscriber \<Rightarrow> bool" where
  "wf_sub s \<longleftrightarrow> 0 < sub_cap s \<and> length (sub_ch s) \<le> sub_cap s"

lemma pushEvent_length: "0 < cap \<Longrightarrow> length (pushEvent cap ch ev) \<le> cap"
  by (simp add: pushEvent_ring)

lemma pushEvent_last: "0 < cap \<Longrightarrow> pushEvent cap ch ev \<noteq> [] \<and> last (pushEvent cap ch ev) = ev"
  by (simp add: pushEvent_ring)

lemma emit_wf: "list_all wf_sub subs \<Longrightarrow> list_all wf_sub (emit ev subs)"
  by (auto simp: emit_def wf_sub_def list_all_iff pushEvent_length)

lemma subscribe_wf: "list_all wf_sub subs \<Longrightarrow> list_all wf_sub (subscribe name cap subs)"
  by (simp add: subscribe_def wf_sub_def)

lemma cancelSub_wf: "list_all wf_sub subs \<Longrightarrow> list_all wf_sub (cancelSub name subs)"
  by (induction subs) auto

end
