(* ===== verification/Store_Memory.thy ===== *)
theory Store_Memory
  imports Store_Events
begin

text \<open>
  The flow inbox \<open>Memory\<close> (\<open>internal/store/memory.go\<close>): its state and every operation
  that reads or changes it. The mutex makes each locked section one step; \<open>Insert\<close> has an
  unlocked part (\<open>Insert_prepare\<close> and the spill of the bodies) and a locked part
  (\<open>Insert_locked\<close>), which the theory \<open>Store_Step\<close> interleaves freely.

  The state holds, beside the fields of the struct, the file system the spill files live in and
  the contents of the waiters' channels. Metrics and log records are not state of the inbox and
  are left out; the events sent to subscribers are in.

  The two eviction loops are \<open>while_option\<close>: a loop that does not end is \<open>None\<close>, so
  an operation that evicts returns an option and that it returns is proved, not assumed.
\<close>

subsection \<open>State\<close>

record options =
  op_MaxFlows :: int
  op_MaxBytes :: int
  op_MaxBodyBytes :: int
  op_FullPolicy :: string
  op_MaxWait :: duration
  op_SpillDirectory :: string
  op_SpillThreshold :: int

record memory =
  m_maxFlows :: int
  m_maxBytes :: int
  m_maxBodyBytes :: int
  m_fullPolicy :: string
  m_maxWait :: duration
  m_spillDir :: string
  m_spillThreshold :: int
  m_epoch :: nat
  m_generation :: nat
  m_evictions :: nat
  m_bytes :: int
  m_byID :: "(string, flowrec) gomap"
  m_order :: "string list"
  m_subs :: "subscriber list"
  m_waiters :: int
  m_paused :: "(string, nat list) gomap"
  m_chans :: "(nat, pauseResult) gomap"
  m_fs :: filesys

definition FullPolicyReject :: string where "FullPolicyReject = ''reject''"
definition FullPolicyEvictOldest :: string where "FullPolicyEvictOldest = ''evict_oldest''"

definition defaultMaxBodyBytes :: int where "defaultMaxBodyBytes = 1048576"
definition DefaultListLimit :: int where "DefaultListLimit = 50"
definition MaxListLimit :: int where "MaxListLimit = 200"

definition normalizeOptions :: "options \<Rightarrow> store_error + options" where
  "normalizeOptions opts =
     (if op_MaxFlows opts \<le> 0 then Inl ErrOptions
      else if op_MaxBytes opts \<le> 0 then Inl ErrOptions
      else let o1 = (if op_MaxBodyBytes opts \<le> 0
                     then opts\<lparr>op_MaxBodyBytes := defaultMaxBodyBytes\<rparr> else opts)
      in if op_FullPolicy o1 \<in> {'''', FullPolicyReject} \<or> op_FullPolicy o1 = FullPolicyEvictOldest
         then let o2 = (if op_FullPolicy o1 \<in> {'''', FullPolicyReject}
                        then o1\<lparr>op_FullPolicy := FullPolicyReject\<rparr> else o1)
              in Inr (if op_SpillDirectory o2 \<noteq> '''' \<and> op_SpillThreshold o2 \<le> 0
                      then o2\<lparr>op_SpillThreshold := 262144\<rparr> else o2)
         else Inl ErrOptions)"

text \<open>\<open>New\<close>: an empty inbox over the given file system, its leftover spill files removed.\<close>

definition newMemory :: "io \<Rightarrow> options \<Rightarrow> filesys \<Rightarrow> store_error + memory" where
  "newMemory io opts fs =
     (case normalizeOptions opts of Inl e \<Rightarrow> Inl e
      | Inr op \<Rightarrow>
          if \<not> ensureSpillDir io (op_SpillDirectory op) then Inl ErrSpill
          else let (fs', ok) = unlinkAllSpill io (op_SpillDirectory op) fs
               in if ok then Inr
                   \<lparr>m_maxFlows = op_MaxFlows op, m_maxBytes = op_MaxBytes op,
                    m_maxBodyBytes = op_MaxBodyBytes op, m_fullPolicy = op_FullPolicy op,
                    m_maxWait = op_MaxWait op, m_spillDir = op_SpillDirectory op,
                    m_spillThreshold = op_SpillThreshold op, m_epoch = 1, m_generation = 0,
                    m_evictions = 0, m_bytes = 0, m_byID = [], m_order = [], m_subs = [],
                    m_waiters = 0, m_paused = [], m_chans = [], m_fs = fs'\<rparr>
                  else Inl ErrSpill)"

subsection \<open>Waiters and events under the lock\<close>

text \<open>A send on a waiter's channel, which holds one result: a second send is discarded.\<close>

fun deliver :: "pauseResult \<Rightarrow> nat list \<Rightarrow> (nat, pauseResult) gomap \<Rightarrow> (nat, pauseResult) gomap" where
  "deliver res [] cs = cs"
| "deliver res (w # ws) cs =
     deliver res ws (case map_of cs w of None \<Rightarrow> AList.update w res cs | Some _ \<Rightarrow> cs)"

definition pausedOf :: "memory \<Rightarrow> string \<Rightarrow> nat list" where
  "pausedOf m x = (case map_of (m_paused m) x of None \<Rightarrow> [] | Some ws \<Rightarrow> ws)"

definition finishPausedLocked :: "string \<Rightarrow> pauseResult \<Rightarrow> memory \<Rightarrow> memory" where
  "finishPausedLocked x res m =
     (let m1 = (case map_of (m_byID m) x of None \<Rightarrow> m
                | Some r \<Rightarrow> m\<lparr>m_byID := AList.update x
                    (r\<lparr>rec_pauseDone := True, rec_pauseResult := res\<rparr>) (m_byID m)\<rparr>)
      in m1\<lparr>m_chans := deliver res (pausedOf m x) (m_chans m),
            m_paused := AList.delete x (m_paused m)\<rparr>)"

definition failPausedLocked :: "store_error \<Rightarrow> memory \<Rightarrow> memory" where
  "failPausedLocked e m =
     m\<lparr>m_chans := deliver (emptyResult\<lparr>pr_err := Some e\<rparr>) (concat (map snd (m_paused m))) (m_chans m),
       m_paused := []\<rparr>"

definition emitLocked :: "string \<Rightarrow> string \<Rightarrow> string \<Rightarrow> memory \<Rightarrow> memory" where
  "emitLocked kind x host m =
     m\<lparr>m_subs := emit \<lparr>ev_Kind = kind, ev_ID = x, ev_Host = host, ev_Gen = m_generation m\<rparr> (m_subs m)\<rparr>"

definition Subscribe :: "nat \<Rightarrow> int \<Rightarrow> memory \<Rightarrow> memory" where
  "Subscribe name cap m = m\<lparr>m_subs := subscribe name cap (m_subs m)\<rparr>"

definition Unsubscribe :: "nat \<Rightarrow> memory \<Rightarrow> memory" where
  "Unsubscribe name m = m\<lparr>m_subs := cancelSub name (m_subs m)\<rparr>"

subsection \<open>Removal and eviction\<close>

definition removeLocked :: "io \<Rightarrow> string \<Rightarrow> bool \<Rightarrow> memory \<Rightarrow> memory" where
  "removeLocked io x eviction m =
     (case map_of (m_byID m) x of None \<Rightarrow> m
      | Some r \<Rightarrow>
        (let m1 = m\<lparr>m_byID := AList.delete x (m_byID m),
                    m_order := remove1 x (m_order m),
                    m_bytes := (if m_bytes m - rec_resident r < 0 then 0
                                else m_bytes m - rec_resident r),
                    m_fs := unlinkRecord io r (m_fs m),
                    m_generation := m_generation m + 1,
                    m_evictions := (if eviction then m_evictions m + 1 else m_evictions m)\<rparr>;
             m2 = finishPausedLocked x (emptyResult\<lparr>pr_err := Some ErrNotFound\<rparr>) m1
         in emitLocked EventDeleted x (fl_Host (rec_flow r)) m2))"

definition fitsLocked :: "memory \<Rightarrow> int \<Rightarrow> bool" where
  "fitsLocked m candidate \<longleftrightarrow>
     int (length (m_byID m)) < m_maxFlows m \<and> m_bytes m + candidate \<le> m_maxBytes m"

text \<open>The dry run of an eviction over the order: does some prefix of it make room?\<close>

fun acceptLoop :: "memory \<Rightarrow> int \<Rightarrow> int \<Rightarrow> int \<Rightarrow> string list \<Rightarrow> bool" where
  "acceptLoop m candidate bytes count [] =
     (count < m_maxFlows m \<and> bytes + candidate \<le> m_maxBytes m)"
| "acceptLoop m candidate bytes count (x # xs) =
     (if count < m_maxFlows m \<and> bytes + candidate \<le> m_maxBytes m then True
      else case map_of (m_byID m) x of
        None \<Rightarrow> acceptLoop m candidate bytes count xs
      | Some r \<Rightarrow> acceptLoop m candidate
          (if bytes - rec_resident r < 0 then 0 else bytes - rec_resident r) (count - 1) xs)"

definition canAcceptLocked :: "memory \<Rightarrow> int \<Rightarrow> store_error option" where
  "canAcceptLocked m candidate =
     (if fitsLocked m candidate then None
      else if m_fullPolicy m \<noteq> FullPolicyEvictOldest then Some ErrFull
      else if acceptLoop m candidate (m_bytes m) (int (length (m_byID m))) (m_order m) then None
      else Some ErrFull)"

definition evictUntilFitsLocked :: "io \<Rightarrow> int \<Rightarrow> memory \<Rightarrow> (memory \<times> store_error option) option" where
  "evictUntilFitsLocked io candidate m =
     map_option (\<lambda>m'. (m', if fitsLocked m' candidate then None else Some ErrFull))
       (while_option (\<lambda>m. m_order m \<noteq> [] \<and> \<not> fitsLocked m candidate)
          (\<lambda>m. removeLocked io (hd (m_order m)) True m) m)"

definition occupancyOKLocked :: "memory \<Rightarrow> bool" where
  "occupancyOKLocked m \<longleftrightarrow>
     int (length (m_byID m)) \<le> m_maxFlows m \<and> m_bytes m \<le> m_maxBytes m"

definition evictUntilUnderCapsLocked :: "io \<Rightarrow> memory \<Rightarrow> (memory \<times> store_error option) option" where
  "evictUntilUnderCapsLocked io m =
     map_option (\<lambda>m'. (m', if occupancyOKLocked m' then None else Some ErrOverNewCap))
       (while_option (\<lambda>m. m_order m \<noteq> [] \<and> \<not> occupancyOKLocked m)
          (\<lambda>m. removeLocked io (hd (m_order m)) True m) m)"

fun orderInsert :: "memory \<Rightarrow> string \<Rightarrow> gotime \<Rightarrow> string list \<Rightarrow> string list" where
  "orderInsert m x at [] = [x]"
| "orderInsert m x at (y # ys) =
     (case map_of (m_byID m) y of
        None \<Rightarrow> y # orderInsert m x at ys
      | Some r \<Rightarrow>
          let ot = EvictTime (rec_flow r)
          in if at < ot \<or> (at = ot \<and> x < y) then x # y # ys
             else y # orderInsert m x at ys)"

definition insertOrderLocked :: "string \<Rightarrow> gotime \<Rightarrow> memory \<Rightarrow> memory" where
  "insertOrderLocked x at m = m\<lparr>m_order := orderInsert m x at (m_order m)\<rparr>"

subsection \<open>Insert\<close>

definition Insert_prepare :: "gotime \<Rightarrow> gotime \<Rightarrow> string \<Rightarrow> Flow \<Rightarrow> Flow" where
  "Insert_prepare nowS nowC ident f =
     (let p0 = cloneFlow f;
          p1 = (if fl_StartedAt p0 = 0 then p0\<lparr>fl_StartedAt := nowS\<rparr> else p0);
          p2 = (if fl_State p1 = '''' then p1\<lparr>fl_State := FlowStateCompleted\<rparr> else p1);
          p3 = (if fl_CompletedAt p2 = 0 \<and> fl_State p2 \<noteq> FlowStatePaused
                   \<and> fl_State p2 \<noteq> FlowStateOpen
                then p2\<lparr>fl_CompletedAt := nowC\<rparr> else p2)
      in p3\<lparr>fl_ID := ident\<rparr>)"

definition newRecord :: "Flow \<Rightarrow> int \<Rightarrow> flowrec" where
  "newRecord f candidate =
     \<lparr>rec_flow = f, rec_resident = candidate, rec_reqSpill = None, rec_respSpill = None,
      rec_wsSpill = None, rec_wasPaused = (fl_State f = FlowStatePaused), rec_pauseDone = False,
      rec_pauseResult = emptyResult\<rparr>"

text \<open>The locked part: the epoch check, the dry run, the renames, the eviction, the index. On
  every return but the last the deferred \<open>unlinkSpillJob\<close> removes the temporary files left.\<close>

definition Insert_index :: "string \<Rightarrow> Flow \<Rightarrow> flowrec \<Rightarrow> int \<Rightarrow> memory \<Rightarrow> memory" where
  "Insert_index ident prepared r candidate m =
     (let m1 = m\<lparr>m_byID := AList.update ident r (m_byID m)\<rparr>;
          m2 = insertOrderLocked ident (EvictTime prepared) m1;
          m3 = m2\<lparr>m_bytes := m_bytes m2 + candidate, m_generation := m_generation m2 + 1\<rparr>
      in emitLocked (if fl_State prepared = FlowStatePaused then EventPaused else EventInserted)
           ident (fl_Host prepared) m3)"

definition Insert_locked ::
    "io \<Rightarrow> nat \<Rightarrow> string \<Rightarrow> Flow \<Rightarrow> int \<Rightarrow> spillJob option \<Rightarrow> memory \<Rightarrow>
     (memory \<times> (store_error + InsertResult)) option" where
  "Insert_locked io epoch ident prepared candidate job m =
     (if epoch \<noteq> m_epoch m
      then Some (m\<lparr>m_fs := unlinkSpillJob io job (m_fs m)\<rparr>, Inl ErrStaleEpoch)
      else case canAcceptLocked m candidate of
        Some e \<Rightarrow> Some (m\<lparr>m_fs := unlinkSpillJob io job (m_fs m)\<rparr>, Inl e)
      | None \<Rightarrow>
        (case commitSpill io (newRecord prepared candidate) job (m_fs m) of
           (fs1, job1, Inl _) \<Rightarrow> Some (m\<lparr>m_fs := unlinkSpillJob io job1 fs1\<rparr>, Inl ErrSpill)
         | (fs1, job1, Inr r) \<Rightarrow>
           (case evictUntilFitsLocked io candidate (m\<lparr>m_fs := fs1\<rparr>) of
              None \<Rightarrow> None
            | Some (m1, Some e) \<Rightarrow>
                Some (m1\<lparr>m_fs := unlinkSpillJob io job1 (unlinkRecord io r (m_fs m1))\<rparr>, Inl e)
            | Some (m1, None) \<Rightarrow>
                (let m2 = Insert_index ident prepared r candidate m1
                 in Some (m2, Inr \<lparr>ir_ID = ident, ir_Generation = m_generation m2\<rparr>)))))"

text \<open>\<open>Insert\<close> run without interference: \<open>ctxErr\<close> is \<open>ctx.Err() != nil\<close>,
  \<open>ident\<close> the identifier \<open>ulid.Make\<close> returns, \<open>nowS\<close> and \<open>nowC\<close> the
  two clock readings.\<close>

definition Insert ::
    "io \<Rightarrow> bool \<Rightarrow> gotime \<Rightarrow> gotime \<Rightarrow> string \<Rightarrow> nat \<Rightarrow> Flow option \<Rightarrow> memory \<Rightarrow>
     (memory \<times> (store_error + InsertResult)) option" where
  "Insert io ctxErr nowS nowC ident epoch f m =
     (if ctxErr then Some (m, Inl ErrContext)
      else case f of None \<Rightarrow> Some (m, Inl ErrNilFlow)
      | Some f \<Rightarrow>
        (let prepared = applyBodyCaps (Insert_prepare nowS nowC ident f) (m_maxBodyBytes m);
             candidate = ResidentBytes prepared
         in if candidate > m_maxBytes m then Some (m, Inl ErrTooLarge)
            else case writeSpillTemps io (m_spillDir m) (m_spillThreshold m) prepared (m_fs m) of
              (fs', Inl _) \<Rightarrow> Some (m\<lparr>m_fs := fs'\<rparr>, Inl ErrSpill)
            | (fs', Inr job) \<Rightarrow>
                Insert_locked io epoch ident prepared candidate job (m\<lparr>m_fs := fs'\<rparr>)))"

subsection \<open>Reads\<close>

text \<open>A read takes its snapshot under the lock, in state \<open>m\<close>, and loads the spill files after
  releasing it, in a later state \<open>m'\<close>.\<close>

definition Get :: "io \<Rightarrow> string \<Rightarrow> memory \<Rightarrow> memory \<Rightarrow> store_error + Flow" where
  "Get io x m m' =
     (case map_of (m_byID m) x of None \<Rightarrow> Inl ErrNotFound
      | Some r \<Rightarrow>
        (case loadSpill io (snapshotRecord r) (m_fs m') of
           Inr f \<Rightarrow> Inr f
         | Inl NotExist \<Rightarrow> (case map_of (m_byID m') x of
             None \<Rightarrow> Inl ErrNotFound | Some _ \<Rightarrow> Inl ErrSpill)
         | Inl ReadFailed \<Rightarrow> Inl ErrSpill))"

record cursorPos =
  cur_id :: string
  cur_at :: gotime
  cur_found :: bool

text \<open>\<open>ulidTime\<close> is \<open>ulid.Parse\<close> followed by \<open>ulid.Time\<close>, \<open>None\<close> when the
  string is not a ULID.\<close>

definition resolveCursorLocked :: "(string \<Rightarrow> gotime option) \<Rightarrow> memory \<Rightarrow> string \<Rightarrow> cursorPos \<times> bool" where
  "resolveCursorLocked ulidTime m x =
     (if x = '''' then (\<lparr>cur_id = '''', cur_at = 0, cur_found = False\<rparr>, True)
      else case map_of (m_byID m) x of
        Some r \<Rightarrow> (\<lparr>cur_id = x, cur_at = EvictTime (rec_flow r), cur_found = True\<rparr>, False)
      | None \<Rightarrow>
        (case ulidTime x of
           None \<Rightarrow> (\<lparr>cur_id = x, cur_at = 0, cur_found = False\<rparr>, False)
         | Some t \<Rightarrow> (\<lparr>cur_id = x, cur_at = t, cur_found = False\<rparr>, False)))"

definition newerThanCursor :: "Flow \<Rightarrow> cursorPos \<Rightarrow> bool" where
  "newerThanCursor f cur \<longleftrightarrow>
     cur_at cur < EvictTime f \<or> (EvictTime f = cur_at cur \<and> cur_id cur < fl_ID f)"

text \<open>The loop of \<open>List\<close> over the reversed order: the identifiers taken so far (newest
  first), the last of them, and the result with the next cursor.\<close>

fun listLoop ::
    "go_env \<Rightarrow> memory \<Rightarrow> FlowFilter \<Rightarrow> nat \<Rightarrow> cursorPos \<Rightarrow> bool \<Rightarrow> string list \<Rightarrow> string \<Rightarrow>
     string list \<Rightarrow> string list \<times> string" where
  "listLoop u m q limit cur passed acc lastID [] = (acc, '''')"
| "listLoop u m q limit cur passed acc lastID (x # xs) =
     (case map_of (m_byID m) x of
        None \<Rightarrow> listLoop u m q limit cur passed acc lastID xs
      | Some r \<Rightarrow>
          if \<not> passed \<and> cur_found cur \<and> x = cur_id cur
          then listLoop u m q limit cur True acc lastID xs
          else if \<not> passed \<and> \<not> (\<not> cur_found cur \<and> \<not> newerThanCursor (rec_flow r) cur)
          then listLoop u m q limit cur False acc lastID xs
          else if \<not> matchFilter u (rec_flow r) q
          then listLoop u m q limit cur True acc lastID xs
          else if length acc = limit then (acc, lastID)
          else listLoop u m q limit cur True (acc @ [x]) x xs)"

definition listLimit :: "int \<Rightarrow> nat" where
  "listLimit l =
     (let l1 = (if l \<le> 0 then DefaultListLimit else l)
      in nat (if l1 > MaxListLimit then MaxListLimit else l1))"

definition List_ids ::
    "go_env \<Rightarrow> (string \<Rightarrow> gotime option) \<Rightarrow> memory \<Rightarrow> ListQuery \<Rightarrow> string list \<times> string" where
  "List_ids u ulidTime m q =
     (let (cur, fresh) = resolveCursorLocked ulidTime m (lq_Cursor q)
      in listLoop u m (lq_Filter q) (listLimit (lq_Limit q)) cur
           (lq_Cursor q = '''' \<or> fresh) [] '''' (rev (m_order m)))"

text \<open>Loading the page after the lock is released: a row whose spill file is gone is skipped.\<close>

fun loadPage :: "io \<Rightarrow> memory \<Rightarrow> filesys \<Rightarrow> string list \<Rightarrow> store_error + Flow list" where
  "loadPage io m fs [] = Inr []"
| "loadPage io m fs (x # xs) =
     (case map_of (m_byID m) x of
        None \<Rightarrow> loadPage io m fs xs
      | Some r \<Rightarrow>
        (case loadSpill io (snapshotRecord r) fs of
           Inl NotExist \<Rightarrow> loadPage io m fs xs
         | Inl ReadFailed \<Rightarrow> Inl ErrSpill
         | Inr f \<Rightarrow> (case loadPage io m fs xs of Inl e \<Rightarrow> Inl e | Inr rest \<Rightarrow> Inr (f # rest))))"

definition ListFlows ::
    "io \<Rightarrow> go_env \<Rightarrow> (string \<Rightarrow> gotime option) \<Rightarrow> memory \<Rightarrow> filesys \<Rightarrow> ListQuery \<Rightarrow>
     store_error + (Flow list \<times> string \<times> nat)" where
  "ListFlows io u ulidTime m fs q =
     (let (ids, next) = List_ids u ulidTime m q
      in case loadPage io m fs ids of Inl e \<Rightarrow> Inl e | Inr items \<Rightarrow> Inr (items, next, m_generation m))"

fun newestMatch :: "go_env \<Rightarrow> memory \<Rightarrow> FlowFilter \<Rightarrow> string list \<Rightarrow> flowrec option" where
  "newestMatch u m q [] = None"
| "newestMatch u m q (x # xs) =
     (case map_of (m_byID m) x of
        None \<Rightarrow> newestMatch u m q xs
      | Some r \<Rightarrow> if matchFilter u (rec_flow r) q then Some r else newestMatch u m q xs)"

definition newestMatchLocked :: "go_env \<Rightarrow> memory \<Rightarrow> FlowFilter \<Rightarrow> flowrec option" where
  "newestMatchLocked u m q = newestMatch u m q (rev (m_order m))"

text \<open>One turn of the loop of \<open>Wait\<close>: it returns, or blocks on the condition variable with
  one more waiter counted, or goes round again because the row it had chosen was removed before
  its spill file was read (in state \<open>m'\<close>).\<close>

datatype wait_turn = WaitReturn "store_error + Flow" | WaitBlock | WaitAgain

definition Wait_turn ::
    "io \<Rightarrow> go_env \<Rightarrow> bool \<Rightarrow> FlowFilter \<Rightarrow> memory \<Rightarrow> memory \<Rightarrow> memory \<times> wait_turn" where
  "Wait_turn io u ctxErr q m m' =
     (case newestMatchLocked u m q of
        Some r \<Rightarrow>
          (case loadSpill io (snapshotRecord r) (m_fs m') of
             Inr f \<Rightarrow> (m', WaitReturn (Inr f))
           | Inl ReadFailed \<Rightarrow> (m', WaitReturn (Inl ErrSpill))
           | Inl NotExist \<Rightarrow>
               (case map_of (m_byID m') (fl_ID (rec_flow r)) of
                  Some _ \<Rightarrow> (m', WaitReturn (Inl ErrSpill))
                | None \<Rightarrow> (m', WaitAgain)))
      | None \<Rightarrow> if ctxErr then (m, WaitReturn (Inl ErrContext))
                else (m\<lparr>m_waiters := m_waiters m + 1\<rparr>, WaitBlock))"

definition Wait_wake :: "memory \<Rightarrow> memory" where
  "Wait_wake m = m\<lparr>m_waiters := (if m_waiters m - 1 < 0 then 0 else m_waiters m - 1)\<rparr>"

definition Stats :: "memory \<Rightarrow> StoreStats" where
  "Stats m = \<lparr>st_FlowCount = int (length (m_byID m)), st_Bytes = m_bytes m,
     st_Generation = m_generation m, st_Epoch = m_epoch m, st_Evictions = m_evictions m\<rparr>"

subsection \<open>Delete, caps, reset\<close>

definition Delete :: "io \<Rightarrow> string \<Rightarrow> memory \<Rightarrow> memory \<times> store_error option" where
  "Delete io x m =
     (case map_of (m_byID m) x of None \<Rightarrow> (m, Some ErrNotFound)
      | Some _ \<Rightarrow> (removeLocked io x False m, None))"

definition DeleteAll :: "io \<Rightarrow> memory \<Rightarrow> memory \<times> int" where
  "DeleteAll io m =
     (let n = int (length (m_byID m))
      in if n = 0 then (m, 0)
         else (fold (\<lambda>x. removeLocked io x False) (m_order m) m, n))"

definition ReplaceCaps :: "io \<Rightarrow> options \<Rightarrow> bool \<Rightarrow> memory \<Rightarrow> (memory \<times> store_error option) option" where
  "ReplaceCaps io opts force m =
     (case normalizeOptions opts of Inl e \<Rightarrow> Some (m, Some e)
      | Inr op \<Rightarrow>
        (let over = int (length (m_byID m)) > op_MaxFlows op \<or> m_bytes m > op_MaxBytes op
         in if over \<and> op_FullPolicy op \<noteq> FullPolicyEvictOldest \<and> \<not> force
            then Some (m, Some ErrOverNewCap)
            else let m1 = m\<lparr>m_maxFlows := op_MaxFlows op, m_maxBytes := op_MaxBytes op,
                            m_maxBodyBytes := op_MaxBodyBytes op,
                            m_fullPolicy := op_FullPolicy op\<rparr>
                 in if over
                    then map_option (\<lambda>(m2, e). (m2, map_option (\<lambda>_. ErrOverNewCap) e))
                           (evictUntilUnderCapsLocked io m1)
                    else Some (m1, None)))"

definition wipeLocked :: "io \<Rightarrow> memory \<Rightarrow> memory" where
  "wipeLocked io m =
     (let m1 = failPausedLocked ErrStaleEpoch m
      in m1\<lparr>m_epoch := m_epoch m1 + 1, m_generation := m_generation m1 + 1,
            m_byID := [], m_order := [], m_bytes := 0,
            m_fs := fst (unlinkAllSpill io (m_spillDir m1) (m_fs m1))\<rparr>)"

definition Wipe :: "io \<Rightarrow> memory \<Rightarrow> memory" where
  "Wipe io m = emitLocked EventWiped '''' '''' (wipeLocked io m)"

definition ResetTo :: "io \<Rightarrow> options \<Rightarrow> memory \<Rightarrow> memory \<times> store_error option" where
  "ResetTo io opts m =
     (case normalizeOptions opts of Inl e \<Rightarrow> (m, Some e)
      | Inr op \<Rightarrow>
        (emitLocked EventWiped '''' ''''
           ((wipeLocked io m)\<lparr>m_maxFlows := op_MaxFlows op, m_maxBytes := op_MaxBytes op,
              m_maxBodyBytes := op_MaxBodyBytes op, m_fullPolicy := op_FullPolicy op,
              m_maxWait := op_MaxWait op, m_spillDir := op_SpillDirectory op,
              m_spillThreshold := op_SpillThreshold op\<rparr>), None))"

end
