(* ===== verification/Store_Breakpoint.thy ===== *)
theory Store_Breakpoint
  imports Store_Memory
begin

text \<open>
  Breakpoints of the inbox (\<open>internal/store/breakpoint.go\<close>): a flow is paused, and later
  resumed (with an optional patch), dropped or expired; a session that waits for that registers a
  channel and is sent the result exactly when the flow leaves the paused state.
\<close>

definition setRecord :: "string \<Rightarrow> flowrec \<Rightarrow> memory \<Rightarrow> memory" where
  "setRecord x r m = m\<lparr>m_byID := AList.update x r (m_byID m)\<rparr>"

definition bumpGeneration :: "memory \<Rightarrow> memory" where
  "bumpGeneration m = m\<lparr>m_generation := m_generation m + 1\<rparr>"

definition Pause :: "string \<Rightarrow> memory \<Rightarrow> memory \<times> store_error option" where
  "Pause x m =
     (case map_of (m_byID m) x of None \<Rightarrow> (m, Some ErrNotFound)
      | Some r \<Rightarrow>
          if fl_State (rec_flow r) = FlowStatePaused then (m, None)
          else (emitLocked EventPaused x (fl_Host (rec_flow r))
                 (bumpGeneration (setRecord x
                   (r\<lparr>rec_flow := rec_flow r\<lparr>fl_State := FlowStatePaused\<rparr>, rec_wasPaused := True,
                      rec_pauseDone := False, rec_pauseResult := emptyResult\<rparr>) m)), None))"

definition respSide :: "Flow \<Rightarrow> bool" where
  "respSide f \<longleftrightarrow> fl_PausedPhase f = RulePhaseResponse"

definition currentSide :: "Flow \<Rightarrow> HTTPMessage" where
  "currentSide f = (if respSide f then fl_Response f else fl_Request f)"

definition setSide :: "bool \<Rightarrow> HTTPMessage \<Rightarrow> Flow \<Rightarrow> Flow" where
  "setSide resp m f = (if resp then f\<lparr>fl_Response := m\<rparr> else f\<lparr>fl_Request := m\<rparr>)"

definition snapshotPatch :: "ResumePatch \<Rightarrow> Flow \<Rightarrow> ResumePatch" where
  "snapshotPatch patch f =
     \<lparr>rp_Headers = (if rp_Headers patch \<noteq> None then cloneHeaders (rp_Headers patch)
                    else cloneHeaders (msg_Headers (currentSide f))),
      rp_Body = (if rp_Body patch \<noteq> None then cloneBytes (rp_Body patch)
                 else if \<not> msg_Truncated (currentSide f) then cloneBytes (msg_Body (currentSide f))
                 else None)\<rparr>"

definition currentPatch :: "Flow \<Rightarrow> ResumePatch" where
  "currentPatch f =
     \<lparr>rp_Headers = cloneHeaders (msg_Headers (currentSide f)),
      rp_Body = (if \<not> msg_Truncated (currentSide f) then cloneBytes (msg_Body (currentSide f))
                 else None)\<rparr>"

text \<open>The side of the flow a patch replaces, on a copy of the flow.\<close>

definition patchSide :: "ResumePatch \<Rightarrow> HTTPMessage \<Rightarrow> HTTPMessage" where
  "patchSide patch side =
     (let s1 = (if rp_Headers patch \<noteq> None then side\<lparr>msg_Headers := cloneHeaders (rp_Headers patch)\<rparr>
                else side)
      in if rp_Body patch \<noteq> None
         then s1\<lparr>msg_Body := cloneBytes (rp_Body patch),
                 msg_Size := int (length (elems (rp_Body patch))), msg_Truncated := False\<rparr>
         else s1)"

definition patchedFlow :: "ResumePatch \<Rightarrow> Flow \<Rightarrow> Flow" where
  "patchedFlow patch f =
     (let trial = cloneFlow f
      in setSide (respSide trial) (patchSide patch (currentSide trial)) trial)"

text \<open>The eviction plan: the rows to remove, oldest first and never the patched row, until the
  projected size fits; with the size projected at the end.\<close>

fun planVictims :: "memory \<Rightarrow> string \<Rightarrow> int \<Rightarrow> string list \<Rightarrow> string list \<times> int" where
  "planVictims m self projected [] = ([], projected)"
| "planVictims m self projected (x # xs) =
     (if x = self then planVictims m self projected xs
      else let p = projected - (case map_of (m_byID m) x of None \<Rightarrow> 0 | Some r \<Rightarrow> rec_resident r)
           in if p \<le> m_maxBytes m then ([x], p)
              else let (vs, p') = planVictims m self p xs in (x # vs, p'))"

text \<open>The steps of \<open>applyPatchLocked\<close> after its checks: remove the victims, then publish the
  row with its new spill file. \<open>x\<close> is the row's key; \<open>newSpill\<close> the file just
  renamed into place, if any.\<close>

definition publishPatch ::
    "io \<Rightarrow> string \<Rightarrow> ResumePatch \<Rightarrow> flowrec \<Rightarrow> Flow \<Rightarrow> int \<Rightarrow> string list \<Rightarrow> path option \<Rightarrow>
     memory \<Rightarrow> memory" where
  "publishPatch io x patch r trial nextResident victims newSpill m =
     (let m1 = fold (\<lambda>v. removeLocked io v True) victims m;
          resp = respSide trial;
          old = (if resp then rec_respSpill r else rec_reqSpill r);
          drops = rp_Body patch \<noteq> None \<and> old \<noteq> None \<and> old \<noteq> newSpill;
          fs2 = (if drops then removeOpt io old (m_fs m1) else m_fs m1);
          trial2 = (if rp_Body patch \<noteq> None \<and> newSpill \<noteq> None
                    then setSide resp ((currentSide trial)\<lparr>msg_Body := None\<rparr>) trial else trial);
          r1 = (if rp_Body patch \<noteq> None
                then (if resp then r\<lparr>rec_respSpill := newSpill\<rparr> else r\<lparr>rec_reqSpill := newSpill\<rparr>)
                else r);
          r2 = r1\<lparr>rec_flow := trial2, rec_resident := nextResident\<rparr>;
          b = m_bytes m1 + (nextResident - rec_resident r)
      in setRecord x r2 (m1\<lparr>m_fs := fs2, m_bytes := (if b < 0 then 0 else b)\<rparr>))"

text \<open>The checks of \<open>applyPatchLocked\<close>: the rows to evict, or the error.\<close>

definition planPatch :: "memory \<Rightarrow> flowrec \<Rightarrow> ResumePatch \<Rightarrow> store_error + string list" where
  "planPatch m r patch =
     (if rp_Body patch \<noteq> None \<and> int (length (elems (rp_Body patch))) > m_maxBodyBytes m
      then Inl ErrTooLarge
      else let next = ResidentBytes (patchedFlow patch (rec_flow r))
      in if next > m_maxBytes m then Inl ErrTooLarge
      else let projected = m_bytes m + (next - rec_resident r)
      in if projected > m_maxBytes m then
           (if m_fullPolicy m \<noteq> FullPolicyEvictOldest then Inl ErrFull
            else let (victims, p) = planVictims m (fl_ID (rec_flow r)) projected (m_order m)
                 in if p > m_maxBytes m then Inl ErrFull else Inr victims)
         else Inr [])"

text \<open>Its fallible part: stage the new body and rename it into place; the temporary name is
  removed when the function returns.\<close>

definition stagePatch ::
    "io \<Rightarrow> memory \<Rightarrow> flowrec \<Rightarrow> ResumePatch \<Rightarrow> filesys \<times> (unit + (path option \<times> path option))" where
  "stagePatch io m r patch =
     (if rp_Body patch = None then (m_fs m, Inr (None, None))
      else case stageSideSpill io (m_spillDir m) (m_spillThreshold m) (fl_ID (rec_flow r))
                  (if respSide (rec_flow r) then ''resp'' else ''req'')
                  (elems (rp_Body patch)) (m_fs m) of
        (fs1, Inl _) \<Rightarrow> (fs1, Inl ())
      | (fs1, Inr None) \<Rightarrow> (fs1, Inr (None, None))
      | (fs1, Inr (Some (tmp, final))) \<Rightarrow>
          (let (fs2, ok) = Rename io tmp final fs1
           in if ok then (fs2, Inr (Some tmp, Some final)) else (Remove io tmp fs2, Inl ())))"

definition applyPatchLocked ::
    "io \<Rightarrow> string \<Rightarrow> flowrec \<Rightarrow> ResumePatch \<Rightarrow> memory \<Rightarrow> memory \<times> store_error option" where
  "applyPatchLocked io x r patch m =
     (case planPatch m r patch of Inl e \<Rightarrow> (m, Some e)
      | Inr victims \<Rightarrow>
        (case stagePatch io m r patch of
           (fs1, Inl _) \<Rightarrow> (m\<lparr>m_fs := fs1\<rparr>, Some ErrSpill)
         | (fs1, Inr (tmp, newSpill)) \<Rightarrow>
           (let trial = patchedFlow patch (rec_flow r);
                m' = publishPatch io x patch r trial (ResidentBytes trial) victims newSpill
                       (m\<lparr>m_fs := fs1\<rparr>)
            in (m'\<lparr>m_fs := removeOpt io tmp (m_fs m')\<rparr>, None))))"

definition Resume :: "io \<Rightarrow> string \<Rightarrow> ResumePatch option \<Rightarrow> memory \<Rightarrow> memory \<times> store_error option" where
  "Resume io x patch m =
     (case map_of (m_byID m) x of None \<Rightarrow> (m, Some ErrNotFound)
      | Some r \<Rightarrow>
          if fl_State (rec_flow r) \<noteq> FlowStatePaused then (m, Some ErrBreakpointInactive)
          else case (case patch of None \<Rightarrow> (m, None) | Some p \<Rightarrow> applyPatchLocked io x r p m) of
            (m1, Some e) \<Rightarrow> (m1, Some e)
          | (m1, None) \<Rightarrow>
            (case map_of (m_byID m1) x of None \<Rightarrow> (m1, Some ErrNotFound)
             | Some r1 \<Rightarrow>
               (let f = rec_flow r1;
                    applied = (case patch of None \<Rightarrow> currentPatch f | Some p \<Rightarrow> snapshotPatch p f);
                    f' = f\<lparr>fl_State := (if fl_PausedPhase f = RulePhaseRequest then FlowStateOpen
                                        else FlowStateCompleted)\<rparr>;
                    m2 = bumpGeneration (setRecord x (r1\<lparr>rec_flow := f'\<rparr>) m1);
                    m3 = finishPausedLocked x (emptyResult\<lparr>pr_patch := applied\<rparr>) m2
                in (emitLocked EventResumed x (fl_Host f') m3, None))))"

definition Drop :: "string \<Rightarrow> memory \<Rightarrow> memory \<times> store_error option" where
  "Drop x m =
     (case map_of (m_byID m) x of None \<Rightarrow> (m, Some ErrNotFound)
      | Some r \<Rightarrow>
          if fl_State (rec_flow r) \<noteq> FlowStatePaused then (m, Some ErrBreakpointInactive)
          else (emitLocked EventDropped x (fl_Host (rec_flow r))
                 (finishPausedLocked x (emptyResult\<lparr>pr_err := Some ErrDropped\<rparr>)
                   (bumpGeneration (setRecord x
                     (r\<lparr>rec_flow := rec_flow r\<lparr>fl_State := FlowStateDropped\<rparr>\<rparr>) m))), None))"

definition breakpoint_timeout :: string where "breakpoint_timeout = ''breakpoint_timeout''"

definition ExpireBreakpoint :: "gotime \<Rightarrow> string \<Rightarrow> memory \<Rightarrow> memory \<times> store_error option" where
  "ExpireBreakpoint now x m =
     (case map_of (m_byID m) x of None \<Rightarrow> (m, Some ErrNotFound)
      | Some r \<Rightarrow>
          if fl_State (rec_flow r) \<noteq> FlowStatePaused then (m, Some ErrBreakpointInactive)
          else (finishPausedLocked x (emptyResult\<lparr>pr_err := Some ErrBreakpointTimeout\<rparr>)
                 (bumpGeneration (setRecord x
                   (r\<lparr>rec_flow := (rec_flow r)\<lparr>fl_State := FlowStateCompleted,
                        fl_Error := breakpoint_timeout, fl_CompletedAt := now\<rparr>\<rparr>) m)), None))"

text \<open>\<open>WaitPaused\<close> in its two halves. The first either answers at once or registers the fresh
  channel \<open>w\<close>; the second runs when the channel has a result or the context is done.\<close>

datatype wait_paused = WaitAnswer pauseResult | WaitRegistered

definition WaitPaused_begin :: "nat \<Rightarrow> string \<Rightarrow> memory \<Rightarrow> memory \<times> wait_paused" where
  "WaitPaused_begin w x m =
     (case map_of (m_byID m) x of
        None \<Rightarrow> (m, WaitAnswer (emptyResult\<lparr>pr_err := Some ErrNotFound\<rparr>))
      | Some r \<Rightarrow>
          if rec_pauseDone r then (m, WaitAnswer (rec_pauseResult r))
          else if fl_State (rec_flow r) \<noteq> FlowStatePaused
          then (m, WaitAnswer (emptyResult\<lparr>pr_err := Some ErrBreakpointInactive\<rparr>))
          else (m\<lparr>m_paused := AList.update x (pausedOf m x @ [w]) (m_paused m)\<rparr>, WaitRegistered))"

definition removeWaiterLocked :: "string \<Rightarrow> nat \<Rightarrow> memory \<Rightarrow> memory" where
  "removeWaiterLocked x w m =
     (let ws = remove1 w (pausedOf m x)
      in m\<lparr>m_paused := (if ws = [] then AList.delete x (m_paused m)
                        else AList.update x ws (m_paused m))\<rparr>)"

definition WaitPaused_result :: "nat \<Rightarrow> memory \<Rightarrow> (memory \<times> pauseResult) option" where
  "WaitPaused_result w m =
     map_option (\<lambda>res. (m\<lparr>m_chans := AList.delete w (m_chans m)\<rparr>, res)) (map_of (m_chans m) w)"

definition WaitPaused_done :: "nat \<Rightarrow> string \<Rightarrow> memory \<Rightarrow> memory \<times> pauseResult" where
  "WaitPaused_done w x m =
     (let m1 = removeWaiterLocked x w m
      in case map_of (m_byID m1) x of
           Some r \<Rightarrow>
             if rec_pauseDone r then (m1, rec_pauseResult r)
             else (case WaitPaused_result w m1 of Some (m2, res) \<Rightarrow> (m2, res)
                   | None \<Rightarrow> (m1, emptyResult\<lparr>pr_err := Some ErrContext\<rparr>))
         | None \<Rightarrow>
             (case WaitPaused_result w m1 of Some (m2, res) \<Rightarrow> (m2, res)
              | None \<Rightarrow> (m1, emptyResult\<lparr>pr_err := Some ErrContext\<rparr>)))"

end
