(* ===== verification/Store_Inv.thy ===== *)
theory Store_Inv
  imports Store_Breakpoint
begin

text \<open>
  The invariant of the inbox and its preservation by every operation. \<open>inv_core\<close> ties the
  index, the eviction order, the byte counter and the registered waiters together; \<open>inv_store\<close>
  adds the caps. The eviction loops are instances of the locale \<open>evict_loop\<close>, which shows once
  that such a loop returns, that it removes a minimal prefix of the order, and what holds then.
\<close>

subsection \<open>Loops that evict from the front\<close>

fun evict_spec :: "('k \<Rightarrow> 's \<Rightarrow> 's) \<Rightarrow> ('s \<Rightarrow> bool) \<Rightarrow> 'k list \<Rightarrow> 's \<Rightarrow> 's" where
  "evict_spec rem ok [] s = s"
| "evict_spec rem ok (x # xs) s = (if ok s then s else evict_spec rem ok xs (rem x s))"

locale evict_loop =
  fixes ord :: "'s \<Rightarrow> 'k list" and rem :: "'k \<Rightarrow> 's \<Rightarrow> 's" and ok :: "'s \<Rightarrow> bool"
    and inv :: "'s \<Rightarrow> bool"
  assumes rem_order: "inv s \<Longrightarrow> ord s = x # xs \<Longrightarrow> ord (rem x s) = xs"
    and rem_inv: "inv s \<Longrightarrow> ord s = x # xs \<Longrightarrow> inv (rem x s)"
begin

lemma loop_returns:
  "inv s \<Longrightarrow> while_option (\<lambda>s. ord s \<noteq> [] \<and> \<not> ok s) (\<lambda>s. rem (hd (ord s)) s) s
             = Some (evict_spec rem ok (ord s) s)"
proof (induction "ord s" arbitrary: s)
  case Nil
  then show ?case by (simp add: while_option_unfold)
next
  case (Cons x xs)
  note step = rem_inv[OF Cons.prems Cons.hyps(2)[symmetric]]
    rem_order[OF Cons.prems Cons.hyps(2)[symmetric]]
  show ?case
  proof (cases "ok s")
    case True
    then show ?thesis by (simp add: while_option_unfold flip: Cons.hyps(2))
  next
    case False
    have "while_option (\<lambda>s. ord s \<noteq> [] \<and> \<not> ok s) (\<lambda>s. rem (hd (ord s)) s) (rem x s)
        = Some (evict_spec rem ok (ord (rem x s)) (rem x s))"
      using Cons.hyps(1)[OF step(2)[symmetric] step(1)] .
    with False step(2) show ?thesis
      by (subst while_option_unfold) (simp flip: Cons.hyps(2))
  qed
qed

lemma spec_inv: "inv s \<Longrightarrow> ord s = xs \<Longrightarrow> inv (evict_spec rem ok xs s)"
  by (induction xs arbitrary: s) (simp_all add: rem_inv rem_order)

lemma spec_stops:
  "inv s \<Longrightarrow> ord s = xs \<Longrightarrow> ok (evict_spec rem ok xs s) \<or> ord (evict_spec rem ok xs s) = []"
  by (induction xs arbitrary: s) (simp_all add: rem_inv rem_order)

lemma spec_suffix: "inv s \<Longrightarrow> ord s = xs \<Longrightarrow> suffix (ord (evict_spec rem ok xs s)) xs"
  by (induction xs arbitrary: s) (auto simp: rem_inv rem_order suffix_Cons)

text \<open>What was removed is the shortest prefix of the order after which the test holds.\<close>

lemma spec_minimal:
  "inv s \<Longrightarrow> ord s = xs \<Longrightarrow>
   \<exists>k \<le> length xs. evict_spec rem ok xs s = fold rem (take k xs) s
     \<and> (\<forall>j < k. \<not> ok (fold rem (take j xs) s))
     \<and> ord (evict_spec rem ok xs s) = drop k xs"
proof (induction xs arbitrary: s)
  case Nil
  then show ?case by simp
next
  case (Cons x xs)
  show ?case
  proof (cases "ok s")
    case True
    with Cons.prems show ?thesis by (intro exI [of _ 0]) simp
  next
    case False
    from Cons.IH[OF rem_inv[OF Cons.prems] rem_order[OF Cons.prems]]
    obtain k where k: "k \<le> length xs"
      "evict_spec rem ok xs (rem x s) = fold rem (take k xs) (rem x s)"
      "\<forall>j < k. \<not> ok (fold rem (take j xs) (rem x s))"
      "ord (evict_spec rem ok xs (rem x s)) = drop k xs" by blast
    have "\<not> ok (fold rem (take j (x # xs)) s)" if "j < Suc k" for j
      using that False k(3) by (cases j) auto
    with k False show ?thesis by (intro exI [of _ "Suc k"]) simp
  qed
qed

end

subsection \<open>The invariant\<close>

definition wf_rec :: "string \<Rightarrow> flowrec \<Rightarrow> bool" where
  "wf_rec x r \<longleftrightarrow>
     fl_ID (rec_flow r) = x \<and> x \<noteq> '''' \<and> wf_flow (rec_flow r) \<and> 0 \<le> rec_resident r
     \<and> (fl_State (rec_flow r) = FlowStatePaused \<longrightarrow> \<not> rec_pauseDone r)"

definition wf_rows :: "memory \<Rightarrow> bool" where
  "wf_rows m \<longleftrightarrow>
     distinct (map fst (m_byID m)) \<and> distinct (m_order m) \<and> set (m_order m) = keys (m_byID m)
     \<and> (\<forall>x r. map_of (m_byID m) x = Some r \<longrightarrow> wf_rec x r)
     \<and> m_bytes m = vsum rec_resident (m_byID m)"

definition wf_config :: "memory \<Rightarrow> bool" where
  "wf_config m \<longleftrightarrow>
     0 < m_maxFlows m \<and> 0 < m_maxBytes m \<and> 0 < m_maxBodyBytes m
     \<and> m_fullPolicy m \<in> {FullPolicyReject, FullPolicyEvictOldest}"

text \<open>Every identifier with a registered waiter is a paused row, no waiter is registered twice
  and no registered waiter has been answered.\<close>

definition waitersOf :: "memory \<Rightarrow> nat list" where
  "waitersOf m = concat (map snd (m_paused m))"

definition is_paused :: "memory \<Rightarrow> string \<Rightarrow> bool" where
  "is_paused m x \<longleftrightarrow>
     (case map_of (m_byID m) x of None \<Rightarrow> False
      | Some r \<Rightarrow> fl_State (rec_flow r) = FlowStatePaused)"

definition wf_paused :: "memory \<Rightarrow> bool" where
  "wf_paused m \<longleftrightarrow>
     distinct (map fst (m_paused m)) \<and> distinct (waitersOf m)
     \<and> (\<forall>x \<in> keys (m_paused m). is_paused m x)
     \<and> set (waitersOf m) \<inter> keys (m_chans m) = {}"

definition inv_core :: "memory \<Rightarrow> bool" where
  "inv_core m \<longleftrightarrow> wf_rows m \<and> wf_config m \<and> wf_paused m \<and> list_all wf_sub (m_subs m)"

definition inv_store :: "memory \<Rightarrow> bool" where
  "inv_store m \<longleftrightarrow> inv_core m \<and> occupancyOKLocked m"

subsection \<open>Small steps: channels, events, generation\<close>

lemma emitLocked_fields [simp]:
  "m_byID (emitLocked k x h m) = m_byID m" "m_order (emitLocked k x h m) = m_order m"
  "m_bytes (emitLocked k x h m) = m_bytes m" "m_paused (emitLocked k x h m) = m_paused m"
  "m_chans (emitLocked k x h m) = m_chans m" "m_fs (emitLocked k x h m) = m_fs m"
  "m_maxFlows (emitLocked k x h m) = m_maxFlows m" "m_maxBytes (emitLocked k x h m) = m_maxBytes m"
  "m_maxBodyBytes (emitLocked k x h m) = m_maxBodyBytes m"
  "m_fullPolicy (emitLocked k x h m) = m_fullPolicy m" "m_epoch (emitLocked k x h m) = m_epoch m"
  "m_generation (emitLocked k x h m) = m_generation m"
  "m_evictions (emitLocked k x h m) = m_evictions m"
  "m_spillDir (emitLocked k x h m) = m_spillDir m"
  "m_spillThreshold (emitLocked k x h m) = m_spillThreshold m"
  by (simp_all add: emitLocked_def)

lemma emitLocked_subs: "list_all wf_sub (m_subs m) \<Longrightarrow> list_all wf_sub (m_subs (emitLocked k x h m))"
  by (simp add: emitLocked_def emit_wf)

lemma deliver_keys: "keys (deliver res ws cs) = keys cs \<union> set ws"
proof (induction res ws cs rule: deliver.induct)
  case (2 res v ws cs)
  then show ?case by (cases "map_of cs v") (auto dest: map_of_SomeD simp: rev_image_eqI)
qed simp

lemma deliver_other: "w \<notin> set ws \<Longrightarrow> map_of (deliver res ws cs) w = map_of cs w"
  by (induction res ws cs rule: deliver.induct) (auto split: option.splits)

lemma deliver_keep: "map_of cs w = Some v \<Longrightarrow> map_of (deliver res ws cs) w = Some v"
  by (induction res ws cs rule: deliver.induct) (fastforce split: option.splits if_splits)+

lemma deliver_waiter:
  "w \<in> set ws \<Longrightarrow> map_of cs w = None \<Longrightarrow> map_of (deliver res ws cs) w = Some res"
proof (induction res ws cs rule: deliver.induct)
  case (2 res v ws cs)
  show ?case
  proof (cases "w = v")
    case True
    with 2 show ?thesis by (simp add: deliver_keep)
  next
    case False
    with 2 show ?thesis by (auto split: option.splits)
  qed
qed simp

lemma finishPausedLocked_fields [simp]:
  "m_order (finishPausedLocked x res m) = m_order m"
  "m_bytes (finishPausedLocked x res m) = m_bytes m"
  "m_paused (finishPausedLocked x res m) = AList.delete x (m_paused m)"
  "m_chans (finishPausedLocked x res m) = deliver res (pausedOf m x) (m_chans m)"
  "m_subs (finishPausedLocked x res m) = m_subs m" "m_fs (finishPausedLocked x res m) = m_fs m"
  "m_maxFlows (finishPausedLocked x res m) = m_maxFlows m"
  "m_maxBytes (finishPausedLocked x res m) = m_maxBytes m"
  "m_maxBodyBytes (finishPausedLocked x res m) = m_maxBodyBytes m"
  "m_fullPolicy (finishPausedLocked x res m) = m_fullPolicy m"
  "m_epoch (finishPausedLocked x res m) = m_epoch m"
  "m_generation (finishPausedLocked x res m) = m_generation m"
  "m_evictions (finishPausedLocked x res m) = m_evictions m"
  "m_spillDir (finishPausedLocked x res m) = m_spillDir m"
  "m_spillThreshold (finishPausedLocked x res m) = m_spillThreshold m"
  by (simp_all add: finishPausedLocked_def Let_def split: option.splits)

lemma finishPausedLocked_byID:
  "m_byID (finishPausedLocked x res m) =
     (case map_of (m_byID m) x of None \<Rightarrow> m_byID m
      | Some r \<Rightarrow> AList.update x (r\<lparr>rec_pauseDone := True, rec_pauseResult := res\<rparr>) (m_byID m))"
  by (simp add: finishPausedLocked_def Let_def split: option.splits)

subsection \<open>Removal\<close>

lemma removeLocked_absent [simp]: "x \<notin> keys (m_byID m) \<Longrightarrow> removeLocked io x ev m = m"
  by (simp add: removeLocked_def map_of_eq_None_keys [symmetric])

lemma removeLocked_config [simp]:
  "m_maxFlows (removeLocked io x ev m) = m_maxFlows m"
  "m_maxBytes (removeLocked io x ev m) = m_maxBytes m"
  "m_maxBodyBytes (removeLocked io x ev m) = m_maxBodyBytes m"
  "m_fullPolicy (removeLocked io x ev m) = m_fullPolicy m"
  "m_epoch (removeLocked io x ev m) = m_epoch m"
  "m_spillDir (removeLocked io x ev m) = m_spillDir m"
  "m_spillThreshold (removeLocked io x ev m) = m_spillThreshold m"
  by (simp_all add: removeLocked_def Let_def split: option.splits)

lemma removeLocked_byID [simp]: "m_byID (removeLocked io x ev m) = AList.delete x (m_byID m)"
proof (cases "map_of (m_byID m) x")
  case None
  then show ?thesis by (simp add: map_of_eq_None_keys AList.delete_idem)
next
  case (Some r)
  then show ?thesis by (simp add: removeLocked_def Let_def finishPausedLocked_byID)
qed

lemma removeLocked_present:
  assumes "map_of (m_byID m) x = Some r"
  shows "m_order (removeLocked io x ev m) = remove1 x (m_order m)"
    and "m_bytes (removeLocked io x ev m) = max 0 (m_bytes m - rec_resident r)"
    and "m_paused (removeLocked io x ev m) = AList.delete x (m_paused m)"
    and "m_chans (removeLocked io x ev m) =
         deliver (emptyResult\<lparr>pr_err := Some ErrNotFound\<rparr>) (pausedOf m x) (m_chans m)"
    and "m_generation (removeLocked io x ev m) = Suc (m_generation m)"
    and "m_fs (removeLocked io x ev m) = unlinkRecord io r (m_fs m)"
  using assms by (simp_all add: removeLocked_def Let_def pausedOf_def)

lemma removeLocked_subs:
  "list_all wf_sub (m_subs m) \<Longrightarrow> list_all wf_sub (m_subs (removeLocked io x ev m))"
  by (auto simp: removeLocked_def Let_def intro!: emitLocked_subs split: option.splits)

subsection \<open>Waiters\<close>

lemma pausedOf_waiters: "set (pausedOf m x) \<subseteq> set (waitersOf m)"
  by (cases "map_of (m_paused m) x") (auto simp: pausedOf_def waitersOf_def dest!: map_of_SomeD)

lemma concat_delete_subset:
  "set (concat (map snd (AList.delete x ps))) \<subseteq> set (concat (map snd ps))"
  by (auto simp: AList.delete_eq)

lemma distinct_concat_delete:
  "distinct (concat (map snd ps)) \<Longrightarrow> distinct (concat (map snd (AList.delete x ps)))"
proof (induction ps)
  case Nil
  then show ?case by simp
next
  case (Cons p ps)
  then show ?case using concat_delete_subset[of x ps] by (cases p) auto
qed

lemma delete_waiters_disjoint:
  "distinct (concat (map snd ps)) \<Longrightarrow> map_of ps x = Some ws \<Longrightarrow>
   set ws \<inter> set (concat (map snd (AList.delete x ps))) = {}"
proof (induction ps)
  case Nil
  then show ?case by simp
next
  case (Cons p ps)
  have sub: "set (concat (map snd (AList.delete x ps))) \<subseteq> set (concat (map snd ps))"
    by (rule concat_delete_subset)
  show ?case
  proof (cases "fst p = x")
    case True
    with Cons.prems sub show ?thesis by (cases p) auto
  next
    case False
    with Cons.prems have ws: "map_of ps x = Some ws" by (cases p) auto
    then have "set ws \<subseteq> set (concat (map snd ps))" by (auto dest: map_of_SomeD)
    with Cons ws False show ?thesis by (cases p) auto
  qed
qed

text \<open>Answering the waiters of one identifier keeps the waiter invariant, provided the other
  identifiers stay paused.\<close>

lemma wf_paused_finish:
  assumes "wf_paused m"
    and "m_paused m' = AList.delete x (m_paused m)"
    and "m_chans m' = deliver res (pausedOf m x) (m_chans m)"
    and "\<And>y. y \<noteq> x \<Longrightarrow> is_paused m y \<Longrightarrow> is_paused m' y"
  shows "wf_paused m'"
proof -
  have "set (pausedOf m x) \<inter> set (waitersOf m') = {}"
    using assms(1) delete_waiters_disjoint[of "m_paused m" x]
    by (auto simp: wf_paused_def waitersOf_def assms(2) pausedOf_def split: option.splits)
  moreover have "set (waitersOf m') \<subseteq> set (waitersOf m)"
    using concat_delete_subset[of x "m_paused m"] by (simp add: waitersOf_def assms(2))
  ultimately have "set (waitersOf m') \<inter> keys (m_chans m') = {}"
    using assms(1) by (auto simp: wf_paused_def assms(3) deliver_keys)
  then show ?thesis
    using assms distinct_concat_delete[of "m_paused m" x]
    by (auto simp: wf_paused_def waitersOf_def AList.distinct_delete)
qed

lemma inv_coreD:
  assumes "inv_core m"
  shows "distinct (map fst (m_byID m))" "distinct (m_order m)" "set (m_order m) = keys (m_byID m)"
    "m_bytes m = vsum rec_resident (m_byID m)" "wf_paused m" "wf_config m"
    "list_all wf_sub (m_subs m)"
  using assms by (simp_all add: inv_core_def wf_rows_def)

lemma inv_core_rec: "inv_core m \<Longrightarrow> map_of (m_byID m) x = Some r \<Longrightarrow> wf_rec x r"
  by (simp add: inv_core_def wf_rows_def)

lemma inv_core_nonneg:
  assumes "inv_core m"
  shows "0 \<le> m_bytes m"
proof -
  have "0 \<le> rec_resident r" if "(x, r) \<in> set (m_byID m)" for x r
    using assms that by (metis inv_coreD(1) inv_core_rec map_of_is_SomeI wf_rec_def)
  then show ?thesis using inv_coreD(4)[OF assms] by (simp add: vsum_nonneg)
qed

lemma inv_core_resident_le:
  assumes "inv_core m" and "map_of (m_byID m) x = Some r"
  shows "0 \<le> m_bytes m - rec_resident r"
proof -
  have "0 \<le> rec_resident q" if "(y, q) \<in> set (AList.delete x (m_byID m))" for y q
  proof -
    from that have "(y, q) \<in> set (m_byID m)" by (auto simp: AList.delete_eq)
    then show ?thesis using assms by (metis inv_coreD(1) inv_core_rec map_of_is_SomeI wf_rec_def)
  qed
  then have "0 \<le> vsum rec_resident (AList.delete x (m_byID m))" by (rule vsum_nonneg)
  then show ?thesis using assms by (simp add: vsum_delete inv_coreD)
qed

lemma removeLocked_bytes:
  "inv_core m \<Longrightarrow> map_of (m_byID m) x = Some r \<Longrightarrow>
   m_bytes (removeLocked io x ev m) = m_bytes m - rec_resident r"
  using inv_core_resident_le[of m x r] by (simp add: removeLocked_present)

lemma inv_core_remove:
  assumes "inv_core m"
  shows "inv_core (removeLocked io x ev m)"
proof (cases "map_of (m_byID m) x")
  case None
  with assms show ?thesis by (simp add: map_of_eq_None_keys)
next
  case (Some r)
  let ?m = "removeLocked io x ev m"
  note I = inv_coreD[OF assms]
  have "wf_rows ?m"
    using I Some inv_core_rec[OF assms]
    by (auto simp: wf_rows_def removeLocked_present removeLocked_bytes[OF assms Some] vsum_delete
        AList.distinct_delete)
  moreover have "wf_paused ?m"
    using I(5) by (rule wf_paused_finish[where x = x])
      (simp_all add: removeLocked_present[OF Some] is_paused_def)
  ultimately show ?thesis
    using I by (simp add: inv_core_def wf_config_def removeLocked_subs)
qed

lemma removeLocked_head:
  assumes "inv_core m" and "m_order m = x # xs"
  shows "m_order (removeLocked io x ev m) = xs"
proof -
  from assms have "x \<in> keys (m_byID m)" by (metis inv_coreD(3) list.set_intros(1))
  then obtain r where "map_of (m_byID m) x = Some r"
    by (metis map_of_eq_None_keys option.exhaust)
  with assms show ?thesis by (simp add: removeLocked_present)
qed

subsection \<open>The two eviction loops\<close>

interpretation fits_loop:
  evict_loop m_order "\<lambda>x. removeLocked io x True" "\<lambda>m. fitsLocked m candidate" inv_core
  for io candidate
  by unfold_locales (simp_all add: removeLocked_head inv_core_remove)

interpretation caps_loop:
  evict_loop m_order "\<lambda>x. removeLocked io x True" occupancyOKLocked inv_core
  for io
  by unfold_locales (simp_all add: removeLocked_head inv_core_remove)

definition evictedFits :: "io \<Rightarrow> int \<Rightarrow> memory \<Rightarrow> memory" where
  "evictedFits io candidate m =
     evict_spec (\<lambda>x. removeLocked io x True) (\<lambda>m. fitsLocked m candidate) (m_order m) m"

definition evictedCaps :: "io \<Rightarrow> memory \<Rightarrow> memory" where
  "evictedCaps io m = evict_spec (\<lambda>x. removeLocked io x True) occupancyOKLocked (m_order m) m"

lemma evictUntilFits_returns:
  "inv_core m \<Longrightarrow> evictUntilFitsLocked io candidate m =
     Some (evictedFits io candidate m,
           if fitsLocked (evictedFits io candidate m) candidate then None else Some ErrFull)"
  by (simp add: evictUntilFitsLocked_def evictedFits_def fits_loop.loop_returns)

lemma evictUntilUnderCaps_returns:
  "inv_core m \<Longrightarrow> evictUntilUnderCapsLocked io m =
     Some (evictedCaps io m,
           if occupancyOKLocked (evictedCaps io m) then None else Some ErrOverNewCap)"
  by (simp add: evictUntilUnderCapsLocked_def evictedCaps_def caps_loop.loop_returns)

lemma evictedFits_core: "inv_core m \<Longrightarrow> inv_core (evictedFits io candidate m)"
  by (simp add: evictedFits_def fits_loop.spec_inv)

lemma evictedCaps_core: "inv_core m \<Longrightarrow> inv_core (evictedCaps io m)"
  by (simp add: evictedCaps_def caps_loop.spec_inv)

lemma evict_spec_config [simp]:
  "m_maxFlows (evict_spec (\<lambda>x. removeLocked io x True) ok xs m) = m_maxFlows m"
  "m_maxBytes (evict_spec (\<lambda>x. removeLocked io x True) ok xs m) = m_maxBytes m"
  "m_maxBodyBytes (evict_spec (\<lambda>x. removeLocked io x True) ok xs m) = m_maxBodyBytes m"
  "m_fullPolicy (evict_spec (\<lambda>x. removeLocked io x True) ok xs m) = m_fullPolicy m"
  "m_epoch (evict_spec (\<lambda>x. removeLocked io x True) ok xs m) = m_epoch m"
  "m_spillDir (evict_spec (\<lambda>x. removeLocked io x True) ok xs m) = m_spillDir m"
  "m_spillThreshold (evict_spec (\<lambda>x. removeLocked io x True) ok xs m) = m_spillThreshold m"
  by (induction xs arbitrary: m) simp_all

lemma evict_spec_rows:
  "map_of (m_byID (evict_spec (\<lambda>x. removeLocked io x True) ok xs m)) y = Some r \<Longrightarrow>
   map_of (m_byID m) y = Some r"
proof (induction xs arbitrary: m)
  case Nil
  then show ?case by simp
next
  case (Cons x xs)
  show ?case
  proof (cases "ok m")
    case True
    with Cons.prems show ?thesis by simp
  next
    case False
    with Cons.prems have "map_of (m_byID (evict_spec (\<lambda>x. removeLocked io x True) ok xs
        (removeLocked io x True m))) y = Some r" by simp
    then have "map_of (m_byID (removeLocked io x True m)) y = Some r" by (rule Cons.IH)
    then show ?thesis by (simp split: if_splits)
  qed
qed

lemma evict_spec_keys:
  "keys (m_byID (evict_spec (\<lambda>x. removeLocked io x True) ok xs m)) \<subseteq> keys (m_byID m)"
proof
  fix y assume "y \<in> keys (m_byID (evict_spec (\<lambda>x. removeLocked io x True) ok xs m))"
  then obtain r where "map_of (m_byID (evict_spec (\<lambda>x. removeLocked io x True) ok xs m)) y = Some r"
    unfolding in_keys_iff ..
  then have "map_of (m_byID m) y = Some r" by (rule evict_spec_rows)
  then show "y \<in> keys (m_byID m)" unfolding in_keys_iff ..
qed

text \<open>An inbox whose order is empty holds nothing.\<close>

lemma inv_core_empty: "inv_core m \<Longrightarrow> m_order m = [] \<Longrightarrow> m_byID m = [] \<and> m_bytes m = 0"
  by (metis image_is_empty inv_coreD(3,4) list.set(1) set_empty vsum_Nil)

lemma evictedCaps_ok: "inv_core m \<Longrightarrow> occupancyOKLocked (evictedCaps io m)"
  using caps_loop.spec_stops[of m _ io, OF _ refl] inv_core_empty[OF evictedCaps_core[of m io]]
  by (auto simp: evictedCaps_def occupancyOKLocked_def inv_core_def wf_config_def)

end
