(* ===== verification/Store_Insert.thy ===== *)
theory Store_Insert
  imports Store_Inv
begin

text \<open>
  Inserting into the inbox. The dry run of \<open>canAcceptLocked\<close> predicts exactly whether the
  eviction loop will make room, so an insert that fails has removed no row; an insert that succeeds
  has removed the shortest prefix of the eviction order that makes room and has put the new row at
  its place in the order; every insert keeps the invariant.
\<close>

subsection \<open>The file system is not looked at by the index\<close>

lemma m_fs_frame [simp]:
  "inv_core (m\<lparr>m_fs := fs\<rparr>) = inv_core m" "occupancyOKLocked (m\<lparr>m_fs := fs\<rparr>) = occupancyOKLocked m"
  "inv_store (m\<lparr>m_fs := fs\<rparr>) = inv_store m" "fitsLocked (m\<lparr>m_fs := fs\<rparr>) c = fitsLocked m c"
  by (simp_all add: inv_core_def wf_rows_def wf_config_def wf_paused_def waitersOf_def is_paused_def
      occupancyOKLocked_def inv_store_def fitsLocked_def)

lemma acceptLoop_fs [simp]:
  "acceptLoop (m\<lparr>m_fs := fs\<rparr>) c b n xs = acceptLoop m c b n xs"
  by (induction xs arbitrary: b n) (simp_all split: option.splits)

lemma canAcceptLocked_fs [simp]: "canAcceptLocked (m\<lparr>m_fs := fs\<rparr>) c = canAcceptLocked m c"
  by (simp add: canAcceptLocked_def)

subsection \<open>The dry run agrees with the eviction\<close>

lemma acceptLoop_evict:
  assumes "inv_core m" and "m_order m = xs"
    and "m_maxFlows m = m_maxFlows m0" and "m_maxBytes m = m_maxBytes m0"
    and "\<And>x. x \<in> set xs \<Longrightarrow> map_of (m_byID m) x = map_of (m_byID m0) x"
  shows "acceptLoop m0 c (m_bytes m) (int (length (m_byID m))) xs \<longleftrightarrow>
         fitsLocked (evict_spec (\<lambda>x. removeLocked io x True) (\<lambda>m. fitsLocked m c) xs m) c"
  using assms
proof (induction xs arbitrary: m)
  case Nil
  then show ?case by (simp add: fitsLocked_def)
next
  case (Cons x xs)
  have fits: "fitsLocked m c \<longleftrightarrow>
      int (length (m_byID m)) < m_maxFlows m0 \<and> m_bytes m + c \<le> m_maxBytes m0"
    using Cons.prems by (simp add: fitsLocked_def)
  show ?case
  proof (cases "fitsLocked m c")
    case True
    with fits show ?thesis by simp
  next
    case False
    let ?m = "removeLocked io x True m"
    from Cons.prems(1,2) have "x \<in> keys (m_byID m)"
      by (metis inv_coreD(3) list.set_intros(1))
    then obtain r where r: "map_of (m_byID m) x = Some r" unfolding in_keys_iff ..
    then have r0: "map_of (m_byID m0) x = Some r" using Cons.prems(5) by simp
    have "x \<notin> set xs" using inv_coreD(2)[OF Cons.prems(1)] Cons.prems(2) by simp
    then have "acceptLoop m0 c (m_bytes ?m) (int (length (m_byID ?m))) xs \<longleftrightarrow>
        fitsLocked (evict_spec (\<lambda>x. removeLocked io x True) (\<lambda>m. fitsLocked m c) xs ?m) c"
      using Cons.prems
      by (intro Cons.IH) (auto simp: inv_core_remove removeLocked_head)
    moreover have "int (length (m_byID ?m)) = int (length (m_byID m)) - 1"
      using length_delete_key[OF inv_coreD(1)[OF Cons.prems(1)] \<open>x \<in> keys (m_byID m)\<close>] by simp
    moreover have "m_bytes ?m = m_bytes m - rec_resident r"
      using Cons.prems(1) r by (rule removeLocked_bytes)
    moreover have "0 \<le> m_bytes m - rec_resident r"
      using Cons.prems(1) r by (rule inv_core_resident_le)
    moreover have "\<not> (int (length (m_byID m)) < m_maxFlows m0 \<and> m_bytes m + c \<le> m_maxBytes m0)"
      using False fits by simp
    ultimately show ?thesis using False r0 by (simp only: acceptLoop.simps evict_spec.simps if_False option.case) simp
  qed
qed

lemma evictedFits_id: "fitsLocked m c \<Longrightarrow> evictedFits io c m = m"
  by (cases "m_order m") (simp_all add: evictedFits_def)

lemma canAccept_evict:
  assumes "inv_core m" and "canAcceptLocked m c = None"
  shows "fitsLocked (evictedFits io c m) c"
proof (cases "fitsLocked m c")
  case True
  then show ?thesis by (simp add: evictedFits_id)
next
  case False
  with assms have "acceptLoop m c (m_bytes m) (int (length (m_byID m))) (m_order m)"
    by (simp add: canAcceptLocked_def split: if_splits)
  with assms(1) acceptLoop_evict[of m "m_order m" m c io] show ?thesis
    by (simp add: evictedFits_def)
qed

text \<open>Under the evicting policy a flow no larger than the cap is always accepted.\<close>

lemma canAccept_evicting:
  assumes "inv_core m" and "m_fullPolicy m = FullPolicyEvictOldest" and "c \<le> m_maxBytes m"
  shows "canAcceptLocked m c = None"
proof -
  let ?m = "evictedFits undefined c m"
  have core: "inv_core ?m" using assms(1) by (rule evictedFits_core)
  have "fitsLocked ?m c"
    using fits_loop.spec_stops[of m _ undefined c, OF assms(1) refl] inv_core_empty[OF core] assms(3)
      inv_coreD(6)[OF assms(1)]
    by (auto simp: evictedFits_def fitsLocked_def wf_config_def)
  with acceptLoop_evict[of m "m_order m" m c undefined] assms show ?thesis
    by (simp add: canAcceptLocked_def evictedFits_def)
qed

subsection \<open>Indexing a new row\<close>

lemma set_orderInsert [simp]: "set (orderInsert m x at ys) = insert x (set ys)"
  by (induction ys) (auto simp: Let_def split: option.splits)

lemma distinct_orderInsert: "distinct ys \<Longrightarrow> x \<notin> set ys \<Longrightarrow> distinct (orderInsert m x at ys)"
  by (induction ys) (auto simp: Let_def split: option.splits)

lemma Insert_index_fields [simp]:
  "m_byID (Insert_index x f r c m) = AList.update x r (m_byID m)"
  "m_bytes (Insert_index x f r c m) = m_bytes m + c"
  "m_paused (Insert_index x f r c m) = m_paused m" "m_chans (Insert_index x f r c m) = m_chans m"
  "m_maxFlows (Insert_index x f r c m) = m_maxFlows m"
  "m_maxBytes (Insert_index x f r c m) = m_maxBytes m"
  "m_maxBodyBytes (Insert_index x f r c m) = m_maxBodyBytes m"
  "m_fullPolicy (Insert_index x f r c m) = m_fullPolicy m"
  "m_epoch (Insert_index x f r c m) = m_epoch m" "m_fs (Insert_index x f r c m) = m_fs m"
  "m_generation (Insert_index x f r c m) = Suc (m_generation m)"
  "m_spillDir (Insert_index x f r c m) = m_spillDir m"
  "m_spillThreshold (Insert_index x f r c m) = m_spillThreshold m"
  by (simp_all add: Insert_index_def insertOrderLocked_def Let_def)

lemma Insert_index_order:
  "m_order (Insert_index x f r c m) =
     orderInsert (m\<lparr>m_byID := AList.update x r (m_byID m)\<rparr>) x (EvictTime f) (m_order m)"
  by (simp add: Insert_index_def insertOrderLocked_def Let_def)

lemma wf_pausedD: "wf_paused m \<Longrightarrow> x \<in> keys (m_paused m) \<Longrightarrow> is_paused m x"
  unfolding wf_paused_def by blast

lemma Insert_index_core:
  assumes core: "inv_core m" and new: "x \<notin> keys (m_byID m)" and wf: "wf_rec x r"
    and res: "rec_resident r = c"
  shows "inv_core (Insert_index x f r c m)"
proof -
  let ?m = "Insert_index x f r c m"
  note I = inv_coreD[OF core]
  have "x \<notin> set (m_order m)" using I(3) new by simp
  then have "distinct (m_order ?m)" "set (m_order ?m) = keys (m_byID ?m)"
    using I by (auto simp: Insert_index_order distinct_orderInsert)
  then have "wf_rows ?m"
    using I wf res inv_core_rec[OF core] new
    by (auto simp: wf_rows_def AList.distinct_update vsum_update_new)
  moreover have "is_paused ?m y" if "y \<in> keys (m_paused m)" for y
  proof -
    from I(5) that have "is_paused m y" by (rule wf_pausedD)
    with new have "y \<noteq> x" by (auto simp: is_paused_def simp flip: map_of_eq_None_keys)
    with \<open>is_paused m y\<close> show ?thesis by (simp add: is_paused_def)
  qed
  then have "wf_paused ?m" using I(5) by (simp add: wf_paused_def waitersOf_def)
  moreover have "list_all wf_sub (m_subs ?m)"
    using I(7) by (simp add: Insert_index_def insertOrderLocked_def Let_def emitLocked_subs)
  ultimately show ?thesis using I(6) by (simp add: inv_core_def wf_config_def)
qed

lemma Insert_index_inv:
  assumes "inv_core m" "fitsLocked m c" "x \<notin> keys (m_byID m)" "wf_rec x r" "rec_resident r = c"
  shows "inv_store (Insert_index x f r c m)"
  using assms Insert_index_core[of m x r c f]
  by (simp add: inv_store_def occupancyOKLocked_def fitsLocked_def length_update_new)

subsection \<open>The record that is indexed\<close>

lemma wf_websocket_clear [simp]: "wf_websocket w \<Longrightarrow> wf_websocket (clearWSPayloads w)"
proof (cases w)
  case (Some ws)
  then show "wf_websocket w \<Longrightarrow> ?thesis"
    by (cases "ws_Frames ws") (auto simp: wf_websocket_def clearWSPayloads_def list_all_iff)
qed (simp add: clearWSPayloads_def)

lemma commitSpill_wf_rec:
  assumes "commitSpill io (newRecord f c) job fs = (fs', job', Inr r)"
    and "wf_flow f" and "fl_ID f = x" and "x \<noteq> ''''" and "c = ResidentBytes f"
  shows "wf_rec x r" and "rec_resident r = c"
proof -
  have "wf_rec x r \<and> rec_resident r = c \<and> \<not> rec_pauseDone r"
    by (rule commitSpill_record[OF assms(1)])
      (use assms(2-) in \<open>simp_all add: wf_rec_def newRecord_def spilledReq_def spilledResp_def
         spilledWS_def wf_flow_def wf_message_def\<close>)
  then show "wf_rec x r" "rec_resident r = c" by simp_all
qed

text \<open>What the unlocked part of \<open>Insert\<close> hands to the locked part: a well-formed flow that
  carries the fresh identifier and is charged its resident size, within the cap of the moment.\<close>

definition insertable :: "memory \<Rightarrow> string \<Rightarrow> Flow \<Rightarrow> int \<Rightarrow> bool" where
  "insertable m x f c \<longleftrightarrow>
     x \<notin> keys (m_byID m) \<and> x \<noteq> '''' \<and> fl_ID f = x \<and> wf_flow f \<and> c = ResidentBytes f"

lemma canAcceptLocked_error: "canAcceptLocked m c = Some e \<Longrightarrow> e = ErrFull"
  by (simp add: canAcceptLocked_def split: if_splits)

lemma Insert_locked_cases:
  assumes "inv_core m"
  obtains
    (Error) e fs where "Insert_locked io ep x f c job m = Some (m\<lparr>m_fs := fs\<rparr>, Inl e)"
      "e = ErrStaleEpoch \<longleftrightarrow> ep \<noteq> m_epoch m" "e \<in> {ErrStaleEpoch, ErrFull, ErrSpill}"
      "e = ErrFull \<longrightarrow> canAcceptLocked m c = Some ErrFull"
  | (Inserted) fs j r where "ep = m_epoch m" "canAcceptLocked m c = None"
      "commitSpill io (newRecord f c) job (m_fs m) = (fs, j, Inr r)"
      "fitsLocked (evictedFits io c (m\<lparr>m_fs := fs\<rparr>)) c"
      "Insert_locked io ep x f c job m =
         Some (Insert_index x f r c (evictedFits io c (m\<lparr>m_fs := fs\<rparr>)),
               Inr \<lparr>ir_ID = x, ir_Generation =
                 Suc (m_generation (evictedFits io c (m\<lparr>m_fs := fs\<rparr>)))\<rparr>)"
proof -
  consider (stale) "ep \<noteq> m_epoch m" | (full) "ep = m_epoch m" "canAcceptLocked m c = Some ErrFull"
    | (accept) "ep = m_epoch m" "canAcceptLocked m c = None"
    using canAcceptLocked_error by fastforce
  then show thesis
  proof cases
    case stale
    then show thesis
      by (intro Error[where fs = "unlinkSpillJob io job (m_fs m)" and e = ErrStaleEpoch])
        (simp_all add: Insert_locked_def)
  next
    case full
    then show thesis
      by (intro Error[where fs = "unlinkSpillJob io job (m_fs m)" and e = ErrFull]) (simp_all add: Insert_locked_def)
  next
    case True: accept
    obtain fs j res where cs: "commitSpill io (newRecord f c) job (m_fs m) = (fs, j, res)"
      by (metis prod_cases3)
    show thesis
    proof (cases res)
      case (Inl u)
      with True cs have "Insert_locked io ep x f c job m =
          Some (m\<lparr>m_fs := unlinkSpillJob io j fs\<rparr>, Inl ErrSpill)"
        by (simp add: Insert_locked_def)
      then show thesis by (rule Error) (use True in simp_all)
    next
      case (Inr r)
      have "inv_core (m\<lparr>m_fs := fs\<rparr>)" using assms by simp
      moreover from this True have fit: "fitsLocked (evictedFits io c (m\<lparr>m_fs := fs\<rparr>)) c"
        by (simp add: canAccept_evict)
      ultimately have "Insert_locked io ep x f c job m =
           Some (Insert_index x f r c (evictedFits io c (m\<lparr>m_fs := fs\<rparr>)),
                 Inr \<lparr>ir_ID = x, ir_Generation =
                   Suc (m_generation (evictedFits io c (m\<lparr>m_fs := fs\<rparr>)))\<rparr>)"
        using True cs Inr by (simp add: Insert_locked_def evictUntilFits_returns Let_def)
      with True cs Inr fit show thesis by (intro Inserted) simp_all
    qed
  qed
qed

lemma evictedFits_keys: "keys (m_byID (evictedFits io c m)) \<subseteq> keys (m_byID m)"
  unfolding evictedFits_def by (rule evict_spec_keys)

lemma Insert_locked_inv:
  assumes inv: "inv_store m" and ok: "insertable m x f c"
  shows "\<exists>m' res. Insert_locked io ep x f c job m = Some (m', res) \<and> inv_store m'"
proof -
  from inv have core: "inv_core m" by (simp add: inv_store_def)
  then show ?thesis
  proof (cases rule: Insert_locked_cases[where io = io and ep = ep and x = x and f = f and c = c and job = job])
    case (Error e fs)
    with inv show ?thesis by simp
  next
    case (Inserted fs j r)
    let ?m = "evictedFits io c (m\<lparr>m_fs := fs\<rparr>)"
    have "wf_rec x r" "rec_resident r = c"
      using commitSpill_wf_rec[OF Inserted(3)] ok by (simp_all add: insertable_def)
    moreover have "inv_core ?m" using core by (simp add: evictedFits_core)
    moreover have "x \<notin> keys (m_byID ?m)"
      using evictedFits_keys[of io c "m\<lparr>m_fs := fs\<rparr>"] ok by (auto simp: insertable_def)
    ultimately show ?thesis using Inserted(4,5) by (simp add: Insert_index_inv)
  qed
qed

end
