(* ===== verification/Store_Ops.thy ===== *)
theory Store_Ops
  imports Store_Insert
begin

text \<open>
  The remaining operations of the inbox keep the invariant: removal, change of caps, reset, and
  the breakpoint operations, each of which either leaves the row paused with its waiters or moves
  it out of the paused state and answers every one of them.
\<close>

subsection \<open>Replacing one row\<close>

lemma wf_paused_row:
  assumes "wf_paused m" and "m_byID m' = AList.update x r' (m_byID m)"
    and "m_paused m' = m_paused m" and "m_chans m' = m_chans m"
    and "is_paused m x \<Longrightarrow> fl_State (rec_flow r') = FlowStatePaused"
  shows "wf_paused m'"
proof -
  have "is_paused m' y" if "is_paused m y" for y
    using that assms(2,5) by (cases "y = x") (simp_all add: is_paused_def)
  with assms show ?thesis by (simp add: wf_paused_def waitersOf_def)
qed

lemma inv_core_row:
  assumes core: "inv_core m" and r: "map_of (m_byID m) x = Some r" and r': "wf_rec x r'"
    and m': "m_byID m' = AList.update x r' (m_byID m)" "m_order m' = m_order m"
      "m_bytes m' = m_bytes m - rec_resident r + rec_resident r'"
    and rest: "wf_paused m'" "wf_config m'" "list_all wf_sub (m_subs m')"
  shows "inv_core m'"
proof -
  note I = inv_coreD[OF core]
  have "x \<in> keys (m_byID m)" using r unfolding in_keys_iff ..
  then have "keys (m_byID m') = keys (m_byID m)" by (auto simp: m')
  with I r r' inv_core_rec[OF core] have "wf_rows m'"
    by (simp add: wf_rows_def m' AList.distinct_update vsum_update_old)
  with rest show ?thesis by (simp add: inv_core_def)
qed

text \<open>The row of \<open>x\<close> leaves the paused state and the waiters of \<open>x\<close> are answered.\<close>

lemma inv_core_finish:
  assumes core: "inv_core m" and r: "map_of (m_byID m) x = Some r" and r': "wf_rec x r'"
    and unpaused: "fl_State (rec_flow r') \<noteq> FlowStatePaused" and res: "rec_resident r' = rec_resident r"
    and m': "m_byID m' = AList.update x r' (m_byID m)" "m_order m' = m_order m"
      "m_bytes m' = m_bytes m" "m_paused m' = AList.delete x (m_paused m)"
      "m_chans m' = deliver p (pausedOf m x) (m_chans m)"
    and rest: "wf_config m'" "list_all wf_sub (m_subs m')"
  shows "inv_core m'"
proof -
  have "wf_paused m'"
    using inv_coreD(5)[OF core] m'(4,5)
    by (rule wf_paused_finish) (simp add: is_paused_def m')
  with assms show ?thesis by (intro inv_core_row[OF core r r']) simp_all
qed

lemma inv_occupancy:
  assumes "inv_store m" and "inv_core m'" and "length (m_byID m') \<le> length (m_byID m)"
    and "m_bytes m' \<le> m_bytes m" and "m_maxFlows m' = m_maxFlows m" and "m_maxBytes m' = m_maxBytes m"
  shows "inv_store m'"
  using assms by (simp add: inv_store_def occupancyOKLocked_def)

lemma setRecord_fields [simp]:
  "m_byID (setRecord x r m) = AList.update x r (m_byID m)" "m_order (setRecord x r m) = m_order m"
  "m_bytes (setRecord x r m) = m_bytes m" "m_paused (setRecord x r m) = m_paused m"
  "m_chans (setRecord x r m) = m_chans m" "m_subs (setRecord x r m) = m_subs m"
  "m_fs (setRecord x r m) = m_fs m" "m_maxFlows (setRecord x r m) = m_maxFlows m"
  "m_maxBytes (setRecord x r m) = m_maxBytes m" "m_maxBodyBytes (setRecord x r m) = m_maxBodyBytes m"
  "m_fullPolicy (setRecord x r m) = m_fullPolicy m" "m_epoch (setRecord x r m) = m_epoch m"
  "m_generation (setRecord x r m) = m_generation m"
  by (simp_all add: setRecord_def)

lemma bumpGeneration_fields [simp]:
  "m_byID (bumpGeneration m) = m_byID m" "m_order (bumpGeneration m) = m_order m"
  "m_bytes (bumpGeneration m) = m_bytes m" "m_paused (bumpGeneration m) = m_paused m"
  "m_chans (bumpGeneration m) = m_chans m" "m_subs (bumpGeneration m) = m_subs m"
  "m_fs (bumpGeneration m) = m_fs m" "m_maxFlows (bumpGeneration m) = m_maxFlows m"
  "m_maxBytes (bumpGeneration m) = m_maxBytes m" "m_maxBodyBytes (bumpGeneration m) = m_maxBodyBytes m"
  "m_fullPolicy (bumpGeneration m) = m_fullPolicy m" "m_epoch (bumpGeneration m) = m_epoch m"
  "m_generation (bumpGeneration m) = Suc (m_generation m)"
  by (simp_all add: bumpGeneration_def)

subsection \<open>Removal, caps and reset\<close>

lemma removeLocked_inv: "inv_store m \<Longrightarrow> inv_store (removeLocked io x ev m)"
proof (cases "map_of (m_byID m) x")
  case None
  then show "inv_store m \<Longrightarrow> ?thesis" by (simp add: map_of_eq_None_keys)
next
  case (Some r)
  assume inv: "inv_store m"
  then have core: "inv_core m" by (simp add: inv_store_def)
  then have "0 \<le> rec_resident r" using Some inv_core_rec by (auto simp: wf_rec_def)
  with inv show ?thesis
    by (rule_tac inv_occupancy[OF inv])
      (simp_all add: inv_core_remove core length_delete_le removeLocked_bytes[OF core Some])
qed

lemma fold_remove_inv: "inv_store m \<Longrightarrow> inv_store (fold (\<lambda>x. removeLocked io x ev) xs m)"
  by (induction xs arbitrary: m) (simp_all add: removeLocked_inv)

lemma fold_remove_core: "inv_core m \<Longrightarrow> inv_core (fold (\<lambda>x. removeLocked io x ev) xs m)"
  by (induction xs arbitrary: m) (simp_all add: inv_core_remove)

lemma fold_remove_config [simp]:
  "m_maxFlows (fold (\<lambda>x. removeLocked io x ev) xs m) = m_maxFlows m"
  "m_maxBytes (fold (\<lambda>x. removeLocked io x ev) xs m) = m_maxBytes m"
  "m_maxBodyBytes (fold (\<lambda>x. removeLocked io x ev) xs m) = m_maxBodyBytes m"
  "m_fullPolicy (fold (\<lambda>x. removeLocked io x ev) xs m) = m_fullPolicy m"
  "m_epoch (fold (\<lambda>x. removeLocked io x ev) xs m) = m_epoch m"
  by (induction xs arbitrary: m) simp_all

lemma fold_remove_row:
  "map_of (m_byID (fold (\<lambda>x. removeLocked io x ev) xs m)) y =
     (if y \<in> set xs then None else map_of (m_byID m) y)"
  by (induction xs arbitrary: m) simp_all

lemma fold_remove_length:
  "length (m_byID (fold (\<lambda>x. removeLocked io x ev) xs m)) \<le> length (m_byID m)"
proof (induction xs arbitrary: m)
  case (Cons x xs)
  then show ?case using Cons[of "removeLocked io x ev m"] length_delete_le[of x "m_byID m"] by simp
qed simp

definition resOf :: "memory \<Rightarrow> string \<Rightarrow> int" where
  "resOf m x = (case map_of (m_byID m) x of None \<Rightarrow> 0 | Some r \<Rightarrow> rec_resident r)"

lemma fold_remove_bytes:
  "inv_core m \<Longrightarrow> distinct xs \<Longrightarrow> set xs \<subseteq> keys (m_byID m) \<Longrightarrow>
   m_bytes (fold (\<lambda>x. removeLocked io x ev) xs m) = m_bytes m - sum_list (map (resOf m) xs)"
proof (induction xs arbitrary: m)
  case Nil
  then show ?case by simp
next
  case (Cons x xs)
  let ?m = "removeLocked io x ev m"
  from Cons.prems(3) have "x \<in> keys (m_byID m)" by simp
  then obtain r where r: "map_of (m_byID m) x = Some r" unfolding in_keys_iff ..
  have "m_bytes (fold (\<lambda>x. removeLocked io x ev) xs ?m) = m_bytes ?m - sum_list (map (resOf ?m) xs)"
    using Cons.prems by (intro Cons.IH) (auto simp: inv_core_remove)
  moreover have "map (resOf ?m) xs = map (resOf m) xs"
    using Cons.prems(2) by (auto simp: resOf_def)
  moreover have "resOf m x = rec_resident r" using r by (simp add: resOf_def)
  ultimately show ?case using removeLocked_bytes[OF Cons.prems(1) r, of io ev] by simp
qed

lemma Delete_inv: "inv_store m \<Longrightarrow> inv_store (fst (Delete io x m))"
  by (simp add: Delete_def removeLocked_inv split: option.splits)

lemma DeleteAll_inv: "inv_store m \<Longrightarrow> inv_store (fst (DeleteAll io m))"
  by (simp add: DeleteAll_def fold_remove_inv Let_def)

lemma DeleteAll_empties:
  assumes "inv_core m"
  shows "m_byID (fst (DeleteAll io m)) = []" and "snd (DeleteAll io m) = int (card (keys (m_byID m)))"
proof -
  have "map_of (m_byID (fold (\<lambda>x. removeLocked io x False) (m_order m) m)) y = None" for y
    using inv_coreD(3)[OF assms] by (simp add: fold_remove_row map_of_eq_None_keys)
  then have "m_byID (fold (\<lambda>x. removeLocked io x False) (m_order m) m) = []"
    by (metis list.set_intros(1) map_of_eq_None_keys neq_Nil_conv image_eqI)
  then show "m_byID (fst (DeleteAll io m)) = []" by (simp add: DeleteAll_def Let_def)
  show "snd (DeleteAll io m) = int (card (keys (m_byID m)))"
    using distinct_keys_card[OF inv_coreD(1)[OF assms]] by (simp add: DeleteAll_def Let_def)
qed

lemma normalizeOptions_ok:
  "normalizeOptions opts = Inr op \<Longrightarrow>
     0 < op_MaxFlows op \<and> 0 < op_MaxBytes op \<and> 0 < op_MaxBodyBytes op
     \<and> op_FullPolicy op \<in> {FullPolicyReject, FullPolicyEvictOldest}"
  by (auto simp: normalizeOptions_def Let_def defaultMaxBodyBytes_def split: if_splits)

lemma newMemory_inv: "newMemory io opts fs = Inr m \<Longrightarrow> inv_store m"
  by (auto simp: newMemory_def case_prod_beta Let_def inv_store_def inv_core_def wf_rows_def
      wf_config_def wf_paused_def waitersOf_def occupancyOKLocked_def
      dest!: normalizeOptions_ok split: sum.splits if_splits)

lemma inv_core_caps:
  assumes "inv_core m" and "normalizeOptions opts = Inr op"
  shows "inv_core (m\<lparr>m_maxFlows := op_MaxFlows op, m_maxBytes := op_MaxBytes op,
           m_maxBodyBytes := op_MaxBodyBytes op, m_fullPolicy := op_FullPolicy op\<rparr>)"
  using assms(1) normalizeOptions_ok[OF assms(2)]
  by (simp add: inv_core_def wf_rows_def wf_config_def wf_paused_def waitersOf_def is_paused_def)

lemma ReplaceCaps_inv:
  assumes inv: "inv_store m"
  shows "\<exists>m' e. ReplaceCaps io opts force m = Some (m', e) \<and> inv_store m'"
proof (cases "normalizeOptions opts")
  case (Inl e)
  with inv show ?thesis by (simp add: ReplaceCaps_def)
next
  case (Inr op)
  let ?m = "m\<lparr>m_maxFlows := op_MaxFlows op, m_maxBytes := op_MaxBytes op,
           m_maxBodyBytes := op_MaxBodyBytes op, m_fullPolicy := op_FullPolicy op\<rparr>"
  have core: "inv_core ?m" using inv Inr by (simp add: inv_store_def inv_core_caps)
  show ?thesis
  proof (cases "int (length (m_byID m)) > op_MaxFlows op \<or> m_bytes m > op_MaxBytes op")
    case False
    with core have "inv_store ?m" by (simp add: inv_store_def occupancyOKLocked_def)
    with False Inr show ?thesis by (simp add: ReplaceCaps_def Let_def)
  next
    case True
    have "inv_store (evictedCaps io ?m)"
      using core by (simp add: inv_store_def evictedCaps_core evictedCaps_ok)
    with True Inr inv show ?thesis
      by (simp add: ReplaceCaps_def Let_def evictUntilUnderCaps_returns core evictedCaps_ok)
  qed
qed

lemma inv_store_cleared:
  assumes "inv_core m" and "m_byID m' = []" and "m_order m' = []" and "m_bytes m' = 0"
    and "m_paused m' = []" and "m_subs m' = emit e (m_subs m)" and "wf_config m'"
  shows "inv_store m'"
  using assms by (simp add: inv_store_def inv_core_def wf_rows_def wf_paused_def waitersOf_def
      occupancyOKLocked_def wf_config_def emit_wf)

lemma wipeLocked_fields [simp]:
  "m_byID (wipeLocked io m) = []" "m_order (wipeLocked io m) = []" "m_bytes (wipeLocked io m) = 0"
  "m_paused (wipeLocked io m) = []" "m_subs (wipeLocked io m) = m_subs m"
  "m_epoch (wipeLocked io m) = Suc (m_epoch m)" "m_generation (wipeLocked io m) = Suc (m_generation m)"
  "m_maxFlows (wipeLocked io m) = m_maxFlows m" "m_maxBytes (wipeLocked io m) = m_maxBytes m"
  "m_maxBodyBytes (wipeLocked io m) = m_maxBodyBytes m"
  "m_fullPolicy (wipeLocked io m) = m_fullPolicy m"
  "m_chans (wipeLocked io m) =
     deliver (emptyResult\<lparr>pr_err := Some ErrStaleEpoch\<rparr>) (waitersOf m) (m_chans m)"
  by (simp_all add: wipeLocked_def failPausedLocked_def waitersOf_def Let_def)

lemma Wipe_inv: "inv_store m \<Longrightarrow> inv_store (Wipe io m)"
  unfolding inv_store_def [of m] Wipe_def
  by (rule inv_store_cleared[of m]) (simp_all add: inv_core_def wf_config_def emitLocked_def)

lemma ResetTo_inv:
  assumes "inv_store m"
  shows "inv_store (fst (ResetTo io opts m))"
proof (cases "normalizeOptions opts")
  case (Inl e)
  with assms show ?thesis by (simp add: ResetTo_def)
next
  case (Inr op)
  have "inv_core m" using assms by (simp add: inv_store_def)
  then show ?thesis
    by (rule inv_store_cleared)
      (use Inr normalizeOptions_ok[OF Inr] in \<open>simp_all add: ResetTo_def wf_config_def emitLocked_def\<close>)
qed

lemma Subscribe_inv: "inv_store m \<Longrightarrow> inv_store (Subscribe n c m)"
  and Unsubscribe_inv: "inv_store m \<Longrightarrow> inv_store (Unsubscribe n m)"
  by (simp_all add: inv_store_def inv_core_def wf_rows_def wf_config_def wf_paused_def waitersOf_def
      is_paused_def occupancyOKLocked_def Subscribe_def Unsubscribe_def subscribe_wf cancelSub_wf)

subsection \<open>Pausing and waiting\<close>

lemma inv_store_row:
  assumes inv: "inv_store m" and r: "map_of (m_byID m) x = Some r" and core: "inv_core m'"
    and "m_byID m' = AList.update x r' (m_byID m)" "m_bytes m' = m_bytes m"
      "m_maxFlows m' = m_maxFlows m" "m_maxBytes m' = m_maxBytes m"
  shows "inv_store m'"
proof -
  have "x \<in> keys (m_byID m)" using r unfolding in_keys_iff ..
  with assms show ?thesis by (intro inv_occupancy[OF inv core]) (simp_all add: length_update_old)
qed

lemma Pause_inv:
  assumes inv: "inv_store m"
  shows "inv_store (fst (Pause x m))"
proof (cases "\<exists>r. map_of (m_byID m) x = Some r \<and> fl_State (rec_flow r) \<noteq> FlowStatePaused")
  case False
  with inv show ?thesis by (auto simp: Pause_def split: option.splits)
next
  case True
  then obtain r where r: "map_of (m_byID m) x = Some r" "fl_State (rec_flow r) \<noteq> FlowStatePaused"
    by blast
  let ?r = "r\<lparr>rec_flow := rec_flow r\<lparr>fl_State := FlowStatePaused\<rparr>, rec_wasPaused := True,
              rec_pauseDone := False, rec_pauseResult := emptyResult\<rparr>"
  let ?m = "fst (Pause x m)"
  from inv have core: "inv_core m" by (simp add: inv_store_def)
  have m': "?m = emitLocked EventPaused x (fl_Host (rec_flow r)) (bumpGeneration (setRecord x ?r m))"
    using r by (simp add: Pause_def)
  have "wf_rec x ?r" using inv_core_rec[OF core r(1)] by (simp add: wf_rec_def wf_flow_def)
  moreover have "wf_paused ?m"
    using inv_coreD(5)[OF core] by (rule wf_paused_row[where x = x and r' = ?r]) (simp_all add: m')
  ultimately have "inv_core ?m"
    using inv_coreD[OF core]
    by (intro inv_core_row[OF core r(1), where r' = ?r])
      (simp_all add: m' wf_config_def emitLocked_subs)
  with inv r(1) show ?thesis by (rule inv_store_row[where r' = ?r]) (simp_all add: m')
qed

text \<open>The common shape of \<open>Resume\<close>, \<open>Drop\<close> and \<open>ExpireBreakpoint\<close>.\<close>

lemma finish_row_inv:
  assumes inv: "inv_store m" and r: "map_of (m_byID m) x = Some r"
    and r': "wf_rec x r'" "fl_State (rec_flow r') \<noteq> FlowStatePaused" "rec_resident r' = rec_resident r"
  shows "inv_store (finishPausedLocked x p (bumpGeneration (setRecord x r' m)))" (is "inv_store ?m")
proof -
  from inv have core: "inv_core m" by (simp add: inv_store_def)
  let ?r = "r'\<lparr>rec_pauseDone := True, rec_pauseResult := p\<rparr>"
  have byID: "m_byID ?m = AList.update x ?r (m_byID m)"
    by (simp add: finishPausedLocked_byID)
  have "inv_core ?m"
    using inv_coreD[OF core] r'
    by (intro inv_core_finish[OF core r, where r' = ?r and p = p])
      (simp_all add: byID wf_rec_def pausedOf_def wf_config_def)
  with inv r show ?thesis by (rule inv_store_row[where r' = ?r]) (simp_all add: byID)
qed

lemma emitLocked_inv [simp]: "inv_store m \<Longrightarrow> inv_store (emitLocked k x h m)"
  by (simp add: inv_store_def inv_core_def wf_rows_def wf_config_def wf_paused_def waitersOf_def
      is_paused_def occupancyOKLocked_def emitLocked_subs)

lemma inv_store_rec: "inv_store m \<Longrightarrow> map_of (m_byID m) x = Some r \<Longrightarrow> wf_rec x r"
  unfolding inv_store_def by (blast intro: inv_core_rec)

lemma Drop_inv:
  assumes "inv_store m"
  shows "inv_store (fst (Drop x m))"
proof (cases "map_of (m_byID m) x")
  case (Some r)
  with inv_store_rec[OF assms Some] assms show ?thesis
    by (simp add: Drop_def finish_row_inv[OF assms Some] wf_rec_def wf_flow_def)
qed (simp add: Drop_def assms)

lemma ExpireBreakpoint_inv:
  assumes "inv_store m"
  shows "inv_store (fst (ExpireBreakpoint now x m))"
proof (cases "map_of (m_byID m) x")
  case (Some r)
  with inv_store_rec[OF assms Some] assms show ?thesis
    by (simp add: ExpireBreakpoint_def finish_row_inv[OF assms Some] wf_rec_def wf_flow_def)
qed (simp add: ExpireBreakpoint_def assms)

text \<open>A fresh channel is registered only on a paused row. \<open>regs\<close> is the set of the
  channels a registration map holds.\<close>

definition regs :: "(string, nat list) gomap \<Rightarrow> nat set" where
  "regs ps = set (concat (map snd ps))"

lemma regs_Cons: "regs (p # ps) = set (snd p) \<union> regs ps"
  by (simp add: regs_def)

lemma regs_waiters: "set (waitersOf m) = regs (m_paused m)"
  by (simp add: regs_def waitersOf_def)

lemma update_waiters:
  "distinct (map fst ps) \<Longrightarrow> distinct (concat (map snd ps)) \<Longrightarrow>
   set ws \<inter> regs (AList.delete x ps) = {} \<Longrightarrow> distinct ws \<Longrightarrow>
   distinct (concat (map snd (AList.update x ws ps)))
     \<and> regs (AList.update x ws ps) = set ws \<union> regs (AList.delete x ps)"
proof (induction ps)
  case Nil
  then show ?case by (simp add: regs_def)
next
  case (Cons p ps)
  have sub: "regs (AList.delete x ps) \<subseteq> regs ps"
    unfolding regs_def by (rule concat_delete_subset)
  have dis: "distinct (snd p)" "set (snd p) \<inter> regs ps = {}" "distinct (concat (map snd ps))"
    using Cons.prems(2) by (simp_all add: regs_def)
  show ?case
  proof (cases "fst p = x")
    case True
    with Cons.prems(1) have "x \<notin> keys ps" by auto
    then have "AList.delete x ps = ps" by (simp add: AList.delete_idem)
    with True Cons.prems(3,4) dis show ?thesis by (cases p) (simp add: regs_def)
  next
    case False
    with Cons.prems(3) have "set ws \<inter> (set (snd p) \<union> regs (AList.delete x ps)) = {}"
      by (cases p) (simp add: regs_Cons)
    moreover from this Cons have "distinct (concat (map snd (AList.update x ws ps)))"
      "regs (AList.update x ws ps) = set ws \<union> regs (AList.delete x ps)"
      using dis(3) by auto
    moreover from this(2) have
      "set (concat (map snd (AList.update x ws ps))) = set ws \<union> regs (AList.delete x ps)"
      by (simp only: regs_def)
    ultimately show ?thesis using False dis sub
      by (cases p) (auto simp: regs_Cons simp del: set_concat)
  qed
qed

lemma wf_paused_waiters:
  assumes wf: "wf_paused m" and ws: "distinct ws" "set ws \<inter> keys (m_chans m') = {}"
    "set ws \<inter> regs (AList.delete x (m_paused m)) = {}"
    and m': "m_byID m' = m_byID m" "m_paused m' = AList.update x ws (m_paused m)"
      "keys (m_chans m') \<subseteq> keys (m_chans m)"
    and x: "is_paused m x"
  shows "wf_paused m'"
proof -
  have "distinct (waitersOf m') \<and> set (waitersOf m') = set ws \<union> regs (AList.delete x (m_paused m))"
    unfolding regs_waiters unfolding waitersOf_def m'(2) using wf ws
    by (intro update_waiters) (simp_all add: wf_paused_def waitersOf_def)
  moreover have "regs (AList.delete x (m_paused m)) \<subseteq> regs (m_paused m)"
    unfolding regs_def by (rule concat_delete_subset)
  moreover have "is_paused m' y" if "y \<in> insert x (keys (m_paused m))" for y
    using that x wf_pausedD[OF wf] by (auto simp: is_paused_def m')
  moreover have "regs (m_paused m) \<inter> keys (m_chans m') = {}" "distinct (map fst (m_paused m))"
    using wf m'(3) by (auto simp: wf_paused_def regs_waiters)
  ultimately show ?thesis
    using ws(2) by (simp only: wf_paused_def m'(2) AList.distinct_update keys_update) blast
qed

lemma inv_store_waiters:
  assumes "inv_store m" and "wf_paused (m\<lparr>m_paused := ps, m_chans := cs\<rparr>)"
  shows "inv_store (m\<lparr>m_paused := ps, m_chans := cs\<rparr>)"
  using assms by (simp add: inv_store_def inv_core_def wf_rows_def wf_config_def occupancyOKLocked_def)

lemma distinct_registered:
  "distinct (concat (map snd ps)) \<Longrightarrow> map_of ps x = Some ws \<Longrightarrow> distinct ws"
  by (induction ps) (simp_all split: if_splits)

lemma distinct_pausedOf: "distinct (waitersOf m) \<Longrightarrow> distinct (pausedOf m x)"
  by (simp add: waitersOf_def pausedOf_def distinct_registered split: option.splits)

lemma wf_paused_shrink:
  assumes "wf_paused m" and "m_byID m' = m_byID m" and "distinct (map fst (m_paused m'))"
    and "distinct (waitersOf m')" and "keys (m_paused m') \<subseteq> keys (m_paused m)"
    and "set (waitersOf m') \<subseteq> set (waitersOf m)" and "keys (m_chans m') \<subseteq> keys (m_chans m)"
  shows "wf_paused m'"
proof -
  have "\<forall>y \<in> keys (m_paused m'). is_paused m' y"
  proof
    fix y assume "y \<in> keys (m_paused m')"
    with assms(5) have "is_paused m y" by (intro wf_pausedD[OF assms(1)] subsetD[OF assms(5)])
    then show "is_paused m' y" unfolding is_paused_def assms(2) .
  qed
  moreover have "set (waitersOf m') \<inter> keys (m_chans m') = {}"
    using Int_mono[OF assms(6,7)] assms(1) unfolding wf_paused_def by (metis subset_empty)
  ultimately show ?thesis using assms(3,4) by (simp only: wf_paused_def)
qed

lemma WaitPaused_begin_inv:
  assumes inv: "inv_store m" and fresh: "w \<notin> set (waitersOf m)" "w \<notin> keys (m_chans m)"
  shows "inv_store (fst (WaitPaused_begin w x m))"
proof (cases "\<exists>r. map_of (m_byID m) x = Some r \<and> \<not> rec_pauseDone r \<and> fl_State (rec_flow r) = FlowStatePaused")
  case False
  then have "fst (WaitPaused_begin w x m) = m"
    by (cases "map_of (m_byID m) x") (auto simp: WaitPaused_begin_def)
  with inv show ?thesis by simp
next
  case True
  let ?ps = "AList.update x (pausedOf m x @ [w]) (m_paused m)"
  from True have x: "is_paused m x" and "fst (WaitPaused_begin w x m) = m\<lparr>m_paused := ?ps\<rparr>"
    by (auto simp: WaitPaused_begin_def is_paused_def)
  then have m': "fst (WaitPaused_begin w x m) = m\<lparr>m_paused := ?ps, m_chans := m_chans m\<rparr>" by simp
  from inv have wf: "wf_paused m" by (simp add: inv_store_def inv_core_def)
  have "distinct (pausedOf m x)" and "set (pausedOf m x) \<inter> regs (AList.delete x (m_paused m)) = {}"
    using wf delete_waiters_disjoint[of "m_paused m" x] distinct_pausedOf[of m x]
    by (auto simp: wf_paused_def waitersOf_def pausedOf_def regs_def split: option.splits)
  moreover have "regs (AList.delete x (m_paused m)) \<subseteq> set (waitersOf m)"
    unfolding regs_def waitersOf_def by (rule concat_delete_subset)
  ultimately have "wf_paused (m\<lparr>m_paused := ?ps, m_chans := m_chans m\<rparr>)"
    using fresh pausedOf_waiters[of m x] wf
    by (intro wf_paused_waiters[OF wf _ _ _ _ _ _ x]) (auto simp: wf_paused_def)
  with inv show ?thesis unfolding m' by (rule inv_store_waiters)
qed

lemma WaitPaused_result_inv:
  "inv_store m \<Longrightarrow> WaitPaused_result w m = Some (m', res) \<Longrightarrow> inv_store m'"
proof -
  assume inv: "inv_store m" and "WaitPaused_result w m = Some (m', res)"
  then have m': "m' = m\<lparr>m_paused := m_paused m, m_chans := AList.delete w (m_chans m)\<rparr>"
    by (auto simp: WaitPaused_result_def)
  from inv have wf: "wf_paused m" by (simp add: inv_store_def inv_core_def)
  then have "wf_paused m'"
    by (rule wf_paused_shrink) (use wf in \<open>auto simp: m' wf_paused_def waitersOf_def\<close>)
  with inv show "inv_store m'" unfolding m' by (rule inv_store_waiters)
qed

lemma removeWaiterLocked_inv:
  assumes inv: "inv_store m"
  shows "inv_store (removeWaiterLocked x w m)"
proof -
  from inv have wf: "wf_paused m" by (simp add: inv_store_def inv_core_def)
  let ?ws = "remove1 w (pausedOf m x)"
  show ?thesis
  proof (cases "?ws = []")
    case True
    have "wf_paused (m\<lparr>m_paused := AList.delete x (m_paused m), m_chans := m_chans m\<rparr>)"
      using wf by (rule wf_paused_shrink)
        (use wf distinct_concat_delete[of "m_paused m" x] concat_delete_subset[of x "m_paused m"] in
          \<open>simp_all add: wf_paused_def waitersOf_def AList.distinct_delete\<close>)
    with inv have "inv_store (m\<lparr>m_paused := AList.delete x (m_paused m), m_chans := m_chans m\<rparr>)"
      by (rule inv_store_waiters)
    with True show ?thesis by (simp add: removeWaiterLocked_def)
  next
    case False
    let ?m = "m\<lparr>m_paused := AList.update x ?ws (m_paused m), m_chans := m_chans m\<rparr>"
    have sub: "set ?ws \<subseteq> set (pausedOf m x)" by (rule set_remove1_subset)
    from False have "pausedOf m x \<noteq> []" by auto
    then have "x \<in> keys (m_paused m)"
      by (cases "map_of (m_paused m) x") (auto simp: pausedOf_def in_keys_iff)
    then have x: "is_paused m x" by (rule wf_pausedD[OF wf])
    have "set (pausedOf m x) \<inter> regs (AList.delete x (m_paused m)) = {}"
      using wf delete_waiters_disjoint[of "m_paused m" x]
      by (auto simp: wf_paused_def waitersOf_def pausedOf_def regs_def split: option.splits)
    moreover have "set (pausedOf m x) \<inter> keys (m_chans m) = {}" "distinct (pausedOf m x)"
      using wf pausedOf_waiters[of m x] by (auto simp: wf_paused_def distinct_pausedOf)
    ultimately have "wf_paused ?m"
      using sub by (intro wf_paused_waiters[OF wf _ _ _ _ _ _ x]) auto
    with inv have "inv_store ?m" by (rule inv_store_waiters)
    with False show ?thesis by (simp add: removeWaiterLocked_def Let_def)
  qed
qed

lemma WaitPaused_done_inv:
  assumes "inv_store m"
  shows "inv_store (fst (WaitPaused_done w x m))"
  using removeWaiterLocked_inv[OF assms, of x w] WaitPaused_result_inv
  by (auto simp: WaitPaused_done_def Let_def split: option.splits)

subsection \<open>Resuming with a patch\<close>

lemma patchedFlow_fields [simp]:
  "fl_ID (patchedFlow p f) = fl_ID f" "fl_State (patchedFlow p f) = fl_State f"
  "fl_PausedPhase (patchedFlow p f) = fl_PausedPhase f" "fl_Host (patchedFlow p f) = fl_Host f"
  "fl_StartedAt (patchedFlow p f) = fl_StartedAt f" "fl_CompletedAt (patchedFlow p f) = fl_CompletedAt f"
  by (simp_all add: patchedFlow_def setSide_def Let_def)

lemma patchSide_wf: "wf_message s \<Longrightarrow> wf_message (patchSide p s)"
  by (simp add: patchSide_def wf_message_def Let_def)

lemma patchedFlow_wf: "wf_flow f \<Longrightarrow> wf_flow (patchedFlow p f)"
  by (simp add: patchedFlow_def setSide_def currentSide_def wf_flow_def patchSide_wf Let_def)

text \<open>The planned victims are rows other than the patched one, and the projected size at the end
  is what is left without them.\<close>

lemma planVictims_spec:
  "planVictims m self p xs = (vs, q) \<Longrightarrow> distinct xs \<Longrightarrow>
   set vs \<subseteq> set xs - {self} \<and> distinct vs \<and> q = p - sum_list (map (resOf m) vs)"
proof (induction xs arbitrary: p vs)
  case Nil
  then show ?case by simp
next
  case (Cons x xs)
  show ?case
  proof (cases "x = self")
    case True
    with Cons show ?thesis by auto
  next
    case False
    let ?p = "p - resOf m x"
    show ?thesis
    proof (cases "?p \<le> m_maxBytes m")
      case True
      with False Cons.prems show ?thesis by (auto simp: resOf_def Let_def)
    next
      case big: False
      obtain us where us: "planVictims m self ?p xs = (us, q)" "vs = x # us"
        using False big Cons.prems by (auto simp: resOf_def Let_def split: prod.splits)
      from Cons.IH[OF us(1)] Cons.prems(2) False us(2) show ?thesis by auto
    qed
  qed
qed

lemma publishPatch_row:
  assumes "x \<notin> set vs" and "map_of (m_byID m) x = Some r"
  obtains r' where "m_byID (publishPatch io x p r t n vs sp m) = AList.update x r' (m_byID (fold (\<lambda>v. removeLocked io v True) vs m))" "rec_resident r' = n"
    "rec_pauseDone r' = rec_pauseDone r" "fl_ID (rec_flow r') = fl_ID t"
    "fl_State (rec_flow r') = fl_State t" "wf_flow t \<longrightarrow> wf_flow (rec_flow r')"
    "map_of (m_byID (fold (\<lambda>v. removeLocked io v True) vs m)) x = Some r"
proof
  let ?resp = "respSide t"
  let ?t = "if rp_Body p \<noteq> None \<and> sp \<noteq> None then setSide ?resp ((currentSide t)\<lparr>msg_Body := None\<rparr>) t else t"
  let ?r = "(if rp_Body p \<noteq> None then (if ?resp then r\<lparr>rec_respSpill := sp\<rparr> else r\<lparr>rec_reqSpill := sp\<rparr>) else r)
      \<lparr>rec_flow := ?t, rec_resident := n\<rparr>"
  show "m_byID (publishPatch io x p r t n vs sp m) = AList.update x ?r (m_byID (fold (\<lambda>v. removeLocked io v True) vs m))"
    unfolding publishPatch_def Let_def by simp
  show "map_of (m_byID (fold (\<lambda>v. removeLocked io v True) vs m)) x = Some r" using assms(1,2) by (simp add: fold_remove_row)
qed (auto simp: setSide_def currentSide_def wf_flow_def wf_message_def)

lemma publishPatch_fields [simp]:
  "m_order (publishPatch io x p r t n vs sp m) = m_order (fold (\<lambda>v. removeLocked io v True) vs m)"
    "m_bytes (publishPatch io x p r t n vs sp m) = max 0 (m_bytes (fold (\<lambda>v. removeLocked io v True) vs m) + (n - rec_resident r))"
    "m_paused (publishPatch io x p r t n vs sp m) = m_paused (fold (\<lambda>v. removeLocked io v True) vs m)"
    "m_chans (publishPatch io x p r t n vs sp m) = m_chans (fold (\<lambda>v. removeLocked io v True) vs m)"
    "m_subs (publishPatch io x p r t n vs sp m) = m_subs (fold (\<lambda>v. removeLocked io v True) vs m)"
    "m_maxFlows (publishPatch io x p r t n vs sp m) = m_maxFlows m"
    "m_maxBytes (publishPatch io x p r t n vs sp m) = m_maxBytes m"
    "m_maxBodyBytes (publishPatch io x p r t n vs sp m) = m_maxBodyBytes m"
    "m_fullPolicy (publishPatch io x p r t n vs sp m) = m_fullPolicy m"
    "m_epoch (publishPatch io x p r t n vs sp m) = m_epoch m"
  by (simp_all add: publishPatch_def Let_def)

text \<open>A patch that is applied keeps the invariant: the victims make room for it.\<close>

lemma publishPatch_inv:
  assumes inv: "inv_store m" and r: "map_of (m_byID m) x = Some r"
    and vs: "distinct vs" "set vs \<subseteq> set (m_order m) - {x}"
    and t: "fl_ID t = x" "fl_State t = fl_State (rec_flow r)" "wf_flow t" "n = ResidentBytes t"
    and fits: "m_bytes m + (n - rec_resident r) - sum_list (map (resOf m) vs) \<le> m_maxBytes m"
  shows "inv_store (publishPatch io x p r t n vs sp m)" (is "inv_store ?m")
proof -
  let ?m1 = "fold (\<lambda>v. removeLocked io v True) vs m"
  from inv have core: "inv_core m" by (simp add: inv_store_def)
  then have core1: "inv_core ?m1" by (rule fold_remove_core)
  from vs(2) have x: "x \<notin> set vs" by auto
  then obtain r' where r': "m_byID ?m = AList.update x r' (m_byID ?m1)" "rec_resident r' = n"
    "rec_pauseDone r' = rec_pauseDone r" "fl_ID (rec_flow r') = fl_ID t"
    "fl_State (rec_flow r') = fl_State t" "wf_flow t \<longrightarrow> wf_flow (rec_flow r')"
    "map_of (m_byID ?m1) x = Some r"
    using r by (rule publishPatch_row)
  have "wf_rec x r'" using inv_core_rec[OF core r] r' t by (simp add: wf_rec_def)
  moreover have "m_bytes ?m = m_bytes ?m1 - rec_resident r + n"
    using inv_core_resident_le[OF core1 r'(7)] t(4) ResidentBytes_nonneg[OF t(3)] by simp
  moreover have "wf_paused ?m"
    using inv_coreD(5)[OF core1] r'(1)
    by (rule wf_paused_row) (use r' t in \<open>simp_all add: is_paused_def\<close>)
  ultimately have "inv_core ?m"
    using inv_coreD(6,7)[OF core1] r'(1,2)
    by (intro inv_core_row[OF core1 r'(7), where r' = r']) (simp_all add: wf_config_def)
  moreover have "length (m_byID ?m) \<le> length (m_byID m)"
    using fold_remove_length[of io True vs m] r'(1,7) length_update_old[of x "m_byID ?m1" r']
    by (auto simp: in_keys_iff)
  moreover have "m_bytes ?m1 = m_bytes m - sum_list (map (resOf m) vs)"
    using fold_remove_bytes[OF core vs(1)] vs(2) inv_coreD(3)[OF core] by auto
  ultimately show ?thesis
    using inv fits inv_core_nonneg[OF core] by (simp add: inv_store_def occupancyOKLocked_def wf_config_def inv_core_def)
qed

lemma resOf_fs [simp]: "resOf (m\<lparr>m_fs := fs\<rparr>) = resOf m"
  by (simp add: resOf_def fun_eq_iff)

lemma planPatch_victims:
  assumes "planPatch m r patch = Inr vs" and "distinct (m_order m)"
  shows "distinct vs" "set vs \<subseteq> set (m_order m) - {fl_ID (rec_flow r)}"
    "m_bytes m + (ResidentBytes (patchedFlow patch (rec_flow r)) - rec_resident r)
       - sum_list (map (resOf m) vs) \<le> m_maxBytes m"
  using assms planVictims_spec[of m "fl_ID (rec_flow r)" _ "m_order m"]
  by (fastforce simp: planPatch_def Let_def split: if_splits prod.splits)+

lemma applyPatchLocked_inv:
  assumes inv: "inv_store m" and r: "map_of (m_byID m) x = Some r"
  shows "inv_store (fst (applyPatchLocked io x r patch m))"
proof (cases "planPatch m r patch")
  case (Inl e)
  with inv show ?thesis by (simp add: applyPatchLocked_def)
next
  case (Inr vs)
  from inv have core: "inv_core m" by (simp add: inv_store_def)
  have wf: "wf_rec x r" using core r by (rule inv_core_rec)
  obtain fs1 st where st: "stagePatch io m r patch = (fs1, st)" by (metis surj_pair)
  note plan = planPatch_victims[OF Inr inv_coreD(2)[OF core]]
  let ?t = "patchedFlow patch (rec_flow r)"
  have "inv_store (publishPatch io x patch r ?t (ResidentBytes ?t) vs sp (m\<lparr>m_fs := fs1\<rparr>))" for sp
    by (rule publishPatch_inv)
      (use inv r wf plan in \<open>simp_all add: wf_rec_def patchedFlow_wf\<close>)
  with inv Inr st show ?thesis
    by (cases st) (simp_all add: applyPatchLocked_def Let_def case_prod_beta)
qed

text \<open>A row that was patched is still there, still paused and still well formed.\<close>

lemma applyPatchLocked_row:
  assumes inv: "inv_store m" and r: "map_of (m_byID m) x = Some r"
    and ok: "applyPatchLocked io x r patch m = (m', None)"
  obtains r' where "map_of (m_byID m') x = Some r'" "fl_State (rec_flow r') = fl_State (rec_flow r)"
proof -
  from ok obtain vs fs1 tmp sp where plan: "planPatch m r patch = Inr vs"
    and m': "m_byID m' = m_byID (publishPatch io x patch r (patchedFlow patch (rec_flow r))
       (ResidentBytes (patchedFlow patch (rec_flow r))) vs sp (m\<lparr>m_fs := fs1\<rparr>))"
    by (auto simp: applyPatchLocked_def Let_def split: sum.splits prod.splits)
  have "x \<notin> set vs"
    using planPatch_victims(2)[OF plan] inv inv_store_rec[OF inv r]
    by (auto simp: inv_store_def inv_core_def wf_rows_def wf_rec_def)
  then obtain r' where "m_byID m' = AList.update x r' (m_byID (fold (\<lambda>v. removeLocked io v True) vs (m\<lparr>m_fs := fs1\<rparr>)))"
    "fl_State (rec_flow r') = fl_State (rec_flow r)"
    using publishPatch_row[of x vs "m\<lparr>m_fs := fs1\<rparr>" r io patch "patchedFlow patch (rec_flow r)"
      "ResidentBytes (patchedFlow patch (rec_flow r))" sp] r m' by auto
  then show thesis by (intro that[of r']) simp_all
qed

lemma Resume_inv:
  assumes inv: "inv_store m"
  shows "inv_store (fst (Resume io x patch m))"
proof (cases "\<exists>r. map_of (m_byID m) x = Some r \<and> fl_State (rec_flow r) = FlowStatePaused")
  case False
  with inv show ?thesis by (cases "map_of (m_byID m) x") (auto simp: Resume_def)
next
  case True
  then obtain r where r: "map_of (m_byID m) x = Some r" "fl_State (rec_flow r) = FlowStatePaused"
    by blast
  define step where "step = (case patch of None \<Rightarrow> (m, None) | Some p \<Rightarrow> applyPatchLocked io x r p m)"
  obtain m1 e where me: "step = (m1, e)" by (metis surj_pair)
  have inv1: "inv_store m1"
    using me inv applyPatchLocked_inv[OF inv r(1), of io] unfolding step_def
    by (cases patch) (simp, metis fst_conv option.simps(5))
  show ?thesis
  proof (cases e)
    case (Some err)
    with r me inv1 show ?thesis by (simp add: Resume_def step_def)
  next
    case None
    show ?thesis
    proof (cases "map_of (m_byID m1) x")
      case N: None
      with None r me inv1 show ?thesis by (simp add: Resume_def step_def)
    next
      case (Some r1)
      have "wf_rec x r1" using inv1 Some by (rule inv_store_rec)
      with None Some r me inv1 show ?thesis
        by (simp add: Resume_def step_def Let_def finish_row_inv[OF inv1 Some] wf_rec_def wf_flow_def)
    qed
  qed
qed

end
