(* ===== verification/Store_Step.thy ===== *)
theory Store_Step
  imports Store_Ops
begin

text \<open>
  The inbox under concurrent use. The mutex makes each locked section one step, so an execution is
  a sequence of such sections in any order; \<open>Insert\<close> contributes two of them, its unlocked
  preparation (which stamps, caps, sizes and spills the flow) and its locked commit, between which
  any other operation may run: a wipe, a change of caps, an eviction. A reachable state is one
  that some sequence of steps leads to from \<open>New\<close>. Any step may be hit by I/O faults, given
  by the argument \<open>io\<close> of the operation.
\<close>

subsection \<open>The transition system\<close>

text \<open>An insert in flight: what the unlocked part hands to the locked part.\<close>

record pending =
  pe_epoch :: nat
  pe_id :: string
  pe_flow :: Flow
  pe_candidate :: int
  pe_job :: "spillJob option"

text \<open>The identifiers \<open>ulid.Make\<close> has returned and the channels \<open>make\<close> has returned so
  far are remembered, because both give a new value each time.\<close>

record system =
  s_mem :: memory
  s_pending :: "pending list"
  s_ids :: "string set"
  s_chans :: "nat set"

text \<open>The unlocked part of \<open>Insert\<close> works with the caps and the spill settings it read under
  the lock earlier, which may have changed since: in \<open>prepare\<close> they are any values.\<close>

inductive store_step :: "system \<Rightarrow> system \<Rightarrow> bool" where
  prepare:
    "\<lbrakk>x \<notin> s_ids s; x \<noteq> ''''; wf_flow f;
      prepared = applyBodyCaps (Insert_prepare nowS nowC x f) maxBody;
      writeSpillTemps io spillDir spillTh prepared (m_fs (s_mem s)) = (fs, Inr job)\<rbrakk>
     \<Longrightarrow> store_step s (s\<lparr>s_mem := (s_mem s)\<lparr>m_fs := fs\<rparr>, s_ids := insert x (s_ids s),
           s_pending := \<lparr>pe_epoch = epoch, pe_id = x, pe_flow = prepared,
                         pe_candidate = ResidentBytes prepared, pe_job = job\<rparr> # s_pending s\<rparr>)"
| prepare_fails:
    "\<lbrakk>x \<notin> s_ids s; writeSpillTemps io spillDir spillTh prepared (m_fs (s_mem s)) = (fs, Inl ())\<rbrakk>
     \<Longrightarrow> store_step s (s\<lparr>s_mem := (s_mem s)\<lparr>m_fs := fs\<rparr>, s_ids := insert x (s_ids s)\<rparr>)"
| insert:
    "\<lbrakk>p \<in> set (s_pending s);
      Insert_locked io (pe_epoch p) (pe_id p) (pe_flow p) (pe_candidate p) (pe_job p) (s_mem s)
        = Some (m', res)\<rbrakk>
     \<Longrightarrow> store_step s (s\<lparr>s_mem := m', s_pending := remove1 p (s_pending s)\<rparr>)"
| delete: "store_step s (s\<lparr>s_mem := fst (Delete io x (s_mem s))\<rparr>)"
| delete_all: "store_step s (s\<lparr>s_mem := fst (DeleteAll io (s_mem s))\<rparr>)"
| replace_caps:
    "ReplaceCaps io opts force (s_mem s) = Some (m', e) \<Longrightarrow> store_step s (s\<lparr>s_mem := m'\<rparr>)"
| wipe: "store_step s (s\<lparr>s_mem := Wipe io (s_mem s)\<rparr>)"
| reset_to: "store_step s (s\<lparr>s_mem := fst (ResetTo io opts (s_mem s))\<rparr>)"
| subscribe: "store_step s (s\<lparr>s_mem := Subscribe n cap (s_mem s)\<rparr>)"
| unsubscribe: "store_step s (s\<lparr>s_mem := Unsubscribe n (s_mem s)\<rparr>)"
| pause: "store_step s (s\<lparr>s_mem := fst (Pause x (s_mem s))\<rparr>)"
| resume: "store_step s (s\<lparr>s_mem := fst (Resume io x patch (s_mem s))\<rparr>)"
| drop: "store_step s (s\<lparr>s_mem := fst (Drop x (s_mem s))\<rparr>)"
| expire: "store_step s (s\<lparr>s_mem := fst (ExpireBreakpoint now x (s_mem s))\<rparr>)"
| wait_paused:
    "w \<notin> s_chans s \<Longrightarrow>
     store_step s (s\<lparr>s_mem := fst (WaitPaused_begin w x (s_mem s)), s_chans := insert w (s_chans s)\<rparr>)"
| wait_paused_result:
    "WaitPaused_result w (s_mem s) = Some (m', res) \<Longrightarrow> store_step s (s\<lparr>s_mem := m'\<rparr>)"
| wait_paused_done: "store_step s (s\<lparr>s_mem := fst (WaitPaused_done w x (s_mem s))\<rparr>)"

inductive reachable :: "system \<Rightarrow> bool" where
  init: "newMemory io opts fs = Inr m \<Longrightarrow>
         reachable \<lparr>s_mem = m, s_pending = [], s_ids = {}, s_chans = {}\<rparr>"
| step: "reachable s \<Longrightarrow> store_step s s' \<Longrightarrow> reachable s'"

subsection \<open>Identifiers and channels are used once\<close>

text \<open>No operation but the commit of an insert adds a row, and none but \<open>WaitPaused\<close> adds a
  channel.\<close>

definition wnames :: "memory \<Rightarrow> nat set" where
  "wnames m = set (waitersOf m) \<union> keys (m_chans m)"

definition no_new :: "memory \<Rightarrow> memory \<Rightarrow> bool" where
  "no_new m m' \<longleftrightarrow> keys (m_byID m') \<subseteq> keys (m_byID m) \<and> wnames m' \<subseteq> wnames m"

lemma no_new_refl [simp]: "no_new m m"
  by (simp add: no_new_def)

lemma no_new_trans: "no_new m1 m2 \<Longrightarrow> no_new m2 m3 \<Longrightarrow> no_new m1 m3"
  unfolding no_new_def by blast

lemma no_new_eq:
  "m_byID m' = m_byID m \<Longrightarrow> m_paused m' = m_paused m \<Longrightarrow> m_chans m' = m_chans m \<Longrightarrow> no_new m m'"
  by (simp add: no_new_def wnames_def waitersOf_def)

lemma no_new_finish:
  assumes "keys (m_byID m') \<subseteq> keys (m_byID m)" and "m_paused m' = AList.delete x (m_paused m)"
    and "m_chans m' = deliver res (pausedOf m x) (m_chans m)"
  shows "no_new m m'"
proof -
  have "set (waitersOf m') \<subseteq> set (waitersOf m)"
    unfolding waitersOf_def assms(2) by (rule concat_delete_subset)
  moreover have "keys (m_chans m') = keys (m_chans m) \<union> set (pausedOf m x)"
    by (simp only: assms(3) deliver_keys)
  ultimately show ?thesis
    using assms(1) pausedOf_waiters[of m x] unfolding no_new_def wnames_def by blast
qed

lemma no_new_remove: "no_new m (removeLocked io x ev m)"
proof (cases "map_of (m_byID m) x")
  case None
  then show ?thesis by (simp add: map_of_eq_None_keys)
next
  case (Some r)
  show ?thesis by (rule no_new_finish[where x = x]) (simp_all add: removeLocked_present[OF Some])
qed

lemma no_new_fold: "no_new m (fold (\<lambda>x. removeLocked io x ev) xs m)"
  by (induction xs arbitrary: m) (auto intro: no_new_trans no_new_remove)

lemma no_new_evict: "no_new m (evict_spec (\<lambda>x. removeLocked io x True) ok xs m)"
  by (induction xs arbitrary: m) (auto intro: no_new_trans no_new_remove)

lemma no_new_set: "x \<in> keys (m_byID m) \<Longrightarrow> no_new m (setRecord x r m)"
  by (auto simp: no_new_def wnames_def waitersOf_def)

lemma no_new_finish_row:
  assumes "x \<in> keys (m_byID m)"
  shows "no_new m (finishPausedLocked x res (bumpGeneration (setRecord x r m)))"
  by (rule no_new_finish[where x = x])
    (use assms in \<open>auto simp: finishPausedLocked_byID pausedOf_def insert_absorb\<close>)

lemma no_new_emit [simp]: "no_new m (emitLocked k x h m') = no_new m m'"
  by (simp add: no_new_def wnames_def waitersOf_def)

lemma no_new_Delete: "no_new m (fst (Delete io x m))"
  by (simp add: Delete_def no_new_remove split: option.splits)

lemma no_new_DeleteAll: "no_new m (fst (DeleteAll io m))"
  by (simp add: DeleteAll_def no_new_fold Let_def)

lemma no_new_ReplaceCaps:
  assumes "inv_store m" and "ReplaceCaps io opts force m = Some (m', e)"
  shows "no_new m m'"
proof (cases "normalizeOptions opts")
  case (Inl e)
  with assms show ?thesis by (simp add: ReplaceCaps_def)
next
  case (Inr op)
  let ?m = "m\<lparr>m_maxFlows := op_MaxFlows op, m_maxBytes := op_MaxBytes op,
           m_maxBodyBytes := op_MaxBodyBytes op, m_fullPolicy := op_FullPolicy op\<rparr>"
  have "inv_core ?m" using assms(1) Inr by (simp add: inv_store_def inv_core_caps)
  then have "m' = m \<or> m' = ?m \<or> m' = evictedCaps io ?m"
    using assms(2) Inr
    by (auto simp: ReplaceCaps_def Let_def evictUntilUnderCaps_returns split: if_splits)
  moreover have "no_new m ?m" by (rule no_new_eq) simp_all
  ultimately show ?thesis
    using no_new_trans[OF _ no_new_evict] unfolding evictedCaps_def by auto
qed

lemma no_new_Wipe: "no_new m (Wipe io m)"
  unfolding Wipe_def no_new_emit
  by (simp add: no_new_def wnames_def waitersOf_def [of "wipeLocked io m"] deliver_keys)

lemma no_new_ResetTo: "no_new m (fst (ResetTo io opts m))"
proof (cases "normalizeOptions opts")
  case (Inr op)
  then have "m_byID (fst (ResetTo io opts m)) = []" "m_paused (fst (ResetTo io opts m)) = []"
    "m_chans (fst (ResetTo io opts m)) = m_chans (wipeLocked io m)"
    by (simp_all add: ResetTo_def)
  then show ?thesis by (simp add: no_new_def wnames_def waitersOf_def [of "fst _"] deliver_keys)
qed (simp add: ResetTo_def)

lemma no_new_Pause: "no_new m (fst (Pause x m))"
proof (cases "map_of (m_byID m) x")
  case (Some r)
  then have "x \<in> keys (m_byID m)" unfolding in_keys_iff ..
  with Some show ?thesis
    by (simp add: Pause_def no_new_trans[OF no_new_set no_new_eq])
qed (simp add: Pause_def)

lemma no_new_Drop: "no_new m (fst (Drop x m))"
proof (cases "map_of (m_byID m) x")
  case (Some r)
  then have "x \<in> keys (m_byID m)" unfolding in_keys_iff ..
  with Some show ?thesis by (simp add: Drop_def no_new_finish_row)
qed (simp add: Drop_def)

lemma no_new_Expire: "no_new m (fst (ExpireBreakpoint now x m))"
proof (cases "map_of (m_byID m) x")
  case (Some r)
  then have "x \<in> keys (m_byID m)" unfolding in_keys_iff ..
  with Some show ?thesis by (simp add: ExpireBreakpoint_def no_new_finish_row)
qed (simp add: ExpireBreakpoint_def)

lemma no_new_applyPatch:
  assumes "x \<in> keys (m_byID m)" "inv_store m" "map_of (m_byID m) x = Some r"
  shows "no_new m (fst (applyPatchLocked io x r p m))"
proof (cases "planPatch m r p")
  case (Inr vs)
  obtain fs1 st where st: "stagePatch io m r p = (fs1, st)" by (metis surj_pair)
  let ?m1 = "fold (\<lambda>v. removeLocked io v True) vs (m\<lparr>m_fs := fs1\<rparr>)"
  let ?t = "patchedFlow p (rec_flow r)"
  let ?pub = "\<lambda>sp. publishPatch io x p r ?t (ResidentBytes ?t) vs sp (m\<lparr>m_fs := fs1\<rparr>)"
  have nn: "no_new m ?m1" by (rule no_new_trans[OF _ no_new_fold]) (rule no_new_eq, simp_all)
  have byID: "\<exists>r'. m_byID (?pub sp) = AList.update x r' (m_byID ?m1)" for sp
    by (simp add: publishPatch_def Let_def) blast
  have "no_new m (?pub sp)" for sp
  proof -
    have "keys (m_byID (?pub sp)) = insert x (keys (m_byID ?m1))"
      using byID[of sp] keys_update by metis
    moreover have "wnames (?pub sp) = wnames ?m1" by (simp add: wnames_def waitersOf_def)
    ultimately show ?thesis using nn assms(1) unfolding no_new_def by simp
  qed
  then have "no_new m (?pub sp\<lparr>m_fs := fs2\<rparr>)" for sp fs2
    by (rule no_new_trans) (rule no_new_eq, simp_all)
  then show ?thesis using Inr st
    by (cases st) (auto simp: applyPatchLocked_def Let_def case_prod_beta intro!: no_new_eq)
qed (simp add: applyPatchLocked_def)

lemma no_new_Resume:
  assumes inv: "inv_store m"
  shows "no_new m (fst (Resume io x patch m))"
proof (cases "\<exists>r. map_of (m_byID m) x = Some r \<and> fl_State (rec_flow r) = FlowStatePaused")
  case False
  then show ?thesis by (cases "map_of (m_byID m) x") (auto simp: Resume_def)
next
  case True
  then obtain r where r: "map_of (m_byID m) x = Some r" "fl_State (rec_flow r) = FlowStatePaused"
    by blast
  then have x: "x \<in> keys (m_byID m)" unfolding in_keys_iff by blast
  define step where "step = (case patch of None \<Rightarrow> (m, None) | Some p \<Rightarrow> applyPatchLocked io x r p m)"
  obtain m1 e where me: "step = (m1, e)" by (metis surj_pair)
  have nn: "no_new m m1"
    using me no_new_applyPatch[OF x inv r(1), of io] unfolding step_def
    by (cases patch) (simp, metis fst_conv option.simps(5))
  show ?thesis
  proof (cases "e = None \<and> x \<in> keys (m_byID m1)")
    case True
    then obtain r1 where "map_of (m_byID m1) x = Some r1" unfolding in_keys_iff by blast
    with True r me show ?thesis
      by (simp add: Resume_def step_def Let_def no_new_trans[OF nn no_new_finish_row])
  next
    case False
    with r me nn show ?thesis
      by (cases e) (simp_all add: Resume_def step_def flip: map_of_eq_None_keys)
  qed
qed

lemma no_new_result: "WaitPaused_result w m = Some (m', res) \<Longrightarrow> no_new m m'"
  by (auto simp: WaitPaused_result_def no_new_def wnames_def waitersOf_def AList.delete_eq)

lemma no_new_removeWaiter:
  assumes "inv_store m"
  shows "no_new m (removeWaiterLocked x w m)"
proof -
  from assms have wf: "wf_paused m" by (simp add: inv_store_def inv_core_def)
  let ?ws = "remove1 w (pausedOf m x)"
  have del: "regs (AList.delete x (m_paused m)) \<subseteq> regs (m_paused m)"
    unfolding regs_def by (rule concat_delete_subset)
  have sub: "set ?ws \<subseteq> set (pausedOf m x)" by (rule set_remove1_subset)
  moreover have "set (pausedOf m x) \<inter> regs (AList.delete x (m_paused m)) = {}"
    using wf delete_waiters_disjoint[of "m_paused m" x]
    by (auto simp: wf_paused_def waitersOf_def pausedOf_def regs_def split: option.splits)
  moreover have "distinct ?ws" using wf by (simp add: wf_paused_def distinct_pausedOf)
  ultimately have "regs (AList.update x ?ws (m_paused m)) = set ?ws \<union> regs (AList.delete x (m_paused m))"
    using wf update_waiters[of "m_paused m" ?ws x] by (auto simp: wf_paused_def waitersOf_def)
  with del sub pausedOf_waiters[of m x]
  have "regs (AList.update x ?ws (m_paused m)) \<subseteq> regs (m_paused m)" by (auto simp: regs_waiters)
  with del show ?thesis
    by (auto simp: removeWaiterLocked_def no_new_def wnames_def regs_waiters Let_def)
qed

lemma no_new_done: "inv_store m \<Longrightarrow> no_new m (fst (WaitPaused_done w x m))"
  using no_new_removeWaiter[of m x w] no_new_trans[OF _ no_new_result]
  by (auto simp: WaitPaused_done_def Let_def split: option.splits)

lemma no_new_Subscribe: "no_new m (Subscribe n c m)" "no_new m (Unsubscribe n m)"
  by (rule no_new_eq; simp add: Subscribe_def Unsubscribe_def)+

subsection \<open>The invariant of the system\<close>

definition wf_pending :: "system \<Rightarrow> pending \<Rightarrow> bool" where
  "wf_pending s p \<longleftrightarrow>
     pe_id p \<in> s_ids s \<and> insertable (s_mem s) (pe_id p) (pe_flow p) (pe_candidate p)"

definition inv_system :: "system \<Rightarrow> bool" where
  "inv_system s \<longleftrightarrow>
     inv_store (s_mem s) \<and> keys (m_byID (s_mem s)) \<subseteq> s_ids s \<and> wnames (s_mem s) \<subseteq> s_chans s
     \<and> distinct (map pe_id (s_pending s)) \<and> (\<forall>p \<in> set (s_pending s). wf_pending s p)"

lemma inv_system_store: "inv_system s \<Longrightarrow> inv_store (s_mem s)"
  by (simp add: inv_system_def)

lemma insertable_no_new: "no_new m m' \<Longrightarrow> insertable m x f c \<Longrightarrow> insertable m' x f c"
  unfolding no_new_def insertable_def by blast

lemma inv_system_op:
  assumes "inv_system s" and "inv_store m'" and "no_new (s_mem s) m'"
  shows "inv_system (s\<lparr>s_mem := m'\<rparr>)"
proof -
  have "keys (m_byID m') \<subseteq> s_ids s" "wnames m' \<subseteq> s_chans s"
    using assms(1,3) unfolding inv_system_def no_new_def by blast+
  with assms(1,2) insertable_no_new[OF assms(3)] show ?thesis
    by (simp add: inv_system_def wf_pending_def)
qed

lemma Insert_locked_names:
  assumes "inv_core m" and "Insert_locked io ep x f c job m = Some (m', res)"
  shows "keys (m_byID m') \<subseteq> insert x (keys (m_byID m))" and "wnames m' \<subseteq> wnames m"
proof -
  have "keys (m_byID m') \<subseteq> insert x (keys (m_byID m)) \<and> wnames m' \<subseteq> wnames m"
    using assms(1)
  proof (cases rule: Insert_locked_cases[where io = io and ep = ep and x = x and f = f and c = c and job = job])
    case (Error e fs)
    with assms(2) show ?thesis by (auto simp: wnames_def waitersOf_def)
  next
    case (Inserted fs j r)
    let ?m = "evictedFits io c (m\<lparr>m_fs := fs\<rparr>)"
    have "m' = Insert_index x f r c ?m" using Inserted(5) assms(2) by simp
    then have "keys (m_byID m') = insert x (keys (m_byID ?m))" "wnames m' = wnames ?m"
      by (simp_all add: wnames_def waitersOf_def)
    moreover have "no_new (m\<lparr>m_fs := fs\<rparr>) ?m" unfolding evictedFits_def by (rule no_new_evict)
    moreover have "wnames (m\<lparr>m_fs := fs\<rparr>) = wnames m" by (simp add: wnames_def waitersOf_def)
    ultimately show ?thesis unfolding no_new_def by auto
  qed
  then show "keys (m_byID m') \<subseteq> insert x (keys (m_byID m))" and "wnames m' \<subseteq> wnames m" by simp_all
qed

lemma regs_update_subset: "regs (AList.update x ws ps) \<subseteq> set ws \<union> regs ps"
proof (induction ps)
  case (Cons p ps)
  then show ?case by (cases p) (auto simp: regs_Cons)
qed (simp add: regs_def)

lemma WaitPaused_begin_names:
  shows "m_byID (fst (WaitPaused_begin w x m)) = m_byID m"
    and "wnames (fst (WaitPaused_begin w x m)) \<subseteq> insert w (wnames m)"
proof -
  let ?m = "m\<lparr>m_paused := AList.update x (pausedOf m x @ [w]) (m_paused m)\<rparr>"
  have cases: "fst (WaitPaused_begin w x m) = m \<or> fst (WaitPaused_begin w x m) = ?m"
    by (cases "map_of (m_byID m) x") (simp_all add: WaitPaused_begin_def)
  then show "m_byID (fst (WaitPaused_begin w x m)) = m_byID m" by auto
  have "wnames ?m \<subseteq> insert w (wnames m)"
    using pausedOf_waiters[of m x] regs_update_subset[of x "pausedOf m x @ [w]" "m_paused m"]
    by (auto simp: wnames_def regs_waiters)
  with cases show "wnames (fst (WaitPaused_begin w x m)) \<subseteq> insert w (wnames m)" by auto
qed

lemma Insert_prepare_wf: "wf_flow f \<Longrightarrow> wf_flow (Insert_prepare nowS nowC x f)"
  by (simp add: Insert_prepare_def Let_def wf_flow_def)

lemma Insert_prepare_id [simp]: "fl_ID (Insert_prepare nowS nowC x f) = x"
  by (simp add: Insert_prepare_def Let_def)

lemma inv_system_insert:
  assumes inv: "inv_system s" and p: "p \<in> set (s_pending s)"
    and ins: "Insert_locked io (pe_epoch p) (pe_id p) (pe_flow p) (pe_candidate p) (pe_job p) (s_mem s)
        = Some (m', res)"
  shows "inv_system (s\<lparr>s_mem := m', s_pending := remove1 p (s_pending s)\<rparr>)"
proof -
  from inv p have wf: "wf_pending s p" and st: "inv_store (s_mem s)" by (simp_all add: inv_system_def)
  have "inv_store m'"
    using Insert_locked_inv[OF st, of "pe_id p" "pe_flow p" "pe_candidate p" io "pe_epoch p" "pe_job p"]
      wf ins by (auto simp: wf_pending_def)
  moreover have names: "keys (m_byID m') \<subseteq> insert (pe_id p) (keys (m_byID (s_mem s)))"
    "wnames m' \<subseteq> wnames (s_mem s)"
    using Insert_locked_names[OF _ ins] st by (simp_all add: inv_store_def)
  moreover have "distinct (map pe_id (remove1 p (s_pending s)))"
    using inv by (simp add: inv_system_def distinct_map distinct_remove1 inj_on_diff)
  moreover have "wf_pending (s\<lparr>s_mem := m', s_pending := remove1 p (s_pending s)\<rparr>) q"
    if q: "q \<in> set (remove1 p (s_pending s))" for q
  proof -
    from inv have d: "distinct (map pe_id (s_pending s))" by (simp add: inv_system_def)
    with q have q': "q \<in> set (s_pending s)" "q \<noteq> p" by (auto simp: distinct_map)
    with d p have "pe_id q \<noteq> pe_id p" by (meson distinct_map inj_onD)
    moreover have wf: "wf_pending s q" using inv q'(1) by (simp add: inv_system_def)
    ultimately have "pe_id q \<notin> keys (m_byID m')"
      using names(1) unfolding wf_pending_def insertable_def by blast
    with wf show ?thesis by (simp add: wf_pending_def insertable_def)
  qed
  moreover have "keys (m_byID m') \<subseteq> s_ids s" "wnames m' \<subseteq> s_chans s"
  proof -
    have *: "insert (pe_id p) (keys (m_byID (s_mem s))) \<subseteq> s_ids s" "wnames (s_mem s) \<subseteq> s_chans s"
      using inv wf by (simp_all add: inv_system_def wf_pending_def)
    show "keys (m_byID m') \<subseteq> s_ids s" by (rule subset_trans[OF names(1) *(1)])
    show "wnames m' \<subseteq> s_chans s" by (rule subset_trans[OF names(2) *(2)])
  qed
  ultimately show ?thesis by (simp add: inv_system_def)
qed

lemma inv_system_step:
  assumes "store_step s s'" and inv: "inv_system s"
  shows "inv_system s'"
  using assms(1)
proof cases
  case (prepare x f prepared nowS nowC maxBody io spillDir spillTh fs job epoch)
  have nn: "no_new (s_mem s) ((s_mem s)\<lparr>m_fs := fs\<rparr>)" by (rule no_new_eq) simp_all
  then have inv1: "inv_system (s\<lparr>s_mem := (s_mem s)\<lparr>m_fs := fs\<rparr>\<rparr>)"
    using inv by (intro inv_system_op) (simp_all add: inv_system_def)
  have "wf_flow prepared" "fl_ID prepared = x"
    using prepare by (simp_all add: applyBodyCaps_wf Insert_prepare_wf)
  moreover have "x \<notin> keys (m_byID (s_mem s))" "x \<notin> pe_id ` set (s_pending s)"
    using inv prepare(2) by (auto simp: inv_system_def wf_pending_def)
  ultimately show ?thesis
    using inv1 prepare by (auto simp: inv_system_def wf_pending_def insertable_def)
next
  case (prepare_fails x io spillDir spillTh prepared fs)
  have "no_new (s_mem s) ((s_mem s)\<lparr>m_fs := fs\<rparr>)" by (rule no_new_eq) simp_all
  then have "inv_system (s\<lparr>s_mem := (s_mem s)\<lparr>m_fs := fs\<rparr>\<rparr>)"
    using inv by (intro inv_system_op) (simp_all add: inv_system_def)
  then show ?thesis using prepare_fails by (auto simp: inv_system_def wf_pending_def)
next
  case (insert p io m' res)
  with inv show ?thesis by (simp add: inv_system_insert)
next
  case (replace_caps io opts force m' e)
  have "inv_store m'"
    using ReplaceCaps_inv[OF inv_system_store[OF inv], of io opts force] replace_caps by auto
  with inv replace_caps show ?thesis
    by (simp add: inv_system_op no_new_ReplaceCaps[OF inv_system_store[OF inv]])
next
  case (wait_paused w x)
  let ?m' = "fst (WaitPaused_begin w x (s_mem s))"
  have fresh: "w \<notin> wnames (s_mem s)" using inv wait_paused by (auto simp: inv_system_def)
  then have "inv_store ?m'"
    using inv by (intro WaitPaused_begin_inv) (auto simp: inv_system_def wnames_def)
  moreover have "m_byID ?m' = m_byID (s_mem s)" "wnames ?m' \<subseteq> insert w (wnames (s_mem s))"
    by (rule WaitPaused_begin_names)+
  ultimately show ?thesis
    using inv wait_paused by (auto simp: inv_system_def wf_pending_def insertable_def)
next
  case (wait_paused_result w m' res)
  with inv show ?thesis
    by (simp add: inv_system_op no_new_result WaitPaused_result_inv[OF inv_system_store[OF inv]])
qed (simp_all add: inv inv_system_op inv_system_store no_new_Delete Delete_inv no_new_DeleteAll
      DeleteAll_inv no_new_Wipe Wipe_inv no_new_ResetTo ResetTo_inv no_new_Subscribe Subscribe_inv
      Unsubscribe_inv no_new_Pause Pause_inv no_new_Resume Resume_inv no_new_Drop Drop_inv
      no_new_Expire ExpireBreakpoint_inv no_new_done WaitPaused_done_inv)

lemma reachable_system: "reachable s \<Longrightarrow> inv_system s"
proof (induction rule: reachable.induct)
  case (init io opts fs m)
  then have "inv_store m" "m_byID m = []" "m_paused m = []" "m_chans m = []"
    by (auto simp: newMemory_inv newMemory_def Let_def split: sum.splits prod.splits if_splits)
  then show ?case by (simp add: inv_system_def wnames_def waitersOf_def)
next
  case (step s s')
  then show ?case by (simp add: inv_system_step)
qed

end
