(* ===== verification/Store_Props.thy ===== *)
theory Store_Props
  imports Store_Step
begin

text \<open>
  The properties of the flow inbox as a whole, over its reachable states: what the index, the
  order and the counters promise, what an insert may evict, what a wipe does to inserts in flight,
  and what a session waiting on a breakpoint is told.
\<close>

subsection \<open>Example states\<close>

definition exMessage :: "byte list \<Rightarrow> HTTPMessage" where
  "exMessage b = \<lparr>msg_Headers = Some [\<lparr>hdr_Name = ''Host'', hdr_Value = ''a.test''\<rparr>],
     msg_Trailers = None, msg_Body = Some b, msg_Size = int (length b), msg_Truncated = False\<rparr>"

definition exFlow :: "string \<Rightarrow> byte list \<Rightarrow> Flow" where
  "exFlow state body =
     \<lparr>fl_ID = '''', fl_StartedAt = 5, fl_CompletedAt = 0, fl_State = state,
      fl_PausedPhase = RulePhaseRequest, fl_ClientAddr = ''c'', fl_Method = ''GET'',
      fl_URL = ''http://a.test/'', fl_Host = ''a.test'', fl_Scheme = ''http'',
      fl_Protocol = ''HTTP/1.1'', fl_Status = 200, fl_Error = '''', fl_Intercepted = True,
      fl_Request = exMessage body, fl_Response = exMessage [], fl_TLS = None, fl_HTTP2 = None,
      fl_SOCKS = None, fl_WebSocket = None, fl_GRPC = None, fl_Via = '''', fl_OriginalDest = '''',
      fl_Timings = \<lparr>tm_DNSMs = 0, tm_ConnectMs = 0, tm_TLSMs = 0, tm_TTFBMs = 0, tm_TotalMs = 0\<rparr>,
      fl_RuleIDs = None, fl_Truncated = False\<rparr>"

definition exOptions :: "int \<Rightarrow> string \<Rightarrow> options" where
  "exOptions n policy = \<lparr>op_MaxFlows = n, op_MaxBytes = 1000, op_MaxBodyBytes = 100,
     op_FullPolicy = policy, op_MaxWait = 0, op_SpillDirectory = '''', op_SpillThreshold = 0\<rparr>"

definition exMemory :: "int \<Rightarrow> string \<Rightarrow> memory" where
  "exMemory n policy = projr (newMemory io_ok (exOptions n policy) [])"

definition exStart :: "int \<Rightarrow> string \<Rightarrow> system" where
  "exStart n policy = \<lparr>s_mem = exMemory n policy, s_pending = [], s_ids = {}, s_chans = {}\<rparr>"

definition exPending :: "string \<Rightarrow> string \<Rightarrow> pending" where
  "exPending x state =
     (let f = applyBodyCaps (Insert_prepare 7 9 x (exFlow state [1, 2, 3])) 100
      in \<lparr>pe_epoch = 1, pe_id = x, pe_flow = f, pe_candidate = ResidentBytes f, pe_job = None\<rparr>)"

definition exCommit :: "pending \<Rightarrow> memory \<Rightarrow> memory" where
  "exCommit p m = fst (the (Insert_locked io_ok (pe_epoch p) (pe_id p) (pe_flow p)
     (pe_candidate p) (pe_job p) m))"

text \<open>The state after an insert has been prepared, and after it has been committed.\<close>

definition exPrepare :: "string \<Rightarrow> string \<Rightarrow> system \<Rightarrow> system" where
  "exPrepare x state s =
     s\<lparr>s_ids := insert x (s_ids s), s_pending := exPending x state # s_pending s\<rparr>"

definition exInsert :: "string \<Rightarrow> string \<Rightarrow> system \<Rightarrow> system" where
  "exInsert x state s =
     s\<lparr>s_ids := insert x (s_ids s), s_mem := exCommit (exPending x state) (s_mem s)\<rparr>"

lemma exMemory_ok:
  "0 < n \<Longrightarrow> policy \<in> {FullPolicyReject, FullPolicyEvictOldest} \<Longrightarrow>
   newMemory io_ok (exOptions n policy) [] = Inr (exMemory n policy)"
  by (auto simp: exMemory_def newMemory_def normalizeOptions_def exOptions_def ensureSpillDir_def
      unlinkAllSpill_def io_ok_def Let_def FullPolicyReject_def FullPolicyEvictOldest_def)

lemma reachable_exStart:
  "0 < n \<Longrightarrow> policy \<in> {FullPolicyReject, FullPolicyEvictOldest} \<Longrightarrow> reachable (exStart n policy)"
  unfolding exStart_def by (rule reachable.init) (rule exMemory_ok)

lemma wf_exFlow: "wf_flow (exFlow state b)"
  by (simp add: exFlow_def exMessage_def wf_flow_def wf_message_def wf_websocket_def)

lemma exPending_fields [simp]:
  "pe_epoch (exPending x state) = 1" "pe_id (exPending x state) = x" "pe_job (exPending x state) = None"
  by (simp_all add: exPending_def Let_def)

lemma reachable_exPrepare:
  assumes "reachable s" "x \<notin> s_ids s" "x \<noteq> ''''"
  shows "reachable (exPrepare x state s)"
proof -
  let ?f = "applyBodyCaps (Insert_prepare 7 9 x (exFlow state [1, 2, 3])) 100"
  have "store_step s (s\<lparr>s_mem := (s_mem s)\<lparr>m_fs := m_fs (s_mem s)\<rparr>, s_ids := insert x (s_ids s),
         s_pending := \<lparr>pe_epoch = 1, pe_id = x, pe_flow = ?f, pe_candidate = ResidentBytes ?f,
                       pe_job = None\<rparr> # s_pending s\<rparr>)"
    by (rule store_step.prepare[where io = io_ok and spillDir = "''''" and spillTh = 0
          and f = "exFlow state [1, 2, 3]" and nowS = 7 and nowC = 9 and maxBody = 100])
      (use assms in \<open>simp_all add: wf_exFlow writeSpillTemps_def\<close>)
  then have "store_step s (exPrepare x state s)"
    by (simp add: exPrepare_def exPending_def Let_def)
  with assms(1) show ?thesis by (rule reachable.step)
qed

lemma reachable_exInsert:
  assumes "reachable s" "x \<notin> s_ids s" "x \<noteq> ''''"
  shows "reachable (exInsert x state s)"
proof -
  let ?s = "exPrepare x state s" and ?p = "exPending x state"
  have r: "reachable ?s" using assms by (rule reachable_exPrepare)
  then have inv: "inv_store (s_mem ?s)" and wf: "wf_pending ?s ?p"
    using reachable_system[OF r] by (simp_all add: inv_system_def exPrepare_def)
  then obtain m' res where ins: "Insert_locked io_ok (pe_epoch ?p) (pe_id ?p) (pe_flow ?p)
      (pe_candidate ?p) (pe_job ?p) (s_mem ?s) = Some (m', res)"
    using Insert_locked_inv[OF inv] unfolding wf_pending_def by metis
  have "store_step ?s (?s\<lparr>s_mem := m', s_pending := remove1 ?p (s_pending ?s)\<rparr>)"
    by (rule store_step.insert[OF _ ins]) (simp add: exPrepare_def)
  moreover from ins have "?s\<lparr>s_mem := m', s_pending := remove1 ?p (s_pending ?s)\<rparr> = exInsert x state s"
    by (simp add: exPrepare_def exInsert_def exCommit_def)
  ultimately show ?thesis using r by (metis reachable.step)
qed

lemma exStart_ids [simp]: "s_ids (exStart n policy) = {}"
  "s_ids (exInsert x state s) = insert x (s_ids s)" "s_ids (exPrepare x state s) = insert x (s_ids s)"
  by (simp_all add: exStart_def exInsert_def exPrepare_def)

subsection \<open>The index, the order and the counters\<close>

text \<open>(C1) In every state that any interleaving of operations and faults can reach, the eviction
  order holds exactly the indexed rows, each once; the byte counter is the sum of what the rows are
  charged; each row is indexed under its own identifier; and the caps on rows and on bytes hold.\<close>

theorem reachable_caps_and_index:
  assumes "reachable s"
  shows "distinct (m_order (s_mem s))
    \<and> set (m_order (s_mem s)) = fst ` set (m_byID (s_mem s))
    \<and> length (m_order (s_mem s)) = length (m_byID (s_mem s))
    \<and> m_bytes (s_mem s) = sum_list (map (rec_resident \<circ> snd) (m_byID (s_mem s)))
    \<and> (\<forall>x r. map_of (m_byID (s_mem s)) x = Some r \<longrightarrow> fl_ID (rec_flow r) = x)
    \<and> int (length (m_byID (s_mem s))) \<le> m_maxFlows (s_mem s)
    \<and> 0 \<le> m_bytes (s_mem s) \<and> m_bytes (s_mem s) \<le> m_maxBytes (s_mem s)"
proof -
  have inv: "inv_store (s_mem s)" using reachable_system[OF assms] by (simp add: inv_system_def)
  then have core: "inv_core (s_mem s)" by (simp add: inv_store_def)
  have "length (m_order (s_mem s)) = length (m_byID (s_mem s))"
    using inv_coreD(1-3)[OF core] by (metis distinct_card distinct_keys_card)
  then show ?thesis
    using inv inv_coreD[OF core] inv_core_rec[OF core] inv_core_nonneg[OF core]
    by (simp add: inv_store_def occupancyOKLocked_def vsum_def wf_rec_def)
qed

theorem reachable_caps_and_index_witness:
  "reachable (exInsert ''a'' FlowStateOpen (exStart 2 FullPolicyReject))
   \<and> m_bytes (s_mem (exInsert ''a'' FlowStateOpen (exStart 2 FullPolicyReject))) \<le> 1000
   \<and> length (m_order (s_mem (exInsert ''a'' FlowStateOpen (exStart 2 FullPolicyReject))))
     = length (m_byID (s_mem (exInsert ''a'' FlowStateOpen (exStart 2 FullPolicyReject))))"
proof -
  have r: "reachable (exInsert ''a'' FlowStateOpen (exStart 2 FullPolicyReject))"
    by (intro reachable_exInsert reachable_exStart) simp_all
  moreover have "m_maxBytes (s_mem (exInsert ''a'' FlowStateOpen (exStart 2 FullPolicyReject))) = 1000"
    by code_simp
  ultimately show ?thesis using reachable_caps_and_index[OF r] by simp
qed

subsection \<open>Insert\<close>

lemma reachable_inv: "reachable s \<Longrightarrow> inv_store (s_mem s)"
  using reachable_system by (simp add: inv_system_def)

lemma reachable_core: "reachable s \<Longrightarrow> inv_core (s_mem s)"
  using reachable_inv by (simp add: inv_store_def)

lemma reachable_insertable:
  "reachable s \<Longrightarrow> p \<in> set (s_pending s) \<Longrightarrow>
   insertable (s_mem s) (pe_id p) (pe_flow p) (pe_candidate p)"
  using reachable_system by (simp add: inv_system_def wf_pending_def)

text \<open>(C2) The commit of a pending insert always returns: the eviction loop ends. If it returns an
  error, nothing but spill files has changed, so no row was evicted for a flow that was not
  stored; if it succeeds, the row is indexed under the identifier it returns, and the returned
  generation is the inbox's.\<close>

theorem insert_returns_all_or_nothing:
  assumes "reachable s" and "p \<in> set (s_pending s)"
  shows "\<exists>m' res. Insert_locked io (pe_epoch p) (pe_id p) (pe_flow p) (pe_candidate p) (pe_job p) (s_mem s)
           = Some (m', res)
     \<and> (case res of
          Inl e \<Rightarrow> e \<in> {ErrStaleEpoch, ErrFull, ErrSpill} \<and> (\<exists>fs. m' = (s_mem s)\<lparr>m_fs := fs\<rparr>)
        | Inr ir \<Rightarrow> ir_ID ir = pe_id p \<and> ir_Generation ir = m_generation m'
                  \<and> pe_id p \<in> set (m_order m') \<and> map_of (m_byID m') (pe_id p) \<noteq> None)"
  using reachable_core[OF assms(1)]
proof (cases rule: Insert_locked_cases[where io = io and ep = "pe_epoch p" and x = "pe_id p"
      and f = "pe_flow p" and c = "pe_candidate p" and job = "pe_job p"])
  case (Error e fs)
  then show ?thesis by auto
next
  case (Inserted fs j r)
  then show ?thesis by (simp add: Insert_index_order)
qed

theorem insert_returns_all_or_nothing_witness:
  "\<exists>m'. Insert_locked io_ok 1 ''a'' (pe_flow (exPending ''a'' FlowStateOpen))
     (pe_candidate (exPending ''a'' FlowStateOpen)) None (exMemory 2 FullPolicyReject)
     = Some (m', Inr \<lparr>ir_ID = ''a'', ir_Generation = 1\<rparr>) \<and> ''a'' \<in> set (m_order m')"
proof -
  let ?s = "exPrepare ''a'' FlowStateOpen (exStart 2 FullPolicyReject)"
  let ?p = "exPending ''a'' FlowStateOpen"
  have r: "reachable ?s" by (intro reachable_exPrepare reachable_exStart) simp_all
  have p: "?p \<in> set (s_pending ?s)" by (simp add: exPrepare_def)
  have "snd (the (Insert_locked io_ok (pe_epoch ?p) (pe_id ?p) (pe_flow ?p) (pe_candidate ?p)
      (pe_job ?p) (s_mem ?s))) = Inr \<lparr>ir_ID = ''a'', ir_Generation = 1\<rparr>" by code_simp
  moreover have "s_mem ?s = exMemory 2 FullPolicyReject"
    by (simp add: exPrepare_def exStart_def)
  ultimately show ?thesis
    using insert_returns_all_or_nothing[OF r p, of io_ok] by auto
qed

lemma fold_remove_count:
  "inv_core m \<Longrightarrow> distinct xs \<Longrightarrow> set xs \<subseteq> keys (m_byID m) \<Longrightarrow>
   length (m_byID (fold (\<lambda>x. removeLocked io x ev) xs m)) + length xs = length (m_byID m)"
proof (induction xs arbitrary: m)
  case Nil
  then show ?case by simp
next
  case (Cons x xs)
  let ?m = "removeLocked io x ev m"
  have "length (m_byID (fold (\<lambda>x. removeLocked io x ev) xs ?m)) + length xs = length (m_byID ?m)"
    using Cons.prems by (intro Cons.IH) (auto simp: inv_core_remove)
  with length_delete_key[OF inv_coreD(1)[OF Cons.prems(1)], of x] Cons.prems(3) show ?case by simp
qed

text \<open>A successful insert evicts a prefix of the eviction order, and the shortest one: after
  any fewer evictions the flow did not fit. Every other row is left as it was.\<close>

theorem insert_evicts_shortest_prefix:
  assumes "reachable s" and "p \<in> set (s_pending s)"
    and "Insert_locked io (pe_epoch p) (pe_id p) (pe_flow p) (pe_candidate p) (pe_job p) (s_mem s)
           = Some (m', Inr ir)"
  shows "\<exists>k \<le> length (m_order (s_mem s)).
     (\<forall>y. y \<noteq> pe_id p \<longrightarrow> map_of (m_byID m') y =
        (if y \<in> set (take k (m_order (s_mem s))) then None else map_of (m_byID (s_mem s)) y))
     \<and> (\<forall>j < k. int (length (m_byID (s_mem s))) - int j \<ge> m_maxFlows (s_mem s)
          \<or> m_bytes (s_mem s) - sum_list (map (resOf (s_mem s)) (take j (m_order (s_mem s))))
              + pe_candidate p > m_maxBytes (s_mem s))"
proof -
  let ?m = "s_mem s" and ?c = "pe_candidate p"
  let ?rem = "\<lambda>x. removeLocked io x True"
  note core = reachable_core[OF assms(1)]
  from core show ?thesis
  proof (cases rule: Insert_locked_cases[where io = io and ep = "pe_epoch p" and x = "pe_id p"
        and f = "pe_flow p" and c = ?c and job = "pe_job p"])
    case (Error e fs)
    with assms(3) show ?thesis by simp
  next
    case (Inserted fs j r)
    let ?n = "?m\<lparr>m_fs := fs\<rparr>"
    have coren: "inv_core ?n" using core by simp
    from fits_loop.spec_minimal[OF coren refl, of io ?c] obtain k where k:
      "k \<le> length (m_order ?m)" "evictedFits io ?c ?n = fold ?rem (take k (m_order ?m)) ?n"
      "\<forall>j < k. \<not> fitsLocked (fold ?rem (take j (m_order ?m)) ?n) ?c"
      unfolding evictedFits_def by auto
    have pre: "distinct (take i (m_order ?m))" "set (take i (m_order ?m)) \<subseteq> keys (m_byID ?n)" for i
      using inv_coreD(2,3)[OF core] set_take_subset[of i "m_order ?m"] by auto
    have "int (length (m_byID ?m)) - int i \<ge> m_maxFlows ?m
        \<or> m_bytes ?m - sum_list (map (resOf ?m) (take i (m_order ?m))) + ?c > m_maxBytes ?m"
      if "i < k" for i
      using k(1,3) that fold_remove_count[OF coren pre, of io True i]
        fold_remove_bytes[OF coren pre, of io True i]
      by (fastforce simp: fitsLocked_def)
    moreover from Inserted(5) assms(3) k(2)
    have "m' = Insert_index (pe_id p) (pe_flow p) r ?c (fold ?rem (take k (m_order ?m)) ?n)" by simp
    then have "map_of (m_byID m') y = (if y \<in> set (take k (m_order ?m)) then None else map_of (m_byID ?m) y)"
      if "y \<noteq> pe_id p" for y
      using that by (simp add: fold_remove_row)
    ultimately show ?thesis using k(1) by blast
  qed
qed

theorem insert_evicts_shortest_prefix_witness:
  "\<exists>k \<le> 1. map_of (m_byID (exCommit (exPending ''b'' FlowStateOpen)
     (s_mem (exInsert ''a'' FlowStateOpen (exStart 1 FullPolicyEvictOldest))))) ''a''
     = (if ''a'' \<in> set (take k [''a'']) then None
        else map_of (m_byID (s_mem (exInsert ''a'' FlowStateOpen (exStart 1 FullPolicyEvictOldest)))) ''a'')"
proof -
  let ?s = "exPrepare ''b'' FlowStateOpen (exInsert ''a'' FlowStateOpen (exStart 1 FullPolicyEvictOldest))"
  let ?p = "exPending ''b'' FlowStateOpen"
  let ?ins = "Insert_locked io_ok (pe_epoch ?p) (pe_id ?p) (pe_flow ?p) (pe_candidate ?p) (pe_job ?p) (s_mem ?s)"
  have r: "reachable ?s"
    by (intro reachable_exPrepare reachable_exInsert reachable_exStart) simp_all
  have p: "?p \<in> set (s_pending ?s)" by (simp add: exPrepare_def)
  have "?ins \<noteq> None \<and> \<not> isl (snd (the ?ins))" by code_simp
  then obtain m' ir where ins: "?ins = Some (m', Inr ir)"
    by (metis isl_def option.collapse prod.collapse sum.exhaust)
  then have m': "m' = exCommit ?p (s_mem ?s)" by (simp add: exCommit_def)
  have "m_order (s_mem ?s) = [''a'']" by code_simp
  then show ?thesis
    using insert_evicts_shortest_prefix[OF r p ins] unfolding m' by (auto simp: exPrepare_def)
qed

text \<open>Under the policy \<open>evict_oldest\<close> an insert of the current epoch whose flow is no
  larger than the byte cap, and that has nothing to spill, is always stored.\<close>

theorem evict_oldest_always_stores:
  assumes "reachable s" and "p \<in> set (s_pending s)"
    and "m_fullPolicy (s_mem s) = FullPolicyEvictOldest"
    and "pe_candidate p \<le> m_maxBytes (s_mem s)" and "pe_epoch p = m_epoch (s_mem s)"
    and "pe_job p = None"
  shows "\<exists>m' ir. Insert_locked io (pe_epoch p) (pe_id p) (pe_flow p) (pe_candidate p) (pe_job p) (s_mem s)
     = Some (m', Inr ir) \<and> map_option rec_flow (map_of (m_byID m') (pe_id p)) = Some (pe_flow p)"
proof -
  note core = reachable_core[OF assms(1)]
  have acc: "canAcceptLocked (s_mem s) (pe_candidate p) = None"
    using core assms(3,4) by (rule canAccept_evicting)
  from core show ?thesis
  proof (cases rule: Insert_locked_cases[where io = io and ep = "pe_epoch p" and x = "pe_id p"
      and f = "pe_flow p" and c = "pe_candidate p" and job = "pe_job p"])
    case (Error e fs)
    with acc assms(5,6) have "e = ErrSpill" by auto
    with Error(1) assms(5,6) acc show ?thesis
      using canAccept_evict[OF core acc, of io]
      by (auto simp: Insert_locked_def commitSpill_def evictUntilFits_returns[OF core] Let_def)
  next
    case (Inserted fs j r)
    with assms(6) have "r = newRecord (pe_flow p) (pe_candidate p)" by (simp add: commitSpill_def)
    with Inserted(5) show ?thesis by (simp add: newRecord_def)
  qed
qed

theorem evict_oldest_always_stores_witness:
  "\<exists>m' ir. Insert_locked io_ok 1 ''b'' (pe_flow (exPending ''b'' FlowStateOpen))
     (pe_candidate (exPending ''b'' FlowStateOpen)) None
     (s_mem (exInsert ''a'' FlowStateOpen (exStart 1 FullPolicyEvictOldest))) = Some (m', Inr ir)"
proof -
  let ?s = "exPrepare ''b'' FlowStateOpen (exInsert ''a'' FlowStateOpen (exStart 1 FullPolicyEvictOldest))"
  let ?p = "exPending ''b'' FlowStateOpen"
  have r: "reachable ?s"
    by (intro reachable_exPrepare reachable_exInsert reachable_exStart) simp_all
  have "m_fullPolicy (s_mem ?s) = FullPolicyEvictOldest" "pe_candidate ?p \<le> m_maxBytes (s_mem ?s)"
    "pe_epoch ?p = m_epoch (s_mem ?s)" by code_simp+
  then show ?thesis
    using evict_oldest_always_stores[OF r, of ?p io_ok] by (simp add: exPrepare_def) blast
qed

subsection \<open>Epochs\<close>

lemma epoch_frames:
  "m_epoch (fst (Delete io x m)) = m_epoch m" "m_epoch (fst (DeleteAll io m)) = m_epoch m"
  "m_epoch (fst (Pause x m)) = m_epoch m" "m_epoch (fst (Drop x m)) = m_epoch m"
  "m_epoch (fst (ExpireBreakpoint now x m)) = m_epoch m" "m_epoch (Wipe io m) = Suc (m_epoch m)"
  "m_epoch (fst (WaitPaused_begin w x m)) = m_epoch m" "m_epoch (removeWaiterLocked x w m) = m_epoch m"
  "m_epoch (Subscribe n c m) = m_epoch m" "m_epoch (Unsubscribe n m) = m_epoch m"
  by (simp_all add: Delete_def DeleteAll_def Pause_def Drop_def ExpireBreakpoint_def Wipe_def
      WaitPaused_begin_def removeWaiterLocked_def Subscribe_def Unsubscribe_def Let_def
      split: option.splits)

lemma epoch_result: "WaitPaused_result w m = Some (m', res) \<Longrightarrow> m_epoch m' = m_epoch m"
  by (auto simp: WaitPaused_result_def)

lemma epoch_done: "m_epoch (fst (WaitPaused_done w x m)) = m_epoch m"
  by (auto simp: WaitPaused_done_def Let_def epoch_frames dest!: epoch_result split: option.splits)

lemma epoch_ResetTo: "m_epoch m \<le> m_epoch (fst (ResetTo io opts m))"
  by (simp add: ResetTo_def split: sum.splits)

lemma epoch_ReplaceCaps:
  assumes "inv_store m" "ReplaceCaps io opts force m = Some (m', e)"
  shows "m_epoch m' = m_epoch m"
proof (cases "normalizeOptions opts")
  case (Inr op)
  have "inv_core (m\<lparr>m_maxFlows := op_MaxFlows op, m_maxBytes := op_MaxBytes op,
           m_maxBodyBytes := op_MaxBodyBytes op, m_fullPolicy := op_FullPolicy op\<rparr>)"
    using assms(1) Inr by (simp add: inv_store_def inv_core_caps)
  with assms(2) Inr show ?thesis
    by (auto simp: ReplaceCaps_def Let_def evictUntilUnderCaps_returns evictedCaps_def split: if_splits)
qed (use assms in \<open>simp add: ReplaceCaps_def\<close>)

lemma epoch_Insert:
  assumes "inv_core m" "Insert_locked io ep x f c job m = Some (m', res)"
  shows "m_epoch m' = m_epoch m"
  using assms(1)
proof (cases rule: Insert_locked_cases[where io = io and ep = ep and x = x and f = f and c = c and job = job])
  case (Error e fs)
  with assms(2) show ?thesis by auto
next
  case (Inserted fs j r)
  with assms(2) show ?thesis by (auto simp: evictedFits_def)
qed

lemma epoch_Resume: "m_epoch (fst (Resume io x patch m)) = m_epoch m"
proof -
  have p: "m_epoch (fst (applyPatchLocked io x r p m)) = m_epoch m" for r p
    by (simp add: applyPatchLocked_def Let_def split: sum.splits prod.splits)
  then have "applyPatchLocked io x r p m = (m1, e) \<Longrightarrow> m_epoch m1 = m_epoch m" for r p m1 e
    by (metis fst_conv)
  then show ?thesis
    by (auto simp: Resume_def Let_def split: option.splits prod.splits)
qed

lemma epoch_step:
  assumes "store_step s s'" and inv: "inv_system s"
  shows "m_epoch (s_mem s) \<le> m_epoch (s_mem s')"
  using assms(1)
proof cases
  case (insert p io m' res)
  have "inv_core (s_mem s)" using inv by (simp add: inv_system_def inv_store_def)
  from epoch_Insert[OF this insert(3)] insert(1) show ?thesis by simp
next
  case (replace_caps io opts force m' e)
  with epoch_ReplaceCaps[OF inv_system_store[OF inv] replace_caps(2)] show ?thesis by simp
next
  case (wait_paused_result w m' res)
  with epoch_result show ?thesis by fastforce
qed (simp_all add: epoch_frames epoch_done epoch_ResetTo epoch_Resume)

lemma epoch_steps:
  "store_step\<^sup>*\<^sup>* s s' \<Longrightarrow> inv_system s \<Longrightarrow> inv_system s' \<and> m_epoch (s_mem s) \<le> m_epoch (s_mem s')"
  by (induction rule: rtranclp_induct) (auto intro: inv_system_step dest: epoch_step)

text \<open>(C5) After a wipe no insert of an earlier epoch can store its flow, whatever runs between the
  wipe and the insert's locked part, and the rejected insert changes no row.\<close>

theorem wipe_rejects_inserts_in_flight:
  assumes "reachable s" and "ep \<le> m_epoch (s_mem s)"
    and "store_step\<^sup>*\<^sup>* (s\<lparr>s_mem := Wipe io (s_mem s)\<rparr>) s'"
  shows "Insert_locked io' ep x f c job (s_mem s') =
           Some ((s_mem s')\<lparr>m_fs := unlinkSpillJob io' job (m_fs (s_mem s'))\<rparr>, Inl ErrStaleEpoch)"
proof -
  have "inv_system (s\<lparr>s_mem := Wipe io (s_mem s)\<rparr>)"
    using store_step.wipe reachable_system[OF assms(1)] by (rule inv_system_step)
  with assms(3) have "m_epoch (Wipe io (s_mem s)) \<le> m_epoch (s_mem s')"
    using epoch_steps by fastforce
  with assms(2) show ?thesis by (simp add: Insert_locked_def epoch_frames)
qed

theorem wipe_rejects_inserts_in_flight_witness:
  "Insert_locked io_ok 1 ''b'' (exFlow FlowStateOpen []) 3 None
     (fst (Delete io_ok ''a'' (Wipe io_ok (s_mem (exInsert ''a'' FlowStateOpen (exStart 2 FullPolicyReject))))))
   = Some (fst (Delete io_ok ''a'' (Wipe io_ok (s_mem (exInsert ''a'' FlowStateOpen (exStart 2 FullPolicyReject))))),
       Inl ErrStaleEpoch)"
proof -
  let ?s = "exInsert ''a'' FlowStateOpen (exStart 2 FullPolicyReject)"
  let ?w = "?s\<lparr>s_mem := Wipe io_ok (s_mem ?s)\<rparr>"
  have r: "reachable ?s" by (intro reachable_exInsert reachable_exStart) simp_all
  have e: "1 \<le> m_epoch (s_mem ?s)" by code_simp
  have "store_step\<^sup>*\<^sup>* ?w (?w\<lparr>s_mem := fst (Delete io_ok ''a'' (s_mem ?w))\<rparr>)"
    by (rule r_into_rtranclp) (rule store_step.delete)
  from wipe_rejects_inserts_in_flight[OF r e this] show ?thesis by (simp add: unlinkSpillJob_def)
qed

subsection \<open>Breakpoints\<close>

lemma finish_answers:
  assumes "inv_core m" and "w \<in> set (pausedOf m x)"
  shows "map_of (deliver res (pausedOf m x) (m_chans m)) w = Some res"
proof -
  have "w \<notin> keys (m_chans m)"
    using assms pausedOf_waiters[of m x] inv_coreD(5)[OF assms(1)] by (auto simp: wf_paused_def)
  then show ?thesis using assms(2) by (simp add: deliver_waiter map_of_eq_None_keys)
qed

lemma waiter_row:
  assumes "inv_core m" and "w \<in> set (pausedOf m x)"
  obtains r where "map_of (m_byID m) x = Some r" "fl_State (rec_flow r) = FlowStatePaused"
proof -
  have "x \<in> keys (m_paused m)"
    using assms(2) by (cases "map_of (m_paused m) x") (auto simp: pausedOf_def in_keys_iff)
  then have "is_paused m x" by (rule wf_pausedD[OF inv_coreD(5)[OF assms(1)]])
  then show thesis by (auto simp: is_paused_def intro: that split: option.splits)
qed

text \<open>(C4) A session registered on a breakpoint is never left behind: its row is paused, and
  whatever takes the row out of the paused state (drop, expiry, deletion, eviction, wipe, reset)
  sends the session the result that operation stands for.\<close>

theorem waiter_is_always_answered:
  assumes "reachable s" and "w \<in> set (pausedOf (s_mem s) x)"
  shows "is_paused (s_mem s) x
    \<and> map_of (m_chans (fst (Drop x (s_mem s)))) w = Some (emptyResult\<lparr>pr_err := Some ErrDropped\<rparr>)
    \<and> map_of (m_chans (fst (ExpireBreakpoint now x (s_mem s)))) w
        = Some (emptyResult\<lparr>pr_err := Some ErrBreakpointTimeout\<rparr>)
    \<and> map_of (m_chans (removeLocked io x ev (s_mem s))) w = Some (emptyResult\<lparr>pr_err := Some ErrNotFound\<rparr>)
    \<and> map_of (m_chans (fst (Delete io x (s_mem s)))) w = Some (emptyResult\<lparr>pr_err := Some ErrNotFound\<rparr>)
    \<and> map_of (m_chans (Wipe io (s_mem s))) w = Some (emptyResult\<lparr>pr_err := Some ErrStaleEpoch\<rparr>)"
proof -
  let ?m = "s_mem s"
  note core = reachable_core[OF assms(1)]
  obtain r where r: "map_of (m_byID ?m) x = Some r" "fl_State (rec_flow r) = FlowStatePaused"
    using core assms(2) by (rule waiter_row)
  have p: "pausedOf (bumpGeneration (setRecord x q ?m)) x = pausedOf ?m x" for q
    by (simp add: pausedOf_def)
  have "w \<in> set (waitersOf ?m)" using pausedOf_waiters[of ?m x] assms(2) by blast
  moreover from this have "map_of (m_chans ?m) w = None"
    using inv_coreD(5)[OF core] by (auto simp: wf_paused_def map_of_eq_None_keys)
  ultimately have "map_of (m_chans (Wipe io ?m)) w = Some (emptyResult\<lparr>pr_err := Some ErrStaleEpoch\<rparr>)"
    by (simp add: Wipe_def deliver_waiter)
  then show ?thesis
    using r finish_answers[OF core assms(2)]
    by (simp add: is_paused_def Drop_def ExpireBreakpoint_def Delete_def p removeLocked_present[OF r(1)])
qed

definition exWaiting :: system where
  "exWaiting = (let s = exInsert ''a'' FlowStatePaused (exStart 2 FullPolicyReject)
     in s\<lparr>s_mem := fst (WaitPaused_begin 7 ''a'' (s_mem s)), s_chans := insert 7 (s_chans s)\<rparr>)"

lemma reachable_exWaiting: "reachable exWaiting"
proof -
  let ?s = "exInsert ''a'' FlowStatePaused (exStart 2 FullPolicyReject)"
  have "reachable ?s" by (intro reachable_exInsert reachable_exStart) simp_all
  moreover have "store_step ?s exWaiting"
    unfolding exWaiting_def Let_def by (rule store_step.wait_paused) (simp add: exInsert_def exStart_def)
  ultimately show ?thesis by (rule reachable.step)
qed

lemma exWaiting_waiter: "7 \<in> set (pausedOf (s_mem exWaiting) ''a'')"
  by code_simp

theorem waiter_is_always_answered_witness:
  "map_of (m_chans (fst (Drop ''a'' (s_mem exWaiting)))) 7 = Some (emptyResult\<lparr>pr_err := Some ErrDropped\<rparr>)"
  using waiter_is_always_answered[OF reachable_exWaiting exWaiting_waiter] by simp

lemma fold_remove_pausedOf:
  "x \<notin> set xs \<Longrightarrow> pausedOf (fold (\<lambda>x. removeLocked io x ev) xs m) x = pausedOf m x"
proof (induction xs arbitrary: m)
  case (Cons y ys)
  have "pausedOf (removeLocked io y ev m) x = pausedOf m x"
    using Cons.prems by (cases "map_of (m_byID m) y")
      (simp_all add: pausedOf_def removeLocked_present map_of_eq_None_keys)
  with Cons show ?case by simp
qed simp

lemma applyPatchLocked_outcome:
  assumes inv: "inv_store m" and r: "map_of (m_byID m) x = Some r"
    and ap: "applyPatchLocked io x r patch m = (m', e)"
  shows "(e \<noteq> None \<and> (\<exists>fs. m' = m\<lparr>m_fs := fs\<rparr>)) \<or> (e = None \<and> pausedOf m' x = pausedOf m x)"
proof (cases "planPatch m r patch")
  case (Inl err)
  with ap have "m' = m" "e \<noteq> None" by (auto simp: applyPatchLocked_def)
  then show ?thesis by (intro disjI1 conjI exI[of _ "m_fs m"]) simp_all
next
  case (Inr vs)
  have "x \<notin> set vs"
    using planPatch_victims(2)[OF Inr] inv inv_store_rec[OF inv r]
    by (auto simp: inv_store_def inv_core_def wf_rows_def wf_rec_def)
  then have "pausedOf (publishPatch io x patch r t n vs sp (m\<lparr>m_fs := fs\<rparr>)) x = pausedOf m x" for t n sp fs
    using fold_remove_pausedOf[of x vs io True "m\<lparr>m_fs := fs\<rparr>"] by (simp add: pausedOf_def)
  then have pub: "pausedOf ((publishPatch io x patch r t n vs sp (m\<lparr>m_fs := fs\<rparr>))\<lparr>m_fs := fs'\<rparr>) x
      = pausedOf m x" for t n sp fs fs'
    by (simp add: pausedOf_def)
  obtain fs1 st where st: "stagePatch io m r patch = (fs1, st)" by (metis surj_pair)
  show ?thesis
  proof (cases st)
    case Inl
    with Inr ap st have "m' = m\<lparr>m_fs := fs1\<rparr>" "e \<noteq> None" by (auto simp: applyPatchLocked_def)
    then show ?thesis by blast
  next
    case r2: (Inr tn)
    with Inr ap st pub show ?thesis
      by (cases tn) (auto simp: applyPatchLocked_def Let_def)
  qed
qed

text \<open>(C3) Resuming a paused flow with a patch is all or nothing. If it fails (the patch is too
  large, the inbox is full, the spill failed), no row has changed and the waiting session is still
  registered. If it succeeds, the row has left the paused state, the caps hold, and the session is
  sent the patch's headers and body.\<close>

theorem resume_all_or_nothing:
  assumes "reachable s" and "w \<in> set (pausedOf (s_mem s) x)"
    and "Resume io x (Some patch) (s_mem s) = (m', e)"
  shows "case e of
      Some _ \<Rightarrow> (\<exists>fs. m' = (s_mem s)\<lparr>m_fs := fs\<rparr>)
    | None \<Rightarrow> \<not> is_paused m' x \<and> occupancyOKLocked m'
        \<and> (\<exists>res. map_of (m_chans m') w = Some res \<and> pr_err res = None
            \<and> (rp_Body patch \<noteq> None \<longrightarrow> rp_Body (pr_patch res) = rp_Body patch)
            \<and> (rp_Headers patch \<noteq> None \<longrightarrow> rp_Headers (pr_patch res) = rp_Headers patch))"
proof -
  let ?m = "s_mem s"
  note core = reachable_core[OF assms(1)] and inv = reachable_inv[OF assms(1)]
  obtain r where r: "map_of (m_byID ?m) x = Some r" "fl_State (rec_flow r) = FlowStatePaused"
    using core assms(2) by (rule waiter_row)
  obtain m1 e1 where ap: "applyPatchLocked io x r patch ?m = (m1, e1)" by (metis surj_pair)
  note out = applyPatchLocked_outcome[OF inv r(1) ap]
  show ?thesis
  proof (cases e1)
    case (Some err)
    with out ap r assms(3) show ?thesis by (auto simp: Resume_def)
  next
    case None
    with ap obtain r1 where r1: "map_of (m_byID m1) x = Some r1"
      using applyPatchLocked_row[OF inv r(1)] by metis
    from None out have w: "w \<in> set (pausedOf m1 x)" using assms(2) by simp
    have inv1: "inv_store m1" using applyPatchLocked_inv[OF inv r(1), of io patch] ap by simp
    then have core1: "inv_core m1" by (simp add: inv_store_def)
    have p: "pausedOf (bumpGeneration (setRecord x q m1)) x = pausedOf m1 x" for q
      by (simp add: pausedOf_def)
    have "occupancyOKLocked m'"
      using Resume_inv[OF inv, of io x "Some patch"] assms(3) by (simp add: inv_store_def)
    with assms(3) r ap None r1 finish_answers[OF core1 w] show ?thesis
      by (auto simp: Resume_def Let_def p is_paused_def finishPausedLocked_byID snapshotPatch_def
          emptyResult_def split: if_splits)
  qed
qed

definition exPatch :: ResumePatch where
  "exPatch = \<lparr>rp_Headers = None, rp_Body = Some [9, 9]\<rparr>"

theorem resume_all_or_nothing_witness:
  "\<exists>res. map_of (m_chans (fst (Resume io_ok ''a'' (Some exPatch) (s_mem exWaiting)))) 7 = Some res
     \<and> rp_Body (pr_patch res) = Some [9, 9]"
proof -
  have "snd (Resume io_ok ''a'' (Some exPatch) (s_mem exWaiting)) = None" by code_simp
  then have "Resume io_ok ''a'' (Some exPatch) (s_mem exWaiting) =
      (fst (Resume io_ok ''a'' (Some exPatch) (s_mem exWaiting)), None)" by (metis prod.collapse)
  from resume_all_or_nothing[OF reachable_exWaiting exWaiting_waiter this]
  show ?thesis by (auto simp: exPatch_def)
qed

end
