(* ===== verification/Store_List.thy ===== *)
theory Store_List
  imports Store_Props
begin

text \<open>
  Reading the inbox: the order of the rows and the pages of \<open>List\<close>. A client that follows
  the cursors from the first page on, over an inbox that does not change, gets every matching flow
  exactly once, in the reverse of the order in which rows would be evicted.
\<close>

subsection \<open>The pages of a listing\<close>

definition matchRow :: "go_env \<Rightarrow> memory \<Rightarrow> FlowFilter \<Rightarrow> string \<Rightarrow> bool" where
  "matchRow u m q x = (case map_of (m_byID m) x of None \<Rightarrow> False | Some r \<Rightarrow> matchFilter u (rec_flow r) q)"

lemma listLoop_passed:
  "set xs \<subseteq> keys (m_byID m) \<Longrightarrow> length acc \<le> limit \<Longrightarrow> 0 < limit \<Longrightarrow> (acc \<noteq> [] \<longrightarrow> lastID = last acc) \<Longrightarrow>
   listLoop u m q limit cur True acc lastID xs =
     (acc @ take (limit - length acc) (filter (matchRow u m q) xs),
      if length acc + length (filter (matchRow u m q) xs) > limit
      then last (acc @ take (limit - length acc) (filter (matchRow u m q) xs)) else '''')"
proof (induction xs arbitrary: acc lastID)
  case Nil
  then show ?case by simp
next
  case (Cons x xs)
  from Cons.prems(1) have "x \<in> keys (m_byID m)" by simp
  then obtain r where r: "map_of (m_byID m) x = Some r" unfolding in_keys_iff ..
  show ?case
  proof (cases "matchFilter u (rec_flow r) q")
    case False
    with r Cons show ?thesis by (simp add: matchRow_def)
  next
    case match: True
    show ?thesis
    proof (cases "length acc = limit")
      case True
      with match r Cons.prems show ?thesis by (auto simp: matchRow_def)
    next
      case False
      with Cons.prems(2) have "limit - length acc = Suc (limit - Suc (length acc))" by simp
      with match False r Cons.prems Cons.IH[of "acc @ [x]" x] show ?thesis
        by (simp add: matchRow_def)
    qed
  qed
qed

lemma listLoop_skip:
  "set ys \<subseteq> keys (m_byID m) \<Longrightarrow> c \<in> keys (m_byID m) \<Longrightarrow> c \<notin> set ys \<Longrightarrow> cur_found cur \<Longrightarrow> cur_id cur = c \<Longrightarrow>
   listLoop u m q limit cur False acc lastID (ys @ c # zs) = listLoop u m q limit cur True acc lastID zs"
proof (induction ys)
  case Nil
  then show ?case by (auto simp: in_keys_iff)
next
  case (Cons y ys)
  from Cons.prems(1) have "y \<in> keys (m_byID m)" by simp
  then obtain r where "map_of (m_byID m) y = Some r" unfolding in_keys_iff ..
  with Cons show ?case by auto
qed

definition page :: "go_env \<Rightarrow> memory \<Rightarrow> ListQuery \<Rightarrow> string list \<Rightarrow> string list \<times> string" where
  "page u m q xs =
     (let ms = filter (matchRow u m (lq_Filter q)) xs; l = listLimit (lq_Limit q)
      in (take l ms, if length ms > l then last (take l ms) else ''''))"

lemma listLimit_bounds: "0 < listLimit l" "listLimit l \<le> 200"
  by (auto simp: listLimit_def DefaultListLimit_def MaxListLimit_def Let_def)

lemma List_first:
  assumes "inv_core m"
  shows "List_ids u ut m (q\<lparr>lq_Cursor := ''''\<rparr>) = page u m q (rev (m_order m))"
  using inv_coreD(3)[OF assms] listLimit_bounds(1)
  by (simp add: List_ids_def resolveCursorLocked_def listLoop_passed page_def Let_def)

lemma List_next:
  assumes "inv_core m" and xs: "rev (m_order m) = ys @ c # zs"
  shows "List_ids u ut m (q\<lparr>lq_Cursor := c\<rparr>) = page u m q zs"
proof -
  have all: "set (ys @ c # zs) = keys (m_byID m)"
    using inv_coreD(3)[OF assms(1)] by (metis set_rev xs)
  then have "c \<in> keys (m_byID m)" by auto
  then obtain r where r: "map_of (m_byID m) c = Some r" unfolding in_keys_iff ..
  then have "c \<noteq> ''''" using inv_core_rec[OF assms(1)] by (auto simp: wf_rec_def)
  moreover have "c \<notin> set ys" using inv_coreD(2)[OF assms(1)] xs by (metis distinct_append distinct_rev not_distinct_conv_prefix)
  moreover have "set ys \<subseteq> keys (m_byID m)" "set zs \<subseteq> keys (m_byID m)" using all by auto
  ultimately show ?thesis
    using r \<open>c \<in> keys (m_byID m)\<close> listLimit_bounds(1)
    by (simp add: List_ids_def resolveCursorLocked_def xs listLoop_skip listLoop_passed page_def Let_def)
qed

text \<open>A client that follows the cursors, with the pages it gets: \<open>None\<close> when the fuel runs out.\<close>

fun listPages :: "go_env \<Rightarrow> (string \<Rightarrow> gotime option) \<Rightarrow> memory \<Rightarrow> ListQuery \<Rightarrow> nat \<Rightarrow> string \<Rightarrow> string list list option" where
  "listPages u ut m q 0 cursor = None"
| "listPages u ut m q (Suc fuel) cursor =
     (let (ids, next) = List_ids u ut m (q\<lparr>lq_Cursor := cursor\<rparr>)
      in if next = '''' then Some [ids] else map_option (\<lambda>rest. ids # rest) (listPages u ut m q fuel next))"

text \<open>The pages hold these rows, each but the last is full, none is longer than the limit.\<close>

definition paged :: "nat \<Rightarrow> string list \<Rightarrow> string list list option \<Rightarrow> bool" where
  "paged l rows r \<longleftrightarrow> (\<exists>pages. r = Some pages \<and> pages \<noteq> [] \<and> concat pages = rows \<and> (\<forall>p \<in> set pages. length p \<le> l) \<and> (\<forall>p \<in> set (butlast pages). length p = l))"

lemma paged_last: "length ids \<le> l \<Longrightarrow> paged l ids (Some [ids])"
  by (simp add: paged_def)

lemma paged_Cons: "length ids = l \<Longrightarrow> paged l rows r \<Longrightarrow> paged l (ids @ rows) (map_option (\<lambda>rest. ids # rest) r)"
  by (auto simp: paged_def)

lemma page_split:
  assumes "distinct xs" and "page u m q xs = (ids, next)" and "next \<noteq> ''''"
  obtains ys zs where "xs = ys @ next # zs"
    "ids = filter (matchRow u m (lq_Filter q)) ys @ [next]" "matchRow u m (lq_Filter q) next"
proof -
  let ?P = "matchRow u m (lq_Filter q)" and ?l = "listLimit (lq_Limit q)"
  let ?ms = "filter ?P xs"
  have len: "length ?ms > ?l" and ids: "ids = take ?l ?ms" and nx: "next = last (take ?l ?ms)"
    using assms(2,3) by (auto simp: page_def Let_def split: if_splits)
  from len listLimit_bounds(1)[of "lq_Limit q"] have ne: "take ?l ?ms \<noteq> []" by (cases ?ms) auto
  then have idn: "ids = butlast ids @ [next]" using ids nx by simp
  have "next \<in> set ?ms" using nx ne by (metis in_set_takeD last_in_set)
  then have "next \<in> set xs" and P: "?P next" by auto
  then obtain ys zs where xs: "xs = ys @ next # zs" by (auto simp: in_set_conv_decomp)
  then have ms: "?ms = filter ?P ys @ next # filter ?P zs" using P by simp
  have "distinct ?ms" using assms(1) by simp
  then have "next \<notin> set (filter ?P ys)" "next \<notin> set (filter ?P zs)"
    unfolding ms by simp_all
  moreover have "?ms = butlast ids @ next # drop ?l ?ms"
    by (metis append.assoc append_Cons append_Nil append_take_drop_id idn ids)
  then have "filter ?P ys @ next # filter ?P zs = butlast ids @ next # drop ?l ?ms"
    by (simp only: ms)
  ultimately have "butlast ids = filter ?P ys" by (metis append_Cons_eq_iff)
  with idn xs P show thesis by (intro that) simp_all
qed

lemma empty_not_key: "inv_core m \<Longrightarrow> '''' \<notin> keys (m_byID m)"
  by (metis in_keys_iff inv_core_rec wf_rec_def)

lemma page_last:
  assumes "page u m q xs = (ids, next)" and "next = ''''" and "'''' \<notin> set xs"
  shows "ids = filter (matchRow u m (lq_Filter q)) xs"
proof -
  let ?ms = "filter (matchRow u m (lq_Filter q)) xs" and ?l = "listLimit (lq_Limit q)"
  have "last (take ?l ?ms) \<noteq> ''''" if "length ?ms > ?l"
  proof -
    have "take ?l ?ms \<noteq> []" using that listLimit_bounds(1)[of "lq_Limit q"] by (cases ?ms) auto
    then have "last (take ?l ?ms) \<in> set ?ms" by (meson in_set_takeD last_in_set)
    with assms(3) show ?thesis by auto
  qed
  with assms(1,2) show ?thesis by (auto simp: page_def Let_def split: if_splits)
qed

lemma page_length:
  assumes "page u m q xs = (ids, next)"
  shows "length ids \<le> listLimit (lq_Limit q)" and "next \<noteq> '''' \<Longrightarrow> length ids = listLimit (lq_Limit q)"
  using assms by (auto simp: page_def Let_def split: if_splits)

text \<open>From any point of the list on, given that the page there is the page of what follows.\<close>

lemma paged_from:
  assumes "distinct xs" and "'''' \<notin> set xs" and "List_ids u ut m (q\<lparr>lq_Cursor := c\<rparr>) = page u m q xs"
    and "\<And>as nx bs. xs = as @ nx # bs \<Longrightarrow> paged (listLimit (lq_Limit q)) (filter (matchRow u m (lq_Filter q)) bs) (listPages u ut m q fuel nx)"
  shows "paged (listLimit (lq_Limit q)) (filter (matchRow u m (lq_Filter q)) xs) (listPages u ut m q (Suc fuel) c)"
proof -
  obtain ids nx where pg: "page u m q xs = (ids, nx)" by (metis surj_pair)
  show ?thesis
  proof (cases "nx = ''''")
    case True
    from page_last[OF pg True assms(2)] True paged_last[OF page_length(1)[OF pg]] assms(3) pg show ?thesis by simp
  next
    case False
    with assms(1) pg obtain as bs where zs: "xs = as @ nx # bs" "ids = filter (matchRow u m (lq_Filter q)) as @ [nx]" "matchRow u m (lq_Filter q) nx"
      by (rule page_split)
    from paged_Cons[OF page_length(2)[OF pg False] assms(4)[OF zs(1)]] False assms(3) pg zs show ?thesis by simp
  qed
qed

lemma listPages_from:
  "inv_core m \<Longrightarrow> rev (m_order m) = ys @ c # zs \<Longrightarrow> length zs < fuel \<Longrightarrow>
   paged (listLimit (lq_Limit q)) (filter (matchRow u m (lq_Filter q)) zs) (listPages u ut m q fuel c)"
proof (induction fuel arbitrary: ys c zs)
  case 0
  then show ?case by simp
next
  case (Suc fuel)
  have "'''' \<notin> set zs"
    using Suc.prems(2) empty_not_key[OF Suc.prems(1)] inv_coreD(3)[OF Suc.prems(1)]
    by (metis Un_iff list.set_intros(2) set_append set_rev)
  moreover have "distinct zs" using inv_coreD(2)[OF Suc.prems(1)] Suc.prems(2) by (metis distinct.simps(2) distinct_append distinct_rev)
  ultimately show ?case using List_next[OF Suc.prems(1,2)]
    by (intro paged_from) (use Suc.prems in \<open>auto intro!: Suc.IH[of "ys @ c # as" for as]\<close>)
qed

text \<open>(C30) Following the cursors of \<open>List\<close> from the first page on, over an inbox that does not change meanwhile, ends, and
  the pages together hold every row the filter matches exactly once, in the reverse of the order in which
  rows would be evicted. Every page has at most as many rows as the limit of the query allows, never more than 200, and every page
  but the last has exactly that many.\<close>

theorem pagination_complete:
  assumes "reachable s" and "length (m_order (s_mem s)) < fuel"
  shows "\<exists>pages. listPages u ut (s_mem s) q fuel '''' = Some pages
     \<and> concat pages = filter (matchRow u (s_mem s) (lq_Filter q)) (rev (m_order (s_mem s))) \<and> distinct (concat pages)
     \<and> set (m_order (s_mem s)) = keys (m_byID (s_mem s))
     \<and> (\<forall>p \<in> set pages. length p \<le> listLimit (lq_Limit q)) \<and> listLimit (lq_Limit q) \<le> 200
     \<and> (\<forall>p \<in> set (butlast pages). length p = listLimit (lq_Limit q))"
proof -
  let ?m = "s_mem s"
  note core = reachable_core[OF assms(1)]
  have d: "distinct (rev (m_order ?m))" using inv_coreD(2)[OF core] by simp
  have e: "'''' \<notin> set (rev (m_order ?m))" using empty_not_key[OF core] inv_coreD(3)[OF core] by simp
  obtain fuel' where fuel: "fuel = Suc fuel'" using assms(2) by (cases fuel) auto
  have "paged (listLimit (lq_Limit q)) (filter (matchRow u ?m (lq_Filter q)) bs) (listPages u ut ?m q fuel' nx)" if "rev (m_order ?m) = as @ nx # bs" for as nx bs
  proof -
    have "length bs < fuel'" using assms(2) fuel arg_cong[OF that, of length] by simp
    with core that show ?thesis by (rule listPages_from)
  qed
  with d e List_first[OF core] have "paged (listLimit (lq_Limit q)) (filter (matchRow u ?m (lq_Filter q)) (rev (m_order ?m))) (listPages u ut ?m q fuel '''')"
    unfolding fuel by (rule paged_from)
  then obtain pages where "listPages u ut ?m q fuel '''' = Some pages" "concat pages = filter (matchRow u ?m (lq_Filter q)) (rev (m_order ?m))"
    "\<forall>p \<in> set pages. length p \<le> listLimit (lq_Limit q)" "\<forall>p \<in> set (butlast pages). length p = listLimit (lq_Limit q)" by (auto simp: paged_def)
  moreover have "distinct (filter (matchRow u ?m (lq_Filter q)) (rev (m_order ?m)))" using d by (rule distinct_filter)
  ultimately show ?thesis using listLimit_bounds(2) inv_coreD(3)[OF core] by simp
qed

definition exQuery :: ListQuery where
  "exQuery = \<lparr>lq_Filter = emptyFilter, lq_Cursor = '''', lq_Limit = 1\<rparr>"

theorem pagination_complete_witness:
  "\<exists>pages. listPages ascii_env (\<lambda>_. None)
     (s_mem (exInsert ''b'' FlowStateOpen (exInsert ''a'' FlowStateOpen (exStart 2 FullPolicyReject))))
     exQuery 3 '''' = Some pages \<and> concat pages = [''b'', ''a'']"
proof -
  let ?s = "exInsert ''b'' FlowStateOpen (exInsert ''a'' FlowStateOpen (exStart 2 FullPolicyReject))"
  have r: "reachable ?s" by (intro reachable_exInsert reachable_exStart) simp_all
  have "length (m_order (s_mem ?s)) < 3"
    "filter (matchRow ascii_env (s_mem ?s) (lq_Filter exQuery)) (rev (m_order (s_mem ?s))) = [''b'', ''a'']"
    by code_simp+
  then show ?thesis using pagination_complete[OF r] by metis
qed

subsection \<open>The order of eviction\<close>

text \<open>Row \<open>x\<close> is evicted no later than row \<open>y\<close>: by time, then by identifier.\<close>

definition evictsBefore :: "memory \<Rightarrow> string \<Rightarrow> string \<Rightarrow> bool" where
  "evictsBefore m x y =
     (case map_of (m_byID m) x of None \<Rightarrow> False
      | Some r \<Rightarrow> (case map_of (m_byID m) y of None \<Rightarrow> False
        | Some q \<Rightarrow> EvictTime (rec_flow r) < EvictTime (rec_flow q)
            \<or> (EvictTime (rec_flow r) = EvictTime (rec_flow q) \<and> x \<le> y)))"

definition oldestFirst :: "memory \<Rightarrow> bool" where
  "oldestFirst m \<longleftrightarrow> sorted_wrt (evictsBefore m) (m_order m)"

lemma evictsBefore_trans: "evictsBefore m x y \<Longrightarrow> evictsBefore m y z \<Longrightarrow> evictsBefore m x z"
  by (auto simp: evictsBefore_def split: option.splits)

lemma evictsBefore_cong:
  "map_of (m_byID m') x = map_of (m_byID m) x \<Longrightarrow> map_of (m_byID m') y = map_of (m_byID m) y \<Longrightarrow>
   evictsBefore m' x y = evictsBefore m x y"
  unfolding evictsBefore_def by (simp only:)

lemma sorted_evictsBefore_cong:
  assumes "sorted_wrt (evictsBefore m) xs"
    and "\<And>x. x \<in> set xs \<Longrightarrow> map_of (m_byID m') x = map_of (m_byID m) x"
  shows "sorted_wrt (evictsBefore m') xs"
  using assms(1) by (rule sorted_wrt_mono_rel[rotated]) (simp add: evictsBefore_cong[OF assms(2) assms(2)])

lemma orderInsert_sorted:
  assumes "sorted_wrt (evictsBefore m) ys" and "set ys \<subseteq> keys (m_byID m)"
    and x: "map_of (m_byID m) x = Some r" "EvictTime (rec_flow r) = at"
  shows "sorted_wrt (evictsBefore m) (orderInsert m x at ys)"
  using assms(1,2)
proof (induction ys)
  case Nil
  then show ?case by simp
next
  case (Cons y ys)
  from Cons.prems(2) have "y \<in> keys (m_byID m)" by simp
  then obtain q where q: "map_of (m_byID m) y = Some q" unfolding in_keys_iff ..
  show ?case
  proof (cases "at < EvictTime (rec_flow q) \<or> (at = EvictTime (rec_flow q) \<and> x < y)")
    case True
    then have "evictsBefore m x y" using q x by (auto simp: evictsBefore_def)
    with Cons.prems(1) have "\<forall>z \<in> set (y # ys). evictsBefore m x z"
      by (auto intro: evictsBefore_trans)
    with True q Cons.prems(1) show ?thesis by (auto simp: Let_def)
  next
    case False
    then have "evictsBefore m y x" using q x by (auto simp: evictsBefore_def)
    with False q Cons show ?thesis by (auto simp: Let_def)
  qed
qed

lemma sorted_wrt_drop: "sorted_wrt P xs \<Longrightarrow> sorted_wrt P (drop k xs)"
  by (metis append_take_drop_id sorted_wrt_append)

lemma oldestFirst_frame:
  assumes "oldestFirst m" and "m_order m' = drop k (m_order m)"
    and "\<And>x. x \<in> set (m_order m') \<Longrightarrow> map_of (m_byID m') x = map_of (m_byID m) x"
  shows "oldestFirst m'"
proof -
  have "sorted_wrt (evictsBefore m) (m_order m')"
    using assms(1,2) by (simp add: oldestFirst_def sorted_wrt_drop)
  then show ?thesis
    unfolding oldestFirst_def using assms(3) by (rule sorted_evictsBefore_cong)
qed

lemma evictedFits_oldestFirst:
  assumes "inv_core m" and "oldestFirst m"
  shows "oldestFirst (evictedFits io c m)"
proof -
  from fits_loop.spec_minimal[OF assms(1) refl, of io c] obtain k where
    k: "m_order (evictedFits io c m) = drop k (m_order m)" unfolding evictedFits_def by auto
  have rows: "map_of (m_byID (evictedFits io c m)) x = map_of (m_byID m) x"
    if "x \<in> set (m_order (evictedFits io c m))" for x
  proof -
    from that have "x \<in> keys (m_byID (evictedFits io c m))"
      using inv_coreD(3)[OF evictedFits_core[OF assms(1)]] by simp
    then obtain r where "map_of (m_byID (evictedFits io c m)) x = Some r" unfolding in_keys_iff ..
    then show ?thesis using evict_spec_rows unfolding evictedFits_def by metis
  qed
  show ?thesis by (rule oldestFirst_frame[OF assms(2) k rows])
qed

lemma EvictTime_spilled:
  "EvictTime (rec_flow (spilledReq d r)) = EvictTime (rec_flow r)"
  "EvictTime (rec_flow (spilledResp d r)) = EvictTime (rec_flow r)"
  "EvictTime (rec_flow (spilledWS d r)) = EvictTime (rec_flow r)"
  by (simp_all add: spilledReq_def spilledResp_def spilledWS_def EvictTime_def)

text \<open>Inserting keeps the eviction order sorted by time and then by identifier, so that the
  front of it is the oldest row: if it was sorted, it is sorted after any pending insert.\<close>

theorem insert_keeps_oldest_first:
  assumes "reachable s" and "p \<in> set (s_pending s)" and "oldestFirst (s_mem s)"
    and "Insert_locked io (pe_epoch p) (pe_id p) (pe_flow p) (pe_candidate p) (pe_job p) (s_mem s)
           = Some (m', res)"
  shows "oldestFirst m'"
  using reachable_core[OF assms(1)]
proof (cases rule: Insert_locked_cases[where io = io and ep = "pe_epoch p" and x = "pe_id p"
      and f = "pe_flow p" and c = "pe_candidate p" and job = "pe_job p"])
  case (Error e fs)
  with assms(3,4) have "m' = (s_mem s)\<lparr>m_fs := fs\<rparr>" by simp
  with assms(3) show ?thesis by (intro oldestFirst_frame[OF assms(3), of _ 0]) simp_all
next
  case (Inserted fs j r)
  let ?x = "pe_id p" and ?m = "evictedFits io (pe_candidate p) ((s_mem s)\<lparr>m_fs := fs\<rparr>)"
  let ?n = "?m\<lparr>m_byID := AList.update ?x r (m_byID ?m)\<rparr>"
  have core: "inv_core ((s_mem s)\<lparr>m_fs := fs\<rparr>)" using reachable_core[OF assms(1)] by simp
  have m': "m' = Insert_index ?x (pe_flow p) r (pe_candidate p) ?m" using Inserted(5) assms(4) by simp
  have srt: "oldestFirst ?m"
    by (rule evictedFits_oldestFirst[OF core]) (rule oldestFirst_frame[OF assms(3), of _ 0], simp_all)
  have xm: "?x \<notin> keys (m_byID ?m)"
    using evictedFits_keys[of io "pe_candidate p" "(s_mem s)\<lparr>m_fs := fs\<rparr>"]
      reachable_insertable[OF assms(1,2)] by (auto simp: insertable_def)
  have ord: "set (m_order ?m) = keys (m_byID ?m)" by (rule inv_coreD(3)[OF evictedFits_core[OF core]])
  have "sorted_wrt (evictsBefore ?n) (m_order ?m)"
    using srt unfolding oldestFirst_def
  proof (rule sorted_evictsBefore_cong)
    fix y assume "y \<in> set (m_order ?m)"
    then have "y \<noteq> ?x" using xm unfolding ord by metis
    then show "map_of (m_byID ?n) y = map_of (m_byID ?m) y" by simp
  qed
  moreover have "EvictTime (rec_flow r) = EvictTime (pe_flow p)"
    by (rule commitSpill_record[OF Inserted(3)])
      (simp_all add: newRecord_def EvictTime_spilled)
  ultimately have "sorted_wrt (evictsBefore ?n) (orderInsert ?n ?x (EvictTime (pe_flow p)) (m_order ?m))"
    by (intro orderInsert_sorted[where r = r]) (auto simp: ord)
  then have "sorted_wrt (evictsBefore ?n) (m_order m')" by (simp add: m' Insert_index_order)
  then show ?thesis unfolding oldestFirst_def
    by (rule sorted_evictsBefore_cong) (simp add: m')
qed

theorem insert_keeps_oldest_first_witness:
  "oldestFirst (exCommit (exPending ''b'' FlowStateOpen)
     (s_mem (exInsert ''a'' FlowStateOpen (exStart 2 FullPolicyReject))))"
proof -
  let ?s = "exPrepare ''b'' FlowStateOpen (exInsert ''a'' FlowStateOpen (exStart 2 FullPolicyReject))"
  let ?p = "exPending ''b'' FlowStateOpen"
  let ?ins = "Insert_locked io_ok (pe_epoch ?p) (pe_id ?p) (pe_flow ?p) (pe_candidate ?p) (pe_job ?p) (s_mem ?s)"
  have r: "reachable ?s"
    by (intro reachable_exPrepare reachable_exInsert reachable_exStart) simp_all
  have "?p \<in> set (s_pending ?s)" "oldestFirst (s_mem ?s)" by (simp add: exPrepare_def, code_simp)
  moreover have "?ins \<noteq> None" by code_simp
  then have "?ins = Some (exCommit ?p (s_mem ?s), snd (the ?ins))" by (auto simp: exCommit_def)
  ultimately have "oldestFirst (exCommit ?p (s_mem ?s))" by (rule insert_keeps_oldest_first[OF r])
  then show ?thesis by (simp add: exPrepare_def)
qed

text \<open>An expired breakpoint stamps its row with the time of expiry and leaves the row where it was:
  the order is then no longer oldest first, and the row just completed is the next to be evicted.\<close>

lemma expire_breaks_order:
  "let m = s_mem (exInsert ''b'' FlowStateOpen (exInsert ''a'' FlowStatePaused (exStart 2 FullPolicyReject)));
       m' = fst (ExpireBreakpoint 99 ''a'' m)
   in oldestFirst m \<and> \<not> oldestFirst m' \<and> hd (m_order m') = ''a''"
  by code_simp

end
