(* ===== verification/Rules_Engine.thy ===== *)
theory Rules_Engine
  imports Model_Flow
begin

text \<open>
  The rule engine (\<open>internal/rules/engine.go\<close>, \<open>match.go\<close> and the rule types of
  \<open>internal/model/spec.go\<close>): a first-match evaluator over an ordered list of items, and the
  test that tells the WebSocket pump whether a frame's payload has to be read before the rules can
  be evaluated. A nil engine is \<open>None\<close>. Go's maps of header values are association lists.
\<close>

subsection \<open>Specification types\<close>

record RuleMatchSpec =
  rm_Host :: string
  rm_PathPrefix :: string
  rm_PathExact :: string
  rm_Method :: string
  rm_HeaderName :: string
  rm_HeaderContains :: string
  rm_Protocol :: string
  rm_Opcode :: string
  rm_Direction :: string
  rm_PayloadContains :: string

record RuleHeadersSpec =
  rh_Set :: "(string, string) gomap"
  rh_Remove :: "string list"

record RuleActionSpec =
  ra_Type :: string
  ra_Delay :: duration
  ra_BytesPerSecond :: int
  ra_Status :: int
  ra_Headers :: RuleHeadersSpec
  ra_BodyReplace :: string
  ra_BreakpointTimeout :: duration
  ra_SilentClose :: string
  ra_HangTimeout :: duration
  ra_HangClose :: string
  ra_RedirectLocation :: string
  ra_RedirectStatus :: int

record RuleSpec =
  rs_ID :: string
  rs_Enabled :: bool
  rs_Phase :: string
  rs_Match :: RuleMatchSpec
  rs_Action :: RuleActionSpec

record RulesSpec =
  rules_Enabled :: bool
  rules_Items :: "RuleSpec list"

record Engine =
  en_enabled :: bool
  en_items :: "RuleSpec list"

record Hit =
  hit_ID :: string
  hit_Phase :: string
  hit_Action :: RuleActionSpec

record Request =
  rq_Host :: string
  rq_Path :: string
  rq_Method :: string
  rq_Headers :: "header list"
  rq_Protocol :: string
  rq_Opcode :: string
  rq_Direction :: string
  rq_Payload :: "byte slice"

subsection \<open>Matching (match.go)\<close>

fun headerValue :: "go_env \<Rightarrow> header list \<Rightarrow> string \<Rightarrow> string" where
  "headerValue u [] name = ''''"
| "headerValue u (h # hs) name =
     (if EqualFold u (hdr_Name h) name then hdr_Value h else headerValue u hs name)"

definition pathComponent :: "string \<Rightarrow> string" where
  "pathComponent p =
     (let q = (case IndexAny p ''?#'' of Some i \<Rightarrow> take i p | None \<Rightarrow> p)
      in if q = '''' then ''/'' else q)"

definition digitByte :: "char \<Rightarrow> bool" where
  "digitByte c \<longleftrightarrow> 48 \<le> code c \<and> code c \<le> 57"

definition isAllDigits :: "string \<Rightarrow> bool" where
  "isAllDigits s = (if s = '''' then False else list_all digitByte s)"

definition authorityHost :: "go_env \<Rightarrow> string \<Rightarrow> string" where
  "authorityHost u auth0 =
     (let auth = TrimSpace u auth0
      in if auth = '''' then ''''
         else if HasPrefix auth ''['' then
           (case IndexByte auth (CHR '']'') of
              Some i \<Rightarrow> if i > 0 then drop 1 (take i auth) else auth
            | None \<Rightarrow> auth)
         else case LastIndexByte auth (CHR '':'') of
           Some i \<Rightarrow> (let port = drop (i + 1) auth
                     in if port \<noteq> '''' \<and> isAllDigits port then take i auth else auth)
         | None \<Rightarrow> auth)"

definition matchHost :: "go_env \<Rightarrow> string \<Rightarrow> string \<Rightarrow> bool" where
  "matchHost u pattern0 host0 =
     (let pattern = ToLower u (TrimSpace u pattern0)
      in if pattern = '''' then True
         else let host = ToLower u (TrimSpace u host0)
         in if host = '''' then False
            else if HasPrefix pattern ''*.'' then
              (let suf = drop 1 pattern
               in HasSuffix host suf \<and> host \<noteq> TrimPrefix suf ''.'')
            else pattern = host)"

fun matchHeaderLoop :: "go_env \<Rightarrow> RuleMatchSpec \<Rightarrow> bool \<Rightarrow> header list \<Rightarrow> bool" where
  "matchHeaderLoop u m found [] = (found \<and> rm_HeaderContains m = '''')"
| "matchHeaderLoop u m found (h # hs) =
     (if \<not> EqualFold u (hdr_Name h) (rm_HeaderName m) then matchHeaderLoop u m found hs
      else if rm_HeaderContains m = '''' \<or> Contains (hdr_Value h) (rm_HeaderContains m) then True
      else matchHeaderLoop u m True hs)"

definition matchHeader :: "go_env \<Rightarrow> RuleMatchSpec \<Rightarrow> header list \<Rightarrow> bool" where
  "matchHeader u m hs = (if rm_HeaderName m = '''' then True else matchHeaderLoop u m False hs)"

definition matchPayloadContains :: "RuleMatchSpec \<Rightarrow> Request \<Rightarrow> bool" where
  "matchPayloadContains m req =
     (if rm_PayloadContains m = '''' then True
      else case rq_Payload req of None \<Rightarrow> False
        | Some p \<Rightarrow> Contains p (bytes_of (rm_PayloadContains m)))"

definition matchANDExceptPayload :: "go_env \<Rightarrow> RuleMatchSpec \<Rightarrow> Request \<Rightarrow> bool" where
  "matchANDExceptPayload u m req =
     (let auth = headerValue u (rq_Headers req) '':authority'';
          host = (if auth \<noteq> '''' then authorityHost u auth else rq_Host req)
      in if \<not> matchHost u (rm_Host m) host then False
      else let p = headerValue u (rq_Headers req) '':path'';
               path0 = (if p \<noteq> '''' then pathComponent p else rq_Path req);
               path = (if path0 = '''' then ''/'' else path0)
      in if rm_PathExact m \<noteq> '''' \<and> path \<noteq> rm_PathExact m then False
      else if rm_PathPrefix m \<noteq> '''' \<and> \<not> HasPrefix path (rm_PathPrefix m) then False
      else let meth = headerValue u (rq_Headers req) '':method'';
               method = (if meth \<noteq> '''' then meth else rq_Method req)
      in if rm_Method m \<noteq> '''' \<and> \<not> EqualFold u (rm_Method m) method then False
      else if rm_Protocol m \<noteq> '''' \<and> \<not> EqualFold u (rm_Protocol m) (rq_Protocol req) then False
      else if \<not> matchHeader u m (rq_Headers req) then False
      else if rm_Opcode m \<noteq> '''' \<and> rm_Opcode m \<noteq> rq_Opcode req then False
      else if rm_Direction m \<noteq> '''' \<and> rm_Direction m \<noteq> rq_Direction req then False
      else True)"

definition matchAND :: "go_env \<Rightarrow> RuleMatchSpec \<Rightarrow> Request \<Rightarrow> bool" where
  "matchAND u m req =
     (if \<not> matchANDExceptPayload u m req then False else matchPayloadContains m req)"

subsection \<open>The engine (engine.go)\<close>

text \<open>\<open>append([]string(nil), xs...)\<close> and \<open>maps.Clone\<close> copy the values.\<close>

definition cloneItem :: "RuleSpec \<Rightarrow> RuleSpec" where
  "cloneItem it = it"

definition newEngine :: "RulesSpec \<Rightarrow> Engine" where
  "newEngine spec =
     (if \<not> rules_Enabled spec \<or> length (rules_Items spec) = 0
      then \<lparr>en_enabled = rules_Enabled spec, en_items = []\<rparr>
      else \<lparr>en_enabled = rules_Enabled spec, en_items = map cloneItem (rules_Items spec)\<rparr>)"

definition Enabled :: "Engine option \<Rightarrow> bool" where
  "Enabled e = (case e of None \<Rightarrow> False | Some e \<Rightarrow> en_enabled e)"

fun matchItems :: "go_env \<Rightarrow> string \<Rightarrow> Request \<Rightarrow> RuleSpec list \<Rightarrow> Hit option" where
  "matchItems u phase req [] = None"
| "matchItems u phase req (item # items) =
     (if \<not> rs_Enabled item then matchItems u phase req items
      else if rs_Phase item \<noteq> '''' \<and> rs_Phase item \<noteq> phase then matchItems u phase req items
      else if \<not> matchAND u (rs_Match item) req then matchItems u phase req items
      else Some \<lparr>hit_ID = rs_ID item, hit_Phase = rs_Phase item, hit_Action = rs_Action item\<rparr>)"

definition Match :: "go_env \<Rightarrow> Engine option \<Rightarrow> string \<Rightarrow> Request \<Rightarrow> Hit option" where
  "Match u e phase req =
     (case e of None \<Rightarrow> None
      | Some e \<Rightarrow> if \<not> en_enabled e then None else matchItems u phase req (en_items e))"

definition HasEnabledWebSocket :: "Engine option \<Rightarrow> bool" where
  "HasEnabledWebSocket e =
     (case e of None \<Rightarrow> False
      | Some e \<Rightarrow> if \<not> en_enabled e then False
          else list_ex (\<lambda>it. rs_Enabled it \<and> rs_Phase it = RulePhaseWebSocket) (en_items e))"

fun needsItems :: "go_env \<Rightarrow> Request \<Rightarrow> 64 word \<Rightarrow> int \<Rightarrow> RuleSpec list \<Rightarrow> bool" where
  "needsItems u req declared visCap [] = False"
| "needsItems u req declared visCap (item # items) =
     (if \<not> rs_Enabled item \<or> rs_Phase item \<noteq> RulePhaseWebSocket
      then needsItems u req declared visCap items
      else if \<not> matchANDExceptPayload u (rs_Match item) req
      then needsItems u req declared visCap items
      else if rm_PayloadContains (rs_Match item) = '''' then False
      else if visCap < 0 \<or> declared > word_of_int visCap
      then needsItems u req declared visCap items
      else True)"

definition NeedsFramePayload :: "go_env \<Rightarrow> Engine option \<Rightarrow> Request \<Rightarrow> 64 word \<Rightarrow> int \<Rightarrow> bool" where
  "NeedsFramePayload u e req declared visCap =
     (case e of None \<Rightarrow> False
      | Some e \<Rightarrow> if \<not> en_enabled e then False
                 else needsItems u req declared visCap (en_items e))"

subsection \<open>First match\<close>

definition applies :: "go_env \<Rightarrow> string \<Rightarrow> Request \<Rightarrow> RuleSpec \<Rightarrow> bool" where
  "applies u phase req it \<longleftrightarrow>
     rs_Enabled it \<and> rs_Phase it \<in> {'''', phase} \<and> matchAND u (rs_Match it) req"

definition hitOf :: "RuleSpec \<Rightarrow> Hit" where
  "hitOf it = \<lparr>hit_ID = rs_ID it, hit_Phase = rs_Phase it, hit_Action = rs_Action it\<rparr>"

lemma matchItems_find:
  "matchItems u phase req items = map_option hitOf (find (applies u phase req) items)"
  by (induction items) (auto simp: applies_def hitOf_def)

lemma cloneItems_id: "map cloneItem items = items"
  by (induction items) (simp_all add: cloneItem_def)

text \<open>The engine built from a specification returns the action of the first enabled item, in
  the specification's order, whose phase and match apply, and nothing when there is no such item
  or when the master switch is off.\<close>

theorem match_is_first_match:
  "(\<not> rules_Enabled spec \<or> (\<forall>it \<in> set (rules_Items spec). \<not> applies u phase req it)
      \<longrightarrow> Match u (Some (newEngine spec)) phase req = None)
   \<and> (\<forall>i < length (rules_Items spec).
        rules_Enabled spec \<and> applies u phase req (rules_Items spec ! i)
        \<and> (\<forall>j < i. \<not> applies u phase req (rules_Items spec ! j))
        \<longrightarrow> Match u (Some (newEngine spec)) phase req = Some (hitOf (rules_Items spec ! i)))"
proof -
  have m: "Match u (Some (newEngine spec)) phase req =
      (if rules_Enabled spec then map_option hitOf (find (applies u phase req) (rules_Items spec)) else None)"
    by (auto simp: Match_def newEngine_def cloneItems_id matchItems_find)
  have "find (applies u phase req) (rules_Items spec) = Some (rules_Items spec ! i)"
    if "i < length (rules_Items spec)" "applies u phase req (rules_Items spec ! i)"
      "\<forall>j < i. \<not> applies u phase req (rules_Items spec ! j)" for i
    using that unfolding find_Some_iff by blast
  then show ?thesis unfolding m by (auto simp: find_None_iff)
qed

subsection \<open>When a payload need not be read\<close>

lemma exceptPayload_payload [simp]:
  "matchANDExceptPayload u m (req\<lparr>rq_Payload := p\<rparr>) = matchANDExceptPayload u m req"
proof -
  let ?r = "req\<lparr>rq_Payload := p\<rparr>"
  have "rq_Host ?r = rq_Host req" "rq_Path ?r = rq_Path req" "rq_Method ?r = rq_Method req"
    "rq_Headers ?r = rq_Headers req" "rq_Protocol ?r = rq_Protocol req" "rq_Opcode ?r = rq_Opcode req"
    "rq_Direction ?r = rq_Direction req" by simp_all
  then show ?thesis unfolding matchANDExceptPayload_def by (simp only:)
qed

lemma needsItems_sound:
  assumes "\<not> needsItems u req declared visCap items" and "0 \<le> visCap" and "declared \<le> word_of_int visCap"
    and "\<And>it. it \<in> set items \<Longrightarrow> rs_Phase it \<noteq> ''''"
  shows "matchItems u RulePhaseWebSocket (req\<lparr>rq_Payload := p\<rparr>) items =
         matchItems u RulePhaseWebSocket (req\<lparr>rq_Payload := None\<rparr>) items"
  using assms(1,4)
proof (induction items)
  case (Cons it items)
  show ?case
  proof (cases "rs_Enabled it \<and> rs_Phase it = RulePhaseWebSocket \<and> matchANDExceptPayload u (rs_Match it) req")
    case False
    with Cons show ?thesis by (auto simp: matchAND_def)
  next
    case True
    with Cons.prems(1) assms(2,3) have "rm_PayloadContains (rs_Match it) = ''''"
      by (auto split: if_splits)
    with True show ?thesis by (simp add: matchAND_def matchPayloadContains_def)
  qed
qed simp

text \<open>The pump may skip reading a frame's payload when \<open>NeedsFramePayload\<close> says so: for a
  frame within the visibility cap, whatever the payload is, the winning rule is the one found
  without it. (Every item names a phase, which validation requires.)\<close>

theorem payload_not_needed:
  assumes "\<not> NeedsFramePayload u (Some e) req declared visCap"
    and "0 \<le> visCap" and "declared \<le> word_of_int visCap"
    and "\<forall>it \<in> set (en_items e). rs_Phase it \<noteq> ''''"
  shows "Match u (Some e) RulePhaseWebSocket (req\<lparr>rq_Payload := Some p\<rparr>) =
         Match u (Some e) RulePhaseWebSocket (req\<lparr>rq_Payload := None\<rparr>)"
  using assms needsItems_sound[of u req declared visCap "en_items e" "Some p"]
  by (auto simp: NeedsFramePayload_def Match_def)

definition exMatch :: "string \<Rightarrow> string \<Rightarrow> RuleMatchSpec" where
  "exMatch op payload = \<lparr>rm_Host = '''', rm_PathPrefix = '''', rm_PathExact = '''', rm_Method = '''',
     rm_HeaderName = '''', rm_HeaderContains = '''', rm_Protocol = '''', rm_Opcode = op,
     rm_Direction = '''', rm_PayloadContains = payload\<rparr>"

definition exAction :: "string \<Rightarrow> RuleActionSpec" where
  "exAction t = \<lparr>ra_Type = t, ra_Delay = 0, ra_BytesPerSecond = 0, ra_Status = 0,
     ra_Headers = \<lparr>rh_Set = [], rh_Remove = []\<rparr>, ra_BodyReplace = '''', ra_BreakpointTimeout = 0,
     ra_SilentClose = '''', ra_HangTimeout = 0, ra_HangClose = '''', ra_RedirectLocation = '''',
     ra_RedirectStatus = 0\<rparr>"

definition exEngine :: Engine where
  "exEngine = \<lparr>en_enabled = True, en_items =
     [\<lparr>rs_ID = ''pings'', rs_Enabled = True, rs_Phase = RulePhaseWebSocket,
       rs_Match = exMatch ''ping'' '''', rs_Action = exAction ''drop''\<rparr>,
      \<lparr>rs_ID = ''secret'', rs_Enabled = True, rs_Phase = RulePhaseWebSocket,
       rs_Match = exMatch '''' ''key='', rs_Action = exAction ''drop''\<rparr>]\<rparr>"

definition exFrame :: "string \<Rightarrow> Request" where
  "exFrame op = \<lparr>rq_Host = ''a.test'', rq_Path = ''/'', rq_Method = ''GET'', rq_Headers = [],
     rq_Protocol = ''websocket'', rq_Opcode = op, rq_Direction = ''client'', rq_Payload = None\<rparr>"

theorem payload_not_needed_witness:
  "Match ascii_env (Some exEngine) RulePhaseWebSocket ((exFrame ''ping'')\<lparr>rq_Payload := Some [1, 2]\<rparr>) =
   Match ascii_env (Some exEngine) RulePhaseWebSocket ((exFrame ''ping'')\<lparr>rq_Payload := None\<rparr>)
   \<and> NeedsFramePayload ascii_env (Some exEngine) (exFrame ''text'') 2 100"
proof -
  have 1: "\<not> NeedsFramePayload ascii_env (Some exEngine) (exFrame ''ping'') 2 100"
    and 2: "NeedsFramePayload ascii_env (Some exEngine) (exFrame ''text'') 2 100"
    and 3: "(2::64 word) \<le> word_of_int 100"
    and 4: "list_all (\<lambda>it. rs_Phase it \<noteq> '''') (en_items exEngine)"
    by code_simp+
  from 2 payload_not_needed[OF 1 _ 3] 4 show ?thesis by (simp add: list_all_iff)
qed

subsection \<open>Host patterns\<close>

definition plainHost :: "string \<Rightarrow> bool" where
  "plainHost s \<longleftrightarrow> isASCII s \<and> s \<noteq> '''' \<and> list_all (\<lambda>c. \<not> asciiSpace c) s"

lemma plainHost_trim: "plainHost s \<Longrightarrow> TrimSpace u s = s"
  by (rule TrimSpace_id) (auto simp: plainHost_def list_all_iff)

lemma lowerByte_nonletter: "lowerByte c = d \<Longrightarrow> code d < 97 \<Longrightarrow> c = d"
  by (auto simp: lowerByte_def upperASCII_def simp flip: code_inject split: if_splits)

lemma HasPrefix_lower: "HasPrefix (map lowerByte d) ''*.'' \<Longrightarrow> HasPrefix d ''*.''"
proof -
  have "code (CHR ''*'') < 97" "code (CHR ''.'') < 97" by (simp_all add: code_def)
  then show "HasPrefix (map lowerByte d) ''*.'' \<Longrightarrow> ?thesis"
    by (cases d; cases "tl d") (auto simp: HasPrefix_def dest: lowerByte_nonletter)
qed

text \<open>On ASCII names without spaces, a pattern \<open>*.d\<close> matches exactly the hosts whose
  lower-case form ends in a dot followed by \<open>d\<close>, so never \<open>d\<close> itself; any other pattern
  matches exactly the hosts equal to it up to case.\<close>

theorem matchHost_plain:
  assumes "plainHost d" and "plainHost h"
  shows "(matchHost u (''*.'' @ d) h \<longleftrightarrow> (\<exists>l. map lowerByte h = l @ ''.'' @ map lowerByte d))
    \<and> \<not> matchHost u (''*.'' @ d) d
    \<and> (HasPrefix d ''*.'' \<or> (matchHost u d h \<longleftrightarrow> map lowerByte d = map lowerByte h))"
proof -
  have lower: "lowerByte (CHR ''*'') = CHR ''*''" "lowerByte (CHR ''.'') = CHR ''.''"
    by (simp_all add: lowerByte_def upperASCII_def code_def)
  have ascii: "isASCII (''*.'' @ d)" "plainHost (''*.'' @ d)"
    using assms(1) by (auto simp: plainHost_def isASCII_def runeSelf_def code_def asciiSpace_def)
  have wild: "matchHost u (''*.'' @ d) x \<longleftrightarrow> (\<exists>l. map lowerByte x = l @ ''.'' @ map lowerByte d)"
    if x: "plainHost x" for x
  proof -
    have "TrimSpace u (''*.'' @ d) = ''*.'' @ d" "TrimSpace u x = x"
      using plainHost_trim ascii(2) x by blast+
    moreover have "map lowerByte x \<noteq> map lowerByte d" if "map lowerByte x = l @ ''.'' @ map lowerByte d" for l
    proof
      assume "map lowerByte x = map lowerByte d"
      with that have "length (map lowerByte d) = length (l @ ''.'' @ map lowerByte d)" by simp
      then show False by simp
    qed
    ultimately show ?thesis
      using x ascii(1) assms(1)
      by (auto simp: matchHost_def Let_def ToLower_ascii plainHost_def lower HasPrefix_def HasSuffix_iff
          suffix_def TrimPrefix_def)
  qed
  moreover have "\<not> matchHost u (''*.'' @ d) d" using wild[OF assms(1)] by auto
  moreover have "matchHost u d h \<longleftrightarrow> map lowerByte d = map lowerByte h" if "\<not> HasPrefix d ''*.''"
    using assms plainHost_trim[of d u] plainHost_trim[of h u] that HasPrefix_lower[of d]
    by (auto simp: matchHost_def Let_def ToLower_ascii plainHost_def)
  ultimately show ?thesis using assms(2) by blast
qed

theorem matchHost_plain_witness:
  "matchHost ascii_env ''*.Example.com'' ''api.example.COM'' \<and> \<not> matchHost ascii_env ''*.Example.com'' ''Example.com''"
proof -
  have p: "plainHost ''Example.com''" "plainHost ''api.example.COM''" by code_simp+
  have "map lowerByte ''api.example.COM'' = ''api'' @ ''.'' @ map lowerByte ''Example.com''" by code_simp
  with matchHost_plain[OF p, of ascii_env] show ?thesis by auto
qed

theorem match_is_first_match_witness:
  "Match ascii_env (Some (newEngine \<lparr>rules_Enabled = True, rules_Items = en_items exEngine\<rparr>))
     RulePhaseWebSocket (exFrame ''ping'') = Some (hitOf (en_items exEngine ! 0))"
proof -
  let ?spec = "\<lparr>rules_Enabled = True, rules_Items = en_items exEngine\<rparr>"
  have "applies ascii_env RulePhaseWebSocket (exFrame ''ping'') (rules_Items ?spec ! 0)"
    "0 < length (rules_Items ?spec)" by code_simp+
  then show ?thesis
    using match_is_first_match[of ?spec ascii_env RulePhaseWebSocket "exFrame ''ping''"] by simp
qed

end
