(* ===== verification/Rules_Action.thy ===== *)
theory Rules_Action
  imports Rules_Engine
begin

text \<open>
  What a matched rule does (\<open>internal/rules/action.go\<close>) and the pacing of a throttled body
  (\<open>limit.go\<close>). The reader below the pacer and the sleep are arguments: a read returns a number
  of bytes and an error, a sleep whether it ran to its end. Durations are nanoseconds.
\<close>

subsection \<open>Actions (action.go)\<close>

definition second :: duration where "second = 1000000000"
definition MaxDelay :: duration where "MaxDelay = 30 * second"
definition MinBytesPerSecond :: int where "MinBytesPerSecond = 256"
definition MaxBytesPerSecond :: int where "MaxBytesPerSecond = 67108864"
definition MinBreakpointTimeout :: duration where "MinBreakpointTimeout = second"
definition MaxBreakpointTimeout :: duration where "MaxBreakpointTimeout = 60 * second"
definition DefaultDropStatus :: int where "DefaultDropStatus = 403"
definition DefaultSyntheticStatus :: int where "DefaultSyntheticStatus = 502"
definition MinHangTimeout :: duration where "MinHangTimeout = second"
definition MaxHangTimeout :: duration where "MaxHangTimeout = 30 * second"
definition RedirectDefaultStatus :: int where "RedirectDefaultStatus = 302"

lemmas limit_consts = second_def MaxDelay_def MinBytesPerSecond_def MaxBytesPerSecond_def
  MinBreakpointTimeout_def MaxBreakpointTimeout_def MinHangTimeout_def MaxHangTimeout_def

definition Mutates :: "Hit option \<Rightarrow> bool" where
  "Mutates hit =
     (case hit of None \<Rightarrow> False
      | Some h \<Rightarrow> ra_Type (hit_Action h) \<in>
          {''body'', ''status'', ''drop'', ''breakpoint'', ''redirect''})"

definition ClampDelay :: "duration \<Rightarrow> duration" where
  "ClampDelay d = (if d \<le> 0 then 0 else if d > MaxDelay then MaxDelay else d)"

definition ClampBytesPerSecond :: "int \<Rightarrow> int" where
  "ClampBytesPerSecond bps =
     (if bps < MinBytesPerSecond then 0
      else if bps > MaxBytesPerSecond then MaxBytesPerSecond else bps)"

definition ClampBreakpointTimeout :: "duration \<Rightarrow> duration \<Rightarrow> duration" where
  "ClampBreakpointTimeout d0 storeMaxWait =
     (let d1 = (if d0 < MinBreakpointTimeout then MinBreakpointTimeout else d0);
          d2 = (if d1 > MaxBreakpointTimeout then MaxBreakpointTimeout else d1)
      in if storeMaxWait > 0 \<and> d2 > storeMaxWait then storeMaxWait else d2)"

definition StatusFor :: "Hit option \<Rightarrow> int" where
  "StatusFor hit =
     (case hit of None \<Rightarrow> DefaultSyntheticStatus
      | Some h \<Rightarrow>
          if ra_Status (hit_Action h) \<ge> 400 \<and> ra_Status (hit_Action h) \<le> 599
          then ra_Status (hit_Action h)
          else if ra_Type (hit_Action h) = ''drop'' then DefaultDropStatus
          else DefaultSyntheticStatus)"

definition ApplyHeaders :: "go_env \<Rightarrow> header list \<Rightarrow> RuleHeadersSpec \<Rightarrow> header list" where
  "ApplyHeaders u hs spec =
     (let removed = map (ToLower u) (rh_Remove spec);
          out = filter (\<lambda>h. ToLower u (hdr_Name h) \<notin> set removed) hs
      in if length (rh_Set spec) = 0 then out
         else let keys = sort (map fst (rh_Set spec));
                  setLower = map (ToLower u) keys;
                  kept = filter (\<lambda>h. ToLower u (hdr_Name h) \<notin> set setLower) out
              in kept @ map (\<lambda>k. \<lparr>hdr_Name = k,
                   hdr_Value = (case map_of (rh_Set spec) k of None \<Rightarrow> '''' | Some v \<Rightarrow> v)\<rparr>) keys)"

definition BodyReplace :: "Hit option \<Rightarrow> byte slice \<times> bool" where
  "BodyReplace hit =
     (case hit of None \<Rightarrow> (None, False)
      | Some h \<Rightarrow>
          let t = ra_Type (hit_Action h); b = ra_BodyReplace (hit_Action h)
          in if t = ''body'' then (Some (bytes_of b), True)
             else if t \<in> {''status'', ''drop'', ''redirect''} then
               (if b = '''' then (None, False) else (Some (bytes_of b), True))
             else (None, False))"

definition SilentClose :: "go_env \<Rightarrow> Hit option \<Rightarrow> string" where
  "SilentClose u hit =
     (case hit of None \<Rightarrow> ''rst''
      | Some h \<Rightarrow>
          let mode = (if ra_Type (hit_Action h) = ''silent'' then TrimSpace u (ra_SilentClose (hit_Action h))
                      else if ra_Type (hit_Action h) = ''hang'' then TrimSpace u (ra_HangClose (hit_Action h))
                      else '''')
          in if mode = ''fin'' then ''fin'' else ''rst'')"

definition HangTimeout :: "Hit option \<Rightarrow> duration" where
  "HangTimeout hit = (case hit of None \<Rightarrow> 0 | Some h \<Rightarrow> ra_HangTimeout (hit_Action h))"

definition ClampHangTimeout :: "duration \<Rightarrow> duration \<Rightarrow> duration" where
  "ClampHangTimeout d0 sessionTimeout =
     (let d1 = (if d0 < MinHangTimeout then MinHangTimeout else d0);
          d2 = (if d1 > MaxHangTimeout then MaxHangTimeout else d1)
      in if sessionTimeout > 0 \<and> d2 > sessionTimeout then sessionTimeout else d2)"

definition RedirectStatus :: "Hit option \<Rightarrow> int" where
  "RedirectStatus hit =
     (case hit of None \<Rightarrow> RedirectDefaultStatus
      | Some h \<Rightarrow> if ra_RedirectStatus (hit_Action h) \<in> {301, 302, 303, 307, 308}
                 then ra_RedirectStatus (hit_Action h) else RedirectDefaultStatus)"

definition RedirectLocation :: "go_env \<Rightarrow> Hit option \<Rightarrow> string" where
  "RedirectLocation u hit =
     (case hit of None \<Rightarrow> '''' | Some h \<Rightarrow> TrimSpace u (ra_RedirectLocation (hit_Action h)))"

subsection \<open>Rewriting headers\<close>

text \<open>Rewriting headers is deterministic, although Go visits a map in no fixed order: the
  result depends on the map of values to set only as a map. The headers named by neither list keep
  their order and values; each name to set ends up with exactly the value given; and a name to
  remove that is not also set does not occur.\<close>

theorem applyHeaders_deterministic:
  assumes "distinct (map fst s1)" and "distinct (map fst s2)" and "set s1 = set s2"
  shows "ApplyHeaders u hs \<lparr>rh_Set = s1, rh_Remove = rem\<rparr> = ApplyHeaders u hs \<lparr>rh_Set = s2, rh_Remove = rem\<rparr>
    \<and> ApplyHeaders u hs \<lparr>rh_Set = s1, rh_Remove = rem\<rparr> =
        filter (\<lambda>h. ToLower u (hdr_Name h) \<notin> ToLower u ` (set rem \<union> fst ` set s1)) hs
        @ map (\<lambda>k. \<lparr>hdr_Name = k, hdr_Value = the (map_of s1 k)\<rparr>) (sort (map fst s1))"
proof -
  have maps: "map_of s1 = map_of s2"
    using assms by (metis map_of_inject_set)
  have keys: "sort (map fst s1) = sort (map fst s2)"
    using assms by (metis list.set_map sorted_list_of_set_sort_remdups distinct_remdups_id)
  have spec: "ApplyHeaders u hs \<lparr>rh_Set = s, rh_Remove = rem\<rparr> =
        filter (\<lambda>h. ToLower u (hdr_Name h) \<notin> ToLower u ` (set rem \<union> fst ` set s)) hs
        @ map (\<lambda>k. \<lparr>hdr_Name = k, hdr_Value = the (map_of s k)\<rparr>) (sort (map fst s))" for s
  proof -
    have "map (\<lambda>k. \<lparr>hdr_Name = k, hdr_Value = (case map_of s k of None \<Rightarrow> '''' | Some v \<Rightarrow> v)\<rparr>) (sort (map fst s))
        = map (\<lambda>k. \<lparr>hdr_Name = k, hdr_Value = the (map_of s k)\<rparr>) (sort (map fst s))"
      by (rule map_cong) (auto dest!: weak_map_of_SomeI)
    then show ?thesis by (cases "s = []") (auto simp: ApplyHeaders_def Let_def intro!: filter_cong)
  qed
  show ?thesis unfolding spec using maps keys assms(3) by simp
qed

theorem applyHeaders_deterministic_witness:
  "ApplyHeaders ascii_env [\<lparr>hdr_Name = ''Host'', hdr_Value = ''a''\<rparr>, \<lparr>hdr_Name = ''x-b'', hdr_Value = ''1''\<rparr>]
     \<lparr>rh_Set = [(''X-B'', ''2''), (''A'', ''3'')], rh_Remove = []\<rparr>
   = ApplyHeaders ascii_env [\<lparr>hdr_Name = ''Host'', hdr_Value = ''a''\<rparr>, \<lparr>hdr_Name = ''x-b'', hdr_Value = ''1''\<rparr>]
     \<lparr>rh_Set = [(''A'', ''3''), (''X-B'', ''2'')], rh_Remove = []\<rparr>"
  using applyHeaders_deterministic[of "[(''X-B'', ''2''), (''A'', ''3'')]" "[(''A'', ''3''), (''X-B'', ''2'')]"]
  by auto

subsection \<open>Bounds of the limits\<close>

text \<open>However a rule is configured, the delays, rates and statuses the proxy acts on are within
  their documented bounds; a throttle rate is zero (no throttling) or in range; and the timeouts
  never exceed a positive wait limit of the inbox or of the session.\<close>

theorem rule_limits_bounded:
  "0 \<le> ClampDelay d \<and> ClampDelay d \<le> 30 * second
   \<and> (ClampBytesPerSecond b = 0 \<or> (256 \<le> ClampBytesPerSecond b \<and> ClampBytesPerSecond b \<le> 67108864))
   \<and> ClampBreakpointTimeout d w \<le> 60 * second \<and> 0 < ClampBreakpointTimeout d w
   \<and> (w \<le> 0 \<or> ClampBreakpointTimeout d w \<le> w)
   \<and> ClampHangTimeout d w \<le> 30 * second \<and> 0 < ClampHangTimeout d w \<and> (w \<le> 0 \<or> ClampHangTimeout d w \<le> w)
   \<and> 400 \<le> StatusFor hit \<and> StatusFor hit \<le> 599
   \<and> RedirectStatus hit \<in> {301, 302, 303, 307, 308}
   \<and> SilentClose u hit \<in> {''rst'', ''fin''}"
  by (auto simp: ClampDelay_def ClampBytesPerSecond_def ClampBreakpointTimeout_def ClampHangTimeout_def
      StatusFor_def RedirectStatus_def SilentClose_def limit_consts DefaultDropStatus_def
      DefaultSyntheticStatus_def RedirectDefaultStatus_def Let_def split: option.splits)

subsection \<open>Pacing (limit.go)\<close>

datatype read_err = EOF | Canceled | CtxErr | ReadErr string

record limitedReader =
  lr_bps :: int
  lr_quantum :: int
  lr_rem :: int

text \<open>\<open>LimitReader\<close>: \<open>None\<close> is the underlying reader, returned unchanged.\<close>

definition LimitReader :: "int \<Rightarrow> limitedReader option" where
  "LimitReader bps0 =
     (let bps = ClampBytesPerSecond bps0
      in if bps = 0 then None
         else Some \<lparr>lr_bps = bps, lr_quantum = (if bps > 1024 then 1024 else bps), lr_rem = 0\<rparr>)"

text \<open>One \<open>Read\<close> into a buffer of length \<open>plen\<close>: the number of bytes read, the error, and the
  time slept. \<open>rd k\<close> is what the underlying reader returns for a buffer of length \<open>k\<close>,
  \<open>sleep d\<close> whether the sleep ran to its end, \<open>ctxErr\<close> whether the context is done.\<close>

definition limitedRead ::
    "(int \<Rightarrow> int \<times> read_err option) \<Rightarrow> (duration \<Rightarrow> bool) \<Rightarrow> bool \<Rightarrow> int \<Rightarrow> limitedReader \<Rightarrow>
     limitedReader \<times> int \<times> read_err option \<times> duration" where
  "limitedRead rd sleep ctxErr plen l =
     (if plen = 0 then (l, 0, None, 0)
      else let (n, err) = rd (if plen > lr_quantum l then lr_quantum l else plen)
      in if n > 0 then
           (let acc = n * second + lr_rem l;
                d = acc div lr_bps l;
                l' = l\<lparr>lr_rem := acc mod lr_bps l\<rparr>
            in if d > 0 \<and> \<not> sleep d then (l', n, Some (if ctxErr then CtxErr else Canceled), d)
               else (l', n, err, d))
         else (l, n, err, 0))"

text \<open>A run of reads, each with its own buffer, reader, sleep and context: the bytes read and the
  time slept in all.\<close>

type_synonym read_call = "(int \<Rightarrow> int \<times> read_err option) \<times> (duration \<Rightarrow> bool) \<times> bool \<times> int"

fun limitedRun :: "read_call list \<Rightarrow> limitedReader \<Rightarrow> limitedReader \<times> int \<times> duration" where
  "limitedRun [] l = (l, 0, 0)"
| "limitedRun ((rd, sleep, ctxErr, plen) # cs) l =
     (let (l1, n, e, d) = limitedRead rd sleep ctxErr plen l;
          (l2, n2, d2) = limitedRun cs l1
      in (l2, n + n2, d + d2))"

text \<open>The contract of \<open>io.Reader\<close>: a read returns between 0 and the buffer's length bytes.\<close>

definition reads_within :: "read_call \<Rightarrow> bool" where
  "reads_within c = (case c of (rd, _, _, plen) \<Rightarrow> 0 \<le> plen \<and> (\<forall>k. 0 \<le> k \<longrightarrow> 0 \<le> fst (rd k) \<and> fst (rd k) \<le> k))"

definition wf_limited :: "limitedReader \<Rightarrow> bool" where
  "wf_limited l \<longleftrightarrow> 256 \<le> lr_bps l \<and> lr_bps l \<le> 67108864 \<and> 0 < lr_quantum l \<and> lr_quantum l \<le> 1024
     \<and> 0 \<le> lr_rem l \<and> lr_rem l < lr_bps l"

lemma LimitReader_wf: "LimitReader bps = Some l \<Longrightarrow> wf_limited l \<and> lr_rem l = 0"
  by (auto simp: LimitReader_def wf_limited_def ClampBytesPerSecond_def limit_consts Let_def split: if_splits)

lemma limitedRead_step:
  assumes wf: "wf_limited l" and rd: "reads_within (rd, sleep, ctxErr, plen)"
    and step: "limitedRead rd sleep ctxErr plen l = (l', n, e, d)"
  shows "wf_limited l'" "lr_bps l' = lr_bps l" "d * lr_bps l + lr_rem l' = n * second + lr_rem l"
    "0 \<le> n" "n \<le> 1024" "n * second + lr_rem l < 2 ^ 63"
proof -
  let ?k = "if plen > lr_quantum l then lr_quantum l else plen"
  obtain n0 e0 where r0: "rd ?k = (n0, e0)" by (metis surj_pair)
  have "0 \<le> ?k" "?k \<le> 1024" using wf rd by (auto simp: wf_limited_def reads_within_def)
  then have n0: "0 \<le> n0" "n0 \<le> 1024"
    using rd r0 unfolding reads_within_def by (fastforce)+
  have bps: "0 < lr_bps l" using wf by (simp add: wf_limited_def)
  have "wf_limited l' \<and> lr_bps l' = lr_bps l \<and> d * lr_bps l + lr_rem l' = n * second + lr_rem l
      \<and> 0 \<le> n \<and> n \<le> 1024"
    using step wf n0 r0 bps
    by (auto simp: limitedRead_def Let_def wf_limited_def split: if_splits)
  then show "wf_limited l'" "lr_bps l' = lr_bps l" "d * lr_bps l + lr_rem l' = n * second + lr_rem l"
    "0 \<le> n" "n \<le> 1024" by simp_all
  then show "n * second + lr_rem l < 2 ^ 63" using wf by (simp add: wf_limited_def second_def)
qed

lemma limitedRun_pace:
  "wf_limited l \<Longrightarrow> list_all reads_within cs \<Longrightarrow> limitedRun cs l = (l', n, d) \<Longrightarrow>
   wf_limited l' \<and> lr_bps l' = lr_bps l \<and> d * lr_bps l + lr_rem l' = n * second + lr_rem l"
proof (induction cs arbitrary: l l' n d)
  case Nil
  then show ?case by simp
next
  case (Cons c cs)
  obtain rd sleep ctxErr plen where c: "c = (rd, sleep, ctxErr, plen)" by (metis prod_cases4)
  obtain l1 n1 e1 d1 where s: "limitedRead rd sleep ctxErr plen l = (l1, n1, e1, d1)" by (metis prod_cases4)
  obtain l2 n2 d2 where t: "limitedRun cs l1 = (l2, n2, d2)" by (metis prod_cases3)
  note st = limitedRead_step[OF Cons.prems(1) _ s]
  have rw: "reads_within (rd, sleep, ctxErr, plen)" using Cons.prems(2) c by simp
  have "wf_limited l2 \<and> lr_bps l2 = lr_bps l1 \<and> d2 * lr_bps l1 + lr_rem l2 = n2 * second + lr_rem l1"
    using Cons.IH[OF st(1)[OF rw] _ t] Cons.prems(2) by simp
  moreover have "l' = l2" "n = n1 + n2" "d = d1 + d2" using Cons.prems(3) c s t by simp_all
  ultimately show ?case using st(2,3)[OF rw] by (simp add: algebra_simps)
qed

text \<open>Throttling paces a body exactly. Over any run of reads of any sizes the time slept,
  multiplied by the rate, falls short of the bytes read (in byte-nanoseconds) by less than one
  nanosecond's worth, so nothing is lost to rounding; and the 64-bit accumulator never overflows.\<close>

theorem throttle_paces_exactly:
  assumes "LimitReader bps = Some l" and "list_all reads_within cs"
    and "limitedRun cs l = (l', n, d)"
  shows "d * lr_bps l \<le> n * second \<and> n * second < d * lr_bps l + lr_bps l
    \<and> (\<forall>rd sleep ctxErr plen. reads_within (rd, sleep, ctxErr, plen) \<longrightarrow>
          fst (snd (limitedRead rd sleep ctxErr plen l')) * second + lr_rem l' < 2 ^ 63)"
proof -
  from LimitReader_wf[OF assms(1)] have wf: "wf_limited l" "lr_rem l = 0" by simp_all
  from limitedRun_pace[OF wf(1) assms(2,3)]
  have l': "wf_limited l'" "lr_bps l' = lr_bps l" "d * lr_bps l + lr_rem l' = n * second"
    using wf(2) by simp_all
  have "fst (snd (limitedRead rd sleep ctxErr plen l')) * second + lr_rem l' < 2 ^ 63"
    if "reads_within (rd, sleep, ctxErr, plen)" for rd sleep ctxErr plen
    using limitedRead_step(6)[OF l'(1) that] by (metis fst_conv prod_cases4 snd_conv)
  with l' show ?thesis by (auto simp: wf_limited_def)
qed

definition exRead :: read_call where
  "exRead = (\<lambda>k. (if k \<le> 300 then k else 300, None), \<lambda>_. True, False, 4096)"

theorem throttle_paces_exactly_witness:
  "\<exists>l' n d. limitedRun [exRead, exRead, exRead] \<lparr>lr_bps = 700, lr_quantum = 700, lr_rem = 0\<rparr> = (l', n, d)
     \<and> n = 900 \<and> d * 700 \<le> 900 * second \<and> 900 * second < d * 700 + 700"
proof -
  let ?l = "\<lparr>lr_bps = 700, lr_quantum = 700, lr_rem = 0\<rparr>"
  have l: "LimitReader 700 = Some ?l" by code_simp
  have r: "list_all reads_within [exRead, exRead, exRead]"
    by (simp add: reads_within_def exRead_def)
  obtain l' n d where run: "limitedRun [exRead, exRead, exRead] ?l = (l', n, d)" by (metis prod_cases3)
  have "fst (snd (limitedRun [exRead, exRead, exRead] ?l)) = 900"
    by (simp add: exRead_def limitedRead_def second_def Let_def)
  with run have "n = 900" by simp
  with throttle_paces_exactly[OF l r run] run show ?thesis by auto
qed

end
