(* ===== verification/Wire_Codec.thy ===== *)
theory Wire_Codec
  imports Go_Prelude
begin

text \<open>
  What the wire formats share: reading a number of bytes from a stream, big-endian integers, and
  the contract of a codec as a locale. A reader is the list of the bytes it will still deliver.
\<close>

unbundle bit_operations_syntax

subsection \<open>Reading from a stream\<close>

datatype io_error = IoEOF | IoUnexpectedEOF

text \<open>\<open>io.ReadFull\<close>: all of the bytes, or an error that says whether any byte was there.\<close>

definition ReadFull :: "nat \<Rightarrow> byte list \<Rightarrow> io_error + (byte list \<times> byte list)" where
  "ReadFull k r =
     (if k \<le> length r then Inr (take k r, drop k r)
      else if r = [] then Inl IoEOF else Inl IoUnexpectedEOF)"

lemma ReadFull_append [simp]: "length bs = k \<Longrightarrow> ReadFull k (bs @ r) = Inr (bs, r)"
  by (simp add: ReadFull_def)

lemma ReadFull_Inr: "ReadFull k r = Inr (bs, r') \<longleftrightarrow> r = bs @ r' \<and> length bs = k"
  by (auto simp: ReadFull_def)

subsection \<open>Big-endian integers (encoding/binary)\<close>

fun putBE :: "nat \<Rightarrow> 64 word \<Rightarrow> byte list" where
  "putBE 0 n = []"
| "putBE (Suc k) n = ucast (drop_bit (8 * k) n) # putBE k n"

definition getBE :: "byte list \<Rightarrow> 64 word" where
  "getBE bs = foldl (\<lambda>acc b. push_bit 8 acc OR ucast b) 0 bs"

lemma length_putBE [simp]: "length (putBE k n) = k"
  by (induction k) simp_all

lemma getBE_step:
  "push_bit (8 * k) (push_bit 8 a OR ucast (ucast (drop_bit (8 * k) n) :: byte)) OR take_bit (8 * k) n
   = push_bit (8 * Suc k) a OR take_bit (8 * Suc k) (n :: 64 word)"
  by (rule bit_eqI) (auto simp: bit_simps ac_simps)

lemma getBE_putBE_acc:
  "foldl (\<lambda>acc b. push_bit 8 acc OR ucast b) a (putBE k n) = push_bit (8 * k) a OR take_bit (8 * k) n"
proof (induction k arbitrary: a)
  case 0
  then show ?case by simp
next
  case (Suc k)
  show ?case by (simp only: putBE.simps foldl_Cons Suc getBE_step)
qed

lemma getBE_putBE: "getBE (putBE k n) = take_bit (8 * k) n"
  by (simp add: getBE_def getBE_putBE_acc)

lemma putBE_getBE_acc:
  "length bs \<le> 8 \<Longrightarrow> putBE (length bs) (foldl (\<lambda>acc b. push_bit 8 acc OR ucast b) a bs) = bs"
proof (induction bs arbitrary: a)
  case (Cons b bs)
  have drop: "(ucast (drop_bit (8 * length bs)
      (foldl (\<lambda>acc b. push_bit 8 acc OR ucast b) c bs)) :: byte) = ucast c" if "length bs \<le> 7" for c :: "64 word"
    using that
  proof (induction bs arbitrary: c rule: rev_induct)
    case (snoc x xs)
    let ?y = "foldl (\<lambda>acc b. push_bit 8 acc OR ucast b) c xs"
    have "drop_bit (8 * length (xs @ [x])) (push_bit 8 ?y OR ucast x) = drop_bit (8 * length xs) (take_bit 56 ?y)"
      by (rule bit_eqI) (auto simp: bit_simps algebra_simps dest: bit_imp_le_length)
    moreover have "(ucast (drop_bit (8 * length xs) (take_bit 56 ?y)) :: byte) = ucast (drop_bit (8 * length xs) ?y)"
      using snoc.prems by (intro bit_eqI) (auto simp: bit_simps)
    ultimately show ?case using snoc by simp
  qed simp
  have "ucast (push_bit 8 a OR ucast b) = b" for a :: "64 word"
    by (rule bit_eqI) (auto simp: bit_simps)
  with Cons drop show ?case by simp
qed simp

lemma putBE_getBE: "length bs \<le> 8 \<Longrightarrow> putBE (length bs) (getBE bs) = bs"
  by (simp add: getBE_def putBE_getBE_acc)

lemma getBE_bound: "length bs * 8 \<le> 64 \<Longrightarrow> take_bit (8 * length bs) (getBE bs) = getBE bs"
  using getBE_putBE[of "length bs" "getBE bs"] putBE_getBE[of bs] by simp

subsection \<open>Codecs\<close>

text \<open>The value of a result, when it is one.\<close>

definition okOf :: "'e + 'a \<Rightarrow> 'a option" where
  "okOf x = (case x of Inl _ \<Rightarrow> None | Inr a \<Rightarrow> Some a)"

lemma okOf_simps [simp]: "okOf (Inl e) = None" "okOf (Inr a) = Some a"
  by (simp_all add: okOf_def)

text \<open>Decoding a number of values one after the other.\<close>

fun decodeMany :: "(byte list \<Rightarrow> ('a \<times> byte list) option) \<Rightarrow> nat \<Rightarrow> byte list \<Rightarrow> ('a list \<times> byte list) option" where
  "decodeMany dec 0 r = Some ([], r)"
| "decodeMany dec (Suc k) r =
     (case dec r of None \<Rightarrow> None
      | Some (a, r1) \<Rightarrow> map_option (\<lambda>(as, r2). (a # as, r2)) (decodeMany dec k r1))"

text \<open>A codec over byte streams: every well-formed value has an encoding, and the decoder takes
  exactly that encoding off the front of a stream, whatever follows.\<close>

locale wire_codec =
  fixes wf :: "'a \<Rightarrow> bool" and enc :: "'a \<Rightarrow> byte list" and dec :: "byte list \<Rightarrow> ('a \<times> byte list) option"
  assumes dec_enc: "wf a \<Longrightarrow> dec (enc a @ rest) = Some (a, rest)"
begin

lemma enc_prefix_free: "wf a \<Longrightarrow> wf b \<Longrightarrow> enc a @ r = enc b @ s \<Longrightarrow> a = b \<and> r = s"
  using dec_enc by (metis option.inject prod.inject)

lemma enc_inj: "wf a \<Longrightarrow> wf b \<Longrightarrow> enc a = enc b \<Longrightarrow> a = b"
  using enc_prefix_free[of a b "[]" "[]"] by simp

lemma decode_many_concat:
  "list_all wf as \<Longrightarrow> decodeMany dec (length as) (concat (map enc as) @ rest) = Some (as, rest)"
  by (induction as) (simp_all add: dec_enc)

end

end
