(* ===== verification/WS_Frame.thy ===== *)
theory WS_Frame
  imports Wire_Codec
begin

text \<open>
  WebSocket frames (\<open>internal/wsx/frame.go\<close>): the RFC 6455 header, the masking, the frame with
  its payload, the body of a close frame, and the copy of a payload that keeps its unmasked
  prefix. A writer is the list of the bytes written.
\<close>

unbundle bit_operations_syntax

subsection \<open>Types and constants\<close>

definition OpcodeContinuation :: byte where "OpcodeContinuation = 0x0"
definition OpcodeText :: byte where "OpcodeText = 0x1"
definition OpcodeBinary :: byte where "OpcodeBinary = 0x2"
definition OpcodeClose :: byte where "OpcodeClose = 0x8"
definition OpcodePing :: byte where "OpcodePing = 0x9"
definition OpcodePong :: byte where "OpcodePong = 0xA"

definition maxControlPayload :: nat where "maxControlPayload = 125"
definition defaultMaxPayload :: int where "defaultMaxPayload = 33554432"

datatype ws_error = ErrProtocol | ErrFrameTooLarge | WsIO io_error

record wsHeader =
  wh_Fin :: bool
  wh_RSV1 :: bool
  wh_RSV2 :: bool
  wh_RSV3 :: bool
  wh_Opcode :: byte
  wh_Masked :: bool
  wh_MaskKey :: "byte list"
  wh_Length :: "64 word"

record wsFrame =
  wf_Fin :: bool
  wf_RSV1 :: bool
  wf_RSV2 :: bool
  wf_RSV3 :: bool
  wf_Opcode :: byte
  wf_Masked :: bool
  wf_MaskKey :: "byte list"
  wf_Payload :: "byte list"
  wf_CloseCode :: int
  wf_CloseReason :: "byte list"

definition zeroKey :: "byte list" where "zeroKey = [0, 0, 0, 0]"

definition OpcodeName :: "byte \<Rightarrow> string" where
  "OpcodeName op =
     (if op = OpcodeContinuation then ''continuation'' else if op = OpcodeText then ''text''
      else if op = OpcodeBinary then ''binary'' else if op = OpcodeClose then ''close''
      else if op = OpcodePing then ''ping'' else if op = OpcodePong then ''pong'' else ''other'')"

definition toFrame :: "wsHeader \<Rightarrow> wsFrame" where
  "toFrame h =
     \<lparr>wf_Fin = wh_Fin h, wf_RSV1 = wh_RSV1 h, wf_RSV2 = wh_RSV2 h, wf_RSV3 = wh_RSV3 h,
      wf_Opcode = wh_Opcode h, wf_Masked = wh_Masked h, wf_MaskKey = wh_MaskKey h,
      wf_Payload = [], wf_CloseCode = 0, wf_CloseReason = []\<rparr>"

subsection \<open>Headers\<close>

text \<open>The extended length that follows the two fixed bytes.\<close>

definition readLength :: "nat \<Rightarrow> byte list \<Rightarrow> ws_error + (64 word \<times> byte list)" where
  "readLength l7 r =
     (if l7 = 126 then
        (case ReadFull 2 r of Inl e \<Rightarrow> Inl (WsIO e)
         | Inr (ext, r') \<Rightarrow> let n = getBE ext
             in if n \<le> word_of_nat maxControlPayload then Inl ErrProtocol else Inr (n, r'))
      else if l7 = 127 then
        (case ReadFull 8 r of Inl e \<Rightarrow> Inl (WsIO e)
         | Inr (ext, r') \<Rightarrow> let n = getBE ext
             in if n AND 2 ^ 63 \<noteq> 0 \<or> n \<le> 65535 then Inl ErrProtocol else Inr (n, r'))
      else Inr (word_of_nat l7, r))"

definition ReadHeader :: "byte list \<Rightarrow> ws_error + (wsHeader \<times> byte list)" where
  "ReadHeader r =
     (case ReadFull 2 r of Inl e \<Rightarrow> Inl (WsIO e)
      | Inr (hdr, r1) \<Rightarrow>
        (let h0 = hdr ! 0; h1 = hdr ! 1;
             fin = (h0 AND 0x80 \<noteq> 0);
             opcode = h0 AND 0x0f;
             masked = (h1 AND 0x80 \<noteq> 0);
             l7 = unat (h1 AND 0x7f);
             control = (opcode AND 0x8 \<noteq> 0)
         in if control \<and> \<not> fin then Inl ErrProtocol
            else if control \<and> l7 > maxControlPayload then Inl ErrProtocol
            else case readLength l7 r1 of Inl e \<Rightarrow> Inl e
            | Inr (n, r2) \<Rightarrow>
              if control \<and> n > word_of_nat maxControlPayload then Inl ErrProtocol
              else let h = \<lparr>wh_Fin = fin, wh_RSV1 = (h0 AND 0x40 \<noteq> 0), wh_RSV2 = (h0 AND 0x20 \<noteq> 0),
                            wh_RSV3 = (h0 AND 0x10 \<noteq> 0), wh_Opcode = opcode, wh_Masked = masked,
                            wh_MaskKey = zeroKey, wh_Length = n\<rparr>
              in if masked then
                   (case ReadFull 4 r2 of Inl e \<Rightarrow> Inl (WsIO e)
                    | Inr (key, r3) \<Rightarrow> Inr (h\<lparr>wh_MaskKey := key\<rparr>, r3))
                 else Inr (h, r2)))"

definition headerByte0 :: "wsHeader \<Rightarrow> byte" where
  "headerByte0 h =
     (let b = wh_Opcode h AND 0x0f;
          b = (if wh_Fin h then b OR 0x80 else b);
          b = (if wh_RSV1 h then b OR 0x40 else b);
          b = (if wh_RSV2 h then b OR 0x20 else b)
      in if wh_RSV3 h then b OR 0x10 else b)"

text \<open>The second byte without the mask bit, and the extended length.\<close>

definition headerLength :: "64 word \<Rightarrow> byte \<times> byte list" where
  "headerLength n =
     (if n \<le> word_of_nat maxControlPayload then (ucast n, [])
      else if n \<le> 65535 then (126, putBE 2 n)
      else (127, putBE 8 n))"

definition WriteHeader :: "wsHeader \<Rightarrow> ws_error + byte list" where
  "WriteHeader h =
     (let n = wh_Length h
      in if wh_Opcode h AND 0x8 \<noteq> 0 \<and> \<not> wh_Fin h then Inl ErrProtocol
         else if wh_Opcode h AND 0x8 \<noteq> 0 \<and> n > word_of_nat maxControlPayload then Inl ErrProtocol
         else let (b1, ext) = headerLength n;
                  b1 = (if wh_Masked h then b1 OR 0x80 else b1)
              in Inr ([headerByte0 h, b1] @ ext @ (if wh_Masked h then wh_MaskKey h else [])))"

subsection \<open>Masks and frames\<close>

definition maskInPlace :: "byte list \<Rightarrow> byte list \<Rightarrow> byte list" where
  "maskInPlace b key = map (\<lambda>i. (b ! i) XOR (key ! (i mod 4))) [0..<length b]"

definition parseClose :: "wsFrame \<Rightarrow> ws_error + wsFrame" where
  "parseClose f =
     (if wf_Opcode f \<noteq> OpcodeClose then Inr f
      else let payload = wf_Payload f
      in if length payload = 1 then Inl ErrProtocol
         else if length payload \<ge> 2 then
           (let f1 = f\<lparr>wf_CloseCode := uint (getBE (take 2 payload))\<rparr>
            in Inr (if length payload > 2 then f1\<lparr>wf_CloseReason := drop 2 payload\<rparr> else f1))
         else Inr f)"

definition ReadFrame :: "int \<Rightarrow> byte list \<Rightarrow> ws_error + (wsFrame \<times> byte list)" where
  "ReadFrame max0 r =
     (let cap = (if max0 \<le> 0 then defaultMaxPayload else max0)
      in case ReadHeader r of Inl e \<Rightarrow> Inl e
      | Inr (h, r1) \<Rightarrow>
        if wh_Length h > word_of_int cap then Inl ErrFrameTooLarge
        else case (if wh_Length h > 0 then
                     (case ReadFull (unat (wh_Length h)) r1 of Inl e \<Rightarrow> Inl (WsIO e)
                      | Inr (payload, r2) \<Rightarrow>
                        Inr ((toFrame h)\<lparr>wf_Payload :=
                               (if wh_Masked h then maskInPlace payload (wh_MaskKey h) else payload)\<rparr>, r2))
                   else Inr (toFrame h, r1)) of
          Inl e \<Rightarrow> Inl e
        | Inr (f, r2) \<Rightarrow> (case parseClose f of Inl e \<Rightarrow> Inl e | Inr f' \<Rightarrow> Inr (f', r2)))"

definition closePayload :: "wsFrame \<Rightarrow> byte list" where
  "closePayload f =
     (if wf_Opcode f = OpcodeClose \<and> wf_Payload f = [] \<and> (wf_CloseCode f \<noteq> 0 \<or> length (wf_CloseReason f) > 0)
      then putBE 2 (word_of_int (wf_CloseCode f)) @ wf_CloseReason f else wf_Payload f)"

definition frameHeader :: "wsFrame \<Rightarrow> wsHeader" where
  "frameHeader f =
     \<lparr>wh_Fin = wf_Fin f, wh_RSV1 = wf_RSV1 f, wh_RSV2 = wf_RSV2 f, wh_RSV3 = wf_RSV3 f,
      wh_Opcode = wf_Opcode f, wh_Masked = wf_Masked f, wh_MaskKey = wf_MaskKey f,
      wh_Length = word_of_nat (length (closePayload f))\<rparr>"

definition WriteFrame :: "wsFrame \<Rightarrow> ws_error + byte list" where
  "WriteFrame f =
     (let payload = closePayload f
      in case WriteHeader (frameHeader f) of Inl e \<Rightarrow> Inl e
      | Inr hdr \<Rightarrow>
        if length payload = 0 then Inr hdr
        else if \<not> wf_Masked f then Inr (hdr @ payload)
        else Inr (hdr @ maskInPlace payload (wf_MaskKey f)))"

text \<open>The loop of \<open>TeePayload\<close>, over buffers of 32 KiB: the rest of the source, what was
  written, what was stored, and the error. \<open>werr off\<close> says whether the write at offset
  \<open>off\<close> fails.\<close>

definition teeStore :: "bool \<Rightarrow> byte list \<Rightarrow> int \<Rightarrow> nat \<Rightarrow> byte list \<Rightarrow> byte list \<Rightarrow> byte list" where
  "teeStore masked key storeMax off got stored =
     (if storeMax > 0 \<and> int (length stored) < storeMax then
        (let k = (if int (length stored + length got) > storeMax
                  then nat (storeMax - int (length stored)) else length got);
             piece = take k got;
             piece = (if masked then map (\<lambda>i. (piece ! i) XOR (key ! ((off + i) mod 4))) [0..<length piece]
                      else piece)
         in stored @ piece)
      else stored)"

function teeLoop ::
    "(nat \<Rightarrow> bool) \<Rightarrow> nat \<Rightarrow> bool \<Rightarrow> byte list \<Rightarrow> int \<Rightarrow> nat \<Rightarrow> byte list \<Rightarrow> byte list \<Rightarrow> byte list \<Rightarrow>
     byte list \<times> byte list \<times> byte list \<times> ws_error option" where
  "teeLoop werr n masked key storeMax off src dst stored =
     (if off < n then
        (let chunk = min 32768 (n - off);
             nr = min chunk (length src);
             got = take nr src;
             err = (if chunk \<le> length src then None
                    else Some (WsIO (if src = [] then IoEOF else IoUnexpectedEOF)))
         in if nr > 0 then
              (if werr off then (drop nr src, dst, stored, Some (WsIO IoUnexpectedEOF))
               else case err of
                 Some e \<Rightarrow> (drop nr src, dst @ got, teeStore masked key storeMax off got stored, Some e)
               | None \<Rightarrow> teeLoop werr n masked key storeMax (off + nr) (drop nr src) (dst @ got)
                           (teeStore masked key storeMax off got stored))
            else (src, dst, stored, err))
      else (src, dst, stored, None))"
  by pat_completeness auto
termination
  by (relation "measure (\<lambda>(werr, n, masked, key, storeMax, off, src, dst, stored). n - off)")
    (auto simp: min_def split: if_splits)

declare teeLoop.simps [simp del]

definition TeePayload ::
    "(nat \<Rightarrow> bool) \<Rightarrow> byte list \<Rightarrow> 64 word \<Rightarrow> bool \<Rightarrow> byte list \<Rightarrow> int \<Rightarrow>
     byte list \<times> byte list \<times> byte list \<times> ws_error option" where
  "TeePayload werr src n masked key storeMax =
     (if n = 0 then (src, [], [], None) else teeLoop werr (unat n) masked key storeMax 0 src [] [])"

subsection \<open>Bytes and bits\<close>

lemma byte_bits:
  fixes b :: byte
  shows "b AND 0x80 \<noteq> 0 \<longleftrightarrow> bit b 7" "b AND 0x40 \<noteq> 0 \<longleftrightarrow> bit b 6" "b AND 0x20 \<noteq> 0 \<longleftrightarrow> bit b 5"
    "b AND 0x10 \<noteq> 0 \<longleftrightarrow> bit b 4" "b AND 0x8 \<noteq> 0 \<longleftrightarrow> bit b 3"
  using and_exp_eq_0_iff_not_bit[of b 7] and_exp_eq_0_iff_not_bit[of b 6]
    and_exp_eq_0_iff_not_bit[of b 5] and_exp_eq_0_iff_not_bit[of b 4] and_exp_eq_0_iff_not_bit[of b 3]
  by simp_all

lemma and_low [simp]:
  "b AND 0x0f = take_bit 4 b" "b AND 0x7f = take_bit 7 b" for b :: byte
  using take_bit_eq_mask[of 4 b] take_bit_eq_mask[of 7 b] by (simp_all add: mask_eq_exp_minus_1)

lemma bit_consts:
  "bit (0x80 :: byte) n \<longleftrightarrow> n = 7" "bit (0x40 :: byte) n \<longleftrightarrow> n = 6" "bit (0x20 :: byte) n \<longleftrightarrow> n = 5"
  "bit (0x10 :: byte) n \<longleftrightarrow> n = 4"
  using bit_exp_iff[of 7 n, where 'a = byte] bit_exp_iff[of 6 n, where 'a = byte]
    bit_exp_iff[of 5 n, where 'a = byte] bit_exp_iff[of 4 n, where 'a = byte]
  by auto

lemma bit_or_if: "bit (if c then b OR k else b) n \<longleftrightarrow> bit b n \<or> (c \<and> bit k n)" for b :: byte
  by (simp add: bit_or_iff)

lemma bit_headerByte0:
  "bit (headerByte0 h) n \<longleftrightarrow>
     (n < 4 \<and> bit (wh_Opcode h) n) \<or> (n = 7 \<and> wh_Fin h) \<or> (n = 6 \<and> wh_RSV1 h)
     \<or> (n = 5 \<and> wh_RSV2 h) \<or> (n = 4 \<and> wh_RSV3 h)"
  unfolding headerByte0_def Let_def bit_or_if bit_consts and_low bit_take_bit_iff by blast

definition wf_header :: "wsHeader \<Rightarrow> bool" where
  "wf_header h \<longleftrightarrow>
     take_bit 4 (wh_Opcode h) = wh_Opcode h \<and> wh_Length h < 2 ^ 63
     \<and> (if wh_Masked h then length (wh_MaskKey h) = 4 else wh_MaskKey h = zeroKey)
     \<and> (bit (wh_Opcode h) 3 \<longrightarrow> wh_Fin h \<and> wh_Length h \<le> 125)"

lemma headerByte0_fields:
  "bit (headerByte0 h) 7 = wh_Fin h" "bit (headerByte0 h) 6 = wh_RSV1 h"
  "bit (headerByte0 h) 5 = wh_RSV2 h" "bit (headerByte0 h) 4 = wh_RSV3 h"
  "take_bit 4 (headerByte0 h) = take_bit 4 (wh_Opcode h)"
proof -
  show "take_bit 4 (headerByte0 h) = take_bit 4 (wh_Opcode h)"
    by (rule bit_eqI) (auto simp: bit_simps bit_headerByte0)
qed (simp_all add: bit_headerByte0)

text \<open>The length field: seven bits in the second byte, then the extension, minimal in both
  directions.\<close>

lemma take_bit_small: "unat n < 2 ^ k \<Longrightarrow> take_bit k n = n" for n :: "'a::len word"
  by (rule unsigned_word_eqI[where 'a = nat]) (simp add: unsigned_take_bit_eq take_bit_nat_eq_self_iff)

lemma not_bit_small: "unat n < 2 ^ k \<Longrightarrow> \<not> bit n k" for n :: "'a::len word"
  by (metis bit_take_bit_iff less_irrefl take_bit_small)

lemma headerLength_read:
  assumes "n < 2 ^ 63" and "headerLength n = (b1, ext)"
  shows "readLength (unat (take_bit 7 b1)) (ext @ r) = Inr (n, r) \<and> \<not> bit b1 7
    \<and> (n \<le> 125 \<longrightarrow> unat (take_bit 7 b1) = unat n)"
proof -
  consider (small) "n \<le> 125" | (mid) "125 < n" "n \<le> 65535" | (big) "65535 < n" by fastforce
  then show ?thesis
  proof cases
    case small
    then have un: "unat n \<le> 125" by (simp add: word_le_nat_alt)
    from small assms(2) have b1: "b1 = ucast n" "ext = []" by (simp_all add: headerLength_def maxControlPayload_def)
    have ub: "unat b1 = unat n" using un by (simp add: b1 unsigned_ucast_eq take_bit_nat_eq_self_iff)
    then have t: "take_bit 7 b1 = b1" "\<not> bit b1 7" using un by (simp_all add: take_bit_small not_bit_small)
    have "word_of_nat (unat b1) = n" by (simp add: ub)
    with t ub un b1(2) show ?thesis by (simp add: readLength_def)
  next
    case mid
    then have "unat n < 2 ^ 16" by (simp add: word_le_nat_alt)
    then have "getBE (putBE 2 n) = n" by (simp add: getBE_putBE take_bit_small)
    moreover have "b1 = 126" "ext = putBE 2 n"
      using mid assms(2) by (auto simp: headerLength_def maxControlPayload_def split: if_splits)
    moreover have "\<not> n \<le> 125" using mid by simp
    ultimately show ?thesis by (simp add: readLength_def maxControlPayload_def)
  next
    case big
    then have "125 < n" by (rule order.strict_trans[rotated]) simp
    then have "b1 = 127" "ext = putBE 8 n"
      using big assms(2) by (auto simp: headerLength_def maxControlPayload_def split: if_splits)
    moreover have "getBE (putBE 8 n) = n" using take_bit_length_eq[of n] by (simp add: getBE_putBE)
    moreover have "\<not> bit n 63" using assms(1) by (intro not_bit_small) (simp add: word_less_nat_alt)
    then have "n AND 2 ^ 63 = 0" unfolding and_exp_eq_0_iff_not_bit .
    moreover have "\<not> n \<le> 125" "\<not> n \<le> 65535" using big \<open>125 < n\<close> by simp_all
    ultimately show ?thesis by (simp add: readLength_def)
  qed
qed

lemma WriteHeader_ok:
  assumes "wf_header h" and "headerLength (wh_Length h) = (b1, ext)"
  shows "WriteHeader h = Inr ([headerByte0 h, if wh_Masked h then b1 OR 0x80 else b1] @ ext
           @ (if wh_Masked h then wh_MaskKey h else []))"
  using assms by (auto simp: WriteHeader_def wf_header_def byte_bits maxControlPayload_def Let_def)

lemma wsHeader_eta:
  "\<lparr>wh_Fin = wh_Fin h, wh_RSV1 = wh_RSV1 h, wh_RSV2 = wh_RSV2 h, wh_RSV3 = wh_RSV3 h,
    wh_Opcode = wh_Opcode h, wh_Masked = wh_Masked h, wh_MaskKey = wh_MaskKey h,
    wh_Length = wh_Length h\<rparr> = h"
  by simp

lemma ReadHeader_WriteHeader:
  assumes wf: "wf_header h" and w: "WriteHeader h = Inr bs"
  shows "ReadHeader (bs @ rest) = Inr (h, rest)"
proof -
  obtain b1 ext where bl: "headerLength (wh_Length h) = (b1, ext)" by (metis surj_pair)
  define B where "B = (if wh_Masked h then b1 OR 0x80 else b1)"
  let ?key = "if wh_Masked h then wh_MaskKey h else []"
  have bs: "bs @ rest = [headerByte0 h, B] @ (ext @ ?key @ rest)"
    using WriteHeader_ok[OF wf bl] w by (simp add: B_def)
  have n: "wh_Length h < 2 ^ 63" using wf by (simp add: wf_header_def)
  note len = headerLength_read[OF n bl, of "?key @ rest"]
  have b7: "bit B 7 = wh_Masked h" using len unfolding B_def bit_or_if bit_consts by blast
  have t7: "take_bit 7 B = take_bit 7 b1"
    unfolding B_def by (rule bit_eqI) (unfold bit_take_bit_iff bit_or_if bit_consts, blast)
  have op: "take_bit 4 (wh_Opcode h) = wh_Opcode h" using wf by (simp add: wf_header_def)
  have "ReadFull 2 (bs @ rest) = Inr ([headerByte0 h, B], ext @ ?key @ rest)"
    unfolding bs by (rule ReadFull_append) simp
  moreover have "\<not> (bit (wh_Opcode h) 3 \<and> \<not> wh_Fin h)"
    "\<not> (bit (wh_Opcode h) 3 \<and> unat (take_bit 7 b1) > 125)" "\<not> (bit (wh_Opcode h) 3 \<and> wh_Length h > 125)"
    using wf len by (auto simp: wf_header_def word_le_nat_alt word_less_nat_alt)
  moreover have "readLength (unat (take_bit 7 b1)) (ext @ ?key @ rest) = Inr (wh_Length h, ?key @ rest)"
    using len by blast
  ultimately have "ReadHeader (bs @ rest) =
     (let h' = \<lparr>wh_Fin = wh_Fin h, wh_RSV1 = wh_RSV1 h, wh_RSV2 = wh_RSV2 h, wh_RSV3 = wh_RSV3 h,
                wh_Opcode = wh_Opcode h, wh_Masked = wh_Masked h, wh_MaskKey = zeroKey,
                wh_Length = wh_Length h\<rparr>
      in if wh_Masked h then (case ReadFull 4 (?key @ rest) of Inl e \<Rightarrow> Inl (WsIO e)
                    | Inr (key, r3) \<Rightarrow> Inr (h'\<lparr>wh_MaskKey := key\<rparr>, r3))
         else Inr (h', ?key @ rest))"
    unfolding ReadHeader_def byte_bits and_low
    by (simp only: Let_def b7 t7 op headerByte0_fields maxControlPayload_def sum.case prod.case
        nth_Cons_0 nth_Cons_Suc One_nat_def if_False of_nat_numeral if_False)
  moreover have "ReadFull 4 (wh_MaskKey h @ rest) = Inr (wh_MaskKey h, rest)" if "wh_Masked h"
    using wf that by (simp add: wf_header_def)
  moreover have "wh_MaskKey h = zeroKey" if "\<not> wh_Masked h" using wf that by (simp add: wf_header_def)
  ultimately show ?thesis using wsHeader_eta[of h] by (cases "wh_Masked h") (simp_all add: Let_def)
qed

lemma not_top_bit: "\<not> bit n 63 \<Longrightarrow> n < 2 ^ 63" for n :: "64 word"
proof -
  assume "\<not> bit n 63"
  have "take_bit 63 n = n"
  proof (rule bit_eqI)
    fix i assume "possible_bit TYPE(64 word) i"
    then have "i < 64" by simp
    with \<open>\<not> bit n 63\<close> show "bit (take_bit 63 n) i = bit n i"
      by (cases "i = 63") (auto simp: bit_take_bit_iff)
  qed
  then have "unat n < 2 ^ 63" by (metis take_bit_nat_less_exp unsigned_take_bit_eq)
  then show ?thesis by (simp add: word_less_nat_alt)
qed

text \<open>The other direction: what is read is written back byte for byte. Only the shortest form of a
  length is accepted, so a header has one encoding.\<close>

lemma readLength_write:
  assumes "readLength l7 r = Inr (n, r')" and "l7 < 128"
  shows "n < 2 ^ 63 \<and> headerLength n = (word_of_nat l7, take (length r - length r') r)
    \<and> r = take (length r - length r') r @ r' \<and> (l7 \<le> 125 \<longrightarrow> n \<le> 125)"
proof -
  consider (mid) "l7 = 126" | (big) "l7 = 127" | (small) "l7 \<le> 125" using assms(2) by linarith
  then show ?thesis
  proof cases
    case mid
    with assms(1) obtain ext where ext: "r = ext @ r'" "length ext = 2" "n = getBE ext" "\<not> n \<le> 125"
      by (auto simp: readLength_def maxControlPayload_def Let_def ReadFull_Inr split: sum.splits if_splits)
    then have p: "putBE 2 n = ext" using putBE_getBE[of ext] by simp
    have "take_bit 16 n = n" using getBE_bound[of ext] ext by simp
    then have "unat n < 2 ^ 16" by (metis take_bit_nat_less_exp unsigned_take_bit_eq)
    then have "n \<le> 65535" "n < 2 ^ 63" by (simp_all add: word_le_nat_alt word_less_nat_alt)
    with mid ext p show ?thesis by (simp add: headerLength_def maxControlPayload_def)
  next
    case big
    with assms(1) obtain ext where ext: "r = ext @ r'" "length ext = 8" "n = getBE ext" "\<not> n \<le> 65535"
      "n AND 2 ^ 63 = 0"
      unfolding readLength_def by (auto simp: Let_def ReadFull_Inr split: sum.splits if_splits)
    then have p: "putBE 8 n = ext" using putBE_getBE[of ext] by simp
    have "\<not> bit n 63" using ext(5) unfolding and_exp_eq_0_iff_not_bit .
    then have "n < 2 ^ 63" by (rule not_top_bit)
    moreover have "\<not> n \<le> 125" using ext(4) by (simp add: word_le_nat_alt)
    ultimately show ?thesis using big ext p by (simp add: headerLength_def maxControlPayload_def)
  next
    case small
    then have n: "n = word_of_nat l7" "r' = r" using assms(1) by (auto simp: readLength_def)
    have "unat n = l7" using small by (simp add: n unat_of_nat)
    then have "n \<le> 125" "n < 2 ^ 63" using small by (simp_all add: word_le_nat_alt word_less_nat_alt)
    moreover have "ucast n = (word_of_nat l7 :: byte)" 
      by (intro unsigned_word_eqI[where 'a = nat])
        (simp add: unsigned_ucast_eq \<open>unat n = l7\<close> unat_of_nat take_bit_eq_mod)
    ultimately show ?thesis using n by (simp add: headerLength_def maxControlPayload_def)
  qed
qed

lemma ReadHeader_fields:
  assumes "ReadHeader r = Inr (h, rest)"
  obtains h0 h1 r1 r2 where "r = [h0, h1] @ r1" "readLength (unat (take_bit 7 h1)) r1 = Inr (wh_Length h, r2)"
    "wh_Fin h = bit h0 7" "wh_RSV1 h = bit h0 6" "wh_RSV2 h = bit h0 5" "wh_RSV3 h = bit h0 4"
    "wh_Opcode h = take_bit 4 h0" "wh_Masked h = bit h1 7"
    "bit (take_bit 4 h0) 3 \<longrightarrow> bit h0 7 \<and> wh_Length h \<le> 125"
    "if bit h1 7 then r2 = wh_MaskKey h @ rest \<and> length (wh_MaskKey h) = 4
     else r2 = rest \<and> wh_MaskKey h = zeroKey"
proof -
  from assms obtain hdr r1 where 1: "ReadFull 2 r = Inr (hdr, r1)"
    by (cases "ReadFull 2 r") (auto simp: ReadHeader_def)
  then obtain h0 h1 where hdr: "hdr = [h0, h1]" "r = [h0, h1] @ r1"
    by (auto simp: ReadFull_Inr length_Suc_conv numeral_2_eq_2)
  let ?l7 = "unat (take_bit 7 h1)"
  have rf: "ReadFull 2 r = Inr ([h0, h1], r1)" using 1 hdr(1) by simp
  note eq = assms[unfolded ReadHeader_def byte_bits and_low, simplified rf sum.case prod.case Let_def
      nth_Cons_0 nth_Cons_Suc One_nat_def]
  obtain n r2 where 2: "readLength ?l7 r1 = Inr (n, r2)"
    using eq by (cases "readLength ?l7 r1") (auto split: if_splits)
  have ctl: "bit (take_bit 4 h0) 3 \<longrightarrow> bit h0 7 \<and> n \<le> 125"
    using eq 2 by (auto simp: maxControlPayload_def split: if_splits)
  have "\<exists>key. h = \<lparr>wh_Fin = bit h0 7, wh_RSV1 = bit h0 6, wh_RSV2 = bit h0 5, wh_RSV3 = bit h0 4,
      wh_Opcode = take_bit 4 h0, wh_Masked = bit h1 7, wh_MaskKey = key, wh_Length = n\<rparr>
    \<and> (if bit h1 7 then r2 = key @ rest \<and> length key = 4 else r2 = rest \<and> key = zeroKey)"
  proof (cases "bit h1 7")
    case True
    with eq 2 obtain key r3 where k: "ReadFull 4 r2 = Inr (key, r3)"
      by (cases "ReadFull 4 r2") (auto split: if_splits)
    with eq 2 True have "h = \<lparr>wh_Fin = bit h0 7, wh_RSV1 = bit h0 6, wh_RSV2 = bit h0 5, wh_RSV3 = bit h0 4,
      wh_Opcode = take_bit 4 h0, wh_Masked = bit h1 7, wh_MaskKey = key, wh_Length = n\<rparr>" "r3 = rest"
      by (simp_all split: if_splits)
    with k True show ?thesis unfolding ReadFull_Inr by auto
  next
    case False
    with eq 2 show ?thesis by (simp split: if_splits)
  qed
  then obtain key where h: "h = \<lparr>wh_Fin = bit h0 7, wh_RSV1 = bit h0 6, wh_RSV2 = bit h0 5,
      wh_RSV3 = bit h0 4, wh_Opcode = take_bit 4 h0, wh_Masked = bit h1 7, wh_MaskKey = key, wh_Length = n\<rparr>"
    "if bit h1 7 then r2 = key @ rest \<and> length key = 4 else r2 = rest \<and> key = zeroKey" by blast
  show thesis by (rule that[OF hdr(2), of r2]) (use 2 ctl h(2) in \<open>simp_all add: h(1)\<close>)
qed

text \<open>The frame header codec is exact in both directions. Every well-formed header (a four-bit
  opcode, a length below \<open>2^63\<close>, control frames final and at most 125 bytes) is written, and
  reading it back from the front of any stream gives the same header and leaves the rest; and every
  header that is read is well formed and is written back as the very bytes it was read from, so a
  length has only its shortest encoding.\<close>

theorem ws_header_exact:
  "(wf_header h \<longrightarrow> (\<exists>bs. WriteHeader h = Inr bs \<and> (\<forall>rest. ReadHeader (bs @ rest) = Inr (h, rest))))
   \<and> (ReadHeader r = Inr (h, rest') \<longrightarrow> wf_header h \<and> (\<exists>bs. WriteHeader h = Inr bs \<and> r = bs @ rest'))"
proof (intro conjI impI)
  assume wf: "wf_header h"
  obtain b1 ext where "headerLength (wh_Length h) = (b1, ext)" by (metis surj_pair)
  from WriteHeader_ok[OF wf this] obtain bs where "WriteHeader h = Inr bs" by blast
  with ReadHeader_WriteHeader[OF wf this]
  show "\<exists>bs. WriteHeader h = Inr bs \<and> (\<forall>rest. ReadHeader (bs @ rest) = Inr (h, rest))" by blast
next
  assume rd: "ReadHeader r = Inr (h, rest')"
  then obtain h0 h1 r1 r2 where r: "r = [h0, h1] @ r1"
    and rl: "readLength (unat (take_bit 7 h1)) r1 = Inr (wh_Length h, r2)"
    and f: "wh_Fin h = bit h0 7" "wh_RSV1 h = bit h0 6" "wh_RSV2 h = bit h0 5" "wh_RSV3 h = bit h0 4"
      "wh_Opcode h = take_bit 4 h0" "wh_Masked h = bit h1 7"
    and ctl: "bit (take_bit 4 h0) 3 \<longrightarrow> bit h0 7 \<and> wh_Length h \<le> 125"
    and key: "if bit h1 7 then r2 = wh_MaskKey h @ rest' \<and> length (wh_MaskKey h) = 4
              else r2 = rest' \<and> wh_MaskKey h = zeroKey"
    by (rule ReadHeader_fields)
  have "unat (take_bit 7 h1) < 128" using take_bit_nat_less_exp[of 7 "unat h1"] by (simp add: unsigned_take_bit_eq)
  note len = readLength_write[OF rl this]
  show wf: "wf_header h" using len f ctl key by (auto simp: wf_header_def split: if_splits)
  let ?ext = "take (length r1 - length r2) r1"
  have b1: "word_of_nat (unat (take_bit 7 h1)) = take_bit 7 h1" by simp
  have "headerByte0 h = h0"
  proof (rule bit_eqI)
    fix i assume "possible_bit TYPE(byte) i"
    then have "i < 4 \<or> i = 4 \<or> i = 5 \<or> i = 6 \<or> i = 7" by auto
    then show "bit (headerByte0 h) i = bit h0 i" by (auto simp: bit_headerByte0 f bit_take_bit_iff)
  qed
  moreover have "(if wh_Masked h then take_bit 7 h1 OR 0x80 else take_bit 7 h1) = h1"
  proof (rule bit_eqI)
    fix i assume "possible_bit TYPE(byte) i"
    then have "i < 7 \<or> i = 7" by auto
    then show "bit (if wh_Masked h then take_bit 7 h1 OR 0x80 else take_bit 7 h1) i = bit h1 i"
      unfolding bit_or_if bit_consts bit_take_bit_iff f by auto
  qed
  ultimately have "WriteHeader h = Inr ([h0, h1] @ ?ext @ (if wh_Masked h then wh_MaskKey h else []))"
    using WriteHeader_ok[OF wf] len b1 by simp
  moreover have "r = ([h0, h1] @ ?ext @ (if wh_Masked h then wh_MaskKey h else [])) @ rest'"
    using r len key f(6) by (auto split: if_splits)
  ultimately show "\<exists>bs. WriteHeader h = Inr bs \<and> r = bs @ rest'" by blast
qed

theorem ws_header_exact_witness:
  "\<exists>bs. WriteHeader \<lparr>wh_Fin = True, wh_RSV1 = False, wh_RSV2 = False, wh_RSV3 = False, wh_Opcode = 1,
     wh_Masked = True, wh_MaskKey = [1, 2, 3, 4], wh_Length = 300\<rparr> = Inr bs
   \<and> ReadHeader (bs @ [7]) = Inr (\<lparr>wh_Fin = True, wh_RSV1 = False, wh_RSV2 = False, wh_RSV3 = False,
        wh_Opcode = 1, wh_Masked = True, wh_MaskKey = [1, 2, 3, 4], wh_Length = 300\<rparr>, [7])"
proof -
  let ?h = "\<lparr>wh_Fin = True, wh_RSV1 = False, wh_RSV2 = False, wh_RSV3 = False, wh_Opcode = 1,
     wh_Masked = True, wh_MaskKey = [1, 2, 3, 4], wh_Length = 300\<rparr>"
  have "wf_header ?h" by (simp add: wf_header_def)
  with ws_header_exact[of ?h] show ?thesis by blast
qed

text \<open>The header codec as an instance of the codec contract.\<close>

definition encHeader :: "wsHeader \<Rightarrow> byte list" where
  "encHeader h = (case WriteHeader h of Inl _ \<Rightarrow> [] | Inr bs \<Rightarrow> bs)"

lemma encHeader_read: "wf_header h \<Longrightarrow> ReadHeader (encHeader h @ rest) = Inr (h, rest)"
proof -
  assume wf: "wf_header h"
  obtain b1 ext where "headerLength (wh_Length h) = (b1, ext)" by (metis surj_pair)
  from WriteHeader_ok[OF wf this] obtain bs where w: "WriteHeader h = Inr bs" by blast
  with ReadHeader_WriteHeader[OF wf w] show ?thesis by (simp add: encHeader_def)
qed

interpretation header_codec: wire_codec wf_header encHeader "\<lambda>r. okOf (ReadHeader r)"
  by unfold_locales (simp add: encHeader_read)

subsection \<open>Masking\<close>

lemma length_mask [simp]: "length (maskInPlace b key) = length b"
  by (simp add: maskInPlace_def)

lemma mask_involution [simp]: "maskInPlace (maskInPlace b key) key = b"
  by (rule nth_equalityI) (simp_all add: maskInPlace_def xor.assoc)

subsection \<open>Frames\<close>

text \<open>A well-formed frame: its header is, and the fields of a close frame are those of its
  payload.\<close>

definition wf_frame :: "wsFrame \<Rightarrow> bool" where
  "wf_frame f \<longleftrightarrow>
     wf_header (frameHeader f) \<and> length (wf_Payload f) < 2 ^ 63
     \<and> (if wf_Opcode f = OpcodeClose \<and> wf_Payload f \<noteq> []
        then length (wf_Payload f) \<ge> 2 \<and> wf_CloseCode f = uint (getBE (take 2 (wf_Payload f)))
             \<and> wf_CloseReason f = drop 2 (wf_Payload f)
        else wf_CloseCode f = 0 \<and> wf_CloseReason f = [])"

lemma closePayload_wf: "wf_frame f \<Longrightarrow> closePayload f = wf_Payload f"
  by (auto simp: wf_frame_def closePayload_def split: if_splits)

lemma parseClose_wf:
  assumes "wf_frame f"
  shows "parseClose (f\<lparr>wf_CloseCode := 0, wf_CloseReason := []\<rparr>) = Inr f"
  using assms by (cases f) (auto simp: wf_frame_def parseClose_def Let_def split: if_splits)

lemma ReadFrame_WriteFrame:
  assumes wf: "wf_frame f" and cap: "int (length (wf_Payload f)) \<le> cap" "0 < cap" "cap < 2 ^ 63"
    and w: "WriteFrame f = Inr bs"
  shows "ReadFrame cap (bs @ rest) = Inr (f, rest)"
proof -
  let ?h = "frameHeader f" and ?p = "wf_Payload f"
  let ?wire = "if wf_Masked f then maskInPlace ?p (wf_MaskKey f) else ?p"
  have cp: "closePayload f = ?p" using wf by (rule closePayload_wf)
  have wfh: "wf_header ?h" using wf by (simp add: wf_frame_def)
  obtain hdr where hdr: "WriteHeader ?h = Inr hdr" "bs = hdr @ ?wire"
    using w by (auto simp: WriteFrame_def cp Let_def maskInPlace_def split: sum.splits if_splits)
  have rh: "ReadHeader (bs @ rest) = Inr (?h, ?wire @ rest)"
    using ReadHeader_WriteHeader[OF wfh hdr(1)] hdr(2) by simp
  have len: "wh_Length ?h = word_of_nat (length ?p)" "unat (wh_Length ?h) = length ?p"
    using wf by (simp_all add: frameHeader_def cp wf_frame_def unat_of_nat)
  have "uint (word_of_int cap :: 64 word) = cap" using cap by (simp add: uint_word_of_int)
  moreover have "uint (wh_Length ?h) = int (length ?p)" using len(2) by (simp add: uint_nat)
  ultimately have le: "\<not> wh_Length ?h > word_of_int cap" using cap(1) by (simp add: word_less_def)
  have tf: "(toFrame ?h)\<lparr>wf_Payload := ?p\<rparr> = f\<lparr>wf_CloseCode := 0, wf_CloseReason := []\<rparr>"
    by (cases f) (simp add: toFrame_def frameHeader_def)
  have mk: "wh_Masked ?h = wf_Masked f" "wh_MaskKey ?h = wf_MaskKey f" by (simp_all add: frameHeader_def)
  have pos: "wh_Length ?h > 0 \<longleftrightarrow> ?p \<noteq> []" using len(2) by (auto simp: word_less_nat_alt)
  show ?thesis
  proof (cases "?p = []")
    case True
    then have "toFrame ?h = f\<lparr>wf_CloseCode := 0, wf_CloseReason := []\<rparr>" using tf
      by (cases f) (simp add: toFrame_def frameHeader_def)
    with True pos rh le cap(2) parseClose_wf[OF wf] show ?thesis
      by (simp add: ReadFrame_def Let_def maskInPlace_def)
  next
    case False
    have "ReadFull (length ?p) (?wire @ rest) = Inr (?wire, rest)" by (rule ReadFull_append) simp
    moreover have "(if wf_Masked f then maskInPlace ?wire (wf_MaskKey f) else ?wire) = ?p" by simp
    ultimately show ?thesis
      using False pos rh le cap(2) parseClose_wf[OF wf] tf
      by (simp add: ReadFrame_def Let_def len(2) mk)
  qed
qed

definition encFrame :: "wsFrame \<Rightarrow> byte list" where
  "encFrame f = (case WriteFrame f of Inl _ \<Rightarrow> [] | Inr bs \<Rightarrow> bs)"

lemma WriteFrame_ok: "wf_frame f \<Longrightarrow> \<exists>bs. WriteFrame f = Inr bs"
proof -
  assume wf: "wf_frame f"
  then have wfh: "wf_header (frameHeader f)" by (simp add: wf_frame_def)
  obtain b1 ext where "headerLength (wh_Length (frameHeader f)) = (b1, ext)" by (metis surj_pair)
  from WriteHeader_ok[OF wfh this] show ?thesis by (simp add: WriteFrame_def Let_def)
qed

text \<open>The codec of the frames that fit a payload cap.\<close>

interpretation frame_codec:
  wire_codec "\<lambda>f. wf_frame f \<and> 0 < cap \<and> cap < 2 ^ 63 \<and> int (length (wf_Payload f)) \<le> cap" encFrame
    "\<lambda>r. okOf (ReadFrame cap r)"
  for cap
proof unfold_locales
  fix f rest
  assume f: "wf_frame f \<and> 0 < cap \<and> cap < 2 ^ 63 \<and> int (length (wf_Payload f)) \<le> cap"
  then obtain bs where w: "WriteFrame f = Inr bs" using WriteFrame_ok by blast
  with ReadFrame_WriteFrame[OF _ _ _ _ w] f show "okOf (ReadFrame cap (encFrame f @ rest)) = Some (f, rest)"
    by (simp add: encFrame_def)
qed

text \<open>(C31) A session of frames survives the wire: well-formed frames within the reader's cap,
  masked or not, written one after the other, are read back as the same frames in the same order,
  with payloads unmasked and close codes parsed, and nothing of what follows is consumed.\<close>

theorem ws_frames_roundtrip:
  assumes "0 < cap" and "cap < 2 ^ 63"
    and "\<forall>f \<in> set fs. wf_frame f \<and> int (length (wf_Payload f)) \<le> cap"
  shows "decodeMany (\<lambda>r. okOf (ReadFrame cap r)) (length fs) (concat (map encFrame fs) @ rest) = Some (fs, rest)"
  using assms by (intro frame_codec.decode_many_concat) (auto simp: list_all_iff)

definition exFrames :: "wsFrame list" where
  "exFrames =
     [\<lparr>wf_Fin = True, wf_RSV1 = False, wf_RSV2 = False, wf_RSV3 = False, wf_Opcode = 2,
       wf_Masked = True, wf_MaskKey = [1, 2, 3, 4], wf_Payload = [10, 20, 30, 40, 50],
       wf_CloseCode = 0, wf_CloseReason = []\<rparr>,
      \<lparr>wf_Fin = True, wf_RSV1 = False, wf_RSV2 = False, wf_RSV3 = False, wf_Opcode = 8,
       wf_Masked = False, wf_MaskKey = zeroKey, wf_Payload = [3, 232],
       wf_CloseCode = 1000, wf_CloseReason = []\<rparr>]"

theorem ws_frames_roundtrip_witness:
  "decodeMany (\<lambda>r. okOf (ReadFrame 100 r)) (length exFrames) (concat (map encFrame exFrames) @ [1, 2, 3])
   = Some (exFrames, [1, 2, 3])"
proof -
  have "getBE [3, 232] = 1000" by (simp add: getBE_def)
  then have "\<forall>f \<in> set exFrames. wf_frame f \<and> int (length (wf_Payload f)) \<le> 100"
    by (simp add: exFrames_def wf_frame_def wf_header_def frameHeader_def closePayload_def OpcodeClose_def)
  then show ?thesis using ws_frames_roundtrip[of 100 exFrames "[1, 2, 3]"] by simp
qed

subsection \<open>Copying a payload\<close>

definition unmaskFrom :: "bool \<Rightarrow> byte list \<Rightarrow> nat \<Rightarrow> byte list \<Rightarrow> byte list" where
  "unmaskFrom masked key off b =
     (if masked then map (\<lambda>i. (b ! i) XOR (key ! ((off + i) mod 4))) [0..<length b] else b)"

lemma unmaskFrom_0: "unmaskFrom masked key 0 b = (if masked then maskInPlace b key else b)"
  by (simp add: unmaskFrom_def maskInPlace_def)

lemma length_unmaskFrom [simp]: "length (unmaskFrom m key off b) = length b"
  by (simp add: unmaskFrom_def)

lemma unmaskFrom_append:
  "unmaskFrom m key off (a @ b) = unmaskFrom m key off a @ unmaskFrom m key (off + length a) b"
  by (rule nth_equalityI) (auto simp: unmaskFrom_def nth_append add.assoc)

lemma unmaskFrom_take: "unmaskFrom m key off (take k b) = take k (unmaskFrom m key off b)"
  by (rule nth_equalityI) (auto simp: unmaskFrom_def)

lemma teeStore_eq:
  assumes "length stored \<le> nat storeMax"
  shows "teeStore m key storeMax off got stored =
    stored @ take (nat storeMax - length stored) (unmaskFrom m key off got)"
proof (cases "storeMax > 0 \<and> int (length stored) < storeMax")
  case False
  with assms have "nat storeMax - length stored = 0" by auto
  with False show ?thesis by (auto simp: teeStore_def)
next
  case True
  define k where "k = (if int (length stored + length got) > storeMax
                  then nat (storeMax - int (length stored)) else length got)"
  have "teeStore m key storeMax off got stored = stored @ unmaskFrom m key off (take k got)"
    using True by (simp add: teeStore_def k_def unmaskFrom_def Let_def)
  moreover have "take k got = take (nat storeMax - length stored) got"
    using True by (auto simp: k_def nat_diff_distrib)
  ultimately show ?thesis by (simp add: unmaskFrom_take)
qed

lemma teeLoop_chunk:
  assumes "off < n" "c = min 32768 (n - off)" "0 < c" "c \<le> length src" "\<not> werr off"
  shows "teeLoop werr n m key storeMax off src dst stored =
    teeLoop werr n m key storeMax (off + c) (drop c src) (dst @ take c src)
      (teeStore m key storeMax off (take c src) stored)"
proof -
  have "min c (length src) = c" "src \<noteq> []" using assms by auto
  with assms(1,3-) show ?thesis by (subst teeLoop.simps) (simp add: Let_def flip: assms(2))
qed

lemma teeLoop_spec:
  assumes "\<And>i. \<not> werr i" and "off \<le> n" and "n - off \<le> length src" and "length stored \<le> nat storeMax"
  shows "teeLoop werr n m key storeMax off src dst stored =
    (drop (n - off) src, dst @ take (n - off) src,
     stored @ take (nat storeMax - length stored) (unmaskFrom m key off (take (n - off) src)), None)"
  using assms(2-)
proof (induction "n - off" arbitrary: off src dst stored rule: less_induct)
  case less
  show ?case
  proof (cases "off < n")
    case False
    with less.prems show ?thesis by (simp add: teeLoop.simps unmaskFrom_def)
  next
    case True
    define c where "c = min 32768 (n - off)"
    let ?got = "take c src" and ?st = "teeStore m key storeMax off (take c src) stored"
    have c: "0 < c" "c \<le> length src" "c \<le> n - off" using True less.prems(2) by (auto simp: c_def)
    have st: "?st = stored @ take (nat storeMax - length stored) (unmaskFrom m key off ?got)"
      using less.prems(3) by (rule teeStore_eq)
    have step: "teeLoop werr n m key storeMax off src dst stored =
        teeLoop werr n m key storeMax (off + c) (drop c src) (dst @ ?got) ?st"
      using True c_def c(1,2) assms(1) by (rule teeLoop_chunk)
    have "teeLoop werr n m key storeMax (off + c) (drop c src) (dst @ ?got) ?st =
        (drop (n - (off + c)) (drop c src), (dst @ ?got) @ take (n - (off + c)) (drop c src),
         ?st @ take (nat storeMax - length ?st) (unmaskFrom m key (off + c) (take (n - (off + c)) (drop c src))), None)"
      using True c less.prems st by (intro less.hyps) auto
    moreover have "take (n - off) src = ?got @ take (n - (off + c)) (drop c src)"
      using c(3) by (metis diff_diff_left le_add_diff_inverse take_add)
    moreover have "nat storeMax - (length stored + min c (nat storeMax - length stored))
        = nat storeMax - (length stored + c)" using less.prems(3) by (simp add: min_def)
    ultimately show ?thesis
      unfolding step using c by (simp add: st unmaskFrom_append)
  qed
qed

text \<open>Forwarding a frame's payload while keeping a copy for the inbox changes no byte on the
  wire: with \<open>n\<close> bytes available and a destination that accepts them, exactly those bytes are
  written, the source is left right behind them, and what is stored is the unmasked payload cut at
  the store's limit.\<close>

theorem tee_forwards_and_stores_prefix:
  assumes "\<forall>i. \<not> werr i" and "unat n \<le> length src" and "0 \<le> storeMax"
  shows "TeePayload werr src n masked key storeMax =
    (drop (unat n) src, take (unat n) src,
     take (nat storeMax) (if masked then maskInPlace (take (unat n) src) key else take (unat n) src), None)"
proof (cases "n = 0")
  case True
  then show ?thesis by (simp add: TeePayload_def maskInPlace_def)
next
  case False
  with teeLoop_spec[of werr 0 "unat n" src "[]" storeMax masked key "[]"] assms show ?thesis
    by (simp add: TeePayload_def unmaskFrom_0)
qed

theorem tee_forwards_and_stores_prefix_witness:
  "TeePayload (\<lambda>_. False) [1, 2, 3, 4] 3 False zeroKey 2 = ([4], [1, 2, 3], [1, 2], None)"
  using tee_forwards_and_stores_prefix[of "\<lambda>_. False" 3 "[1, 2, 3, 4]" 2 False zeroKey] by simp

end
