(* ===== verification/GRPC_Decode.thy ===== *)
theory GRPC_Decode
  imports Model_Flow Wire_Codec
begin

text \<open>
  The best-effort gRPC decoder (\<open>internal/grpcx/decode.go\<close>): the length-prefixed envelope, the
  walk over the protobuf wire format and the summary attached to a flow. Offsets into the body are
  suffixes of it here. \<open>mime.ParseMediaType\<close> is an argument (\<open>parse\<close>), \<open>None\<close> when
  it reports an error.
\<close>

unbundle bit_operations_syntax

subsection \<open>Content types\<close>

datatype Class = ClassNone | ClassGRPC | ClassGRPCWeb

fun grpcHeaderValue :: "go_env \<Rightarrow> header list \<Rightarrow> string \<Rightarrow> string" where
  "grpcHeaderValue u [] name = ''''"
| "grpcHeaderValue u (h # hs) name =
     (if EqualFold u (hdr_Name h) name then hdr_Value h else grpcHeaderValue u hs name)"

definition mediaType :: "go_env \<Rightarrow> (string \<Rightarrow> string option) \<Rightarrow> string \<Rightarrow> string" where
  "mediaType u parse ct0 =
     (let ct = TrimSpace u ct0
      in if ct = '''' then ''''
         else case parse ct of
           None \<Rightarrow> ToLower u (TrimSpace u
             (case IndexByte ct (CHR '';'') of Some i \<Rightarrow> take i ct | None \<Rightarrow> ct))
         | Some mt \<Rightarrow> ToLower u mt)"

definition Classify :: "go_env \<Rightarrow> (string \<Rightarrow> string option) \<Rightarrow> string \<Rightarrow> Class" where
  "Classify u parse contentType =
     (let mt = mediaType u parse contentType
      in if mt \<in> {''application/grpc'', ''application/grpc+proto''} then ClassGRPC
         else if HasPrefix mt ''application/grpc-web'' then ClassGRPCWeb else ClassNone)"

definition CompressedEncoding :: "go_env \<Rightarrow> string \<Rightarrow> bool" where
  "CompressedEncoding u v =
     (ToLower u (TrimSpace u (takeWhile (\<lambda>c. c \<noteq> CHR '';'') v)) \<in> {''gzip'', ''deflate''})"

definition encodingOf :: "go_env \<Rightarrow> header list \<Rightarrow> string" where
  "encodingOf u hs =
     (let v = grpcHeaderValue u hs ''grpc-encoding''
      in if v \<noteq> '''' then v else grpcHeaderValue u hs ''message-encoding'')"

subsection \<open>UTF-8 text\<close>

text \<open>\<open>utf8.DecodeRune\<close>: the code point and its size, \<open>None\<close> for an invalid sequence
  (\<open>RuneError\<close> of size 1). The table gives the range of the second byte by the first.\<close>

definition secondRange :: "nat \<Rightarrow> (nat \<times> nat \<times> nat) option" where
  "secondRange b =
     (if 0xC2 \<le> b \<and> b \<le> 0xDF then Some (2, 0x80, 0xBF)
      else if b = 0xE0 then Some (3, 0xA0, 0xBF)
      else if b = 0xED then Some (3, 0x80, 0x9F)
      else if 0xE1 \<le> b \<and> b \<le> 0xEF then Some (3, 0x80, 0xBF)
      else if b = 0xF0 then Some (4, 0x90, 0xBF)
      else if 0xF1 \<le> b \<and> b \<le> 0xF3 then Some (4, 0x80, 0xBF)
      else if b = 0xF4 then Some (4, 0x80, 0x8F)
      else None)"

definition decodeRune :: "byte list \<Rightarrow> (nat \<times> nat) option" where
  "decodeRune b =
     (case b of [] \<Rightarrow> None
      | p0 # rest \<Rightarrow>
        if unat p0 < 0x80 then Some (unat p0, 1)
        else case secondRange (unat p0) of None \<Rightarrow> None
        | Some (sz, lo, hi) \<Rightarrow>
          (let cont = map unat (take (sz - 1) rest)
           in if length cont = sz - 1 \<and> lo \<le> hd cont \<and> hd cont \<le> hi
                 \<and> list_all (\<lambda>c. 0x80 \<le> c \<and> c \<le> 0xBF) (tl cont)
              then Some (foldl (\<lambda>r c. r * 64 + c mod 64)
                     (unat p0 mod (if sz = 2 then 32 else if sz = 3 then 16 else 8)) cont, sz)
              else None))"

lemma decodeRune_size: "decodeRune b = Some (r, sz) \<Longrightarrow> 0 < sz \<and> b \<noteq> []"
  by (auto simp: decodeRune_def secondRange_def Let_def split: list.splits if_splits option.splits)

function validUTF8 :: "byte list \<Rightarrow> bool" where
  "validUTF8 b =
     (if b = [] then True
      else case decodeRune b of None \<Rightarrow> False | Some (r, sz) \<Rightarrow> validUTF8 (drop sz b))"
  by pat_completeness auto
termination
  by (relation "measure length") (auto dest: decodeRune_size)

function printableRunes :: "byte list \<Rightarrow> bool" where
  "printableRunes b =
     (if b = [] then True
      else case decodeRune b of None \<Rightarrow> False
      | Some (r, sz) \<Rightarrow>
          if r < 0x20 \<and> r \<noteq> 9 \<and> r \<noteq> 10 \<and> r \<noteq> 13 then False
          else if r = 0x7f then False
          else printableRunes (drop sz b))"
  by pat_completeness auto
termination
  by (relation "measure length") (auto dest: decodeRune_size)

declare validUTF8.simps [simp del] printableRunes.simps [simp del]

definition isPrintableUTF8 :: "byte list \<Rightarrow> bool" where
  "isPrintableUTF8 b = (if length b = 0 \<or> \<not> validUTF8 b then False else printableRunes b)"

subsection \<open>Varints\<close>

fun varintLoop :: "nat \<Rightarrow> 64 word \<Rightarrow> byte list \<Rightarrow> (64 word \<times> nat) option" where
  "varintLoop i v [] = None"
| "varintLoop i v (x # b) =
     (if i < 10 then
        (let v' = v OR push_bit (7 * i) (ucast (x AND 0x7f))
         in if x < 0x80 then (if i = 9 \<and> x > 1 then None else Some (v', i + 1))
            else varintLoop (i + 1) v' b)
      else None)"

definition readVarint :: "byte list \<Rightarrow> (64 word \<times> nat) option" where
  "readVarint b = varintLoop 0 0 b"

lemma varintLoop_bounds: "varintLoop i v b = Some (r, n) \<Longrightarrow> i < n \<and> n \<le> i + length b"
proof (induction i v b rule: varintLoop.induct)
  case (2 i v x b)
  then show ?case by (fastforce simp: Let_def split: if_splits)
qed simp

lemma readVarint_bounds: "readVarint b = Some (v, n) \<Longrightarrow> 0 < n \<and> n \<le> length b"
  using varintLoop_bounds[of 0 0 b v n] by (simp add: readVarint_def)

subsection \<open>Messages\<close>

definition getLE :: "byte list \<Rightarrow> 64 word" where
  "getLE bs = getBE (rev bs)"

definition errTooDeep :: string where "errTooDeep = ''too_deep''"

text \<open>The value after a tag, by wire type: a number, or a length-delimited payload; with the rest.\<close>

datatype wire_value = BadValue | Scalar "64 word" "byte list" | Bytes "byte list" "byte list"

definition readValue :: "int \<Rightarrow> byte list \<Rightarrow> wire_value" where
  "readValue wt b =
     (if wt = 0 then
        (case readVarint b of None \<Rightarrow> BadValue | Some (v, n) \<Rightarrow> Scalar v (drop n b))
      else if wt = 1 then
        (if length b < 8 then BadValue else Scalar (getLE (take 8 b)) (drop 8 b))
      else if wt = 2 then
        (case readVarint b of None \<Rightarrow> BadValue
         | Some (ln, n) \<Rightarrow>
           (let b1 = drop n b
            in if unat ln > length b1 then BadValue
               else Bytes (take (unat ln) b1) (drop (unat ln) b1)))
      else if wt = 5 then
        (if length b < 4 then BadValue else Scalar (getLE (take 4 b)) (drop 4 b))
      else BadValue)"

lemma readValue_Scalar: "readValue wt b = Scalar v rest \<Longrightarrow> length rest < length b"
  by (auto simp: readValue_def Let_def split: if_splits option.splits dest: readVarint_bounds)

lemma readValue_Bytes: "readValue wt b = Bytes p rest \<Longrightarrow> length p + length rest < length b"
  by (auto simp: readValue_def Let_def split: if_splits option.splits dest!: readVarint_bounds)

definition bytesField :: "int \<Rightarrow> int \<Rightarrow> byte list \<Rightarrow> ProtoField list \<Rightarrow> string \<Rightarrow> ProtoField" where
  "bytesField num wt payload nested errTok =
     (if errTok = '''' \<and> nested \<noteq> [] \<and> \<not> isPrintableUTF8 payload
      then ProtoField num wt '''' 0 (Some nested)
      else if isPrintableUTF8 payload then ProtoField num wt (string_of payload) 0 None
      else if errTok = '''' \<and> nested \<noteq> [] then ProtoField num wt '''' 0 (Some nested)
      else ProtoField num wt '''' 0 None)"

function walkLoop :: "nat \<Rightarrow> byte list \<Rightarrow> ProtoField list \<Rightarrow> ProtoField list \<times> string" where
  "walkLoop depth b fs =
     (if b = [] then (fs, '''')
      else case readVarint b of None \<Rightarrow> (fs, GRPCDecodeMalformed)
      | Some (tag, n) \<Rightarrow>
        (let num = uint (drop_bit 3 tag); wt = uint (tag AND 7)
         in if num = 0 then (fs, GRPCDecodeMalformed)
            else case readValue wt (drop n b) of
              BadValue \<Rightarrow> (fs, GRPCDecodeMalformed)
            | Scalar v rest \<Rightarrow> walkLoop depth rest (fs @ [ProtoField num wt '''' v None])
            | Bytes payload rest \<Rightarrow>
              (case (if depth + 1 > GRPCMaxNestDepth then ([], errTooDeep)
                     else walkLoop (depth + 1) payload []) of
                 (nested, errTok) \<Rightarrow>
                   if errTok = errTooDeep then
                     (fs @ [ProtoField num wt
                        (if isPrintableUTF8 payload then string_of payload else '''') 0 None], errTooDeep)
                   else walkLoop depth rest (fs @ [bytesField num wt payload nested errTok]))))"
  by pat_completeness auto
termination
  by (relation "measure (\<lambda>(depth, b, fs). length b)")
    (auto dest!: readVarint_bounds readValue_Scalar readValue_Bytes)

declare walkLoop.simps [simp del]

definition walkMessage :: "byte list \<Rightarrow> nat \<Rightarrow> ProtoField list \<times> string" where
  "walkMessage b depth =
     (if depth > GRPCMaxNestDepth then ([], errTooDeep) else walkLoop depth b [])"

subsection \<open>The envelope\<close>

text \<open>One round of \<open>parseFrames\<close>: the flag and payload of the next length-prefixed message
  with the rest of the body, or the token of the error.\<close>

definition readEnvelope :: "byte list \<Rightarrow> string + ((byte \<times> byte list) \<times> byte list)" where
  "readEnvelope body =
     (if length body < 5 then Inl GRPCDecodeTruncated
      else if hd body > 1 then Inl GRPCDecodeMalformed
      else (let n = unat (getBE (take 4 (drop 1 body))); rest = drop 5 body
            in if n > length rest then Inl GRPCDecodeTruncated
               else Inr ((hd body, take n rest), drop n rest)))"

lemma readEnvelope_decreases:
  "readEnvelope body = Inr ((flag, payload), rest) \<Longrightarrow> length payload + length rest + 5 = length body"
  by (auto simp: readEnvelope_def Let_def split: if_splits)

text \<open>The message a payload becomes, with the error token that ends the parse. The fields of a
  compressed message are not decoded.\<close>

definition readMessage :: "byte \<Rightarrow> byte list \<Rightarrow> GRPCMessage \<times> string" where
  "readMessage flag payload =
     (let msg = \<lparr>gm_Compressed = (flag = 1), gm_Length = int (length payload), gm_Fields = None\<rparr>
      in if flag = 1 then (msg, '''')
         else (case walkMessage payload 1 of (fs, errTok) \<Rightarrow>
           (msg\<lparr>gm_Fields := append_nil fs\<rparr>,
            if errTok = errTooDeep then GRPCDecodeMalformed else errTok)))"

function parseFramesLoop :: "byte list \<Rightarrow> GRPCMessage list \<Rightarrow> GRPCMessage list \<times> string" where
  "parseFramesLoop body msgs =
     (if body = [] then (msgs, '''')
      else case readEnvelope body of Inl tok \<Rightarrow> (msgs, tok)
      | Inr ((flag, payload), rest) \<Rightarrow>
        (case readMessage flag payload of (msg, errTok) \<Rightarrow>
           if errTok \<noteq> '''' then (msgs @ [msg], errTok)
           else parseFramesLoop rest (msgs @ [msg])))"
  by pat_completeness auto
termination
  by (relation "measure (\<lambda>(body, msgs). length body)") (auto dest!: readEnvelope_decreases)

declare parseFramesLoop.simps [simp del]

definition parseFrames :: "byte list \<Rightarrow> GRPCMessage list \<times> string" where
  "parseFrames body = (if length body = 0 then ([], '''') else parseFramesLoop body [])"

definition GRPCDecodeBody :: "go_env \<Rightarrow> (string \<Rightarrow> string option) \<Rightarrow> string \<Rightarrow> string \<Rightarrow> byte list \<Rightarrow> GRPCInfo" where
  "GRPCDecodeBody u parse contentType encoding body =
     (let info = \<lparr>grpc_ContentType = mediaType u parse contentType, grpc_Compressed = False,
            grpc_Messages = None, grpc_Truncated = False, grpc_DecodeError = ''''\<rparr>
      in if CompressedEncoding u encoding then info\<lparr>grpc_Compressed := True\<rparr>
         else (case parseFrames body of (msgs, errTok) \<Rightarrow>
           info\<lparr>grpc_Messages := append_nil msgs, grpc_DecodeError := errTok,
                grpc_Truncated := (errTok = GRPCDecodeTruncated)\<rparr>))"

definition firstDecodeError :: "string \<Rightarrow> string \<Rightarrow> string" where
  "firstDecodeError cur nxt =
     (if cur = GRPCDecodeTruncated \<or> nxt = GRPCDecodeTruncated then GRPCDecodeTruncated
      else if cur \<noteq> '''' then cur else nxt)"

definition resultOf :: "GRPCInfo option \<Rightarrow> string" where
  "resultOf info =
     (case info of None \<Rightarrow> ''''
      | Some i \<Rightarrow>
        if grpc_Compressed i \<and> elems (grpc_Messages i) = [] \<and> grpc_DecodeError i = '''' then ''skipped''
        else if grpc_DecodeError i = GRPCDecodeTruncated then ''truncated''
        else if grpc_DecodeError i = GRPCDecodeMalformed then ''malformed''
        else ''ok'')"

text \<open>What \<open>DecodeFlow\<close> does with a side of class gRPC: its locals \<open>msgs\<close>,
  \<open>decodeErr\<close>, \<open>compressed\<close>, \<open>ct\<close> and \<open>truncated\<close> are the fields of the
  record it builds in the end.\<close>

definition addSide :: "go_env \<Rightarrow> (string \<Rightarrow> string option) \<Rightarrow> string \<Rightarrow> HTTPMessage \<Rightarrow> GRPCInfo \<Rightarrow> GRPCInfo" where
  "addSide u parse ct msg acc =
     (let side = GRPCDecodeBody u parse ct (encodingOf u (elems (msg_Headers msg))) (elems (msg_Body msg));
          err = firstDecodeError (grpc_DecodeError acc) (grpc_DecodeError side);
          cut = msg_Truncated msg \<and> err = ''''
      in \<lparr>grpc_ContentType = (if grpc_ContentType acc = '''' then grpc_ContentType side else grpc_ContentType acc),
          grpc_Compressed = (grpc_Compressed acc \<or> grpc_Compressed side),
          grpc_Messages = append_nil (elems (grpc_Messages acc) @ elems (grpc_Messages side)),
          grpc_Truncated = (grpc_Truncated acc \<or> grpc_Truncated side \<or> msg_Truncated msg \<or> cut),
          grpc_DecodeError = (if cut then GRPCDecodeTruncated else err)\<rparr>)"

definition DecodeFlow :: "go_env \<Rightarrow> (string \<Rightarrow> string option) \<Rightarrow> Flow option \<Rightarrow> GRPCInfo option \<times> string" where
  "DecodeFlow u parse fl =
     (case fl of None \<Rightarrow> (None, '''')
      | Some f \<Rightarrow>
        (let reqCT = grpcHeaderValue u (elems (msg_Headers (fl_Request f))) ''content-type'';
             respCT = grpcHeaderValue u (elems (msg_Headers (fl_Response f))) ''content-type'';
             reqClass = Classify u parse reqCT; respClass = Classify u parse respCT
         in if reqClass \<noteq> ClassGRPC \<and> respClass \<noteq> ClassGRPC then
              (if reqClass = ClassGRPCWeb \<or> respClass = ClassGRPCWeb then (None, ''skipped'') else (None, ''''))
            else
              (let i0 = \<lparr>grpc_ContentType = '''', grpc_Compressed = False, grpc_Messages = None,
                     grpc_Truncated = False, grpc_DecodeError = ''''\<rparr>;
                   i1 = (if reqClass = ClassGRPC then addSide u parse reqCT (fl_Request f) i0 else i0);
                   i2 = (if respClass = ClassGRPC then addSide u parse respCT (fl_Response f) i1 else i1)
               in (Some i2, resultOf (Some i2)))))"

definition Frame :: "bool \<Rightarrow> byte list \<Rightarrow> byte list" where
  "Frame compressed msg =
     (if compressed then 1 else 0) # putBE 4 (of_nat (length msg)) @ msg"

end
