(* ===== verification/GRPC_Props.thy ===== *)
theory GRPC_Props
  imports GRPC_Decode
begin

text \<open>
  What the gRPC decoder guarantees. \<open>encVarint\<close>, \<open>encField\<close> and \<open>encFields\<close> are the
  encoder of the protobuf wire format as its specification gives it; the decoder inverts it, message
  by message and envelope by envelope. For any input at all, the decoded tree is bounded in depth
  and in size, so a captured body cannot make the inbox charge more than nine bytes per byte of it.
\<close>

unbundle bit_operations_syntax

subsection \<open>Varints\<close>

function encVarint :: "64 word \<Rightarrow> byte list" where
  "encVarint v = (if v < 0x80 then [ucast v] else (ucast v OR 0x80) # encVarint (drop_bit 7 v))"
  by pat_completeness auto
termination
proof (relation "measure unat", goal_cases)
  case (2 v)
  then have "unat (drop_bit 7 v) < unat v"
    by (simp add: unat_drop_bit_eq drop_bit_nat_def word_less_nat_alt)
  then show ?case by simp
qed simp

declare encVarint.simps [simp del]


lemma bit_septet: "bit (0x7f :: byte) k \<longleftrightarrow> k < 7"
  using bit_mask_iff[of 7 k, where 'a = byte] by (auto simp: mask_eq_exp_minus_1)

lemma bit_more: "bit (0x80 :: byte) k \<longleftrightarrow> k = 7"
  using bit_push_bit_iff[of 7 "1 :: byte" k] by (auto simp: bit_1_iff push_bit_eq_mult)

lemma septet_step:
  "(a OR push_bit (7 * i) (ucast ((ucast v OR 0x80 :: byte) AND 0x7f))) OR push_bit (7 * Suc i) (drop_bit 7 v)
    = a OR push_bit (7 * i) (v :: 64 word)"
proof (rule bit_eqI)
  fix n
  show "bit ((a OR push_bit (7 * i) (ucast ((ucast v OR 0x80 :: byte) AND 0x7f))) OR push_bit (7 * Suc i) (drop_bit 7 v)) n
    = bit (a OR push_bit (7 * i) v) n"
  proof (cases "7 * i \<le> n")
    case True
    then obtain k where "n = 7 * i + k" using le_Suc_ex by blast
    then show ?thesis
      unfolding bit_or_iff bit_push_bit_iff bit_and_iff bit_unsigned_iff bit_drop_bit_eq bit_septet bit_more
      by (cases "k < 7") (auto simp: not_less bit_septet bit_more)
  qed (simp add: bit_simps)
qed

lemma unat_ucast_byte: "unat (ucast v :: byte) = unat v mod 256" for v :: "64 word"
  by (simp add: unsigned_ucast_eq unsigned_take_bit_eq take_bit_eq_mod)

lemma below_septet: "x < 0x80 \<Longrightarrow> take_bit 7 x = (x :: byte)"
  by (simp add: take_bit_eq_mod mod_word_less)

lemma septet_last:
  assumes "v < 0x80"
  shows "(ucast v :: byte) < 0x80" and "ucast ((ucast v :: byte) AND 0x7f) = (v :: 64 word)"
proof -
  have v: "unat v < 128" using assms by (simp add: word_less_nat_alt)
  then show "(ucast v :: byte) < 0x80" by (simp add: word_less_nat_alt unat_ucast_byte)
  have "take_bit 7 v = v" using assms by (simp add: take_bit_eq_mod mod_word_less)
  then have *: "bit v n \<Longrightarrow> n < 7" for n by (metis bit_take_bit_iff)
  show "ucast ((ucast v :: byte) AND 0x7f) = v"
    by (rule bit_eqI, unfold bit_unsigned_iff bit_and_iff bit_septet) (use * in fastforce)
qed

lemma septet_more: "\<not> (ucast v OR 0x80 :: byte) < 0x80" for v :: "64 word"
proof
  assume "(ucast v OR 0x80 :: byte) < 0x80"
  then have "\<not> bit (ucast v OR 0x80 :: byte) 7" by (metis below_septet bit_take_bit_iff less_irrefl)
  then show False unfolding bit_or_iff bit_more by simp
qed

lemma drop_one_zero: "drop_bit 1 v = 0 \<Longrightarrow> unat v < 2" for v :: "64 word"
proof -
  assume "drop_bit 1 v = 0"
  then have "drop_bit 1 (unat v) = 0" by (simp flip: unat_drop_bit_eq)
  then show ?thesis by (simp add: drop_bit_nat_def)
qed

lemma varintLoop_encVarint:
  "i \<le> 9 \<Longrightarrow> drop_bit (64 - 7 * i) v = 0 \<Longrightarrow>
   varintLoop i a (encVarint v @ rest) = Some (a OR push_bit (7 * i) v, i + length (encVarint v))"
proof (induction v arbitrary: i a rule: encVarint.induct)
  case (1 v)
  show ?case
  proof (cases "v < 0x80")
    case True
    have "\<not> 1 < (ucast v :: byte)" if "i = 9"
      using drop_one_zero[of v] 1 that by (simp add: word_less_nat_alt unat_ucast_byte)
    with True 1 show ?thesis by (auto simp: encVarint.simps[of v] septet_last)
  next
    case False
    then have "i \<noteq> 9" using 1 drop_one_zero[of v] by (auto simp: word_less_nat_alt)
    with 1 have "i < 9" by simp
    then have "64 - 7 * i = 64 - 7 * Suc i + 7" by simp
    then have d: "drop_bit (64 - 7 * Suc i) (drop_bit 7 v) = 0" using 1(3) by (simp only: drop_bit_drop_bit)
    have "varintLoop (Suc i) a (encVarint (drop_bit 7 v) @ rest) =
        Some (a OR push_bit (7 * Suc i) (drop_bit 7 v), Suc i + length (encVarint (drop_bit 7 v)))" for a
      by (rule "1.IH"[OF False _ d]) (use \<open>i < 9\<close> in simp)
    with False \<open>i < 9\<close> show ?thesis
      by (simp add: encVarint.simps[of v] septet_more septet_step del: mult_Suc_right)
  qed
qed

lemma readVarint_encVarint:
  "readVarint (encVarint v @ rest) = Some (v, length (encVarint v))"
proof -
  have "drop_bit 64 v = 0" by (rule bit_eqI) (auto simp: bit_drop_bit_eq dest: bit_imp_le_length)
  then show ?thesis using varintLoop_encVarint[of 0 v 0 rest] by (simp add: readVarint_def)
qed


text \<open>Varints as a codec.\<close>

definition takeVarint :: "byte list \<Rightarrow> (64 word \<times> byte list) option" where
  "takeVarint b = map_option (\<lambda>(v, n). (v, drop n b)) (readVarint b)"

interpretation varint_codec: wire_codec "\<lambda>_. True" encVarint takeVarint
  by unfold_locales (simp add: takeVarint_def readVarint_encVarint)

lemma readEnvelope_Frame:
  assumes "length msg < 2 ^ 32"
  shows "readEnvelope (Frame compressed msg @ rest) = Inr ((if compressed then 1 else 0, msg), rest)"
proof -
  have n: "unat (of_nat (length msg) :: 64 word) = length msg" using assms by (simp add: unat_of_nat)
  with assms have "getBE (putBE 4 (of_nat (length msg))) = of_nat (length msg)"
    by (simp add: getBE_putBE take_bit_eq_mod mod_word_less word_less_nat_alt)
  with n show ?thesis by (simp add: readEnvelope_def Frame_def Let_def)
qed

definition takeEnvelope :: "byte list \<Rightarrow> ((bool \<times> byte list) \<times> byte list) option" where
  "takeEnvelope b = map_option (\<lambda>((flag, msg), rest). ((flag = 1, msg), rest)) (okOf (readEnvelope b))"

interpretation envelope_codec: wire_codec "\<lambda>(compressed, msg). length msg < 2 ^ 32"
  "\<lambda>(compressed, msg). Frame compressed msg" takeEnvelope
  by unfold_locales (auto simp: takeEnvelope_def readEnvelope_Frame)

subsection \<open>Messages\<close>

text \<open>The reference encoder. A field is well formed at a nesting depth when the decoder can tell
  what it is: the wire format does not distinguish text from a nested message, and the decoder
  reports printable bytes as text; a payload that reads as messages nested too deep is refused.\<close>

definition fieldTag :: "int \<Rightarrow> int \<Rightarrow> 64 word" where
  "fieldTag num wt = word_of_int (num * 8 + wt)"

fun encField :: "ProtoField \<Rightarrow> byte list" where
  "encField (ProtoField num wt tx v nested) =
     encVarint (fieldTag num wt) @
     (if wt = 0 then encVarint v
      else if wt = 1 then rev (putBE 8 v)
      else if wt = 5 then rev (putBE 4 v)
      else (let payload = (case nested of None \<Rightarrow> bytes_of tx | Some fs \<Rightarrow> concat (map encField fs))
            in encVarint (of_nat (length payload)) @ payload))"

definition encFields :: "ProtoField list \<Rightarrow> byte list" where
  "encFields fs = concat (map encField fs)"

fun wfField :: "nat \<Rightarrow> ProtoField \<Rightarrow> bool" where
  "wfField depth (ProtoField num wt tx v nested) \<longleftrightarrow>
     0 < num \<and> num < 2 ^ 61 \<and>
     (if wt = 2 then
        v = 0 \<and> depth < GRPCMaxNestDepth \<and>
        (case nested of
           None \<Rightarrow> int (length tx) < 2 ^ 64 \<and> (tx = '''' \<or> isPrintableUTF8 (bytes_of tx))
             \<and> snd (walkMessage (bytes_of tx) (depth + 1)) \<noteq> errTooDeep
         | Some fs \<Rightarrow> tx = '''' \<and> fs \<noteq> [] \<and> \<not> isPrintableUTF8 (concat (map encField fs))
             \<and> int (length (concat (map encField fs))) < 2 ^ 64 \<and> list_all (wfField (depth + 1)) fs)
      else wt \<in> {0, 1, 5} \<and> tx = '''' \<and> nested = None \<and> (wt = 5 \<longrightarrow> v < 2 ^ 32))"


lemma encVarint_not_Nil [simp]: "encVarint v \<noteq> []"
  by (simp add: encVarint.simps[of v])

lemma tag_parts:
  assumes "0 < num" and "num < 2 ^ 61" and "0 \<le> wt" and "wt < 8"
  shows "uint (drop_bit 3 (fieldTag num wt)) = num"
    and "uint ((fieldTag num wt) AND 7) = wt"
proof -
  have u: "uint (fieldTag num wt) = num * 8 + wt"
    unfolding fieldTag_def by (subst uint_word_of_int_eq, rule take_bit_int_eq_self) (use assms in auto)
  then show "uint (drop_bit 3 (fieldTag num wt)) = num"
    using assms by (simp add: drop_bit_eq_div uint_div)
  have "(fieldTag num wt) AND 7 = take_bit 3 (fieldTag num wt)"
    by (simp add: take_bit_eq_mask mask_eq_exp_minus_1)
  then show "uint ((fieldTag num wt) AND 7) = wt"
    using assms u by (simp add: take_bit_eq_mod uint_mod)
qed

lemma walkLoop_tag:
  assumes "0 < num" and "num < 2 ^ 61" and "0 \<le> wt" and "wt < 8"
  shows "walkLoop depth (encVarint (fieldTag num wt) @ b) acc =
    (case readValue wt b of
       BadValue \<Rightarrow> (acc, GRPCDecodeMalformed)
     | Scalar v rest \<Rightarrow> walkLoop depth rest (acc @ [ProtoField num wt '''' v None])
     | Bytes payload rest \<Rightarrow>
        (case walkMessage payload (depth + 1) of (nested, errTok) \<Rightarrow>
           if errTok = errTooDeep then
             (acc @ [ProtoField num wt
                (if isPrintableUTF8 payload then string_of payload else '''') 0 None], errTooDeep)
           else walkLoop depth rest (acc @ [bytesField num wt payload nested errTok])))"
proof -
  have "num \<noteq> 0" using assms by simp
  then show ?thesis
    unfolding walkLoop.simps[of depth "encVarint (fieldTag num wt) @ b"] readVarint_encVarint
      option.case prod.case Let_def tag_parts[OF assms] walkMessage_def
    by simp
qed

lemma take_bit_word_full: "take_bit 64 v = (v :: 64 word)"
  by (rule take_bit_word_eq_self) simp

lemma readValue_scalars:
  "readValue 0 (encVarint v @ rest) = Scalar v rest"
  "readValue 1 (rev (putBE 8 v) @ rest) = Scalar v rest"
  "v < 2 ^ 32 \<Longrightarrow> readValue 5 (rev (putBE 4 v) @ rest) = Scalar v rest"
  by (simp_all add: readValue_def readVarint_encVarint getLE_def getBE_putBE take_bit_word_full take_bit_eq_mod[of 32] mod_word_less)

lemma readValue_payload:
  "length p < 2 ^ 64 \<Longrightarrow> readValue 2 (encVarint (of_nat (length p)) @ p @ rest) = Bytes p rest"
  by (simp add: readValue_def readVarint_encVarint unat_of_nat Let_def)

lemma walkLoop_concat:
  assumes "\<And>f rest acc. f \<in> set fs \<Longrightarrow>
    walkLoop d (encField f @ rest) acc = walkLoop d rest (acc @ [f])"
  shows "walkLoop d (encFields fs) acc = (acc @ fs, '''')"
  using assms by (induction fs arbitrary: acc) (simp_all add: encFields_def walkLoop.simps[of d "[]"])

lemma walkLoop_field:
  "wfField d f \<Longrightarrow> walkLoop d (encField f @ rest) acc = walkLoop d rest (acc @ [f])"
proof (induction f arbitrary: d rest acc)
  case (ProtoField num wt tx v nested)
  show ?case
  proof (cases "wt = 2")
    case False
    with ProtoField.prems show ?thesis by (auto simp: walkLoop_tag readValue_scalars)
  next
    case wt: True
    show ?thesis
    proof (cases nested)
      case None
      have "bytesField num 2 (bytes_of tx) n e = ProtoField num 2 tx 0 None" if "tx \<noteq> ''''" for n e
        using that ProtoField.prems wt None by (simp add: bytesField_def)
      moreover have "bytesField num 2 [] n e = ProtoField num 2 [] 0 None" if "n = []" for n e
        using that by (simp add: bytesField_def isPrintableUTF8_def)
      moreover have "walkMessage [] (d + 1) = ([], '''')" if "d < GRPCMaxNestDepth"
        using that by (simp add: walkMessage_def walkLoop.simps[of _ "[]"])
      ultimately show ?thesis using ProtoField.prems wt None
        using readValue_payload[of "bytes_of tx" rest] readValue_payload[of "[]" rest]
        by (cases "tx = ''''") (auto simp: walkLoop_tag bytes_of_def errTooDeep_def split: prod.splits)
    next
      case (Some fs)
      have wf: "list_all (wfField (d + 1)) fs" "d < GRPCMaxNestDepth" using ProtoField.prems wt Some by auto
      have "walkLoop (d + 1) (encFields fs) [] = ([] @ fs, '''')"
        by (rule walkLoop_concat, rule ProtoField.IH) (use wf Some in \<open>auto simp: list_all_iff\<close>)
      then have "walkMessage (encFields fs) (d + 1) = (fs, '''')" using wf by (simp add: walkMessage_def)
      then show ?thesis using ProtoField.prems wt Some
        by (simp add: walkLoop_tag readValue_payload bytesField_def errTooDeep_def Let_def flip: encFields_def)
    qed
  qed
qed


lemma protobuf_roundtrip:
  assumes "depth \<le> GRPCMaxNestDepth" and "list_all (wfField depth) fs"
  shows "walkMessage (encFields fs) depth = (fs, '''')"
proof -
  have "walkLoop depth (encFields fs) [] = ([] @ fs, '''')"
    by (rule walkLoop_concat, rule walkLoop_field) (use assms in \<open>auto simp: list_all_iff\<close>)
  with assms show ?thesis by (simp add: walkMessage_def)
qed

text \<open>The message the decoder reports for a payload in an envelope.\<close>

definition frameMessage :: "bool \<Rightarrow> byte list \<Rightarrow> GRPCMessage" where
  "frameMessage compressed msg = fst (readMessage (if compressed then 1 else 0) msg)"

lemma parseFramesLoop_Frame:
  assumes "length msg < 2 ^ 32" and "snd (readMessage (if c then 1 else 0) msg) = ''''"
  shows "parseFramesLoop (Frame c msg @ rest) acc = parseFramesLoop rest (acc @ [frameMessage c msg])"
proof -
  have "Frame c msg \<noteq> []" by (simp add: Frame_def)
  moreover obtain m where "readMessage (if c then 1 else 0) msg = (m, '''')" using assms(2) by (metis prod.collapse)
  ultimately show ?thesis
    using assms(1) by (simp add: parseFramesLoop.simps[of "Frame c msg @ rest"] readEnvelope_Frame frameMessage_def)
qed

lemma parseFramesLoop_frames:
  assumes "\<forall>(c, msg) \<in> set ms. length msg < 2 ^ 32 \<and> snd (readMessage (if c then 1 else 0) msg) = ''''"
  shows "parseFramesLoop (concat (map (\<lambda>(c, msg). Frame c msg) ms) @ rest) acc =
    parseFramesLoop rest (acc @ map (\<lambda>(c, msg). frameMessage c msg) ms)"
  using assms
proof (induction ms arbitrary: acc)
  case (Cons m ms)
  then show ?case by (cases m) (auto simp: parseFramesLoop_Frame)
qed simp

fun fieldDepth :: "ProtoField \<Rightarrow> nat" where
  "fieldDepth (ProtoField num wt tx v nested) =
     (case nested of None \<Rightarrow> 1 | Some fs \<Rightarrow> 1 + foldr (\<lambda>f n. max (fieldDepth f) n) fs 0)"

definition fieldsOK :: "nat \<Rightarrow> nat \<Rightarrow> ProtoField list \<Rightarrow> bool" where
  "fieldsOK depth n fs \<longleftrightarrow> (\<forall>f \<in> set fs. depth + fieldDepth f \<le> GRPCMaxNestDepth + 1)
     \<and> sum_list (map protoFieldResident fs) \<le> 9 * int n"

lemma fieldsOK_Cons:
  assumes "fieldsOK depth k [f]" and "fieldsOK depth n fs" and "k + n \<le> m"
  shows "fieldsOK depth m (f # fs)"
  using assms by (auto simp: fieldsOK_def)

lemma foldr_max_le: "(\<forall>f \<in> set fs. (g f :: nat) \<le> k) \<Longrightarrow> foldr (\<lambda>f n. max (g f) n) fs 0 \<le> k"
  by (induction fs) auto

lemma fieldsOK_leaf:
  assumes "depth \<le> GRPCMaxNestDepth" and "length tx + 2 \<le> k"
  shows "fieldsOK depth k [ProtoField num wt tx v None]"
  using assms by (simp add: fieldsOK_def GRPCFieldOverhead_def)

lemma fieldsOK_bytes:
  assumes "depth \<le> GRPCMaxNestDepth" and "length payload + 2 \<le> k"
    and "depth < GRPCMaxNestDepth \<Longrightarrow> fieldsOK (depth + 1) (length payload) nested"
    and "depth = GRPCMaxNestDepth \<Longrightarrow> nested = []"
  shows "fieldsOK depth k [bytesField num wt payload nested errTok]"
proof -
  have "fieldsOK depth k [ProtoField num wt '''' 0 (Some nested)]" if "nested \<noteq> []"
  proof -
    have d: "depth < GRPCMaxNestDepth" and ok: "fieldsOK (depth + 1) (length payload) nested"
      using assms that by force+
    then have "foldr (\<lambda>f n. max (fieldDepth f) n) nested 0 \<le> GRPCMaxNestDepth - depth"
      by (intro foldr_max_le) (auto simp: fieldsOK_def)
    with d ok assms(2) show ?thesis by (simp add: fieldsOK_def GRPCFieldOverhead_def)
  qed
  moreover have "length (string_of payload) = length payload" by (simp add: string_of_def)
  ultimately show ?thesis
    using assms(1,2) by (auto simp: bytesField_def fieldsOK_leaf)
qed

lemma walkLoop_step:
  obtains (stop) tok where "walkLoop depth b acc = (acc, tok)" and "tok \<in> {'''', GRPCDecodeMalformed}"
  | (scalar) num wt v rest where "length rest + 2 \<le> length b"
      and "walkLoop depth b acc = walkLoop depth rest (acc @ [ProtoField num wt '''' v None])"
  | (deep) num wt p where "length p + 2 \<le> length b"
      and "walkLoop depth b acc = (acc @ [ProtoField num wt
             (if isPrintableUTF8 p then string_of p else '''') 0 None], errTooDeep)"
  | (bytes) num wt p rest nested errTok where "length p + length rest + 2 \<le> length b"
      and "walkMessage p (depth + 1) = (nested, errTok)"
      and "walkLoop depth b acc = walkLoop depth rest (acc @ [bytesField num wt p nested errTok])"
proof (cases "readVarint b")
  case None
  then have "walkLoop depth b acc = (acc, if b = [] then '''' else GRPCDecodeMalformed)"
    by (simp add: walkLoop.simps[of depth b])
  then show ?thesis by (rule stop) simp
next
  case (Some tn)
  obtain tag n where tn: "tn = (tag, n)" by (cases tn)
  with Some have n: "0 < n" "n \<le> length b" using readVarint_bounds by blast+
  then have b: "b \<noteq> []" by auto
  let ?num = "uint (drop_bit 3 tag)" and ?wt = "uint (tag AND 7)"
  show ?thesis
  proof (cases "?num = 0 \<or> readValue ?wt (drop n b) = BadValue")
    case True
    with Some tn b show ?thesis by (intro stop) (auto simp: walkLoop.simps[of depth b] Let_def)
  next
    case num: False
    show ?thesis
    proof (cases "readValue ?wt (drop n b)")
      case BadValue
      with num show ?thesis by simp
    next
      case (Scalar v rest)
      with readValue_Scalar[OF Scalar] n num Some tn b show ?thesis
        by (intro scalar[of rest ?num ?wt v]) (auto simp: walkLoop.simps[of depth b] Let_def)
    next
      case (Bytes p rest)
      obtain nested errTok where w: "walkMessage p (depth + 1) = (nested, errTok)" by fastforce
      have len: "length p + length rest + 2 \<le> length b" using readValue_Bytes[OF Bytes] n by simp
      have e: "walkLoop depth b acc =
         (if errTok = errTooDeep then
            (acc @ [ProtoField ?num ?wt (if isPrintableUTF8 p then string_of p else '''') 0 None], errTooDeep)
          else walkLoop depth rest (acc @ [bytesField ?num ?wt p nested errTok]))"
        using w num Some tn b Bytes
        by (simp add: walkLoop.simps[of depth b] Let_def walkMessage_def split: if_splits)
      show ?thesis
        using deep[of p] bytes[OF len w] e len by (cases "errTok = errTooDeep") auto
    qed
  qed
qed

lemma walkLoop_bounds:
  "walkLoop depth b acc = (fs, tok) \<Longrightarrow> depth \<le> GRPCMaxNestDepth \<Longrightarrow>
   \<exists>new. fs = acc @ new \<and> fieldsOK depth (length b) new \<and> tok \<in> {'''', GRPCDecodeMalformed, errTooDeep}"
proof (induction "length b" arbitrary: depth b acc fs tok rule: less_induct)
  case less
  have nested: "fieldsOK (depth + 1) (length p) nested"
    if "length p < length b" "walkMessage p (depth + 1) = (nested, e)" "depth < GRPCMaxNestDepth" for p nested e
    using less.hyps[of p "depth + 1" "[]" nested e] that by (auto simp: walkMessage_def)
  show ?case
  proof (cases rule: walkLoop_step[of depth b acc])
    case (stop t)
    then show ?thesis using less.prems by (intro exI[of _ "[]"]) (auto simp: fieldsOK_def)
  next
    case (scalar num wt v rest)
    then have "length rest < length b" by simp
    from less.hyps[OF this, of depth _ fs tok] scalar less.prems obtain new where
      "fs = (acc @ [ProtoField num wt '''' v None]) @ new" "fieldsOK depth (length rest) new"
      "tok \<in> {'''', GRPCDecodeMalformed, errTooDeep}" by metis
    then show ?thesis using scalar less.prems
      by (intro exI[of _ "ProtoField num wt '''' v None # new"])
        (auto intro!: fieldsOK_Cons[of depth 2] fieldsOK_leaf)
  next
    case (deep num wt p)
    let ?f = "ProtoField num wt (if isPrintableUTF8 p then string_of p else '''') 0 None"
    have "fieldsOK depth (length b) [?f]"
      using deep less.prems by (intro fieldsOK_leaf) (auto simp: string_of_def)
    then show ?thesis using deep less.prems by (intro exI[of _ "[?f]"]) simp
  next
    case (bytes num wt p rest nested errTok)
    then have "length rest < length b" "length p < length b" by simp_all
    from less.hyps[OF this(1), of depth _ fs tok] bytes less.prems obtain new where
      new: "fs = (acc @ [bytesField num wt p nested errTok]) @ new" "fieldsOK depth (length rest) new"
      "tok \<in> {'''', GRPCDecodeMalformed, errTooDeep}" by metis
    have "fieldsOK depth (length p + 2) [bytesField num wt p nested errTok]"
      using less.prems bytes nested[OF \<open>length p < length b\<close>]
      by (intro fieldsOK_bytes) (auto simp: walkMessage_def)
    from this new(2) have "fieldsOK depth (length b) (bytesField num wt p nested errTok # new)"
      by (rule fieldsOK_Cons) (use bytes(1) in linarith)
    with new show ?thesis by (intro exI[of _ "bytesField num wt p nested errTok # new"]) simp
  qed
qed

lemma readMessage_bounds:
  assumes "readMessage flag p = (m, tok)"
  shows "(\<forall>f \<in> set (elems (gm_Fields m)). fieldDepth f \<le> GRPCMaxNestDepth)
    \<and> grpcMessageResident m \<le> 9 * int (length p + 5) \<and> tok \<in> {'''', GRPCDecodeMalformed}"
proof (cases "flag = 1")
  case True
  with assms show ?thesis by (auto simp: readMessage_def grpcMessageResident_def GRPCFieldOverhead_def)
next
  case False
  obtain fs t where w: "walkMessage p 1 = (fs, t)" by fastforce
  then have "fieldsOK 1 (length p) fs \<and> t \<in> {'''', GRPCDecodeMalformed, errTooDeep}"
    using walkLoop_bounds[of 1 p "[]" fs t] by (auto simp: walkMessage_def GRPCMaxNestDepth_def)
  with False assms w show ?thesis
    by (auto simp: readMessage_def fieldsOK_def grpcMessageResident_def GRPCFieldOverhead_def split: if_splits)
qed

definition messagesOK :: "nat \<Rightarrow> GRPCMessage list \<Rightarrow> bool" where
  "messagesOK n ms \<longleftrightarrow>
     (\<forall>m \<in> set ms. \<forall>f \<in> set (elems (gm_Fields m)). fieldDepth f \<le> GRPCMaxNestDepth)
     \<and> sum_list (map grpcMessageResident ms) \<le> 9 * int n"

lemma parseFramesLoop_bounds:
  "parseFramesLoop b acc = (ms, tok) \<Longrightarrow>
   \<exists>new. ms = acc @ new \<and> messagesOK (length b) new \<and> tok \<in> {'''', GRPCDecodeMalformed, GRPCDecodeTruncated}"
proof (induction "length b" arbitrary: b acc ms tok rule: less_induct)
  case less
  show ?case
  proof (cases "b = []")
    case True
    with less.prems show ?thesis by (auto simp: parseFramesLoop.simps[of "[]"] messagesOK_def)
  next
    case b: False
    show ?thesis
    proof (cases "readEnvelope b")
      case (Inl t)
      then have "t \<in> {GRPCDecodeMalformed, GRPCDecodeTruncated}"
        by (auto simp: readEnvelope_def Let_def split: if_splits)
      with Inl b less.prems show ?thesis by (auto simp: parseFramesLoop.simps[of b] messagesOK_def)
    next
      case (Inr e)
      obtain flag p rest where e: "e = ((flag, p), rest)" by (metis surj_pair)
      obtain m t where m: "readMessage flag p = (m, t)" by fastforce
      have len: "length p + length rest + 5 = length b" using readEnvelope_decreases Inr e by blast
      note ok = readMessage_bounds[OF m]
      show ?thesis
      proof (cases "t = ''''")
        case False
        with Inr e m b less.prems have "ms = acc @ [m]" "tok = t" by (auto simp: parseFramesLoop.simps[of b])
        moreover have "messagesOK (length b) [m]" using ok len by (auto simp: messagesOK_def)
        ultimately show ?thesis using ok by blast
      next
        case True
        with Inr e m b less.prems have "parseFramesLoop rest (acc @ [m]) = (ms, tok)"
          by (simp add: parseFramesLoop.simps[of b])
        from less.hyps[OF _ this] len obtain new where
          new: "ms = (acc @ [m]) @ new" "messagesOK (length rest) new"
            "tok \<in> {'''', GRPCDecodeMalformed, GRPCDecodeTruncated}" by auto
        with ok len have "messagesOK (length b) (m # new)" by (auto simp: messagesOK_def)
        with new show ?thesis by (intro exI[of _ "m # new"]) simp
      qed
    qed
  qed
qed


lemma parseFrames_bounds:
  assumes "parseFrames b = (ms, tok)"
  shows "messagesOK (length b) ms \<and> tok \<in> {'''', GRPCDecodeMalformed, GRPCDecodeTruncated}"
  using assms parseFramesLoop_bounds[of b "[]" ms tok]
  by (auto simp: parseFrames_def messagesOK_def split: if_splits)

text \<open>(C32) Decoding inverts encoding: the envelopes of any sequence of messages, each the
  protobuf encoding of well-formed fields, are parsed back into exactly those messages, with their
  lengths and field trees and without an error.\<close>

theorem grpc_frames_roundtrip:
  assumes "\<forall>fs \<in> set msgs. list_all (wfField 1) fs \<and> int (length (encFields fs)) < 2 ^ 32"
  shows "parseFrames (concat (map (\<lambda>fs. Frame False (encFields fs)) msgs)) =
    (map (\<lambda>fs. \<lparr>gm_Compressed = False, gm_Length = int (length (encFields fs)), gm_Fields = append_nil fs\<rparr>) msgs, '''')"
proof -
  let ?ms = "map (\<lambda>fs. (False, encFields fs)) msgs"
  have msg: "readMessage 0 (encFields fs) =
      (\<lparr>gm_Compressed = False, gm_Length = int (length (encFields fs)), gm_Fields = append_nil fs\<rparr>, '''')"
    if "fs \<in> set msgs" for fs
    using assms that protobuf_roundtrip[of 1 fs]
    by (simp add: readMessage_def GRPCMaxNestDepth_def errTooDeep_def)
  have "parseFramesLoop (concat (map (\<lambda>(c, msg). Frame c msg) ?ms) @ []) [] =
      parseFramesLoop [] ([] @ map (\<lambda>(c, msg). frameMessage c msg) ?ms)"
    by (rule parseFramesLoop_frames) (use assms msg in auto)
  moreover have "map (\<lambda>(c, msg). frameMessage c msg) ?ms =
      map (\<lambda>fs. \<lparr>gm_Compressed = False, gm_Length = int (length (encFields fs)), gm_Fields = append_nil fs\<rparr>) msgs"
    using msg by (simp add: frameMessage_def)
  ultimately show ?thesis
    by (auto simp: parseFrames_def parseFramesLoop.simps[of "[]"] comp_def Frame_def)
qed

theorem grpc_frames_roundtrip_witness:
  "parseFrames (Frame False (encFields [ProtoField 1 0 '''' 150 None, ProtoField 2 2 ''hi'' 0 None])
     @ Frame False (encFields [ProtoField 3 2 '''' 0 (Some [ProtoField 1 0 '''' 1 None])])) =
   ([\<lparr>gm_Compressed = False, gm_Length = 7,
       gm_Fields = Some [ProtoField 1 0 '''' 150 None, ProtoField 2 2 ''hi'' 0 None]\<rparr>,
     \<lparr>gm_Compressed = False, gm_Length = 4,
       gm_Fields = Some [ProtoField 3 2 '''' 0 (Some [ProtoField 1 0 '''' 1 None])]\<rparr>], '''')"
proof -
  let ?ms = "[[ProtoField 1 0 '''' 150 None, ProtoField 2 2 ''hi'' 0 None],
              [ProtoField 3 2 '''' 0 (Some [ProtoField 1 0 '''' 1 None])]]"
  have "\<forall>fs \<in> set ?ms. list_all (wfField 1) fs \<and> int (length (encFields fs)) < 2 ^ 32" by code_simp
  then have "parseFrames (concat (map (\<lambda>fs. Frame False (encFields fs)) ?ms)) =
    (map (\<lambda>fs. \<lparr>gm_Compressed = False, gm_Length = int (length (encFields fs)), gm_Fields = append_nil fs\<rparr>) ?ms, '''')"
    by (rule grpc_frames_roundtrip)
  moreover have "length (encFields (?ms ! 0)) = 7" "length (encFields (?ms ! 1)) = 4" by code_simp+
  ultimately show ?thesis by (simp add: append_nil_def)
qed

text \<open>Whatever the bytes are, the decoded tree costs at most nine bytes per byte of the
  body, no field is nested deeper than eight levels, the error token is one of the documented ones,
  and the result is flagged as truncated exactly when the token says so.\<close>

theorem grpc_tree_bounded:
  assumes "GRPCDecodeBody u parse ct enc b = g"
  shows "sum_list (map grpcMessageResident (elems (grpc_Messages g))) \<le> 9 * int (length b)
    \<and> (\<forall>m \<in> set (elems (grpc_Messages g)). \<forall>f \<in> set (elems (gm_Fields m)). fieldDepth f \<le> 8)
    \<and> grpc_DecodeError g \<in> {'''', ''malformed'', ''truncated''}
    \<and> grpc_Truncated g = (grpc_DecodeError g = ''truncated'')"
proof (cases "CompressedEncoding u enc")
  case True
  with assms show ?thesis by (auto simp: GRPCDecodeBody_def Let_def)
next
  case False
  obtain ms tok where p: "parseFrames b = (ms, tok)" by fastforce
  with False assms parseFrames_bounds[OF p] show ?thesis
    by (auto simp: GRPCDecodeBody_def Let_def messagesOK_def GRPCMaxNestDepth_def
        GRPCDecodeMalformed_def GRPCDecodeTruncated_def)
qed

theorem grpc_tree_bounded_witness:
  "sum_list (map grpcMessageResident (elems (grpc_Messages
     (GRPCDecodeBody ascii_env Some ''application/grpc'' '''' (Frame False [8, 1, 18, 2, 8, 1]))))) \<le> 9 * 11"
  using grpc_tree_bounded[OF refl, of ascii_env Some "''application/grpc''" "''''" "Frame False [8, 1, 18, 2, 8, 1]"]
  by (simp add: Frame_def)

subsection \<open>Flows\<close>

lemma addSide_error:
  "grpc_DecodeError (addSide u parse ct msg acc) = '''' \<longleftrightarrow>
     grpc_DecodeError acc = '''' \<and> \<not> msg_Truncated msg
     \<and> grpc_DecodeError (GRPCDecodeBody u parse ct (encodingOf u (elems (msg_Headers msg))) (elems (msg_Body msg))) = ''''"
  by (auto simp: addSide_def Let_def firstDecodeError_def GRPCDecodeTruncated_def)

lemma addSide_messages [simp]:
  "elems (grpc_Messages (addSide u parse ct msg acc)) =
     elems (grpc_Messages acc) @ elems (grpc_Messages
       (GRPCDecodeBody u parse ct (encodingOf u (elems (msg_Headers msg))) (elems (msg_Body msg))))"
  by (simp add: addSide_def Let_def)


lemma DecodeBody_messages:
  "sum_list (map grpcMessageResident (elems (grpc_Messages (GRPCDecodeBody u parse ct enc b)))) \<le> 9 * int (length b)"
  using parseFrames_bounds[of b] by (cases "parseFrames b") (auto simp: GRPCDecodeBody_def Let_def messagesOK_def)

definition decodeTokens :: "string set" where
  "decodeTokens = {'''', GRPCDecodeMalformed, GRPCDecodeTruncated}"

lemma DecodeBody_token: "grpc_DecodeError (GRPCDecodeBody u parse ct enc b) \<in> decodeTokens"
  using parseFrames_bounds[of b] by (cases "parseFrames b") (auto simp: GRPCDecodeBody_def Let_def decodeTokens_def)

lemma addSide_token: "grpc_DecodeError acc \<in> decodeTokens \<Longrightarrow> grpc_DecodeError (addSide u parse ct msg acc) \<in> decodeTokens"
  using DecodeBody_token[of u parse ct "encodingOf u (elems (msg_Headers msg))" "elems (msg_Body msg)"]
  by (auto simp: addSide_def Let_def firstDecodeError_def decodeTokens_def)

lemma addSide_Truncated: "grpc_Truncated acc \<or> msg_Truncated msg \<Longrightarrow> grpc_Truncated (addSide u parse ct msg acc)"
  by (auto simp: addSide_def Let_def)

lemma resultOf_token:
  assumes "grpc_DecodeError g \<in> decodeTokens"
  shows "resultOf (Some g) \<in> {''ok'', ''skipped'', ''malformed'', ''truncated''}"
    and "grpc_DecodeError g \<noteq> '''' \<Longrightarrow> resultOf (Some g) \<in> {''malformed'', ''truncated''}"
  using assms by (auto simp: resultOf_def decodeTokens_def)

text \<open>A side of a flow in gRPC, added when its content type says so.\<close>

definition withSide :: "go_env \<Rightarrow> (string \<Rightarrow> string option) \<Rightarrow> HTTPMessage \<Rightarrow> GRPCInfo \<Rightarrow> GRPCInfo" where
  "withSide u parse msg acc =
     (let ct = grpcHeaderValue u (elems (msg_Headers msg)) ''content-type''
      in if Classify u parse ct = ClassGRPC then addSide u parse ct msg acc else acc)"

lemma withSide_facts:
  "grpc_DecodeError acc \<in> decodeTokens \<Longrightarrow> grpc_DecodeError (withSide u parse msg acc) \<in> decodeTokens"
  "grpc_Truncated acc \<and> grpc_DecodeError acc \<noteq> ''''
     \<or> msg_Truncated msg \<and> Classify u parse (grpcHeaderValue u (elems (msg_Headers msg)) ''content-type'') = ClassGRPC
   \<Longrightarrow> grpc_Truncated (withSide u parse msg acc) \<and> grpc_DecodeError (withSide u parse msg acc) \<noteq> ''''"
  "sum_list (map grpcMessageResident (elems (grpc_Messages (withSide u parse msg acc))))
     \<le> sum_list (map grpcMessageResident (elems (grpc_Messages acc))) + 9 * int (length (elems (msg_Body msg)))"
  using DecodeBody_messages
  by (auto simp: withSide_def Let_def addSide_token addSide_Truncated addSide_error)

lemma DecodeFlow_Some:
  assumes "DecodeFlow u parse (Some f) = (Some g, result)"
  shows "g = withSide u parse (fl_Response f) (withSide u parse (fl_Request f)
       \<lparr>grpc_ContentType = '''', grpc_Compressed = False, grpc_Messages = None,
        grpc_Truncated = False, grpc_DecodeError = ''''\<rparr>)"
    and "result = resultOf (Some g)"
  using assms by (auto simp: DecodeFlow_def withSide_def Let_def split: if_splits)

text \<open>The summary of a flow: nothing is attached unless a side is gRPC; the result is one
  of the documented tokens; the tree costs at most nine bytes per captured byte of both sides; and
  when the capture of a gRPC side was cut, the summary says so and the result is never reported as
  \<open>ok\<close> or \<open>skipped\<close>.\<close>

theorem decode_flow_outcome:
  assumes "DecodeFlow u parse (Some f) = (info, result)"
  shows "case info of
      None \<Rightarrow> result \<in> {'''', ''skipped''}
    | Some g \<Rightarrow> result \<in> {''ok'', ''skipped'', ''malformed'', ''truncated''}
        \<and> sum_list (map grpcMessageResident (elems (grpc_Messages g)))
            \<le> 9 * int (length (elems (msg_Body (fl_Request f))) + length (elems (msg_Body (fl_Response f))))
        \<and> (\<forall>msg \<in> {fl_Request f, fl_Response f}. msg_Truncated msg
            \<and> Classify u parse (grpcHeaderValue u (elems (msg_Headers msg)) ''content-type'') = ClassGRPC
            \<longrightarrow> grpc_Truncated g \<and> result \<in> {''malformed'', ''truncated''})"
proof (cases info)
  case None
  with assms show ?thesis by (auto simp: DecodeFlow_def Let_def split: if_splits)
next
  case (Some g)
  let ?i0 = "\<lparr>grpc_ContentType = '''', grpc_Compressed = False, grpc_Messages = None,
        grpc_Truncated = False, grpc_DecodeError = ''''\<rparr>"
  let ?i1 = "withSide u parse (fl_Request f) ?i0"
  note g = DecodeFlow_Some[OF assms[unfolded Some]]
  have 0: "grpc_DecodeError ?i0 \<in> decodeTokens" by (simp add: decodeTokens_def)
  have tok: "grpc_DecodeError g \<in> decodeTokens" unfolding g by (intro withSide_facts(1) 0)
  have "sum_list (map grpcMessageResident (elems (grpc_Messages ?i1))) \<le> 9 * int (length (elems (msg_Body (fl_Request f))))"
    using withSide_facts(3)[of u parse "fl_Request f" ?i0] by simp
  with withSide_facts(3)[of u parse "fl_Response f" ?i1] have
    "sum_list (map grpcMessageResident (elems (grpc_Messages g)))
       \<le> 9 * int (length (elems (msg_Body (fl_Request f))) + length (elems (msg_Body (fl_Response f))))"
    unfolding g by simp
  moreover have "grpc_Truncated g \<and> grpc_DecodeError g \<noteq> ''''"
    if "msg \<in> {fl_Request f, fl_Response f}" "msg_Truncated msg"
      "Classify u parse (grpcHeaderValue u (elems (msg_Headers msg)) ''content-type'') = ClassGRPC" for msg
    unfolding g using that withSide_facts(2)[of ?i0 "fl_Request f" u parse] by (intro withSide_facts(2)) auto
  ultimately show ?thesis using resultOf_token[OF tok] g(2) Some by auto
qed


definition exGrpcFlow :: Flow where
  "exGrpcFlow =
     (let side = \<lparr>msg_Headers = Some [\<lparr>hdr_Name = ''Content-Type'', hdr_Value = ''application/grpc''\<rparr>],
            msg_Trailers = None, msg_Body = Some (Frame False [8, 1]), msg_Size = 7, msg_Truncated = False\<rparr>
      in \<lparr>fl_ID = ''a'', fl_StartedAt = 5, fl_CompletedAt = 0, fl_State = FlowStateOpen,
          fl_PausedPhase = '''', fl_ClientAddr = '''', fl_Method = ''POST'', fl_URL = '''',
          fl_Host = '''', fl_Scheme = '''', fl_Protocol = '''', fl_Status = 0, fl_Error = '''',
          fl_Intercepted = False, fl_Request = side, fl_Response = side\<lparr>msg_Truncated := True\<rparr>,
          fl_TLS = None, fl_HTTP2 = None, fl_SOCKS = None, fl_WebSocket = None, fl_GRPC = None,
          fl_Via = '''', fl_OriginalDest = '''',
          fl_Timings = \<lparr>tm_DNSMs = 0, tm_ConnectMs = 0, tm_TLSMs = 0, tm_TTFBMs = 0, tm_TotalMs = 0\<rparr>,
          fl_RuleIDs = None, fl_Truncated = False\<rparr>)"

theorem decode_flow_outcome_witness:
  "\<exists>g. DecodeFlow ascii_env Some (Some exGrpcFlow) = (Some g, ''truncated'')
     \<and> sum_list (map grpcMessageResident (elems (grpc_Messages g))) \<le> 9 * 14 \<and> grpc_Truncated g"
proof -
  obtain info result where d: "DecodeFlow ascii_env Some (Some exGrpcFlow) = (info, result)" by fastforce
  have "snd (DecodeFlow ascii_env Some (Some exGrpcFlow)) = ''truncated''" by code_simp
  moreover have "\<not> Option.is_none (fst (DecodeFlow ascii_env Some (Some exGrpcFlow)))" by code_simp
  ultimately have "result = ''truncated''" "info \<noteq> None" using d by (auto simp: Option.is_none_def)
  moreover have "Classify ascii_env Some (grpcHeaderValue ascii_env (elems (msg_Headers (fl_Response exGrpcFlow))) ''content-type'') = ClassGRPC"
    "msg_Truncated (fl_Response exGrpcFlow)" "length (elems (msg_Body (fl_Request exGrpcFlow))) = 7"
    "length (elems (msg_Body (fl_Response exGrpcFlow))) = 7"
    by code_simp+
  ultimately show ?thesis using decode_flow_outcome[OF d] d by (cases info) auto
qed

end
