(* ===== verification/H2_Flow.thy ===== *)
theory H2_Flow
  imports Go_Prelude
begin

text \<open>
  HTTP/2 flow control (\<open>internal/http2x/flow.go\<close>): the send windows the proxy honours
  (\<open>outFlow\<close>) and the receive windows it enforces (\<open>inFlow\<close>). The send windows are Go
  \<open>int32\<close> values, words of 32 bits read as signed numbers, so that a window update that
  overflows wraps as it does in the code.

  \<open>takeDeadline\<close> waits on a condition variable. \<open>takeTurn\<close> is one turn of its loop under
  the lock: it grants, fails or goes to sleep. The steps of \<open>flow_step\<close> interleave such turns
  with everything else that changes the windows, and keep beside the state a ledger of what the
  peer has allowed and what was sent.
\<close>

subsection \<open>Send windows\<close>

definition defaultHTTP2Window :: "32 word" where "defaultHTTP2Window = 65535"
definition maxFramePayload :: "32 word" where "maxFramePayload = 16384"

record outFlow =
  of_conn :: "32 word"
  of_stream :: "(32 word, 32 word) gomap"
  of_initStream :: "32 word"
  of_maxFrame :: "32 word"
  of_closed :: bool

definition newOutFlow :: outFlow where
  "newOutFlow = \<lparr>of_conn = defaultHTTP2Window, of_stream = [], of_initStream = defaultHTTP2Window,
     of_maxFrame = maxFramePayload, of_closed = False\<rparr>"

definition outOpen :: "32 word \<Rightarrow> outFlow \<Rightarrow> outFlow" where
  "outOpen sid f =
     (if map_of (of_stream f) sid = None \<and> \<not> of_closed f
      then f\<lparr>of_stream := AList.update sid (of_initStream f) (of_stream f)\<rparr> else f)"

definition outForget :: "32 word \<Rightarrow> outFlow \<Rightarrow> outFlow" where
  "outForget sid f = f\<lparr>of_stream := AList.delete sid (of_stream f)\<rparr>"

definition outAdd :: "32 word \<Rightarrow> 32 word \<Rightarrow> outFlow \<Rightarrow> outFlow" where
  "outAdd streamID n f =
     (if n = 0 then f
      else if streamID = 0 then f\<lparr>of_conn := of_conn f + n\<rparr>
      else case map_of (of_stream f) streamID of
        Some w \<Rightarrow> f\<lparr>of_stream := AList.update streamID (w + n) (of_stream f)\<rparr>
      | None \<Rightarrow> f)"

definition applyInitialWindow :: "32 word \<Rightarrow> outFlow \<Rightarrow> outFlow" where
  "applyInitialWindow v f =
     (let delta = v - of_initStream f; f1 = f\<lparr>of_initStream := v\<rparr>
      in if delta \<noteq> 0
         then f1\<lparr>of_stream := map (\<lambda>(i, cur). (i, cur + delta)) (of_stream f)\<rparr> else f1)"

definition setMaxFrame :: "32 word \<Rightarrow> outFlow \<Rightarrow> outFlow" where
  "setMaxFrame v0 f =
     (let v1 = if v0 < 16384 then 16384 else v0; v2 = if v1 > 16777215 then 16777215 else v1
      in f\<lparr>of_maxFrame := v2\<rparr>)"

definition outClose :: "outFlow \<Rightarrow> outFlow" where
  "outClose f = f\<lparr>of_closed := True\<rparr>"

datatype take_err = ErrClosedPipe | ErrDeadlineExceeded
datatype take_result = TakeWait | TakeErr take_err | TakeOk int

definition smin :: "32 word \<Rightarrow> 32 word \<Rightarrow> 32 word" where
  "smin a b = (if sint b < sint a then b else a)"

text \<open>One turn of \<open>takeDeadline\<close> with the lock held. \<open>late\<close> is whether the timer has
  fired or the deadline is past.\<close>

definition takeTurn :: "bool \<Rightarrow> 32 word \<Rightarrow> int \<Rightarrow> outFlow \<Rightarrow> outFlow \<times> take_result" where
  "takeTurn late sid want f =
     (if of_closed f then (f, TakeErr ErrClosedPipe)
      else if late then (f, TakeErr ErrDeadlineExceeded)
      else case map_of (of_stream f) sid of
        None \<Rightarrow> (f, TakeErr ErrClosedPipe)
      | Some s \<Rightarrow>
        (let a1 = smin (of_conn f) s;
             a2 = (if of_maxFrame f > 0 \<and> sint (of_maxFrame f) < sint a1 then of_maxFrame f else a1)
         in if sint a2 > 0 then
              (let avail = (if sint a2 > want then word_of_int want else a2)
               in (f\<lparr>of_conn := of_conn f - avail,
                     of_stream := AList.update sid (s - avail) (of_stream f)\<rparr>, TakeOk (sint avail)))
            else (f, TakeWait)))"

text \<open>The call: nothing to do for an empty request, an error at once when the deadline is past
  on entry (\<open>entryLate\<close>), else the first turn.\<close>

definition takeDeadline :: "bool \<Rightarrow> bool \<Rightarrow> 32 word \<Rightarrow> int \<Rightarrow> outFlow \<Rightarrow> outFlow \<times> take_result" where
  "takeDeadline entryLate late sid want f =
     (if want \<le> 0 then (f, TakeOk 0)
      else if entryLate then (f, TakeErr ErrDeadlineExceeded)
      else takeTurn late sid want f)"

definition outTake :: "32 word \<Rightarrow> int \<Rightarrow> outFlow \<Rightarrow> outFlow \<times> take_result" where
  "outTake sid want f = takeDeadline False False sid want f"

subsection \<open>Receive windows\<close>

definition initialWindow :: int where "initialWindow = 1048576"

record inFlow =
  if_conn :: int
  if_stream :: "(32 word, int) gomap"

datatype flow_err = ConnectionFlowControl | StreamFlowControl "32 word"

definition newInFlow :: inFlow where
  "newInFlow = \<lparr>if_conn = initialWindow, if_stream = []\<rparr>"

definition inOpen :: "32 word \<Rightarrow> inFlow \<Rightarrow> inFlow" where
  "inOpen sid f = f\<lparr>if_stream := AList.update sid initialWindow (if_stream f)\<rparr>"

definition inForget :: "32 word \<Rightarrow> inFlow \<Rightarrow> inFlow" where
  "inForget sid f = f\<lparr>if_stream := AList.delete sid (if_stream f)\<rparr>"

definition inTake :: "32 word \<Rightarrow> int \<Rightarrow> inFlow \<Rightarrow> inFlow \<times> flow_err option" where
  "inTake sid n f =
     (if n > if_conn f then (f, Some ConnectionFlowControl)
      else (let f1 = f\<lparr>if_conn := if_conn f - n\<rparr>
            in case map_of (if_stream f) sid of
                 None \<Rightarrow> (f1, None)
               | Some v \<Rightarrow> if n > v then (f1, Some (StreamFlowControl sid))
                           else (f1\<lparr>if_stream := AList.update sid (v - n) (if_stream f)\<rparr>, None)))"

definition inCredit :: "32 word \<Rightarrow> int \<Rightarrow> inFlow \<Rightarrow> inFlow" where
  "inCredit sid n f =
     (let f1 = f\<lparr>if_conn := if_conn f + n\<rparr>
      in case map_of (if_stream f) sid of
           None \<Rightarrow> f1
         | Some v \<Rightarrow> f1\<lparr>if_stream := AList.update sid (v + n) (if_stream f)\<rparr>)"

end
