(* ===== verification/H2_Window.thy ===== *)
theory H2_Window
  imports H2_Flow
begin

text \<open>
  What flow control guarantees. The send side is a step relation over a ledger: the windows, and
  beside them what the peer has allowed and what was sent, on the connection and on each stream.
  The guards of the steps are what RFC 9113 demands of the peer (a window may not be driven beyond
  \<open>2^31 - 1\<close>); \<open>window_update_wraps\<close> shows what the code does with a peer that breaks it.
\<close>

subsection \<open>Signed 32-bit arithmetic\<close>

lemma sint_of_int_range: "- (2 ^ 31) \<le> k \<Longrightarrow> k < 2 ^ 31 \<Longrightarrow> sint (word_of_int k :: 32 word) = k"
  by (simp add: signed_of_int signed_take_bit_int_eq_self)

lemma sint_plus: "- (2 ^ 31) \<le> sint a + sint b \<Longrightarrow> sint a + sint b < 2 ^ 31 \<Longrightarrow> sint (a + b) = sint a + sint b" for a b :: "32 word"
  using sint_of_int_range[of "sint a + sint b"] by simp

lemma sint_minus: "- (2 ^ 31) \<le> sint a - sint b \<Longrightarrow> sint a - sint b < 2 ^ 31 \<Longrightarrow> sint (a - b) = sint a - sint b" for a b :: "32 word"
  using sint_of_int_range[of "sint a - sint b"] by simp

lemma sint_bounds: "- (2 ^ 31) \<le> sint a" "sint a < 2 ^ 31" for a :: "32 word"
  using sint_ge[of a] sint_lt[of a] by simp_all

lemma sint_le_uint: "sint a \<le> uint a" for a :: "32 word"
  using signed_take_bit_int_less_eq_self_iff[of 31 "uint a"] uint_ge_0[of a] by (simp add: sint_uint)

subsection \<open>One grant\<close>

lemma smin_le: "sint (smin a b) \<le> sint a" "sint (smin a b) \<le> sint b"
  by (simp_all add: smin_def)

lemma takeTurn_ok:
  assumes "takeTurn late sid want f = (f', TakeOk n)" and "0 < want"
  obtains s where "map_of (of_stream f) sid = Some s" and "0 < n" and "n \<le> want"
    and "n \<le> sint (of_conn f)" and "n \<le> sint s" and "of_maxFrame f = 0 \<or> n \<le> uint (of_maxFrame f)"
    and "\<not> of_closed f" and "\<not> late"
    and "f' = f\<lparr>of_conn := of_conn f - word_of_int n,
               of_stream := AList.update sid (s - word_of_int n) (of_stream f)\<rparr>"
proof (cases "map_of (of_stream f) sid")
  case None
  with assms show ?thesis by (simp add: takeTurn_def split: if_splits)
next
  case (Some s)
  define a1 where "a1 = smin (of_conn f) s"
  define a2 where "a2 = (if of_maxFrame f > 0 \<and> sint (of_maxFrame f) < sint a1 then of_maxFrame f else a1)"
  define avail where "avail = (if sint a2 > want then word_of_int want else a2)"
  have ok: "\<not> of_closed f" "\<not> late" "0 < sint a2" and n: "n = sint avail"
    and f': "f' = f\<lparr>of_conn := of_conn f - avail, of_stream := AList.update sid (s - avail) (of_stream f)\<rparr>"
    using assms Some by (auto simp: takeTurn_def Let_def a1_def a2_def avail_def split: if_splits)
  have a1: "sint a1 \<le> sint (of_conn f)" "sint a1 \<le> sint s" by (simp_all add: a1_def smin_le)
  have a2: "sint a2 \<le> sint a1" "of_maxFrame f = 0 \<or> sint a2 \<le> uint (of_maxFrame f)"
    using sint_le_uint[of "of_maxFrame f"] by (auto simp: a2_def word_greater_zero_iff)
  have "want < sint a2 \<Longrightarrow> sint (word_of_int want :: 32 word) = want"
    using assms(2) sint_bounds[of a2] by (intro sint_of_int_range) auto
  then have av: "0 < n" "n \<le> want" "n \<le> sint a2" using ok assms(2) by (auto simp: avail_def n)
  have "word_of_int n = avail" by (simp add: n)
  with that[OF Some] av ok a1 a2 f' show ?thesis by fastforce
qed


subsection \<open>The ledger\<close>

record ledger =
  lg_flow :: outFlow
  lg_connCredit :: int
  lg_connSent :: int
  lg_credit :: "32 word \<Rightarrow> int"
  lg_sent :: "32 word \<Rightarrow> int"

definition startLedger :: ledger where
  "startLedger = \<lparr>lg_flow = newOutFlow, lg_connCredit = 65535, lg_connSent = 0,
     lg_credit = (\<lambda>_. 0), lg_sent = (\<lambda>_. 0)\<rparr>"

text \<open>What a stream, or the connection, may still be sent.\<close>

definition connLeft :: "ledger \<Rightarrow> int" where "connLeft l = lg_connCredit l - lg_connSent l"
definition left :: "ledger \<Rightarrow> 32 word \<Rightarrow> int" where "left l sid = lg_credit l sid - lg_sent l sid"

lemma left_simps [simp]:
  "left (l\<lparr>lg_flow := f\<rparr>) = left l" "connLeft (l\<lparr>lg_flow := f\<rparr>) = connLeft l"
  by (simp_all add: left_def connLeft_def fun_eq_iff)

inductive flow_step :: "ledger \<Rightarrow> ledger \<Rightarrow> bool" where
  open_new: "map_of (of_stream (lg_flow l)) sid = None \<Longrightarrow> \<not> of_closed (lg_flow l) \<Longrightarrow>
    flow_step l (l\<lparr>lg_flow := outOpen sid (lg_flow l),
      lg_credit := (lg_credit l)(sid := sint (of_initStream (lg_flow l))), lg_sent := (lg_sent l)(sid := 0)\<rparr>)"
| open_old: "map_of (of_stream (lg_flow l)) sid \<noteq> None \<or> of_closed (lg_flow l) \<Longrightarrow>
    flow_step l (l\<lparr>lg_flow := outOpen sid (lg_flow l)\<rparr>)"
| forget: "flow_step l (l\<lparr>lg_flow := outForget sid (lg_flow l)\<rparr>)"
| conn_update: "0 \<le> sint n \<Longrightarrow> connLeft l + sint n < 2 ^ 31 \<Longrightarrow>
    flow_step l (l\<lparr>lg_flow := outAdd 0 n (lg_flow l), lg_connCredit := lg_connCredit l + sint n\<rparr>)"
| stream_update: "sid \<noteq> 0 \<Longrightarrow> 0 \<le> sint n \<Longrightarrow> left l sid + sint n < 2 ^ 31 \<Longrightarrow>
    flow_step l (l\<lparr>lg_flow := outAdd sid n (lg_flow l), lg_credit := (lg_credit l)(sid := lg_credit l sid + sint n)\<rparr>)"
| settings: "0 \<le> sint v \<Longrightarrow>
    (\<And>sid. map_of (of_stream (lg_flow l)) sid \<noteq> None \<Longrightarrow> left l sid + sint v - sint (of_initStream (lg_flow l)) < 2 ^ 31) \<Longrightarrow>
    flow_step l (l\<lparr>lg_flow := applyInitialWindow v (lg_flow l),
      lg_credit := (\<lambda>sid. lg_credit l sid + sint v - sint (of_initStream (lg_flow l)))\<rparr>)"
| max_frame: "flow_step l (l\<lparr>lg_flow := setMaxFrame v (lg_flow l)\<rparr>)"
| close: "flow_step l (l\<lparr>lg_flow := outClose (lg_flow l)\<rparr>)"
| grant: "0 < want \<Longrightarrow> takeTurn late sid want (lg_flow l) = (f', TakeOk n) \<Longrightarrow>
    flow_step l (l\<lparr>lg_flow := f', lg_connSent := lg_connSent l + n, lg_sent := (lg_sent l)(sid := lg_sent l sid + n)\<rparr>)"

definition flow_inv :: "ledger \<Rightarrow> bool" where
  "flow_inv l \<longleftrightarrow>
     sint (of_conn (lg_flow l)) = connLeft l \<and> 0 \<le> connLeft l
     \<and> 0 \<le> sint (of_initStream (lg_flow l)) \<and> 16384 \<le> of_maxFrame (lg_flow l)
     \<and> of_maxFrame (lg_flow l) \<le> 16777215
     \<and> (\<forall>sid w. map_of (of_stream (lg_flow l)) sid = Some w \<longrightarrow>
          sint w = left l sid \<and> sint (of_initStream (lg_flow l)) - (2 ^ 31 - 1) \<le> left l sid)"

lemma flow_inv_start: "flow_inv startLedger"
  by (simp add: flow_inv_def startLedger_def newOutFlow_def connLeft_def defaultHTTP2Window_def maxFramePayload_def)

lemma map_of_map_snd: "map_of (map (\<lambda>(i, c). (i, g c)) m) k = map_option g (map_of m k)"
  by (induction m) auto

lemma flow_inv_step: "flow_step l l' \<Longrightarrow> flow_inv l \<Longrightarrow> flow_inv l'"
proof (induction rule: flow_step.induct)
  case (open_new l sid)
  then show ?case using sint_bounds[of "of_initStream (lg_flow l)"]
    by (auto simp: flow_inv_def outOpen_def left_def connLeft_def)
next
  case (open_old l sid)
  then have "outOpen sid (lg_flow l) = lg_flow l" by (auto simp: outOpen_def)
  with open_old show ?case by (simp add: flow_inv_def)
next
  case (forget l sid)
  then show ?case by (simp add: flow_inv_def outForget_def)
next
  case (conn_update n l)
  then have "sint (of_conn (lg_flow l) + n) = connLeft l + sint n"
    by (subst sint_plus) (auto simp: flow_inv_def)
  with conn_update show ?case
    by (auto simp: flow_inv_def outAdd_def connLeft_def left_def)
next
  case (stream_update sid n l)
  then have "sint (w + n) = left l sid + sint n" if "map_of (of_stream (lg_flow l)) sid = Some w" for w
    using that sint_bounds[of w] by (subst sint_plus) (auto simp: flow_inv_def)
  with stream_update show ?case
    by (fastforce simp: flow_inv_def outAdd_def connLeft_def left_def split: option.splits)
next
  case (settings v l)
  let ?d = "v - of_initStream (lg_flow l)"
  have d: "sint ?d = sint v - sint (of_initStream (lg_flow l))"
    using settings sint_bounds[of v] sint_bounds[of "of_initStream (lg_flow l)"]
    by (intro sint_minus) (auto simp: flow_inv_def)
  have "sint (w + ?d) = left l sid + sint v - sint (of_initStream (lg_flow l))"
    if "map_of (of_stream (lg_flow l)) sid = Some w" for sid w
  proof -
    have w: "sint w = left l sid" "sint (of_initStream (lg_flow l)) - (2 ^ 31 - 1) \<le> left l sid"
      "left l sid + sint v - sint (of_initStream (lg_flow l)) < 2 ^ 31"
      using settings that by (auto simp: flow_inv_def)
    with settings(1) show ?thesis by (subst sint_plus) (auto simp: d)
  qed
  with settings show ?case
    by (fastforce simp: flow_inv_def applyInitialWindow_def Let_def connLeft_def left_def map_of_map_snd)
next
  case (max_frame l v)
  then show ?case by (auto simp: flow_inv_def setMaxFrame_def Let_def)
next
  case (close l)
  then show ?case by (simp add: flow_inv_def outClose_def)
next
  case (grant want late sid l f' n)
  from takeTurn_ok[OF grant(2,1)] obtain s where s: "map_of (of_stream (lg_flow l)) sid = Some s"
    "0 < n" "n \<le> sint (of_conn (lg_flow l))" "n \<le> sint s"
    "f' = (lg_flow l)\<lparr>of_conn := of_conn (lg_flow l) - word_of_int n,
            of_stream := AList.update sid (s - word_of_int n) (of_stream (lg_flow l))\<rparr>" by metis
  have n: "sint (word_of_int n :: 32 word) = n"
    using s sint_bounds[of s] by (intro sint_of_int_range) auto
  have "sint (of_conn (lg_flow l) - word_of_int n) = sint (of_conn (lg_flow l)) - n"
    "sint (s - word_of_int n) = sint s - n"
    using s n sint_bounds[of s] sint_bounds[of "of_conn (lg_flow l)"] by (simp_all add: sint_minus)
  with grant(3) s sint_bounds[of "of_initStream (lg_flow l)"] show ?case
    by (auto simp: flow_inv_def connLeft_def left_def)
qed


inductive flow_reachable :: "ledger \<Rightarrow> bool" where
  start: "flow_reachable startLedger"
| step: "flow_reachable l \<Longrightarrow> flow_step l l' \<Longrightarrow> flow_reachable l'"

lemma flow_reachable_inv: "flow_reachable l \<Longrightarrow> flow_inv l"
  by (induction rule: flow_reachable.induct) (auto intro: flow_inv_start flow_inv_step)

text \<open>(C33) The proxy never sends more than the peer allowed, under any interleaving of sends,
  window updates, settings changes, new and forgotten streams: what was sent on the connection is
  at most what was allowed; every grant is positive, no larger than asked for and than the peer's
  frame size, and within what is left on the connection and on the stream; and a request sleeps
  only if the connection's or the stream's window is used up.\<close>

theorem flow_control_respected:
  assumes "flow_reachable l" and "0 < want"
  shows "lg_connSent l \<le> lg_connCredit l
    \<and> (\<forall>late f' n. takeTurn late sid want (lg_flow l) = (f', TakeOk n) \<longrightarrow>
         0 < n \<and> n \<le> want \<and> n \<le> uint (of_maxFrame (lg_flow l))
         \<and> lg_connSent l + n \<le> lg_connCredit l \<and> lg_sent l sid + n \<le> lg_credit l sid)
    \<and> (\<forall>late f'. takeTurn late sid want (lg_flow l) = (f', TakeWait) \<longrightarrow>
         f' = lg_flow l \<and> (lg_connSent l = lg_connCredit l \<or> lg_credit l sid \<le> lg_sent l sid))"
proof -
  let ?f = "lg_flow l"
  note inv = flow_reachable_inv[OF assms(1), unfolded flow_inv_def connLeft_def left_def]
  have grant: "0 < n \<and> n \<le> want \<and> n \<le> uint (of_maxFrame ?f)
      \<and> lg_connSent l + n \<le> lg_connCredit l \<and> lg_sent l sid + n \<le> lg_credit l sid"
    if "takeTurn late sid want ?f = (f', TakeOk n)" for late f' n
  proof -
    have "of_maxFrame ?f \<noteq> 0" using inv by auto
    from takeTurn_ok[OF that assms(2)] this obtain s where "map_of (of_stream ?f) sid = Some s" "0 < n" "n \<le> want"
      "n \<le> sint (of_conn ?f)" "n \<le> sint s" "n \<le> uint (of_maxFrame ?f)" by metis
    with inv show ?thesis by auto
  qed
  have "f' = ?f \<and> (lg_connSent l = lg_connCredit l \<or> lg_credit l sid \<le> lg_sent l sid)"
    if wait: "takeTurn late sid want ?f = (f', TakeWait)" for late f'
  proof -
    obtain s where s: "map_of (of_stream ?f) sid = Some s" and f': "f' = ?f"
      and a: "\<not> sint (if of_maxFrame ?f > 0 \<and> sint (of_maxFrame ?f) < sint (smin (of_conn ?f) s)
                  then of_maxFrame ?f else smin (of_conn ?f) s) > 0"
      using wait by (cases "map_of (of_stream ?f) sid") (auto simp: takeTurn_def Let_def split: if_splits)
    have "uint (of_maxFrame ?f) \<le> 16777215" "16384 \<le> uint (of_maxFrame ?f)"
      using inv by (simp_all add: word_le_def)
    then have "0 < sint (of_maxFrame ?f)" using sint_of_int_range[of "uint (of_maxFrame ?f)"] by simp
    with a have "sint (smin (of_conn ?f) s) \<le> 0" by (auto split: if_splits)
    with s f' inv show ?thesis by (auto simp: smin_def split: if_splits)
  qed
  with grant inv show ?thesis by auto
qed


definition exLedger :: ledger where
  "exLedger = startLedger\<lparr>lg_flow := outOpen 1 newOutFlow, lg_credit := (\<lambda>_. 0)(1 := 65535)\<rparr>"

lemma exLedger_reachable: "flow_reachable exLedger"
proof -
  have "flow_step startLedger (startLedger\<lparr>lg_flow := outOpen 1 (lg_flow startLedger),
      lg_credit := (lg_credit startLedger)(1 := sint (of_initStream (lg_flow startLedger))),
      lg_sent := (lg_sent startLedger)(1 := 0)\<rparr>)"
    by (rule flow_step.open_new) (simp_all add: startLedger_def newOutFlow_def)
  also have "(startLedger\<lparr>lg_flow := outOpen 1 (lg_flow startLedger),
      lg_credit := (lg_credit startLedger)(1 := sint (of_initStream (lg_flow startLedger))),
      lg_sent := (lg_sent startLedger)(1 := 0)\<rparr>) = exLedger"
    by (simp add: exLedger_def startLedger_def newOutFlow_def defaultHTTP2Window_def fun_eq_iff)
  finally show ?thesis by (rule flow_reachable.step[OF flow_reachable.start])
qed

theorem flow_control_respected_witness:
  "\<exists>f'. takeTurn False 1 20000 (lg_flow exLedger) = (f', TakeOk 16384)
     \<and> lg_connSent exLedger + 16384 \<le> lg_connCredit exLedger \<and> lg_sent exLedger 1 + 16384 \<le> lg_credit exLedger 1"
proof -
  have "snd (takeTurn False 1 20000 (lg_flow exLedger)) = TakeOk 16384"
    by (simp add: exLedger_def startLedger_def takeTurn_def outOpen_def newOutFlow_def defaultHTTP2Window_def
        maxFramePayload_def smin_def Let_def)
  then obtain f' where "takeTurn False 1 20000 (lg_flow exLedger) = (f', TakeOk 16384)" by (metis prod.collapse)
  moreover note flow_control_respected[OF exLedger_reachable, of 20000 1]
  ultimately show ?thesis by auto
qed

text \<open>A window update beyond the limit is not rejected: the connection window wraps to a
  negative number, and the streams of the connection sleep until the peer has allowed some two
  billion bytes more. (RFC 9113 asks for a connection error.)\<close>

theorem window_update_wraps:
  "sint (of_conn (outAdd 0 0x7fffffff newOutFlow)) = - 2147418114
   \<and> snd (takeTurn False 1 want (outOpen 1 (outAdd 0 0x7fffffff newOutFlow))) = TakeWait"
proof -
  have c: "sint (65535 + 0x7fffffff :: 32 word) = - 2147418114" by simp
  then show ?thesis
    by (simp add: outAdd_def newOutFlow_def defaultHTTP2Window_def maxFramePayload_def takeTurn_def outOpen_def
        smin_def Let_def)
qed

end
