(* ===== verification/H2_Conn.thy ===== *)
theory H2_Conn
  imports H2_Flow
begin

text \<open>
  The frame loop of a client connection (\<open>internal/http2x/serve.go\<close>, \<open>ServeConn\<close>) with
  the request-body buffers (\<open>internal/http2x/body.go\<close>): which streams are open, what each frame
  does to them, and how receive-window credit travels from the wire into a buffer and back.

  Every stream has one body buffer, named here by the stream's identifier, which is never reused. A
  buffer outlives its stream, since a consumer may still drain it. Frames written to the peer are
  appended to \<open>hc_wire\<close>; that a write may fail is ignored by the code as well. Handlers run in
  goroutines of their own: reads of a body and the handler's \<open>finish\<close> interleave with the loop.
  \<open>finish\<close> holds the mutex from \<open>finishRelease\<close> to \<open>finishTear\<close>; a DATA frame does its
  lookup under the mutex (\<open>dataBegin\<close>) and writes to the buffer without it (\<open>dataWrite\<close>).
\<close>

subsection \<open>Body buffers (body.go)\<close>

datatype body_err = BodyEOF | BodyDeadline | BodyClosedPipe | BodyOther string

record bodyBuf =
  bb_buf :: "byte list"
  bb_closed :: bool
  bb_connReleased :: bool
  bb_err :: "body_err option"
  bb_deadline :: gotime

definition newBodyBuf :: bodyBuf where
  "newBodyBuf = \<lparr>bb_buf = [], bb_closed = False, bb_connReleased = False, bb_err = None, bb_deadline = 0\<rparr>"

definition bodyWrite :: "byte list \<Rightarrow> bodyBuf \<Rightarrow> bodyBuf \<times> (body_err + nat)" where
  "bodyWrite p b =
     (if p = [] then (b, Inr 0)
      else if bb_closed b then (b, Inl BodyClosedPipe)
      else (b\<lparr>bb_buf := bb_buf b @ p\<rparr>, Inr (length p)))"

definition SetReadDeadline :: "gotime \<Rightarrow> bodyBuf \<Rightarrow> bodyBuf" where
  "SetReadDeadline t b = b\<lparr>bb_deadline := t\<rparr>"

definition deadlineExceeded :: "gotime \<Rightarrow> bodyBuf \<Rightarrow> bool" where
  "deadlineExceeded now b \<longleftrightarrow> bb_deadline b \<noteq> 0 \<and> bb_deadline b \<le> now"

text \<open>One turn of \<open>Read\<close> with a buffer of \<open>k\<close> bytes: it sleeps, fails, or returns data
  with the number of bytes to report to \<open>onRead\<close>.\<close>

datatype read_result = ReadWait | ReadErr body_err | ReadOk "byte list" int

definition bodyRead :: "gotime \<Rightarrow> nat \<Rightarrow> bodyBuf \<Rightarrow> bodyBuf \<times> read_result" where
  "bodyRead now k b =
     (if bb_buf b = [] \<and> \<not> bb_closed b then
        (if deadlineExceeded now b then (b, ReadErr BodyDeadline) else (b, ReadWait))
      else if bb_buf b = [] then
        (if deadlineExceeded now b \<and> bb_err b \<in> {None, Some BodyEOF} then (b, ReadErr BodyDeadline)
         else (b, ReadErr (case bb_err b of None \<Rightarrow> BodyEOF | Some e \<Rightarrow> e)))
      else (let n = min k (length (bb_buf b))
            in (b\<lparr>bb_buf := drop n (bb_buf b)\<rparr>,
                ReadOk (take n (bb_buf b)) (if n > 0 \<and> \<not> bb_connReleased b then int n else 0))))"

definition CloseWithError :: "body_err option \<Rightarrow> bodyBuf \<Rightarrow> bodyBuf" where
  "CloseWithError e b =
     (if bb_closed b then b
      else b\<lparr>bb_err := Some (case e of None \<Rightarrow> BodyEOF | Some x \<Rightarrow> x), bb_closed := True\<rparr>)"

definition bodyClose :: "bodyBuf \<Rightarrow> bodyBuf" where
  "bodyClose b = CloseWithError (Some BodyEOF) b"

definition releaseConnWindow :: "bodyBuf \<Rightarrow> bodyBuf \<times> nat" where
  "releaseConnWindow b =
     (if bb_connReleased b then (b, 0)
      else (b\<lparr>bb_connReleased := True\<rparr>, length (bb_buf b)))"

subsection \<open>The connection\<close>

datatype rst_code = ErrCodeProtocol | ErrCodeFlowControl | ErrCodeStreamClosed | ErrCodeRefusedStream | ErrCodeCancel

datatype h2_frame = WindowUpdate "32 word" int | RSTStream "32 word" rst_code | SettingsAck | PingAck

record dataFrame =
  df_StreamID :: "32 word"
  df_Length :: int
  df_Data :: "byte list"
  df_Ended :: bool

datatype reader = Idle | Found dataFrame | Failed dataFrame | Ending dataFrame

record h2conn =
  hc_streams :: "(32 word, bool) gomap"
  hc_bodies :: "(32 word, bodyBuf) gomap"
  hc_open :: int
  hc_lastID :: "32 word"
  hc_inbound :: inFlow
  hc_out :: outFlow
  hc_wire :: "h2_frame list"
  hc_reader :: reader
  hc_finishing :: "(32 word \<times> int) option"

text \<open>A stream is in \<open>hc_streams\<close> with its \<open>handlerDone\<close> flag. \<open>hc_reader\<close> is
  where the frame loop is with a DATA frame: its stream has been found; its write failed, and the
  stream is to be torn down; or it ended the request, and the handler may be done. \<open>hc_finishing\<close>
  is the stream whose teardown holds the mutex, with the unread bytes it will give back.\<close>

definition newConn :: h2conn where
  "newConn = \<lparr>hc_streams = [], hc_bodies = [], hc_open = 0, hc_lastID = 0, hc_inbound = newInFlow,
     hc_out = newOutFlow, hc_wire = [], hc_reader = Idle, hc_finishing = None\<rparr>"

definition bodyOf :: "h2conn \<Rightarrow> 32 word \<Rightarrow> bodyBuf" where
  "bodyOf c sid = (case map_of (hc_bodies c) sid of Some b \<Rightarrow> b | None \<Rightarrow> newBodyBuf)"

definition setBody :: "32 word \<Rightarrow> bodyBuf \<Rightarrow> h2conn \<Rightarrow> h2conn" where
  "setBody sid b c = c\<lparr>hc_bodies := AList.update sid b (hc_bodies c)\<rparr>"

definition send :: "h2_frame list \<Rightarrow> h2conn \<Rightarrow> h2conn" where
  "send fs c = c\<lparr>hc_wire := hc_wire c @ fs\<rparr>"

definition maxStreamsOf :: "32 word \<Rightarrow> 32 word" where
  "maxStreamsOf configured = (if configured = 0 then 100 else configured)"

definition credit :: "32 word \<Rightarrow> int \<Rightarrow> h2conn \<Rightarrow> h2conn" where
  "credit sid n c =
     (if n \<le> 0 then c
      else send [WindowUpdate sid n, WindowUpdate 0 n] (c\<lparr>hc_inbound := inCredit sid n (hc_inbound c)\<rparr>))"

definition creditConn :: "int \<Rightarrow> h2conn \<Rightarrow> h2conn" where
  "creditConn n c =
     (if n \<le> 0 then c
      else send [WindowUpdate 0 n] (c\<lparr>hc_inbound := inCredit 0 n (hc_inbound c)\<rparr>))"

subsection \<open>Tearing down a stream\<close>

definition finishRelease :: "32 word \<Rightarrow> bool \<Rightarrow> h2conn \<Rightarrow> h2conn" where
  "finishRelease sid force c =
     (case map_of (hc_streams c) sid of
        None \<Rightarrow> c
      | Some done \<Rightarrow>
        if \<not> force \<and> \<not> bb_closed (bodyOf c sid)
        then c\<lparr>hc_streams := AList.update sid True (hc_streams c)\<rparr>
        else (case releaseConnWindow (bodyOf c sid) of
          (b, unread) \<Rightarrow> (setBody sid b c)\<lparr>hc_finishing := Some (sid, int unread)\<rparr>))"

definition finishTear :: "h2conn \<Rightarrow> h2conn" where
  "finishTear c =
     (case hc_finishing c of
        None \<Rightarrow> c
      | Some (sid, unread) \<Rightarrow>
        (let c1 = setBody sid (bodyClose (bodyOf c sid)) c;
             c2 = c1\<lparr>hc_streams := AList.delete sid (hc_streams c),
                     hc_inbound := inForget sid (hc_inbound c),
                     hc_open := (if hc_open c > 0 then hc_open c - 1 else hc_open c),
                     hc_finishing := None\<rparr>;
             c3 = creditConn unread c2
         in c3\<lparr>hc_out := outForget sid (hc_out c3)\<rparr>))"

definition finish :: "32 word \<Rightarrow> bool \<Rightarrow> h2conn \<Rightarrow> h2conn" where
  "finish sid force c = finishTear (finishRelease sid force c)"

definition forceFinish :: "32 word \<Rightarrow> h2conn \<Rightarrow> h2conn" where
  "forceFinish sid c = finish sid True c"

definition endRequestCheck :: "32 word \<Rightarrow> h2conn \<Rightarrow> h2conn" where
  "endRequestCheck sid c = (if map_of (hc_streams c) sid = Some True then finish sid True c else c)"

definition endRequestBody :: "32 word \<Rightarrow> h2conn \<Rightarrow> h2conn" where
  "endRequestBody sid c = endRequestCheck sid (setBody sid (bodyClose (bodyOf c sid)) c)"

subsection \<open>Frames\<close>

definition dataFrameWindow :: "dataFrame \<Rightarrow> int" where
  "dataFrameWindow f = (if df_Length f > 0 then df_Length f else int (length (df_Data f)))"

text \<open>A DATA frame up to the lookup of its stream: \<open>Inl\<close> ends the connection.\<close>

definition dataBegin :: "dataFrame \<Rightarrow> h2conn \<Rightarrow> flow_err + h2conn" where
  "dataBegin f c =
     (let sid = df_StreamID f; w = dataFrameWindow f
      in case inTake sid w (hc_inbound c) of
           (inb, Some ConnectionFlowControl) \<Rightarrow> Inl ConnectionFlowControl
         | (inb, Some (StreamFlowControl i)) \<Rightarrow>
             Inr (send [RSTStream i ErrCodeFlowControl]
                   (forceFinish sid (creditConn w (c\<lparr>hc_inbound := inb\<rparr>))))
         | (inb, None) \<Rightarrow>
             if map_of (hc_streams c) sid = None
             then Inr (send [RSTStream sid ErrCodeStreamClosed] (creditConn w (c\<lparr>hc_inbound := inb\<rparr>)))
             else Inr (c\<lparr>hc_inbound := inb, hc_reader := Found f\<rparr>))"

text \<open>The write to the buffer that was found, and what then needs the mutex again.\<close>

definition dataWrite :: "dataFrame \<Rightarrow> h2conn \<Rightarrow> h2conn" where
  "dataWrite f c =
     (let sid = df_StreamID f; w = dataFrameWindow f
      in case bodyWrite (df_Data f) (bodyOf c sid) of
           (b, Inl e) \<Rightarrow> creditConn w (c\<lparr>hc_reader := Failed f\<rparr>)
         | (b, Inr n) \<Rightarrow>
             (let c1 = credit sid (w - int (length (df_Data f))) (setBody sid b c)
              in if df_Ended f
                 then (setBody sid (bodyClose (bodyOf c1 sid)) c1)\<lparr>hc_reader := Ending f\<rparr>
                 else c1\<lparr>hc_reader := Idle\<rparr>))"

definition dataDone :: "h2conn \<Rightarrow> h2conn" where
  "dataDone c =
     (case hc_reader c of
        Failed f \<Rightarrow> send [RSTStream (df_StreamID f) ErrCodeCancel]
                     (forceFinish (df_StreamID f) (c\<lparr>hc_reader := Idle\<rparr>))
      | Ending f \<Rightarrow> endRequestCheck (df_StreamID f) (c\<lparr>hc_reader := Idle\<rparr>)
      | _ \<Rightarrow> c)"

text \<open>A HEADERS frame; \<open>Inl\<close> is the protocol error that ends the connection.\<close>

definition metaHeaders :: "32 word \<Rightarrow> 32 word \<Rightarrow> bool \<Rightarrow> h2conn \<Rightarrow> unit + h2conn" where
  "metaHeaders maxStreams sid ended c =
     (if sid = 0 \<or> sid mod 2 = 0 then Inl ()
      else if map_of (hc_streams c) sid \<noteq> None then Inr (endRequestBody sid c)
      else if sid \<le> hc_lastID c then Inr (send [RSTStream sid ErrCodeProtocol] c)
      else if hc_open c \<ge> uint maxStreams then Inr (send [RSTStream sid ErrCodeRefusedStream] c)
      else (let b = (if ended then bodyClose newBodyBuf else newBodyBuf)
            in Inr ((setBody sid b c)\<lparr>hc_lastID := sid, hc_open := hc_open c + 1,
                 hc_inbound := inOpen sid (hc_inbound c),
                 hc_streams := AList.update sid False (hc_streams c),
                 hc_out := outOpen sid (hc_out c)\<rparr>)))"

datatype setting = InitialWindowSize "32 word" | MaxFrameSize "32 word" | OtherSetting

fun applySetting :: "setting \<Rightarrow> outFlow \<Rightarrow> outFlow" where
  "applySetting (InitialWindowSize v) f = applyInitialWindow v f"
| "applySetting (MaxFrameSize v) f = setMaxFrame v f"
| "applySetting OtherSetting f = f"

definition settingsFrame :: "setting list \<Rightarrow> h2conn \<Rightarrow> h2conn" where
  "settingsFrame ss c = send [SettingsAck] (c\<lparr>hc_out := fold applySetting ss (hc_out c)\<rparr>)"

definition windowUpdateFrame :: "32 word \<Rightarrow> 32 word \<Rightarrow> h2conn \<Rightarrow> h2conn" where
  "windowUpdateFrame sid incr c =
     (if incr > 0 then c\<lparr>hc_out := outAdd sid incr (hc_out c)\<rparr> else c)"

definition pushPromiseFrame :: "32 word \<Rightarrow> h2conn \<Rightarrow> h2conn" where
  "pushPromiseFrame promised c = send [RSTStream promised ErrCodeProtocol] c"

text \<open>A handler's read of a request body: the bytes taken are credited to the peer.\<close>

definition handlerRead :: "gotime \<Rightarrow> 32 word \<Rightarrow> nat \<Rightarrow> h2conn \<Rightarrow> h2conn \<times> read_result" where
  "handlerRead now sid k c =
     (case bodyRead now k (bodyOf c sid) of
        (b, ReadOk bs n) \<Rightarrow> (credit sid n (setBody sid b c), ReadOk bs n)
      | (b, res) \<Rightarrow> (c, res))"


text \<open>The end of the connection: every stream is closed and forgotten, and senders are woken.\<close>

definition shutdown :: "h2conn \<Rightarrow> h2conn" where
  "shutdown c =
     (let ids = map fst (hc_streams c);
          close = (\<lambda>sid c. setBody sid (CloseWithError (Some BodyEOF) (bodyOf c sid)) c);
          c1 = fold close ids c
      in c1\<lparr>hc_streams := [],
            hc_inbound := fold inForget ids (hc_inbound c),
            hc_out := outClose (fold outForget ids (hc_out c))\<rparr>)"

end
