(* ===== verification/H2_Conserve.thy ===== *)
theory H2_Conserve
  imports H2_Conn
begin

text \<open>
  Conservation of the receive window of a connection. Every byte of the advertised window is at any
  moment either available to the peer, buffered and not yet read, or on its way between the two;
  a byte the peer has sent is given back exactly once. The one exception the code has is counted
  by \<open>hs_leaked\<close>: a DATA frame that is written to a buffer between the two lines of \<open>finish\<close>
  that release the buffer's window and close it.
\<close>

subsection \<open>The balance of a connection\<close>

definition owed :: "bodyBuf \<Rightarrow> int" where
  "owed b = (if bb_connReleased b then 0 else int (length (bb_buf b)))"

definition unread :: "h2conn \<Rightarrow> int" where
  "unread c = vsum owed (hc_bodies c)"

definition inHand :: "h2conn \<Rightarrow> int" where
  "inHand c = (case hc_reader c of Found f \<Rightarrow> dataFrameWindow f | _ \<Rightarrow> 0)
            + (case hc_finishing c of Some (sid, u) \<Rightarrow> u | None \<Rightarrow> 0)"

definition balance :: "h2conn \<Rightarrow> int" where
  "balance c = if_conn (hc_inbound c) + unread c + inHand c"

lemma if_conn_simps [simp]:
  "if_conn (inCredit sid n f) = if_conn f + n" "if_conn (inForget sid f) = if_conn f"
  "if_conn (inOpen sid f) = if_conn f"
  by (simp_all add: inCredit_def inForget_def inOpen_def Let_def split: option.splits)

lemma owed_simps [simp]:
  "owed newBodyBuf = 0" "owed (bodyClose b) = owed b"
  "bb_closed (bodyClose b)" "bb_connReleased (bodyClose b) = bb_connReleased b"
  "bb_buf (bodyClose b) = bb_buf b" "\<not> bb_connReleased newBodyBuf"
  by (simp_all add: owed_def newBodyBuf_def bodyClose_def CloseWithError_def)

lemma unread_setBody:
  "distinct (map fst (hc_bodies c)) \<Longrightarrow> unread (setBody sid b c) = unread c - owed (bodyOf c sid) + owed b"
proof (cases "map_of (hc_bodies c) sid")
  case None
  then have "vsum owed (AList.update sid b (hc_bodies c)) = vsum owed (hc_bodies c) + owed b"
    by (intro vsum_update_new) (simp add: map_of_eq_None_keys)
  with None show ?thesis by (simp add: unread_def setBody_def bodyOf_def)
qed (simp add: unread_def setBody_def bodyOf_def vsum_update_old)

lemma setBody_simps [simp]:
  "hc_streams (setBody sid b c) = hc_streams c" "hc_open (setBody sid b c) = hc_open c"
  "hc_lastID (setBody sid b c) = hc_lastID c" "hc_inbound (setBody sid b c) = hc_inbound c"
  "hc_out (setBody sid b c) = hc_out c" "hc_reader (setBody sid b c) = hc_reader c"
  "hc_finishing (setBody sid b c) = hc_finishing c"
  "bodyOf (setBody sid b c) k = (if k = sid then b else bodyOf c k)"
  "keys (hc_bodies (setBody sid b c)) = insert sid (keys (hc_bodies c))"
  by (simp_all add: setBody_def bodyOf_def)

lemma distinct_setBody [simp]:
  "distinct (map fst (hc_bodies c)) \<Longrightarrow> distinct (map fst (hc_bodies (setBody sid b c)))"
  by (simp add: setBody_def distinct_update)

lemma send_simps [simp]:
  "hc_streams (send fs c) = hc_streams c" "hc_bodies (send fs c) = hc_bodies c"
  "hc_open (send fs c) = hc_open c" "hc_lastID (send fs c) = hc_lastID c"
  "hc_inbound (send fs c) = hc_inbound c" "hc_reader (send fs c) = hc_reader c"
  "hc_finishing (send fs c) = hc_finishing c" "bodyOf (send fs c) k = bodyOf c k"
  "unread (send fs c) = unread c" "inHand (send fs c) = inHand c" "balance (send fs c) = balance c"
  by (simp_all add: send_def bodyOf_def unread_def inHand_def balance_def)

lemma credit_simps [simp]:
  "hc_streams (credit sid n c) = hc_streams c" "hc_bodies (credit sid n c) = hc_bodies c"
  "hc_open (credit sid n c) = hc_open c" "hc_lastID (credit sid n c) = hc_lastID c"
  "hc_reader (credit sid n c) = hc_reader c" "hc_finishing (credit sid n c) = hc_finishing c"
  "bodyOf (credit sid n c) k = bodyOf c k" "unread (credit sid n c) = unread c"
  "inHand (credit sid n c) = inHand c" "if_conn (hc_inbound (credit sid n c)) = if_conn (hc_inbound c) + max 0 n"
  by (simp_all add: credit_def send_def bodyOf_def unread_def inHand_def)

lemma creditConn_simps [simp]:
  "hc_streams (creditConn n c) = hc_streams c" "hc_bodies (creditConn n c) = hc_bodies c"
  "hc_open (creditConn n c) = hc_open c" "hc_lastID (creditConn n c) = hc_lastID c"
  "hc_reader (creditConn n c) = hc_reader c" "hc_finishing (creditConn n c) = hc_finishing c"
  "bodyOf (creditConn n c) k = bodyOf c k" "unread (creditConn n c) = unread c"
  "inHand (creditConn n c) = inHand c" "if_conn (hc_inbound (creditConn n c)) = if_conn (hc_inbound c) + max 0 n"
  by (simp_all add: creditConn_def send_def bodyOf_def unread_def inHand_def)

subsection \<open>Well-formed connections\<close>

definition wf_dataFrame :: "dataFrame \<Rightarrow> bool" where
  "wf_dataFrame f \<longleftrightarrow> int (length (df_Data f)) \<le> dataFrameWindow f"

definition conn_wf :: "h2conn \<Rightarrow> bool" where
  "conn_wf c \<longleftrightarrow>
     distinct (map fst (hc_bodies c)) \<and> distinct (map fst (hc_streams c))
     \<and> hc_open c = int (length (hc_streams c)) \<and> keys (hc_streams c) \<subseteq> keys (hc_bodies c)
     \<and> (\<forall>k \<in> keys (hc_bodies c). k \<le> hc_lastID c)
     \<and> (\<forall>k. bb_connReleased (bodyOf c k) \<and> \<not> bb_closed (bodyOf c k) \<longrightarrow> map_option fst (hc_finishing c) = Some k)
     \<and> (\<forall>sid u. hc_finishing c = Some (sid, u) \<longrightarrow> sid \<in> keys (hc_streams c) \<and> 0 \<le> u)
     \<and> (\<forall>f. hc_reader c \<in> {Found f, Failed f, Ending f} \<longrightarrow> wf_dataFrame f \<and> df_StreamID f \<in> keys (hc_bodies c))
     \<and> 0 \<le> if_conn (hc_inbound c)"


lemma conn_wf_send [simp]: "conn_wf (send fs c) = conn_wf c"
  by (simp add: conn_wf_def)

lemma conn_wf_credit: "conn_wf c \<Longrightarrow> conn_wf (credit sid n c)"
  by (simp add: conn_wf_def)

lemma conn_wf_creditConn: "conn_wf c \<Longrightarrow> conn_wf (creditConn n c)"
  by (simp add: conn_wf_def)

lemma conn_wf_setBody:
  assumes "conn_wf c" and "sid \<in> keys (hc_bodies c)"
    and "bb_connReleased b \<and> \<not> bb_closed b \<Longrightarrow> bb_connReleased (bodyOf c sid) \<and> \<not> bb_closed (bodyOf c sid)"
  shows "conn_wf (setBody sid b c)"
proof -
  have "insert sid (keys (hc_bodies c)) = keys (hc_bodies c)" using assms(2) by (rule insert_absorb)
  with assms(1,3) show ?thesis unfolding conn_wf_def by (simp add: assms(3))
qed

lemma conn_wf_out: "conn_wf (c\<lparr>hc_out := f\<rparr>) = conn_wf c"
  by (simp add: conn_wf_def bodyOf_def)

lemma balance_out [simp]: "balance (c\<lparr>hc_out := f\<rparr>) = balance c"
  by (simp add: balance_def unread_def inHand_def)

lemma bodyOf_simps [simp]:
  "bodyOf (c\<lparr>hc_streams := a\<rparr>) = bodyOf c" "bodyOf (c\<lparr>hc_finishing := d\<rparr>) = bodyOf c"
  "bodyOf (c\<lparr>hc_inbound := e\<rparr>) = bodyOf c" "bodyOf (c\<lparr>hc_open := n\<rparr>) = bodyOf c"
  "bodyOf (c\<lparr>hc_reader := r\<rparr>) = bodyOf c" "bodyOf (c\<lparr>hc_out := f\<rparr>) = bodyOf c"
  "bodyOf (c\<lparr>hc_lastID := x\<rparr>) = bodyOf c"
  by (simp_all add: bodyOf_def fun_eq_iff)

lemma unread_simps [simp]:
  "unread (c\<lparr>hc_streams := a\<rparr>) = unread c" "unread (c\<lparr>hc_finishing := d\<rparr>) = unread c"
  "unread (c\<lparr>hc_inbound := e\<rparr>) = unread c" "unread (c\<lparr>hc_open := n\<rparr>) = unread c"
  "unread (c\<lparr>hc_reader := r\<rparr>) = unread c" "unread (c\<lparr>hc_out := f\<rparr>) = unread c"
  "unread (c\<lparr>hc_lastID := x\<rparr>) = unread c"
  by (simp_all add: unread_def)

lemma finishRelease_ok:
  assumes wf: "conn_wf c" and fin: "hc_finishing c = None"
  shows "conn_wf (finishRelease sid force c)" and "balance (finishRelease sid force c) = balance c"
    and "hc_reader (finishRelease sid force c) = hc_reader c"
    and "keys (hc_bodies (finishRelease sid force c)) = keys (hc_bodies c)"
proof -
  consider (none) "map_of (hc_streams c) sid = None"
    | (keep) d where "map_of (hc_streams c) sid = Some d" "\<not> force" "\<not> bb_closed (bodyOf c sid)"
    | (tear) d where "map_of (hc_streams c) sid = Some d" "force \<or> bb_closed (bodyOf c sid)"
    by fastforce
  then have "conn_wf (finishRelease sid force c) \<and> balance (finishRelease sid force c) = balance c
    \<and> hc_reader (finishRelease sid force c) = hc_reader c
    \<and> keys (hc_bodies (finishRelease sid force c)) = keys (hc_bodies c)"
  proof cases
    case none
    with wf show ?thesis by (simp add: finishRelease_def)
  next
    case keep
    then have k: "sid \<in> keys (hc_streams c)" by (simp add: in_keys_iff)
    then have "insert sid (keys (hc_streams c)) = keys (hc_streams c)" by (rule insert_absorb)
    with keep k wf show ?thesis
      by (simp add: finishRelease_def conn_wf_def balance_def unread_def inHand_def length_update_old distinct_update)
  next
    case tear
    obtain b u where r: "releaseConnWindow (bodyOf c sid) = (b, u)" by fastforce
    have k: "sid \<in> keys (hc_streams c)" using tear by (simp add: in_keys_iff)
    then have kb: "sid \<in> keys (hc_bodies c)" using wf by (auto simp: conn_wf_def)
    have ins: "insert sid (keys (hc_bodies c)) = keys (hc_bodies c)" using kb by (rule insert_absorb)
    have e: "finishRelease sid force c = (setBody sid b c)\<lparr>hc_finishing := Some (sid, int u)\<rparr>"
      using tear r by (auto simp: finishRelease_def)
    have "conn_wf (finishRelease sid force c)"
      unfolding e using wf fin k kb ins by (auto simp: conn_wf_def)
    moreover have "owed (bodyOf c sid) = int u + owed b"
      using r by (auto simp: releaseConnWindow_def owed_def split: if_splits)
    then have "balance (finishRelease sid force c) = balance c"
      unfolding e using wf fin unread_setBody[of c sid b] by (simp add: balance_def inHand_def conn_wf_def)
    ultimately show ?thesis unfolding e using ins by simp
  qed
  then show "conn_wf (finishRelease sid force c)" and "balance (finishRelease sid force c) = balance c"
    and "hc_reader (finishRelease sid force c) = hc_reader c"
    and "keys (hc_bodies (finishRelease sid force c)) = keys (hc_bodies c)" by blast+
qed

lemma finishTear_ok:
  assumes wf: "conn_wf c"
  shows "conn_wf (finishTear c)" and "balance (finishTear c) = balance c" and "hc_finishing (finishTear c) = None"
    and "hc_reader (finishTear c) = hc_reader c" and "keys (hc_bodies (finishTear c)) = keys (hc_bodies c)"
proof -
  have "conn_wf (finishTear c) \<and> balance (finishTear c) = balance c \<and> hc_finishing (finishTear c) = None
    \<and> hc_reader (finishTear c) = hc_reader c \<and> keys (hc_bodies (finishTear c)) = keys (hc_bodies c)"
  proof (cases "hc_finishing c")
    case None
    with wf show ?thesis by (simp add: finishTear_def)
  next
    case (Some su)
    obtain sid u where su: "su = (sid, u)" by (cases su)
    have k: "sid \<in> keys (hc_streams c)" "0 \<le> u" using wf Some su by (auto simp: conn_wf_def)
    then have kb: "sid \<in> keys (hc_bodies c)" using wf by (auto simp: conn_wf_def)
    have ins: "insert sid (keys (hc_bodies c)) = keys (hc_bodies c)" using kb by (rule insert_absorb)
    have len: "Suc (length (AList.delete sid (hc_streams c))) = length (hc_streams c)"
      using wf k by (intro length_delete_key) (auto simp: conn_wf_def)
    then have op: "int (length (AList.delete sid (hc_streams c))) = hc_open c - 1" "0 < hc_open c"
      using wf by (auto simp: conn_wf_def)
    show ?thesis
      using wf Some su k kb ins op unread_setBody[of c sid "bodyClose (bodyOf c sid)"]
      apply (simp add: finishTear_def Let_def conn_wf_def balance_def inHand_def distinct_delete)
      apply (intro conjI subset_trans[OF Diff_subset])
       apply simp
      apply metis
      done
  qed
  then show "conn_wf (finishTear c)" and "balance (finishTear c) = balance c" and "hc_finishing (finishTear c) = None"
    and "hc_reader (finishTear c) = hc_reader c" and "keys (hc_bodies (finishTear c)) = keys (hc_bodies c)" by blast+
qed


lemma finish_ok:
  assumes "conn_wf c" and "hc_finishing c = None"
  shows "conn_wf (finish sid force c)" and "balance (finish sid force c) = balance c"
    and "hc_finishing (finish sid force c) = None" and "hc_reader (finish sid force c) = hc_reader c"
    and "keys (hc_bodies (finish sid force c)) = keys (hc_bodies c)"
  using finishRelease_ok[OF assms] finishTear_ok[of "finishRelease sid force c"]
  by (simp_all add: finish_def)

lemma endRequestCheck_ok:
  assumes "conn_wf c" and "hc_finishing c = None"
  shows "conn_wf (endRequestCheck sid c)" and "balance (endRequestCheck sid c) = balance c"
    and "hc_finishing (endRequestCheck sid c) = None" and "hc_reader (endRequestCheck sid c) = hc_reader c"
  using assms finish_ok[OF assms] by (simp_all add: endRequestCheck_def)

lemma balance_setBody:
  "conn_wf c \<Longrightarrow> balance (setBody sid b c) = balance c - owed (bodyOf c sid) + owed b"
  by (simp add: balance_def inHand_def unread_setBody conn_wf_def)

lemma endRequestBody_ok:
  assumes "conn_wf c" and "hc_finishing c = None" and "sid \<in> keys (hc_bodies c)"
  shows "conn_wf (endRequestBody sid c)" and "balance (endRequestBody sid c) = balance c"
    and "hc_finishing (endRequestBody sid c) = None" and "hc_reader (endRequestBody sid c) = hc_reader c"
proof -
  have "conn_wf (setBody sid (bodyClose (bodyOf c sid)) c)"
    using assms by (intro conn_wf_setBody) auto
  from endRequestCheck_ok[OF this, of sid] assms balance_setBody[OF assms(1), of sid "bodyClose (bodyOf c sid)"]
  show "conn_wf (endRequestBody sid c)" and "balance (endRequestBody sid c) = balance c"
    and "hc_finishing (endRequestBody sid c) = None" and "hc_reader (endRequestBody sid c) = hc_reader c"
    by (simp_all add: endRequestBody_def)
qed

subsection \<open>Frames and handlers\<close>

lemma balance_creditConn: "balance (creditConn n c) = balance c + max 0 n"
  by (simp add: balance_def)

lemma balance_credit: "balance (credit sid n c) = balance c + max 0 n"
  by (simp add: balance_def)

lemma inTake_conn:
  assumes "inTake sid n f = (f', e)" and "e \<noteq> Some ConnectionFlowControl"
  shows "if_conn f' = if_conn f - n" and "n \<le> if_conn f"
  using assms by (auto simp: inTake_def Let_def split: if_splits option.splits)

lemma dataBegin_ok:
  assumes wf: "conn_wf c" and fin: "hc_finishing c = None" and idle: "hc_reader c = Idle"
    and f: "wf_dataFrame f" and d: "dataBegin f c = Inr c'"
  shows "conn_wf c'" and "balance c' = balance c" and "hc_finishing c' = None"
proof -
  let ?sid = "df_StreamID f" and ?w = "dataFrameWindow f"
  obtain inb e where t: "inTake ?sid ?w (hc_inbound c) = (inb, e)" by fastforce
  have e: "e \<noteq> Some ConnectionFlowControl" using d t by (auto simp: dataBegin_def Let_def)
  note conn = inTake_conn[OF t e]
  have w: "0 \<le> ?w" using f by (auto simp: wf_dataFrame_def)
  let ?c1 = "c\<lparr>hc_inbound := inb\<rparr>"
  have wf1: "conn_wf ?c1" using wf conn by (simp add: conn_wf_def)
  have b1: "balance ?c1 = balance c - ?w" using conn by (simp add: balance_def inHand_def)
  note cc = conn_wf_creditConn[OF wf1, of ?w] balance_creditConn[of ?w ?c1]
  have ff: "conn_wf (forceFinish ?sid (creditConn ?w ?c1))" "balance (forceFinish ?sid (creditConn ?w ?c1)) = balance c"
    "hc_finishing (forceFinish ?sid (creditConn ?w ?c1)) = None"
    using finish_ok[OF cc(1), of ?sid True] cc b1 w fin by (simp_all add: forceFinish_def)
  consider (str) i where "e = Some (StreamFlowControl i)" | (gone) "e = None" "map_of (hc_streams c) ?sid = None"
    | (found) "e = None" "map_of (hc_streams c) ?sid \<noteq> None"
    using e by (metis flow_err.exhaust option.exhaust)
  then have "conn_wf c' \<and> balance c' = balance c \<and> hc_finishing c' = None"
  proof cases
    case str
    with d t ff show ?thesis by (auto simp: dataBegin_def Let_def)
  next
    case gone
    with d t cc b1 w fin show ?thesis by (auto simp: dataBegin_def Let_def)
  next
    case found
    then have c': "c' = c\<lparr>hc_inbound := inb, hc_reader := Found f\<rparr>"
      using d t by (auto simp: dataBegin_def Let_def)
    have "?sid \<in> keys (hc_streams c)" using found by (simp add: in_keys_iff)
    then have "?sid \<in> keys (hc_bodies c)" using wf by (auto simp: conn_wf_def)
    then have "conn_wf c'" using wf conn f by (simp add: c' conn_wf_def)
    moreover have "balance c' = balance c" using conn idle by (simp add: c' balance_def inHand_def)
    ultimately show ?thesis using fin by (simp add: c')
  qed
  then show "conn_wf c'" and "balance c' = balance c" and "hc_finishing c' = None" by blast+
qed

text \<open>What a write loses: bytes that go into a buffer whose window was already given back.\<close>

definition leak :: "dataFrame \<Rightarrow> h2conn \<Rightarrow> int" where
  "leak f c =
     (if bb_connReleased (bodyOf c (df_StreamID f)) \<and> \<not> bb_closed (bodyOf c (df_StreamID f))
      then int (length (df_Data f)) else 0)"

lemma conn_wf_reader:
  assumes "conn_wf c" and "\<And>f. r \<in> {Found f, Failed f, Ending f} \<Longrightarrow> wf_dataFrame f \<and> df_StreamID f \<in> keys (hc_bodies c)"
  shows "conn_wf (c\<lparr>hc_reader := r\<rparr>)"
  using assms unfolding conn_wf_def by simp

lemma balance_reader: "balance (c\<lparr>hc_reader := r\<rparr>) =
    balance c - (case hc_reader c of Found f \<Rightarrow> dataFrameWindow f | _ \<Rightarrow> 0) + (case r of Found f \<Rightarrow> dataFrameWindow f | _ \<Rightarrow> 0)"
  by (simp add: balance_def inHand_def split: reader.splits)

lemma dataWrite_ok:
  assumes wf: "conn_wf c" and r: "hc_reader c = Found f"
  shows "conn_wf (dataWrite f c)" and "balance (dataWrite f c) = balance c - leak f c"
    and "hc_finishing (dataWrite f c) = hc_finishing c"
proof -
  let ?sid = "df_StreamID f" and ?w = "dataFrameWindow f"
  have f: "wf_dataFrame f" "?sid \<in> keys (hc_bodies c)" using wf r by (auto simp: conn_wf_def)
  then have w: "0 \<le> ?w" by (auto simp: wf_dataFrame_def)
  obtain b res where bw: "bodyWrite (df_Data f) (bodyOf c ?sid) = (b, res)" by fastforce
  have "conn_wf (dataWrite f c) \<and> balance (dataWrite f c) = balance c - leak f c
    \<and> hc_finishing (dataWrite f c) = hc_finishing c"
  proof (cases res)
    case (Inl e)
    then have "bb_closed (bodyOf c ?sid)" using bw by (auto simp: bodyWrite_def split: if_splits)
    moreover have "conn_wf (creditConn ?w (c\<lparr>hc_reader := Failed f\<rparr>))"
      using wf f by (intro conn_wf_creditConn conn_wf_reader) auto
    ultimately show ?thesis
      using Inl bw r w by (simp add: dataWrite_def Let_def balance_creditConn balance_reader leak_def)
  next
    case (Inr n)
    let ?c1 = "credit ?sid (?w - int (length (df_Data f))) (setBody ?sid b c)"
    have b: "bb_connReleased b = bb_connReleased (bodyOf c ?sid)" "bb_closed b = bb_closed (bodyOf c ?sid)"
      "df_Data f = [] \<or> \<not> bb_closed (bodyOf c ?sid)" "bb_buf b = bb_buf (bodyOf c ?sid) @ df_Data f"
      using bw Inr by (auto simp: bodyWrite_def split: if_splits)
    have wf1: "conn_wf ?c1" using wf f b by (intro conn_wf_credit conn_wf_setBody) auto
    have "owed b = owed (bodyOf c ?sid) + int (length (df_Data f)) - leak f c"
      using b by (auto simp: owed_def leak_def)
    then have bal: "balance ?c1 = balance c + ?w - leak f c"
      using f(1) by (simp add: balance_credit balance_setBody[OF wf] wf_dataFrame_def)
    have kb: "?sid \<in> keys (hc_bodies ?c1)" by simp
    have wf2: "conn_wf (setBody ?sid (bodyClose (bodyOf ?c1 ?sid)) ?c1)"
      using wf1 kb by (intro conn_wf_setBody) auto
    show ?thesis
    proof (cases "df_Ended f")
      case True
      then have "dataWrite f c = (setBody ?sid (bodyClose (bodyOf ?c1 ?sid)) ?c1)\<lparr>hc_reader := Ending f\<rparr>"
        using Inr bw by (simp add: dataWrite_def Let_def)
      moreover have "conn_wf ((setBody ?sid (bodyClose (bodyOf ?c1 ?sid)) ?c1)\<lparr>hc_reader := Ending f\<rparr>)"
        using wf2 f by (intro conn_wf_reader) auto
      ultimately show ?thesis using bal r by (simp add: balance_reader balance_setBody[OF wf1])
    next
      case False
      then have "dataWrite f c = ?c1\<lparr>hc_reader := Idle\<rparr>" using Inr bw by (simp add: dataWrite_def Let_def)
      moreover have "conn_wf (?c1\<lparr>hc_reader := Idle\<rparr>)" using wf1 by (intro conn_wf_reader) auto
      ultimately show ?thesis using bal r by (simp add: balance_reader)
    qed
  qed
  then show "conn_wf (dataWrite f c)" and "balance (dataWrite f c) = balance c - leak f c"
    and "hc_finishing (dataWrite f c) = hc_finishing c" by blast+
qed

lemma dataDone_ok:
  assumes wf: "conn_wf c" and fin: "hc_finishing c = None"
  shows "conn_wf (dataDone c)" and "balance (dataDone c) = balance c"
proof -
  have idle: "conn_wf (c\<lparr>hc_reader := Idle\<rparr>)" using wf by (intro conn_wf_reader) auto
  note fin_ok = finish_ok[OF idle] endRequestCheck_ok[OF idle]
  show "conn_wf (dataDone c)" and "balance (dataDone c) = balance c"
    using wf fin fin_ok
    by (auto simp: dataDone_def forceFinish_def balance_reader split: reader.splits)
qed

lemma metaHeaders_ok:
  assumes wf: "conn_wf c" and fin: "hc_finishing c = None" and m: "metaHeaders ms sid ended c = Inr c'"
  shows "conn_wf c'" and "balance c' = balance c" and "hc_finishing c' = None"
proof -
  consider (trailer) "map_of (hc_streams c) sid \<noteq> None" "c' = endRequestBody sid c"
    | (rst) k where "c' = send [RSTStream sid k] c"
    | (fresh) b where "map_of (hc_streams c) sid = None" "hc_lastID c < sid" "b \<in> {newBodyBuf, bodyClose newBodyBuf}"
        "c' = (setBody sid b c)\<lparr>hc_lastID := sid, hc_open := hc_open c + 1,
                 hc_inbound := inOpen sid (hc_inbound c),
                 hc_streams := AList.update sid False (hc_streams c),
                 hc_out := outOpen sid (hc_out c)\<rparr>"
    using m by (auto simp: metaHeaders_def Let_def not_le split: if_splits)
  then have "conn_wf c' \<and> balance c' = balance c \<and> hc_finishing c' = None"
  proof cases
    case trailer
    then have "sid \<in> keys (hc_streams c)" by (simp add: in_keys_iff)
    then have "sid \<in> keys (hc_bodies c)" using wf by (auto simp: conn_wf_def)
    with trailer endRequestBody_ok[OF wf fin] show ?thesis by simp
  next
    case rst
    with wf fin show ?thesis by simp
  next
    case fresh
    have new: "sid \<notin> keys (hc_bodies c)" using wf fresh(2) by (auto simp: conn_wf_def)
    then have "sid \<notin> keys (hc_streams c)" using wf by (auto simp: conn_wf_def)
    then have len: "length (AList.update sid False (hc_streams c)) = Suc (length (hc_streams c))"
      by (rule length_update_new)
    have "map_of (hc_bodies c) sid = None" using new unfolding map_of_eq_None_keys .
    then have old: "bodyOf c sid = newBodyBuf" by (simp add: bodyOf_def)
    have "\<not> bb_connReleased b" "owed b = 0" using fresh(3) by auto
    moreover have "keys (hc_streams c) \<subseteq> insert sid (keys (hc_bodies c))"
      using wf by (auto simp: conn_wf_def)
    moreover have "\<forall>k \<in> set (hc_bodies c). fst k \<le> sid"
      using wf fresh(2) by (fastforce simp: conn_wf_def)
    ultimately have "conn_wf c'"
      using wf fin fresh(2) len unfolding fresh(4) conn_wf_def by (simp add: distinct_update)
    moreover have "balance c' = balance c"
      using wf \<open>owed b = 0\<close> old unread_setBody[of c sid b] unfolding fresh(4) by (simp add: balance_def inHand_def conn_wf_def)
    ultimately show ?thesis using fin by (simp add: fresh(4))
  qed
  then show "conn_wf c'" and "balance c' = balance c" and "hc_finishing c' = None" by blast+
qed

lemma handlerRead_ok:
  assumes wf: "conn_wf c" and sid: "sid \<in> keys (hc_bodies c)"
  shows "conn_wf (fst (handlerRead now sid k c))" and "balance (fst (handlerRead now sid k c)) = balance c"
    and "hc_finishing (fst (handlerRead now sid k c)) = hc_finishing c"
proof -
  obtain b res where br: "bodyRead now k (bodyOf c sid) = (b, res)" by fastforce
  have "conn_wf (fst (handlerRead now sid k c)) \<and> balance (fst (handlerRead now sid k c)) = balance c
     \<and> hc_finishing (fst (handlerRead now sid k c)) = hc_finishing c"
  proof (cases res)
    case (ReadOk bs n)
    have b: "bb_connReleased b = bb_connReleased (bodyOf c sid)" "bb_closed b = bb_closed (bodyOf c sid)"
      "owed (bodyOf c sid) = n + owed b" "0 \<le> n"
      using br ReadOk by (auto simp: bodyRead_def Let_def owed_def split: if_splits)
    have "conn_wf (credit sid n (setBody sid b c))"
      using wf sid b by (intro conn_wf_credit conn_wf_setBody) auto
    with b br ReadOk show ?thesis
      by (simp add: handlerRead_def balance_credit balance_setBody[OF wf])
  qed (use br wf in \<open>simp_all add: handlerRead_def\<close>)
  then show "conn_wf (fst (handlerRead now sid k c))" and "balance (fst (handlerRead now sid k c)) = balance c"
    and "hc_finishing (fst (handlerRead now sid k c)) = hc_finishing c" by blast+
qed


lemma hc_open_finish:
  "hc_open (finishRelease sid force c) = hc_open c" "hc_open (finishTear c) \<le> hc_open c"
  "hc_open (finish sid force c) \<le> hc_open c"
proof -
  show r: "hc_open (finishRelease sid force c) = hc_open c"
    by (simp add: finishRelease_def split: option.splits prod.splits)
  show t: "hc_open (finishTear c) \<le> hc_open c" for c
    by (simp add: finishTear_def Let_def split: option.splits prod.splits)
  show "hc_open (finish sid force c) \<le> hc_open c" using t[of "finishRelease sid force c"] by (simp add: finish_def r)
qed

lemma hc_open_ops:
  "hc_open (endRequestCheck sid c) \<le> hc_open c" "hc_open (endRequestBody sid c) \<le> hc_open c"
  "hc_open (dataWrite f c) = hc_open c" "hc_open (dataDone c) \<le> hc_open c"
  "dataBegin f c = Inr c' \<Longrightarrow> hc_open c' \<le> hc_open c"
  "metaHeaders ms sid ended c = Inr c' \<Longrightarrow> hc_open c \<le> uint ms \<Longrightarrow> hc_open c' \<le> uint ms"
  "hc_open (fst (handlerRead now sid k c)) = hc_open c"
proof -
  show check: "hc_open (endRequestCheck sid c) \<le> hc_open c" for c sid
    by (simp add: endRequestCheck_def hc_open_finish)
  show body: "hc_open (endRequestBody sid c) \<le> hc_open c" for c
    using check[of sid "setBody sid (bodyClose (bodyOf c sid)) c"] by (simp add: endRequestBody_def)
  show "hc_open (dataWrite f c) = hc_open c"
    by (simp add: dataWrite_def Let_def split: prod.splits sum.splits)
  show "hc_open (dataDone c) \<le> hc_open c"
    using check[of _ "c\<lparr>hc_reader := Idle\<rparr>"] hc_open_finish(3)[of _ True "c\<lparr>hc_reader := Idle\<rparr>"]
    by (simp add: dataDone_def forceFinish_def split: reader.splits)
  show "hc_open c' \<le> hc_open c" if "dataBegin f c = Inr c'"
    using that hc_open_finish(3)[of "df_StreamID f" True "creditConn (dataFrameWindow f) (c\<lparr>hc_inbound := _\<rparr>)"]
    by (auto simp: dataBegin_def Let_def forceFinish_def split: prod.splits option.splits flow_err.splits if_splits)
  show "hc_open c' \<le> uint ms" if "metaHeaders ms sid ended c = Inr c'" "hc_open c \<le> uint ms"
    using that body by (auto simp: metaHeaders_def Let_def split: if_splits intro: order_trans)
  show "hc_open (fst (handlerRead now sid k c)) = hc_open c"
    by (simp add: handlerRead_def split: prod.splits read_result.splits)
qed

subsection \<open>Every interleaving\<close>

record h2sys =
  hs_conn :: h2conn
  hs_leaked :: int

inductive h2_step :: "32 word \<Rightarrow> h2sys \<Rightarrow> h2sys \<Rightarrow> bool" for maxStreams where
  data_begin: "hc_finishing (hs_conn s) = None \<Longrightarrow> hc_reader (hs_conn s) = Idle \<Longrightarrow> wf_dataFrame f \<Longrightarrow>
    dataBegin f (hs_conn s) = Inr c' \<Longrightarrow> h2_step maxStreams s (s\<lparr>hs_conn := c'\<rparr>)"
| data_write: "hc_reader (hs_conn s) = Found f \<Longrightarrow>
    h2_step maxStreams s (s\<lparr>hs_conn := dataWrite f (hs_conn s), hs_leaked := hs_leaked s + leak f (hs_conn s)\<rparr>)"
| data_done: "hc_finishing (hs_conn s) = None \<Longrightarrow> h2_step maxStreams s (s\<lparr>hs_conn := dataDone (hs_conn s)\<rparr>)"
| headers: "hc_finishing (hs_conn s) = None \<Longrightarrow> hc_reader (hs_conn s) = Idle \<Longrightarrow>
    metaHeaders maxStreams sid ended (hs_conn s) = Inr c' \<Longrightarrow> h2_step maxStreams s (s\<lparr>hs_conn := c'\<rparr>)"
| rst: "hc_finishing (hs_conn s) = None \<Longrightarrow> hc_reader (hs_conn s) = Idle \<Longrightarrow>
    h2_step maxStreams s (s\<lparr>hs_conn := forceFinish sid (hs_conn s)\<rparr>)"
| stream_error: "hc_finishing (hs_conn s) = None \<Longrightarrow> hc_reader (hs_conn s) = Idle \<Longrightarrow>
    h2_step maxStreams s (s\<lparr>hs_conn := send [RSTStream sid code] (forceFinish sid (hs_conn s))\<rparr>)"
| settings: "h2_step maxStreams s (s\<lparr>hs_conn := settingsFrame ss (hs_conn s)\<rparr>)"
| window_update: "h2_step maxStreams s (s\<lparr>hs_conn := windowUpdateFrame sid n (hs_conn s)\<rparr>)"
| push_promise: "h2_step maxStreams s (s\<lparr>hs_conn := pushPromiseFrame sid (hs_conn s)\<rparr>)"
| handler_release: "hc_finishing (hs_conn s) = None \<Longrightarrow>
    h2_step maxStreams s (s\<lparr>hs_conn := finishRelease sid force (hs_conn s)\<rparr>)"
| handler_tear: "h2_step maxStreams s (s\<lparr>hs_conn := finishTear (hs_conn s)\<rparr>)"
| handler_read: "sid \<in> keys (hc_bodies (hs_conn s)) \<Longrightarrow>
    h2_step maxStreams s (s\<lparr>hs_conn := fst (handlerRead now sid k (hs_conn s))\<rparr>)"
| deadline: "sid \<in> keys (hc_bodies (hs_conn s)) \<Longrightarrow>
    h2_step maxStreams s (s\<lparr>hs_conn := setBody sid (SetReadDeadline t (bodyOf (hs_conn s) sid)) (hs_conn s)\<rparr>)"

definition startSys :: h2sys where
  "startSys = \<lparr>hs_conn = newConn, hs_leaked = 0\<rparr>"

inductive h2_reachable :: "32 word \<Rightarrow> h2sys \<Rightarrow> bool" for maxStreams where
  start: "h2_reachable maxStreams startSys"
| step: "h2_reachable maxStreams s \<Longrightarrow> h2_step maxStreams s s' \<Longrightarrow> h2_reachable maxStreams s'"

definition sys_inv :: "32 word \<Rightarrow> h2sys \<Rightarrow> bool" where
  "sys_inv maxStreams s \<longleftrightarrow> conn_wf (hs_conn s) \<and> balance (hs_conn s) + hs_leaked s = initialWindow
     \<and> hc_open (hs_conn s) \<le> uint maxStreams \<and> 0 \<le> hs_leaked s"

lemma sys_inv_start: "sys_inv maxStreams startSys"
  by (simp add: sys_inv_def startSys_def conn_wf_def newConn_def balance_def unread_def inHand_def bodyOf_def
      newInFlow_def initialWindow_def)

lemma sys_inv_same:
  assumes "sys_inv maxStreams s" and "conn_wf c'" and "balance c' = balance (hs_conn s)"
    and "hc_open c' \<le> hc_open (hs_conn s) \<or> hc_open c' \<le> uint maxStreams"
  shows "sys_inv maxStreams (s\<lparr>hs_conn := c'\<rparr>)"
  using assms by (auto simp: sys_inv_def)

lemma sys_inv_D:
  "sys_inv maxStreams s \<Longrightarrow> conn_wf (hs_conn s)" "sys_inv maxStreams s \<Longrightarrow> hc_open (hs_conn s) \<le> uint maxStreams"
  by (simp_all add: sys_inv_def)

lemma sys_inv_step: "h2_step maxStreams s s' \<Longrightarrow> sys_inv maxStreams s \<Longrightarrow> sys_inv maxStreams s'"
proof (induction rule: h2_step.induct)
  case (data_begin s f c')
  then show ?case
    using dataBegin_ok[of "hs_conn s" f c'] hc_open_ops(5)[of f "hs_conn s" c']
    by (intro sys_inv_same) (auto dest: sys_inv_D)
next
  case (data_write s f)
  then have "sys_inv maxStreams s" by blast
  with dataWrite_ok[OF sys_inv_D(1)[OF this] data_write(1)] show ?case
    by (simp add: sys_inv_def hc_open_ops leak_def)
next
  case (data_done s)
  then show ?case
    using dataDone_ok[of "hs_conn s"] by (intro sys_inv_same) (auto dest: sys_inv_D intro: hc_open_ops)
next
  case (headers s sid ended c')
  then show ?case
    using metaHeaders_ok[of "hs_conn s" maxStreams sid ended c'] hc_open_ops(6)[of maxStreams sid ended "hs_conn s" c']
    by (intro sys_inv_same) (auto dest: sys_inv_D)
next
  case (rst s sid)
  then show ?case
    using finish_ok[of "hs_conn s" sid True] hc_open_finish(3)[of sid True "hs_conn s"]
    by (intro sys_inv_same) (auto simp: forceFinish_def dest: sys_inv_D)
next
  case (stream_error s sid code)
  then show ?case
    using finish_ok[of "hs_conn s" sid True] hc_open_finish(3)[of sid True "hs_conn s"]
    by (intro sys_inv_same) (auto simp: forceFinish_def dest: sys_inv_D)
next
  case (settings s ss)
  then show ?case by (intro sys_inv_same) (auto simp: settingsFrame_def conn_wf_out dest: sys_inv_D)
next
  case (window_update s sid n)
  then show ?case by (intro sys_inv_same) (auto simp: windowUpdateFrame_def conn_wf_out dest: sys_inv_D)
next
  case (push_promise s sid)
  then show ?case by (intro sys_inv_same) (auto simp: pushPromiseFrame_def dest: sys_inv_D)
next
  case (handler_release s sid force)
  then show ?case
    using finishRelease_ok[of "hs_conn s" sid force] by (intro sys_inv_same) (auto simp: hc_open_finish dest: sys_inv_D)
next
  case (handler_tear s)
  then show ?case
    using finishTear_ok[of "hs_conn s"] by (intro sys_inv_same) (auto simp: hc_open_finish dest: sys_inv_D)
next
  case (handler_read sid s now k)
  then show ?case
    using handlerRead_ok[of "hs_conn s" sid now k]
    by (intro sys_inv_same) (auto simp: hc_open_ops dest: sys_inv_D)
next
  case (deadline sid s t)
  have "conn_wf (setBody sid (SetReadDeadline t (bodyOf (hs_conn s) sid)) (hs_conn s))"
    using deadline by (intro conn_wf_setBody) (auto simp: SetReadDeadline_def dest: sys_inv_D)
  moreover have "owed (SetReadDeadline t b) = owed b" for b by (simp add: owed_def SetReadDeadline_def)
  ultimately show ?case
    using deadline by (intro sys_inv_same) (auto simp: balance_setBody dest: sys_inv_D)
qed

lemma h2_reachable_inv: "h2_reachable maxStreams s \<Longrightarrow> sys_inv maxStreams s"
  by (induction rule: h2_reachable.induct) (auto intro: sys_inv_start sys_inv_step)

text \<open>(C34) The receive window of a connection is conserved under every interleaving of the frame loop
  with any number of handlers: what the peer may still send, what is buffered and not yet read, what
  a frame or a teardown has in hand, and what was lost add up to the advertised window. The window
  never goes negative, there are never more open streams than advertised, and a frame can lose
  bytes only while the teardown of its stream holds the mutex.\<close>

theorem receive_window_conserved:
  assumes "h2_reachable maxStreams s"
  shows "if_conn (hc_inbound (hs_conn s)) + unread (hs_conn s) + inHand (hs_conn s) + hs_leaked s = initialWindow
    \<and> 0 \<le> if_conn (hc_inbound (hs_conn s))
    \<and> hc_open (hs_conn s) = int (length (hc_streams (hs_conn s)))
    \<and> hc_open (hs_conn s) \<le> uint maxStreams
    \<and> (\<forall>f. leak f (hs_conn s) \<noteq> 0 \<longrightarrow> map_option fst (hc_finishing (hs_conn s)) = Some (df_StreamID f))"
  using h2_reachable_inv[OF assms] by (auto simp: sys_inv_def conn_wf_def balance_def leak_def split: if_splits)

subsection \<open>A run that loses window\<close>

definition exData :: dataFrame where
  "exData = \<lparr>df_StreamID = 1, df_Length = 1, df_Data = [7], df_Ended = False\<rparr>"

fun okConn :: "'e + h2conn \<Rightarrow> h2conn" where
  "okConn (Inr c) = c"
| "okConn (Inl e) = newConn"

definition exOpen :: h2conn where "exOpen = okConn (metaHeaders 100 1 False newConn)"
definition exFound :: h2conn where "exFound = okConn (dataBegin exData exOpen)"
definition exReleased :: h2conn where "exReleased = finishRelease 1 True exFound"
definition exWritten :: h2conn where "exWritten = dataWrite exData exReleased"
definition exLost :: h2conn where "exLost = finishTear exWritten"


lemma ex_steps:
  "metaHeaders 100 1 False newConn = Inr exOpen" "dataBegin exData exOpen = Inr exFound"
  "hc_finishing newConn = None" "hc_reader newConn = Idle" "hc_finishing exOpen = None" "hc_reader exOpen = Idle"
  "wf_dataFrame exData" "hc_finishing exFound = None" "hc_reader exReleased = Found exData" "leak exData exReleased = 1"
  by code_simp+

lemma exLost_reachable: "h2_reachable 100 \<lparr>hs_conn = exLost, hs_leaked = 1\<rparr>"
proof -
  have 1: "h2_reachable 100 \<lparr>hs_conn = exOpen, hs_leaked = 0\<rparr>"
    using h2_reachable.step[OF h2_reachable.start h2_step.headers[of startSys 100 1 False exOpen]]
    by (simp add: startSys_def ex_steps)
  have 2: "h2_reachable 100 \<lparr>hs_conn = exFound, hs_leaked = 0\<rparr>"
    using h2_reachable.step[OF 1 h2_step.data_begin[of "\<lparr>hs_conn = exOpen, hs_leaked = 0\<rparr>" exData exFound]]
    by (simp add: ex_steps)
  have 3: "h2_reachable 100 \<lparr>hs_conn = exReleased, hs_leaked = 0\<rparr>"
    using h2_reachable.step[OF 2 h2_step.handler_release[of "\<lparr>hs_conn = exFound, hs_leaked = 0\<rparr>" 100 1 True]]
    by (simp add: ex_steps exReleased_def)
  have 4: "h2_reachable 100 \<lparr>hs_conn = exWritten, hs_leaked = 1\<rparr>"
    using h2_reachable.step[OF 3 h2_step.data_write[of "\<lparr>hs_conn = exReleased, hs_leaked = 0\<rparr>" exData]]
    by (simp add: ex_steps exWritten_def)
  show ?thesis
    using h2_reachable.step[OF 4 h2_step.handler_tear[of 100 "\<lparr>hs_conn = exWritten, hs_leaked = 1\<rparr>"]]
    by (simp add: exLost_def)
qed

theorem receive_window_conserved_witness:
  "if_conn (hc_inbound exLost) + unread exLost + inHand exLost + 1 = initialWindow"
  using receive_window_conserved[OF exLost_reachable] by simp

text \<open>The loss is real: a handler that fails while a DATA frame of its stream is being handled
  can leave the connection with no stream, nothing in hand and nothing to read, and yet with a
  smaller window than advertised. Nothing gives the bytes back later, not even reading them.\<close>

theorem teardown_race_loses_window:
  "h2_reachable 100 \<lparr>hs_conn = exLost, hs_leaked = 1\<rparr>
   \<and> hc_streams exLost = [] \<and> hc_reader exLost = Idle \<and> hc_finishing exLost = None \<and> unread exLost = 0
   \<and> if_conn (hc_inbound exLost) = initialWindow - 1
   \<and> if_conn (hc_inbound (fst (handlerRead 0 1 10 exLost))) = initialWindow - 1"
proof -
  have "hc_streams exLost = [] \<and> hc_reader exLost = Idle \<and> hc_finishing exLost = None \<and> unread exLost = 0
   \<and> if_conn (hc_inbound exLost) = initialWindow - 1
   \<and> if_conn (hc_inbound (fst (handlerRead 0 1 10 exLost))) = initialWindow - 1" by code_simp
  with exLost_reachable show ?thesis by blast
qed

end
