(* ===== verification/Go_Strconv.thy ===== *)
theory Go_Strconv
  imports Go_Strings
begin

text \<open>
  Decimal numbers as the package \<open>strconv\<close> prints and parses them, and \<open>time.ParseDuration\<close>.
\<close>

subsection \<open>Decimal numbers\<close>

definition digitChar :: "nat \<Rightarrow> char" where
  "digitChar d = char_of (48 + d)"

definition isDigit :: "char \<Rightarrow> bool" where
  "isDigit c \<longleftrightarrow> 48 \<le> code c \<and> code c \<le> 57"

fun formatNat :: "nat \<Rightarrow> string" where
  "formatNat n = (if n < 10 then [digitChar n] else formatNat (n div 10) @ [digitChar (n mod 10)])"

declare formatNat.simps [simp del]

definition FormatInt :: "int \<Rightarrow> string" where
  "FormatInt n = (if n < 0 then CHR ''-'' # formatNat (nat (- n)) else formatNat (nat n))"

definition decimal :: "string \<Rightarrow> nat" where
  "decimal s = foldl (\<lambda>v c. v * 10 + (code c - 48)) 0 s"

text \<open>\<open>strconv.ParseInt(s, 10, 64)\<close> on a non-empty string of digits: it fails on overflow only.\<close>

definition ParseDigits :: "string \<Rightarrow> int option" where
  "ParseDigits s = (if decimal s < 2 ^ 63 then Some (int (decimal s)) else None)"

lemma code_digitChar [simp]: "d < 10 \<Longrightarrow> code (digitChar d) = 48 + d"
  by (simp add: digitChar_def)

lemma isDigit_digitChar [simp]: "d < 10 \<Longrightarrow> isDigit (digitChar d)"
  by (simp add: isDigit_def)

lemma formatNat_digits: "c \<in> set (formatNat n) \<Longrightarrow> isDigit c"
proof (induction n rule: formatNat.induct)
  case (1 n)
  then show ?case by (cases "n < 10") (auto simp: formatNat.simps[of n])
qed

lemma formatNat_not_Nil [simp]: "formatNat n \<noteq> []"
  by (simp add: formatNat.simps[of n])

lemma decimal_snoc [simp]: "decimal (s @ [c]) = decimal s * 10 + (code c - 48)"
  by (simp add: decimal_def)

lemma decimal_Nil [simp]: "decimal [] = 0"
  by (simp add: decimal_def)

lemma decimal_formatNat [simp]: "decimal (formatNat n) = n"
proof (induction n rule: formatNat.induct)
  case (1 n)
  show ?case
  proof (cases "n < 10")
    case True
    then show ?thesis using decimal_snoc[of "[]" "digitChar n"] by (simp add: formatNat.simps[of n])
  next
    case False
    with 1 show ?thesis by (simp add: formatNat.simps[of n])
  qed
qed

lemma formatNat_inject [simp]: "formatNat m = formatNat n \<longleftrightarrow> m = n"
  by (metis decimal_formatNat)

lemma hd_last_formatNat: "isDigit (hd (formatNat n))" "isDigit (last (formatNat n))"
  by (auto intro!: formatNat_digits[of _ n])

lemma isDigit_plain: "isDigit c \<Longrightarrow> \<not> runeSelf c \<and> \<not> asciiSpace c"
  by (auto simp: isDigit_def runeSelf_def asciiSpace_def)

lemma takeWhile_formatNat:
  "takeWhile isDigit (formatNat n @ s) = formatNat n @ takeWhile isDigit s"
  "dropWhile isDigit (formatNat n @ s) = dropWhile isDigit s"
  by (auto simp: formatNat_digits takeWhile_append2 dropWhile_append2)

subsection \<open>time.ParseDuration\<close>

text \<open>A number followed by a unit, any number of times. The fraction of a unit is computed in
  floating point; \<open>frac f scale unit\<close> is that computation,
  \<open>uint64(float64(f) * (float64(unit) / scale))\<close>.\<close>

definition unitNanos :: "string \<Rightarrow> nat option" where
  "unitNanos u =
     (if u = ''ns'' then Some 1
      else if u = ''us'' then Some 1000
      else if u = [char_of (0xC2 :: nat), char_of (0xB5 :: nat), CHR ''s''] then Some 1000
      else if u = [char_of (0xCE :: nat), char_of (0xBC :: nat), CHR ''s''] then Some 1000
      else if u = ''ms'' then Some 1000000
      else if u = ''s'' then Some 1000000000
      else if u = ''m'' then Some 60000000000
      else if u = ''h'' then Some 3600000000000
      else None)"

text \<open>\<open>leadingInt\<close> fails when the number exceeds \<open>2^63\<close>.\<close>

fun leadingInt :: "nat \<Rightarrow> string \<Rightarrow> (nat \<times> string) option" where
  "leadingInt x [] = Some (x, [])"
| "leadingInt x (c # s) =
     (if \<not> isDigit c then Some (x, c # s)
      else if x > 2 ^ 63 div 10 then None
      else (let y = x * 10 + (code c - 48) in if y > 2 ^ 63 then None else leadingInt y s))"

text \<open>\<open>leadingFraction\<close> stops accumulating, but not consuming, when the next digit would
  overflow.\<close>

fun leadingFraction :: "bool \<Rightarrow> nat \<Rightarrow> nat \<Rightarrow> string \<Rightarrow> nat \<times> nat \<times> string" where
  "leadingFraction over x scale [] = (x, scale, [])"
| "leadingFraction over x scale (c # s) =
     (if \<not> isDigit c then (x, scale, c # s)
      else if over then leadingFraction True x scale s
      else if x > (2 ^ 63 - 1) div 10 then leadingFraction True x scale s
      else (let y = x * 10 + (code c - 48)
            in if y > 2 ^ 63 then leadingFraction True x scale s
               else leadingFraction False y (scale * 10) s))"

lemma leadingInt_length: "leadingInt x s = Some (v, r) \<Longrightarrow> length r \<le> length s"
  by (induction x s rule: leadingInt.induct) (auto simp: Let_def split: if_splits)

lemma leadingFraction_length: "leadingFraction over x sc s = (f, sc', r) \<Longrightarrow> length r \<le> length s"
  by (induction over x sc s rule: leadingFraction.induct) (auto simp: Let_def isDigit_def split: if_splits)

definition unitBreak :: "char \<Rightarrow> bool" where
  "unitBreak c \<longleftrightarrow> c = CHR ''.'' \<or> isDigit c"

text \<open>One round of the loop: the nanoseconds of the next term and the rest.\<close>

definition durationFraction :: "string \<Rightarrow> nat \<times> nat \<times> string \<times> bool" where
  "durationFraction s =
     (if s \<noteq> [] \<and> hd s = CHR ''.''
      then (case leadingFraction False 0 1 (tl s) of (f, scale, r) \<Rightarrow> (f, scale, r, length r \<noteq> length (tl s)))
      else (0, 1, s, False))"

definition durationUnit :: "(nat \<Rightarrow> nat \<Rightarrow> nat \<Rightarrow> nat) \<Rightarrow> nat \<Rightarrow> nat \<Rightarrow> nat \<Rightarrow> string \<Rightarrow> (nat \<times> string) option" where
  "durationUnit frac v f scale s =
     (case unitNanos (takeWhile (\<lambda>c. \<not> unitBreak c) s) of None \<Rightarrow> None
      | Some un \<Rightarrow>
        if v > 2 ^ 63 div un then None
        else (let w = v * un + (if f > 0 then frac f scale un else 0)
              in if w > 2 ^ 63 then None else Some (w, dropWhile (\<lambda>c. \<not> unitBreak c) s)))"

definition durationTerm :: "(nat \<Rightarrow> nat \<Rightarrow> nat \<Rightarrow> nat) \<Rightarrow> string \<Rightarrow> (nat \<times> string) option" where
  "durationTerm frac s =
     (if \<not> unitBreak (hd s) then None
      else case leadingInt 0 s of None \<Rightarrow> None
      | Some (v, s1) \<Rightarrow>
        (case durationFraction s1 of (f, scale, s2, post) \<Rightarrow>
           if length s1 = length s \<and> \<not> post then None else durationUnit frac v f scale s2))"

lemma durationFraction_length: "durationFraction s = (f, scale, r, post) \<Longrightarrow> length r \<le> length s"
  using leadingFraction_length[of False 0 1 "tl s"]
  by (fastforce simp: durationFraction_def split: if_splits prod.splits)

lemma durationUnit_length:
  assumes "durationUnit frac v f scale s = Some (w, r)"
  shows "length r < length s"
proof -
  have "unitNanos [] = None" by (simp add: unitNanos_def)
  then have "takeWhile (\<lambda>c. \<not> unitBreak c) s \<noteq> []" and r: "r = dropWhile (\<lambda>c. \<not> unitBreak c) s"
    using assms by (auto simp: durationUnit_def Let_def split: if_splits option.splits)
  moreover have "length (takeWhile (\<lambda>c. \<not> unitBreak c) s) + length r = length s"
    unfolding r by (metis length_append takeWhile_dropWhile_id)
  ultimately show ?thesis by (cases "takeWhile (\<lambda>c. \<not> unitBreak c) s") auto
qed

lemma durationTerm_length:
  assumes "durationTerm frac s = Some (w, r)"
  shows "length r < length s"
proof -
  obtain v s1 f scale s2 post where "leadingInt 0 s = Some (v, s1)" "durationFraction s1 = (f, scale, s2, post)"
    "durationUnit frac v f scale s2 = Some (w, r)"
    using assms by (auto simp: durationTerm_def split: if_splits option.splits prod.splits)
  with leadingInt_length durationFraction_length durationUnit_length show ?thesis by (metis le_trans not_le)
qed

function durationLoop :: "(nat \<Rightarrow> nat \<Rightarrow> nat \<Rightarrow> nat) \<Rightarrow> nat \<Rightarrow> string \<Rightarrow> nat option" where
  "durationLoop frac d s =
     (if s = [] then Some d
      else case durationTerm frac s of None \<Rightarrow> None
      | Some (w, r) \<Rightarrow>
        (let e = (d + w) mod 2 ^ 64 in if e > 2 ^ 63 then None else durationLoop frac e r))"
  by pat_completeness auto
termination
  by (relation "measure (\<lambda>(frac, d, s). length s)") (auto dest: durationTerm_length)

declare durationLoop.simps [simp del]

definition ParseDuration :: "(nat \<Rightarrow> nat \<Rightarrow> nat \<Rightarrow> nat) \<Rightarrow> string \<Rightarrow> duration option" where
  "ParseDuration frac s0 =
     (let neg = (s0 \<noteq> [] \<and> hd s0 = CHR ''-'');
          s = (if s0 \<noteq> [] \<and> (hd s0 = CHR ''-'' \<or> hd s0 = CHR ''+'') then tl s0 else s0)
      in if s = ''0'' then Some 0
         else if s = [] then None
         else case durationLoop frac 0 s of None \<Rightarrow> None
         | Some d \<Rightarrow> if neg then Some (- int d) else if d > 2 ^ 63 - 1 then None else Some (int d))"

end
