(* ===== verification/Config_Units.thy ===== *)
theory Config_Units
  imports Go_Strconv
begin

text \<open>
  Byte sizes and durations in configuration documents (\<open>internal/config/bytesize.go\<close>,
  \<open>duration.go\<close>): the parsers and canonical printers, and the walks that rewrite a decoded
  document tree in place. A tree is the value \<open>encoding/json\<close> decodes into: an object is
  its list of members in the order the walk visits them. Numbers decoded from a document are
  \<open>json.Number\<close> texts, numbers a walk writes are \<open>int64\<close>; floating-point values
  do not occur in what the sources decode (\<open>UseNumber\<close>). Messages of violations are left
  out, their paths and codes are kept. \<open>unicode.IsDigit\<close> outside ASCII is an argument.
\<close>

datatype json =
    JNull
  | JBool bool
  | JString string
  | JNumber string
  | JInt int
  | JArray "json list"
  | JObject "(string \<times> json) list"

record FieldViolation =
  fv_Path :: string
  fv_Code :: string

definition violationInvalidValue :: string where "violationInvalidValue = ''invalid_value''"

definition joinPath :: "string \<Rightarrow> string \<Rightarrow> string" where
  "joinPath base key = (if base = '''' then key else base @ ''.'' @ key)"

definition indexPath :: "string \<Rightarrow> nat \<Rightarrow> string" where
  "indexPath base i = base @ ''['' @ formatNat i @ '']''"

definition invalidValue :: "string \<Rightarrow> FieldViolation" where
  "invalidValue path = \<lparr>fv_Path = path, fv_Code = violationInvalidValue\<rparr>"

subsection \<open>Walking a document\<close>

text \<open>The two conversions walk a tree alike: a member whose name is one of the given fields is
  coerced and not walked into, everything else is walked into.\<close>

function convertTree ::
    "string set \<Rightarrow> (json \<Rightarrow> string \<Rightarrow> json \<times> FieldViolation list) \<Rightarrow> json \<Rightarrow> string \<Rightarrow> json \<times> FieldViolation list" where
  "convertTree names coerce (JObject ms) path =
     (let rs = map (\<lambda>(k, child).
           if k \<in> names then coerce child (joinPath path k)
           else convertTree names coerce child (joinPath path k)) ms
      in (JObject (zip (map fst ms) (map fst rs)), concat (map snd rs)))"
| "convertTree names coerce (JArray xs) path =
     (let rs = map (\<lambda>(i, child). convertTree names coerce child (indexPath path i)) (zip [0..<length xs] xs)
      in (JArray (map fst rs), concat (map snd rs)))"
| "convertTree names coerce JNull path = (JNull, [])"
| "convertTree names coerce (JBool b) path = (JBool b, [])"
| "convertTree names coerce (JString s) path = (JString s, [])"
| "convertTree names coerce (JNumber s) path = (JNumber s, [])"
| "convertTree names coerce (JInt n) path = (JInt n, [])"
  by pat_completeness auto
termination
proof (relation "measure (\<lambda>(names, coerce, v, path). size v)", goal_cases)
  case (2 names coerce ms path m k child)
  then have "size child < Suc (size_list (size_prod (\<lambda>_. 0) size) ms)"
    by (induction ms) auto
  then show ?case by simp
next
  case (3 names coerce xs path m i child)
  then have "child \<in> set xs" by (metis in_set_zipE)
  then show ?case by (simp add: less_Suc_eq_le size_list_estimation')
qed simp

text \<open>\<open>json.Number.Int64\<close> and the other numbers a tree may hold.\<close>

definition numberText :: "string \<Rightarrow> int option" where
  "numberText s =
     (let neg = (s \<noteq> [] \<and> hd s = CHR ''-''); ds = (if neg then tl s else s)
      in if ds = [] \<or> \<not> list_all isDigit ds then None
         else if neg then (if decimal ds \<le> 2 ^ 63 then Some (- int (decimal ds)) else None)
         else ParseDigits ds)"

text \<open>The way back: a number in one of the fields becomes its canonical text.\<close>

definition jsonNumberInt :: "json \<Rightarrow> int option" where
  "jsonNumberInt v = (case v of JNumber s \<Rightarrow> numberText s | JInt n \<Rightarrow> Some n | _ \<Rightarrow> None)"

fun printTree :: "string set \<Rightarrow> (int \<Rightarrow> string option) \<Rightarrow> json \<Rightarrow> json option" where
  "printTree names fmt (JObject ms) =
     map_option (\<lambda>vs. JObject (zip (map fst ms) vs))
       (those (map (\<lambda>(k, child).
          case (if k \<in> names then jsonNumberInt child else None) of
            Some n \<Rightarrow> map_option JString (fmt n)
          | None \<Rightarrow> printTree names fmt child) ms))"
| "printTree names fmt (JArray xs) = map_option JArray (those (map (printTree names fmt) xs))"
| "printTree names fmt v = Some v"

subsection \<open>Byte sizes\<close>

definition sizeFields :: "string set" where
  "sizeFields = {''maxInFlightBytes'', ''maxBytes'', ''maxBodyBytes'', ''spillThreshold'', ''bodyLimit'', ''bytesPerSecond''}"

definition sizeUnit :: "string \<Rightarrow> int option" where
  "sizeUnit u =
     (if u = ''b'' then Some 1
      else if u = ''kib'' then Some 1024
      else if u = ''mib'' then Some 1048576
      else if u = ''gib'' then Some 1073741824
      else if u = ''tib'' then Some 1099511627776
      else None)"

definition ParseByteSize :: "go_env \<Rightarrow> string \<Rightarrow> int option" where
  "ParseByteSize u s0 =
     (let s = TrimSpace u s0; ds = takeWhile isDigit s; unit = dropWhile isDigit s
      in if s = [] then None
         else if ds = [] \<or> unit = [] then None
         else case ParseDigits ds of None \<Rightarrow> None
         | Some n \<Rightarrow>
           case sizeUnit (ToLower u unit) of None \<Rightarrow> None
           | Some mul \<Rightarrow>
             if n < 0 then None
             else if mul > 1 \<and> n > (2 ^ 63 - 1) div mul then None
             else Some (n * mul))"

text \<open>Negating the smallest \<open>int64\<close> gives it back.\<close>

definition neg64 :: "int \<Rightarrow> int" where
  "neg64 n = (if n = - (2 ^ 63) then n else - n)"

definition FormatByteSize :: "int \<Rightarrow> string" where
  "FormatByteSize n0 =
     (if n0 = 0 then ''0B''
      else (let neg = (n0 < 0); n = (if neg then neg64 n0 else n0);
                s = (if n mod 1099511627776 = 0 then FormatInt (n div 1099511627776) @ ''TiB''
                     else if n mod 1073741824 = 0 then FormatInt (n div 1073741824) @ ''GiB''
                     else if n mod 1048576 = 0 then FormatInt (n div 1048576) @ ''MiB''
                     else if n mod 1024 = 0 then FormatInt (n div 1024) @ ''KiB''
                     else FormatInt n @ ''B'')
            in if neg then ''-'' @ s else s))"

definition looksLikeBareNumber :: "(string \<Rightarrow> bool) \<Rightarrow> string \<Rightarrow> bool" where
  "looksLikeBareNumber allDigits s =
     (if s = [] then False else if isASCII s then list_all isDigit s else allDigits s)"

definition coerceByteSizeField :: "go_env \<Rightarrow> (string \<Rightarrow> bool) \<Rightarrow> json \<Rightarrow> string \<Rightarrow> json \<times> FieldViolation list" where
  "coerceByteSizeField u allDigits child path =
     (case child of
        JNull \<Rightarrow> (child, [])
      | JString s \<Rightarrow>
          if looksLikeBareNumber allDigits s then (child, [invalidValue path])
          else (case ParseByteSize u s of None \<Rightarrow> (child, [invalidValue path]) | Some n \<Rightarrow> (JInt n, []))
      | _ \<Rightarrow> (child, [invalidValue path]))"

definition convertByteSizes :: "go_env \<Rightarrow> (string \<Rightarrow> bool) \<Rightarrow> json \<Rightarrow> string \<Rightarrow> json \<times> FieldViolation list" where
  "convertByteSizes u dg = convertTree sizeFields (coerceByteSizeField u dg)"

definition convertByteSizeNumbersToStrings :: "json \<Rightarrow> json option" where
  "convertByteSizeNumbersToStrings = printTree sizeFields (\<lambda>n. Some (FormatByteSize n))"

subsection \<open>Durations\<close>

definition durationFields :: "string set" where
  "durationFields = {''sessionTimeout'', ''idleTimeout'', ''headerTimeout'', ''dialTimeout'', ''upstreamTimeout'',
     ''maxWait'', ''delay'', ''timeout''}"

text \<open>\<open>FormatDuration\<close> calls itself on the negated value; for the smallest duration that is the
  same value again, and the call does not return: \<open>None\<close>.\<close>

definition formatPositive :: "duration \<Rightarrow> string" where
  "formatPositive d =
     (if d mod 3600000000000 = 0 then FormatInt (d div 3600000000000) @ ''h''
      else if d mod 60000000000 = 0 then FormatInt (d div 60000000000) @ ''m''
      else if d mod 1000000000 = 0 then FormatInt (d div 1000000000) @ ''s''
      else if d mod 1000000 = 0 then FormatInt (d div 1000000) @ ''ms''
      else if d mod 1000 = 0 then FormatInt (d div 1000) @ ''us''
      else FormatInt d @ ''ns'')"

partial_function (option) FormatDuration :: "duration \<Rightarrow> string option" where
  "FormatDuration d =
     (if d = 0 then Some ''0s''
      else if d < 0 then Option.bind (FormatDuration (neg64 d)) (\<lambda>s. Some (CHR ''-'' # s))
      else Some (formatPositive d))"

definition coerceDurationField :: "(nat \<Rightarrow> nat \<Rightarrow> nat \<Rightarrow> nat) \<Rightarrow> json \<Rightarrow> string \<Rightarrow> json \<times> FieldViolation list" where
  "coerceDurationField frac child path =
     (case child of
        JNull \<Rightarrow> (child, [])
      | JString s \<Rightarrow> (case ParseDuration frac s of None \<Rightarrow> (child, [invalidValue path]) | Some d \<Rightarrow> (JInt d, []))
      | _ \<Rightarrow> (child, [invalidValue path]))"

definition convertDurations :: "(nat \<Rightarrow> nat \<Rightarrow> nat \<Rightarrow> nat) \<Rightarrow> json \<Rightarrow> string \<Rightarrow> json \<times> FieldViolation list" where
  "convertDurations frac = convertTree durationFields (coerceDurationField frac)"

definition convertDurationNumbersToStrings :: "json \<Rightarrow> json option" where
  "convertDurationNumbersToStrings = printTree durationFields FormatDuration"

text \<open>Both walks, in the order \<open>wire.go\<close>, \<open>decode.go\<close> and \<open>export.go\<close> run them.\<close>

definition CoerceWireTree :: "go_env \<Rightarrow> (string \<Rightarrow> bool) \<Rightarrow> (nat \<Rightarrow> nat \<Rightarrow> nat \<Rightarrow> nat) \<Rightarrow> json \<Rightarrow> json \<times> FieldViolation list" where
  "CoerceWireTree u dg frac v =
     (case convertDurations frac v '''' of (v1, vs1) \<Rightarrow>
        (case convertByteSizes u dg v1 '''' of (v2, vs2) \<Rightarrow> (v2, vs1 @ vs2)))"

definition FormatWireTree :: "json \<Rightarrow> json option" where
  "FormatWireTree v =
     (case convertDurationNumbersToStrings v of None \<Rightarrow> None
      | Some v1 \<Rightarrow> convertByteSizeNumbersToStrings v1)"

end
