(* ===== verification/Config_Roundtrip.thy ===== *)
theory Config_Roundtrip
  imports Config_Units
begin

text \<open>
  What is exported is read back: the canonical texts of byte sizes and durations parse to the
  values they were printed from, and so does a whole document.
\<close>

subsection \<open>Byte sizes\<close>

definition sizeUnits :: "(string \<times> int) list" where
  "sizeUnits = [(''B'', 1), (''KiB'', 1024), (''MiB'', 1048576), (''GiB'', 1073741824), (''TiB'', 1099511627776)]"

lemma sizeUnits_facts:
  assumes "(unit, mul) \<in> set sizeUnits"
  shows "unit \<noteq> [] \<and> \<not> isDigit (hd unit) \<and> isASCII unit \<and> \<not> asciiSpace (last unit)"
    and "sizeUnit (ToLower u unit) = Some mul" and "0 < mul"
proof -
  have *: "list_all (\<lambda>(unit, mul). unit \<noteq> [] \<and> \<not> isDigit (hd unit) \<and> isASCII unit \<and> \<not> asciiSpace (last unit)
      \<and> sizeUnit (map lowerByte unit) = Some mul \<and> 0 < mul) sizeUnits" by code_simp
  with assms show "unit \<noteq> [] \<and> \<not> isDigit (hd unit) \<and> isASCII unit \<and> \<not> asciiSpace (last unit)" "0 < mul"
    by (auto simp: list_all_iff)
  from * assms have "isASCII unit" "sizeUnit (map lowerByte unit) = Some mul" by (auto simp: list_all_iff)
  then show "sizeUnit (ToLower u unit) = Some mul" by (simp add: ToLower_ascii)
qed

lemma isDigit_formatNat: "list_all isDigit (formatNat n)"
  using formatNat_digits by (auto simp: list_all_iff)

lemma ParseByteSize_text:
  assumes "0 \<le> m" and unit_in: "(unit, mul) \<in> set sizeUnits" and "m * mul < 2 ^ 63"
  shows "ParseByteSize u (FormatInt m @ unit) = Some (m * mul)"
proof -
  let ?s = "formatNat (nat m) @ unit"
  have s: "FormatInt m @ unit = ?s" using assms(1) by (simp add: FormatInt_def)
  have unit: "unit \<noteq> []" "\<not> isDigit (hd unit)" "isASCII unit" "\<not> asciiSpace (last unit)"
    using sizeUnits_facts(1)[OF unit_in] by auto
  note mul = sizeUnits_facts(3)[OF unit_in]
  have "isASCII ?s" using isDigit_formatNat[of "nat m"] unit(3) isDigit_plain by (auto simp: isASCII_def list_all_iff)
  moreover have "\<not> asciiSpace (hd ?s)" using hd_last_formatNat(1)[of "nat m"] isDigit_plain by simp
  ultimately have trim: "TrimSpace u ?s = ?s" using unit by (intro TrimSpace_id) auto
  have split: "takeWhile isDigit ?s = formatNat (nat m)" "dropWhile isDigit ?s = unit"
    using unit by (auto simp: takeWhile_formatNat takeWhile_eq_Nil_iff dropWhile_eq_self_iff)
  have "m * 1 \<le> m * mul" using mul assms(1) by (intro mult_left_mono) auto
  then have "nat m < 2 ^ 63" using assms(3) by simp
  moreover have "\<not> m > (2 ^ 63 - 1) div mul"
  proof -
    have "m = (m * mul) div mul" using mul by simp
    also have "\<dots> \<le> (2 ^ 63 - 1) div mul" using assms(3) mul by (intro zdiv_mono1) auto
    finally show ?thesis by simp
  qed
  ultimately show ?thesis
    using assms(1) sizeUnits_facts(2)[OF unit_in] unit(1) by (simp add: ParseByteSize_def s trim split ParseDigits_def Let_def)
qed


lemma FormatByteSize_text:
  assumes "0 \<le> n"
  shows "\<exists>m unit mul. FormatByteSize n = FormatInt m @ unit \<and> (unit, mul) \<in> set sizeUnits \<and> 0 \<le> m \<and> n = m * mul"
proof (cases "n = 0")
  case True
  then show ?thesis by (intro exI[of _ 0] exI[of _ "''B''"] exI[of _ 1])
      (simp add: FormatByteSize_def FormatInt_def formatNat.simps digitChar_def sizeUnits_def, code_simp)
next
  case False
  have t: "\<exists>m unit mul. FormatByteSize n = FormatInt m @ unit \<and> (unit, mul) \<in> set sizeUnits \<and> 0 \<le> m \<and> n = m * mul"
    if "FormatByteSize n = FormatInt (n div k) @ un" "(un, k) \<in> set sizeUnits" "n mod k = 0" for un k
    using that assms sizeUnits_facts(3)[OF that(2)] 
    by (intro exI[of _ "n div k"] exI[of _ un] exI[of _ k]) (auto simp: pos_imp_zdiv_nonneg_iff mod_eq_0_iff_dvd)
  have u: "(''TiB'', 1099511627776) \<in> set sizeUnits" "(''GiB'', 1073741824) \<in> set sizeUnits"
    "(''MiB'', 1048576) \<in> set sizeUnits" "(''KiB'', 1024) \<in> set sizeUnits" "(''B'', 1) \<in> set sizeUnits"
    by (simp_all add: sizeUnits_def)
  consider "n mod 1099511627776 = 0" | "n mod 1099511627776 \<noteq> 0" "n mod 1073741824 = 0"
    | "n mod 1099511627776 \<noteq> 0" "n mod 1073741824 \<noteq> 0" "n mod 1048576 = 0"
    | "n mod 1099511627776 \<noteq> 0" "n mod 1073741824 \<noteq> 0" "n mod 1048576 \<noteq> 0" "n mod 1024 = 0"
    | "n mod 1099511627776 \<noteq> 0" "n mod 1073741824 \<noteq> 0" "n mod 1048576 \<noteq> 0" "n mod 1024 \<noteq> 0" by blast
  then show ?thesis
  proof cases
    case 1 then show ?thesis using assms False by (intro t[OF _ u(1)]) (simp_all add: FormatByteSize_def Let_def)
  next
    case 2 then show ?thesis using assms False by (intro t[OF _ u(2)]) (simp_all add: FormatByteSize_def Let_def)
  next
    case 3 then show ?thesis using assms False by (intro t[OF _ u(3)]) (simp_all add: FormatByteSize_def Let_def)
  next
    case 4 then show ?thesis using assms False by (intro t[OF _ u(4)]) (simp_all add: FormatByteSize_def Let_def)
  next
    case 5 then show ?thesis using assms False by (intro t[OF _ u(5)]) (simp_all add: FormatByteSize_def Let_def)
  qed
qed

lemma ParseByteSize_Format:
  assumes "0 \<le> n" and "n < 2 ^ 63"
  shows "ParseByteSize u (FormatByteSize n) = Some n"
  using FormatByteSize_text[OF assms(1)] ParseByteSize_text assms(2) by metis


subsection \<open>Durations\<close>

lemma foldl_decimal_ge: "x \<le> foldl (\<lambda>v c. v * 10 + (code c - 48)) x s"
proof (induction s arbitrary: x)
  case (Cons c s)
  have "x \<le> x * 10 + (code c - 48)" by simp
  also have "\<dots> \<le> foldl (\<lambda>v c. v * 10 + (code c - 48)) (x * 10 + (code c - 48)) s" by (rule Cons)
  finally show ?case by simp
qed simp

lemma leadingInt_digits:
  assumes "list_all isDigit ds" and "r = [] \<or> \<not> isDigit (hd r)"
    and "foldl (\<lambda>v c. v * 10 + (code c - 48)) x ds \<le> 2 ^ 63"
  shows "leadingInt x (ds @ r) = Some (foldl (\<lambda>v c. v * 10 + (code c - 48)) x ds, r)"
  using assms
proof (induction ds arbitrary: x)
  case Nil
  then show ?case by (cases r) auto
next
  case (Cons c ds)
  have "x * 10 + (code c - 48) \<le> 2 ^ 63"
    using Cons.prems(3) foldl_decimal_ge[of "x * 10 + (code c - 48)" ds] by simp
  with Cons show ?case by (auto simp: Let_def)
qed

lemma leadingInt_formatNat:
  assumes "m \<le> 2 ^ 63" and "r \<noteq> [] \<longrightarrow> \<not> isDigit (hd r)"
  shows "leadingInt 0 (formatNat m @ r) = Some (m, r)"
  using leadingInt_digits[OF isDigit_formatNat, of r 0 m] assms decimal_formatNat[of m] unfolding decimal_def by auto

definition durationUnits :: "(string \<times> nat) list" where
  "durationUnits = [(''h'', 3600000000000), (''m'', 60000000000), (''s'', 1000000000), (''ms'', 1000000), (''us'', 1000), (''ns'', 1)]"

lemma durationUnits_facts:
  assumes "(unit, un) \<in> set durationUnits"
  shows "unit \<noteq> []" "\<not> isDigit (hd unit)" "hd unit \<noteq> CHR ''.''" "last unit \<noteq> CHR ''0''" "unitNanos unit = Some un" "0 < un"
    "takeWhile (\<lambda>c. \<not> unitBreak c) unit = unit" "dropWhile (\<lambda>c. \<not> unitBreak c) unit = []"
proof -
  have "list_all (\<lambda>unit. unit \<noteq> [] \<and> \<not> isDigit (hd unit) \<and> hd unit \<noteq> CHR ''.'' \<and> last unit \<noteq> CHR ''0''
      \<and> takeWhile (\<lambda>c. \<not> unitBreak c) unit = unit \<and> dropWhile (\<lambda>c. \<not> unitBreak c) unit = [])
      [''h'', ''m'', ''s'', ''ms'', ''us'', ''ns'']" by code_simp
  moreover have "unit \<in> set [''h'', ''m'', ''s'', ''ms'', ''us'', ''ns'']" using assms by (auto simp: durationUnits_def)
  ultimately show "unit \<noteq> []" "\<not> isDigit (hd unit)" "hd unit \<noteq> CHR ''.''" "last unit \<noteq> CHR ''0''"
    "takeWhile (\<lambda>c. \<not> unitBreak c) unit = unit" "dropWhile (\<lambda>c. \<not> unitBreak c) unit = []"
    unfolding list_all_iff by blast+
  show "unitNanos unit = Some un" "0 < un" using assms by (auto simp: durationUnits_def unitNanos_def)
qed

lemma durationTerm_text:
  assumes u: "(unit, un) \<in> set durationUnits" and m: "m * un \<le> 2 ^ 63"
  shows "durationTerm frac (formatNat m @ unit) = Some (m * un, [])"
proof -
  note f = durationUnits_facts[OF u]
  have "m * 1 \<le> m * un" using f(6) by (intro mult_left_mono) auto
  also note m
  finally have "m \<le> 2 ^ 63" by simp
  then have l: "leadingInt 0 (formatNat m @ unit) = Some (m, unit)" using f(2) by (intro leadingInt_formatNat) auto
  have "m \<le> 2 ^ 63 div un" using m f(6) by (simp add: less_eq_div_iff_mult_less_eq)
  moreover have "unitBreak (hd (formatNat m @ unit))" using hd_last_formatNat(1)[of m] by (simp add: unitBreak_def)
  moreover have "length unit \<noteq> length (formatNat m @ unit)" by simp
  ultimately show ?thesis
    using l f(1,3,5) m by (simp add: durationTerm_def durationFraction_def durationUnit_def f(7,8) Let_def)
qed

lemma ParseDuration_text:
  assumes u: "(unit, un) \<in> set durationUnits" and m: "m * un < 2 ^ 63"
  shows "ParseDuration frac (formatNat m @ unit) = Some (int (m * un))"
    and "ParseDuration frac (CHR ''-'' # formatNat m @ unit) = Some (- int (m * un))"
proof -
  let ?s = "formatNat m @ unit"
  note f = durationUnits_facts[OF u]
  have h: "hd ?s \<noteq> CHR ''-''" "hd ?s \<noteq> CHR ''+''"
  proof -
    have "isDigit (hd ?s)" using hd_last_formatNat(1)[of m] by simp
    moreover have "\<not> isDigit (CHR ''-'')" "\<not> isDigit (CHR ''+'')" by code_simp+
    ultimately show "hd ?s \<noteq> CHR ''-''" "hd ?s \<noteq> CHR ''+''" by auto
  qed
  have z: "?s \<noteq> ''0''"
  proof
    assume "?s = ''0''"
    then have "last unit = CHR ''0''" using f(1) by (metis last_appendR last.simps)
    with f(4) show False by simp
  qed
  have "durationLoop frac 0 ?s = Some (m * un)"
    using durationTerm_text[OF u, of m frac] m
    by (simp add: durationLoop.simps[of frac 0 ?s] durationLoop.simps[of frac _ "[]"])
  with m h z show "ParseDuration frac ?s = Some (int (m * un))" "ParseDuration frac (CHR ''-'' # ?s) = Some (- int (m * un))"
    by (simp_all add: ParseDuration_def Let_def)
qed


lemma formatPositive_text:
  assumes "0 < d"
  shows "\<exists>m unit un. formatPositive d = formatNat m @ unit \<and> (unit, un) \<in> set durationUnits \<and> d = int (m * un)"
proof -
  have t: "\<exists>m unit un. formatPositive d = formatNat m @ unit \<and> (unit, un) \<in> set durationUnits \<and> d = int (m * un)"
    if "formatPositive d = FormatInt (d div int k) @ un" "(un, k) \<in> set durationUnits" "d mod int k = 0" for un k
  proof -
    have "0 \<le> d div int k" using assms by (simp add: pos_imp_zdiv_nonneg_iff durationUnits_facts(6)[OF that(2)])
    moreover have "d = d div int k * int k" using that(3) by (simp add: mod_eq_0_iff_dvd)
    ultimately show ?thesis using that(1,2)
      by (intro exI[of _ "nat (d div int k)"] exI[of _ un] exI[of _ k]) (simp add: FormatInt_def)
  qed
  have u: "(''h'', 3600000000000) \<in> set durationUnits" "(''m'', 60000000000) \<in> set durationUnits"
    "(''s'', 1000000000) \<in> set durationUnits" "(''ms'', 1000000) \<in> set durationUnits" "(''us'', 1000) \<in> set durationUnits"
    "(''ns'', 1) \<in> set durationUnits"
    by (simp_all add: durationUnits_def)
  show ?thesis
  proof (cases "d mod 3600000000000 = 0")
    case True then show ?thesis by (intro t[OF _ u(1)]) (simp_all add: formatPositive_def)
  next
    case 1: False
    show ?thesis
    proof (cases "d mod 60000000000 = 0")
      case True with 1 show ?thesis by (intro t[OF _ u(2)]) (simp_all add: formatPositive_def)
    next
      case 2: False
      show ?thesis
      proof (cases "d mod 1000000000 = 0")
        case True with 1 2 show ?thesis by (intro t[OF _ u(3)]) (simp_all add: formatPositive_def)
      next
        case 3: False
        show ?thesis
        proof (cases "d mod 1000000 = 0")
          case True with 1 2 3 show ?thesis by (intro t[OF _ u(4)]) (simp_all add: formatPositive_def)
        next
          case 4: False
          show ?thesis
          proof (cases "d mod 1000 = 0")
            case True with 1 2 3 4 show ?thesis by (intro t[OF _ u(5)]) (simp_all add: formatPositive_def)
          next
            case False with 1 2 3 4 show ?thesis by (intro t[OF _ u(6)]) (simp_all add: formatPositive_def)
          qed
        qed
      qed
    qed
  qed
qed

lemma FormatDuration_parse:
  assumes "- (2 ^ 63) < d" and "d < 2 ^ 63"
  shows "\<exists>s. FormatDuration d = Some s \<and> ParseDuration frac s = Some d"
proof -
  consider "d = 0" | "0 < d" | "d < 0" by linarith
  then show ?thesis
  proof cases
    case 1
    have z: "formatNat 0 @ ''s'' = ''0s''" by code_simp
    have "(''s'', 1000000000) \<in> set durationUnits" by (simp add: durationUnits_def)
    with 1 ParseDuration_text(1)[of "''s''" 1000000000 0 frac, unfolded z] show ?thesis
      by (simp add: FormatDuration.simps[of 0])
  next
    case 2
    from formatPositive_text[OF this] obtain m unit un where
      f: "formatPositive d = formatNat m @ unit" "(unit, un) \<in> set durationUnits" "d = int (m * un)" by blast
    have "FormatDuration d = Some (formatNat m @ unit)" using 2 f(1) by (simp add: FormatDuration.simps[of d])
    moreover have "m * un < 2 ^ 63" using assms(2) f(3) by (simp only: of_nat_less_numeral_power_cancel_iff)
    ultimately show ?thesis using ParseDuration_text(1)[OF f(2), of m frac] f(3) by simp
  next
    case 3
    then have "0 < - d" by simp
    from formatPositive_text[OF this] obtain m unit un where
      f: "formatPositive (- d) = formatNat m @ unit" "(unit, un) \<in> set durationUnits" "- d = int (m * un)" by blast
    have "int (m * un) < 2 ^ 63" using assms f(3) by linarith
    then have "m * un < 2 ^ 63" by (simp only: of_nat_less_numeral_power_cancel_iff)
    from ParseDuration_text(2)[OF f(2) this, of frac] f(3)
    have p: "ParseDuration frac (CHR ''-'' # formatNat m @ unit) = Some d" by (simp flip: of_nat_mult)
    have "FormatDuration (- d) = Some (formatNat m @ unit)"
      using \<open>0 < - d\<close> f(1) by (simp add: FormatDuration.simps[of "- d"])
    with 3 assms(1) have "FormatDuration d = Some (CHR ''-'' # formatNat m @ unit)"
      by (simp add: FormatDuration.simps[of d] neg64_def)
    with p show ?thesis by simp
  qed
qed

lemma FormatDuration_min: "FormatDuration (- (2 ^ 63)) = None"
proof (cases "FormatDuration (- (2 ^ 63))")
  case (Some s)
  then have "Some s = Some (CHR ''-'' # s)"
    using FormatDuration.simps[of "- (2 ^ 63)"] by (simp add: neg64_def)
  then have "length s = Suc (length s)" by (metis length_Cons option.inject)
  then show ?thesis by simp
qed

text \<open>(C38) The canonical texts of byte sizes and durations are read back as the values they were
  printed from: every byte size, and every duration except the smallest, on which the printer does
  not return.\<close>

theorem units_roundtrip:
  assumes "0 \<le> n" and "n < 2 ^ 63" and "- (2 ^ 63) \<le> d" and "d < 2 ^ 63"
  shows "ParseByteSize u (FormatByteSize n) = Some n
    \<and> (if d = - (2 ^ 63) then FormatDuration d = None
       else (\<exists>s. FormatDuration d = Some s \<and> ParseDuration frac s = Some d))"
  using assms ParseByteSize_Format FormatDuration_min FormatDuration_parse[of d frac] by auto

theorem units_roundtrip_witness:
  "ParseByteSize ascii_env (FormatByteSize 10485760) = Some 10485760 \<and> FormatByteSize 10485760 = ''10MiB''
   \<and> (\<exists>s. FormatDuration 90000000000 = Some s \<and> ParseDuration (\<lambda>_ _ _. 0) s = Some 90000000000)"
proof -
  have "FormatByteSize 10485760 = ''10MiB''" by code_simp
  with units_roundtrip[of 10485760 90000000000 ascii_env "\<lambda>_ _ _. 0"] show ?thesis by simp
qed

end
