(* ===== verification/Config_Tree.thy ===== *)
theory Config_Tree
  imports Config_Roundtrip
begin

text \<open>
  Reading a document's durations and byte sizes and printing them again: what a walk without
  violations leaves in the fields, that the walk over durations and the walk over sizes do not
  touch each other's fields, and the round trip of a whole document.
\<close>

text \<open>A converted tree has a number within a range, or null, in each of the fields.\<close>

fun converted :: "string set \<Rightarrow> (int \<Rightarrow> bool) \<Rightarrow> json \<Rightarrow> bool" where
  "converted names P (JObject ms) \<longleftrightarrow>
     (\<forall>(k, child) \<in> set ms. if k \<in> names then child = JNull \<or> (\<exists>n. child = JInt n \<and> P n) else converted names P child)"
| "converted names P (JArray xs) \<longleftrightarrow> (\<forall>x \<in> set xs. converted names P x)"
| "converted names P v \<longleftrightarrow> True"

lemma converted_object [simp]:
  "converted names P (JObject ms) \<longleftrightarrow> (\<forall>k c. (k, c) \<in> set ms \<longrightarrow>
     (k \<in> names \<longrightarrow> c = JNull \<or> (\<exists>n. c = JInt n \<and> P n)) \<and> (k \<notin> names \<longrightarrow> converted names P c))"
  unfolding converted.simps by fastforce

declare converted.simps(1) [simp del]

lemma converted_objectD:
  assumes "converted names P (JObject ms)" and "(k, c) \<in> set ms"
  shows "k \<in> names \<Longrightarrow> c = JNull \<or> (\<exists>n. c = JInt n \<and> P n)" and "k \<notin> names \<Longrightarrow> converted names P c"
  using assms unfolding converted_object by blast+

text \<open>Printing a converted tree, as a total function.\<close>

fun showTree :: "string set \<Rightarrow> (int \<Rightarrow> string) \<Rightarrow> json \<Rightarrow> json" where
  "showTree names g (JObject ms) =
     JObject (map (\<lambda>(k, child).
       (k, if k \<in> names then (case child of JInt n \<Rightarrow> JString (g n) | _ \<Rightarrow> child) else showTree names g child)) ms)"
| "showTree names g (JArray xs) = JArray (map (showTree names g) xs)"
| "showTree names g v = v"

lemma those_map: "(\<forall>x \<in> set xs. f x = Some (h x)) \<Longrightarrow> those (map f xs) = Some (map h xs)"
  by (induction xs) auto

lemma zip_fst_map: "zip (map fst ms) (map (\<lambda>(k, c). h k c) ms) = map (\<lambda>(k, c). (k, h k c)) ms"
  by (induction ms) auto

lemma printTree_show:
  assumes "\<And>n. P n \<Longrightarrow> fmt n = Some (g n)"
  shows "converted names P t \<Longrightarrow> printTree names fmt t = Some (showTree names g t)"
proof (induction t)
  case (JArray xs)
  then show ?case by (auto intro!: those_map)
next
  case (JObject ms)
  let ?f = "\<lambda>(k, child). case (if k \<in> names then jsonNumberInt child else None) of
            Some n \<Rightarrow> map_option JString (fmt n) | None \<Rightarrow> printTree names fmt child"
  let ?h = "\<lambda>(k, child). if k \<in> names then (case child of JInt n \<Rightarrow> JString (g n) | _ \<Rightarrow> child) else showTree names g child"
  have "\<forall>x \<in> set ms. ?f x = Some (?h x)"
    using JObject assms by (fastforce simp: jsonNumberInt_def split: prod.splits)
  then have "those (map ?f ms) = Some (map ?h ms)" by (rule those_map)
  then show ?case by (simp add: zip_fst_map)
qed simp_all


lemma convert_show:
  assumes "\<And>n path. P n \<Longrightarrow> coerce (JString (g n)) path = (JInt n, [])" and "\<And>path. coerce JNull path = (JNull, [])"
  shows "converted names P t \<Longrightarrow> convertTree names coerce (showTree names g t) path = (t, [])"
proof (induction t arbitrary: path)
  case (JArray xs)
  have "map (\<lambda>(i, child). convertTree names coerce child (indexPath path i)) (zip [0..<length xs] (map (showTree names g) xs))
      = map (\<lambda>x. (x, [])) xs"
    using JArray by (intro nth_equalityI) auto
  then show ?case by (simp add: Let_def comp_def)
next
  case (JObject ms)
  let ?h = "\<lambda>k child. if k \<in> names then (case child of JInt n \<Rightarrow> JString (g n) | _ \<Rightarrow> child) else showTree names g child"
  have c: "(if k \<in> names then coerce (?h k child) (joinPath path k)
      else convertTree names coerce (?h k child) (joinPath path k)) = (child, [])"
    if "(k, child) \<in> set ms" for k child
    using JObject.IH[OF that, of child] JObject.prems that assms by (cases "k \<in> names") fastforce+
  have "map (\<lambda>(k, child). if k \<in> names then coerce child (joinPath path k) else convertTree names coerce child (joinPath path k))
      (map (\<lambda>(k, child). (k, ?h k child)) ms) = map (\<lambda>(k, child). (child, [])) ms"
    using c by auto
  moreover have "map fst (map (\<lambda>(k, child). (k, ?h k child)) ms) = map fst ms" by auto
  moreover have "map fst (map (\<lambda>(k, child). (child, [] :: FieldViolation list)) ms) = map snd ms"
    "concat (map snd (map (\<lambda>(k, child). (child, [] :: FieldViolation list)) ms)) = []"
    by (auto simp: comp_def case_prod_unfold)
  ultimately show ?case unfolding showTree.simps convertTree.simps Let_def by (simp only: zip_map_fst_snd)
qed simp_all


text \<open>A walk without violations leaves a converted tree, and keeps the other walk's fields.\<close>

lemma concat_Nil_map: "concat (map snd (map f xs)) = [] \<Longrightarrow> x \<in> set xs \<Longrightarrow> f x = (fst (f x), [])"
  by (metis concat_eq_Nil_conv image_eqI list.set_map prod.collapse)

lemma in_set_zip_map: "(k, c) \<in> set (zip (map fst ms) (map f ms)) \<Longrightarrow> \<exists>v. (k, v) \<in> set ms \<and> c = f (k, v)"
  by (induction ms) auto

lemma convertTree_object:
  assumes "convertTree names coerce (JObject ms) path = (t, [])"
  obtains ms' where "t = JObject ms'" and "\<And>k c. (k, c) \<in> set ms' \<Longrightarrow> \<exists>v. (k, v) \<in> set ms \<and>
    (if k \<in> names then coerce v (joinPath path k) else convertTree names coerce v (joinPath path k)) = (c, [])"
proof -
  let ?f = "\<lambda>(k, child). if k \<in> names then coerce child (joinPath path k) else convertTree names coerce child (joinPath path k)"
  from assms have t: "t = JObject (zip (map fst ms) (map (fst \<circ> ?f) ms))" and vs: "concat (map snd (map ?f ms)) = []"
    by (simp_all add: Let_def)
  have "\<exists>v. (k, v) \<in> set ms \<and> ?f (k, v) = (c, [])" if kc: "(k, c) \<in> set (zip (map fst ms) (map (fst \<circ> ?f) ms))" for k c
  proof -
    from in_set_zip_map[OF kc] obtain v where v: "(k, v) \<in> set ms" "c = fst (?f (k, v))" unfolding comp_def by blast
    from concat_Nil_map[OF vs v(1)] v show ?thesis by auto
  qed
  then show ?thesis using t by (intro that[of "zip (map fst ms) (map (fst \<circ> ?f) ms)"]) auto
qed

lemma convertTree_array:
  assumes "convertTree names coerce (JArray xs) path = (t, [])"
  obtains ys where "t = JArray ys" and "\<And>y. y \<in> set ys \<Longrightarrow> \<exists>x p. x \<in> set xs \<and> convertTree names coerce x p = (y, [])"
proof -
  let ?f = "\<lambda>(i, child). convertTree names coerce child (indexPath path i)"
  let ?ixs = "zip [0..<length xs] xs"
  from assms have t: "t = JArray (map (fst \<circ> ?f) ?ixs)" and vs: "concat (map snd (map ?f ?ixs)) = []"
    by (simp_all add: Let_def)
  have "\<exists>x p. x \<in> set xs \<and> convertTree names coerce x p = (y, [])" if "y \<in> set (map (fst \<circ> ?f) ?ixs)" for y
  proof -
    from \<open>y \<in> _\<close> obtain i x where ix: "(i, x) \<in> set ?ixs" "y = fst (?f (i, x))" by auto
    then have "x \<in> set xs" by (metis in_set_zipE)
    moreover have "convertTree names coerce x (indexPath path i) = (y, [])" using concat_Nil_map[OF vs ix(1)] ix(2) by simp
    ultimately show ?thesis by blast
  qed
  then show ?thesis using t by (intro that[of "map (fst \<circ> ?f) ?ixs"]) auto
qed

text \<open>What a coercion without a violation yields.\<close>

definition coerces :: "(json \<Rightarrow> string \<Rightarrow> json \<times> FieldViolation list) \<Rightarrow> (int \<Rightarrow> bool) \<Rightarrow> bool" where
  "coerces coerce P \<longleftrightarrow> (\<forall>c p c'. coerce c p = (c', []) \<longrightarrow> c' = JNull \<or> (\<exists>n. c' = JInt n \<and> P n))"

lemma convert_converted:
  assumes "coerces coerce P"
  shows "convertTree names coerce v path = (t, []) \<Longrightarrow> converted names P t"
proof (induction v arbitrary: path t)
  case (JObject ms)
  from JObject.prems obtain ms' where t: "t = JObject ms'"
    and c: "\<And>k c. (k, c) \<in> set ms' \<Longrightarrow> \<exists>v. (k, v) \<in> set ms \<and>
      (if k \<in> names then coerce v (joinPath path k) else convertTree names coerce v (joinPath path k)) = (c, [])"
    by (rule convertTree_object) blast
  have "(k \<in> names \<longrightarrow> c = JNull \<or> (\<exists>n. c = JInt n \<and> P n)) \<and> (k \<notin> names \<longrightarrow> converted names P c)"
    if "(k, c) \<in> set ms'" for k c
    using c[OF that] JObject.IH assms unfolding coerces_def by (fastforce split: if_splits)
  then show ?case unfolding t by simp
next
  case (JArray xs)
  from JArray.prems obtain ys where "t = JArray ys"
    and "\<And>y. y \<in> set ys \<Longrightarrow> \<exists>x p. x \<in> set xs \<and> convertTree names coerce x p = (y, [])"
    by (rule convertTree_array) blast
  with JArray.IH show ?case by fastforce
qed auto

lemma convert_keeps:
  assumes "coerces coerce P" and "names \<inter> names' = {}"
  shows "convertTree names coerce v path = (t, []) \<Longrightarrow> converted names' Q v \<Longrightarrow> converted names' Q t"
proof (induction v arbitrary: path t)
  case (JObject ms)
  from JObject.prems(1) obtain ms' where t: "t = JObject ms'"
    and c: "\<And>k c. (k, c) \<in> set ms' \<Longrightarrow> \<exists>v. (k, v) \<in> set ms \<and>
      (if k \<in> names then coerce v (joinPath path k) else convertTree names coerce v (joinPath path k)) = (c, [])"
    by (rule convertTree_object) blast
  have "(k \<in> names' \<longrightarrow> c = JNull \<or> (\<exists>n. c = JInt n \<and> Q n)) \<and> (k \<notin> names' \<longrightarrow> converted names' Q c)"
    if kc: "(k, c) \<in> set ms'" for k c
  proof -
    from c[OF kc] obtain v where v: "(k, v) \<in> set ms"
      and r: "(if k \<in> names then coerce v (joinPath path k) else convertTree names coerce v (joinPath path k)) = (c, [])" by blast
    note q = converted_objectD[OF JObject.prems(2) v]
    show ?thesis
    proof (cases "k \<in> names")
      case True
      with r assms have "k \<notin> names'" "c = JNull \<or> (\<exists>n. c = JInt n)" unfolding coerces_def by auto
      then show ?thesis by auto
    next
      case False
      with r have "convertTree names coerce v (joinPath path k) = (c, [])" by simp
      with q JObject.IH[OF v, of v] show ?thesis by auto
    qed
  qed
  then show ?case unfolding t by simp
next
  case (JArray xs)
  from JArray.prems(1) obtain ys where "t = JArray ys"
    and "\<And>y. y \<in> set ys \<Longrightarrow> \<exists>x p. x \<in> set xs \<and> convertTree names coerce x p = (y, [])"
    by (rule convertTree_array) blast
  with JArray.IH JArray.prems(2) show ?case by fastforce
qed auto

text \<open>Printing keeps the other walk's fields, and the two printings commute.\<close>

lemma show_keeps:
  "names \<inter> names' = {} \<Longrightarrow> converted names P t \<Longrightarrow> converted names' Q t \<Longrightarrow> converted names' Q (showTree names g t)"
proof (induction t)
  case (JObject ms)
  have "(k \<in> names' \<longrightarrow> c' = JNull \<or> (\<exists>n. c' = JInt n \<and> Q n)) \<and> (k \<notin> names' \<longrightarrow> converted names' Q c')"
    if "(k, c) \<in> set ms" and "c' = (if k \<in> names then (case c of JInt n \<Rightarrow> JString (g n) | _ \<Rightarrow> c) else showTree names g c)" for k c c'
  proof -
    note converted_objectD[OF JObject.prems(2) that(1)] converted_objectD[OF JObject.prems(3) that(1)]
    with that(2) JObject.IH[OF that(1), of c] JObject.prems(1) show ?thesis by (cases "k \<in> names"; cases "k \<in> names'") auto
  qed
  then show ?case by fastforce
qed auto

lemma show_commute:
  "names \<inter> names' = {} \<Longrightarrow> converted names P t \<Longrightarrow> converted names' Q t \<Longrightarrow>
   showTree names g (showTree names' h t) = showTree names' h (showTree names g t)"
proof (induction t)
  case (JObject ms)
  have "(if k \<in> names then (case c1 of JInt n \<Rightarrow> JString (g n) | _ \<Rightarrow> c1) else showTree names g c1)
      = (if k \<in> names' then (case c2 of JInt n \<Rightarrow> JString (h n) | _ \<Rightarrow> c2) else showTree names' h c2)"
    if "(k, c) \<in> set ms"
      and "c1 = (if k \<in> names' then (case c of JInt n \<Rightarrow> JString (h n) | _ \<Rightarrow> c) else showTree names' h c)"
      and "c2 = (if k \<in> names then (case c of JInt n \<Rightarrow> JString (g n) | _ \<Rightarrow> c) else showTree names g c)" for k c c1 c2
  proof -
    note converted_objectD[OF JObject.prems(2) that(1)] converted_objectD[OF JObject.prems(3) that(1)]
    with that(2,3) JObject.IH[OF that(1), of c] JObject.prems(1) show ?thesis by (cases "k \<in> names"; cases "k \<in> names'") auto
  qed
  then show ?case by auto
qed auto

subsection \<open>The two walks of a wire document\<close>

definition durationRange :: "int \<Rightarrow> bool" where
  "durationRange d \<longleftrightarrow> - (2 ^ 63) \<le> d \<and> d < 2 ^ 63"

definition sizeRange :: "int \<Rightarrow> bool" where
  "sizeRange n \<longleftrightarrow> 0 \<le> n \<and> n < 2 ^ 63"

lemma durationLoop_range: "d \<le> 2 ^ 63 \<Longrightarrow> durationLoop frac d s = Some e \<Longrightarrow> e \<le> 2 ^ 63"
proof (induction frac d s rule: durationLoop.induct)
  case (1 frac d s)
  note eq = 1(3)[unfolded durationLoop.simps[of frac d s] Let_def]
  show ?case
  proof (cases "s = []")
    case True
    with eq 1(2) show ?thesis by simp
  next
    case False
    with eq obtain w r where t: "durationTerm frac s = Some (w, r)" by (cases "durationTerm frac s") auto
    show ?thesis
    proof (cases "(d + w) mod 2 ^ 64 > 2 ^ 63")
      case True
      with eq False t show ?thesis by simp
    next
      case le: False
      with eq False t have "durationLoop frac ((d + w) mod 2 ^ 64) r = Some e" by simp
      with 1(1)[OF False t refl refl] le show ?thesis by simp
    qed
  qed
qed

lemma ParseDuration_range:
  assumes "ParseDuration frac s = Some d"
  shows "durationRange d"
proof -
  define s' where "s' = (if s \<noteq> [] \<and> (hd s = CHR ''-'' \<or> hd s = CHR ''+'') then tl s else s)"
  have "ParseDuration frac s = (if s' = ''0'' then Some 0 else if s' = [] then None
      else case durationLoop frac 0 s' of None \<Rightarrow> None
      | Some e \<Rightarrow> if s \<noteq> [] \<and> hd s = CHR ''-'' then Some (- int e) else if e > 2 ^ 63 - 1 then None else Some (int e))"
    unfolding ParseDuration_def Let_def s'_def ..
  with assms have "d = 0 \<or> (\<exists>e. durationLoop frac 0 s' = Some e \<and> (d = - int e \<or> \<not> e > 2 ^ 63 - 1 \<and> d = int e))"
    by (cases "durationLoop frac 0 s'") (simp_all only: option.simps split: if_splits, blast+)
  then consider "d = 0" | e where "durationLoop frac 0 s' = Some e" "d = - int e \<or> \<not> e > 2 ^ 63 - 1 \<and> d = int e" by blast
  then show ?thesis
  proof cases
    case 1 then show ?thesis by (simp add: durationRange_def)
  next
    case (2 e)
    then have "e \<le> 2 ^ 63" using durationLoop_range[of 0 frac s' e] by simp
    then have "int e \<le> 2 ^ 63" by (simp only: of_nat_le_numeral_power_cancel_iff)
    with 2(2) show ?thesis by (auto simp: durationRange_def)
  qed
qed

lemma ParseByteSize_range: "ParseByteSize u s = Some n \<Longrightarrow> sizeRange n"
  by (auto simp: ParseByteSize_def ParseDigits_def sizeUnit_def sizeRange_def Let_def split: if_splits option.splits)

lemma coerces_duration: "coerces (coerceDurationField frac) durationRange"
  by (auto simp: coerces_def coerceDurationField_def ParseDuration_range split: json.splits option.splits)

lemma coerces_size: "coerces (coerceByteSizeField u dg) sizeRange"
  by (auto simp: coerces_def coerceByteSizeField_def ParseByteSize_range split: json.splits option.splits if_splits)


text \<open>Every text a coercion reads back.\<close>

lemma FormatByteSize_not_bare:
  assumes "sizeRange n"
  shows "\<not> looksLikeBareNumber dg (FormatByteSize n)"
proof -
  from assms obtain m unit mul where f: "FormatByteSize n = FormatInt m @ unit" "(unit, mul) \<in> set sizeUnits" "0 \<le> m"
    using FormatByteSize_text[of n] by (auto simp: sizeRange_def)
  then have "unit \<noteq> []" "\<not> isDigit (hd unit)" "isASCII unit" using sizeUnits_facts(1) by auto
  moreover have "isASCII (FormatInt m)"
    using f(3) isDigit_formatNat[of "nat m"] isDigit_plain by (auto simp: FormatInt_def isASCII_def list_all_iff)
  ultimately show ?thesis
    unfolding looksLikeBareNumber_def f(1) by (cases unit) (auto simp: isASCII_def list_all_iff)
qed

lemma converted_mono: "(\<And>n. P n \<Longrightarrow> Q n \<Longrightarrow> R n) \<Longrightarrow> converted names P t \<Longrightarrow> converted names Q t \<Longrightarrow> converted names R t"
proof (induction t)
  case (JObject ms)
  have "(k \<in> names \<longrightarrow> c = JNull \<or> (\<exists>n. c = JInt n \<and> R n)) \<and> (k \<notin> names \<longrightarrow> converted names R c)" if kc: "(k, c) \<in> set ms" for k c
  proof -
    note converted_objectD[OF JObject.prems(2) kc] converted_objectD[OF JObject.prems(3) kc]
    with JObject.prems(1) JObject.IH[OF kc, of c] show ?thesis by auto
  qed
  then show ?case by simp
qed auto

definition printable :: "int \<Rightarrow> bool" where
  "printable d \<longleftrightarrow> - (2 ^ 63) < d \<and> d < 2 ^ 63"

lemma coerced_fields:
  assumes "CoerceWireTree u dg frac v = (t, [])" and "converted durationFields (\<lambda>d. d \<noteq> - (2 ^ 63)) t"
  shows "converted durationFields printable t" and "converted sizeFields sizeRange t"
proof -
  obtain v1 where v1: "convertTree durationFields (coerceDurationField frac) v '''' = (v1, [])"
    and t: "convertTree sizeFields (coerceByteSizeField u dg) v1 '''' = (t, [])"
    using assms(1) by (auto simp: CoerceWireTree_def convertDurations_def convertByteSizes_def split: prod.splits)
  have disj: "sizeFields \<inter> durationFields = {}" by (simp add: durationFields_def sizeFields_def)
  show "converted sizeFields sizeRange t" by (rule convert_converted[OF coerces_size t])
  have "converted durationFields durationRange t"
    by (rule convert_keeps[OF coerces_size disj t convert_converted[OF coerces_duration v1]])
  from converted_mono[OF _ this assms(2)] show "converted durationFields printable t"
    by (auto simp: durationRange_def printable_def)
qed

text \<open>(C37) A document that was read without violations is printed back, unless one of its durations
  is the smallest \<open>int64\<close>, and the printed document is read, without violations, as the same
  document.\<close>

theorem wire_tree_roundtrip:
  assumes "CoerceWireTree u dg frac v = (t, [])" and "converted durationFields (\<lambda>d. d \<noteq> - (2 ^ 63)) t"
  shows "\<exists>v'. FormatWireTree t = Some v' \<and> CoerceWireTree u dg frac v' = (t, [])"
proof -
  note d = coerced_fields(1)[OF assms] and s = coerced_fields(2)[OF assms]
  have disj: "durationFields \<inter> sizeFields = {}" "sizeFields \<inter> durationFields = {}"
    by (simp_all add: durationFields_def sizeFields_def)
  obtain g where g: "\<And>d. printable d \<Longrightarrow> FormatDuration d = Some (g d) \<and> ParseDuration frac (g d) = Some d"
    using FormatDuration_parse[of _ frac] unfolding printable_def by metis
  let ?t1 = "showTree durationFields g t" and ?t2 = "showTree sizeFields FormatByteSize t"
  let ?v' = "showTree sizeFields FormatByteSize ?t1"
  have "convertDurationNumbersToStrings t = Some ?t1"
    unfolding convertDurationNumbersToStrings_def using g by (intro printTree_show[OF _ d]) auto
  moreover have "convertByteSizeNumbersToStrings ?t1 = Some ?v'"
    unfolding convertByteSizeNumbersToStrings_def by (rule printTree_show[OF _ show_keeps[OF disj(1) d s]]) simp
  ultimately have f: "FormatWireTree t = Some ?v'" by (simp add: FormatWireTree_def)
  have v': "?v' = showTree durationFields g ?t2" by (rule show_commute[OF disj(2) s d])
  have "convertDurations frac ?v' '''' = (?t2, [])" unfolding v' convertDurations_def
    using g by (intro convert_show[OF _ _ show_keeps[OF disj(2) s d]]) (auto simp: coerceDurationField_def)
  moreover have "convertByteSizes u dg ?t2 '''' = (t, [])" unfolding convertByteSizes_def
    by (rule convert_show[OF _ _ s])
      (auto simp: coerceByteSizeField_def FormatByteSize_not_bare ParseByteSize_Format sizeRange_def)
  ultimately show ?thesis using f by (simp add: CoerceWireTree_def)
qed

theorem wire_tree_roundtrip_witness:
  "\<exists>v'. FormatWireTree (JObject [(''maxBytes'', JInt 65536), (''items'', JArray [JObject [(''delay'', JInt 1500000000)]])]) = Some v' \<and>
     CoerceWireTree ascii_env (\<lambda>_. False) (\<lambda>f scale un. f * un div scale) v' =
       (JObject [(''maxBytes'', JInt 65536), (''items'', JArray [JObject [(''delay'', JInt 1500000000)]])], [])"
proof (rule wire_tree_roundtrip)
  have t: "FormatInt 64 @ ''KiB'' = ''64KiB''" "formatNat 1500 @ ''ms'' = ''1500ms''" by code_simp+
  have "(''KiB'', 1024) \<in> set sizeUnits" "(''ms'', 1000000) \<in> set durationUnits"
    by (simp_all add: sizeUnits_def durationUnits_def)
  then have "ParseByteSize ascii_env ''64KiB'' = Some 65536"
    and "ParseDuration (\<lambda>f scale un. f * un div scale) ''1500ms'' = Some 1500000000"
    using ParseByteSize_text[of 64 "''KiB''" 1024 ascii_env, unfolded t] ParseDuration_text(1)[of "''ms''" 1000000 1500, unfolded t]
    by simp_all
  moreover have "\<not> looksLikeBareNumber (\<lambda>_. False) ''64KiB''" by code_simp
  ultimately show "CoerceWireTree ascii_env (\<lambda>_. False) (\<lambda>f scale un. f * un div scale)
      (JObject [(''maxBytes'', JString ''64KiB''), (''items'', JArray [JObject [(''delay'', JString ''1500ms'')]])]) =
    (JObject [(''maxBytes'', JInt 65536), (''items'', JArray [JObject [(''delay'', JInt 1500000000)]])], [])"
    by (simp add: CoerceWireTree_def convertDurations_def convertByteSizes_def durationFields_def sizeFields_def
        coerceDurationField_def coerceByteSizeField_def)
  show "converted durationFields (\<lambda>d. d \<noteq> - (2 ^ 63))
      (JObject [(''maxBytes'', JInt 65536), (''items'', JArray [JObject [(''delay'', JInt 1500000000)]])])"
    by (simp add: durationFields_def)
qed

end
