(* ===== verification/Model_Spec.thy ===== *)
theory Model_Spec
  imports Rules_Action Store_Memory
begin

text \<open>
  The desired state of the proxy (\<open>internal/model/state.go\<close>, \<open>spec.go\<close>) and the
  plan and apply operations on it (\<open>operation.go\<close>). The records of the rules are in
  \<open>Rules_Engine\<close>. Slices that \<open>Normalize\<close> tells apart from empty ones are options; the
  header maps and lists of a rule are plain, nil being empty there.
\<close>

record UserPassUserSpec =
  up_ID :: string
  up_UsernameFile :: string
  up_PasswordFile :: string

record UserPassSpec =
  ups_Users :: "UserPassUserSpec slice"

record ProxyListenerSpec =
  pl_Address :: string
  pl_AcceptSOCKS5 :: bool
  pl_AcceptSOCKS4 :: bool
  pl_AcceptBind :: bool
  pl_AcceptUDPAssociate :: bool
  pl_AcceptUserPass :: bool
  pl_UserPass :: UserPassSpec

record OriginalDestListenerSpec =
  od_Enabled :: bool
  od_Address :: string

record ListenerTLS =
  lt_Enabled :: bool
  lt_CertFile :: string
  lt_KeyFile :: string

record MgmtListenerSpec =
  ml_Address :: string
  ml_RESTPath :: string
  ml_MCPPath :: string
  ml_TLS :: ListenerTLS

record ListenersSpec =
  ls_Proxy :: ProxyListenerSpec
  ls_Management :: MgmtListenerSpec
  ls_OriginalDestination :: OriginalDestListenerSpec

record HTTPAuthSpec =
  ha_Enabled :: bool
  ha_Realm :: string
  ha_Users :: "UserPassUserSpec slice"

record AdmissionSpec =
  ad_MaxSessions :: int
  ad_MaxSessionsPerIP :: int
  ad_MaxInFlight :: int
  ad_MaxInFlightBytes :: int
  ad_SessionTimeout :: duration
  ad_IdleTimeout :: duration
  ad_HeaderTimeout :: duration
  ad_DialTimeout :: duration
  ad_UpstreamTimeout :: duration
  ad_MaxConcurrentStreams :: int

record TargetsSpec =
  tg_DenyCloudMetadata :: bool
  tg_DenyLinkLocal :: bool
  tg_AllowLoopback :: bool
  tg_AllowHosts :: "string slice"
  tg_DenyHosts :: "string slice"

record ProxySpec =
  px_Hostname :: string
  px_Admission :: AdmissionSpec
  px_Targets :: TargetsSpec
  px_HTTPAuth :: HTTPAuthSpec

record CASpec =
  ca_Mode :: string
  ca_CertFile :: string
  ca_KeyFile :: string

record TLSUpstreamSpec =
  tu_InsecureSkipVerify :: bool
  tu_ExtraCAFiles :: "string slice"

record TLSSpec =
  ts_Intercept :: bool
  ts_Hosts :: "string slice"
  ts_Ports :: "int slice"
  ts_CA :: CASpec
  ts_Upstream :: TLSUpstreamSpec

record HTTP2Spec =
  h2s_Enabled :: bool
  h2s_ClientCleartext :: bool
  h2s_Origin :: bool
  h2s_ExtendedConnect :: bool
  h2s_CapturePush :: bool
  h2s_GRPCDecode :: bool

record WebSocketSpec =
  wss_Enabled :: bool
  wss_InspectFrames :: bool

record ProtocolGateSpec =
  pg_Enabled :: bool

record ProtocolsSpec =
  pr_HTTP2 :: HTTP2Spec
  pr_WebSocket :: WebSocketSpec
  pr_Connect :: ProtocolGateSpec
  pr_AbsoluteForm :: ProtocolGateSpec

record FlowRESTCompatSpec =
  fr_Enabled :: bool
  fr_PathPrefix :: string

record CompatSpec =
  cs_FlowREST :: FlowRESTCompatSpec

record StoreSpec =
  ss_MaxFlows :: int
  ss_MaxBytes :: int
  ss_MaxBodyBytes :: int
  ss_FullPolicy :: string
  ss_MaxWait :: duration
  ss_SpillDirectory :: string
  ss_SpillThreshold :: int

record UISpec =
  ui_Enabled :: bool

record TokenSpec =
  tk_ID :: string
  tk_SecretFile :: string
  tk_Role :: string
  tk_Scopes :: "string slice"

record MgmtAuthSpec =
  mau_Mode :: string
  mau_Tokens :: "TokenSpec slice"

record MCPSpec =
  mcp_AllowLegacyClients :: bool

record ManagementSpec =
  mg_Auth :: MgmtAuthSpec
  mg_MCP :: MCPSpec
  mg_OriginAllowlist :: "string slice"
  mg_BodyLimit :: int
  mg_RequestsPerSecond :: int
  mg_Burst :: int
  mg_MaxConcurrent :: int

record MetricsSpec =
  me_Listen :: string
  me_PublicPath :: bool

record AuditSpec =
  au_Ring :: int

record ObservabilitySpec =
  ob_LogLevel :: string
  ob_Metrics :: MetricsSpec
  ob_Audit :: AuditSpec

record Spec =
  sp_Listeners :: ListenersSpec
  sp_Proxy :: ProxySpec
  sp_TLS :: TLSSpec
  sp_Rules :: RulesSpec
  sp_Store :: StoreSpec
  sp_UI :: UISpec
  sp_Management :: ManagementSpec
  sp_Observability :: ObservabilitySpec
  sp_Protocols :: ProtocolsSpec
  sp_Compat :: CompatSpec

record Metadata =
  md_Name :: string
  md_Labels :: "(string, string) gomap"

record State =
  st_APIVersion :: string
  st_Kind :: string
  st_Metadata :: Metadata
  st_Spec :: Spec
subsection \<open>Operations (operation.go)\<close>

record FeaturePatch =
  fp_ID :: string
  fp_Enabled :: bool

record StoreCaps =
  sc_MaxFlows :: int
  sc_MaxBytes :: int
  sc_MaxBodyBytes :: int
  sc_FullPolicy :: string

record Operation =
  o_Op :: string
  o_Store :: "StoreCaps option"
  o_Admission :: "AdmissionSpec option"
  o_TLS :: "TLSSpec option"
  o_Rules :: "RulesSpec option"
  o_Targets :: "TargetsSpec option"
  o_Compat :: "CompatSpec option"
  o_Feature :: "FeaturePatch option"
  o_HTTPAuth :: "HTTPAuthSpec option"
definition OpReplaceStoreCaps :: string where "OpReplaceStoreCaps = ''replaceStoreCaps''"
definition OpReplaceAdmission :: string where "OpReplaceAdmission = ''replaceAdmission''"
definition OpReplaceTLS :: string where "OpReplaceTLS = ''replaceTLS''"
definition OpReplaceRules :: string where "OpReplaceRules = ''replaceRules''"
definition OpReplaceTargets :: string where "OpReplaceTargets = ''replaceTargets''"
definition OpReplaceCompat :: string where "OpReplaceCompat = ''replaceCompat''"
definition OpSetFeature :: string where "OpSetFeature = ''setFeature''"
definition OpReplaceHTTPAuth :: string where "OpReplaceHTTPAuth = ''replaceHTTPAuth''"

lemmas op_defs = OpReplaceStoreCaps_def OpReplaceAdmission_def OpReplaceTLS_def OpReplaceRules_def
  OpReplaceTargets_def OpReplaceCompat_def OpSetFeature_def OpReplaceHTTPAuth_def

definition KnownOp :: "string \<Rightarrow> bool" where
  "KnownOp x \<longleftrightarrow> x \<in> {OpReplaceStoreCaps, OpReplaceAdmission, OpReplaceTLS, OpReplaceRules, OpReplaceTargets,
     OpReplaceCompat, OpSetFeature, OpReplaceHTTPAuth}"

subsection \<open>Vocabularies (spec.go)\<close>

definition CAModeGenerate :: string where "CAModeGenerate = ''generate''"
definition CAModeFiles :: string where "CAModeFiles = ''files''"
definition MgmtAuthBearer :: string where "MgmtAuthBearer = ''bearer''"
definition MgmtAuthDevLoopbackUnauth :: string where "MgmtAuthDevLoopbackUnauth = ''dev-loopback-unauth''"

definition KnownScope :: "string \<Rightarrow> bool" where
  "KnownScope s \<longleftrightarrow> s \<in> {''mitm.read'', ''mitm.write'', ''mitm.admin'', ''mitm.audit.read''}"

definition KnownRole :: "string \<Rightarrow> bool" where
  "KnownRole r \<longleftrightarrow> r \<in> {''viewer'', ''operator'', ''administrator''}"

definition KnownRulePhase :: "string \<Rightarrow> bool" where
  "KnownRulePhase p \<longleftrightarrow> p \<in> {''request'', ''response'', ''websocket''}"

definition KnownRuleAction :: "string \<Rightarrow> bool" where
  "KnownRuleAction t \<longleftrightarrow> t \<in> {''breakpoint'', ''drop'', ''delay'', ''status'', ''header'', ''body'', ''silent'', ''hang'',
     ''redirect'', ''block'', ''throttle''}"

definition KnownRuleOpcode :: "string \<Rightarrow> bool" where
  "KnownRuleOpcode x \<longleftrightarrow> x \<in> {''continuation'', ''text'', ''binary'', ''close'', ''ping'', ''pong'', ''other''}"

definition KnownRuleDirection :: "string \<Rightarrow> bool" where
  "KnownRuleDirection d \<longleftrightarrow> d \<in> {''client'', ''origin''}"

definition KnownRuleProtocol :: "string \<Rightarrow> bool" where
  "KnownRuleProtocol p \<longleftrightarrow> p \<in> {''http/1.1'', ''h2'', ''websocket'', ''connect'', ''socks5'', ''socks4''}"

definition KnownLogLevel :: "string \<Rightarrow> bool" where
  "KnownLogLevel l \<longleftrightarrow> l \<in> {''debug'', ''info'', ''warn'', ''error''}"

end
