(* ===== verification/Go_Net.thy ===== *)
theory Go_Net
  imports Go_Strconv
begin

text \<open>
  More of the standard library: \<open>strings.Split\<close> by one byte, \<open>strings.ContainsAny\<close>,
  \<open>strconv.Atoi\<close> and \<open>net.SplitHostPort\<close>.
\<close>

fun SplitByte :: "char \<Rightarrow> string \<Rightarrow> string list" where
  "SplitByte c [] = [[]]"
| "SplitByte c (x # s) =
     (if x = c then [] # SplitByte c s
      else case SplitByte c s of [] \<Rightarrow> [[x]] | seg # segs \<Rightarrow> (x # seg) # segs)"

definition ContainsAny :: "string \<Rightarrow> string \<Rightarrow> bool" where
  "ContainsAny s chars \<longleftrightarrow> list_ex (\<lambda>c. c \<in> set chars) s"

definition Atoi :: "string \<Rightarrow> int option" where
  "Atoi s =
     (let neg = (s \<noteq> [] \<and> hd s = CHR ''-'');
          ds = (if s \<noteq> [] \<and> (hd s = CHR ''-'' \<or> hd s = CHR ''+'') then tl s else s)
      in if ds = [] \<or> \<not> list_all isDigit ds then None
         else if neg then (if decimal ds \<le> 2 ^ 63 then Some (- int (decimal ds)) else None)
         else ParseDigits ds)"

text \<open>The port starts after the last colon; an IPv6 host is in brackets.\<close>

definition SplitHostPort :: "string \<Rightarrow> (string \<times> string) option" where
  "SplitHostPort hp =
     (case LastIndexByte hp (CHR '':'') of None \<Rightarrow> None
      | Some i \<Rightarrow>
        let port = drop (Suc i) hp
        in if hd hp = CHR ''['' then
             (case IndexByte hp (CHR '']'') of None \<Rightarrow> None
              | Some e \<Rightarrow>
                if e + 1 = length hp then None
                else if e + 1 \<noteq> i then None
                else if IndexByte (drop 1 hp) (CHR ''['') \<noteq> None then None
                else if IndexByte (drop (e + 1) hp) (CHR '']'') \<noteq> None then None
                else Some (drop 1 (take e hp), port))
           else if IndexByte (take i hp) (CHR '':'') \<noteq> None then None
           else if IndexByte hp (CHR ''['') \<noteq> None then None
           else if IndexByte hp (CHR '']'') \<noteq> None then None
           else Some (take i hp, port))"

text \<open>For evaluation: the same over \<open>int\<close>.\<close>

definition decimalInt :: "string \<Rightarrow> int" where
  "decimalInt s = foldl (\<lambda>v c. v * 10 + (int (code c) - 48)) 0 s"

lemma decimalInt: "list_all isDigit s \<Longrightarrow> decimalInt s = int (decimal s)"
proof (induction s rule: rev_induct)
  case (snoc c s)
  then have "48 \<le> code c" by (simp add: isDigit_def)
  with snoc show ?case by (simp add: decimalInt_def)
qed (simp add: decimalInt_def)

lemma Atoi_code [code]:
  "Atoi s =
     (let neg = (s \<noteq> [] \<and> hd s = CHR ''-'');
          ds = (if s \<noteq> [] \<and> (hd s = CHR ''-'' \<or> hd s = CHR ''+'') then tl s else s); n = decimalInt ds
      in if ds = [] \<or> \<not> list_all isDigit ds then None
         else if neg then (if n \<le> 9223372036854775808 then Some (- n) else None)
         else if n < 9223372036854775808 then Some n else None)"
  by (simp add: Atoi_def ParseDigits_def Let_def decimalInt flip: of_nat_le_iff of_nat_less_iff)

end
