(* ===== verification/Config_Validate.thy ===== *)
theory Config_Validate
  imports Model_Spec Config_Units Go_Net
begin

text \<open>
  Defaults, normalisation and validation of a desired state (\<open>internal/config/defaults.go\<close>,
  \<open>normalize.go\<close>, \<open>validate.go\<close>). A validator returns the violations it appends, with
  paths and codes in the order the code appends them; messages are left out. The files a state names
  are looked up on a disk: \<open>os.Stat\<close>, whose result is the permission bits, and
  \<open>os.ReadFile\<close>, either of which may fail.
\<close>

subsection \<open>Defaults (defaults.go)\<close>

definition DefaultProxyAddress :: string where "DefaultProxyAddress = ''127.0.0.1:8888''"
definition DefaultMgmtAddress :: string where "DefaultMgmtAddress = ''127.0.0.1:8088''"
definition DefaultOrigDestAddress :: string where "DefaultOrigDestAddress = ''127.0.0.1:8890''"
definition DefaultRESTPath :: string where "DefaultRESTPath = ''/v1''"
definition DefaultMCPPath :: string where "DefaultMCPPath = ''/mcp''"
definition DefaultCompatPathPrefix :: string where "DefaultCompatPathPrefix = ''/compat''"
definition DefaultMaxConcurrentStreams :: int where "DefaultMaxConcurrentStreams = 100"
definition DefaultProxyHostname :: string where "DefaultProxyHostname = ''labmitm.lab''"
definition DefaultHTTPAuthRealm :: string where "DefaultHTTPAuthRealm = ''labmitm-proxy''"
definition MaxRuleDelay :: duration where "MaxRuleDelay = 30000000000"
definition cfgMinHangTimeout :: duration where "cfgMinHangTimeout = 1000000000"
definition cfgMaxHangTimeout :: duration where "cfgMaxHangTimeout = 30000000000"
definition MinRuleBytesPerSecond :: int where "MinRuleBytesPerSecond = 256"
definition MaxRuleBytesPerSecond :: int where "MaxRuleBytesPerSecond = 67108864"
definition cfgMaxBreakpointTimeout :: duration where "cfgMaxBreakpointTimeout = 60000000000"
definition MaxRuleBodyReplace :: int where "MaxRuleBodyReplace = 65536"
definition MaxRedirectLocation :: int where "MaxRedirectLocation = 2048"
definition minStoreMaxBytes :: int where "minStoreMaxBytes = 1048576"
definition minMaxBodyBytes :: int where "minMaxBodyBytes = 1024"
definition minTokenSecret :: nat where "minTokenSecret = 32"
definition minRFC1929Secret :: nat where "minRFC1929Secret = 1"
definition maxRFC1929Secret :: nat where "maxRFC1929Secret = 255"
definition defaultTLSPort :: int where "defaultTLSPort = 443"

definition violationRequired :: string where "violationRequired = ''required''"
definition violationUnsupportedVersion :: string where "violationUnsupportedVersion = ''unsupported_version''"
definition violationUnresolved :: string where "violationUnresolved = ''unresolved_reference''"
definition violationDuplicateID :: string where "violationDuplicateID = ''duplicate_id''"
definition violationEmptyID :: string where "violationEmptyID = ''empty_id''"

definition blank :: "go_env \<Rightarrow> string \<Rightarrow> bool" where
  "blank u s \<longleftrightarrow> TrimSpace u s = []"

definition orDefault :: "go_env \<Rightarrow> string \<Rightarrow> string \<Rightarrow> string" where
  "orDefault u s d = (if blank u s then d else s)"

definition orEmpty :: "'a slice \<Rightarrow> 'a slice" where
  "orEmpty xs = (case xs of None \<Rightarrow> Some [] | Some ys \<Rightarrow> Some ys)"

subsection \<open>Normalisation (normalize.go)\<close>

definition materializeListeners :: "go_env \<Rightarrow> ListenersSpec \<Rightarrow> ListenersSpec" where
  "materializeListeners u l =
     (let p = ls_Proxy l; m = ls_Management l; od = ls_OriginalDestination l
      in l\<lparr>ls_Proxy := p\<lparr>pl_Address := orDefault u (pl_Address p) DefaultProxyAddress,
             pl_UserPass := (pl_UserPass p)\<lparr>ups_Users := orEmpty (ups_Users (pl_UserPass p))\<rparr>\<rparr>,
           ls_Management := m\<lparr>ml_Address := orDefault u (ml_Address m) DefaultMgmtAddress,
             ml_RESTPath := orDefault u (ml_RESTPath m) DefaultRESTPath,
             ml_MCPPath := orDefault u (ml_MCPPath m) DefaultMCPPath\<rparr>,
           ls_OriginalDestination := (if od_Enabled od \<and> blank u (od_Address od)
             then od\<lparr>od_Address := DefaultOrigDestAddress\<rparr> else od)\<rparr>)"

definition materializeProxy :: "go_env \<Rightarrow> ProxySpec \<Rightarrow> ProxySpec" where
  "materializeProxy u p =
     (let a = px_Admission p; h = px_HTTPAuth p; t = px_Targets p
      in p\<lparr>px_Hostname := orDefault u (px_Hostname p) DefaultProxyHostname,
           px_Admission := (if ad_MaxConcurrentStreams a = 0
             then a\<lparr>ad_MaxConcurrentStreams := DefaultMaxConcurrentStreams\<rparr> else a),
           px_HTTPAuth := h\<lparr>ha_Realm := orDefault u (ha_Realm h) DefaultHTTPAuthRealm, ha_Users := orEmpty (ha_Users h)\<rparr>,
           px_Targets := t\<lparr>tg_AllowHosts := orEmpty (tg_AllowHosts t), tg_DenyHosts := orEmpty (tg_DenyHosts t)\<rparr>\<rparr>)"

definition materializeTLS :: "go_env \<Rightarrow> TLSSpec \<Rightarrow> TLSSpec" where
  "materializeTLS u t =
     t\<lparr>ts_CA := (ts_CA t)\<lparr>ca_Mode := orDefault u (ca_Mode (ts_CA t)) CAModeGenerate\<rparr>,
       ts_Hosts := orEmpty (ts_Hosts t),
       ts_Ports := (if elems (ts_Ports t) = [] then Some [defaultTLSPort] else ts_Ports t),
       ts_Upstream := (ts_Upstream t)\<lparr>tu_ExtraCAFiles := orEmpty (tu_ExtraCAFiles (ts_Upstream t))\<rparr>\<rparr>"

definition materializeManagement :: "go_env \<Rightarrow> ManagementSpec \<Rightarrow> ManagementSpec" where
  "materializeManagement u m =
     (let a = mg_Auth m
      in m\<lparr>mg_Auth := a\<lparr>mau_Mode := orDefault u (mau_Mode a) MgmtAuthBearer,
             mau_Tokens := Some (map (\<lambda>t. t\<lparr>tk_Scopes := orEmpty (tk_Scopes t)\<rparr>) (elems (mau_Tokens a)))\<rparr>,
           mg_OriginAllowlist := orEmpty (mg_OriginAllowlist m)\<rparr>)"

definition materializeDefaults :: "go_env \<Rightarrow> Spec \<Rightarrow> Spec" where
  "materializeDefaults u sp =
     (let c = cs_FlowREST (sp_Compat sp)
      in sp\<lparr>sp_Listeners := materializeListeners u (sp_Listeners sp),
            sp_Compat := (sp_Compat sp)\<lparr>cs_FlowREST := (if fr_Enabled c \<and> blank u (fr_PathPrefix c)
              then c\<lparr>fr_PathPrefix := DefaultCompatPathPrefix\<rparr> else c)\<rparr>,
            sp_Proxy := materializeProxy u (sp_Proxy sp),
            sp_TLS := materializeTLS u (sp_TLS sp),
            sp_Store := (sp_Store sp)\<lparr>ss_FullPolicy := orDefault u (ss_FullPolicy (sp_Store sp)) FullPolicyReject\<rparr>,
            sp_Management := materializeManagement u (sp_Management sp),
            sp_Observability := (sp_Observability sp)\<lparr>ob_LogLevel := orDefault u (ob_LogLevel (sp_Observability sp)) ''info''\<rparr>\<rparr>)"

text \<open>The copy through JSON that \<open>cloneState\<close> takes is the state itself.\<close>

definition Normalize :: "go_env \<Rightarrow> State option \<Rightarrow> FieldViolation list + State" where
  "Normalize u sto =
     (case sto of None \<Rightarrow> Inl [\<lparr>fv_Path = '''', fv_Code = violationRequired\<rparr>]
      | Some st \<Rightarrow> Inr (st\<lparr>st_Spec := materializeDefaults u (st_Spec st)\<rparr>))"

subsection \<open>Helpers of the validators\<close>

record disk =
  dk_Stat :: "string \<Rightarrow> nat option"
  dk_ReadFile :: "string \<Rightarrow> string option"

record validateOpts =
  vo_skipUserPassFiles :: bool
  vo_skipHTTPAuthFiles :: bool

definition report :: "bool \<Rightarrow> string \<Rightarrow> string \<Rightarrow> FieldViolation list" where
  "report bad path vcode = (if bad then [\<lparr>fv_Path = path, fv_Code = vcode\<rparr>] else [])"

definition idChar :: "char \<Rightarrow> bool" where
  "idChar c \<longleftrightarrow> 97 \<le> code c \<and> code c \<le> 122 \<or> isDigit c \<or> c = CHR ''-''"

definition ruleIDPattern :: "string \<Rightarrow> bool" where
  "ruleIDPattern s \<longleftrightarrow> s \<noteq> [] \<and> length s \<le> 64 \<and> list_all idChar s"

definition compatPathPrefixPattern :: "string \<Rightarrow> bool" where
  "compatPathPrefixPattern s \<longleftrightarrow> s \<noteq> [] \<and> hd s = CHR ''/''
     \<and> list_all (\<lambda>seg. seg \<noteq> [] \<and> list_all idChar seg) (SplitByte (CHR ''/'') (tl s))"

text \<open>A loop over a slice with the index.\<close>

definition indexed :: "'a list \<Rightarrow> (nat \<Rightarrow> 'a \<Rightarrow> FieldViolation list) \<Rightarrow> FieldViolation list" where
  "indexed xs f = concat (map (\<lambda>(i, x). f i x) (zip [0..<length xs] xs))"

definition requireExistingFile :: "disk \<Rightarrow> string \<Rightarrow> string \<Rightarrow> FieldViolation list" where
  "requireExistingFile dk path file = report (dk_Stat dk file = None) path violationUnresolved"

text \<open>The first line that is neither blank nor a comment.\<close>

fun firstSecret :: "go_env \<Rightarrow> string list \<Rightarrow> string option" where
  "firstSecret u [] = None"
| "firstSecret u (line0 # lines) =
     (let line = TrimSpace u line0
      in if line = [] \<or> HasPrefix line ''#'' then firstSecret u lines else Some line)"

definition secretLines :: "string \<Rightarrow> string list" where
  "secretLines b = SplitByte (CHR 0x0A) b"

definition checkTokenSecretLength :: "go_env \<Rightarrow> disk \<Rightarrow> string \<Rightarrow> string \<Rightarrow> FieldViolation list" where
  "checkTokenSecretLength u dk path file =
     (case dk_ReadFile dk file of None \<Rightarrow> []
      | Some b \<Rightarrow>
        (case firstSecret u (secretLines b) of
           Some line \<Rightarrow> report (length line < minTokenSecret) path violationInvalidValue
         | None \<Rightarrow> report True path violationInvalidValue))"

definition checkRFC1929FileLength :: "go_env \<Rightarrow> disk \<Rightarrow> string \<Rightarrow> string \<Rightarrow> FieldViolation list" where
  "checkRFC1929FileLength u dk path file =
     (case dk_ReadFile dk file of None \<Rightarrow> []
      | Some b \<Rightarrow>
        (case firstSecret u (secretLines b) of
           Some line \<Rightarrow> report (length line < minRFC1929Secret \<or> length line > maxRFC1929Secret) path violationInvalidValue
         | None \<Rightarrow> report True path violationInvalidValue))"

definition validateCAKeyFile :: "go_env \<Rightarrow> disk \<Rightarrow> string \<Rightarrow> string \<Rightarrow> FieldViolation list" where
  "validateCAKeyFile u dk path file =
     (case dk_Stat dk file of None \<Rightarrow> report True path violationUnresolved
      | Some perm \<Rightarrow>
        report (odd (perm div 2)) path violationInvalidValue @
        (case dk_ReadFile dk file of None \<Rightarrow> report True path violationUnresolved
         | Some b \<Rightarrow> report (blank u b) path violationInvalidValue))"

definition validateFilePair :: "go_env \<Rightarrow> disk \<Rightarrow> string \<Rightarrow> bool \<Rightarrow> string \<Rightarrow> string \<Rightarrow> FieldViolation list" where
  "validateFilePair u dk path enabled cert key =
     (if \<not> enabled then report (cert \<noteq> [] \<or> key \<noteq> []) path violationInvalidValue
      else if blank u cert \<or> blank u key then report True path violationRequired
      else requireExistingFile dk (path @ ''.certFile'') cert @ requireExistingFile dk (path @ ''.keyFile'') key)"

definition validateHostPort :: "go_env \<Rightarrow> string \<Rightarrow> string \<Rightarrow> bool \<Rightarrow> FieldViolation list" where
  "validateHostPort u path addr allowEmpty =
     (if blank u addr then report (\<not> allowEmpty) path violationRequired
      else case SplitHostPort addr of None \<Rightarrow> report True path violationInvalidValue
      | Some (host, port) \<Rightarrow>
        (case Atoi port of None \<Rightarrow> report True path violationInvalidValue
         | Some n \<Rightarrow> report (n < 1 \<or> n > 65535) path violationInvalidValue))"

definition validateTCPAddr :: "go_env \<Rightarrow> string \<Rightarrow> string \<Rightarrow> FieldViolation list" where
  "validateTCPAddr u path addr = validateHostPort u path addr False"

definition pathsCollide :: "string \<Rightarrow> string \<Rightarrow> bool" where
  "pathsCollide a b =
     (if a = [] \<or> b = [] then False
      else if a = b then True
      else if a = ''/'' \<or> b = ''/'' then False
      else HasPrefix a b \<or> HasPrefix b a)"

subsection \<open>The document and its listeners\<close>

definition APIVersionV1Alpha1 :: string where "APIVersionV1Alpha1 = ''labmitm.dev/v1alpha1''"
definition KindLabMITM :: string where "KindLabMITM = ''LabMITM''"

definition validateDocument :: "go_env \<Rightarrow> State \<Rightarrow> FieldViolation list" where
  "validateDocument u st =
     report (st_APIVersion st \<noteq> APIVersionV1Alpha1) ''apiVersion''
       (if blank u (st_APIVersion st) then violationRequired else violationUnsupportedVersion) @
     report (st_Kind st \<noteq> KindLabMITM) ''kind''
       (if blank u (st_Kind st) then violationRequired else violationInvalidValue) @
     report (blank u (md_Name (st_Metadata st))) ''metadata.name'' violationRequired"

text \<open>The loop over users: \<open>ids\<close> holds the identifiers seen before.\<close>

fun fileRefUsers :: "go_env \<Rightarrow> disk \<Rightarrow> string \<Rightarrow> bool \<Rightarrow> string list \<Rightarrow> nat \<Rightarrow> UserPassUserSpec list \<Rightarrow> FieldViolation list" where
  "fileRefUsers u dk base skipFiles ids i [] = []"
| "fileRefUsers u dk base skipFiles ids i (x # xs) =
     (let path = indexPath base i; key = TrimSpace u (up_ID x); fresh = key \<noteq> [] \<and> ruleIDPattern key \<and> key \<notin> set ids
      in (if key = [] then report True (path @ ''.id'') violationEmptyID
          else if \<not> ruleIDPattern key then report True (path @ ''.id'') violationInvalidValue
          else report (key \<in> set ids) (path @ ''.id'') violationDuplicateID) @
         (if blank u (up_UsernameFile x) then report True (path @ ''.usernameFile'') violationRequired
          else if skipFiles then []
          else requireExistingFile dk (path @ ''.usernameFile'') (up_UsernameFile x) @
               checkRFC1929FileLength u dk (path @ ''.usernameFile'') (up_UsernameFile x)) @
         (if blank u (up_PasswordFile x) then report True (path @ ''.passwordFile'') violationRequired
          else if skipFiles then []
          else requireExistingFile dk (path @ ''.passwordFile'') (up_PasswordFile x) @
               checkRFC1929FileLength u dk (path @ ''.passwordFile'') (up_PasswordFile x)) @
         fileRefUsers u dk base skipFiles (if fresh then key # ids else ids) (Suc i) xs)"

definition validateFileRefUsers :: "go_env \<Rightarrow> disk \<Rightarrow> UserPassUserSpec slice \<Rightarrow> string \<Rightarrow> bool \<Rightarrow> FieldViolation list" where
  "validateFileRefUsers u dk users base skipFiles = fileRefUsers u dk base skipFiles [] 0 (elems users)"

definition validateProxyListener :: "go_env \<Rightarrow> disk \<Rightarrow> validateOpts \<Rightarrow> ProxyListenerSpec \<Rightarrow> FieldViolation list" where
  "validateProxyListener u dk opts p =
     report (pl_AcceptBind p \<and> \<not> pl_AcceptSOCKS5 p \<and> \<not> pl_AcceptSOCKS4 p) ''spec.listeners.proxy.acceptBind'' violationInvalidValue @
     report (pl_AcceptUDPAssociate p \<and> \<not> pl_AcceptSOCKS5 p) ''spec.listeners.proxy.acceptUDPAssociate'' violationInvalidValue @
     (if pl_AcceptUserPass p then
        report (\<not> pl_AcceptSOCKS5 p) ''spec.listeners.proxy.acceptUserPass'' violationInvalidValue @
        report (elems (ups_Users (pl_UserPass p)) = []) ''spec.listeners.proxy.acceptUserPass'' violationInvalidValue
      else []) @
     validateFileRefUsers u dk (ups_Users (pl_UserPass p)) ''spec.listeners.proxy.userPass.users'' (vo_skipUserPassFiles opts)"

definition validateListeners :: "go_env \<Rightarrow> disk \<Rightarrow> validateOpts \<Rightarrow> ListenersSpec \<Rightarrow> FieldViolation list" where
  "validateListeners u dk opts l =
     (let m = ls_Management l
      in validateTCPAddr u ''spec.listeners.proxy.address'' (pl_Address (ls_Proxy l)) @
         validateTCPAddr u ''spec.listeners.management.address'' (ml_Address m) @
         report (ml_RESTPath m \<noteq> [] \<and> \<not> HasPrefix (ml_RESTPath m) ''/'') ''spec.listeners.management.restPath'' violationInvalidValue @
         report (ml_MCPPath m \<noteq> [] \<and> \<not> HasPrefix (ml_MCPPath m) ''/'') ''spec.listeners.management.mcpPath'' violationInvalidValue @
         validateFilePair u dk ''spec.listeners.management.tls'' (lt_Enabled (ml_TLS m)) (lt_CertFile (ml_TLS m)) (lt_KeyFile (ml_TLS m)) @
         (if od_Enabled (ls_OriginalDestination l)
          then validateTCPAddr u ''spec.listeners.originalDestination.address'' (od_Address (ls_OriginalDestination l)) else []) @
         validateProxyListener u dk opts (ls_Proxy l))"

subsection \<open>Protocols, compatibility paths and the proxy\<close>

definition validateProtocols :: "ProtocolsSpec \<Rightarrow> FieldViolation list" where
  "validateProtocols p =
     (let h = pr_HTTP2 p
      in report (h2s_Origin h \<and> \<not> h2s_Enabled h) ''spec.protocols.http2.origin'' violationInvalidValue @
         report (h2s_ExtendedConnect h \<and> \<not> h2s_Enabled h \<and> \<not> h2s_ClientCleartext h)
           ''spec.protocols.http2.extendedConnect'' violationInvalidValue @
         report (h2s_CapturePush h \<and> \<not> h2s_Origin h) ''spec.protocols.http2.capturePush'' violationInvalidValue @
         report (h2s_GRPCDecode h \<and> \<not> h2s_Enabled h \<and> \<not> h2s_Origin h) ''spec.protocols.http2.grpcDecode'' violationInvalidValue)"

definition validateCompat :: "go_env \<Rightarrow> Spec \<Rightarrow> FieldViolation list" where
  "validateCompat u sp =
     (let c = cs_FlowREST (sp_Compat sp); m = ls_Management (sp_Listeners sp);
          prefix0 = TrimSpace u (fr_PathPrefix c)
      in if prefix0 = [] \<and> \<not> fr_Enabled c then []
         else let prefix = (if prefix0 = [] then DefaultCompatPathPrefix else prefix0)
         in if \<not> compatPathPrefixPattern prefix then report True ''spec.compat.flowREST.pathPrefix'' violationInvalidValue
         else let restPath = (if TrimSpace u (ml_RESTPath m) = [] then DefaultRESTPath else TrimSpace u (ml_RESTPath m));
                  mcpPath = (if TrimSpace u (ml_MCPPath m) = [] then DefaultMCPPath else TrimSpace u (ml_MCPPath m))
         in report (list_ex (pathsCollide prefix) [''/'', ''/healthz'', ''/config'', ''/.well-known'', restPath, mcpPath])
              ''spec.compat.flowREST.pathPrefix'' violationInvalidValue)"

definition validateAdmission :: "AdmissionSpec \<Rightarrow> FieldViolation list" where
  "validateAdmission a =
     report (ad_MaxSessions a \<le> 0) ''spec.proxy.admission.maxSessions'' violationInvalidValue @
     report (ad_MaxSessionsPerIP a \<le> 0) ''spec.proxy.admission.maxSessionsPerIP'' violationInvalidValue @
     report (ad_MaxInFlight a \<le> 0) ''spec.proxy.admission.maxInFlight'' violationInvalidValue @
     report (ad_MaxInFlightBytes a \<le> 0) ''spec.proxy.admission.maxInFlightBytes'' violationInvalidValue @
     report (ad_SessionTimeout a \<le> 0) ''spec.proxy.admission.sessionTimeout'' violationInvalidValue @
     report (ad_IdleTimeout a \<le> 0) ''spec.proxy.admission.idleTimeout'' violationInvalidValue @
     report (ad_HeaderTimeout a \<le> 0) ''spec.proxy.admission.headerTimeout'' violationInvalidValue @
     report (ad_DialTimeout a \<le> 0) ''spec.proxy.admission.dialTimeout'' violationInvalidValue @
     report (ad_UpstreamTimeout a \<le> 0) ''spec.proxy.admission.upstreamTimeout'' violationInvalidValue @
     report (ad_MaxConcurrentStreams a \<le> 0) ''spec.proxy.admission.maxConcurrentStreams'' violationInvalidValue"

definition validateHTTPAuth :: "go_env \<Rightarrow> disk \<Rightarrow> bool \<Rightarrow> HTTPAuthSpec \<Rightarrow> FieldViolation list" where
  "validateHTTPAuth u dk skipFiles h =
     report (ha_Enabled h \<and> elems (ha_Users h) = []) ''spec.proxy.httpAuth.users'' violationInvalidValue @
     report (ContainsAny (ha_Realm h) [CHR 0x0D, CHR 0x0A]) ''spec.proxy.httpAuth.realm'' violationInvalidValue @
     validateFileRefUsers u dk (ha_Users h) ''spec.proxy.httpAuth.users'' skipFiles"

definition validateProxy :: "go_env \<Rightarrow> disk \<Rightarrow> validateOpts \<Rightarrow> ProxySpec \<Rightarrow> FieldViolation list" where
  "validateProxy u dk opts p =
     report (blank u (px_Hostname p)) ''spec.proxy.hostname'' violationRequired @
     validateAdmission (px_Admission p) @
     validateHTTPAuth u dk (vo_skipHTTPAuthFiles opts) (px_HTTPAuth p) @
     indexed (elems (tg_AllowHosts (px_Targets p)))
       (\<lambda>i h. report (blank u h) (indexPath ''spec.proxy.targets.allowHosts'' i) violationInvalidValue) @
     indexed (elems (tg_DenyHosts (px_Targets p)))
       (\<lambda>i h. report (blank u h) (indexPath ''spec.proxy.targets.denyHosts'' i) violationInvalidValue)"

definition validateTLS :: "go_env \<Rightarrow> disk \<Rightarrow> TLSSpec \<Rightarrow> FieldViolation list" where
  "validateTLS u dk t =
     (let ca = ts_CA t
      in (if ca_Mode ca = [] \<or> ca_Mode ca = CAModeGenerate
          then report (\<not> blank u (ca_CertFile ca) \<or> \<not> blank u (ca_KeyFile ca)) ''spec.tls.ca'' violationInvalidValue
          else if ca_Mode ca = CAModeFiles
          then (if blank u (ca_CertFile ca) \<or> blank u (ca_KeyFile ca) then report True ''spec.tls.ca'' violationRequired
                else requireExistingFile dk ''spec.tls.ca.certFile'' (ca_CertFile ca) @
                     validateCAKeyFile u dk ''spec.tls.ca.keyFile'' (ca_KeyFile ca))
          else report True ''spec.tls.ca.mode'' violationInvalidValue) @
         indexed (elems (ts_Ports t)) (\<lambda>i p. report (p < 1 \<or> p > 65535) (indexPath ''spec.tls.ports'' i) violationInvalidValue) @
         indexed (elems (tu_ExtraCAFiles (ts_Upstream t)))
           (\<lambda>i f. if blank u f then report True (indexPath ''spec.tls.upstream.extraCAFiles'' i) violationInvalidValue
                  else requireExistingFile dk (indexPath ''spec.tls.upstream.extraCAFiles'' i) f))"

subsection \<open>Rules\<close>

definition knownRedirectStatus :: "int \<Rightarrow> bool" where
  "knownRedirectStatus st \<longleftrightarrow> st \<in> {301, 302, 303, 307, 308}"

definition validateRulePhaseAction :: "go_env \<Rightarrow> string \<Rightarrow> RuleSpec \<Rightarrow> FieldViolation list" where
  "validateRulePhaseAction u path item =
     (let phase = TrimSpace u (rs_Phase item); action = TrimSpace u (ra_Type (rs_Action item)); m = rs_Match item;
          httpPhase = (phase = RulePhaseRequest \<or> phase = RulePhaseResponse)
      in report (phase = RulePhaseWebSocket \<and> action \<noteq> [] \<and> action \<noteq> ''drop'' \<and> action \<noteq> ''block'')
           (path @ ''.action.type'') violationInvalidValue @
         report (httpPhase \<and> action = ''block'') (path @ ''.action.type'') violationInvalidValue @
         (if httpPhase then
            report (rm_Opcode m \<noteq> []) (path @ ''.match.opcode'') violationInvalidValue @
            report (rm_Direction m \<noteq> []) (path @ ''.match.direction'') violationInvalidValue @
            report (rm_PayloadContains m \<noteq> []) (path @ ''.match.payloadContains'') violationInvalidValue
          else []) @
         report (rm_Opcode m \<noteq> [] \<and> \<not> KnownRuleOpcode (rm_Opcode m)) (path @ ''.match.opcode'') violationInvalidValue @
         report (rm_Direction m \<noteq> [] \<and> \<not> KnownRuleDirection (rm_Direction m)) (path @ ''.match.direction'') violationInvalidValue)"

definition closeMode :: "go_env \<Rightarrow> string \<Rightarrow> bool" where
  "closeMode u s \<longleftrightarrow> TrimSpace u s \<in> {[], ''rst'', ''fin''}"

definition validateRedirect :: "go_env \<Rightarrow> string \<Rightarrow> RuleActionSpec \<Rightarrow> FieldViolation list" where
  "validateRedirect u path a =
     (let loc = TrimSpace u (ra_RedirectLocation a)
      in (if loc = [] then report True (path @ ''.action.redirect.location'') violationRequired
          else report (int (length loc) > MaxRedirectLocation \<or> ContainsAny loc [CHR 0x0D, CHR 0x0A, CHR 0x00])
            (path @ ''.action.redirect.location'') violationInvalidValue) @
         report (ra_RedirectStatus a \<noteq> 0 \<and> \<not> knownRedirectStatus (ra_RedirectStatus a))
           (path @ ''.action.redirect.status'') violationInvalidValue)"

text \<open>What is checked of one rule, its identifier apart.\<close>

definition validateRule :: "go_env \<Rightarrow> string \<Rightarrow> RuleSpec \<Rightarrow> FieldViolation list" where
  "validateRule u path item =
     (let a = rs_Action item; proto = TrimSpace u (rm_Protocol (rs_Match item))
      in (if blank u (rs_Phase item) then report True (path @ ''.phase'') violationRequired
          else report (\<not> KnownRulePhase (rs_Phase item)) (path @ ''.phase'') violationInvalidValue) @
         (if blank u (ra_Type a) then report True (path @ ''.action.type'') violationRequired
          else report (\<not> KnownRuleAction (ra_Type a)) (path @ ''.action.type'') violationInvalidValue) @
         validateRulePhaseAction u path item @
         report (ra_Type a = ''throttle'' \<and> (ra_BytesPerSecond a < MinRuleBytesPerSecond \<or> ra_BytesPerSecond a > MaxRuleBytesPerSecond))
           (path @ ''.action.bytesPerSecond'') violationInvalidValue @
         report (ra_Delay a < 0 \<or> ra_Delay a > MaxRuleDelay) (path @ ''.action.delay'') violationInvalidValue @
         report (ra_Status a \<noteq> 0 \<and> (ra_Status a < 400 \<or> ra_Status a > 599)) (path @ ''.action.status'') violationInvalidValue @
         report (int (length (ra_BodyReplace a)) > MaxRuleBodyReplace) (path @ ''.action.body.replace'') violationInvalidValue @
         report (proto \<noteq> [] \<and> \<not> KnownRuleProtocol proto) (path @ ''.match.protocol'') violationInvalidValue @
         report (ra_Type a = ''breakpoint'' \<and> (ra_BreakpointTimeout a < 1000000000 \<or> ra_BreakpointTimeout a > cfgMaxBreakpointTimeout))
           (path @ ''.action.breakpoint.timeout'') violationInvalidValue @
         report (\<not> closeMode u (ra_SilentClose a)) (path @ ''.action.silent.close'') violationInvalidValue @
         report (\<not> closeMode u (ra_HangClose a)) (path @ ''.action.hang.close'') violationInvalidValue @
         report (ra_Type a = ''hang'' \<and> (ra_HangTimeout a < cfgMinHangTimeout \<or> ra_HangTimeout a > cfgMaxHangTimeout))
           (path @ ''.action.hang.timeout'') (if ra_HangTimeout a = 0 then violationRequired else violationInvalidValue) @
         (if ra_Type a = ''redirect'' then validateRedirect u path a else []))"

fun ruleItems :: "go_env \<Rightarrow> string list \<Rightarrow> nat \<Rightarrow> RuleSpec list \<Rightarrow> FieldViolation list" where
  "ruleItems u ids i [] = []"
| "ruleItems u ids i (item # items) =
     (let path = indexPath ''spec.rules.items'' i; key = TrimSpace u (rs_ID item);
          fresh = key \<noteq> [] \<and> ruleIDPattern key \<and> key \<notin> set ids
      in (if key = [] then report True (path @ ''.id'') violationEmptyID
          else if \<not> ruleIDPattern key then report True (path @ ''.id'') violationInvalidValue
          else report (key \<in> set ids) (path @ ''.id'') violationDuplicateID) @
         validateRule u path item @
         ruleItems u (if fresh then key # ids else ids) (Suc i) items)"

definition validateRules :: "go_env \<Rightarrow> RulesSpec \<Rightarrow> FieldViolation list" where
  "validateRules u r = ruleItems u [] 0 (rules_Items r)"

subsection \<open>Store, management and observability\<close>

definition validateStore :: "StoreSpec \<Rightarrow> FieldViolation list" where
  "validateStore s =
     report (ss_MaxFlows s < 1) ''spec.store.maxFlows'' violationInvalidValue @
     report (ss_MaxBytes s < minStoreMaxBytes) ''spec.store.maxBytes'' violationInvalidValue @
     report (ss_MaxBodyBytes s < minMaxBodyBytes) ''spec.store.maxBodyBytes'' violationInvalidValue @
     report (ss_MaxBodyBytes s > ss_MaxBytes s \<and> ss_MaxBytes s > 0) ''spec.store.maxBodyBytes'' violationInvalidValue @
     report (ss_FullPolicy s \<notin> {[], FullPolicyReject, FullPolicyEvictOldest}) ''spec.store.fullPolicy'' violationInvalidValue @
     report (ss_MaxWait s < 0) ''spec.store.maxWait'' violationInvalidValue @
     report (ss_SpillThreshold s < 0) ''spec.store.spillThreshold'' violationInvalidValue"

fun managementTokens :: "go_env \<Rightarrow> disk \<Rightarrow> string list \<Rightarrow> nat \<Rightarrow> TokenSpec list \<Rightarrow> FieldViolation list" where
  "managementTokens u dk ids i [] = []"
| "managementTokens u dk ids i (tok # toks) =
     (let path = indexPath ''spec.management.auth.tokens'' i; key = TrimSpace u (tk_ID tok)
      in (if key = [] then report True (path @ ''.id'') violationEmptyID
          else report (key \<in> set ids) (path @ ''.id'') violationDuplicateID) @
         (if blank u (tk_SecretFile tok) then report True (path @ ''.secretFile'') violationRequired
          else checkTokenSecretLength u dk (path @ ''.secretFile'') (tk_SecretFile tok)) @
         (if blank u (tk_Role tok) then report True (path @ ''.role'') violationRequired
          else report (\<not> KnownRole (tk_Role tok)) (path @ ''.role'') violationInvalidValue) @
         indexed (elems (tk_Scopes tok)) (\<lambda>si sc. report (\<not> KnownScope sc) (indexPath (path @ ''.scopes'') si) violationInvalidValue) @
         managementTokens u dk (if key \<noteq> [] \<and> key \<notin> set ids then key # ids else ids) (Suc i) toks)"

definition validateManagement :: "go_env \<Rightarrow> disk \<Rightarrow> ManagementSpec \<Rightarrow> FieldViolation list" where
  "validateManagement u dk m =
     report (mau_Mode (mg_Auth m) \<notin> {[], MgmtAuthBearer, MgmtAuthDevLoopbackUnauth}) ''spec.management.auth.mode'' violationInvalidValue @
     managementTokens u dk [] 0 (elems (mau_Tokens (mg_Auth m))) @
     report (mg_BodyLimit m \<le> 0) ''spec.management.bodyLimit'' violationInvalidValue @
     report (mg_RequestsPerSecond m \<le> 0) ''spec.management.requestsPerSecond'' violationInvalidValue @
     report (mg_Burst m \<le> 0) ''spec.management.burst'' violationInvalidValue @
     report (mg_MaxConcurrent m \<le> 0) ''spec.management.maxConcurrent'' violationInvalidValue"

definition validateObservability :: "go_env \<Rightarrow> ObservabilitySpec \<Rightarrow> FieldViolation list" where
  "validateObservability u o1 =
     report (ob_LogLevel o1 \<noteq> [] \<and> \<not> KnownLogLevel (ob_LogLevel o1)) ''spec.observability.logLevel'' violationInvalidValue @
     validateHostPort u ''spec.observability.metrics.listen'' (me_Listen (ob_Metrics o1)) True @
     report (au_Ring (ob_Audit o1) < 0) ''spec.observability.audit.ring'' violationInvalidValue"

definition validateState :: "go_env \<Rightarrow> disk \<Rightarrow> validateOpts \<Rightarrow> State option \<Rightarrow> FieldViolation list" where
  "validateState u dk opts sto =
     (case sto of None \<Rightarrow> report True '''' violationRequired
      | Some st \<Rightarrow>
        (let sp = st_Spec st
         in validateDocument u st @ validateListeners u dk opts (sp_Listeners sp) @ validateCompat u sp @
            validateProtocols (sp_Protocols sp) @ validateProxy u dk opts (sp_Proxy sp) @ validateTLS u dk (sp_TLS sp) @
            validateRules u (sp_Rules sp) @ validateStore (sp_Store sp) @ validateManagement u dk (sp_Management sp) @
            validateObservability u (sp_Observability sp)))"

definition ValidateConfig :: "go_env \<Rightarrow> disk \<Rightarrow> State option \<Rightarrow> FieldViolation list" where
  "ValidateConfig u dk = validateState u dk \<lparr>vo_skipUserPassFiles = False, vo_skipHTTPAuthFiles = False\<rparr>"

definition ValidateLiveApplyOpts :: "go_env \<Rightarrow> disk \<Rightarrow> bool \<Rightarrow> State option \<Rightarrow> FieldViolation list" where
  "ValidateLiveApplyOpts u dk skipHTTPAuthFiles = validateState u dk \<lparr>vo_skipUserPassFiles = True, vo_skipHTTPAuthFiles = skipHTTPAuthFiles\<rparr>"

definition ValidateLiveApply :: "go_env \<Rightarrow> disk \<Rightarrow> State option \<Rightarrow> FieldViolation list" where
  "ValidateLiveApply u dk = ValidateLiveApplyOpts u dk True"

subsection \<open>A state to evaluate on\<close>

definition exState :: State where
  "exState = \<lparr>st_APIVersion = ''labmitm.dev/v1alpha1'', st_Kind = ''LabMITM'', st_Metadata = \<lparr>md_Name = ''lab'', md_Labels = []\<rparr>,
     st_Spec = \<lparr>
       sp_Listeners = \<lparr>
         ls_Proxy = \<lparr>pl_Address = '''', pl_AcceptSOCKS5 = True, pl_AcceptSOCKS4 = False, pl_AcceptBind = False,
           pl_AcceptUDPAssociate = False, pl_AcceptUserPass = False, pl_UserPass = \<lparr>ups_Users = None\<rparr>\<rparr>,
         ls_Management = \<lparr>ml_Address = '''', ml_RESTPath = '''', ml_MCPPath = '''', ml_TLS = \<lparr>lt_Enabled = False, lt_CertFile = '''', lt_KeyFile = ''''\<rparr>\<rparr>,
         ls_OriginalDestination = \<lparr>od_Enabled = False, od_Address = ''''\<rparr>\<rparr>,
       sp_Proxy = \<lparr>px_Hostname = '''',
         px_Admission = \<lparr>ad_MaxSessions = 8, ad_MaxSessionsPerIP = 4, ad_MaxInFlight = 4, ad_MaxInFlightBytes = 4096, ad_SessionTimeout = 60,
           ad_IdleTimeout = 60, ad_HeaderTimeout = 10, ad_DialTimeout = 10, ad_UpstreamTimeout = 30, ad_MaxConcurrentStreams = 0\<rparr>,
         px_Targets = \<lparr>tg_DenyCloudMetadata = True, tg_DenyLinkLocal = True, tg_AllowLoopback = False, tg_AllowHosts = None, tg_DenyHosts = None\<rparr>,
         px_HTTPAuth = \<lparr>ha_Enabled = False, ha_Realm = '''', ha_Users = None\<rparr>\<rparr>,
       sp_TLS = \<lparr>ts_Intercept = True, ts_Hosts = None, ts_Ports = None, ts_CA = \<lparr>ca_Mode = '''', ca_CertFile = '''', ca_KeyFile = ''''\<rparr>,
         ts_Upstream = \<lparr>tu_InsecureSkipVerify = False, tu_ExtraCAFiles = None\<rparr>\<rparr>,
       sp_Rules = \<lparr>rules_Enabled = True, rules_Items = []\<rparr>,
       sp_Store = \<lparr>ss_MaxFlows = 4, ss_MaxBytes = 2097152, ss_MaxBodyBytes = 4096, ss_FullPolicy = FullPolicyEvictOldest, ss_MaxWait = 0,
         ss_SpillDirectory = '''', ss_SpillThreshold = 0\<rparr>,
       sp_UI = \<lparr>ui_Enabled = True\<rparr>,
       sp_Management = \<lparr>mg_Auth = \<lparr>mau_Mode = '''', mau_Tokens = None\<rparr>, mg_MCP = \<lparr>mcp_AllowLegacyClients = False\<rparr>, mg_OriginAllowlist = None,
         mg_BodyLimit = 4096, mg_RequestsPerSecond = 10, mg_Burst = 10, mg_MaxConcurrent = 4\<rparr>,
       sp_Observability = \<lparr>ob_LogLevel = '''', ob_Metrics = \<lparr>me_Listen = '''', me_PublicPath = False\<rparr>, ob_Audit = \<lparr>au_Ring = 2\<rparr>\<rparr>,
       sp_Protocols = \<lparr>pr_HTTP2 = \<lparr>h2s_Enabled = True, h2s_ClientCleartext = False, h2s_Origin = False, h2s_ExtendedConnect = False,
           h2s_CapturePush = False, h2s_GRPCDecode = False\<rparr>, pr_WebSocket = \<lparr>wss_Enabled = True, wss_InspectFrames = True\<rparr>,
         pr_Connect = \<lparr>pg_Enabled = True\<rparr>, pr_AbsoluteForm = \<lparr>pg_Enabled = True\<rparr>\<rparr>,
       sp_Compat = \<lparr>cs_FlowREST = \<lparr>fr_Enabled = False, fr_PathPrefix = ''''\<rparr>\<rparr>\<rparr>\<rparr>"

end
