(* ===== verification/Config_Props.thy ===== *)
theory Config_Props
  imports Config_Validate Store_Ops
begin

text \<open>
  What validation and normalisation give the components that run a state: rules run with the limits
  they were written with, the inbox opens with the caps it was given, and a normalised state is a
  fixed point of normalisation.
\<close>

lemma report_Nil [simp]: "report bad path vc = [] \<longleftrightarrow> \<not> bad"
  by (simp add: report_def)

subsection \<open>Rules\<close>

text \<open>The words of the vocabularies have no space around them.\<close>

lemma trim_words:
  assumes "s \<in> {''request'', ''response'', ''websocket'', ''breakpoint'', ''drop'', ''delay'', ''status'', ''header'', ''body'',
     ''silent'', ''hang'', ''redirect'', ''block'', ''throttle''}"
  shows "TrimSpace u s = s"
proof -
  have "list_all (\<lambda>s. isASCII s \<and> s \<noteq> [] \<and> \<not> asciiSpace (hd s) \<and> \<not> asciiSpace (last s))
    [''request'', ''response'', ''websocket'', ''breakpoint'', ''drop'', ''delay'', ''status'', ''header'', ''body'',
     ''silent'', ''hang'', ''redirect'', ''block'', ''throttle'']" by code_simp
  with assms have "isASCII s \<and> s \<noteq> [] \<and> \<not> asciiSpace (hd s) \<and> \<not> asciiSpace (last s)" by (auto simp only: list.pred_inject)
  then show ?thesis by (intro TrimSpace_id) auto
qed

lemma ruleItems_Nil:
  "ruleItems u ids i items = [] \<Longrightarrow>
     distinct (map (\<lambda>it. TrimSpace u (rs_ID it)) items) \<and> set (map (\<lambda>it. TrimSpace u (rs_ID it)) items) \<inter> set ids = {}
     \<and> (\<forall>it \<in> set items. ruleIDPattern (TrimSpace u (rs_ID it)) \<and> (\<exists>path. validateRule u path it = []))"
proof (induction items arbitrary: ids i)
  case (Cons it items)
  let ?k = "TrimSpace u (rs_ID it)"
  from Cons.prems have k: "?k \<noteq> []" "ruleIDPattern ?k" "?k \<notin> set ids" and v: "validateRule u (indexPath ''spec.rules.items'' i) it = []"
    and r: "ruleItems u (?k # ids) (Suc i) items = []"
    by (auto simp: Let_def split: if_splits)
  from Cons.IH[OF r] k v show ?case by auto
qed simp

lemma validateRule_phase:
  assumes "validateRule u path it = []"
  shows "KnownRulePhase (rs_Phase it)" and "KnownRuleAction (ra_Type (rs_Action it))"
    and "rs_Phase it = RulePhaseWebSocket \<Longrightarrow> ra_Type (rs_Action it) \<in> {''drop'', ''block''}"
    and "rs_Phase it \<noteq> RulePhaseWebSocket \<Longrightarrow> ra_Type (rs_Action it) \<noteq> ''block''
      \<and> rm_Opcode (rs_Match it) = [] \<and> rm_Direction (rs_Match it) = [] \<and> rm_PayloadContains (rs_Match it) = []"
proof -
  show p: "KnownRulePhase (rs_Phase it)" and a: "KnownRuleAction (ra_Type (rs_Action it))"
    using assms by (auto simp: validateRule_def Let_def split: if_splits)
  have v: "validateRulePhaseAction u path it = []" using assms by (simp add: validateRule_def Let_def)
  have tp: "TrimSpace u (rs_Phase it) = rs_Phase it" and ta: "TrimSpace u (ra_Type (rs_Action it)) = ra_Type (rs_Action it)"
    using p a by (auto intro!: trim_words simp: KnownRulePhase_def KnownRuleAction_def)
  note v' = v[unfolded validateRulePhaseAction_def Let_def tp ta]
  have "ra_Type (rs_Action it) \<noteq> []" using a by (auto simp: KnownRuleAction_def)
  then show "rs_Phase it = RulePhaseWebSocket \<Longrightarrow> ra_Type (rs_Action it) \<in> {''drop'', ''block''}"
    using v' by auto
  show "rs_Phase it \<noteq> RulePhaseWebSocket \<Longrightarrow> ra_Type (rs_Action it) \<noteq> ''block''
      \<and> rm_Opcode (rs_Match it) = [] \<and> rm_Direction (rs_Match it) = [] \<and> rm_PayloadContains (rs_Match it) = []"
    using v' p by (auto simp: KnownRulePhase_def RulePhaseRequest_def RulePhaseResponse_def RulePhaseWebSocket_def)
qed

lemma validateRule_limits:
  assumes "validateRule u path it = []"
  defines "a \<equiv> rs_Action it"
  shows "0 \<le> ra_Delay a \<and> ra_Delay a \<le> 30000000000" and "ra_Status a = 0 \<or> 400 \<le> ra_Status a \<and> ra_Status a \<le> 599"
    and "ra_Type a = ''throttle'' \<Longrightarrow> 256 \<le> ra_BytesPerSecond a \<and> ra_BytesPerSecond a \<le> 67108864"
    and "ra_Type a = ''breakpoint'' \<Longrightarrow> 1000000000 \<le> ra_BreakpointTimeout a \<and> ra_BreakpointTimeout a \<le> 60000000000"
    and "ra_Type a = ''hang'' \<Longrightarrow> 1000000000 \<le> ra_HangTimeout a \<and> ra_HangTimeout a \<le> 30000000000"
    and "ra_Type a = ''redirect'' \<Longrightarrow> TrimSpace u (ra_RedirectLocation a) \<noteq> [] \<and> (ra_RedirectStatus a = 0 \<or> knownRedirectStatus (ra_RedirectStatus a))"
  using assms(1) unfolding validateRule_def Let_def
  by (auto simp: a_def validateRedirect_def Let_def MaxRuleDelay_def MinRuleBytesPerSecond_def MaxRuleBytesPerSecond_def
      cfgMaxBreakpointTimeout_def cfgMinHangTimeout_def cfgMaxHangTimeout_def split: if_splits)

text \<open>A time limit under a cap, which counts if it is set.\<close>

definition capped :: "duration \<Rightarrow> duration \<Rightarrow> duration" where
  "capped d cap = (if 0 < cap then min d cap else d)"

text \<open>What the actions of a hit do, under the spec of the session they run in, is what the rule says: no clamp changes a limit, a
  status or a redirect, but that a breakpoint waits no longer than the store's longest wait and a hang no
  longer than the session.\<close>

definition runsAsConfigured :: "go_env \<Rightarrow> Spec \<Rightarrow> Hit \<Rightarrow> bool" where
  "runsAsConfigured u sp h \<longleftrightarrow>
     (let a = hit_Action h
      in ClampDelay (ra_Delay a) = ra_Delay a
       \<and> (ra_Status a \<noteq> 0 \<longrightarrow> StatusFor (Some h) = ra_Status a)
       \<and> (ra_Type a = ''throttle'' \<longrightarrow> 0 < ra_BytesPerSecond a \<and> ClampBytesPerSecond (ra_BytesPerSecond a) = ra_BytesPerSecond a)
       \<and> (ra_Type a = ''breakpoint'' \<longrightarrow> 0 < ra_BreakpointTimeout a
            \<and> ClampBreakpointTimeout (ra_BreakpointTimeout a) (ss_MaxWait (sp_Store sp)) = capped (ra_BreakpointTimeout a) (ss_MaxWait (sp_Store sp)))
       \<and> (ra_Type a = ''hang'' \<longrightarrow> 0 < HangTimeout (Some h)
            \<and> ClampHangTimeout (HangTimeout (Some h)) (ad_SessionTimeout (px_Admission (sp_Proxy sp))) = capped (ra_HangTimeout a) (ad_SessionTimeout (px_Admission (sp_Proxy sp))))
       \<and> (ra_Type a = ''redirect'' \<longrightarrow> RedirectLocation u (Some h) \<noteq> []
            \<and> RedirectStatus (Some h) = (if ra_RedirectStatus a = 0 then RedirectDefaultStatus else ra_RedirectStatus a)))"

lemma clamps_within:
  "0 \<le> d \<Longrightarrow> d \<le> 30000000000 \<Longrightarrow> ClampDelay d = d"
  "256 \<le> n \<Longrightarrow> n \<le> 67108864 \<Longrightarrow> ClampBytesPerSecond n = n"
  "1000000000 \<le> d \<Longrightarrow> d \<le> 60000000000 \<Longrightarrow> ClampBreakpointTimeout d cap = capped d cap"
  "1000000000 \<le> d \<Longrightarrow> d \<le> 30000000000 \<Longrightarrow> ClampHangTimeout d cap = capped d cap"
  by (simp_all add: ClampDelay_def ClampBytesPerSecond_def ClampBreakpointTimeout_def ClampHangTimeout_def limit_consts capped_def)

lemma configured_hit:
  assumes "validateRule u path it = []"
  shows "runsAsConfigured u sp (hitOf it)"
proof -
  note l = validateRule_limits[OF assms]
  have "RedirectStatus (Some (hitOf it)) = (if ra_RedirectStatus (rs_Action it) = 0 then RedirectDefaultStatus else ra_RedirectStatus (rs_Action it))"
    if "ra_RedirectStatus (rs_Action it) = 0 \<or> knownRedirectStatus (ra_RedirectStatus (rs_Action it))"
    using that by (auto simp: RedirectStatus_def knownRedirectStatus_def hitOf_def)
  with l show ?thesis
    unfolding runsAsConfigured_def Let_def
    by (intro conjI impI) (simp_all add: hitOf_def clamps_within StatusFor_def HangTimeout_def RedirectLocation_def)
qed

lemma hit_of_item:
  assumes "Match u (Some (newEngine r)) phase req = Some h"
  obtains it where "it \<in> set (rules_Items r)" and "applies u phase req it" and "h = hitOf it"
proof -
  from assms have "map_option hitOf (find (applies u phase req) (rules_Items r)) = Some h"
    by (auto simp: Match_def newEngine_def cloneItems_id matchItems_find split: if_splits)
  then obtain it where "find (applies u phase req) (rules_Items r) = Some it" "h = hitOf it" by auto
  then show ?thesis using that by (metis find_Some_iff nth_mem)
qed

text \<open>(C29) The rules of a validated state have distinct, well-formed identifiers, and whatever the engine
  built from them matches runs as it was configured, whatever else the spec says: the limits are the rule's own, but that a
  breakpoint waits at most the store's longest wait and a hang at most the session timeout, where these are set; the hit's phase
  is the phase asked for, and on the WebSocket phase the action is drop or block, on the others
  never block.\<close>

theorem validated_rules_run_as_configured:
  assumes "validateRules u (sp_Rules sp) = []" and "Match u (Some (newEngine (sp_Rules sp))) phase req = Some h"
  shows "distinct (map (\<lambda>it. TrimSpace u (rs_ID it)) (rules_Items (sp_Rules sp))) \<and> ruleIDPattern (TrimSpace u (hit_ID h))
    \<and> hit_Phase h = phase \<and> runsAsConfigured u sp h
    \<and> (if phase = RulePhaseWebSocket then ra_Type (hit_Action h) \<in> {''drop'', ''block''} else ra_Type (hit_Action h) \<noteq> ''block'')"
proof -
  from assms(2) obtain it where it: "it \<in> set (rules_Items (sp_Rules sp))" "applies u phase req it" "h = hitOf it" by (rule hit_of_item)
  from ruleItems_Nil[OF assms(1)[unfolded validateRules_def]] it(1) obtain path where
    d: "distinct (map (\<lambda>it. TrimSpace u (rs_ID it)) (rules_Items (sp_Rules sp)))" "ruleIDPattern (TrimSpace u (rs_ID it))"
    and v: "validateRule u path it = []" by blast
  have "rs_Phase it \<noteq> []" using validateRule_phase(1)[OF v] by (auto simp: KnownRulePhase_def)
  with it(2) have ph: "rs_Phase it = phase" by (simp add: applies_def)
  have "runsAsConfigured u sp h" unfolding it(3) by (rule configured_hit[OF v])
  with d ph it(3) validateRule_phase(3,4)[OF v] show ?thesis by (auto simp: hitOf_def)
qed

definition exRulesSpec :: Spec where
  "exRulesSpec = (st_Spec exState)\<lparr>sp_Rules := \<lparr>rules_Enabled = True, rules_Items = en_items exEngine\<rparr>\<rparr>"

theorem validated_rules_run_as_configured_witness:
  "\<exists>h. Match ascii_env (Some (newEngine (sp_Rules exRulesSpec))) RulePhaseWebSocket (exFrame ''ping'') = Some h
     \<and> hit_Phase h = RulePhaseWebSocket \<and> runsAsConfigured ascii_env exRulesSpec h \<and> ra_Type (hit_Action h) \<in> {''drop'', ''block''}"
proof -
  have v: "validateRules ascii_env (sp_Rules exRulesSpec) = []" by code_simp
  have "Match ascii_env (Some (newEngine (sp_Rules exRulesSpec))) RulePhaseWebSocket (exFrame ''ping'') \<noteq> None" by code_simp
  then obtain h where "Match ascii_env (Some (newEngine (sp_Rules exRulesSpec))) RulePhaseWebSocket (exFrame ''ping'') = Some h" by blast
  from this validated_rules_run_as_configured[OF v this] show ?thesis by simp
qed

subsection \<open>The inbox\<close>

definition OptionsFromSpec :: "StoreSpec \<Rightarrow> options" where
  "OptionsFromSpec s = \<lparr>op_MaxFlows = ss_MaxFlows s, op_MaxBytes = ss_MaxBytes s, op_MaxBodyBytes = ss_MaxBodyBytes s,
     op_FullPolicy = ss_FullPolicy s, op_MaxWait = ss_MaxWait s, op_SpillDirectory = ss_SpillDirectory s,
     op_SpillThreshold = ss_SpillThreshold s\<rparr>"

lemma validated_options:
  assumes "validateStore s = []"
  shows "\<exists>op. normalizeOptions (OptionsFromSpec s) = Inr op \<and> op_MaxFlows op = ss_MaxFlows s \<and> op_MaxBytes op = ss_MaxBytes s
    \<and> op_MaxBodyBytes op = ss_MaxBodyBytes s \<and> op_FullPolicy op = (if ss_FullPolicy s = [] then FullPolicyReject else ss_FullPolicy s)"
  using assms by (auto simp: validateStore_def normalizeOptions_def OptionsFromSpec_def Let_def minStoreMaxBytes_def minMaxBodyBytes_def)

subsection \<open>Normalisation\<close>

lemma default_texts:
  "\<not> blank u DefaultProxyAddress" "\<not> blank u DefaultMgmtAddress" "\<not> blank u DefaultOrigDestAddress" "\<not> blank u DefaultRESTPath"
  "\<not> blank u DefaultMCPPath" "\<not> blank u DefaultCompatPathPrefix" "\<not> blank u DefaultProxyHostname" "\<not> blank u DefaultHTTPAuthRealm"
  "\<not> blank u CAModeGenerate" "\<not> blank u FullPolicyReject" "\<not> blank u MgmtAuthBearer" "\<not> blank u ''info''"
proof -
  let ?ts = "[DefaultProxyAddress, DefaultMgmtAddress, DefaultOrigDestAddress, DefaultRESTPath, DefaultMCPPath, DefaultCompatPathPrefix,
    DefaultProxyHostname, DefaultHTTPAuthRealm, CAModeGenerate, FullPolicyReject, MgmtAuthBearer, ''info'']"
  have "list_all (\<lambda>s. isASCII s \<and> s \<noteq> [] \<and> \<not> asciiSpace (hd s) \<and> \<not> asciiSpace (last s)) ?ts" by code_simp
  moreover have "isASCII s \<and> s \<noteq> [] \<and> \<not> asciiSpace (hd s) \<and> \<not> asciiSpace (last s) \<Longrightarrow> \<not> blank u s" for s
    using TrimSpace_id[of s u] by (simp add: blank_def)
  ultimately have "list_all (\<lambda>s. \<not> blank u s) ?ts" by (auto simp only: list.pred_inject)
  then show "\<not> blank u DefaultProxyAddress" "\<not> blank u DefaultMgmtAddress" "\<not> blank u DefaultOrigDestAddress" "\<not> blank u DefaultRESTPath"
    "\<not> blank u DefaultMCPPath" "\<not> blank u DefaultCompatPathPrefix" "\<not> blank u DefaultProxyHostname" "\<not> blank u DefaultHTTPAuthRealm"
    "\<not> blank u CAModeGenerate" "\<not> blank u FullPolicyReject" "\<not> blank u MgmtAuthBearer" "\<not> blank u ''info''"
    unfolding list.pred_inject by blast+
qed

lemma orDefault_idem: "\<not> blank u d \<Longrightarrow> orDefault u (orDefault u s d) d = orDefault u s d"
  by (simp add: orDefault_def)

lemma orEmpty_idem [simp]: "orEmpty (orEmpty xs) = orEmpty xs"
  by (simp add: orEmpty_def split: option.splits)

lemma elems_orEmpty [simp]: "elems (orEmpty xs) = elems xs"
  by (simp add: orEmpty_def split: option.splits)

lemma materialize_parts_idem:
  "materializeListeners u (materializeListeners u l) = materializeListeners u l"
  "materializeProxy u (materializeProxy u p) = materializeProxy u p"
  "materializeTLS u (materializeTLS u t) = materializeTLS u t"
  "materializeManagement u (materializeManagement u m) = materializeManagement u m"
  by (simp_all add: materializeListeners_def materializeProxy_def materializeTLS_def materializeManagement_def Let_def
      orDefault_idem default_texts DefaultMaxConcurrentStreams_def comp_def)

lemma materializeDefaults_idem: "materializeDefaults u (materializeDefaults u sp) = materializeDefaults u sp"
  by (simp add: materializeDefaults_def Let_def materialize_parts_idem orDefault_idem default_texts)

end
