(* ===== verification/App_Operations.thy ===== *)
theory App_Operations
  imports Model_Spec Config_Units
begin

text \<open>
  The operations of a plan or an apply on a desired state (\<open>internal/app/operations.go\<close>) and the
  catalog of feature switches (\<open>features.go\<close>). Of a validation error the violations are kept;
  the titles and descriptions of features are left out.
\<close>

subsection \<open>The feature catalog (features.go)\<close>

definition FeatureApplyLive :: string where "FeatureApplyLive = ''live''"
definition FeatureApplyReset :: string where "FeatureApplyReset = ''reset''"
definition FeatureVerbSetFeature :: string where "FeatureVerbSetFeature = ''setFeature''"
definition FeatureVerbReplaceTLS :: string where "FeatureVerbReplaceTLS = ''replaceTLS''"
definition FeatureVerbReset :: string where "FeatureVerbReset = ''reset''"

definition FeatureIDHTTP2 :: string where "FeatureIDHTTP2 = ''protocols.http2''"
definition FeatureIDWebSocket :: string where "FeatureIDWebSocket = ''protocols.websocket''"
definition FeatureIDConnect :: string where "FeatureIDConnect = ''protocols.connect''"
definition FeatureIDAbsoluteForm :: string where "FeatureIDAbsoluteForm = ''protocols.absoluteForm''"
definition FeatureIDAcceptSOCKS5 :: string where "FeatureIDAcceptSOCKS5 = ''listeners.proxy.acceptSOCKS5''"
definition FeatureIDAcceptSOCKS4 :: string where "FeatureIDAcceptSOCKS4 = ''listeners.proxy.acceptSOCKS4''"
definition FeatureIDOriginalDest :: string where "FeatureIDOriginalDest = ''listeners.originalDestination''"
definition FeatureIDCompatFlowREST :: string where "FeatureIDCompatFlowREST = ''compat.flowREST''"
definition FeatureIDTLSIntercept :: string where "FeatureIDTLSIntercept = ''tls.intercept''"
definition FeatureIDRulesEnabled :: string where "FeatureIDRulesEnabled = ''rules.enabled''"
definition FeatureIDUIEnabled :: string where "FeatureIDUIEnabled = ''ui.enabled''"

lemmas feature_ids = FeatureIDHTTP2_def FeatureIDWebSocket_def FeatureIDConnect_def FeatureIDAbsoluteForm_def
  FeatureIDAcceptSOCKS5_def FeatureIDAcceptSOCKS4_def FeatureIDOriginalDest_def FeatureIDCompatFlowREST_def
  FeatureIDTLSIntercept_def FeatureIDRulesEnabled_def FeatureIDUIEnabled_def
lemmas feature_verbs = FeatureVerbSetFeature_def FeatureVerbReplaceTLS_def FeatureVerbReset_def

record Feature =
  ft_ID :: string
  ft_YAMLPath :: string
  ft_Enabled :: bool
  ft_ApplyMode :: string
  ft_Verb :: string

definition CatalogFromSpec :: "Spec \<Rightarrow> Feature list" where
  "CatalogFromSpec sp =
     (let pr = sp_Protocols sp; pl = ls_Proxy (sp_Listeners sp);
          live = (\<lambda>key yaml on. \<lparr>ft_ID = key, ft_YAMLPath = yaml, ft_Enabled = on, ft_ApplyMode = FeatureApplyLive, ft_Verb = FeatureVerbSetFeature\<rparr>)
      in [live FeatureIDHTTP2 ''spec.protocols.http2.enabled'' (h2s_Enabled (pr_HTTP2 pr)),
          live FeatureIDWebSocket ''spec.protocols.websocket.enabled'' (wss_Enabled (pr_WebSocket pr)),
          live FeatureIDConnect ''spec.protocols.connect.enabled'' (pg_Enabled (pr_Connect pr)),
          live FeatureIDAbsoluteForm ''spec.protocols.absoluteForm.enabled'' (pg_Enabled (pr_AbsoluteForm pr)),
          live FeatureIDAcceptSOCKS5 ''spec.listeners.proxy.acceptSOCKS5'' (pl_AcceptSOCKS5 pl),
          live FeatureIDAcceptSOCKS4 ''spec.listeners.proxy.acceptSOCKS4'' (pl_AcceptSOCKS4 pl),
          \<lparr>ft_ID = FeatureIDOriginalDest, ft_YAMLPath = ''spec.listeners.originalDestination.enabled'',
            ft_Enabled = od_Enabled (ls_OriginalDestination (sp_Listeners sp)),
            ft_ApplyMode = FeatureApplyReset, ft_Verb = FeatureVerbReset\<rparr>,
          live FeatureIDCompatFlowREST ''spec.compat.flowREST.enabled'' (fr_Enabled (cs_FlowREST (sp_Compat sp))),
          \<lparr>ft_ID = FeatureIDTLSIntercept, ft_YAMLPath = ''spec.tls.intercept'', ft_Enabled = ts_Intercept (sp_TLS sp),
            ft_ApplyMode = FeatureApplyLive, ft_Verb = FeatureVerbReplaceTLS\<rparr>,
          live FeatureIDRulesEnabled ''spec.rules.enabled'' (rules_Enabled (sp_Rules sp)),
          live FeatureIDUIEnabled ''spec.ui.enabled'' (ui_Enabled (sp_UI sp))])"

record StatusFeatures =
  sf_HTTP2 :: bool
  sf_SOCKS5 :: bool
  sf_SOCKS4 :: bool
  sf_OriginalDestination :: bool
  sf_CompatFlowREST :: bool

definition compactFlag :: "Feature \<Rightarrow> StatusFeatures \<Rightarrow> StatusFeatures" where
  "compactFlag f out =
     (if ft_ID f = FeatureIDHTTP2 then out\<lparr>sf_HTTP2 := ft_Enabled f\<rparr>
      else if ft_ID f = FeatureIDAcceptSOCKS5 then out\<lparr>sf_SOCKS5 := ft_Enabled f\<rparr>
      else if ft_ID f = FeatureIDAcceptSOCKS4 then out\<lparr>sf_SOCKS4 := ft_Enabled f\<rparr>
      else if ft_ID f = FeatureIDOriginalDest then out\<lparr>sf_OriginalDestination := ft_Enabled f\<rparr>
      else if ft_ID f = FeatureIDCompatFlowREST then out\<lparr>sf_CompatFlowREST := ft_Enabled f\<rparr>
      else out)"

definition CompactStatusFlags :: "Feature list \<Rightarrow> StatusFeatures" where
  "CompactStatusFlags items =
     fold compactFlag items \<lparr>sf_HTTP2 = False, sf_SOCKS5 = False, sf_SOCKS4 = False, sf_OriginalDestination = False, sf_CompatFlowREST = False\<rparr>"

subsection \<open>Operations (operations.go)\<close>

definition missing :: "string \<Rightarrow> FieldViolation list" where
  "missing path = [\<lparr>fv_Path = path, fv_Code = ''required''\<rparr>]"

definition invalid :: "string \<Rightarrow> FieldViolation list" where
  "invalid path = [\<lparr>fv_Path = path, fv_Code = ''invalid_value''\<rparr>]"

definition applySetFeature :: "Spec \<Rightarrow> FeaturePatch \<Rightarrow> string \<Rightarrow> FieldViolation list + Spec" where
  "applySetFeature sp patch opPath =
     (let key = fp_ID patch; on = fp_Enabled patch; pr = sp_Protocols sp; l = sp_Listeners sp
      in if key = FeatureIDHTTP2 then Inr (sp\<lparr>sp_Protocols := pr\<lparr>pr_HTTP2 := (pr_HTTP2 pr)\<lparr>h2s_Enabled := on\<rparr>\<rparr>\<rparr>)
         else if key = FeatureIDWebSocket then Inr (sp\<lparr>sp_Protocols := pr\<lparr>pr_WebSocket := (pr_WebSocket pr)\<lparr>wss_Enabled := on\<rparr>\<rparr>\<rparr>)
         else if key = FeatureIDConnect then Inr (sp\<lparr>sp_Protocols := pr\<lparr>pr_Connect := (pr_Connect pr)\<lparr>pg_Enabled := on\<rparr>\<rparr>\<rparr>)
         else if key = FeatureIDAbsoluteForm then Inr (sp\<lparr>sp_Protocols := pr\<lparr>pr_AbsoluteForm := (pr_AbsoluteForm pr)\<lparr>pg_Enabled := on\<rparr>\<rparr>\<rparr>)
         else if key = FeatureIDAcceptSOCKS5 then Inr (sp\<lparr>sp_Listeners := l\<lparr>ls_Proxy := (ls_Proxy l)\<lparr>pl_AcceptSOCKS5 := on\<rparr>\<rparr>\<rparr>)
         else if key = FeatureIDAcceptSOCKS4 then Inr (sp\<lparr>sp_Listeners := l\<lparr>ls_Proxy := (ls_Proxy l)\<lparr>pl_AcceptSOCKS4 := on\<rparr>\<rparr>\<rparr>)
         else if key = FeatureIDCompatFlowREST then
           Inr (sp\<lparr>sp_Compat := (sp_Compat sp)\<lparr>cs_FlowREST := (cs_FlowREST (sp_Compat sp))\<lparr>fr_Enabled := on\<rparr>\<rparr>\<rparr>)
         else if key = FeatureIDRulesEnabled then Inr (sp\<lparr>sp_Rules := (sp_Rules sp)\<lparr>rules_Enabled := on\<rparr>\<rparr>)
         else if key = FeatureIDUIEnabled then Inr (sp\<lparr>sp_UI := (sp_UI sp)\<lparr>ui_Enabled := on\<rparr>\<rparr>)
         else Inl (invalid (opPath @ ''.feature.id'')))"

definition needs :: "'a option \<Rightarrow> string \<Rightarrow> ('a \<Rightarrow> State) \<Rightarrow> FieldViolation list + State" where
  "needs arg path f = (case arg of None \<Rightarrow> Inl (missing path) | Some x \<Rightarrow> Inr (f x))"

definition applyOne :: "State \<Rightarrow> Operation \<Rightarrow> nat \<Rightarrow> FieldViolation list + State" where
  "applyOne st op i =
     (let path = ''operations['' @ formatNat i @ '']''; sp = st_Spec st; px = sp_Proxy sp
      in if o_Op op = OpReplaceStoreCaps then
           needs (o_Store op) (path @ ''.store'') (\<lambda>c. st\<lparr>st_Spec := sp\<lparr>sp_Store := (sp_Store sp)
             \<lparr>ss_MaxFlows := sc_MaxFlows c, ss_MaxBytes := sc_MaxBytes c, ss_MaxBodyBytes := sc_MaxBodyBytes c, ss_FullPolicy := sc_FullPolicy c\<rparr>\<rparr>\<rparr>)
         else if o_Op op = OpReplaceAdmission then
           needs (o_Admission op) (path @ ''.admission'') (\<lambda>a. st\<lparr>st_Spec := sp\<lparr>sp_Proxy := px\<lparr>px_Admission := a\<rparr>\<rparr>\<rparr>)
         else if o_Op op = OpReplaceTLS then needs (o_TLS op) (path @ ''.tls'') (\<lambda>t. st\<lparr>st_Spec := sp\<lparr>sp_TLS := t\<rparr>\<rparr>)
         else if o_Op op = OpReplaceRules then needs (o_Rules op) (path @ ''.rules'') (\<lambda>r. st\<lparr>st_Spec := sp\<lparr>sp_Rules := r\<rparr>\<rparr>)
         else if o_Op op = OpReplaceTargets then
           needs (o_Targets op) (path @ ''.targets'') (\<lambda>t. st\<lparr>st_Spec := sp\<lparr>sp_Proxy := px\<lparr>px_Targets := t\<rparr>\<rparr>\<rparr>)
         else if o_Op op = OpReplaceCompat then needs (o_Compat op) (path @ ''.compat'') (\<lambda>c. st\<lparr>st_Spec := sp\<lparr>sp_Compat := c\<rparr>\<rparr>)
         else if o_Op op = OpReplaceHTTPAuth then
           needs (o_HTTPAuth op) (path @ ''.httpAuth'') (\<lambda>h. st\<lparr>st_Spec := sp\<lparr>sp_Proxy := px\<lparr>px_HTTPAuth := h\<rparr>\<rparr>\<rparr>)
         else if o_Op op = OpSetFeature then
           (case o_Feature op of None \<Rightarrow> Inl (missing (path @ ''.feature''))
            | Some patch \<Rightarrow> map_sum id (\<lambda>sp'. st\<lparr>st_Spec := sp'\<rparr>) (applySetFeature sp patch path))
         else Inl (invalid (path @ ''.op'')))"

fun applyOps :: "State \<Rightarrow> nat \<Rightarrow> Operation list \<Rightarrow> FieldViolation list + State" where
  "applyOps st i [] = Inr st"
| "applyOps st i (op # ops) = (case applyOne st op i of Inl e \<Rightarrow> Inl e | Inr st' \<Rightarrow> applyOps st' (Suc i) ops)"

definition applyOperations :: "State option \<Rightarrow> Operation list \<Rightarrow> FieldViolation list + State" where
  "applyOperations sto ops = (case sto of None \<Rightarrow> Inl (missing '''') | Some st \<Rightarrow> applyOps st 0 ops)"

definition anyReplaceStoreCaps :: "Operation list \<Rightarrow> bool" where
  "anyReplaceStoreCaps ops = list_ex (\<lambda>op. o_Op op = OpReplaceStoreCaps) ops"

definition anyLiveFeatureOp :: "Operation list \<Rightarrow> bool" where
  "anyLiveFeatureOp ops = list_ex (\<lambda>op. o_Op op \<in> {OpSetFeature, OpReplaceCompat, OpReplaceHTTPAuth}) ops"

definition anyReplaceHTTPAuth :: "Operation list \<Rightarrow> bool" where
  "anyReplaceHTTPAuth ops = list_ex (\<lambda>op. o_Op op = OpReplaceHTTPAuth) ops"

subsection \<open>The catalog and the handler agree\<close>

text \<open>The catalog tells the truth about \<open>setFeature\<close>: the handler accepts exactly the features
  whose catalog entry names that verb, and after it the catalog is the same but for the switch of
  the one feature, which has the value asked for.\<close>

theorem catalog_agrees_with_setFeature:
  "case applySetFeature sp patch path of
     Inr sp' \<Rightarrow> (\<exists>f \<in> set (CatalogFromSpec sp). ft_ID f = fp_ID patch \<and> ft_Verb f = FeatureVerbSetFeature)
       \<and> CatalogFromSpec sp' = map (\<lambda>f. if ft_ID f = fp_ID patch then f\<lparr>ft_Enabled := fp_Enabled patch\<rparr> else f) (CatalogFromSpec sp)
   | Inl vs \<Rightarrow> vs = [\<lparr>fv_Path = path @ ''.feature.id'', fv_Code = ''invalid_value''\<rparr>]
       \<and> \<not> (\<exists>f \<in> set (CatalogFromSpec sp). ft_ID f = fp_ID patch \<and> ft_Verb f = FeatureVerbSetFeature)"
  by (auto simp: applySetFeature_def CatalogFromSpec_def Let_def feature_ids feature_verbs invalid_def split: if_splits)

end
