(* ===== verification/App_Compile.thy ===== *)
theory App_Compile
  imports Config_Validate App_Operations
begin

text \<open>
  Snapshots, their store and the compiler (\<open>internal/snapshot\<close>, \<open>internal/compiler\<close>). What
  lies outside the sources is in the record \<open>compile_env\<close>: the disk, the hash that names a
  canonical state, SHA-256, and the certificate authority built from a TLS specification, of a type
  \<open>'ca\<close> nothing here looks into; a failing call is \<open>None\<close>. Two TLS specifications are
  the same when their JSON is; of normalised states that is equality.
\<close>

datatype app_error =
    ValidationFailed "FieldViolation list"
  | RevisionConflict string
  | IdempotencyConflicting
  | StoreOverNewCap
  | Internal
  | ContextDone

record 'ca compile_env =
  ce_go :: go_env
  ce_disk :: disk
  ce_now :: gotime
  ce_ctxErr :: bool
  ce_revision :: "State \<Rightarrow> string option"
  ce_newCA :: "TLSSpec \<Rightarrow> 'ca option"
  ce_sha256 :: "byte list \<Rightarrow> byte list"

subsection \<open>Snapshots (snapshot.go, store.go)\<close>

record SOCKSUserDigest =
  su_ID :: string
  su_Digest :: "byte list"

record 'ca Snapshot =
  sn_Canonical :: "State option"
  sn_Revision :: string
  sn_BootstrapRevision :: string
  sn_Generation :: nat
  sn_CompiledAt :: gotime
  sn_Rules :: Engine
  sn_CA :: "'ca option"
  sn_SOCKSUsers :: "SOCKSUserDigest list"
  sn_HTTPAuthUsers :: "SOCKSUserDigest list"

definition DigestSOCKSUser :: "(byte list \<Rightarrow> byte list) \<Rightarrow> byte list \<Rightarrow> byte list \<Rightarrow> byte list" where
  "DigestSOCKSUser sha username password =
     sha (of_nat (length username) # username @ of_nat (length password) # password)"

definition snapDrifted :: "'ca Snapshot option \<Rightarrow> bool" where
  "snapDrifted so = (case so of None \<Rightarrow> False | Some s \<Rightarrow> sn_Revision s \<noteq> sn_BootstrapRevision s)"

record 'ca SnapStore =
  sst_active :: "'ca Snapshot option"
  sst_previous :: "'ca Snapshot option"
  sst_bootstrap :: "'ca Snapshot option"

definition NewStore :: "'ca SnapStore" where
  "NewStore = \<lparr>sst_active = None, sst_previous = None, sst_bootstrap = None\<rparr>"

definition snapSwap :: "'ca Snapshot option \<Rightarrow> 'ca SnapStore \<Rightarrow> 'ca SnapStore \<times> 'ca Snapshot option" where
  "snapSwap next s =
     (let prev = sst_active s; s1 = s\<lparr>sst_active := next\<rparr>
      in (case prev of None \<Rightarrow> s1 | Some p \<Rightarrow> s1\<lparr>sst_previous := Some p\<rparr>, prev))"

definition SetBootstrap :: "'ca Snapshot option \<Rightarrow> 'ca SnapStore \<Rightarrow> 'ca SnapStore" where
  "SetBootstrap next s = s\<lparr>sst_bootstrap := next\<rparr>"

definition InstallBootstrap :: "'ca Snapshot option \<Rightarrow> 'ca SnapStore \<Rightarrow> 'ca SnapStore \<times> 'ca Snapshot option" where
  "InstallBootstrap next s = (if next = None then (s, None) else snapSwap next (SetBootstrap next s))"

subsection \<open>Users (socks.go, httpauth.go)\<close>

definition readRFC1929File :: "go_env \<Rightarrow> disk \<Rightarrow> string \<Rightarrow> byte list option" where
  "readRFC1929File u dk path =
     (case dk_ReadFile dk path of None \<Rightarrow> None
      | Some b \<Rightarrow> map_option bytes_of (firstSecret u (secretLines b)))"

text \<open>The loop both tables are loaded with: \<open>seen\<close> holds the digests of the users before.\<close>

fun loadUsers :: "'ca compile_env \<Rightarrow> string \<Rightarrow> byte list list \<Rightarrow> nat \<Rightarrow> UserPassUserSpec list \<Rightarrow> app_error + SOCKSUserDigest list" where
  "loadUsers ev base seen i [] = Inr []"
| "loadUsers ev base seen i (x # xs) =
     (let at = indexPath base i; bad = (\<lambda>f c. Inl (ValidationFailed [\<lparr>fv_Path = at @ f, fv_Code = c\<rparr>]))
      in case readRFC1929File (ce_go ev) (ce_disk ev) (up_UsernameFile x) of
           None \<Rightarrow> bad ''.usernameFile'' ''unresolved_reference''
         | Some user \<Rightarrow>
           (case readRFC1929File (ce_go ev) (ce_disk ev) (up_PasswordFile x) of
              None \<Rightarrow> bad ''.passwordFile'' ''unresolved_reference''
            | Some pass \<Rightarrow>
              if length user < 1 \<or> length user > 255 then bad ''.usernameFile'' ''invalid_value''
              else if length pass < 1 \<or> length pass > 255 then bad ''.passwordFile'' ''invalid_value''
              else let d = DigestSOCKSUser (ce_sha256 ev) user pass
                   in if d \<in> set seen then bad '''' ''duplicate_id''
                      else map_sum id (\<lambda>ds. \<lparr>su_ID = TrimSpace (ce_go ev) (up_ID x), su_Digest = d\<rparr> # ds)
                             (loadUsers ev base (d # seen) (Suc i) xs)))"

definition loadSOCKSUserFiles :: "'ca compile_env \<Rightarrow> Spec \<Rightarrow> app_error + SOCKSUserDigest list" where
  "loadSOCKSUserFiles ev sp =
     (let p = ls_Proxy (sp_Listeners sp)
      in if \<not> pl_AcceptUserPass p then Inr []
         else loadUsers ev ''spec.listeners.proxy.userPass.users'' [] 0 (elems (ups_Users (pl_UserPass p))))"

definition loadHTTPAuthUserFiles :: "'ca compile_env \<Rightarrow> Spec \<Rightarrow> app_error + SOCKSUserDigest list" where
  "loadHTTPAuthUserFiles ev sp =
     (let h = px_HTTPAuth (sp_Proxy sp)
      in if \<not> ha_Enabled h then Inr []
         else loadUsers ev ''spec.proxy.httpAuth.users'' [] 0 (elems (ha_Users h)))"

subsection \<open>The compiler (compile.go)\<close>

record 'ca CompileOpts =
  co_BootstrapRevision :: string
  co_Generation :: nat
  co_Previous :: "'ca Snapshot option"
  co_RotateCA :: bool
  co_ReloadHTTPAuth :: bool

definition compileSOCKSUsers :: "'ca compile_env \<Rightarrow> Spec \<Rightarrow> 'ca CompileOpts \<Rightarrow> app_error + SOCKSUserDigest list" where
  "compileSOCKSUsers ev sp opts =
     (case co_Previous opts of Some p \<Rightarrow> Inr (sn_SOCKSUsers p) | None \<Rightarrow> loadSOCKSUserFiles ev sp)"

definition compileHTTPAuthUsers :: "'ca compile_env \<Rightarrow> Spec \<Rightarrow> 'ca CompileOpts \<Rightarrow> app_error + SOCKSUserDigest list" where
  "compileHTTPAuthUsers ev sp opts =
     (case co_Previous opts of
        Some p \<Rightarrow> if \<not> co_ReloadHTTPAuth opts then Inr (sn_HTTPAuthUsers p) else loadHTTPAuthUserFiles ev sp
      | None \<Rightarrow> loadHTTPAuthUserFiles ev sp)"

definition tlsUnchanged :: "'ca Snapshot \<Rightarrow> TLSSpec \<Rightarrow> bool" where
  "tlsUnchanged prev next = (case sn_Canonical prev of None \<Rightarrow> False | Some st \<Rightarrow> sp_TLS (st_Spec st) = next)"

definition compileCA :: "'ca compile_env \<Rightarrow> TLSSpec \<Rightarrow> 'ca CompileOpts \<Rightarrow> app_error + 'ca option" where
  "compileCA ev spec opts =
     (case co_Previous opts of
        Some prev \<Rightarrow>
          if \<not> co_RotateCA opts \<and> sn_CA prev \<noteq> None \<and> tlsUnchanged prev spec then Inr (sn_CA prev)
          else (case ce_newCA ev spec of None \<Rightarrow> Inl (ValidationFailed [\<lparr>fv_Path = ''spec.tls.ca'', fv_Code = ''invalid_value''\<rparr>])
                | Some ca \<Rightarrow> Inr (Some ca))
      | None \<Rightarrow>
          (case ce_newCA ev spec of None \<Rightarrow> Inl (ValidationFailed [\<lparr>fv_Path = ''spec.tls.ca'', fv_Code = ''invalid_value''\<rparr>])
           | Some ca \<Rightarrow> Inr (Some ca)))"

definition validateForCompile :: "'ca compile_env \<Rightarrow> State \<Rightarrow> 'ca CompileOpts \<Rightarrow> FieldViolation list" where
  "validateForCompile ev n opts =
     (if co_Previous opts \<noteq> None then ValidateLiveApplyOpts (ce_go ev) (ce_disk ev) (\<not> co_ReloadHTTPAuth opts) (Some n)
      else ValidateConfig (ce_go ev) (ce_disk ev) (Some n))"

definition Compile :: "'ca compile_env \<Rightarrow> State option \<Rightarrow> 'ca CompileOpts \<Rightarrow> app_error + 'ca Snapshot" where
  "Compile ev st opts =
     (if ce_ctxErr ev then Inl ContextDone
      else case Normalize (ce_go ev) st of Inl vs \<Rightarrow> Inl (ValidationFailed vs)
      | Inr n \<Rightarrow>
        let vs = validateForCompile ev n opts
        in if vs \<noteq> [] then Inl (ValidationFailed vs)
        else case ce_revision ev n of None \<Rightarrow> Inl Internal
        | Some rvn \<Rightarrow>
          (case compileCA ev (sp_TLS (st_Spec n)) opts of Inl e \<Rightarrow> Inl e
           | Inr ca \<Rightarrow>
             (case compileSOCKSUsers ev (st_Spec n) opts of Inl e \<Rightarrow> Inl e
              | Inr socks \<Rightarrow>
                (case compileHTTPAuthUsers ev (st_Spec n) opts of Inl e \<Rightarrow> Inl e
                 | Inr users \<Rightarrow>
                   Inr \<lparr>sn_Canonical = Some n, sn_Revision = rvn,
                        sn_BootstrapRevision = (if co_BootstrapRevision opts = [] then rvn else co_BootstrapRevision opts),
                        sn_Generation = co_Generation opts, sn_CompiledAt = ce_now ev,
                        sn_Rules = newEngine (sp_Rules (st_Spec n)), sn_CA = ca,
                        sn_SOCKSUsers = socks, sn_HTTPAuthUsers = users\<rparr>))))"

end
