(* ===== verification/App_Idemp.thy ===== *)
theory App_Idemp
  imports Go_Prelude
begin

text \<open>
  The idempotency cache of the control plane (\<open>internal/app/idempotency.go\<close>): a map from
  keys to entries and a doubly linked list of the entries, most recently used first. Pointers are
  addresses into an explicit heap, so that the relinking is modelled as the code does it; a nil
  pointer is \<open>None\<close>. The operations of a plan are of a type \<open>'op\<close> the cache never
  looks into.
\<close>

subsection \<open>Plans and results (types.go)\<close>

record DiffEntry =
  de_Path :: string
  de_Op :: string
  de_Before :: "byte slice"
  de_After :: "byte slice"

record Warning =
  wn_Code :: string
  wn_Message :: string

record 'op Plan =
  pl_PreviousRevision :: string
  pl_CandidateRevision :: string
  pl_Drifted :: bool
  pl_Diff :: "DiffEntry slice"
  pl_Warnings :: "Warning slice"
  pl_Operations :: "'op slice"

record 'op ApplyResult =
  ar_Plan :: "'op Plan"
  ar_Applied :: bool
  ar_Generation :: nat
  ar_RuntimeRevision :: string
  ar_AuditEventID :: string

definition cloneRaw :: "byte slice \<Rightarrow> byte slice" where
  "cloneRaw b = (case b of None \<Rightarrow> None | Some xs \<Rightarrow> append_nil xs)"

definition cloneDiff :: "DiffEntry slice \<Rightarrow> DiffEntry slice" where
  "cloneDiff d =
     (case d of None \<Rightarrow> None
      | Some es \<Rightarrow> Some (map (\<lambda>e. e\<lparr>de_Before := cloneRaw (de_Before e), de_After := cloneRaw (de_After e)\<rparr>) es))"

definition clonePlan :: "'op Plan option \<Rightarrow> 'op Plan option" where
  "clonePlan p =
     (case p of None \<Rightarrow> None
      | Some x \<Rightarrow> Some (x\<lparr>pl_Diff := cloneDiff (pl_Diff x),
          pl_Warnings := (case pl_Warnings x of None \<Rightarrow> None | Some ws \<Rightarrow> append_nil ws),
          pl_Operations := append_nil (elems (pl_Operations x))\<rparr>))"

definition cloneApply :: "'op ApplyResult option \<Rightarrow> 'op ApplyResult option" where
  "cloneApply r =
     (case r of None \<Rightarrow> None
      | Some x \<Rightarrow> Some (x\<lparr>ar_Plan := the (clonePlan (Some (ar_Plan x)))\<rparr>))"

subsection \<open>The cache\<close>

record 'op idempEntry =
  ie_key :: string
  ie_fp :: string
  ie_plan :: "'op Plan option"
  ie_apply :: "'op ApplyResult option"
  ie_prev :: "nat option"
  ie_next :: "nat option"

record 'op idempCache =
  ic_max :: int
  ic_entries :: "(string, nat) gomap"
  ic_head :: "nat option"
  ic_tail :: "nat option"
  ic_heap :: "nat \<Rightarrow> 'op idempEntry"
  ic_free :: nat

definition defaultIdempotencyMax :: int where "defaultIdempotencyMax = 256"

definition nilEntry :: "'op idempEntry" where
  "nilEntry = \<lparr>ie_key = '''', ie_fp = '''', ie_plan = None, ie_apply = None, ie_prev = None, ie_next = None\<rparr>"

definition newIdempCache :: "int \<Rightarrow> 'op idempCache" where
  "newIdempCache mx =
     \<lparr>ic_max = (if mx \<le> 0 then defaultIdempotencyMax else mx), ic_entries = [],
      ic_head = None, ic_tail = None, ic_heap = (\<lambda>_. nilEntry), ic_free = 0\<rparr>"

text \<open>Writing through a pointer.\<close>

definition setPrev :: "nat \<Rightarrow> nat option \<Rightarrow> 'op idempCache \<Rightarrow> 'op idempCache" where
  "setPrev a p c = c\<lparr>ic_heap := (ic_heap c)(a := (ic_heap c a)\<lparr>ie_prev := p\<rparr>)\<rparr>"

definition setNext :: "nat \<Rightarrow> nat option \<Rightarrow> 'op idempCache \<Rightarrow> 'op idempCache" where
  "setNext a n c = c\<lparr>ic_heap := (ic_heap c)(a := (ic_heap c a)\<lparr>ie_next := n\<rparr>)\<rparr>"

definition unlinkLocked :: "nat \<Rightarrow> 'op idempCache \<Rightarrow> 'op idempCache" where
  "unlinkLocked e c =
     (let nx = ie_next (ic_heap c e);
          c1 = (case ie_prev (ic_heap c e) of
                  Some p \<Rightarrow> setNext p nx c
                | None \<Rightarrow> c\<lparr>ic_head := nx\<rparr>);
          pv = ie_prev (ic_heap c1 e);
          c2 = (case ie_next (ic_heap c1 e) of
                  Some n \<Rightarrow> setPrev n pv c1
                | None \<Rightarrow> c1\<lparr>ic_tail := pv\<rparr>)
      in setNext e None (setPrev e None c2))"

definition idempRemoveLocked :: "nat \<Rightarrow> 'op idempCache \<Rightarrow> 'op idempCache" where
  "idempRemoveLocked e c =
     unlinkLocked e (c\<lparr>ic_entries := AList.delete (ie_key (ic_heap c e)) (ic_entries c)\<rparr>)"

text \<open>Linking an entry in front of the list.\<close>

definition linkFront :: "nat \<Rightarrow> 'op idempCache \<Rightarrow> 'op idempCache" where
  "linkFront e c =
     (let c1 = setNext e (ic_head c) (setPrev e None c);
          c2 = (case ic_head c1 of Some h \<Rightarrow> setPrev h (Some e) c1 | None \<Rightarrow> c1);
          c3 = c2\<lparr>ic_head := Some e\<rparr>
      in if ic_tail c3 = None then c3\<lparr>ic_tail := Some e\<rparr> else c3)"

definition moveFrontLocked :: "nat \<Rightarrow> 'op idempCache \<Rightarrow> 'op idempCache" where
  "moveFrontLocked e c = (if ic_head c = Some e then c else linkFront e (unlinkLocked e c))"

text \<open>The loop that evicts from the tail. \<open>None\<close> would be a loop that does not end.\<close>

definition shrinkLoop :: "'op idempCache \<Rightarrow> 'op idempCache option" where
  "shrinkLoop c =
     while_option (\<lambda>c. int (length (ic_entries c)) > ic_max c \<and> ic_tail c \<noteq> None)
       (\<lambda>c. idempRemoveLocked (the (ic_tail c)) c) c"

definition insertFrontLocked :: "nat \<Rightarrow> 'op idempCache \<Rightarrow> 'op idempCache option" where
  "insertFrontLocked e c =
     (let k = ie_key (ic_heap c e);
          c1 = (case map_of (ic_entries c) k of Some old \<Rightarrow> idempRemoveLocked old c | None \<Rightarrow> c);
          c2 = c1\<lparr>ic_entries := AList.update k e (ic_entries c1)\<rparr>
      in shrinkLoop (linkFront e c2))"

definition alloc :: "'op idempEntry \<Rightarrow> 'op idempCache \<Rightarrow> nat \<times> 'op idempCache" where
  "alloc e c = (ic_free c, c\<lparr>ic_heap := (ic_heap c)(ic_free c := e), ic_free := Suc (ic_free c)\<rparr>)"

datatype idemp_error = IdempotencyConflict

text \<open>The operations. A lookup returns the entry it finds.\<close>

definition lookup :: "string \<Rightarrow> string \<Rightarrow> 'op idempCache \<Rightarrow> 'op idempCache \<times> (idemp_error + 'op idempEntry option)" where
  "lookup key fp c =
     (if key = '''' then (c, Inr None)
      else case map_of (ic_entries c) key of
        None \<Rightarrow> (c, Inr None)
      | Some e \<Rightarrow>
        if ie_fp (ic_heap c e) \<noteq> fp then (c, Inl IdempotencyConflict)
        else (let c1 = moveFrontLocked e c in (c1, Inr (Some (ic_heap c1 e)))))"

definition storePlan :: "string \<Rightarrow> string \<Rightarrow> 'op Plan option \<Rightarrow> 'op idempCache \<Rightarrow> 'op idempCache option" where
  "storePlan key fp p c =
     (if key = '''' \<or> p = None then Some c
      else case map_of (ic_entries c) key of
        Some e \<Rightarrow>
          if ie_fp (ic_heap c e) = fp
          then Some (moveFrontLocked e
                 (c\<lparr>ic_heap := (ic_heap c)(e := (ic_heap c e)\<lparr>ie_plan := clonePlan p\<rparr>)\<rparr>))
          else (case alloc (nilEntry\<lparr>ie_key := key, ie_fp := fp, ie_plan := clonePlan p\<rparr>) c of
                  (a, c1) \<Rightarrow> insertFrontLocked a c1)
      | None \<Rightarrow> (case alloc (nilEntry\<lparr>ie_key := key, ie_fp := fp, ie_plan := clonePlan p\<rparr>) c of
                  (a, c1) \<Rightarrow> insertFrontLocked a c1))"

definition storeApply :: "string \<Rightarrow> string \<Rightarrow> 'op ApplyResult option \<Rightarrow> 'op idempCache \<Rightarrow> 'op idempCache option" where
  "storeApply key fp r c =
     (if key = '''' \<or> r = None then Some c
      else case map_of (ic_entries c) key of
        Some e \<Rightarrow>
          if ie_fp (ic_heap c e) = fp
          then Some (moveFrontLocked e
                 (c\<lparr>ic_heap := (ic_heap c)(e := (ic_heap c e)\<lparr>ie_apply := cloneApply r\<rparr>)\<rparr>))
          else (case alloc (nilEntry\<lparr>ie_key := key, ie_fp := fp, ie_apply := cloneApply r\<rparr>) c of
                  (a, c1) \<Rightarrow> insertFrontLocked a c1)
      | None \<Rightarrow> (case alloc (nilEntry\<lparr>ie_key := key, ie_fp := fp, ie_apply := cloneApply r\<rparr>) c of
                  (a, c1) \<Rightarrow> insertFrontLocked a c1))"

definition evict :: "string \<Rightarrow> 'op idempCache \<Rightarrow> 'op idempCache" where
  "evict key c =
     (if key = '''' then c
      else case map_of (ic_entries c) key of Some e \<Rightarrow> idempRemoveLocked e c | None \<Rightarrow> c)"

definition clear :: "'op idempCache \<Rightarrow> 'op idempCache" where
  "clear c = c\<lparr>ic_entries := [], ic_head := None, ic_tail := None\<rparr>"

end
