(* ===== verification/App_LRU.thy ===== *)
theory App_LRU
  imports App_Idemp
begin

text \<open>
  The cache is a least-recently-used list. \<open>repr\<close> ties a cache to the list of its
  addresses; every operation keeps it, and acts on what the addresses hold as the corresponding
  operation on a plain list does.
\<close>

subsection \<open>Doubly linked lists\<close>

definition first :: "nat list \<Rightarrow> nat option \<Rightarrow> nat option" where
  "first xs n = (case xs of [] \<Rightarrow> n | a # _ \<Rightarrow> Some a)"

definition final :: "nat option \<Rightarrow> nat list \<Rightarrow> nat option" where
  "final p xs = (if xs = [] then p else Some (last xs))"

lemma first_simps [simp]: "first [] n = n" "first (a # xs) n = Some a"
  by (simp_all add: first_def)

lemma first_append [simp]: "first (xs @ ys) n = first xs (first ys n)"
  by (cases xs) simp_all

lemma final_simps [simp]: "final p [] = p" "final p (a # xs) = final (Some a) xs" "final p (xs @ ys) = final (final p xs) ys"
  by (auto simp: final_def)

fun dll :: "(nat \<Rightarrow> 'op idempEntry) \<Rightarrow> nat option \<Rightarrow> nat list \<Rightarrow> nat option \<Rightarrow> bool" where
  "dll h p [] n \<longleftrightarrow> True"
| "dll h p (a # xs) n \<longleftrightarrow> ie_prev (h a) = p \<and> ie_next (h a) = first xs n \<and> dll h (Some a) xs n"

lemma dll_append: "dll h p (xs @ ys) n \<longleftrightarrow> dll h p xs (first ys n) \<and> dll h (final p xs) ys n"
  by (induction xs arbitrary: p) auto

lemma dll_frame [simp]: "a \<notin> set xs \<Longrightarrow> dll (h(a := e)) p xs n = dll h p xs n"
  by (induction xs arbitrary: p) auto

lemma dll_setNext_last:
  "dll h p (xs @ [a]) n \<Longrightarrow> a \<notin> set xs \<Longrightarrow> dll (h(a := (h a)\<lparr>ie_next := n'\<rparr>)) p (xs @ [a]) n'"
  by (simp add: dll_append)

lemma dll_setPrev_first:
  "dll h p (a # ys) n \<Longrightarrow> a \<notin> set ys \<Longrightarrow> dll (h(a := (h a)\<lparr>ie_prev := p'\<rparr>)) p' (a # ys) n"
  by simp

subsection \<open>What a cache holds\<close>

type_synonym 'op lruEntry = "string \<times> string \<times> 'op Plan option \<times> 'op ApplyResult option"

definition viewOf :: "'op idempEntry \<Rightarrow> 'op lruEntry" where
  "viewOf e = (ie_key e, ie_fp e, ie_plan e, ie_apply e)"

lemma viewOf_links [simp]:
  "viewOf (e\<lparr>ie_prev := p\<rparr>) = viewOf e" "viewOf (e\<lparr>ie_next := n\<rparr>) = viewOf e" "fst (viewOf e) = ie_key e"
  by (simp_all add: viewOf_def)

definition linked :: "'op idempCache \<Rightarrow> nat list \<Rightarrow> bool" where
  "linked c xs \<longleftrightarrow> distinct xs \<and> dll (ic_heap c) None xs None \<and> ic_head c = first xs None \<and> ic_tail c = final None xs"

lemma setNext_simps [simp]:
  "ic_heap (setNext a n c) = (ic_heap c)(a := (ic_heap c a)\<lparr>ie_next := n\<rparr>)"
  "ic_head (setNext a n c) = ic_head c" "ic_tail (setNext a n c) = ic_tail c"
  "ic_entries (setNext a n c) = ic_entries c" "ic_max (setNext a n c) = ic_max c" "ic_free (setNext a n c) = ic_free c"
  by (simp_all add: setNext_def)

lemma setPrev_simps [simp]:
  "ic_heap (setPrev a n c) = (ic_heap c)(a := (ic_heap c a)\<lparr>ie_prev := n\<rparr>)"
  "ic_head (setPrev a n c) = ic_head c" "ic_tail (setPrev a n c) = ic_tail c"
  "ic_entries (setPrev a n c) = ic_entries c" "ic_max (setPrev a n c) = ic_max c" "ic_free (setPrev a n c) = ic_free c"
  by (simp_all add: setPrev_def)

text \<open>Relinking changes no entry's content and nothing else of the cache.\<close>

definition relinks :: "'op idempCache \<Rightarrow> 'op idempCache \<Rightarrow> bool" where
  "relinks c c' \<longleftrightarrow> (\<forall>a. viewOf (ic_heap c' a) = viewOf (ic_heap c a)) \<and> ic_entries c' = ic_entries c
     \<and> ic_max c' = ic_max c \<and> ic_free c' = ic_free c"

lemma relinks_trans: "relinks a b \<Longrightarrow> relinks b c \<Longrightarrow> relinks a c"
  by (simp add: relinks_def)

lemma relinks_unlink: "relinks c (unlinkLocked e c)"
  by (auto simp: relinks_def unlinkLocked_def Let_def split: option.splits)

lemma relinks_linkFront: "relinks c (linkFront e c)"
  by (auto simp: relinks_def linkFront_def Let_def split: option.splits)

lemma linked_unlink:
  assumes "linked c (xs @ e # ys)"
  shows "linked (unlinkLocked e c) (xs @ ys)"
proof -
  have d: "distinct (xs @ e # ys)" and l: "dll (ic_heap c) None xs (Some e)" "dll (ic_heap c) (Some e) ys None"
    and e: "ie_prev (ic_heap c e) = final None xs" "ie_next (ic_heap c e) = first ys None"
    and ht: "ic_head c = first xs (Some e)" "ic_tail c = final (Some e) ys"
    using assms by (auto simp: linked_def dll_append)
  show ?thesis
  proof (cases xs rule: rev_cases)
    case xs: Nil
    show ?thesis
    proof (cases ys)
      case Nil
      with xs e ht d l show ?thesis by (simp add: linked_def unlinkLocked_def Let_def)
    next
      case (Cons n zs)
      with xs e ht d l show ?thesis by (auto simp: linked_def unlinkLocked_def Let_def final_def)
    qed
  next
    case xs: (snoc ws p)
    show ?thesis
    proof (cases ys)
      case Nil
      with xs e ht d l show ?thesis
        by (auto simp: linked_def unlinkLocked_def Let_def dll_append final_def first_def split: list.splits)
    next
      case (Cons n zs)
      have ne: "p \<noteq> e" "n \<noteq> e" "p \<noteq> n" "e \<notin> set ws" "p \<notin> set ws" "n \<notin> set ws" "p \<notin> set zs" "n \<notin> set zs" "e \<notin> set zs"
        using d xs Cons by auto
      then have h: "ic_heap (unlinkLocked e c) = (ic_heap c)
          (p := (ic_heap c p)\<lparr>ie_next := Some n\<rparr>, n := (ic_heap c n)\<lparr>ie_prev := Some p\<rparr>,
           e := (ic_heap c e)\<lparr>ie_prev := None, ie_next := None\<rparr>)"
        using xs Cons e by (simp add: unlinkLocked_def Let_def final_def fun_eq_iff)
      have "ic_head (unlinkLocked e c) = ic_head c" "ic_tail (unlinkLocked e c) = ic_tail c"
        using xs Cons e ne by (simp_all add: unlinkLocked_def Let_def final_def)
      with l xs Cons ne ht d show ?thesis
        by (simp add: linked_def h dll_append final_def fun_upd_twist)
    qed
  qed
qed

lemma linked_linkFront:
  assumes "linked c xs" and "e \<notin> set xs"
  shows "linked (linkFront e c) (e # xs)"
proof (cases xs)
  case Nil
  with assms show ?thesis by (simp add: linked_def linkFront_def Let_def)
next
  case (Cons a ys)
  with assms show ?thesis by (auto simp: linked_def linkFront_def Let_def final_def split: option.splits)
qed


abbreviation keyAt :: "'op idempCache \<Rightarrow> nat \<Rightarrow> string" where
  "keyAt c a \<equiv> ie_key (ic_heap c a)"

definition repr :: "'op idempCache \<Rightarrow> nat list \<Rightarrow> bool" where
  "repr c xs \<longleftrightarrow> linked c xs \<and> distinct (map fst (ic_entries c)) \<and> inj_on (keyAt c) (set xs)
     \<and> (\<forall>k a. map_of (ic_entries c) k = Some a \<longleftrightarrow> a \<in> set xs \<and> keyAt c a = k)
     \<and> (\<forall>a \<in> set xs. a < ic_free c) \<and> 0 < ic_max c"

lemma viewOf_key: "viewOf x = viewOf y \<Longrightarrow> ie_key x = ie_key y"
  by (simp add: viewOf_def)

lemma relinks_key: "relinks c c' \<Longrightarrow> keyAt c' a = keyAt c a"
  by (auto simp: relinks_def intro: viewOf_key)

lemma repr_relink:
  assumes "repr c xs" and "relinks c c'" and "linked c' ys" and "set ys = set xs"
  shows "repr c' ys"
  using assms relinks_key[OF assms(2)] by (simp add: repr_def relinks_def inj_on_def)

lemma keys_repr: "repr c xs \<Longrightarrow> keys (ic_entries c) = keyAt c ` set xs"
proof -
  assume "repr c xs"
  then have "\<And>k. k \<in> keys (ic_entries c) \<longleftrightarrow> k \<in> keyAt c ` set xs"
    unfolding in_keys_iff repr_def by auto
  then show ?thesis by blast
qed

lemma repr_length: "repr c xs \<Longrightarrow> length (ic_entries c) = length xs"
  using distinct_keys_card[of "ic_entries c"] keys_repr[of c xs]
  by (simp add: repr_def card_image linked_def distinct_card)

lemma remove1_split: "distinct (as @ e # bs) \<Longrightarrow> remove1 e (as @ e # bs) = as @ bs"
  by (simp add: remove1_append)

lemma repr_moveFront:
  assumes r: "repr c xs" and e: "e \<in> set xs"
  shows "repr (moveFrontLocked e c) (e # remove1 e xs)" and "relinks c (moveFrontLocked e c)"
proof -
  obtain as bs where xs: "xs = as @ e # bs" using e by (meson split_list)
  have l: "linked c xs" "distinct xs" using r by (auto simp: repr_def linked_def)
  have re: "remove1 e xs = as @ bs" using l(2) by (simp add: xs remove1_split)
  show rel: "relinks c (moveFrontLocked e c)"
    using relinks_trans[OF relinks_unlink relinks_linkFront, of c e e]
    by (auto simp: moveFrontLocked_def relinks_def)
  have "linked (moveFrontLocked e c) (e # remove1 e xs)"
  proof (cases "ic_head c = Some e")
    case True
    then have "as = []" using l xs by (cases as) (auto simp: linked_def)
    with True l show ?thesis by (simp add: xs moveFrontLocked_def)
  next
    case False
    have "linked (linkFront e (unlinkLocked e c)) (e # as @ bs)"
      using l xs by (intro linked_linkFront linked_unlink) auto
    with False show ?thesis by (simp add: moveFrontLocked_def re)
  qed
  from repr_relink[OF r rel this] e l(2) show "repr (moveFrontLocked e c) (e # remove1 e xs)" by (auto simp: insert_absorb)
qed

lemma repr_remove:
  assumes r: "repr c xs" and e: "e \<in> set xs"
  shows "repr (idempRemoveLocked e c) (remove1 e xs)"
    and "\<And>a. viewOf (ic_heap (idempRemoveLocked e c) a) = viewOf (ic_heap c a)"
    and "ic_max (idempRemoveLocked e c) = ic_max c" and "ic_free (idempRemoveLocked e c) = ic_free c"
proof -
  let ?c0 = "c\<lparr>ic_entries := AList.delete (keyAt c e) (ic_entries c)\<rparr>"
  obtain as bs where xs: "xs = as @ e # bs" using e by (meson split_list)
  have l: "linked c xs" "distinct xs" using r by (auto simp: repr_def linked_def)
  have re: "remove1 e xs = as @ bs" using l(2) by (simp add: xs remove1_split)
  have c0: "idempRemoveLocked e c = unlinkLocked e ?c0" by (simp add: idempRemoveLocked_def)
  have rel: "relinks ?c0 (idempRemoveLocked e c)" unfolding c0 by (rule relinks_unlink)
  then show v: "viewOf (ic_heap (idempRemoveLocked e c) a) = viewOf (ic_heap c a)" for a by (simp add: relinks_def)
  show "ic_max (idempRemoveLocked e c) = ic_max c" "ic_free (idempRemoveLocked e c) = ic_free c"
    using rel by (simp_all add: relinks_def)
  have lk: "linked (idempRemoveLocked e c) (as @ bs)"
    unfolding c0 using l xs by (intro linked_unlink) (simp add: linked_def)
  have key: "keyAt (idempRemoveLocked e c) a = keyAt c a" for a by (rule viewOf_key[OF v])
  have inj: "keyAt c a = keyAt c e \<longleftrightarrow> a = e" if "a \<in> set xs" for a
    using r e that by (auto simp: repr_def inj_on_def)
  have "ic_entries (idempRemoveLocked e c) = AList.delete (keyAt c e) (ic_entries c)"
    using rel by (simp add: relinks_def)
  moreover have "set (remove1 e xs) = set xs - {e}" using l(2) by simp
  ultimately show "repr (idempRemoveLocked e c) (remove1 e xs)"
    using r rel inj lk unfolding repr_def key re[symmetric]
    by (auto simp: relinks_def distinct_delete inj_on_def)
qed


lemma repr_alloc:
  assumes "repr c xs" and "alloc e c = (a, c1)"
  shows "repr c1 xs" and "a \<notin> set xs" and "ic_heap c1 a = e" and "a < ic_free c1" and "ic_max c1 = ic_max c"
    and "\<And>b. b \<in> set xs \<Longrightarrow> ic_heap c1 b = ic_heap c b"
proof -
  have a: "a = ic_free c" and c1: "c1 = c\<lparr>ic_heap := (ic_heap c)(a := e), ic_free := Suc a\<rparr>"
    using assms(2) by (auto simp: alloc_def)
  show n: "a \<notin> set xs" using assms(1) by (auto simp: repr_def a)
  then show eq: "ic_heap c1 b = ic_heap c b" if "b \<in> set xs" for b using that by (auto simp: c1)
  show "repr c1 xs"
    using assms(1) n a unfolding repr_def
    by (auto simp: c1 linked_def inj_on_def less_Suc_eq)
qed (use assms(2) in \<open>auto simp: alloc_def\<close>)

lemma repr_link:
  assumes r: "repr c xs" and a: "a \<notin> set xs" "a < ic_free c" "keyAt c a \<notin> keyAt c ` set xs"
  shows "repr (linkFront a (c\<lparr>ic_entries := AList.update (keyAt c a) a (ic_entries c)\<rparr>)) (a # xs)"
    and "relinks (c\<lparr>ic_entries := AList.update (keyAt c a) a (ic_entries c)\<rparr>)
           (linkFront a (c\<lparr>ic_entries := AList.update (keyAt c a) a (ic_entries c)\<rparr>))"
proof -
  let ?c0 = "c\<lparr>ic_entries := AList.update (keyAt c a) a (ic_entries c)\<rparr>"
  show rel: "relinks ?c0 (linkFront a ?c0)" by (rule relinks_linkFront)
  have "linked ?c0 xs" using r by (simp add: repr_def linked_def)
  then have lk: "linked (linkFront a ?c0) (a # xs)" using a(1) by (rule linked_linkFront)
  have key: "keyAt (linkFront a ?c0) b = keyAt c b" for b using relinks_key[OF rel] by simp
  have same: "ic_entries (linkFront a ?c0) = AList.update (keyAt c a) a (ic_entries c)"
    "ic_free (linkFront a ?c0) = ic_free c" "ic_max (linkFront a ?c0) = ic_max c"
    using rel by (simp_all add: relinks_def)
  have "inj_on (keyAt c) (set (a # xs))" using r a by (simp add: repr_def)
  moreover have "map_of (AList.update (keyAt c a) a (ic_entries c)) k = Some b \<longleftrightarrow> b \<in> set (a # xs) \<and> keyAt c b = k" for k b
  proof (cases "k = keyAt c a")
    case True
    then have "b \<notin> set xs \<or> keyAt c b \<noteq> k" using a(3) by (metis image_eqI)
    with True show ?thesis by auto
  next
    case False
    with r show ?thesis by (auto simp: repr_def)
  qed
  ultimately show "repr (linkFront a ?c0) (a # xs)"
    using r a lk unfolding repr_def key same by (simp add: distinct_update)
qed

lemma shrink_one:
  assumes r: "repr c xs" and n: "int (length xs) \<le> ic_max c + 1"
  shows "\<exists>c'. shrinkLoop c = Some c' \<and> repr c' (take (nat (ic_max c)) xs)
     \<and> (\<forall>a. viewOf (ic_heap c' a) = viewOf (ic_heap c a)) \<and> ic_max c' = ic_max c"
proof (cases "int (length xs) \<le> ic_max c")
  case True
  have "shrinkLoop c = Some c" unfolding shrinkLoop_def by (subst while_option_unfold) (use True repr_length[OF r] in simp)
  with True r show ?thesis by simp
next
  case False
  have max: "0 < ic_max c" and l: "linked c xs" using r by (auto simp: repr_def)
  then have ne: "xs \<noteq> []" using False by auto
  then have t: "ic_tail c = Some (last xs)" "last xs \<in> set xs" using l by (auto simp: linked_def final_def)
  note rm = repr_remove[OF r t(2)]
  have "distinct xs" using l by (simp add: linked_def)
  then have b: "remove1 (last xs) xs = butlast xs"
    using ne remove1_split[of "butlast xs" "last xs" "[]"] by simp
  have len: "nat (ic_max c) = length xs - 1" using False n by linarith
  have "int (length xs - Suc 0) \<le> ic_max c" using n ne by (cases xs) auto
  then have "shrinkLoop c = Some (idempRemoveLocked (last xs) c)"
    unfolding shrinkLoop_def
    by (subst while_option_unfold, subst while_option_unfold)
      (use False n t rm(3) repr_length[OF r] repr_length[OF rm(1)] ne in \<open>simp add: b not_less\<close>)
  moreover have "take (nat (ic_max c)) xs = butlast xs" by (simp add: len butlast_conv_take)
  ultimately show ?thesis using rm b by auto
qed


subsection \<open>The list it implements\<close>

definition holds :: "'op idempCache \<Rightarrow> 'op lruEntry list \<Rightarrow> bool" where
  "holds c L \<longleftrightarrow> (\<exists>xs. repr c xs \<and> int (length xs) \<le> ic_max c \<and> L = map (\<lambda>a. viewOf (ic_heap c a)) xs)"

definition dropKey :: "string \<Rightarrow> 'op lruEntry list \<Rightarrow> 'op lruEntry list" where
  "dropKey k L = filter (\<lambda>e. fst e \<noteq> k) L"

definition entryOf :: "string \<Rightarrow> 'op lruEntry list \<Rightarrow> 'op lruEntry option" where
  "entryOf k L = find (\<lambda>e. fst e = k) L"

definition specLookup :: "string \<Rightarrow> string \<Rightarrow> 'op lruEntry list \<Rightarrow> 'op lruEntry list \<times> (idemp_error + 'op lruEntry option)" where
  "specLookup k fp L =
     (if k = '''' then (L, Inr None)
      else case entryOf k L of
        None \<Rightarrow> (L, Inr None)
      | Some e \<Rightarrow> if fst (snd e) \<noteq> fp then (L, Inl IdempotencyConflict) else (e # dropKey k L, Inr (Some e)))"

definition specStore ::
    "nat \<Rightarrow> ('op lruEntry \<Rightarrow> 'op lruEntry) \<Rightarrow> string \<Rightarrow> string \<Rightarrow> 'op lruEntry list \<Rightarrow> 'op lruEntry list" where
  "specStore mx upd k fp L =
     (let old = (case entryOf k L of Some e \<Rightarrow> if fst (snd e) = fp then e else (k, fp, None, None)
                 | None \<Rightarrow> (k, fp, None, None))
      in take mx (upd old # dropKey k L))"

lemma entryOf_view:
  assumes "repr c xs"
  shows "entryOf k (map (\<lambda>a. viewOf (ic_heap c a)) xs) = map_option (\<lambda>a. viewOf (ic_heap c a)) (map_of (ic_entries c) k)"
proof (cases "map_of (ic_entries c) k")
  case None
  then have "\<forall>a \<in> set xs. keyAt c a \<noteq> k" using assms by (auto simp: repr_def)
  with None show ?thesis by (auto simp: entryOf_def find_None_iff)
next
  case (Some a)
  then have a: "a \<in> set xs" "keyAt c a = k" using assms by (auto simp: repr_def)
  then obtain as bs where xs: "xs = as @ a # bs" by (meson split_list)
  have "\<forall>b \<in> set as. keyAt c b \<noteq> k"
    using assms a xs by (auto simp: repr_def inj_on_def linked_def)
  then have "find (\<lambda>e. fst e = k) (map (\<lambda>a. viewOf (ic_heap c a)) as @ v) = find (\<lambda>e. fst e = k) v" for v
    by (induction as) auto
  with Some a show ?thesis by (simp add: entryOf_def xs)
qed

lemma dropKey_view:
  assumes "repr c xs" and "a \<in> set xs" and "keyAt c a = k"
  shows "dropKey k (map (\<lambda>a. viewOf (ic_heap c a)) xs) = map (\<lambda>a. viewOf (ic_heap c a)) (remove1 a xs)"
proof -
  have "remove1 a xs = filter (\<lambda>b. b \<noteq> a) xs"
    using assms by (simp add: repr_def linked_def distinct_remove1_removeAll removeAll_filter_not_eq eq_commute)
  also have "\<dots> = filter (\<lambda>b. keyAt c b \<noteq> k) xs"
    using assms by (intro filter_cong) (auto simp: repr_def inj_on_def)
  finally show ?thesis by (simp add: dropKey_def filter_map comp_def)
qed

lemma dropKey_absent:
  assumes "repr c xs" and "map_of (ic_entries c) k = None"
  shows "dropKey k (map (\<lambda>a. viewOf (ic_heap c a)) xs) = map (\<lambda>a. viewOf (ic_heap c a)) xs"
proof -
  have "\<forall>a \<in> set xs. keyAt c a \<noteq> k" using assms by (auto simp: repr_def)
  then show ?thesis by (simp add: dropKey_def)
qed

lemma holds_lookup:
  assumes "holds c L"
  shows "\<exists>c' L' r. lookup k fp c = (c', r) \<and> specLookup k fp L = (L', map_sum id (map_option viewOf) r)
     \<and> holds c' L' \<and> ic_max c' = ic_max c"
proof -
  obtain xs where r: "repr c xs" and n: "int (length xs) \<le> ic_max c" and L: "L = map (\<lambda>a. viewOf (ic_heap c a)) xs"
    using assms by (auto simp: holds_def)
  show ?thesis
  proof (cases "k = '''' \<or> map_of (ic_entries c) k = None
      \<or> ie_fp (ic_heap c (the (map_of (ic_entries c) k))) \<noteq> fp")
    case True
    then show ?thesis using assms entryOf_view[OF r, of k]
      by (auto simp: lookup_def specLookup_def L viewOf_def split: option.splits)
  next
    case False
    then obtain e where e: "map_of (ic_entries c) k = Some e" "ie_fp (ic_heap c e) = fp" "k \<noteq> ''''" by auto
    then have ex: "e \<in> set xs" "keyAt c e = k" using r by (auto simp: repr_def)
    let ?c1 = "moveFrontLocked e c"
    note mv = repr_moveFront[OF r ex(1)]
    have v: "viewOf (ic_heap ?c1 a) = viewOf (ic_heap c a)" "ic_max ?c1 = ic_max c" for a
      using mv(2) by (simp_all add: relinks_def)
    have len: "length (e # remove1 e xs) = length xs"
      using ex(1) length_pos_if_in_set[OF ex(1)] by (simp add: length_remove1)
    have "holds ?c1 (viewOf (ic_heap c e) # dropKey k L)"
      unfolding holds_def L dropKey_view[OF r ex]
      using mv(1) n len by (intro exI[of _ "e # remove1 e xs"]) (auto simp: v simp del: length_Cons)
    then show ?thesis
      using e entryOf_view[OF r, of k] v by (simp add: lookup_def specLookup_def L viewOf_def Let_def)
  qed
qed


text \<open>A new entry in front.\<close>

lemma holds_insert:
  assumes r: "repr c xs" and n: "int (length xs) \<le> ic_max c" and a: "alloc e c = (a, c1)"
  shows "\<exists>c'. insertFrontLocked a c1 = Some c' \<and> ic_max c' = ic_max c
    \<and> holds c' (take (nat (ic_max c)) (viewOf e # dropKey (ie_key e) (map (\<lambda>a. viewOf (ic_heap c a)) xs)))"
proof -
  note al = repr_alloc[OF r a]
  let ?k = "ie_key e"
  have L: "map (\<lambda>a. viewOf (ic_heap c1 a)) xs = map (\<lambda>a. viewOf (ic_heap c a)) xs" using al(6) by simp
  let ?c2 = "case map_of (ic_entries c1) ?k of Some old \<Rightarrow> idempRemoveLocked old c1 | None \<Rightarrow> c1"
  obtain ys where ys: "repr ?c2 ys" "set ys \<subseteq> set xs" "length ys \<le> length xs"
    "dropKey ?k (map (\<lambda>a. viewOf (ic_heap c a)) xs) = map (\<lambda>a. viewOf (ic_heap c1 a)) ys"
    "\<And>a. viewOf (ic_heap ?c2 a) = viewOf (ic_heap c1 a)" "ic_max ?c2 = ic_max c" "ic_free ?c2 = ic_free c1"
    "?k \<notin> keyAt c1 ` set ys"
  proof (cases "map_of (ic_entries c1) ?k")
    case None
    then have "?k \<notin> keyAt c1 ` set xs" using al(1) by (auto simp: repr_def)
    with None show ?thesis
      using that[of xs] al dropKey_absent[OF al(1) None] L by auto
  next
    case (Some old)
    then have old: "old \<in> set xs" "keyAt c1 old = ?k" using al(1) by (auto simp: repr_def)
    have "?k \<notin> keyAt c1 ` set (remove1 old xs)"
      using al(1) old by (auto simp: repr_def linked_def inj_on_def)
    with Some show ?thesis
      using that[of "remove1 old xs"] repr_remove[OF al(1) old(1)] al(5) dropKey_view[OF al(1) old] L
      by (auto simp: length_remove1 set_remove1_subset)
  qed
  let ?c3 = "linkFront a (?c2\<lparr>ic_entries := AList.update ?k a (ic_entries ?c2)\<rparr>)"
  have key: "keyAt ?c2 b = keyAt c1 b" for b by (rule viewOf_key[OF ys(5)])
  have ka: "keyAt ?c2 a = ?k" using key[of a] al(3) by simp
  have lk: "repr ?c3 (a # ys)" "relinks (?c2\<lparr>ic_entries := AList.update ?k a (ic_entries ?c2)\<rparr>) ?c3"
    using repr_link[OF ys(1), of a] ys al ka by (auto simp: key)
  have v: "viewOf (ic_heap ?c3 b) = viewOf (ic_heap c1 b)" "ic_max ?c3 = ic_max c" for b
    using lk(2) ys(5,6) by (simp_all add: relinks_def)
  have "int (length (a # ys)) \<le> ic_max ?c3 + 1" using n ys(3) v(2) by simp
  from shrink_one[OF lk(1) this] obtain c' where c': "shrinkLoop ?c3 = Some c'"
    "repr c' (take (nat (ic_max c)) (a # ys))" "\<And>b. viewOf (ic_heap c' b) = viewOf (ic_heap c1 b)" "ic_max c' = ic_max c"
    using v by auto
  have "insertFrontLocked a c1 = Some c'"
    using c'(1) al(3) by (simp add: insertFrontLocked_def Let_def)
  moreover have "holds c' (take (nat (ic_max c)) (viewOf e # map (\<lambda>a. viewOf (ic_heap c1 a)) ys))"
    unfolding holds_def using c' al(3) r
    by (intro exI[of _ "take (nat (ic_max c)) (a # ys)"]) (auto simp: take_map[symmetric] repr_def)
  ultimately show ?thesis using c'(4) ys(4) by auto
qed


text \<open>Both stores: \<open>upd\<close> writes the plan or the result into the entry.\<close>

lemma holds_update:
  assumes h: "holds c L" and e: "map_of (ic_entries c) k = Some e" and x: "x = f (ic_heap c e)"
    and f: "\<And>y. ie_key (f y) = ie_key y" "\<And>y. ie_prev (f y) = ie_prev y" "\<And>y. ie_next (f y) = ie_next y"
  shows "holds (moveFrontLocked e (c\<lparr>ic_heap := (ic_heap c)(e := x)\<rparr>)) (viewOf x # dropKey k L)"
    and "ic_max (moveFrontLocked e (c\<lparr>ic_heap := (ic_heap c)(e := x)\<rparr>)) = ic_max c"
    and "length (dropKey k L) < nat (ic_max c)"
proof -
  let ?c0 = "c\<lparr>ic_heap := (ic_heap c)(e := x)\<rparr>"
  obtain xs where r: "repr c xs" and n: "int (length xs) \<le> ic_max c" and L: "L = map (\<lambda>a. viewOf (ic_heap c a)) xs"
    using h by (auto simp: holds_def)
  have ex: "e \<in> set xs" "keyAt c e = k" using r e by (auto simp: repr_def)
  have key: "keyAt ?c0 a = keyAt c a" for a using x f(1) by simp
  have "dll ((ic_heap c)(e := x)) p ys q = dll (ic_heap c) p ys q" for p ys q
    by (induction ys arbitrary: p) (auto simp: x f)
  then have "linked ?c0 xs" using r by (simp add: linked_def repr_def)
  then have r0: "repr ?c0 xs" using r key unfolding repr_def by (simp add: inj_on_def)
  note mv = repr_moveFront[OF r0 ex(1)]
  show m: "ic_max (moveFrontLocked e ?c0) = ic_max c" using mv(2) by (simp add: relinks_def)
  have v: "viewOf (ic_heap (moveFrontLocked e ?c0) a) = viewOf (ic_heap ?c0 a)" for a using mv(2) by (simp add: relinks_def)
  have d: "distinct xs" using r by (simp add: repr_def linked_def)
  then have eq: "map (\<lambda>a. viewOf (ic_heap ?c0 a)) (remove1 e xs) = dropKey k L"
    unfolding L dropKey_view[OF r ex] by auto
  have len: "length (e # remove1 e xs) = length xs" using ex(1) length_pos_if_in_set[OF ex(1)] by (simp add: length_remove1)
  then show "length (dropKey k L) < nat (ic_max c)" using n by (simp add: eq[symmetric])
  show "holds (moveFrontLocked e ?c0) (viewOf x # dropKey k L)"
    unfolding holds_def eq[symmetric]
    using mv(1) n len m by (intro exI[of _ "e # remove1 e xs"]) (simp add: v del: length_Cons)
qed

lemma holds_new:
  assumes h: "holds c L" and a: "alloc e c = (a, c1)"
  shows "\<exists>c'. insertFrontLocked a c1 = Some c' \<and> ic_max c' = ic_max c
    \<and> holds c' (take (nat (ic_max c)) (viewOf e # dropKey (ie_key e) L))"
  using h holds_insert[OF _ _ a] by (auto simp: holds_def)

lemma holds_entryOf: "holds c L \<Longrightarrow>
    entryOf k L = map_option (\<lambda>a. viewOf (ic_heap c a)) (map_of (ic_entries c) k)"
  by (auto simp: holds_def entryOf_view)

definition putPlan :: "'op Plan option \<Rightarrow> 'op lruEntry \<Rightarrow> 'op lruEntry" where
  "putPlan p e = (case e of (k, fp, _, r) \<Rightarrow> (k, fp, p, r))"

definition putApply :: "'op ApplyResult option \<Rightarrow> 'op lruEntry \<Rightarrow> 'op lruEntry" where
  "putApply r e = (case e of (k, fp, p, _) \<Rightarrow> (k, fp, p, r))"

lemma take_front: "length xs < n \<Longrightarrow> take n (x # xs) = x # xs"
  by simp

lemma holds_storePlan:
  assumes h: "holds c L" and k: "k \<noteq> ''''" "p \<noteq> None"
  shows "\<exists>c'. storePlan k fp p c = Some c' \<and> ic_max c' = ic_max c
    \<and> holds c' (specStore (nat (ic_max c)) (putPlan (clonePlan p)) k fp L)"
proof (cases "\<exists>e. map_of (ic_entries c) k = Some e \<and> ie_fp (ic_heap c e) = fp")
  case True
  then obtain e where e: "map_of (ic_entries c) k = Some e" "ie_fp (ic_heap c e) = fp" by blast
  note u = holds_update[OF h e(1) refl, of "\<lambda>y. y\<lparr>ie_plan := clonePlan p\<rparr>"]
  from e k u show ?thesis
    by (auto simp: storePlan_def specStore_def holds_entryOf[OF h] take_front putPlan_def viewOf_def)
next
  case False
  obtain a c1 where a: "alloc (nilEntry\<lparr>ie_key := k, ie_fp := fp, ie_plan := clonePlan p\<rparr>) c = (a, c1)" by fastforce
  from False k a holds_new[OF h a] show ?thesis
    by (auto simp: storePlan_def specStore_def holds_entryOf[OF h] putPlan_def viewOf_def nilEntry_def split: option.splits)
qed

lemma holds_storeApply:
  assumes h: "holds c L" and k: "k \<noteq> ''''" "r \<noteq> None"
  shows "\<exists>c'. storeApply k fp r c = Some c' \<and> ic_max c' = ic_max c
    \<and> holds c' (specStore (nat (ic_max c)) (putApply (cloneApply r)) k fp L)"
proof (cases "\<exists>e. map_of (ic_entries c) k = Some e \<and> ie_fp (ic_heap c e) = fp")
  case True
  then obtain e where e: "map_of (ic_entries c) k = Some e" "ie_fp (ic_heap c e) = fp" by blast
  note u = holds_update[OF h e(1) refl, of "\<lambda>y. y\<lparr>ie_apply := cloneApply r\<rparr>"]
  from e k u show ?thesis
    by (auto simp: storeApply_def specStore_def holds_entryOf[OF h] take_front putApply_def viewOf_def)
next
  case False
  obtain a c1 where a: "alloc (nilEntry\<lparr>ie_key := k, ie_fp := fp, ie_apply := cloneApply r\<rparr>) c = (a, c1)" by fastforce
  from False k a holds_new[OF h a] show ?thesis
    by (auto simp: storeApply_def specStore_def holds_entryOf[OF h] putApply_def viewOf_def nilEntry_def split: option.splits)
qed

lemma holds_evict:
  assumes h: "holds c L" and k: "k \<noteq> ''''"
  shows "holds (evict k c) (dropKey k L)" and "ic_max (evict k c) = ic_max c"
proof -
  obtain xs where r: "repr c xs" and n: "int (length xs) \<le> ic_max c" and L: "L = map (\<lambda>a. viewOf (ic_heap c a)) xs"
    using h by (auto simp: holds_def)
  have "holds (evict k c) (dropKey k L) \<and> ic_max (evict k c) = ic_max c"
  proof (cases "map_of (ic_entries c) k")
    case None
    with h k dropKey_absent[OF r None] show ?thesis by (simp add: evict_def L)
  next
    case (Some e)
    then have ex: "e \<in> set xs" "keyAt c e = k" using r by (auto simp: repr_def)
    note rm = repr_remove[OF r ex(1)]
    have "length (remove1 e xs) \<le> length xs" by (simp add: length_remove1)
    then have "holds (idempRemoveLocked e c) (dropKey k L)"
      unfolding holds_def L dropKey_view[OF r ex] using rm n
      by (intro exI[of _ "remove1 e xs"]) simp
    with Some k rm show ?thesis by (simp add: evict_def)
  qed
  then show "holds (evict k c) (dropKey k L)" and "ic_max (evict k c) = ic_max c" by blast+
qed

lemma holds_clear: "holds c L \<Longrightarrow> holds (clear c) [] \<and> ic_max (clear c) = ic_max c"
  by (auto simp: holds_def clear_def repr_def linked_def intro!: exI[of _ "[]"])

lemma holds_new_cache: "holds (newIdempCache mx) []"
  by (auto simp: holds_def newIdempCache_def repr_def linked_def defaultIdempotencyMax_def intro!: exI[of _ "[]"])


subsection \<open>Sequences of operations\<close>

datatype 'op cacheOp =
    OpLookup string string
  | OpPlan string string "'op Plan"
  | OpApply string string "'op ApplyResult"
  | OpEvict string
  | OpClear

type_synonym 'op cacheOut = "idemp_error + 'op lruEntry option"

fun cacheStep :: "'op cacheOp \<Rightarrow> 'op idempCache \<Rightarrow> ('op idempCache \<times> 'op cacheOut) option" where
  "cacheStep (OpLookup k fp) c = (case lookup k fp c of (c', r) \<Rightarrow> Some (c', map_sum id (map_option viewOf) r))"
| "cacheStep (OpPlan k fp p) c = map_option (\<lambda>c'. (c', Inr None)) (storePlan k fp (Some p) c)"
| "cacheStep (OpApply k fp r) c = map_option (\<lambda>c'. (c', Inr None)) (storeApply k fp (Some r) c)"
| "cacheStep (OpEvict k) c = Some (evict k c, Inr None)"
| "cacheStep OpClear c = Some (clear c, Inr None)"

fun lruStep :: "nat \<Rightarrow> 'op cacheOp \<Rightarrow> 'op lruEntry list \<Rightarrow> 'op lruEntry list \<times> 'op cacheOut" where
  "lruStep mx (OpLookup k fp) L = specLookup k fp L"
| "lruStep mx (OpPlan k fp p) L =
     (if k = '''' then L else specStore mx (putPlan (clonePlan (Some p))) k fp L, Inr None)"
| "lruStep mx (OpApply k fp r) L =
     (if k = '''' then L else specStore mx (putApply (cloneApply (Some r))) k fp L, Inr None)"
| "lruStep mx (OpEvict k) L = (if k = '''' then L else dropKey k L, Inr None)"
| "lruStep mx OpClear L = ([], Inr None)"

interpretation lru: implements "\<lambda>c L. holds c L \<and> nat (ic_max c) = mx" cacheStep "lruStep mx" for mx
proof unfold_locales
  fix c :: "'a idempCache" and L x
  assume h: "holds c L \<and> nat (ic_max c) = mx"
  show "\<exists>c'. cacheStep x c = Some (c', snd (lruStep mx x L)) \<and> holds c' (fst (lruStep mx x L)) \<and> nat (ic_max c') = mx"
  proof (cases x)
    case (OpLookup k fp)
    with h holds_lookup[of c L k fp] show ?thesis by fastforce
  next
    case (OpPlan k fp p)
    with h holds_storePlan[of c L k "Some p" fp] show ?thesis by (cases "k = ''''") (auto simp: storePlan_def)
  next
    case (OpApply k fp r)
    with h holds_storeApply[of c L k "Some r" fp] show ?thesis by (cases "k = ''''") (auto simp: storeApply_def)
  next
    case (OpEvict k)
    with h holds_evict[of c L k] show ?thesis by (cases "k = ''''") (auto simp: evict_def)
  next
    case OpClear
    with h holds_clear[of c L] show ?thesis by simp
  qed
qed

lemma cache_run:
  "map_option snd (runSome cacheStep ops (newIdempCache mx)) =
   Some (snd (runSpec (lruStep (nat (if mx \<le> 0 then 256 else mx))) ops []))"
proof -
  have "holds (newIdempCache mx) [] \<and> nat (ic_max (newIdempCache mx)) = nat (if mx \<le> 0 then 256 else mx)"
    by (intro conjI holds_new_cache) (simp add: newIdempCache_def defaultIdempotencyMax_def)
  from lru.run_spec[OF this, of ops] show ?thesis by auto
qed

text \<open>(C36) The pointer-based cache is a least-recently-used list: over any sequence of operations from
  a new cache every operation returns, and each lookup returns exactly what a plain list of entries,
  most recently used first and cut at the capacity, returns.\<close>

theorem idemp_cache_is_lru:
  "map_option snd (runSome cacheStep ops (newIdempCache mx)) =
   Some (snd (runSpec (lruStep (nat (if mx \<le> 0 then 256 else mx))) ops []))"
  by (rule cache_run)


subsection \<open>Replays\<close>

fun opKey :: "'op cacheOp \<Rightarrow> string option" where
  "opKey (OpLookup k fp) = Some k"
| "opKey (OpPlan k fp p) = Some k"
| "opKey (OpApply k fp r) = Some k"
| "opKey (OpEvict k) = Some k"
| "opKey OpClear = None"

definition opKeys :: "'op cacheOp list \<Rightarrow> string set" where
  "opKeys ops = {k. Some k \<in> opKey ` set ops}"

text \<open>An entry is within reach when only the given keys are in front of it.\<close>

definition within :: "string set \<Rightarrow> 'op lruEntry \<Rightarrow> 'op lruEntry list \<Rightarrow> bool" where
  "within K e L \<longleftrightarrow> distinct (map fst L) \<and> (\<exists>pre post. L = pre @ e # post \<and> fst ` set pre \<subseteq> K)"

lemma within_mono: "within K e L \<Longrightarrow> K \<subseteq> K' \<Longrightarrow> within K' e L"
  by (auto simp: within_def)

lemma distinct_dropKey: "distinct (map fst L) \<Longrightarrow> distinct (map fst (dropKey k L))"
  unfolding dropKey_def by (rule distinct_map_filter)

lemma within_dropKey: "within K e L \<Longrightarrow> fst e \<noteq> k \<Longrightarrow> within K e (dropKey k L)"
proof -
  assume w: "within K e L" and k: "fst e \<noteq> k"
  then obtain pre post where "L = pre @ e # post" "fst ` set pre \<subseteq> K" by (auto simp: within_def)
  then have "dropKey k L = dropKey k pre @ e # dropKey k post" "fst ` set (dropKey k pre) \<subseteq> K"
    using k by (auto simp: dropKey_def)
  then show ?thesis using w distinct_dropKey[of L k] unfolding within_def by blast
qed

lemma within_front:
  assumes "within K e L" and "fst x = k" and "fst e \<noteq> k" and "finite K" and "card (insert k K) < mx"
  shows "within (insert k K) e (take mx (x # dropKey k L))"
proof -
  obtain pre post where L: "dropKey k L = pre @ e # post" "fst ` set pre \<subseteq> K" "distinct (map fst (dropKey k L))"
    using within_dropKey[OF assms(1,3)] by (auto simp: within_def)
  have k: "k \<notin> fst ` set (dropKey k L)" by (auto simp: dropKey_def)
  have d: "distinct (map fst (x # dropKey k L))" using L(3) k assms(2) by simp
  then have "distinct (map fst (x # pre))" using L(1) by auto
  then have "length (x # pre) = card (fst ` set (x # pre))" by (metis distinct_card length_map set_map)
  also have "\<dots> \<le> card (insert k K)" using L(2) assms(2,4) by (intro card_mono) auto
  finally have len: "length (x # pre) < mx" using assms(5) by simp
  then have "take mx (x # dropKey k L) = (x # pre) @ e # take (mx - length (x # pre) - 1) post"
    by (cases mx) (auto simp: L(1) take_Cons' Suc_diff_le)
  moreover have "distinct (map fst (take mx (x # dropKey k L)))" using d by (metis distinct_take take_map)
  moreover have "fst ` set (x # pre) \<subseteq> insert k K" using L(2) assms(2) by auto
  ultimately show ?thesis unfolding within_def by blast
qed

lemma entryOf_key: "entryOf k L = Some e \<Longrightarrow> fst e = k \<and> e \<in> set L"
  by (auto simp: entryOf_def find_Some_iff)

lemma fst_put [simp]: "fst (putPlan p e) = fst e" "fst (putApply r e) = fst e"
  by (simp_all add: putPlan_def putApply_def split: prod.splits)

lemma specStore_front:
  assumes "\<And>e. fst (upd e) = fst e"
  shows "\<exists>x. specStore mx upd k fp L = take mx (x # dropKey k L) \<and> fst x = k"
proof -
  let ?old = "case entryOf k L of Some e \<Rightarrow> if fst (snd e) = fp then e else (k, fp, None, None) | None \<Rightarrow> (k, fp, None, None)"
  have "fst ?old = k" by (auto dest: entryOf_key split: option.splits)
  then show ?thesis using assms by (intro exI[of _ "upd ?old"]) (simp add: specStore_def Let_def)
qed

lemma within_step:
  assumes w: "within K e L" and k: "opKey x = Some k" "fst e \<noteq> k" and K: "finite K" "card (insert k K) < mx"
  shows "within (insert k K) e (fst (lruStep mx x L))"
proof -
  have same: "within (insert k K) e L" by (rule within_mono[OF w]) blast
  have drop: "within (insert k K) e (dropKey k L)" by (rule within_mono[OF within_dropKey[OF w k(2)]]) blast
  have store: "within (insert k K) e (specStore mx upd k fp L)" if "\<And>e. fst (upd e) = fst e" for upd fp
    using specStore_front[OF that, where mx = mx and k = k and fp = fp and L = L] within_front[OF w _ k(2) K] by auto
  show ?thesis
  proof (cases x)
    case (OpLookup k' fp)
    with k have "k' = k" by simp
    moreover have "within (insert k K) e (y # dropKey k L)" if "fst y = k" for y
    proof -
      have "within (insert k K) e (take (Suc (length L + card (insert k K))) (y # dropKey k L))"
        by (rule within_front[OF w that k(2) K(1)]) simp
      moreover have "length (dropKey k L) \<le> length L" by (simp add: dropKey_def)
      ultimately show ?thesis by simp
    qed
    ultimately show ?thesis
      using OpLookup same by (auto simp: specLookup_def dest: entryOf_key split: option.splits)
  qed (use k same drop store in auto)
qed

lemma within_run:
  assumes "within K e L" and "finite K" and "\<forall>x \<in> set ops. x \<noteq> OpClear \<and> opKey x \<noteq> Some (fst e)"
    and "card (K \<union> opKeys ops) < mx"
  shows "within (K \<union> opKeys ops) e (fst (runSpec (lruStep mx) ops L))"
  using assms
proof (induction ops arbitrary: K L)
  case Nil
  then show ?case by (simp add: opKeys_def)
next
  case (Cons x ops)
  obtain k where k: "opKey x = Some k" "k \<noteq> fst e" using Cons.prems(3) by (cases x) auto
  have "opKeys ops \<subseteq> (\<lambda>x. the (opKey x)) ` set ops" unfolding opKeys_def by (auto simp: image_iff) (metis option.sel)
  then have fin: "finite (opKeys ops)" by (rule finite_surj[rotated]) simp
  have ks: "insert k K \<union> opKeys ops = K \<union> opKeys (x # ops)" using k by (auto simp: opKeys_def)
  have "card (insert k K) \<le> card (insert k K \<union> opKeys ops)" using Cons.prems(2) fin by (intro card_mono) auto
  then have "card (insert k K) < mx" using Cons.prems(4) ks by simp
  from within_step[OF Cons.prems(1) k(1) _ Cons.prems(2) this] k(2)
  have "within (insert k K) e (fst (lruStep mx x L))" by simp
  from Cons.IH[OF this] Cons.prems ks show ?case by (auto split: prod.splits)
qed


lemma runSpec_append:
  "runSpec step (xs @ ys) l =
     (case runSpec step xs l of (l1, r1) \<Rightarrow> (case runSpec step ys l1 of (l2, r2) \<Rightarrow> (l2, r1 @ r2)))"
  by (induction xs arbitrary: l) (auto split: prod.splits)

lemma distinct_lruStep: "distinct (map fst L) \<Longrightarrow> distinct (map fst (fst (lruStep mx x L)))"
proof -
  assume d: "distinct (map fst L)"
  have front: "distinct (map fst (y # dropKey k L))" if "fst y = k" for y k
    using that distinct_dropKey[OF d, of k] by (auto simp: dropKey_def)
  have store: "distinct (map fst (specStore mx upd k fp L))" if u: "\<And>e. fst (upd e) = fst e" for upd k fp
  proof -
    obtain y where "specStore mx upd k fp L = take mx (y # dropKey k L)" "fst y = k"
      using specStore_front[OF u] by metis
    with front show ?thesis by (metis distinct_take take_map)
  qed
  show ?thesis
  proof (cases x)
    case (OpLookup k fp)
    have "distinct (map fst (e # dropKey k L))" if "entryOf k L = Some e" for e
      using front entryOf_key[OF that] by blast
    with OpLookup d show ?thesis by (cases "entryOf k L") (auto simp: specLookup_def)
  qed (use d store distinct_dropKey[OF d] in auto)
qed

lemma distinct_runSpec: "distinct (map fst L) \<Longrightarrow> distinct (map fst (fst (runSpec (lruStep mx) ops L)))"
proof (induction ops arbitrary: L)
  case (Cons x ops)
  obtain L1 r where s: "lruStep mx x L = (L1, r)" by fastforce
  then have "distinct (map fst L1)" using distinct_lruStep[OF Cons.prems, of mx x] by simp
  from Cons.IH[OF this] s show ?case by (auto split: prod.splits)
qed simp

lemma within_entryOf: "within K e L \<Longrightarrow> entryOf (fst e) L = Some e"
proof -
  assume w: "within K e L"
  then obtain pre post where L: "L = pre @ e # post" "fst e \<notin> fst ` set pre" by (auto simp: within_def)
  have "find (\<lambda>x. fst x = fst e) (pre @ e # post) = Some e" using L(2) by (induction pre) auto
  then show ?thesis by (simp add: entryOf_def L(1))
qed

lemma within_stored:
  assumes "distinct (map fst L)" and "k \<noteq> ''''" and "0 < mx"
  shows "\<exists>p. within {} (k, fp, p, cloneApply (Some r)) (fst (lruStep mx (OpApply k fp r) L))"
proof -
  let ?old = "case entryOf k L of Some e \<Rightarrow> if fst (snd e) = fp then e else (k, fp, None, None) | None \<Rightarrow> (k, fp, None, None)"
  have "fst ?old = k" "fst (snd ?old) = fp" by (auto dest: entryOf_key split: option.splits)
  then obtain p q where old: "?old = (k, fp, p, q)" by (cases ?old) auto
  let ?L' = "fst (lruStep mx (OpApply k fp r) L)"
  have "?L' = take mx ((k, fp, p, cloneApply (Some r)) # dropKey k L)"
    using assms(2) old by (simp add: specStore_def Let_def putApply_def)
  moreover have "distinct (map fst ?L')" using assms(1) by (rule distinct_lruStep)
  ultimately show ?thesis using assms(3) unfolding within_def
    by (intro exI[of _ p] conjI exI[of _ "[]"] exI[of _ "take (mx - 1) (dropKey k L)"]) (auto simp: take_Cons')
qed

text \<open>A committed change is replayed: once the result of an apply is stored under a key, a later
  lookup of the key with the same fingerprint returns exactly that result, whatever happened before
  and as long as fewer other keys than the capacity were used since and the cache was not cleared.\<close>

theorem apply_result_is_replayed:
  assumes "k \<noteq> ''''" and "\<forall>x \<in> set ops. x \<noteq> OpClear \<and> opKey x \<noteq> Some k"
    and "card (opKeys ops) < nat (if mx \<le> 0 then 256 else mx)"
  shows "\<exists>outs p. map_option snd (runSome cacheStep (before @ OpApply k fp r # ops @ [OpLookup k fp]) (newIdempCache mx))
     = Some (outs @ [Inr (Some (k, fp, p, cloneApply (Some r)))])"
proof -
  define cap where "cap = nat (if mx \<le> 0 then 256 else mx)"
  have cap: "0 < cap" by (auto simp: cap_def)
  let ?step = "lruStep cap"
  obtain L0 o0 where 0: "runSpec ?step before [] = (L0, o0)" by fastforce
  have d: "distinct (map fst L0)" using distinct_runSpec[of "[]" cap before] 0 by simp
  obtain L1 o1 where 1: "lruStep cap (OpApply k fp r) L0 = (L1, o1)" by fastforce
  from within_stored[OF d assms(1) cap, of fp r] 1 obtain p where w: "within {} (k, fp, p, cloneApply (Some r)) L1" by auto
  obtain L2 o2 where 2: "runSpec ?step ops L1 = (L2, o2)" by fastforce
  have "within ({} \<union> opKeys ops) (k, fp, p, cloneApply (Some r)) (fst (runSpec ?step ops L1))"
    by (rule within_run[OF w]) (use assms in \<open>auto simp: cap_def\<close>)
  then have "entryOf k L2 = Some (k, fp, p, cloneApply (Some r))"
    using 2 within_entryOf by fastforce
  then obtain L3 where 3: "lruStep cap (OpLookup k fp) L2 = (L3, Inr (Some (k, fp, p, cloneApply (Some r))))"
    using assms(1) by (simp add: specLookup_def)
  have "snd (runSpec ?step (before @ OpApply k fp r # ops @ [OpLookup k fp]) []) =
      (o0 @ o1 # o2) @ [Inr (Some (k, fp, p, cloneApply (Some r)))]"
    using 0 1 2 3 by (simp add: runSpec_append split: prod.splits del: lruStep.simps)
  then show ?thesis using cache_run[of _ mx] unfolding cap_def by metis
qed


definition exResult :: "string \<Rightarrow> unit ApplyResult" where
  "exResult rv =
     \<lparr>ar_Plan = \<lparr>pl_PreviousRevision = ''r0'', pl_CandidateRevision = rv, pl_Drifted = False, pl_Diff = None,
        pl_Warnings = None, pl_Operations = Some [()]\<rparr>,
      ar_Applied = True, ar_Generation = 2, ar_RuntimeRevision = rv, ar_AuditEventID = ''aud-1''\<rparr>"

theorem apply_result_is_replayed_witness:
  "\<exists>outs p. map_option snd (runSome cacheStep
       [OpApply ''a'' ''f'' (exResult ''r1''), OpApply ''b'' ''g'' (exResult ''r2''), OpLookup ''b'' ''x'', OpLookup ''a'' ''f'']
       (newIdempCache 2))
     = Some (outs @ [Inr (Some (''a'', ''f'', p, cloneApply (Some (exResult ''r1''))))])"
proof -
  have "opKeys [OpApply ''b'' ''g'' (exResult ''r2''), OpLookup ''b'' ''x''] = {''b''}" by (auto simp: opKeys_def)
  then show ?thesis
    using apply_result_is_replayed[of "''a''" "[OpApply ''b'' ''g'' (exResult ''r2''), OpLookup ''b'' ''x'']" 2 "[]"
        "''f''" "exResult ''r1''"]
    by simp
qed

end
