(* ===== verification/Audit_Log.thy ===== *)
theory Audit_Log
  imports Config_Units
begin

text \<open>
  The audit log (\<open>internal/audit\<close>): redaction of events, the bounded ring and the fanout that
  records into the ring and then calls an optional hook. \<open>encoding/json\<close>'s decoder and
  encoder are arguments (\<open>None\<close> is their error), and so is the hook, of which only whether it
  failed matters. A nil receiver is \<open>None\<close>. A \<open>json.RawMessage\<close> is its bytes; the
  sources treat a nil one like an empty one.
\<close>

record RedactedEntry =
  re_Path :: string
  re_Op :: string
  re_Before :: string
  re_After :: string

record AuditEvent =
  ae_ID :: string
  ae_Time :: gotime
  ae_ActorID :: string
  ae_ActorClass :: string
  ae_Transport :: string
  ae_Capability :: string
  ae_Reason :: string
  ae_FlowID :: string
  ae_Previous :: string
  ae_Revision :: string
  ae_StoreGeneration :: "64 word"
  ae_Result :: string
  ae_ErrorCode :: string
  ae_Diff :: "RedactedEntry list"

subsection \<open>Redaction (redact.go, event.go)\<close>

definition redacted :: string where "redacted = ''[redacted]''"

definition secretKeys :: "string set" where
  "secretKeys = {''secret'', ''secretref'', ''token'', ''password'', ''authorization'', ''bearer'', ''credential'',
     ''credentials'', ''apikey'', ''api_key'', ''privatekey'', ''private_key'', ''cookie'', ''set-cookie'', ''setcookie''}"

definition secretPath :: "go_env \<Rightarrow> string \<Rightarrow> bool" where
  "secretPath u path =
     (let p = ToLower u path
      in \<exists>key \<in> secretKeys. p = key \<or> HasSuffix p (''.'' @ key) \<or> HasSuffix p (''/'' @ key))"

definition containsPrivateKey :: "string \<Rightarrow> bool" where
  "containsPrivateKey s \<longleftrightarrow> Contains s ''BEGIN'' \<and> Contains s ''PRIVATE''"

fun redactTree :: "go_env \<Rightarrow> json \<Rightarrow> json" where
  "redactTree u (JObject ms) =
     JObject (map (\<lambda>(k, child). (k, if ToLower u k \<in> secretKeys then JString redacted else redactTree u child)) ms)"
| "redactTree u (JArray xs) = JArray (map (redactTree u) xs)"
| "redactTree u (JString s) = JString (if containsPrivateKey s then redacted else s)"
| "redactTree u v = v"

definition quotedRedacted :: string where
  "quotedRedacted = CHR 0x22 # redacted @ [CHR 0x22]"

definition redactJSON :: "go_env \<Rightarrow> (string \<Rightarrow> json option) \<Rightarrow> (json \<Rightarrow> string option) \<Rightarrow> string \<Rightarrow> string" where
  "redactJSON u decode marshal raw0 =
     (let raw = TrimSpace u raw0
      in if raw = [] \<or> raw = ''null'' then raw
         else case decode raw of
           None \<Rightarrow> if containsPrivateKey raw then quotedRedacted else raw
         | Some tree \<Rightarrow> (case marshal (redactTree u tree) of None \<Rightarrow> raw | Some out \<Rightarrow> out))"

definition redactText :: "go_env \<Rightarrow> string \<Rightarrow> string" where
  "redactText u s =
     (if s = [] then s
      else if containsPrivateKey s then redacted
      else if HasPrefix (ToLower u (TrimSpace u s)) ''bearer '' then redacted
      else s)"

definition redactEntry :: "go_env \<Rightarrow> (string \<Rightarrow> json option) \<Rightarrow> (json \<Rightarrow> string option) \<Rightarrow> RedactedEntry \<Rightarrow> RedactedEntry" where
  "redactEntry u decode marshal d =
     (let before = redactJSON u decode marshal (re_Before d); after = redactJSON u decode marshal (re_After d);
          secret = secretPath u (re_Path d)
      in \<lparr>re_Path = re_Path d, re_Op = re_Op d,
          re_Before = (if secret then quotedRedacted else before),
          re_After = (if secret then quotedRedacted else after)\<rparr>)"

definition RedactEvent :: "go_env \<Rightarrow> (string \<Rightarrow> json option) \<Rightarrow> (json \<Rightarrow> string option) \<Rightarrow> AuditEvent \<Rightarrow> AuditEvent" where
  "RedactEvent u decode marshal ev =
     (let out = ev\<lparr>ae_Reason := redactText u (ae_Reason ev)\<rparr>
      in if length (ae_Diff out) > 0 then out\<lparr>ae_Diff := map (redactEntry u decode marshal) (ae_Diff out)\<rparr> else out)"

subsection \<open>The ring (ring.go)\<close>

record Ring =
  rg_max :: int
  rg_nextID :: "64 word"
  rg_events :: "AuditEvent list"

definition DefaultMax :: int where "DefaultMax = 128"

definition NewRing :: "int \<Rightarrow> Ring" where
  "NewRing mx = \<lparr>rg_max = (if mx \<le> 0 then DefaultMax else mx), rg_nextID = 0, rg_events = []\<rparr>"

definition auditID :: "64 word \<Rightarrow> string" where
  "auditID n = ''aud-'' @ formatNat (unat n)"

definition ringAppend :: "Ring option \<Rightarrow> AuditEvent \<Rightarrow> Ring option \<times> AuditEvent" where
  "ringAppend ro ev =
     (case ro of None \<Rightarrow> (None, ev)
      | Some r \<Rightarrow>
        (let n = rg_nextID r + 1; ev' = ev\<lparr>ae_ID := auditID n\<rparr>; evs = rg_events r @ [ev'];
             evs' = (if int (length evs) > rg_max r then drop (nat (int (length evs) - rg_max r)) evs else evs)
         in (Some (r\<lparr>rg_nextID := n, rg_events := evs'\<rparr>), ev')))"

definition ringList :: "Ring option \<Rightarrow> int \<Rightarrow> AuditEvent slice" where
  "ringList ro limit0 =
     (case ro of None \<Rightarrow> None
      | Some r \<Rightarrow>
        (let limit = (if limit0 \<le> 0 \<or> limit0 > 100 then 100 else limit0);
             n = length (rg_events r);
             limit' = (if limit > int n then int n else limit)
         in Some (map (\<lambda>i. rg_events r ! (n - 1 - i)) [0..<nat limit'])))"

text \<open>The loop of \<open>Get\<close>, from the newest event down.\<close>

fun ringGetLoop :: "AuditEvent list \<Rightarrow> string \<Rightarrow> nat \<Rightarrow> AuditEvent option" where
  "ringGetLoop evs key 0 = None"
| "ringGetLoop evs key (Suc i) = (if ae_ID (evs ! i) = key then Some (evs ! i) else ringGetLoop evs key i)"

definition ringGet :: "Ring option \<Rightarrow> string \<Rightarrow> AuditEvent option" where
  "ringGet ro key =
     (case ro of None \<Rightarrow> None
      | Some r \<Rightarrow> if key = [] then None else ringGetLoop (rg_events r) key (length (rg_events r)))"

definition ringLen :: "Ring option \<Rightarrow> nat" where
  "ringLen ro = (case ro of None \<Rightarrow> 0 | Some r \<Rightarrow> length (rg_events r))"

subsection \<open>The fanout (sink.go)\<close>

record Fanout =
  fo_Ring :: "Ring option"
  fo_Hook :: "(AuditEvent \<Rightarrow> bool) option"
  fo_HookErrs :: "64 word"

definition NewFanout :: "int \<Rightarrow> (AuditEvent \<Rightarrow> bool) option \<Rightarrow> Fanout" where
  "NewFanout mx hook = \<lparr>fo_Ring = Some (NewRing mx), fo_Hook = hook, fo_HookErrs = 0\<rparr>"

definition auditRecord :: "go_env \<Rightarrow> (string \<Rightarrow> json option) \<Rightarrow> (json \<Rightarrow> string option) \<Rightarrow>
    Fanout option \<Rightarrow> AuditEvent \<Rightarrow> Fanout option \<times> AuditEvent" where
  "auditRecord u decode marshal fo ev =
     (case fo of None \<Rightarrow> (None, ev)
      | Some f \<Rightarrow>
        (case ringAppend (fo_Ring f) (RedactEvent u decode marshal ev) of (ring', ev') \<Rightarrow>
           let failed = (case fo_Hook f of None \<Rightarrow> False | Some emit \<Rightarrow> emit ev')
           in (Some (f\<lparr>fo_Ring := ring', fo_HookErrs := fo_HookErrs f + (if failed then 1 else 0)\<rparr>), ev')))"

definition DeliveryFailures :: "Fanout option \<Rightarrow> 64 word" where
  "DeliveryFailures fo = (case fo of None \<Rightarrow> 0 | Some f \<Rightarrow> fo_HookErrs f)"

definition auditList :: "Fanout option \<Rightarrow> int \<Rightarrow> AuditEvent slice" where
  "auditList fo limit = (case fo of None \<Rightarrow> None | Some f \<Rightarrow> ringList (fo_Ring f) limit)"

definition auditGet :: "Fanout option \<Rightarrow> string \<Rightarrow> AuditEvent option" where
  "auditGet fo key = (case fo of None \<Rightarrow> None | Some f \<Rightarrow> ringGet (fo_Ring f) key)"

end
