(* ===== verification/Audit_Props.thy ===== *)
theory Audit_Props
  imports Audit_Log
begin

text \<open>
  The audit log as the history of everything recorded: what is listed and found is the newest part
  of that history, and no event in it carries a secret.
\<close>

subsection \<open>The history a log stands for\<close>

datatype audit_op = AuditRecord AuditEvent | AuditList int | AuditGet string | AuditFailures

datatype audit_result = AuditEvt AuditEvent | AuditPage "AuditEvent list" | AuditFound "AuditEvent option" | AuditCount "64 word"

definition auditStep :: "go_env \<Rightarrow> (string \<Rightarrow> json option) \<Rightarrow> (json \<Rightarrow> string option) \<Rightarrow>
    audit_op \<Rightarrow> Fanout \<Rightarrow> (Fanout \<times> audit_result) option" where
  "auditStep u decode marshal x f =
     (case x of
        AuditRecord ev \<Rightarrow> (case auditRecord u decode marshal (Some f) ev of (fo, ev') \<Rightarrow> map_option (\<lambda>f'. (f', AuditEvt ev')) fo)
      | AuditList limit \<Rightarrow> map_option (\<lambda>evs. (f, AuditPage evs)) (auditList (Some f) limit)
      | AuditGet key \<Rightarrow> Some (f, AuditFound (auditGet (Some f) key))
      | AuditFailures \<Rightarrow> Some (f, AuditCount (DeliveryFailures (Some f))))"

text \<open>The specification keeps everything ever recorded, and shows the newest \<open>mx\<close> events.\<close>

definition window :: "nat \<Rightarrow> 'a list \<Rightarrow> 'a list" where
  "window mx h = drop (length h - mx) h"

definition pageLimit :: "int \<Rightarrow> nat" where
  "pageLimit limit = (if limit \<le> 0 \<or> limit > 100 then 100 else nat limit)"

definition auditSpec :: "(AuditEvent \<Rightarrow> AuditEvent) \<Rightarrow> (AuditEvent \<Rightarrow> bool) \<Rightarrow> nat \<Rightarrow>
    audit_op \<Rightarrow> AuditEvent list \<Rightarrow> AuditEvent list \<times> audit_result" where
  "auditSpec redact fails mx x h =
     (case x of
        AuditRecord ev \<Rightarrow> (let ev' = (redact ev)\<lparr>ae_ID := auditID (of_nat (length h) + 1)\<rparr> in (h @ [ev'], AuditEvt ev'))
      | AuditList limit \<Rightarrow> (h, AuditPage (take (pageLimit limit) (rev (window mx h))))
      | AuditGet key \<Rightarrow> (h, AuditFound (find (\<lambda>e. ae_ID e = key) (rev (window mx h))))
      | AuditFailures \<Rightarrow> (h, AuditCount (of_nat (length (filter fails h)))))"

definition hookFails :: "(AuditEvent \<Rightarrow> bool) option \<Rightarrow> AuditEvent \<Rightarrow> bool" where
  "hookFails hook ev = (case hook of None \<Rightarrow> False | Some emit \<Rightarrow> emit ev)"

definition logs :: "(AuditEvent \<Rightarrow> bool) option \<Rightarrow> nat \<Rightarrow> Fanout \<Rightarrow> AuditEvent list \<Rightarrow> bool" where
  "logs hook mx f h \<longleftrightarrow> 0 < mx \<and> fo_Hook f = hook \<and> fo_HookErrs f = of_nat (length (filter (hookFails hook) h))
     \<and> (\<exists>r. fo_Ring f = Some r \<and> rg_max r = int mx \<and> rg_nextID r = of_nat (length h) \<and> rg_events r = window mx h)
     \<and> (\<forall>i < length h. ae_ID (h ! i) = auditID (of_nat (Suc i)))"

lemma auditID_not_Nil [simp]: "auditID n \<noteq> []"
  by (simp add: auditID_def)

lemma auditID_inject [simp]: "auditID m = auditID n \<longleftrightarrow> m = n"
  by (simp add: auditID_def unsigned_word_eqI word_unat_eq_iff)

lemma window_snoc: "0 < mx \<Longrightarrow>
   (if int (Suc (length (window mx h))) > int mx then drop (nat (int (Suc (length (window mx h))) - int mx)) (window mx h @ [x]) else window mx h @ [x])
   = window mx (h @ [x])"
  by (cases "length h < mx") (auto simp: window_def Suc_diff_le)

lemma ringGetLoop_find: "i \<le> length evs \<Longrightarrow> ringGetLoop evs key i = find (\<lambda>e. ae_ID e = key) (rev (take i evs))"
  by (induction i) (auto simp: take_Suc_conv_app_nth)

lemma page_rev:
  "map (\<lambda>i. xs ! (length xs - 1 - i)) [0..<nat (if limit > int (length xs) then int (length xs) else limit)] = take (nat limit) (rev xs)"
  by (intro nth_equalityI) (auto simp: rev_nth split: if_splits)

lemma ID_in_history: "logs hook mx f h \<Longrightarrow> e \<in> set h \<Longrightarrow> ae_ID e \<noteq> []"
  by (auto simp: logs_def in_set_conv_nth)

interpretation auditlog: implements "logs hook mx" "auditStep u decode marshal" "auditSpec (RedactEvent u decode marshal) (hookFails hook) mx"
  for hook mx u decode marshal
proof unfold_locales
  fix f h x
  assume l: "logs hook mx f h"
  then obtain r where r: "fo_Ring f = Some r" "rg_max r = int mx" "rg_nextID r = of_nat (length h)" "rg_events r = window mx h"
    by (auto simp: logs_def)
  have mx: "0 < mx" using l by (simp add: logs_def)
  show "\<exists>f'. auditStep u decode marshal x f = Some (f', snd (auditSpec (RedactEvent u decode marshal) (hookFails hook) mx x h))
      \<and> logs hook mx f' (fst (auditSpec (RedactEvent u decode marshal) (hookFails hook) mx x h))"
  proof (cases x)
    case (AuditRecord ev)
    show ?thesis
      using l r window_snoc[OF mx, of h] unfolding AuditRecord
      by (auto simp: auditStep_def auditRecord_def ringAppend_def auditSpec_def Let_def logs_def hookFails_def nth_append less_Suc_eq
          split: option.splits)
  next
    case (AuditList limit)
    then show ?thesis
      using l r page_rev[of "window mx h" "if limit \<le> 0 \<or> limit > 100 then 100 else limit"]
      by (auto simp: auditStep_def auditList_def ringList_def auditSpec_def Let_def pageLimit_def)
  next
    case (AuditGet key)
    have "ringGet (Some r) key = find (\<lambda>e. ae_ID e = key) (rev (window mx h))"
    proof (cases "key = []")
      case True
      have "\<forall>e \<in> set (window mx h). ae_ID e \<noteq> []"
        using ID_in_history[OF l] by (auto simp: window_def dest: in_set_dropD)
      then have "find (\<lambda>e. ae_ID e = []) (rev (window mx h)) = None" by (auto simp: find_None_iff)
      with True show ?thesis by (simp add: ringGet_def)
    next
      case False
      then show ?thesis using ringGetLoop_find[of "length (window mx h)" "window mx h" key] by (simp add: ringGet_def r(4))
    qed
    with AuditGet l r(1) show ?thesis by (simp add: auditStep_def auditGet_def auditSpec_def)
  next
    case AuditFailures
    with l show ?thesis by (simp add: auditStep_def DeliveryFailures_def auditSpec_def logs_def)
  qed
qed

lemma logs_new: "logs hook (nat (if mx \<le> 0 then 128 else mx)) (NewFanout mx hook) []"
  by (auto simp: logs_def NewFanout_def NewRing_def DefaultMax_def window_def)

text \<open>(C40) Over any sequence of operations the audit log returns exactly what the history of all
  recorded, redacted events determines: new ids in order, pages of the newest events first, events
  found by id among the newest \<open>max\<close>, and the number of failed deliveries.\<close>

theorem audit_log_is_history:
  "\<exists>f'. runSome (auditStep u decode marshal) ops (NewFanout mx hook) =
     Some (f', snd (runSpec (auditSpec (RedactEvent u decode marshal) (hookFails hook) (nat (if mx \<le> 0 then 128 else mx))) ops []))"
  using auditlog.run_spec[OF logs_new[of hook mx], of u decode marshal ops] by blast

subsection \<open>Recorded events stay until they are pushed out\<close>

definition records :: "audit_op list \<Rightarrow> nat" where
  "records ops = length (filter (\<lambda>x. \<exists>ev. x = AuditRecord ev) ops)"

lemma history_extends: "\<exists>h'. fst (runSpec (auditSpec redact fails mx) ops h) = h @ h' \<and> length h' = records ops"
proof (induction ops arbitrary: h)
  case (Cons x ops)
  obtain h1 r where s: "auditSpec redact fails mx x h = (h1, r)" by fastforce
  then obtain e where e: "h1 = h @ e" "length e = records [x]"
    by (cases x) (auto simp: auditSpec_def records_def Let_def)
  from Cons.IH[of h1] obtain h' where "fst (runSpec (auditSpec redact fails mx) ops h1) = h1 @ h'" "length h' = records ops" by blast
  with s e show ?case by (intro exI[of _ "e @ h'"]) (auto simp: records_def split: prod.splits)
qed (simp add: records_def)

lemma window_keeps:
  assumes "length h2 < mx"
  shows "\<exists>h1'. window mx (h1 @ x # h2) = h1' @ x # h2"
  using assms by (auto simp: window_def)

lemma find_rev_last: "P x \<Longrightarrow> \<forall>y \<in> set ys. \<not> P y \<Longrightarrow> find P (rev (xs @ x # ys)) = Some x"
proof (induction ys rule: rev_induct)
  case (snoc y ys)
  then show ?case by simp
qed simp

lemma later_ids_differ:
  assumes "logs hook mx f (h1 @ x # h2)" and "length h2 < 2 ^ 63" and "y \<in> set h2"
  shows "ae_ID y \<noteq> ae_ID x"
proof -
  have ids: "ae_ID ((h1 @ x # h2) ! i) = auditID (of_nat (Suc i))" if "i < length (h1 @ x # h2)" for i
    using assms(1) that unfolding logs_def by blast
  from assms(3) obtain j where j: "j < length h2" "y = h2 ! j" by (auto simp: in_set_conv_nth)
  have "ae_ID x = auditID (of_nat (Suc (length h1)))" using ids[of "length h1"] by simp
  moreover have "ae_ID y = auditID (of_nat (Suc (length h1 + Suc j)))"
    using ids[of "length h1 + Suc j"] j by (simp add: nth_append)
  moreover have "of_nat (Suc (length h1 + Suc j)) \<noteq> (of_nat (Suc (length h1)) :: 64 word)"
  proof
    assume "of_nat (Suc (length h1 + Suc j)) = (of_nat (Suc (length h1)) :: 64 word)"
    then have "of_nat (Suc j) = (0 :: 64 word)" by simp
    then have "(2 :: nat) ^ 64 dvd Suc j" by (simp add: word_of_nat_eq_0_iff del: of_nat_Suc)
    then have "2 ^ 64 \<le> Suc j" by (rule dvd_imp_le) simp
    with j(1) assms(2) show False by simp
  qed
  ultimately show ?thesis by simp
qed

text \<open>An event that was recorded is found under the id it was given as long as fewer events than
  the size of the ring were recorded after it, whatever was listed and looked up in between.\<close>

theorem audit_event_found:
  assumes "runSome (auditStep u decode marshal) ops1 (NewFanout mx hook) = Some (f, rs1)"
    and "auditRecord u decode marshal (Some f) ev = (Some f1, ev1)"
    and "runSome (auditStep u decode marshal) ops2 f1 = Some (f2, rs2)"
    and "int (records ops2) < (if mx \<le> 0 then 128 else mx)" and "mx < 2 ^ 63"
  shows "auditGet (Some f2) (ae_ID ev1) = Some ev1"
proof -
  let ?mx = "nat (if mx \<le> 0 then 128 else mx)"
  let ?spec = "auditSpec (RedactEvent u decode marshal) (hookFails hook) ?mx"
  from auditlog.run_spec[OF logs_new[of hook mx], of u decode marshal ops1] assms(1)
  obtain h where l: "logs hook ?mx f h" by auto
  have "auditStep u decode marshal (AuditRecord ev) f = Some (f1, AuditEvt ev1)"
    using assms(2) by (simp add: auditStep_def)
  with auditlog.step_spec[OF l, of u decode marshal "AuditRecord ev"]
  have l1: "logs hook ?mx f1 (h @ [ev1])" by (auto simp: auditSpec_def Let_def)
  from auditlog.run_spec[OF l1, of u decode marshal ops2] assms(3)
  have "logs hook ?mx f2 (fst (runSpec ?spec ops2 (h @ [ev1])))" by auto
  moreover from history_extends[of "RedactEvent u decode marshal" "hookFails hook" ?mx ops2 "h @ [ev1]"]
  obtain h2 where "fst (runSpec ?spec ops2 (h @ [ev1])) = h @ ev1 # h2" and h2: "length h2 = records ops2" by auto
  ultimately have l2: "logs hook ?mx f2 (h @ ev1 # h2)" by simp
  have "length h2 < ?mx" "length h2 < 2 ^ 63" using h2 assms(4,5) by (auto split: if_splits)
  from window_keeps[OF this(1), of h ev1] obtain h' where w: "window ?mx (h @ ev1 # h2) = h' @ ev1 # h2" by blast
  have "find (\<lambda>e. ae_ID e = ae_ID ev1) (rev (window ?mx (h @ ev1 # h2))) = Some ev1"
    unfolding w using later_ids_differ[OF l2 \<open>length h2 < 2 ^ 63\<close>] by (intro find_rev_last) auto
  with auditlog.step_spec[OF l2, of u decode marshal "AuditGet (ae_ID ev1)"] show ?thesis
    by (auto simp: auditStep_def auditSpec_def)
qed

definition exEvent :: AuditEvent where
  "exEvent = \<lparr>ae_ID = [], ae_Time = 0, ae_ActorID = ''op'', ae_ActorClass = [], ae_Transport = ''rest'', ae_Capability = [],
     ae_Reason = ''Bearer abc'', ae_FlowID = [], ae_Previous = [], ae_Revision = [], ae_StoreGeneration = 1, ae_Result = ''ok'',
     ae_ErrorCode = [], ae_Diff = [\<lparr>re_Path = ''auth.token'', re_Op = ''replace'', re_Before = [], re_After = ''1''\<rparr>]\<rparr>"

definition exLog :: Fanout where
  "exLog = NewFanout 2 None"

lemma auditRecord_returns: "\<exists>f1 ev1. auditRecord u decode marshal (Some f) ev = (Some f1, ev1)"
  by (cases "ringAppend (fo_Ring f) (RedactEvent u decode marshal ev)") (simp add: auditRecord_def Let_def)

theorem audit_event_found_witness:
  "(case auditRecord ascii_env (\<lambda>_. None) (\<lambda>_. None) (Some exLog) exEvent of (fo, ev1) \<Rightarrow>
      case auditRecord ascii_env (\<lambda>_. None) (\<lambda>_. None) fo exEvent of (fo2, ev2) \<Rightarrow>
        auditGet fo2 (ae_ID ev1) = Some ev1 \<and> ae_ID ev1 = ''aud-1'' \<and> ae_Reason ev1 = ''[redacted]'')"
proof -
  obtain f1 ev1 where 1: "auditRecord ascii_env (\<lambda>_. None) (\<lambda>_. None) (Some exLog) exEvent = (Some f1, ev1)"
    using auditRecord_returns by blast
  obtain f2 ev2 where 2: "auditRecord ascii_env (\<lambda>_. None) (\<lambda>_. None) (Some f1) exEvent = (Some f2, ev2)"
    using auditRecord_returns by blast
  have "auditGet (Some f2) (ae_ID ev1) = Some ev1"
  proof (rule audit_event_found)
    show "runSome (auditStep ascii_env (\<lambda>_. None) (\<lambda>_. None)) [] (NewFanout 2 None) = Some (exLog, [])" by (simp add: exLog_def)
    show "runSome (auditStep ascii_env (\<lambda>_. None) (\<lambda>_. None)) [AuditRecord exEvent] f1 = Some (f2, [AuditEvt ev2])"
      using 2 by (simp add: auditStep_def)
  qed (use 1 in \<open>simp_all add: records_def\<close>)
  moreover have "(case auditRecord ascii_env (\<lambda>_. None) (\<lambda>_. None) (Some exLog) exEvent of (fo, ev1) \<Rightarrow> ae_ID ev1 = ''aud-1'' \<and> ae_Reason ev1 = ''[redacted]'')"
    by code_simp
  ultimately show ?thesis using 1 2 by simp
qed

subsection \<open>No secret reaches the log\<close>

fun cleanTree :: "go_env \<Rightarrow> json \<Rightarrow> bool" where
  "cleanTree u (JObject ms) \<longleftrightarrow>
     (\<forall>(k, child) \<in> set ms. if ToLower u k \<in> secretKeys then child = JString redacted else cleanTree u child)"
| "cleanTree u (JArray xs) \<longleftrightarrow> (\<forall>x \<in> set xs. cleanTree u x)"
| "cleanTree u (JString s) \<longleftrightarrow> \<not> containsPrivateKey s"
| "cleanTree u v \<longleftrightarrow> True"

text \<open>The bytes of a clean entry: nothing, null, the marker, the text of a clean tree, or bytes that are
  no JSON and hold no private key.\<close>

definition cleanRaw :: "go_env \<Rightarrow> (string \<Rightarrow> json option) \<Rightarrow> (json \<Rightarrow> string option) \<Rightarrow> string \<Rightarrow> bool" where
  "cleanRaw u decode marshal b \<longleftrightarrow> b = [] \<or> b = ''null'' \<or> b = quotedRedacted
     \<or> (\<exists>t. cleanTree u t \<and> marshal t = Some b) \<or> decode b = None \<and> \<not> containsPrivateKey b"

definition cleanEvent :: "go_env \<Rightarrow> (string \<Rightarrow> json option) \<Rightarrow> (json \<Rightarrow> string option) \<Rightarrow> AuditEvent \<Rightarrow> bool" where
  "cleanEvent u decode marshal ev \<longleftrightarrow>
     \<not> containsPrivateKey (ae_Reason ev) \<and> \<not> HasPrefix (ToLower u (TrimSpace u (ae_Reason ev))) ''bearer ''
     \<and> (\<forall>d \<in> set (ae_Diff ev). if secretPath u (re_Path d) then re_Before d = quotedRedacted \<and> re_After d = quotedRedacted
          else cleanRaw u decode marshal (re_Before d) \<and> cleanRaw u decode marshal (re_After d))"

lemma redacted_plain: "\<not> containsPrivateKey redacted" "isASCII redacted" "hd redacted = CHR ''[''" "last redacted = CHR '']''" "redacted \<noteq> []"
  by code_simp+

lemma cleanTree_redact: "cleanTree u (redactTree u v)"
  by (induction v) (auto simp: redacted_plain(1))

lemma redactText_clean:
  "\<not> containsPrivateKey (redactText u s) \<and> \<not> HasPrefix (ToLower u (TrimSpace u (redactText u s))) ''bearer ''"
proof -
  have "TrimSpace u redacted = redacted" using redacted_plain by (intro TrimSpace_id) (auto simp: asciiSpace_def, code_simp+)
  moreover have "\<not> HasPrefix (map lowerByte redacted) ''bearer ''" by code_simp
  moreover have "\<not> containsPrivateKey []" "TrimSpace u [] = []" "\<not> HasPrefix (ToLower u []) ''bearer ''"
    by (simp_all add: containsPrivateKey_def TrimSpace_def HasPrefix_def ToLower_def isASCII_def)
  ultimately show ?thesis by (auto simp: redactText_def redacted_plain ToLower_ascii)
qed

lemma redactJSON_clean:
  assumes "\<forall>s t. decode s = Some t \<longrightarrow> marshal (redactTree u t) \<noteq> None"
  shows "cleanRaw u decode marshal (redactJSON u decode marshal raw)"
proof (cases "decode (TrimSpace u raw)")
  case None
  then show ?thesis by (auto simp: redactJSON_def cleanRaw_def Let_def)
next
  case (Some t)
  with assms obtain out where "marshal (redactTree u t) = Some out" by blast
  with Some cleanTree_redact[of u t] show ?thesis by (auto simp: redactJSON_def cleanRaw_def Let_def)
qed

lemma RedactEvent_clean:
  assumes "\<forall>s t. decode s = Some t \<longrightarrow> marshal (redactTree u t) \<noteq> None"
  shows "cleanEvent u decode marshal ((RedactEvent u decode marshal ev)\<lparr>ae_ID := i\<rparr>)"
  using redactText_clean[of u "ae_Reason ev"] redactJSON_clean[OF assms]
  by (auto simp: cleanEvent_def RedactEvent_def redactEntry_def Let_def)

lemma history_clean:
  assumes "\<And>ev i. Q ((redact ev)\<lparr>ae_ID := i\<rparr>)"
  shows "\<forall>e \<in> set h. Q e \<Longrightarrow> \<forall>e \<in> set (fst (runSpec (auditSpec redact fails mx) ops h)). Q e"
proof (induction ops arbitrary: h)
  case (Cons x ops)
  obtain h1 r where s: "auditSpec redact fails mx x h = (h1, r)" by fastforce
  with Cons.prems assms have "\<forall>e \<in> set h1. Q e" by (cases x) (auto simp: auditSpec_def Let_def)
  from Cons.IH[OF this] s show ?case by (auto split: prod.splits)
qed simp

text \<open>Whatever was recorded, no event the log lists carries a secret: its reason is neither a
  bearer token nor a private key, the values under a secret path are the marker, and every other
  value is a document in which the members with a secret name and the private keys are replaced by
  the marker, or no document and no private key.\<close>

theorem audit_stores_no_secret:
  assumes encodes: "\<And>s t. decode s = Some t \<Longrightarrow> marshal (redactTree u t) \<noteq> None"
    and "runSome (auditStep u decode marshal) ops (NewFanout mx hook) = Some (f, rs)"
    and "auditList (Some f) limit = Some page" and "e \<in> set page"
  shows "cleanEvent u decode marshal e"
proof -
  let ?mx = "nat (if mx \<le> 0 then 128 else mx)"
  let ?h = "fst (runSpec (auditSpec (RedactEvent u decode marshal) (hookFails hook) ?mx) ops [])"
  from auditlog.run_spec[OF logs_new[of hook mx], of u decode marshal ops] assms(2) have l: "logs hook ?mx f ?h" by auto
  from auditlog.step_spec[OF l, of u decode marshal "AuditList limit"] assms(3)
  have "page = take (pageLimit limit) (rev (window ?mx ?h))" by (auto simp: auditStep_def auditSpec_def)
  with assms(4) have "e \<in> set (window ?mx ?h)" by (metis in_set_takeD set_rev)
  then have "e \<in> set ?h" unfolding window_def by (rule in_set_dropD)
  moreover have "\<forall>e \<in> set ?h. cleanEvent u decode marshal e"
    by (rule history_clean) (use encodes in \<open>simp_all add: RedactEvent_clean\<close>)
  ultimately show ?thesis by blast
qed

definition exDecode :: "string \<Rightarrow> json option" where
  "exDecode s = (if s = ''1'' then Some (JNumber s) else None)"

definition exMarshal :: "json \<Rightarrow> string option" where
  "exMarshal t = (case t of JNumber s \<Rightarrow> Some s | _ \<Rightarrow> None)"

theorem audit_stores_no_secret_witness:
  "case auditRecord ascii_env exDecode exMarshal (Some exLog) exEvent of (fo, ev1) \<Rightarrow>
     auditList fo 10 = Some [ev1] \<and> cleanEvent ascii_env exDecode exMarshal ev1"
proof -
  obtain f1 ev1 where 1: "auditRecord ascii_env exDecode exMarshal (Some exLog) exEvent = (Some f1, ev1)"
    using auditRecord_returns by blast
  then have p: "auditList (Some f1) 10 = Some [ev1]"
    by (auto simp: auditRecord_def ringAppend_def exLog_def NewFanout_def NewRing_def auditList_def ringList_def Let_def)
  have m: "exDecode s = Some t \<Longrightarrow> exMarshal (redactTree ascii_env t) \<noteq> None" for s t
    by (auto simp: exDecode_def exMarshal_def split: if_splits)
  have "runSome (auditStep ascii_env exDecode exMarshal) [AuditRecord exEvent] (NewFanout 2 None) = Some (f1, [AuditEvt ev1])"
    using 1 by (simp add: auditStep_def exLog_def)
  from audit_stores_no_secret[OF m this p, where e = ev1] have "cleanEvent ascii_env exDecode exMarshal ev1" by simp
  with 1 p show ?thesis by simp
qed

end
