(* ===== verification/App_Mutate.thy ===== *)
theory App_Mutate
  imports App_Compile App_LRU Audit_Props Config_Props
begin

text \<open>
  The mutation pipeline of the control plane (\<open>internal/app/mutate.go\<close>, \<open>reset.go\<close>,
  \<open>diff.go\<close>, parts of \<open>svc.go\<close> and \<open>audit.go\<close>): plan, apply, validate and reset over the
  active snapshot, the flow inbox, the idempotency cache and the audit log. Each runs under the
  mutation lock. What a call consults outside the sources is its \<open>app_env\<close>, which may differ from
  call to call: the compiler's environment, the fingerprint of a request, the canonical JSON of a
  state, the JSON codec, the bootstrap file and the listeners Reset prepares. \<open>None\<close> as the result
  of an operation would be one that does not return. Log records and metrics are left out, and of an
  error that is no domain error only that it is one (\<open>Internal\<close>).
\<close>

record ChangeIn =
  ci_ExpectedRevision :: string
  ci_IdempotencyKey :: string
  ci_Reason :: string
  ci_Force :: bool
  ci_Operations :: "Operation list"

record Actor =
  ac_ID :: string
  ac_Class :: string
  ac_Role :: string
  ac_Scopes :: "string list"
  ac_Transport :: string

record 'ca app_env =
  av_compile :: "'ca compile_env"
  av_io :: io
  av_fingerprint :: "ChangeIn \<Rightarrow> string option"
  av_tree :: "State \<Rightarrow> json option"
  av_decode :: "string \<Rightarrow> json option"
  av_marshal :: "json \<Rightarrow> string option"
  av_loadFile :: "string \<Rightarrow> app_error + State"
  av_runtime :: "Spec \<Rightarrow> app_error option"

record 'ca App =
  app_snaps :: "'ca SnapStore"
  app_inbox :: "memory option"
  app_idemp :: "Operation idempCache"
  app_audit :: "Fanout option"
  app_bootstrapPath :: string

subsection \<open>Differences (diff.go)\<close>

definition mustJSON :: "'ca app_env \<Rightarrow> json \<Rightarrow> string" where
  "mustJSON ev v = (case av_marshal ev v of None \<Rightarrow> ''null'' | Some b \<Rightarrow> b)"

definition joinJSONPath :: "string \<Rightarrow> string \<Rightarrow> string" where
  "joinJSONPath parent key = (if parent = [] then key else parent @ ''.'' @ key)"

definition diffEntry :: "string \<Rightarrow> string \<Rightarrow> string option \<Rightarrow> string option \<Rightarrow> DiffEntry" where
  "diffEntry path op before after =
     \<lparr>de_Path = path, de_Op = op, de_Before = map_option bytes_of before, de_After = map_option bytes_of after\<rparr>"

lemma size_member: "map_of ms k = Some v \<Longrightarrow> size v < Suc (size_list (size_prod (\<lambda>_. 0) size) ms)"
  by (induction ms) (auto split: if_splits)

lemma size_element: "i < length xs \<Longrightarrow> size (xs ! i) < Suc (size_list size xs)"
  using size_list_estimation'[of "xs ! i" xs "size (xs ! i)" size] by (simp add: less_Suc_eq_le)

function walkDiff :: "(json \<Rightarrow> string) \<Rightarrow> json \<Rightarrow> json \<Rightarrow> string \<Rightarrow> DiffEntry list" where
  "walkDiff mj before after path =
     (if mj before = mj after then []
      else case before of
        JObject bm \<Rightarrow>
          (case after of
             JObject am \<Rightarrow> concat (map (\<lambda>k.
               case map_of bm k of
                 None \<Rightarrow> (case map_of am k of None \<Rightarrow> [] | Some av \<Rightarrow> [diffEntry (joinJSONPath path k) ''add'' None (Some (mj av))])
               | Some bv \<Rightarrow>
                 (case map_of am k of
                    None \<Rightarrow> [diffEntry (joinJSONPath path k) ''remove'' (Some (mj bv)) None]
                  | Some av \<Rightarrow> walkDiff mj bv av (joinJSONPath path k)))
               (sort (remdups (map fst bm @ map fst am))))
           | _ \<Rightarrow> [diffEntry path ''replace'' (Some (mj before)) (Some (mj after))])
      | JArray bl \<Rightarrow>
          (case after of
             JArray al \<Rightarrow> concat (map (\<lambda>i.
               if length bl \<le> i then [diffEntry (indexPath path i) ''add'' None (Some (mj (al ! i)))]
               else if length al \<le> i then [diffEntry (indexPath path i) ''remove'' (Some (mj (bl ! i))) None]
               else walkDiff mj (bl ! i) (al ! i) (indexPath path i)) [0..<max (length bl) (length al)])
           | _ \<Rightarrow> [diffEntry path ''replace'' (Some (mj before)) (Some (mj after))])
      | _ \<Rightarrow> [diffEntry path ''replace'' (Some (mj before)) (Some (mj after))])"
  by pat_completeness auto
termination
  by (relation "measure (\<lambda>(mj, before, after, path). size before)") (auto simp: size_member size_element)

declare walkDiff.simps [simp del]

definition jsonTree :: "'ca app_env \<Rightarrow> State option \<Rightarrow> json option" where
  "jsonTree ev sto = (case sto of None \<Rightarrow> Some (JObject []) | Some st \<Rightarrow> av_tree ev st)"

definition diffStates :: "'ca app_env \<Rightarrow> State option \<Rightarrow> State option \<Rightarrow> DiffEntry slice option" where
  "diffStates ev before after =
     (case jsonTree ev before of None \<Rightarrow> None
      | Some bt \<Rightarrow>
        (case jsonTree ev after of None \<Rightarrow> None
         | Some at \<Rightarrow> Some (append_nil (sort_key de_Path (walkDiff (mustJSON ev) bt at '''')))))"

subsection \<open>Candidates (mutate.go, svc.go)\<close>

record 'ca candidate =
  cd_prev :: "'ca Snapshot option"
  cd_next :: "'ca Snapshot"
  cd_ops :: "Operation list"
  cd_diff :: "DiffEntry slice"
  cd_warn :: "Warning slice"

definition asDomain :: "app_error \<Rightarrow> app_error" where
  "asDomain e = (if e = ContextDone then Internal else e)"

definition active :: "'ca App \<Rightarrow> app_error + 'ca Snapshot" where
  "active a = (case sst_active (app_snaps a) of None \<Rightarrow> Inl Internal | Some s \<Rightarrow> Inr s)"

text \<open>The copy \<open>cloneState\<close> makes through JSON is the state itself.\<close>

definition cloneState :: "State option \<Rightarrow> app_error + State" where
  "cloneState sto = (case sto of None \<Rightarrow> Inl (ValidationFailed (missing '''')) | Some st \<Rightarrow> Inr st)"

definition compileCandidate :: "'ca app_env \<Rightarrow> State \<Rightarrow> 'ca Snapshot option \<Rightarrow> Operation list \<Rightarrow> app_error + 'ca Snapshot" where
  "compileCandidate ev st prev ops =
     Compile (av_compile ev) (Some st)
       \<lparr>co_BootstrapRevision = (case prev of None \<Rightarrow> '''' | Some p \<Rightarrow>
            if sn_BootstrapRevision p = '''' then sn_Revision p else sn_BootstrapRevision p),
        co_Generation = (case prev of None \<Rightarrow> 0 | Some p \<Rightarrow> sn_Generation p + 1),
        co_Previous = prev, co_RotateCA = False,
        co_ReloadHTTPAuth = (prev = None \<or> anyReplaceHTTPAuth ops)\<rparr>"

definition buildCandidate :: "'ca app_env \<Rightarrow> 'ca App \<Rightarrow> ChangeIn \<Rightarrow> bool \<Rightarrow> app_error + 'ca candidate" where
  "buildCandidate ev a inp requireRev =
     (case active a of Inl e \<Rightarrow> Inl e
      | Inr prev \<Rightarrow>
        if requireRev \<and> ci_ExpectedRevision inp = '''' then Inl (ValidationFailed (missing ''expectedRevision''))
        else if requireRev \<and> ci_ExpectedRevision inp \<noteq> sn_Revision prev then Inl (RevisionConflict (sn_Revision prev))
        else case cloneState (sn_Canonical prev) of Inl e \<Rightarrow> Inl e
        | Inr copied \<Rightarrow>
          (case applyOperations (Some copied) (ci_Operations inp) of Inl vs \<Rightarrow> Inl (ValidationFailed vs)
           | Inr st \<Rightarrow>
             (case compileCandidate ev st (Some prev) (ci_Operations inp) of Inl e \<Rightarrow> Inl (asDomain e)
              | Inr next \<Rightarrow>
                (case diffStates ev (sn_Canonical prev) (sn_Canonical next) of None \<Rightarrow> Inl Internal
                 | Some diff \<Rightarrow> Inr \<lparr>cd_prev = Some prev, cd_next = next, cd_ops = ci_Operations inp, cd_diff = diff, cd_warn = None\<rparr>))))"

definition mapStoreCapErr :: "store_error \<Rightarrow> app_error" where
  "mapStoreCapErr e = (if e = ErrOverNewCap then StoreOverNewCap else Internal)"

text \<open>Replacing the caps of the inbox, when the change is applied.\<close>

definition replaceCaps :: "'ca app_env \<Rightarrow> StoreSpec \<Rightarrow> bool \<Rightarrow> bool \<Rightarrow> memory \<Rightarrow> (memory \<times> app_error option) option" where
  "replaceCaps ev spec force commit m =
     (if \<not> commit then Some (m, None)
      else map_option (\<lambda>(m', e). (m', map_option mapStoreCapErr e)) (ReplaceCaps (av_io ev) (OptionsFromSpec spec) force m))"

definition checkStoreCaps :: "'ca app_env \<Rightarrow> 'ca App \<Rightarrow> 'ca candidate \<Rightarrow> bool \<Rightarrow> bool \<Rightarrow>
    ('ca App \<times> (app_error + 'ca candidate)) option" where
  "checkStoreCaps ev a cand force commit =
     (case app_inbox a of None \<Rightarrow> Some (a, Inr cand)
      | Some m \<Rightarrow>
        (case sn_Canonical (cd_next cand) of None \<Rightarrow> Some (a, Inr cand)
         | Some st \<Rightarrow>
           if \<not> anyReplaceStoreCaps (cd_ops cand) then Some (a, Inr cand)
           else let spec = sp_Store (st_Spec st); stats = Stats m;
                    over = st_FlowCount stats > ss_MaxFlows spec \<or> st_Bytes stats > ss_MaxBytes spec;
                    n = (if st_FlowCount stats - ss_MaxFlows spec < 0 then 0 else st_FlowCount stats - ss_MaxFlows spec);
                    cand' = (if over then cand\<lparr>cd_warn := Some (elems (cd_warn cand) @ [\<lparr>wn_Code = ''store_evict'',
                       wn_Message = ''apply evicts oldest flows to fit new caps (at least '' @ FormatInt n @ '')''\<rparr>])\<rparr> else cand)
                in if over \<and> ss_FullPolicy spec \<noteq> FullPolicyEvictOldest \<and> \<not> force then Some (a, Inl StoreOverNewCap)
                   else map_option (\<lambda>(m', e). (a\<lparr>app_inbox := Some m'\<rparr>, case e of None \<Rightarrow> Inr cand' | Some err \<Rightarrow> Inl err))
                          (replaceCaps ev spec force commit m)))"

definition planFrom :: "'ca candidate \<Rightarrow> Operation Plan" where
  "planFrom c =
     \<lparr>pl_PreviousRevision = (case cd_prev c of None \<Rightarrow> '''' | Some p \<Rightarrow> sn_Revision p),
      pl_CandidateRevision = sn_Revision (cd_next c),
      pl_Drifted = snapDrifted (Some (cd_next c)),
      pl_Diff = cd_diff c,
      pl_Warnings = append_nil (elems (cd_warn c) @
        (if anyLiveFeatureOp (cd_ops c) then [\<lparr>wn_Code = ''live_next_connection'',
           wn_Message = ''in-flight sessions keep the snapshot they pinned; SOCKS peek and new ServeHTTP/CONNECT see the swap''\<rparr>] else [])),
      pl_Operations = append_nil (cd_ops c)\<rparr>"

definition forgetIdempOnConflict :: "string \<Rightarrow> app_error \<Rightarrow> 'ca App \<Rightarrow> 'ca App" where
  "forgetIdempOnConflict key e a =
     (case e of RevisionConflict _ \<Rightarrow> a\<lparr>app_idemp := evict key (app_idemp a)\<rparr> | _ \<Rightarrow> a)"

subsection \<open>Plan and apply (mutate.go)\<close>

definition planLocked :: "'ca app_env \<Rightarrow> 'ca App \<Rightarrow> ChangeIn \<Rightarrow> ('ca App \<times> (app_error + Operation Plan)) option" where
  "planLocked ev a inp =
     (case av_fingerprint ev inp of None \<Rightarrow> Some (a, Inl Internal)
      | Some fp \<Rightarrow>
        (case lookup (ci_IdempotencyKey inp) fp (app_idemp a) of
           (c, Inl _) \<Rightarrow> Some (a\<lparr>app_idemp := c\<rparr>, Inl IdempotencyConflicting)
         | (c, Inr hit) \<Rightarrow>
           let a1 = a\<lparr>app_idemp := c\<rparr>
           in case Option.bind hit ie_plan of
                Some p \<Rightarrow> Some (a1, Inr (the (clonePlan (Some p))))
              | None \<Rightarrow>
                (case buildCandidate ev a1 inp True of
                   Inl e \<Rightarrow> Some (forgetIdempOnConflict (ci_IdempotencyKey inp) e a1, Inl e)
                 | Inr cand \<Rightarrow>
                   (case checkStoreCaps ev a1 cand (ci_Force inp) False of None \<Rightarrow> None
                    | Some (a2, Inl e) \<Rightarrow> Some (a2, Inl e)
                    | Some (a2, Inr cand') \<Rightarrow>
                      map_option (\<lambda>c2. (a2\<lparr>app_idemp := c2\<rparr>, Inr (the (clonePlan (Some (planFrom cand'))))))
                        (storePlan (ci_IdempotencyKey inp) fp (Some (planFrom cand')) (app_idemp a2))))))"

definition appPlan :: "'ca app_env \<Rightarrow> 'ca App \<Rightarrow> ChangeIn \<Rightarrow> ('ca App \<times> (app_error + Operation Plan)) option" where
  "appPlan ev a inp = (if ce_ctxErr (av_compile ev) then Some (a, Inl ContextDone) else planLocked ev a inp)"

definition revisionOf :: "'ca Snapshot option \<Rightarrow> string" where
  "revisionOf so = (case so of None \<Rightarrow> '''' | Some s \<Rightarrow> sn_Revision s)"

definition toAuditDiff :: "DiffEntry slice \<Rightarrow> RedactedEntry list" where
  "toAuditDiff ds = map (\<lambda>d. \<lparr>re_Path = de_Path d, re_Op = de_Op d,
     re_Before = string_of (elems (de_Before d)), re_After = string_of (elems (de_After d))\<rparr>) (elems ds)"

definition recordAudit :: "'ca app_env \<Rightarrow> AuditEvent \<Rightarrow> 'ca App \<Rightarrow> 'ca App \<times> string" where
  "recordAudit ev e a =
     (case app_audit a of None \<Rightarrow> (a, '''')
      | Some f \<Rightarrow>
        (case auditRecord (ce_go (av_compile ev)) (av_decode ev) (av_marshal ev) (Some f)
                (if ae_Result e = '''' then e\<lparr>ae_Result := ''ok''\<rparr> else e) of
           (fo, e') \<Rightarrow> (a\<lparr>app_audit := fo\<rparr>, ae_ID e')))"

definition applyEvent :: "'ca app_env \<Rightarrow> Actor \<Rightarrow> string \<Rightarrow> string \<Rightarrow> 'ca Snapshot \<Rightarrow> 'ca Snapshot option \<Rightarrow> DiffEntry slice \<Rightarrow> 64 word \<Rightarrow> AuditEvent" where
  "applyEvent ev actor capability reason next prev diff storeGen =
     \<lparr>ae_ID = '''', ae_Time = ce_now (av_compile ev), ae_ActorID = ac_ID actor, ae_ActorClass = ac_Class actor,
      ae_Transport = ac_Transport actor, ae_Capability = capability, ae_Reason = reason, ae_FlowID = '''',
      ae_Previous = revisionOf prev, ae_Revision = sn_Revision next, ae_StoreGeneration = storeGen,
      ae_Result = ''ok'', ae_ErrorCode = '''', ae_Diff = toAuditDiff diff\<rparr>"

definition applyResult :: "'ca candidate \<Rightarrow> Operation ApplyResult" where
  "applyResult c = \<lparr>ar_Plan = planFrom c, ar_Applied = True, ar_Generation = sn_Generation (cd_next c),
     ar_RuntimeRevision = sn_Revision (cd_next c), ar_AuditEventID = ''''\<rparr>"

text \<open>The commit: nothing in it can fail.\<close>

definition commitApply :: "'ca app_env \<Rightarrow> Actor \<Rightarrow> ChangeIn \<Rightarrow> string \<Rightarrow> 'ca candidate \<Rightarrow> 'ca App \<Rightarrow>
    ('ca App \<times> Operation ApplyResult) option" where
  "commitApply ev actor inp fp cand a =
     (case snapSwap (Some (cd_next cand)) (app_snaps a) of (snaps', prev) \<Rightarrow>
        case recordAudit ev (applyEvent ev actor ''changes.apply'' (ci_Reason inp) (cd_next cand) prev (cd_diff cand) 0)
               (a\<lparr>app_snaps := snaps'\<rparr>) of (a1, eid) \<Rightarrow>
          let res = (applyResult cand)\<lparr>ar_AuditEventID := eid\<rparr>
          in map_option (\<lambda>c. (a1\<lparr>app_idemp := c\<rparr>, res)) (storeApply (ci_IdempotencyKey inp) fp (Some res) (app_idemp a1)))"

text \<open>\<open>applyLocked\<close> also returns whether the apply hooks are to run.\<close>

definition applyLocked :: "'ca app_env \<Rightarrow> 'ca App \<Rightarrow> Actor \<Rightarrow> ChangeIn \<Rightarrow>
    ('ca App \<times> (app_error + Operation ApplyResult) \<times> bool) option" where
  "applyLocked ev a actor inp =
     (case av_fingerprint ev inp of None \<Rightarrow> Some (a, Inl Internal, False)
      | Some fp \<Rightarrow>
        (case lookup (ci_IdempotencyKey inp) fp (app_idemp a) of
           (c, Inl _) \<Rightarrow> Some (a\<lparr>app_idemp := c\<rparr>, Inl IdempotencyConflicting, False)
         | (c, Inr hit) \<Rightarrow>
           let a1 = a\<lparr>app_idemp := c\<rparr>
           in case Option.bind hit ie_apply of
                Some r \<Rightarrow> Some (a1, Inr (the (cloneApply (Some r))), False)
              | None \<Rightarrow>
                (case buildCandidate ev a1 inp True of
                   Inl e \<Rightarrow> Some (forgetIdempOnConflict (ci_IdempotencyKey inp) e a1, Inl e, False)
                 | Inr cand \<Rightarrow>
                   (case checkStoreCaps ev a1 cand (ci_Force inp) True of None \<Rightarrow> None
                    | Some (a2, Inl e) \<Rightarrow> Some (a2, Inl e, False)
                    | Some (a2, Inr cand') \<Rightarrow>
                      map_option (\<lambda>(a3, res). (a3, Inr (the (cloneApply (Some res))), True)) (commitApply ev actor inp fp cand' a2)))))"

definition appApply :: "'ca app_env \<Rightarrow> 'ca App \<Rightarrow> Actor \<Rightarrow> ChangeIn \<Rightarrow>
    ('ca App \<times> (app_error + Operation ApplyResult) \<times> bool) option" where
  "appApply ev a actor inp = (if ce_ctxErr (av_compile ev) then Some (a, Inl ContextDone, False) else applyLocked ev a actor inp)"

subsection \<open>Validate (mutate.go)\<close>

record ValidateIn =
  vi_State :: "State option"
  vi_Operations :: "Operation list"

text \<open>It reads the active snapshot and changes nothing.\<close>

definition appValidate :: "'ca app_env \<Rightarrow> 'ca App \<Rightarrow> ValidateIn \<Rightarrow> app_error + Operation Plan" where
  "appValidate ev a inp =
     (if ce_ctxErr (av_compile ev) then Inl ContextDone
      else case (case vi_State inp of
             Some st \<Rightarrow> map_sum id (\<lambda>base. (base, sst_active (app_snaps a))) (cloneState (Some st))
           | None \<Rightarrow> (case active a of Inl e \<Rightarrow> Inl e
                      | Inr snap \<Rightarrow> map_sum id (\<lambda>base. (base, Some snap)) (cloneState (sn_Canonical snap)))) of
           Inl e \<Rightarrow> Inl e
         | Inr (base, prev) \<Rightarrow>
           (case applyOperations (Some base) (vi_Operations inp) of Inl vs \<Rightarrow> Inl (ValidationFailed vs)
            | Inr st \<Rightarrow>
              (case compileCandidate ev st prev (vi_Operations inp) of Inl e \<Rightarrow> Inl (asDomain e)
               | Inr nx \<Rightarrow>
                 (case diffStates ev (case prev of None \<Rightarrow> vi_State inp | Some p \<Rightarrow> sn_Canonical p) (sn_Canonical nx) of None \<Rightarrow> Inl Internal
                  | Some diff \<Rightarrow> Inr (the (clonePlan (Some (planFrom
                      \<lparr>cd_prev = prev, cd_next = nx, cd_ops = vi_Operations inp, cd_diff = diff, cd_warn = None\<rparr>))))))))"

subsection \<open>Reset (reset.go)\<close>

definition CheckOptions :: "io \<Rightarrow> options \<Rightarrow> store_error + options" where
  "CheckOptions io opts =
     (case normalizeOptions opts of Inl e \<Rightarrow> Inl e
      | Inr op \<Rightarrow> if ensureSpillDir io (op_SpillDirectory op) then Inr op else Inl ErrSpill)"

definition bootOpts :: "nat \<Rightarrow> 'ca CompileOpts" where
  "bootOpts gen = \<lparr>co_BootstrapRevision = '''', co_Generation = gen, co_Previous = None, co_RotateCA = True, co_ReloadHTTPAuth = False\<rparr>"

definition loadBootstrapCandidate :: "'ca app_env \<Rightarrow> 'ca App \<Rightarrow> nat \<Rightarrow> app_error + 'ca Snapshot" where
  "loadBootstrapCandidate ev a gen =
     (if app_bootstrapPath a \<noteq> '''' then
        (case av_loadFile ev (app_bootstrapPath a) of Inl e \<Rightarrow> Inl (asDomain e)
         | Inr st \<Rightarrow> map_sum asDomain id (Compile (av_compile ev) (Some st) (bootOpts gen)))
      else case Option.bind (sst_bootstrap (app_snaps a)) sn_Canonical of
        None \<Rightarrow> Inl (ValidationFailed (missing ''bootstrap''))
      | Some st \<Rightarrow> map_sum asDomain id (Compile (av_compile ev) (Some st) (bootOpts gen)))"

text \<open>Wiping the inbox for the new store options.\<close>

definition resetInbox :: "'ca app_env \<Rightarrow> StoreSpec \<Rightarrow> memory option \<Rightarrow> memory option \<times> app_error option" where
  "resetInbox ev spec mo =
     (case mo of None \<Rightarrow> (None, None)
      | Some m \<Rightarrow>
        (case CheckOptions (av_io ev) (OptionsFromSpec spec) of Inl e \<Rightarrow> (Some m, Some Internal)
         | Inr op \<Rightarrow> (case ResetTo (av_io ev) op m of (m', e) \<Rightarrow> (Some m', map_option (\<lambda>_. Internal) e))))"

definition storeGeneration :: "memory option \<Rightarrow> 64 word" where
  "storeGeneration mo = (case mo of None \<Rightarrow> 0 | Some m \<Rightarrow> of_nat (m_generation m))"

text \<open>\<open>Compile\<close> always sets the canonical state, so that the case without one does not occur.\<close>

definition resetLocked :: "'ca app_env \<Rightarrow> 'ca App \<Rightarrow> Actor \<Rightarrow> string \<Rightarrow> 'ca App \<times> (app_error + Operation ApplyResult)" where
  "resetLocked ev a actor reason =
     (let prev = sst_active (app_snaps a); gen = (case prev of None \<Rightarrow> 0 | Some p \<Rightarrow> sn_Generation p + 1)
      in case loadBootstrapCandidate ev a gen of Inl e \<Rightarrow> (a, Inl e)
         | Inr next \<Rightarrow>
           (case diffStates ev (Option.bind prev sn_Canonical) (sn_Canonical next) of None \<Rightarrow> (a, Inl Internal)
            | Some diff \<Rightarrow>
              (case sn_Canonical next of None \<Rightarrow> (a, Inl Internal)
               | Some st \<Rightarrow>
                 (case av_runtime ev (st_Spec st) of Some e \<Rightarrow> (a, Inl (asDomain e))
                  | None \<Rightarrow>
                    (case resetInbox ev (sp_Store (st_Spec st)) (app_inbox a) of
                       (mo, Some e) \<Rightarrow> (a\<lparr>app_inbox := mo\<rparr>, Inl e)
                     | (mo, None) \<Rightarrow>
                       (case snapSwap (Some next) (app_snaps a) of (snaps1, displaced) \<Rightarrow>
                          let a1 = a\<lparr>app_inbox := mo, app_snaps := SetBootstrap (Some next) snaps1, app_idemp := clear (app_idemp a)\<rparr>;
                              cand = \<lparr>cd_prev = displaced, cd_next = next, cd_ops = [], cd_diff = diff, cd_warn = None\<rparr>
                          in case recordAudit ev (applyEvent ev actor ''state.reset'' reason next displaced diff (storeGeneration mo)) a1 of
                               (a2, eid) \<Rightarrow> (a2, Inr (the (cloneApply (Some ((applyResult cand)\<lparr>ar_AuditEventID := eid\<rparr>)))))))))))"

definition appReset :: "'ca app_env \<Rightarrow> 'ca App \<Rightarrow> Actor \<Rightarrow> string \<Rightarrow> 'ca App \<times> (app_error + Operation ApplyResult)" where
  "appReset ev a actor reason = (if ce_ctxErr (av_compile ev) then (a, Inl ContextDone) else resetLocked ev a actor reason)"

subsection \<open>Starting (svc.go)\<close>

text \<open>\<open>Boot\<close> with the default options: compile the bootstrap file, open the inbox, install the snapshot.
  The audit log has the size the snapshot asks for, or the default.\<close>

definition defaultAuditMax :: int where "defaultAuditMax = 128"

definition newApp :: "'ca SnapStore \<Rightarrow> memory option \<Rightarrow> string \<Rightarrow> int \<Rightarrow> int \<Rightarrow> (AuditEvent \<Rightarrow> bool) option \<Rightarrow> 'ca App" where
  "newApp snaps inbox path idempMax auditMax hook =
     (let ring = (case Option.bind (sst_active snaps) sn_Canonical of None \<Rightarrow> 0 | Some st \<Rightarrow> au_Ring (ob_Audit (sp_Observability (st_Spec st))));
          amax = (if auditMax \<le> 0 then (if ring > 0 then ring else defaultAuditMax) else auditMax)
      in \<lparr>app_snaps = snaps, app_inbox = inbox,
          app_idemp = newIdempCache (if idempMax \<le> 0 then defaultIdempotencyMax else idempMax),
          app_audit = Some (NewFanout amax hook), app_bootstrapPath = path\<rparr>)"

definition appBoot :: "'ca app_env \<Rightarrow> string \<Rightarrow> int \<Rightarrow> int \<Rightarrow> (AuditEvent \<Rightarrow> bool) option \<Rightarrow> filesys \<Rightarrow> app_error + 'ca App" where
  "appBoot ev path idempMax auditMax hook fs =
     (if path = '''' then Inl (ValidationFailed (missing ''bootstrapPath''))
      else case av_loadFile ev path of Inl e \<Rightarrow> Inl (asDomain e)
      | Inr st \<Rightarrow>
        (case Compile (av_compile ev) (Some st) \<lparr>co_BootstrapRevision = '''', co_Generation = 0, co_Previous = None, co_RotateCA = False, co_ReloadHTTPAuth = False\<rparr> of
           Inl e \<Rightarrow> Inl (asDomain e)
         | Inr snap \<Rightarrow>
           (case sn_Canonical snap of None \<Rightarrow> Inl Internal
            | Some cst \<Rightarrow>
              (case newMemory (av_io ev) (OptionsFromSpec (sp_Store (st_Spec cst))) fs of Inl e \<Rightarrow> Inl Internal
               | Inr m \<Rightarrow> Inr (newApp (fst (InstallBootstrap (Some snap) NewStore)) (Some m) path idempMax auditMax hook)))))"

end
