(* ===== verification/App_Props.thy ===== *)
theory App_Props
  imports App_Mutate
begin

text \<open>
  The control plane keeps its parts together: over every sequence of plans, applies, resets and
  whatever the proxy does to the inbox, the active snapshot is a validated, normalised state, the
  inbox has its caps, and an apply either commits all of its change or nothing.
\<close>

subsection \<open>Snapshots\<close>

text \<open>No validator has anything to report. Which of the files with credentials are looked at depends on
  the options: a live change does not read them again.\<close>

definition validatedAll :: "go_env \<Rightarrow> disk \<Rightarrow> validateOpts \<Rightarrow> State \<Rightarrow> bool" where
  "validatedAll u dk opts st \<longleftrightarrow> validateDocument u st = [] \<and> validateListeners u dk opts (sp_Listeners (st_Spec st)) = []
     \<and> validateCompat u (st_Spec st) = [] \<and> validateProtocols (sp_Protocols (st_Spec st)) = []
     \<and> validateProxy u dk opts (sp_Proxy (st_Spec st)) = [] \<and> validateTLS u dk (sp_TLS (st_Spec st)) = []
     \<and> validateRules u (sp_Rules (st_Spec st)) = [] \<and> validateStore (sp_Store (st_Spec st)) = []
     \<and> validateManagement u dk (sp_Management (st_Spec st)) = [] \<and> validateObservability u (sp_Observability (st_Spec st)) = []"

definition snap_ok :: "go_env \<Rightarrow> 'ca Snapshot \<Rightarrow> bool" where
  "snap_ok u s \<longleftrightarrow> (\<exists>st. sn_Canonical s = Some st \<and> materializeDefaults u (st_Spec st) = st_Spec st
     \<and> validateRules u (sp_Rules (st_Spec st)) = [] \<and> validateStore (sp_Store (st_Spec st)) = []
     \<and> validateProtocols (sp_Protocols (st_Spec st)) = [] \<and> validateCompat u (st_Spec st) = []
     \<and> validateAdmission (px_Admission (sp_Proxy (st_Spec st))) = []
     \<and> (\<exists>dk opts. validatedAll u dk opts st)
     \<and> sn_Rules s = newEngine (sp_Rules (st_Spec st)))"

definition storeSpecOf :: "'ca Snapshot \<Rightarrow> StoreSpec" where
  "storeSpecOf s = sp_Store (st_Spec (the (sn_Canonical s)))"

lemma Compile_ok:
  assumes "Compile ev (Some st) opts = Inr s"
  shows "snap_ok (ce_go ev) s" and "sn_Generation s = co_Generation opts"
    and "sn_Canonical s = Some (st\<lparr>st_Spec := materializeDefaults (ce_go ev) (st_Spec st)\<rparr>)"
proof -
  let ?n = "st\<lparr>st_Spec := materializeDefaults (ce_go ev) (st_Spec st)\<rparr>"
  have v: "validateForCompile ev ?n opts = []" and c: "sn_Canonical s = Some ?n"
    and r: "sn_Rules s = newEngine (sp_Rules (st_Spec ?n))" and g: "sn_Generation s = co_Generation opts"
    using assms by (auto simp: Compile_def Normalize_def Let_def split: if_splits option.splits sum.splits)
  show "sn_Generation s = co_Generation opts" by (rule g)
  show "sn_Canonical s = Some ?n" by (rule c)
  have "validateRules (ce_go ev) (sp_Rules (st_Spec ?n)) = []" "validateStore (sp_Store (st_Spec ?n)) = []"
    "validateProtocols (sp_Protocols (st_Spec ?n)) = []" "validateCompat (ce_go ev) (st_Spec ?n) = []"
    "validateAdmission (px_Admission (sp_Proxy (st_Spec ?n))) = []"
    using v by (auto simp: validateForCompile_def ValidateLiveApplyOpts_def ValidateConfig_def validateState_def Let_def validateProxy_def
        split: if_splits)
  moreover have "\<exists>dk opts. validatedAll (ce_go ev) dk opts ?n"
    using v unfolding validateForCompile_def ValidateLiveApplyOpts_def ValidateConfig_def validateState_def Let_def validatedAll_def
    by (cases "co_Previous opts = None") (simp_all, blast+)
  ultimately show "snap_ok (ce_go ev) s" using c r by (simp add: snap_ok_def materializeDefaults_idem)
qed

subsection \<open>The caps of the inbox\<close>

definition hasCaps :: "memory \<Rightarrow> StoreSpec \<Rightarrow> bool" where
  "hasCaps m spec \<longleftrightarrow> m_maxFlows m = ss_MaxFlows spec \<and> m_maxBytes m = ss_MaxBytes spec
     \<and> m_maxBodyBytes m = ss_MaxBodyBytes spec \<and> m_fullPolicy m = ss_FullPolicy spec"

lemma snap_options:
  assumes "snap_ok u s"
  shows "\<exists>op. normalizeOptions (OptionsFromSpec (storeSpecOf s)) = Inr op \<and> op_MaxFlows op = ss_MaxFlows (storeSpecOf s)
    \<and> op_MaxBytes op = ss_MaxBytes (storeSpecOf s) \<and> op_MaxBodyBytes op = ss_MaxBodyBytes (storeSpecOf s)
    \<and> op_FullPolicy op = ss_FullPolicy (storeSpecOf s)"
proof -
  from assms obtain st where c: "sn_Canonical s = Some st" and m: "materializeDefaults u (st_Spec st) = st_Spec st"
    and v: "validateStore (sp_Store (st_Spec st)) = []" by (auto simp: snap_ok_def)
  have "ss_FullPolicy (sp_Store (materializeDefaults u (st_Spec st))) \<noteq> []"
    using default_texts(10)[of u] by (auto simp: materializeDefaults_def Let_def orDefault_def blank_def TrimSpace_def)
  then have "ss_FullPolicy (sp_Store (st_Spec st)) \<noteq> []" using m by simp
  with validated_options[OF v] c show ?thesis by (auto simp: storeSpecOf_def)
qed

lemma ReplaceCaps_outcome:
  assumes inv: "inv_store m" and op: "normalizeOptions opts = Inr op"
  shows "(int (length (m_byID m)) > op_MaxFlows op \<or> m_bytes m > op_MaxBytes op) \<and> op_FullPolicy op \<noteq> FullPolicyEvictOldest \<and> \<not> force
      \<and> ReplaceCaps io opts force m = Some (m, Some ErrOverNewCap) \<or>
    (\<exists>m'. ReplaceCaps io opts force m = Some (m', None) \<and> inv_store m' \<and> m_maxFlows m' = op_MaxFlows op \<and> m_maxBytes m' = op_MaxBytes op
      \<and> m_maxBodyBytes m' = op_MaxBodyBytes op \<and> m_fullPolicy m' = op_FullPolicy op)"
proof -
  let ?m = "m\<lparr>m_maxFlows := op_MaxFlows op, m_maxBytes := op_MaxBytes op,
           m_maxBodyBytes := op_MaxBodyBytes op, m_fullPolicy := op_FullPolicy op\<rparr>"
  have core: "inv_core ?m" using inv op by (simp add: inv_store_def inv_core_caps)
  have i: "inv_store m' " if "ReplaceCaps io opts force m = Some (m', None)" for m'
    using ReplaceCaps_inv[OF inv, of io opts force] that by auto
  show ?thesis
  proof (cases "int (length (m_byID m)) > op_MaxFlows op \<or> m_bytes m > op_MaxBytes op")
    case False
    with op i show ?thesis by (auto simp: ReplaceCaps_def Let_def)
  next
    case True
    note r = evictUntilUnderCaps_returns[OF core, of io] evictedCaps_ok[OF core, of io]
    show ?thesis
    proof (cases "op_FullPolicy op \<noteq> FullPolicyEvictOldest \<and> \<not> force")
      case blocked: True
      with True op show ?thesis by (simp add: ReplaceCaps_def)
    next
      case False
      with True op r have "ReplaceCaps io opts force m = Some (evictedCaps io ?m, None)"
        by (auto simp: ReplaceCaps_def Let_def)
      with i show ?thesis by (auto simp: evictedCaps_def)
    qed
  qed
qed

subsection \<open>Candidates\<close>

lemma applyOne_store:
  "applyOne st op i = Inr st' \<Longrightarrow> o_Op op \<noteq> OpReplaceStoreCaps \<Longrightarrow> sp_Store (st_Spec st') = sp_Store (st_Spec st)"
  by (auto simp: applyOne_def applySetFeature_def needs_def Let_def split: if_splits option.splits)

lemma applyOps_store:
  "applyOps st i ops = Inr st' \<Longrightarrow> \<not> anyReplaceStoreCaps ops \<Longrightarrow> sp_Store (st_Spec st') = sp_Store (st_Spec st)"
  by (induction ops arbitrary: st i) (auto simp: anyReplaceStoreCaps_def applyOne_store split: sum.splits)

lemma materializeStore:
  "ss_FullPolicy (sp_Store (materializeDefaults u sp)) = orDefault u (ss_FullPolicy (sp_Store sp)) FullPolicyReject"
  "sp_Store (materializeDefaults u sp) = (sp_Store sp)\<lparr>ss_FullPolicy := orDefault u (ss_FullPolicy (sp_Store sp)) FullPolicyReject\<rparr>"
  by (simp_all add: materializeDefaults_def Let_def)

lemma buildCandidate_ok:
  assumes "buildCandidate ev a inp True = Inr cand" and "sst_active (app_snaps a) = Some s" and "snap_ok u s" and "ce_go (av_compile ev) = u"
  shows "snap_ok u (cd_next cand)" and "cd_prev cand = Some s" and "cd_ops cand = ci_Operations inp"
    and "ci_ExpectedRevision inp = sn_Revision s" and "sn_Generation (cd_next cand) = sn_Generation s + 1"
    and "\<not> anyReplaceStoreCaps (ci_Operations inp) \<Longrightarrow> storeSpecOf (cd_next cand) = storeSpecOf s"
proof -
  from assms(3) obtain st where c: "sn_Canonical s = Some st" and m: "materializeDefaults u (st_Spec st) = st_Spec st"
    by (auto simp: snap_ok_def)
  obtain st' nx where o: "applyOps st 0 (ci_Operations inp) = Inr st'"
    and n: "compileCandidate ev st' (Some s) (ci_Operations inp) = Inr nx" and x: "cd_next cand = nx" "cd_prev cand = Some s"
    "cd_ops cand = ci_Operations inp" and e: "ci_ExpectedRevision inp = sn_Revision s"
    using assms(1,2) c by (auto simp: buildCandidate_def active_def cloneState_def applyOperations_def split: if_splits sum.splits option.splits)
  note k = Compile_ok[OF n[unfolded compileCandidate_def]]
  show "snap_ok u (cd_next cand)" using k(1) x(1) assms(4) by simp
  show "cd_prev cand = Some s" "cd_ops cand = ci_Operations inp" "ci_ExpectedRevision inp = sn_Revision s" by (fact x e)+
  show "sn_Generation (cd_next cand) = sn_Generation s + 1" using k(2) x(1) by simp
  show "storeSpecOf (cd_next cand) = storeSpecOf s" if "\<not> anyReplaceStoreCaps (ci_Operations inp)"
  proof -
    have "sp_Store (st_Spec st') = sp_Store (st_Spec st)" by (rule applyOps_store[OF o that])
    moreover have "sp_Store (materializeDefaults u (st_Spec st)) = sp_Store (st_Spec st)" using m by simp
    ultimately show ?thesis using k(3) x(1) c assms(4) by (simp add: storeSpecOf_def materializeStore)
  qed
qed

definition inboxFits :: "memory option \<Rightarrow> StoreSpec \<Rightarrow> bool" where
  "inboxFits mo spec \<longleftrightarrow> (\<exists>m. mo = Some m \<and> inv_store m \<and> hasCaps m spec)"

lemma replaceCaps_ok:
  assumes inv: "inv_store m" and s: "snap_ok u s"
  shows "\<exists>m' e. replaceCaps ev (storeSpecOf s) force True m = Some (m', e)
    \<and> (case e of None \<Rightarrow> inv_store m' \<and> hasCaps m' (storeSpecOf s) | Some _ \<Rightarrow> m' = m)"
proof -
  from snap_options[OF s] obtain op where op: "normalizeOptions (OptionsFromSpec (storeSpecOf s)) = Inr op"
    "op_MaxFlows op = ss_MaxFlows (storeSpecOf s)" "op_MaxBytes op = ss_MaxBytes (storeSpecOf s)"
    "op_MaxBodyBytes op = ss_MaxBodyBytes (storeSpecOf s)" "op_FullPolicy op = ss_FullPolicy (storeSpecOf s)" by blast
  from ReplaceCaps_outcome[OF inv op(1), where io = "av_io ev" and force = force] op(2-) show ?thesis
    by (auto simp: replaceCaps_def hasCaps_def)
qed

text \<open>A change of caps is blocked when the inbox does not fit them and nothing may be evicted. When it
  is not blocked it goes through.\<close>

definition capsBlocked :: "memory \<Rightarrow> StoreSpec \<Rightarrow> bool \<Rightarrow> bool" where
  "capsBlocked m spec force \<longleftrightarrow> (int (length (m_byID m)) > ss_MaxFlows spec \<or> m_bytes m > ss_MaxBytes spec)
     \<and> ss_FullPolicy spec \<noteq> FullPolicyEvictOldest \<and> \<not> force"

lemma replaceCaps_unblocked:
  assumes inv: "inv_store m" and s: "snap_ok u s" and "\<not> capsBlocked m (storeSpecOf s) force"
  shows "\<exists>m'. replaceCaps ev (storeSpecOf s) force True m = Some (m', None)"
proof -
  from snap_options[OF s] obtain op where op: "normalizeOptions (OptionsFromSpec (storeSpecOf s)) = Inr op"
    "op_MaxFlows op = ss_MaxFlows (storeSpecOf s)" "op_MaxBytes op = ss_MaxBytes (storeSpecOf s)" "op_FullPolicy op = ss_FullPolicy (storeSpecOf s)" by blast
  with ReplaceCaps_outcome[OF inv op(1), where io = "av_io ev" and force = force] assms(3) show ?thesis by (auto simp: replaceCaps_def capsBlocked_def)
qed

text \<open>With a change of caps the check refuses, or replaces the caps and adds a warning at most.\<close>

lemma checkStoreCaps_any:
  assumes "app_inbox a = Some m" and "sn_Canonical (cd_next cand) = Some st" and "anyReplaceStoreCaps (cd_ops cand)"
  obtains c where "c = cand \<or> (\<exists>w. c = cand\<lparr>cd_warn := w\<rparr>)" and "\<forall>commit. checkStoreCaps ev a cand force commit =
    (if capsBlocked m (storeSpecOf (cd_next cand)) force then Some (a, Inl StoreOverNewCap)
     else map_option (\<lambda>(m', e). (a\<lparr>app_inbox := Some m'\<rparr>, case e of None \<Rightarrow> Inr c | Some err \<Rightarrow> Inl err))
       (replaceCaps ev (storeSpecOf (cd_next cand)) force commit m))"
proof -
  let ?spec = "storeSpecOf (cd_next cand)"
  have sp: "sp_Store (st_Spec st) = ?spec" using assms(2) by (simp add: storeSpecOf_def)
  let ?over = "st_FlowCount (Stats m) > ss_MaxFlows ?spec \<or> st_Bytes (Stats m) > ss_MaxBytes ?spec"
  have bl: "capsBlocked m ?spec force = (?over \<and> ss_FullPolicy ?spec \<noteq> FullPolicyEvictOldest \<and> \<not> force)"
    by (simp add: capsBlocked_def Stats_def)
  show ?thesis
  proof (cases ?over)
    case True
    let ?n = "if st_FlowCount (Stats m) - ss_MaxFlows ?spec < 0 then 0 else st_FlowCount (Stats m) - ss_MaxFlows ?spec"
    show ?thesis
      by (rule that[of "cand\<lparr>cd_warn := Some (elems (cd_warn cand) @ [\<lparr>wn_Code = ''store_evict'',
           wn_Message = ''apply evicts oldest flows to fit new caps (at least '' @ FormatInt ?n @ '')''\<rparr>])\<rparr>"])
        (blast, simp only: bl checkStoreCaps_def assms option.case sp Let_def True if_True if_False simp_thms)
  next
    case False
    then show ?thesis by (intro that[of cand]) (simp_all add: bl checkStoreCaps_def assms sp Let_def)
  qed
qed

lemma checkStoreCaps_ok:
  assumes fits: "inboxFits (app_inbox a) (storeSpecOf s)" and ok: "snap_ok u (cd_next cand)"
    and same: "\<not> anyReplaceStoreCaps (cd_ops cand) \<Longrightarrow> storeSpecOf (cd_next cand) = storeSpecOf s"
  shows "\<exists>a2 r. checkStoreCaps ev a cand force commit = Some (a2, r) \<and>
    (case r of Inl e \<Rightarrow> a2 = a
     | Inr c \<Rightarrow> cd_next c = cd_next cand \<and> cd_prev c = cd_prev cand
         \<and> (\<exists>mo. a2 = a\<lparr>app_inbox := mo\<rparr> \<and> (if commit then inboxFits mo (storeSpecOf (cd_next cand)) else mo = app_inbox a)))"
proof -
  from ok obtain st where c: "sn_Canonical (cd_next cand) = Some st" by (auto simp: snap_ok_def)
  then have sp: "sp_Store (st_Spec st) = storeSpecOf (cd_next cand)" by (simp add: storeSpecOf_def)
  from fits obtain m where Some: "app_inbox a = Some m" by (auto simp: inboxFits_def)
  show ?thesis
  proof -
    from Some have m: "inv_store m" "hasCaps m (storeSpecOf s)" and am: "a = a\<lparr>app_inbox := Some m\<rparr>"
      using fits by (auto simp: inboxFits_def)
    show ?thesis
    proof (cases "anyReplaceStoreCaps (cd_ops cand)")
      case False
      with Some c m am same show ?thesis
        by (auto simp: checkStoreCaps_def inboxFits_def intro!: exI[of _ "Some m"])
    next
      case True
      from Some c True obtain c where w: "c = cand \<or> (\<exists>w. c = cand\<lparr>cd_warn := w\<rparr>)" and eq: "\<forall>commit. checkStoreCaps ev a cand force commit =
        (if capsBlocked m (storeSpecOf (cd_next cand)) force then Some (a, Inl StoreOverNewCap)
         else map_option (\<lambda>(m', e). (a\<lparr>app_inbox := Some m'\<rparr>, case e of None \<Rightarrow> Inr c | Some err \<Rightarrow> Inl err))
           (replaceCaps ev (storeSpecOf (cd_next cand)) force commit m))"
        by (rule checkStoreCaps_any)
      from replaceCaps_ok[OF m(1) ok, of ev force] obtain m' e where
        r: "replaceCaps ev (storeSpecOf (cd_next cand)) force True m = Some (m', e)"
        "case e of None \<Rightarrow> inv_store m' \<and> hasCaps m' (storeSpecOf (cd_next cand)) | Some _ \<Rightarrow> m' = m" by blast
      have f: "replaceCaps ev (storeSpecOf (cd_next cand)) force False m = Some (m, None)" by (simp add: replaceCaps_def)
      show ?thesis
      proof (cases "capsBlocked m (storeSpecOf (cd_next cand)) force")
        case False
        show ?thesis
        proof (cases commit)
          case True
          then have com: "commit = True" by simp
          have "checkStoreCaps ev a cand force commit =
              Some (a\<lparr>app_inbox := Some m'\<rparr>, case e of None \<Rightarrow> Inr c | Some err \<Rightarrow> Inl err)"
            using eq com False r(1) by simp
          with r(2) am com w show ?thesis by (cases e) (auto simp: inboxFits_def intro!: exI[of _ "Some m'"])
        next
          case nc: False
          then have com: "commit = False" by simp
          have "checkStoreCaps ev a cand force commit = Some (a, Inr c)"
            using eq com False f am by simp
          with am com Some w show ?thesis by (auto intro!: exI[of _ "Some m"])
        qed
      qed (simp add: eq)
    qed
  qed
qed

text \<open>What the check lets a plan do it lets an apply do, with the same candidate.\<close>

lemma checkStoreCaps_commits:
  assumes fits: "inboxFits (app_inbox a) (storeSpecOf s)" and ok: "snap_ok u (cd_next cand)"
    and plan: "checkStoreCaps ev a cand force False = Some (a1, Inr c)"
  shows "\<exists>a2. checkStoreCaps ev a cand force True = Some (a2, Inr c)"
proof -
  from fits obtain m where m: "app_inbox a = Some m" "inv_store m" by (auto simp: inboxFits_def)
  from ok obtain st where st: "sn_Canonical (cd_next cand) = Some st" by (auto simp: snap_ok_def)
  show ?thesis
  proof (cases "anyReplaceStoreCaps (cd_ops cand)")
    case True
    from m(1) st True obtain c' where eq: "\<forall>commit. checkStoreCaps ev a cand force commit =
        (if capsBlocked m (storeSpecOf (cd_next cand)) force then Some (a, Inl StoreOverNewCap)
         else map_option (\<lambda>(m', e). (a\<lparr>app_inbox := Some m'\<rparr>, case e of None \<Rightarrow> Inr c' | Some err \<Rightarrow> Inl err))
           (replaceCaps ev (storeSpecOf (cd_next cand)) force commit m))"
      by (rule checkStoreCaps_any)
    with plan have nb: "\<not> capsBlocked m (storeSpecOf (cd_next cand)) force" and c: "c' = c"
      by (auto simp: replaceCaps_def split: if_splits)
    from replaceCaps_unblocked[OF m(2) ok nb, of ev] eq nb c show ?thesis by auto
  next
    case False
    with plan m st show ?thesis by (auto simp: checkStoreCaps_def)
  qed
qed

subsection \<open>Recording and storing\<close>

definition logged :: "Fanout option \<Rightarrow> bool" where
  "logged fo \<longleftrightarrow> (\<exists>f hook mx h. fo = Some f \<and> logs hook mx f h)"

definition cached :: "'op idempCache \<Rightarrow> bool" where
  "cached c \<longleftrightarrow> (\<exists>L. holds c L)"

lemma RedactEvent_fields [simp]:
  "ae_Previous (RedactEvent u d m e) = ae_Previous e" "ae_Revision (RedactEvent u d m e) = ae_Revision e"
  "ae_Capability (RedactEvent u d m e) = ae_Capability e"
  by (simp_all add: RedactEvent_def Let_def)

lemma recordAudit_ok:
  assumes "logged (app_audit a)" and "recordAudit ev e a = (a', eid)"
  shows "\<exists>fo e'. a' = a\<lparr>app_audit := fo\<rparr> \<and> logged fo \<and> auditGet fo eid = Some e'
    \<and> ae_Previous e' = ae_Previous e \<and> ae_Revision e' = ae_Revision e \<and> ae_Capability e' = ae_Capability e"
proof -
  let ?u = "ce_go (av_compile ev)" and ?d = "av_decode ev" and ?m = "av_marshal ev"
  let ?e = "if ae_Result e = '''' then e\<lparr>ae_Result := ''ok''\<rparr> else e"
  from assms(1) obtain f hook mx h where f: "app_audit a = Some f" "logs hook mx f h" by (auto simp: logged_def)
  let ?e' = "(RedactEvent ?u ?d ?m ?e)\<lparr>ae_ID := auditID (of_nat (length h) + 1)\<rparr>"
  from auditlog.step_spec[OF f(2), of ?u ?d ?m "AuditRecord ?e"] obtain f' where
    f': "auditRecord ?u ?d ?m (Some f) ?e = (Some f', ?e')" "logs hook mx f' (h @ [?e'])"
    by (auto simp: auditSpec_def auditStep_def Let_def split: prod.splits)
  from f'(2) have "0 < mx" by (simp add: logs_def)
  then obtain h1 where "window mx (h @ [?e']) = h1 @ [?e']" using window_keeps[of "[]" mx h ?e'] by auto
  then have "find (\<lambda>x. ae_ID x = ae_ID ?e') (rev (window mx (h @ [?e']))) = Some ?e'" by simp
  with auditlog.step_spec[OF f'(2), of ?u ?d ?m "AuditGet (ae_ID ?e')"] have "auditGet (Some f') (ae_ID ?e') = Some ?e'"
    by (auto simp: auditStep_def auditSpec_def)
  moreover have "a' = a\<lparr>app_audit := Some f'\<rparr>" "eid = ae_ID ?e'" using assms(2) f(1) f'(1) by (auto simp: recordAudit_def)
  ultimately show ?thesis using f'(2) by (intro exI[of _ "Some f'"] exI[of _ ?e']) (auto simp: logged_def)
qed

lemma cached_lookup: "cached c \<Longrightarrow> lookup k fp c = (c', r) \<Longrightarrow> cached c'"
  using holds_lookup unfolding cached_def by (metis prod.inject)

lemma cached_evict: "cached c \<Longrightarrow> cached (evict k c)"
  using holds_evict(1) unfolding cached_def by (cases "k = ''''") (auto simp: evict_def)

lemma cached_clear: "cached c \<Longrightarrow> cached (clear c)"
  using holds_clear unfolding cached_def by blast

lemma cached_storePlan: "cached c \<Longrightarrow> \<exists>c'. storePlan k fp (Some p) c = Some c' \<and> cached c'"
  using holds_storePlan[of c _ k "Some p" fp] unfolding cached_def by (cases "k = ''''") (auto simp: storePlan_def)

lemma cached_storeApply: "cached c \<Longrightarrow> \<exists>c'. storeApply k fp (Some r) c = Some c' \<and> cached c'"
  using holds_storeApply[of c _ k "Some r" fp] unfolding cached_def by (cases "k = ''''") (auto simp: storeApply_def)

end
