(* ===== verification/App_Apply.thy ===== *)
theory App_Apply
  imports App_Props
begin

text \<open>
  Reachable states of the control plane and what an apply does in them.
\<close>

subsection \<open>The invariant\<close>

definition app_ok :: "go_env \<Rightarrow> 'ca App \<Rightarrow> bool" where
  "app_ok u a \<longleftrightarrow> cached (app_idemp a) \<and> logged (app_audit a)
     \<and> (\<exists>s. sst_active (app_snaps a) = Some s \<and> snap_ok u s \<and> inboxFits (app_inbox a) (storeSpecOf s))"

lemma app_ok_idemp: "app_ok u a \<Longrightarrow> cached c \<Longrightarrow> app_ok u (a\<lparr>app_idemp := c\<rparr>)"
  by (simp add: app_ok_def)

lemma forget_ok: "app_ok u a \<Longrightarrow> app_ok u (forgetIdempOnConflict k e a)"
  by (auto simp: forgetIdempOnConflict_def app_ok_def cached_evict split: app_error.splits)

lemma forget_fields [simp]:
  "app_snaps (forgetIdempOnConflict k e a) = app_snaps a" "app_inbox (forgetIdempOnConflict k e a) = app_inbox a"
  "app_audit (forgetIdempOnConflict k e a) = app_audit a"
  by (auto simp: forgetIdempOnConflict_def split: app_error.splits)

lemma cloneApply_fields:
  "ar_AuditEventID (the (cloneApply (Some r))) = ar_AuditEventID r" "ar_RuntimeRevision (the (cloneApply (Some r))) = ar_RuntimeRevision r"
  "ar_Generation (the (cloneApply (Some r))) = ar_Generation r"
  by (simp_all add: cloneApply_def)

subsection \<open>Applying a change\<close>

text \<open>What is left alone, and what a commit has done.\<close>

definition untouched :: "'ca App \<Rightarrow> 'ca App \<Rightarrow> bool" where
  "untouched a a' \<longleftrightarrow> app_snaps a' = app_snaps a \<and> app_inbox a' = app_inbox a \<and> app_audit a' = app_audit a"

definition committed :: "'ca App \<Rightarrow> 'ca App \<Rightarrow> ChangeIn \<Rightarrow> Operation ApplyResult \<Rightarrow> bool" where
  "committed a a' inp res \<longleftrightarrow> (\<exists>s s' e.
     sst_active (app_snaps a) = Some s \<and> sst_active (app_snaps a') = Some s' \<and> sst_previous (app_snaps a') = Some s
     \<and> ci_ExpectedRevision inp = sn_Revision s \<and> sn_Generation s' = sn_Generation s + 1
     \<and> ar_RuntimeRevision res = sn_Revision s' \<and> ar_Generation res = sn_Generation s'
     \<and> auditGet (app_audit a') (ar_AuditEventID res) = Some e
     \<and> ae_Previous e = sn_Revision s \<and> ae_Revision e = sn_Revision s' \<and> ae_Capability e = ''changes.apply'')"

lemma commitApply_ok:
  assumes "cached (app_idemp a)" and "logged (app_audit a)" and act: "sst_active (app_snaps a) = Some s"
    and ok: "snap_ok u (cd_next cand)" and fits: "inboxFits (app_inbox a) (storeSpecOf (cd_next cand))"
    and rv: "ci_ExpectedRevision inp = sn_Revision s" and gen: "sn_Generation (cd_next cand) = sn_Generation s + 1"
  shows "\<exists>a' res. commitApply ev actor inp fp cand a = Some (a', res) \<and> app_ok u a' \<and> app_inbox a' = app_inbox a
    \<and> committed a a' inp (the (cloneApply (Some res)))"
proof -
  let ?snaps = "(app_snaps a)\<lparr>sst_active := Some (cd_next cand), sst_previous := Some s\<rparr>"
  let ?e = "applyEvent ev actor ''changes.apply'' (ci_Reason inp) (cd_next cand) (Some s) (cd_diff cand) 0"
  have sw: "snapSwap (Some (cd_next cand)) (app_snaps a) = (?snaps, Some s)" using act by (simp add: snapSwap_def Let_def)
  obtain a1 eid where ra: "recordAudit ev ?e (a\<lparr>app_snaps := ?snaps\<rparr>) = (a1, eid)" by fastforce
  from recordAudit_ok[OF _ ra] assms(2) obtain fo e' where a1: "a1 = a\<lparr>app_snaps := ?snaps, app_audit := fo\<rparr>" "logged fo"
    and e': "auditGet fo eid = Some e'" "ae_Previous e' = ae_Previous ?e" "ae_Revision e' = ae_Revision ?e" "ae_Capability e' = ae_Capability ?e"
    by auto
  let ?res = "(applyResult cand)\<lparr>ar_AuditEventID := eid\<rparr>"
  from cached_storeApply[OF assms(1), of "ci_IdempotencyKey inp" fp ?res] obtain c where
    c: "storeApply (ci_IdempotencyKey inp) fp (Some ?res) (app_idemp a) = Some c" "cached c" by blast
  have "commitApply ev actor inp fp cand a = Some (a1\<lparr>app_idemp := c\<rparr>, ?res)"
    using sw ra c(1) a1(1) by (simp add: commitApply_def Let_def)
  moreover have "app_ok u (a1\<lparr>app_idemp := c\<rparr>)" using a1 c(2) ok fits by (simp add: app_ok_def)
  moreover have "committed a (a1\<lparr>app_idemp := c\<rparr>) inp (the (cloneApply (Some ?res)))"
    using act a1(1) e' rv gen by (simp add: committed_def cloneApply_fields applyResult_def applyEvent_def revisionOf_def)
  ultimately show ?thesis using a1(1) by auto
qed

lemma applyLocked_ok:
  assumes ok: "app_ok u a" and go: "ce_go (av_compile ev) = u"
  shows "\<exists>a' r fire. applyLocked ev a actor inp = Some (a', r, fire) \<and> app_ok u a' \<and>
    (case r of Inl e \<Rightarrow> \<not> fire \<and> untouched a a' | Inr res \<Rightarrow> if fire then committed a a' inp res else untouched a a')"
proof -
  let ?k = "ci_IdempotencyKey inp"
  from ok obtain s where s: "sst_active (app_snaps a) = Some s" "snap_ok u s" "inboxFits (app_inbox a) (storeSpecOf s)"
    and ca: "cached (app_idemp a)" and lg: "logged (app_audit a)" by (auto simp: app_ok_def)
  show ?thesis
  proof (cases "av_fingerprint ev inp")
    case None
    with ok show ?thesis by (auto simp: applyLocked_def untouched_def)
  next
    case (Some fp)
    obtain c l where l: "lookup ?k fp (app_idemp a) = (c, l)" by fastforce
    note c = cached_lookup[OF ca l]
    let ?a = "a\<lparr>app_idemp := c\<rparr>"
    note ok1 = app_ok_idemp[OF ok c]
    show ?thesis
    proof (cases "\<exists>hit. l = Inr hit \<and> Option.bind hit ie_apply = None")
      case False
      with Some l ok1 show ?thesis
        by (cases l) (auto simp: applyLocked_def untouched_def Let_def split: option.splits)
    next
      case True
      then have eq: "applyLocked ev a actor inp =
        (case buildCandidate ev ?a inp True of
           Inl e \<Rightarrow> Some (forgetIdempOnConflict ?k e ?a, Inl e, False)
         | Inr cand \<Rightarrow>
           (case checkStoreCaps ev ?a cand (ci_Force inp) True of None \<Rightarrow> None
            | Some (a2, Inl e) \<Rightarrow> Some (a2, Inl e, False)
            | Some (a2, Inr cand') \<Rightarrow>
              map_option (\<lambda>(a3, res). (a3, Inr (the (cloneApply (Some res))), True)) (commitApply ev actor inp fp cand' a2)))"
        using Some l by (auto simp: applyLocked_def Let_def)
      show ?thesis
      proof (cases "buildCandidate ev ?a inp True")
        case (Inl e)
        with forget_ok[OF ok1, of ?k e] show ?thesis by (auto simp: eq untouched_def)
      next
        case (Inr cand)
        note b = buildCandidate_ok[OF Inr _ s(2) go]
        from s b obtain a2 r where k: "checkStoreCaps ev ?a cand (ci_Force inp) True = Some (a2, r)"
          and kr: "case r of Inl e \<Rightarrow> a2 = ?a | Inr cand' \<Rightarrow> cd_next cand' = cd_next cand \<and> cd_prev cand' = cd_prev cand
            \<and> (\<exists>mo. a2 = ?a\<lparr>app_inbox := mo\<rparr> \<and> (if True then inboxFits mo (storeSpecOf (cd_next cand)) else mo = app_inbox ?a))"
          using checkStoreCaps_ok[of ?a s u cand ev "ci_Force inp" True] by auto
        show ?thesis
        proof (cases r)
          case (Inl e)
          with kr ok1 k Inr show ?thesis by (auto simp: eq untouched_def)
        next
          case r: (Inr cand')
          with kr obtain mo where a2: "a2 = ?a\<lparr>app_inbox := mo\<rparr>" "inboxFits mo (storeSpecOf (cd_next cand))"
            and n: "cd_next cand' = cd_next cand" by auto
          have "\<exists>a' res. commitApply ev actor inp fp cand' a2 = Some (a', res) \<and> app_ok u a' \<and> app_inbox a' = app_inbox a2
              \<and> committed a2 a' inp (the (cloneApply (Some res)))"
            by (rule commitApply_ok[where s = s]) (use a2 n b s c lg in \<open>simp_all\<close>)
          then obtain a' res where "commitApply ev actor inp fp cand' a2 = Some (a', res)" "app_ok u a'"
            "committed a2 a' inp (the (cloneApply (Some res)))" by blast
          moreover have "committed a2 a' inp x = committed a a' inp x" for x using a2(1) by (simp add: committed_def)
          ultimately show ?thesis using Inr k r by (auto simp: eq)
        qed
      qed
    qed
  qed
qed

lemma planLocked_ok:
  assumes ok: "app_ok u a" and go: "ce_go (av_compile ev) = u"
  shows "\<exists>a' r. planLocked ev a inp = Some (a', r) \<and> app_ok u a' \<and> untouched a a'"
proof -
  let ?k = "ci_IdempotencyKey inp"
  from ok obtain s where s: "sst_active (app_snaps a) = Some s" "snap_ok u s" "inboxFits (app_inbox a) (storeSpecOf s)"
    and ca: "cached (app_idemp a)" by (auto simp: app_ok_def)
  show ?thesis
  proof (cases "av_fingerprint ev inp")
    case None
    with ok show ?thesis by (simp add: planLocked_def untouched_def)
  next
    case (Some fp)
    obtain c l where l: "lookup ?k fp (app_idemp a) = (c, l)" by fastforce
    note c = cached_lookup[OF ca l]
    let ?a = "a\<lparr>app_idemp := c\<rparr>"
    note ok1 = app_ok_idemp[OF ok c]
    show ?thesis
    proof (cases "\<exists>hit. l = Inr hit \<and> Option.bind hit ie_plan = None")
      case False
      with Some l ok1 show ?thesis
        by (cases l) (auto simp: planLocked_def untouched_def Let_def split: option.splits)
    next
      case True
      then have eq: "planLocked ev a inp =
        (case buildCandidate ev ?a inp True of
           Inl e \<Rightarrow> Some (forgetIdempOnConflict ?k e ?a, Inl e)
         | Inr cand \<Rightarrow>
           (case checkStoreCaps ev ?a cand (ci_Force inp) False of None \<Rightarrow> None
            | Some (a2, Inl e) \<Rightarrow> Some (a2, Inl e)
            | Some (a2, Inr cand') \<Rightarrow>
              map_option (\<lambda>c2. (a2\<lparr>app_idemp := c2\<rparr>, Inr (the (clonePlan (Some (planFrom cand'))))))
                (storePlan ?k fp (Some (planFrom cand')) (app_idemp a2))))"
        using Some l by (auto simp: planLocked_def Let_def)
      show ?thesis
      proof (cases "buildCandidate ev ?a inp True")
        case (Inl e)
        with forget_ok[OF ok1, of ?k e] show ?thesis by (auto simp: eq untouched_def)
      next
        case (Inr cand)
        note b = buildCandidate_ok[OF Inr _ s(2) go]
        from s b obtain a2 r where k: "checkStoreCaps ev ?a cand (ci_Force inp) False = Some (a2, r)"
          and kr: "case r of Inl e \<Rightarrow> a2 = ?a | Inr cand' \<Rightarrow> cd_next cand' = cd_next cand \<and> cd_prev cand' = cd_prev cand
            \<and> (\<exists>mo. a2 = ?a\<lparr>app_inbox := mo\<rparr> \<and> (if False then inboxFits mo (storeSpecOf (cd_next cand)) else mo = app_inbox ?a))"
          using checkStoreCaps_ok[of ?a s u cand ev "ci_Force inp" False] by auto
        from kr have a2: "a2 = ?a" by (cases r) auto
        show ?thesis
        proof (cases r)
          case (Inl e)
          with a2 ok1 k Inr show ?thesis by (auto simp: eq untouched_def)
        next
          case r: (Inr cand')
          from cached_storePlan[OF c, of ?k fp "planFrom cand'"] obtain c2 where
            "storePlan ?k fp (Some (planFrom cand')) c = Some c2" "cached c2" by blast
          with a2 r k Inr ok show ?thesis by (simp add: eq untouched_def app_ok_def)
        qed
      qed
    qed
  qed
qed

subsection \<open>Reset and start\<close>

lemma normalizeOptions_idem:
  assumes "normalizeOptions opts = Inr op"
  shows "normalizeOptions op = Inr op"
proof -
  note ok = normalizeOptions_ok[OF assms]
  have "op_SpillDirectory op = '''' \<or> 0 < op_SpillThreshold op"
    using assms by (auto simp: normalizeOptions_def Let_def split: if_splits)
  then show ?thesis using ok by (auto simp: normalizeOptions_def Let_def FullPolicyEvictOldest_def FullPolicyReject_def)
qed

lemma resetInbox_ok:
  assumes "inboxFits mo spec0" and s: "snap_ok u s" and "resetInbox ev (storeSpecOf s) mo = (mo', r)"
  shows "if r = None then inboxFits mo' (storeSpecOf s) else mo' = mo"
proof -
  from assms(1) obtain m where Some: "mo = Some m" and m: "inv_store m" by (auto simp: inboxFits_def)
  from snap_options[OF s] obtain op where op: "normalizeOptions (OptionsFromSpec (storeSpecOf s)) = Inr op"
    "op_MaxFlows op = ss_MaxFlows (storeSpecOf s)" "op_MaxBytes op = ss_MaxBytes (storeSpecOf s)"
    "op_MaxBodyBytes op = ss_MaxBodyBytes (storeSpecOf s)" "op_FullPolicy op = ss_FullPolicy (storeSpecOf s)" by blast
  note again = normalizeOptions_idem[OF op(1)]
  have "inv_store (fst (ResetTo (av_io ev) op m))" by (rule ResetTo_inv[OF m])
  moreover have "hasCaps (fst (ResetTo (av_io ev) op m)) (storeSpecOf s)" "snd (ResetTo (av_io ev) op m) = None"
    using op(2-) again by (simp_all add: ResetTo_def hasCaps_def emitLocked_def)
  ultimately show ?thesis using assms(3) Some op(1)
    by (auto simp: resetInbox_def CheckOptions_def inboxFits_def case_prod_beta split: if_splits)
qed

lemma map_sum_Inr_iff: "map_sum f id x = Inr y \<longleftrightarrow> x = Inr y"
  by (cases x) auto

lemma bootstrap_ok:
  "loadBootstrapCandidate ev a gen = Inr s \<Longrightarrow> snap_ok (ce_go (av_compile ev)) s"
  by (auto simp: loadBootstrapCandidate_def map_sum_Inr_iff dest!: Compile_ok(1) split: if_splits option.splits sum.splits)

lemma resetLocked_ok:
  assumes ok: "app_ok u a" and go: "ce_go (av_compile ev) = u" and r: "resetLocked ev a actor reason = (a', r)"
  shows "app_ok u a' \<and> (case r of Inl e \<Rightarrow> untouched a a' | Inr res \<Rightarrow> True)"
proof -
  from ok obtain s0 where s0: "sst_active (app_snaps a) = Some s0" "inboxFits (app_inbox a) (storeSpecOf s0)"
    and ca: "cached (app_idemp a)" and lg: "logged (app_audit a)" by (auto simp: app_ok_def)
  let ?gen = "sn_Generation s0 + 1"
  show ?thesis
  proof (cases "loadBootstrapCandidate ev a ?gen")
    case (Inl e)
    with r ok s0(1) show ?thesis by (auto simp: resetLocked_def untouched_def)
  next
    case (Inr nx)
    with go have nx: "snap_ok u nx" using bootstrap_ok by blast
    then obtain st where st: "sn_Canonical nx = Some st" by (auto simp: snap_ok_def)
    then have sp: "sp_Store (st_Spec st) = storeSpecOf nx" by (simp add: storeSpecOf_def)
    obtain mo e where ri: "resetInbox ev (storeSpecOf nx) (app_inbox a) = (mo, e)" by fastforce
    note io = resetInbox_ok[OF s0(2) nx ri]
    show ?thesis
    proof (cases "diffStates ev (sn_Canonical s0) (sn_Canonical nx) = None \<or> av_runtime ev (st_Spec st) \<noteq> None \<or> e \<noteq> None")
      case True
      with r ok s0(1) Inr st sp ri io show ?thesis
        by (auto simp: resetLocked_def untouched_def split: option.splits if_splits)
    next
      case False
      then obtain diff where d: "diffStates ev (sn_Canonical s0) (sn_Canonical nx) = Some diff" and rt: "av_runtime ev (st_Spec st) = None"
        and e: "e = None" by auto
      let ?snaps = "SetBootstrap (Some nx) ((app_snaps a)\<lparr>sst_active := Some nx, sst_previous := Some s0\<rparr>)"
      let ?a1 = "a\<lparr>app_inbox := mo, app_snaps := ?snaps, app_idemp := clear (app_idemp a)\<rparr>"
      obtain a2 eid where ra: "recordAudit ev (applyEvent ev actor ''state.reset'' reason nx (Some s0) diff (storeGeneration mo)) ?a1 = (a2, eid)"
        by fastforce
      from recordAudit_ok[OF _ ra] lg obtain fo where a2: "a2 = ?a1\<lparr>app_audit := fo\<rparr>" "logged fo" by auto
      have "a' = a2 \<and> (\<exists>res. r = Inr res)"
        using r s0(1) Inr d st sp rt ri e ra by (auto simp: resetLocked_def snapSwap_def Let_def)
      then show ?thesis using a2 cached_clear[OF ca] nx io e by (auto simp: app_ok_def SetBootstrap_def)
    qed
  qed
qed

lemma boot_ok:
  assumes "appBoot ev path im am hook fs = Inr a"
  shows "app_ok (ce_go (av_compile ev)) a"
proof -
  from assms obtain st s cst m where s: "Compile (av_compile ev) (Some st)
      \<lparr>co_BootstrapRevision = '''', co_Generation = 0, co_Previous = None, co_RotateCA = False, co_ReloadHTTPAuth = False\<rparr> = Inr s"
    and c: "sn_Canonical s = Some cst" and m: "newMemory (av_io ev) (OptionsFromSpec (sp_Store (st_Spec cst))) fs = Inr m"
    and a: "a = newApp (fst (InstallBootstrap (Some s) NewStore)) (Some m) path im am hook"
    by (auto simp: appBoot_def split: if_splits sum.splits option.splits)
  note so = Compile_ok(1)[OF s]
  from snap_options[OF so] c obtain op where op: "normalizeOptions (OptionsFromSpec (sp_Store (st_Spec cst))) = Inr op"
    "op_MaxFlows op = ss_MaxFlows (storeSpecOf s)" "op_MaxBytes op = ss_MaxBytes (storeSpecOf s)"
    "op_MaxBodyBytes op = ss_MaxBodyBytes (storeSpecOf s)" "op_FullPolicy op = ss_FullPolicy (storeSpecOf s)"
    by (auto simp: storeSpecOf_def)
  have "hasCaps m (storeSpecOf s)"
    using m op by (auto simp: newMemory_def hasCaps_def Let_def case_prod_beta split: if_splits)
  with newMemory_inv[OF m] have "inboxFits (Some m) (storeSpecOf s)" by (simp add: inboxFits_def)
  moreover have "cached (newIdempCache mx :: Operation idempCache)" for mx using holds_new_cache unfolding cached_def by blast
  moreover have "logged (Some (NewFanout mx hook))" for mx using logs_new[of hook mx] unfolding logged_def by blast
  ultimately show ?thesis using so
    by (simp add: a app_ok_def newApp_def InstallBootstrap_def snapSwap_def SetBootstrap_def NewStore_def Let_def)
qed

end
