(* ===== verification/App_Reach.thy ===== *)
theory App_Reach
  imports App_Apply
begin

text \<open>
  The states the control plane can be in, and what holds in all of them. Between two calls the proxy
  works on the inbox: of that only what the inbox guarantees is used, that its invariant stays and
  that no flow operation writes the caps.
\<close>

subsection \<open>Reachable states\<close>

inductive app_reach :: "go_env \<Rightarrow> 'ca App \<Rightarrow> bool" for u where
  boot: "ce_go (av_compile ev) = u \<Longrightarrow> appBoot ev path idempMax auditMax hook fs = Inr a \<Longrightarrow> app_reach u a"
| plan: "app_reach u a \<Longrightarrow> ce_go (av_compile ev) = u \<Longrightarrow> appPlan ev a inp = Some (a', r) \<Longrightarrow> app_reach u a'"
| change: "app_reach u a \<Longrightarrow> ce_go (av_compile ev) = u \<Longrightarrow> appApply ev a actor inp = Some (a', r, fire) \<Longrightarrow> app_reach u a'"
| reset: "app_reach u a \<Longrightarrow> ce_go (av_compile ev) = u \<Longrightarrow> appReset ev a actor reason = (a', r) \<Longrightarrow> app_reach u a'"
| flows: "app_reach u a \<Longrightarrow> app_inbox a = Some m \<Longrightarrow> inv_store m' \<Longrightarrow> m_maxFlows m' = m_maxFlows m \<Longrightarrow> m_maxBytes m' = m_maxBytes m
    \<Longrightarrow> m_maxBodyBytes m' = m_maxBodyBytes m \<Longrightarrow> m_fullPolicy m' = m_fullPolicy m \<Longrightarrow> app_reach u (a\<lparr>app_inbox := Some m'\<rparr>)"

lemma appApply_ok:
  assumes ok: "app_ok u a" and go: "ce_go (av_compile ev) = u"
  shows "\<exists>a' r fire. appApply ev a actor inp = Some (a', r, fire) \<and> app_ok u a' \<and>
    (case r of Inl e \<Rightarrow> \<not> fire \<and> untouched a a' | Inr res \<Rightarrow> if fire then committed a a' inp res else untouched a a')"
  using applyLocked_ok[OF assms, of actor inp] ok by (auto simp: appApply_def untouched_def)

lemma app_reach_ok: "app_reach u a \<Longrightarrow> app_ok u a"
proof (induction rule: app_reach.induct)
  case (boot ev path idempMax auditMax hook fs a)
  with boot_ok show ?case by blast
next
  case (plan a ev inp a' r)
  with planLocked_ok[of u a ev inp] show ?case by (auto simp: appPlan_def split: if_splits)
next
  case (change a ev actor inp a' r fire)
  with appApply_ok[of u a ev actor inp] show ?case by auto
next
  case (reset a ev actor reason a' r)
  with resetLocked_ok[of u a ev actor reason a' r] show ?case by (auto simp: appReset_def split: if_splits)
next
  case (flows a m m')
  then show ?case by (auto simp: app_ok_def inboxFits_def hasCaps_def)
qed

subsection \<open>Replay\<close>

definition remembers :: "'op idempCache \<Rightarrow> string \<Rightarrow> string \<Rightarrow> 'op ApplyResult \<Rightarrow> bool" where
  "remembers c k fp r \<longleftrightarrow> (\<exists>L p. holds c L \<and> entryOf k L = Some (k, fp, p, Some r))"

lemma cloneRaw_idem [simp]: "cloneRaw (cloneRaw b) = cloneRaw b"
  by (cases b) (auto simp: cloneRaw_def append_nil_def)

lemma clonePlan_idem: "clonePlan (Some (the (clonePlan (Some p)))) = clonePlan (Some p)"
  by (auto simp: clonePlan_def cloneDiff_def append_nil_def elems_def split: option.splits)

lemma cloneApply_idem: "cloneApply (Some (the (cloneApply (Some r)))) = cloneApply (Some r)"
  using clonePlan_idem[of "ar_Plan r"] by (simp add: cloneApply_def)

lemma lookup_remembered:
  assumes "remembers c k fp r" and "k \<noteq> ''''"
  shows "\<exists>c' e. lookup k fp c = (c', Inr (Some e)) \<and> ie_apply e = Some r \<and> remembers c' k fp r"
proof -
  from assms(1) obtain L p where h: "holds c L" and e: "entryOf k L = Some (k, fp, p, Some r)" by (auto simp: remembers_def)
  from holds_lookup[OF h, of k fp] obtain c' L' o1 where l: "lookup k fp c = (c', o1)"
    and s: "specLookup k fp L = (L', map_sum id (map_option viewOf) o1)" and h': "holds c' L'" by blast
  from s e assms(2) have L': "L' = (k, fp, p, Some r) # dropKey k L" and o1: "map_sum id (map_option viewOf) o1 = Inr (Some (k, fp, p, Some r))"
    by (auto simp: specLookup_def)
  from o1 obtain x where x: "o1 = Inr (Some x)" "viewOf x = (k, fp, p, Some r)"
    by (cases o1) (auto simp: map_option_eq_Some)
  with l h' L' show ?thesis by (auto simp: remembers_def viewOf_def entryOf_def)
qed

lemma hit_remembered:
  assumes "cached c" and "lookup k fp c = (c', Inr (Some e))" and "ie_apply e = Some r"
  shows "remembers c' k fp r"
proof -
  from assms(1) obtain L where h: "holds c L" by (auto simp: cached_def)
  from holds_lookup[OF h, of k fp] assms(2) obtain L' where
    s: "specLookup k fp L = (L', Inr (Some (viewOf e)))" and h': "holds c' L'" by auto
  from s obtain y where y: "entryOf k L = Some y" "fst (snd y) = fp" "L' = y # dropKey k L" "y = viewOf e"
    by (auto simp: specLookup_def split: if_splits option.splits)
  from y(1) have "fst y = k" using entryOf_key by blast
  with y assms(3) h' show ?thesis by (auto simp: remembers_def viewOf_def entryOf_def)
qed

lemma stored_remembered:
  assumes "cached c" and "k \<noteq> ''''" and "storeApply k fp (Some r) c = Some c'"
  shows "remembers c' k fp (the (cloneApply (Some r)))"
proof -
  from assms(1) obtain L where h: "holds c L" by (auto simp: cached_def)
  let ?old = "case entryOf k L of Some e \<Rightarrow> if fst (snd e) = fp then e else (k, fp, None, None) | None \<Rightarrow> (k, fp, None, None)"
  have "fst ?old = k" "fst (snd ?old) = fp" by (auto dest: entryOf_key split: option.splits)
  then obtain p q where old: "?old = (k, fp, p, q)" by (cases ?old) auto
  have "specStore (nat (ic_max c)) (putApply (cloneApply (Some r))) k fp L
      = take (nat (ic_max c)) ((k, fp, p, cloneApply (Some r)) # dropKey k L)"
    using old by (simp add: specStore_def Let_def putApply_def)
  moreover have "entryOf k (take (nat (ic_max c)) ((k, fp, p, cloneApply (Some r)) # dropKey k L)) = Some (k, fp, p, cloneApply (Some r))"
    using h by (auto simp: entryOf_def take_Cons' holds_def repr_def)
  moreover have "cloneApply (Some r) = Some (the (cloneApply (Some r)))" by (simp add: cloneApply_def)
  ultimately show ?thesis using holds_storeApply[OF h assms(2), of "Some r" fp] assms(3)
    unfolding remembers_def by (metis option.distinct(1) option.inject)
qed


lemma commitApply_remembers:
  assumes "cached (app_idemp a)" and "ci_IdempotencyKey inp \<noteq> ''''" and "commitApply ev actor inp fp cand a = Some (a', res)"
  shows "remembers (app_idemp a') (ci_IdempotencyKey inp) fp (the (cloneApply (Some res)))"
proof -
  obtain sn pv where sw: "snapSwap (Some (cd_next cand)) (app_snaps a) = (sn, pv)" by fastforce
  let ?e = "applyEvent ev actor ''changes.apply'' (ci_Reason inp) (cd_next cand) pv (cd_diff cand) 0"
  obtain a1 eid where ra: "recordAudit ev ?e (a\<lparr>app_snaps := sn\<rparr>) = (a1, eid)" by fastforce
  then have "app_idemp a1 = app_idemp a" by (auto simp: recordAudit_def split: option.splits prod.splits)
  with assms sw ra show ?thesis by (auto simp: commitApply_def Let_def stored_remembered)
qed

lemma checkStoreCaps_idemp: "checkStoreCaps ev a cand force commit = Some (a2, r) \<Longrightarrow> app_idemp a2 = app_idemp a"
  by (auto simp: checkStoreCaps_def Let_def split: option.splits if_splits)

lemma applied_remembers:
  assumes ca: "cached (app_idemp a)" and k: "ci_IdempotencyKey inp \<noteq> ''''" and r: "applyLocked ev a actor inp = Some (a', Inr res, fire)"
  shows "\<exists>fp r0. av_fingerprint ev inp = Some fp \<and> remembers (app_idemp a') (ci_IdempotencyKey inp) fp r0 \<and> res = the (cloneApply (Some r0))"
proof -
  let ?k = "ci_IdempotencyKey inp"
  from r obtain fp where fp: "av_fingerprint ev inp = Some fp" by (auto simp: applyLocked_def split: option.splits)
  obtain c l where l: "lookup ?k fp (app_idemp a) = (c, l)" by fastforce
  note c = cached_lookup[OF ca l]
  from r fp l obtain hit where hit: "l = Inr hit" by (auto simp: applyLocked_def split: sum.splits)
  show ?thesis
  proof (cases "Option.bind hit ie_apply")
    case (Some r0)
    then obtain e where e: "hit = Some e" "ie_apply e = Some r0" by (cases hit) auto
    with r fp l hit have "app_idemp a' = c" "res = the (cloneApply (Some r0))" by (auto simp: applyLocked_def Let_def)
    with fp hit_remembered[OF ca l[unfolded hit e(1)] e(2)] show ?thesis by blast
  next
    case None
    with r fp l hit obtain cand a2 cand' res0 where "checkStoreCaps ev (a\<lparr>app_idemp := c\<rparr>) cand (ci_Force inp) True = Some (a2, Inr cand')"
      and co: "commitApply ev actor inp fp cand' a2 = Some (a', res0)" and res: "res = the (cloneApply (Some res0))"
      by (auto simp: applyLocked_def Let_def split: sum.splits option.splits)
    then have "cached (app_idemp a2)" using checkStoreCaps_idemp c by fastforce
    from commitApply_remembers[OF this k co] fp show ?thesis
      unfolding res using cloneApply_idem[of res0] by (intro exI[of _ fp] exI[of _ "the (cloneApply (Some res0))"]) simp
  qed
qed

subsection \<open>A lab to evaluate on\<close>

definition exCompile :: "unit compile_env" where
  "exCompile = \<lparr>ce_go = ascii_env, ce_disk = \<lparr>dk_Stat = (\<lambda>_. None), dk_ReadFile = (\<lambda>_. None)\<rparr>, ce_now = 7, ce_ctxErr = False,
     ce_revision = (\<lambda>st. Some (FormatInt (ss_MaxFlows (sp_Store (st_Spec st))))), ce_newCA = (\<lambda>_. Some ()), ce_sha256 = id\<rparr>"

definition exEnv :: "unit app_env" where
  "exEnv = \<lparr>av_compile = exCompile, av_io = io_ok, av_fingerprint = (\<lambda>inp. Some (ci_ExpectedRevision inp @ ci_Reason inp)),
     av_tree = (\<lambda>st. Some (JInt (ss_MaxFlows (sp_Store (st_Spec st))))), av_decode = (\<lambda>_. None),
     av_marshal = (\<lambda>j. case j of JInt n \<Rightarrow> Some (FormatInt n) | _ \<Rightarrow> None), av_loadFile = (\<lambda>_. Inr exState), av_runtime = (\<lambda>_. None)\<rparr>"

definition exApp :: "unit App" where
  "exApp = projr (appBoot exEnv ''lab.yaml'' 2 2 None [])"

definition exActor :: Actor where
  "exActor = \<lparr>ac_ID = ''ops'', ac_Class = ''token'', ac_Role = ''administrator'', ac_Scopes = [''mitm.write''], ac_Transport = ''rest''\<rparr>"

text \<open>Halving the inbox.\<close>

definition exOp :: Operation where
  "exOp = \<lparr>o_Op = OpReplaceStoreCaps, o_Store = Some \<lparr>sc_MaxFlows = 2, sc_MaxBytes = 1048576, sc_MaxBodyBytes = 2048, sc_FullPolicy = FullPolicyEvictOldest\<rparr>,
     o_Admission = None, o_TLS = None, o_Rules = None, o_Targets = None, o_Compat = None, o_Feature = None, o_HTTPAuth = None\<rparr>"

definition exChange :: ChangeIn where
  "exChange = \<lparr>ci_ExpectedRevision = ''4'', ci_IdempotencyKey = ''k'', ci_Reason = ''halve'', ci_Force = False, ci_Operations = [exOp]\<rparr>"

lemma exEnv_go: "ce_go (av_compile exEnv) = ascii_env"
  by (simp add: exEnv_def exCompile_def)

lemma exApp_reach: "app_reach ascii_env exApp"
proof -
  have "\<not> isl (appBoot exEnv ''lab.yaml'' 2 2 None [])" by code_simp
  then have "appBoot exEnv ''lab.yaml'' 2 2 None [] = Inr exApp" unfolding exApp_def by (cases "appBoot exEnv ''lab.yaml'' 2 2 None []") auto
  with exEnv_go show ?thesis by (rule app_reach.boot)
qed

lemma exApplied: "\<exists>a res. appApply exEnv exApp exActor exChange = Some (a, Inr res, True) \<and> map_option m_maxFlows (app_inbox a) = Some 2"
proof -
  let ?r = "appApply exEnv exApp exActor exChange"
  have e: "case ?r of None \<Rightarrow> False | Some (a, r, fire) \<Rightarrow> fire \<and> \<not> isl r \<and> map_option m_maxFlows (app_inbox a) = Some 2" by code_simp
  then obtain a r where x: "?r = Some (a, r, True)" "\<not> isl r" "map_option m_maxFlows (app_inbox a) = Some 2" by (auto split: option.splits)
  then obtain res where "r = Inr res" by (cases r) auto
  with x show ?thesis by auto
qed

subsection \<open>Properties\<close>

text \<open>(C7) In every reachable state of the control plane the active snapshot is a normalised state in
  which no validator of the configuration finds a violation (document, listeners, compatibility,
  protocols, proxy, TLS, rules, store, management, observability; files are those of the disk at the
  time it was compiled, and a live change does not read credential files again), its rule engine is the one built from its rules, and the inbox satisfies its
  own invariant with exactly the caps the active snapshot asks for.\<close>

theorem active_snapshot_rules_the_inbox:
  assumes "app_reach u a"
  shows "\<exists>s st m. sst_active (app_snaps a) = Some s \<and> sn_Canonical s = Some st \<and> app_inbox a = Some m
    \<and> materializeDefaults u (st_Spec st) = st_Spec st
    \<and> (\<exists>dk opts. validateDocument u st = [] \<and> validateListeners u dk opts (sp_Listeners (st_Spec st)) = []
         \<and> validateCompat u (st_Spec st) = [] \<and> validateProtocols (sp_Protocols (st_Spec st)) = []
         \<and> validateProxy u dk opts (sp_Proxy (st_Spec st)) = [] \<and> validateTLS u dk (sp_TLS (st_Spec st)) = []
         \<and> validateRules u (sp_Rules (st_Spec st)) = [] \<and> validateStore (sp_Store (st_Spec st)) = []
         \<and> validateManagement u dk (sp_Management (st_Spec st)) = [] \<and> validateObservability u (sp_Observability (st_Spec st)) = [])
    \<and> sn_Rules s = newEngine (sp_Rules (st_Spec st)) \<and> inv_store m
    \<and> m_maxFlows m = ss_MaxFlows (sp_Store (st_Spec st)) \<and> m_maxBytes m = ss_MaxBytes (sp_Store (st_Spec st))
    \<and> m_maxBodyBytes m = ss_MaxBodyBytes (sp_Store (st_Spec st)) \<and> m_fullPolicy m = ss_FullPolicy (sp_Store (st_Spec st))"
proof -
  from app_reach_ok[OF assms] obtain s m where s: "sst_active (app_snaps a) = Some s" "snap_ok u s" and m: "app_inbox a = Some m" "inv_store m" "hasCaps m (storeSpecOf s)"
    by (auto simp: app_ok_def inboxFits_def)
  from s(2) obtain st where st: "sn_Canonical s = Some st" "materializeDefaults u (st_Spec st) = st_Spec st" "\<exists>dk opts. validatedAll u dk opts st"
    "sn_Rules s = newEngine (sp_Rules (st_Spec st))" by (auto simp: snap_ok_def)
  from m(3) st(1) have "m_maxFlows m = ss_MaxFlows (sp_Store (st_Spec st)) \<and> m_maxBytes m = ss_MaxBytes (sp_Store (st_Spec st))
      \<and> m_maxBodyBytes m = ss_MaxBodyBytes (sp_Store (st_Spec st)) \<and> m_fullPolicy m = ss_FullPolicy (sp_Store (st_Spec st))"
    by (simp add: hasCaps_def storeSpecOf_def)
  with s(1) m(1,2) st show ?thesis unfolding validatedAll_def by blast
qed

theorem active_snapshot_rules_the_inbox_witness:
  "\<exists>a s st m. appApply exEnv exApp exActor exChange = Some a \<and> sst_active (app_snaps (fst a)) = Some s \<and> sn_Canonical s = Some st
    \<and> app_inbox (fst a) = Some m \<and> m_maxFlows m = 2 \<and> ss_MaxFlows (sp_Store (st_Spec st)) = 2"
proof -
  obtain a res where a: "appApply exEnv exApp exActor exChange = Some (a, Inr res, True)" "map_option m_maxFlows (app_inbox a) = Some 2"
    using exApplied by blast
  from app_reach.change[OF exApp_reach exEnv_go a(1)] have "app_reach ascii_env a" .
  from active_snapshot_rules_the_inbox[OF this] a show ?thesis by auto
qed

text \<open>(C6) An apply returns, and changes everything or nothing. Whenever it reports an error or replays an
  earlier result, the snapshots, the inbox and the audit log are as before and no apply hook runs.
  When it reports a fresh success, the request named the revision that was active, the new snapshot
  is active with the next generation and the old one kept as previous, the result names its revision
  and generation, and the audit log has the event the result points to, with both revisions.\<close>

theorem apply_is_all_or_nothing:
  assumes "app_reach u a" and "ce_go (av_compile ev) = u"
  shows "\<exists>a' r fire. appApply ev a actor inp = Some (a', r, fire) \<and>
    (case r of Inl e \<Rightarrow> \<not> fire \<and> untouched a a' | Inr res \<Rightarrow> if fire then committed a a' inp res else untouched a a')"
  using appApply_ok[OF app_reach_ok[OF assms(1)] assms(2), of actor inp] by blast

theorem apply_is_all_or_nothing_witness:
  "\<exists>a res. appApply exEnv exApp exActor exChange = Some (a, Inr res, True) \<and> committed exApp a exChange res"
  using apply_is_all_or_nothing[OF exApp_reach exEnv_go, of exActor exChange] exApplied by auto

lemma planned_not_applied:
  assumes "cached c0" and "lookup k fp c0 = (c1, Inr None)" and "storePlan k fp (Some p) c1 = Some c2"
  shows "\<exists>c3 hit. lookup k fp c2 = (c3, Inr hit) \<and> Option.bind hit ie_apply = None \<and> cached c3"
proof (cases "k = ''''")
  case True
  with assms show ?thesis by (auto simp: lookup_def storePlan_def)
next
  case False
  from assms(1) obtain L where h: "holds c0 L" by (auto simp: cached_def)
  from holds_lookup[OF h, of k fp] assms(2) obtain L1 where
    s1: "specLookup k fp L = (L1, Inr None)" and h1: "holds c1 L1" by auto
  from s1 False have e1: "entryOf k L1 = None" by (auto simp: specLookup_def split: option.splits if_splits)
  from holds_storePlan[OF h1 False, of "Some p" fp] assms(3) obtain L2 where h2: "holds c2 L2"
    and L2: "L2 = specStore (nat (ic_max c1)) (putPlan (clonePlan (Some p))) k fp L1" by auto
  from e1 L2 have L2': "L2 = take (nat (ic_max c1)) ((k, fp, clonePlan (Some p), None) # dropKey k L1)"
    by (simp add: specStore_def Let_def putPlan_def)
  have "0 < ic_max c1" using h1 by (auto simp: holds_def repr_def)
  with L2' have e2: "entryOf k L2 = Some (k, fp, clonePlan (Some p), None)" by (simp add: entryOf_def take_Cons')
  from holds_lookup[OF h2, of k fp] obtain c3 L3 o3 where l: "lookup k fp c2 = (c3, o3)"
    and s: "specLookup k fp L2 = (L3, map_sum id (map_option viewOf) o3)" and h3: "holds c3 L3" by blast
  from s e2 False have "map_sum id (map_option viewOf) o3 = Inr (Some (k, fp, clonePlan (Some p), None))"
    by (auto simp: specLookup_def)
  then obtain x where "o3 = Inr (Some x)" "viewOf x = (k, fp, clonePlan (Some p), None)"
    by (cases o3) (auto simp: map_option_eq_Some)
  with l h3 show ?thesis by (auto simp: viewOf_def cached_def)
qed

lemma checkStoreCaps_cache:
  "checkStoreCaps ev (a\<lparr>app_idemp := c\<rparr>) cand force commit = map_option (\<lambda>(x, r). (x\<lparr>app_idemp := c\<rparr>, r)) (checkStoreCaps ev a cand force commit)"
proof (cases "app_inbox a")
  case (Some m)
  show ?thesis
  proof (cases "sn_Canonical (cd_next cand)")
    case (Some st)
    with \<open>app_inbox a = Some m\<close> show ?thesis
      by (cases "replaceCaps ev (sp_Store (st_Spec st)) force commit m") (auto simp: checkStoreCaps_def Let_def)
  qed (simp add: checkStoreCaps_def Some)
qed (simp add: checkStoreCaps_def)

text \<open>(C8) A plan shows what the apply will do. Take a request without an idempotency key, or with one the
  cache holds nothing for. When its plan succeeds, the apply of the same request right after it succeeds
  too, returns the very plan that was shown, and the revision the plan announced is the active one.\<close>

theorem plan_predicts_apply:
  assumes "app_reach u a" and "ce_go (av_compile ev) = u" and "av_fingerprint ev inp = Some fp"
    and "lookup (ci_IdempotencyKey inp) fp (app_idemp a) = (c0, Inr None)" and "appPlan ev a inp = Some (a1, Inr p)"
  shows "\<exists>a2 res s. appApply ev a1 actor inp = Some (a2, Inr res, True) \<and> ar_Plan res = p
    \<and> sst_active (app_snaps a2) = Some s \<and> sn_Revision s = pl_CandidateRevision p"
proof -
  note ok = app_reach_ok[OF assms(1)]
  then obtain s where s: "sst_active (app_snaps a) = Some s" "snap_ok u s" "inboxFits (app_inbox a) (storeSpecOf s)" and ca: "cached (app_idemp a)"
    by (auto simp: app_ok_def)
  from assms(5) have cx: "\<not> ce_ctxErr (av_compile ev)" and pl: "planLocked ev a inp = Some (a1, Inr p)" by (auto simp: appPlan_def split: if_splits)
  let ?k = "ci_IdempotencyKey inp" and ?a = "a\<lparr>app_idemp := c0\<rparr>"
  from pl assms(3,4) obtain cand a0 c c2 where cand: "buildCandidate ev ?a inp True = Inr cand"
    and k: "checkStoreCaps ev ?a cand (ci_Force inp) False = Some (a0, Inr c)"
    and c2: "storePlan ?k fp (Some (planFrom c)) (app_idemp a0) = Some c2" and a1: "a1 = a0\<lparr>app_idemp := c2\<rparr>" and p: "p = the (clonePlan (Some (planFrom c)))"
    by (auto simp: planLocked_def Let_def split: sum.splits option.splits)
  have oka: "app_ok u ?a" using ok cached_lookup[OF ca assms(4)] by (rule app_ok_idemp)
  have sa: "sst_active (app_snaps ?a) = Some s" "inboxFits (app_inbox ?a) (storeSpecOf s)" using s by simp_all
  note b = buildCandidate_ok[OF cand sa(1) s(2) assms(2)]
  from checkStoreCaps_ok[OF sa(2) b(1), of ev "ci_Force inp" False] k b(3,6) have a0: "a0 = ?a" and n: "cd_next c = cd_next cand" by auto
  have c2': "storePlan ?k fp (Some (planFrom c)) c0 = Some c2" using c2 a0 by simp
  from planned_not_applied[OF ca assms(4) this] obtain c3 hit where l: "lookup ?k fp c2 = (c3, Inr hit)" "Option.bind hit ie_apply = None" "cached c3" by blast
  let ?a1 = "a1\<lparr>app_idemp := c3\<rparr>"
  have a1': "?a1 = a\<lparr>app_idemp := c3\<rparr>" using a1 a0 by simp
  have ok1: "app_ok u a1" using ok a1 a0 cached_storePlan[OF cached_lookup[OF ca assms(4)], of ?k fp "planFrom c"] c2' by (auto simp: app_ok_def)
  have cand': "buildCandidate ev (a\<lparr>app_idemp := c3\<rparr>) inp True = Inr cand" using cand by (simp add: buildCandidate_def active_def)
  have k': "checkStoreCaps ev (a\<lparr>app_idemp := c3\<rparr>) cand (ci_Force inp) False = Some (a\<lparr>app_idemp := c3\<rparr>, Inr c)"
    using k a0 by (auto simp: checkStoreCaps_cache dest: arg_cong[where f = "\<lambda>x. x\<lparr>app_idemp := c3\<rparr>"])
  have f3: "inboxFits (app_inbox (a\<lparr>app_idemp := c3\<rparr>)) (storeSpecOf s)" using s(3) by simp
  from checkStoreCaps_commits[OF f3 b(1) k'] obtain a2 where k2: "checkStoreCaps ev (a\<lparr>app_idemp := c3\<rparr>) cand (ci_Force inp) True = Some (a2, Inr c)" by blast
  from appApply_ok[OF ok1 assms(2), of actor inp] obtain a3 r fire where x: "appApply ev a1 actor inp = Some (a3, r, fire)"
    "case r of Inl e \<Rightarrow> \<not> fire \<and> untouched a1 a3 | Inr res \<Rightarrow> if fire then committed a1 a3 inp res else untouched a1 a3" by blast
  have "app_idemp a1 = c2" using a1 by simp
  with x(1) cx assms(3) l cand' k2 a1' obtain res where co: "commitApply ev actor inp fp c a2 = Some (a3, res)" and r: "r = Inr (the (cloneApply (Some res)))" "fire"
    by (auto simp: appApply_def applyLocked_def Let_def)
  from co have res: "ar_Plan res = planFrom c" "ar_RuntimeRevision res = sn_Revision (cd_next c)"
    by (auto simp: commitApply_def applyResult_def Let_def split: prod.splits)
  from x(2) r obtain s' where "sst_active (app_snaps a3) = Some s'" "ar_RuntimeRevision res = sn_Revision s'"
    by (auto simp: committed_def cloneApply_fields)
  moreover have "pl_CandidateRevision p = sn_Revision (cd_next c)" by (simp add: p clonePlan_def planFrom_def)
  moreover have "ar_Plan (the (cloneApply (Some res))) = p" by (simp add: p cloneApply_def res(1))
  ultimately show ?thesis using x(1) r res(2) by auto
qed

theorem plan_predicts_apply_witness:
  "\<exists>a1 a2 p res. appPlan exEnv exApp exChange = Some (a1, Inr p)
    \<and> appApply exEnv a1 exActor exChange = Some (a2, Inr res, True) \<and> ar_Plan res = p"
proof -
  have "case appPlan exEnv exApp exChange of None \<Rightarrow> False | Some (a, r) \<Rightarrow> \<not> isl r" by code_simp
  then obtain a1 r where x: "appPlan exEnv exApp exChange = Some (a1, r)" "\<not> isl r" by (auto split: option.splits)
  then obtain p where p: "r = Inr p" by (cases r) auto
  have "case av_fingerprint exEnv exChange of None \<Rightarrow> False
      | Some fp \<Rightarrow> (case snd (lookup (ci_IdempotencyKey exChange) fp (app_idemp exApp)) of Inr None \<Rightarrow> True | _ \<Rightarrow> False)" by code_simp
  then obtain fp where fp: "av_fingerprint exEnv exChange = Some fp"
    and "snd (lookup (ci_IdempotencyKey exChange) fp (app_idemp exApp)) = Inr None" by (auto split: option.splits sum.splits)
  then obtain c0 where "lookup (ci_IdempotencyKey exChange) fp (app_idemp exApp) = (c0, Inr None)" by (metis prod.collapse)
  with x p plan_predicts_apply[OF exApp_reach exEnv_go fp, of c0 a1 p exActor] show ?thesis by auto
qed

text \<open>(C9) An apply is idempotent: once a request with an idempotency key has succeeded, a request with the
  same key and the same fingerprint, by whomever and in whatever environment it is sent next, returns
  the same result, runs no hook and changes neither the snapshots nor the inbox nor the audit log.\<close>

theorem apply_is_idempotent:
  assumes "app_reach u a" and "appApply ev a actor inp = Some (a', Inr res, fire)"
    and "ci_IdempotencyKey inp \<noteq> ''''" and "ci_IdempotencyKey again = ci_IdempotencyKey inp"
    and "av_fingerprint ev' again = av_fingerprint ev inp" and "\<not> ce_ctxErr (av_compile ev')"
  shows "\<exists>a2. appApply ev' a' actor' again = Some (a2, Inr res, False) \<and> untouched a' a2"
proof -
  from app_reach_ok[OF assms(1)] have ca: "cached (app_idemp a)" by (simp add: app_ok_def)
  from assms(2) have "applyLocked ev a actor inp = Some (a', Inr res, fire)" by (simp add: appApply_def split: if_splits)
  from applied_remembers[OF ca assms(3) this] obtain fp r0 where fp: "av_fingerprint ev inp = Some fp"
    and m: "remembers (app_idemp a') (ci_IdempotencyKey inp) fp r0" and res: "res = the (cloneApply (Some r0))" by blast
  from lookup_remembered[OF m assms(3)] obtain c e where
    "lookup (ci_IdempotencyKey inp) fp (app_idemp a') = (c, Inr (Some e))" "ie_apply e = Some r0" by blast
  then show ?thesis using fp assms(4-6) res by (simp add: appApply_def applyLocked_def untouched_def)
qed

theorem apply_is_idempotent_witness:
  "\<exists>a a2 res. appApply exEnv exApp exActor exChange = Some (a, Inr res, True)
    \<and> appApply exEnv a exActor (exChange\<lparr>ci_Force := True\<rparr>) = Some (a2, Inr res, False) \<and> untouched a a2"
proof -
  obtain a res where a: "appApply exEnv exApp exActor exChange = Some (a, Inr res, True)" using exApplied by blast
  have "ci_IdempotencyKey exChange \<noteq> ''''" "\<not> ce_ctxErr (av_compile exEnv)"
    "av_fingerprint exEnv (exChange\<lparr>ci_Force := True\<rparr>) = av_fingerprint exEnv exChange"
    by (simp_all add: exChange_def exEnv_def exCompile_def)
  with apply_is_idempotent[OF exApp_reach a, of "exChange\<lparr>ci_Force := True\<rparr>" exEnv exActor] a show ?thesis by auto
qed

lemma resetInbox_empty:
  assumes "resetInbox ev spec mo = (Some m, None)" and "mo \<noteq> None"
  shows "m_byID m = [] \<and> m_bytes m = 0"
  using assms by (auto simp: resetInbox_def CheckOptions_def ResetTo_def emitLocked_def wipeLocked_def Let_def case_prod_beta split: option.splits sum.splits if_splits)

text \<open>A snapshot is the compiled bootstrap file, or, without a file, the compiled bootstrap state.\<close>

definition compiledBootstrap :: "'ca app_env \<Rightarrow> 'ca App \<Rightarrow> nat \<Rightarrow> 'ca Snapshot \<Rightarrow> bool" where
  "compiledBootstrap ev a gen s \<longleftrightarrow> (\<exists>st0. (if app_bootstrapPath a \<noteq> '''' then av_loadFile ev (app_bootstrapPath a) = Inr st0
       else Option.bind (sst_bootstrap (app_snaps a)) sn_Canonical = Some st0)
     \<and> Compile (av_compile ev) (Some st0) (bootOpts gen) = Inr s)"

lemma loadBootstrap_compiles: "loadBootstrapCandidate ev a gen = Inr s \<Longrightarrow> compiledBootstrap ev a gen s"
  by (auto simp: loadBootstrapCandidate_def compiledBootstrap_def map_sum_Inr_iff split: if_splits sum.splits option.splits)

lemma resetLocked_success:
  assumes "resetLocked ev a actor reason = (a', Inr res)" and act: "sst_active (app_snaps a) = Some s" and "app_inbox a \<noteq> None"
  shows "\<exists>s' m. sst_active (app_snaps a') = Some s' \<and> sst_bootstrap (app_snaps a') = Some s' \<and> sn_Generation s' = sn_Generation s + 1
    \<and> compiledBootstrap ev a (sn_Generation s + 1) s' \<and> ar_RuntimeRevision res = sn_Revision s' \<and> app_inbox a' = Some m \<and> m_byID m = [] \<and> m_bytes m = 0 \<and> ic_entries (app_idemp a') = []"
proof -
  from assms(1) act obtain nx st mo diff where nx: "loadBootstrapCandidate ev a (sn_Generation s + 1) = Inr nx" and st: "sn_Canonical nx = Some st"
    and d: "diffStates ev (sn_Canonical s) (sn_Canonical nx) = Some diff" "av_runtime ev (st_Spec st) = None"
    and ri: "resetInbox ev (sp_Store (st_Spec st)) (app_inbox a) = (mo, None)"
    by (auto simp: resetLocked_def Let_def split: sum.splits option.splits prod.splits)
  from ri assms(3) obtain m where m: "mo = Some m" by (auto simp: resetInbox_def split: option.splits sum.splits prod.splits)
  have g: "sn_Generation nx = sn_Generation s + 1"
    using nx by (auto simp: loadBootstrapCandidate_def bootOpts_def map_sum_Inr_iff dest!: Compile_ok(2) split: if_splits sum.splits option.splits)
  let ?a1 = "a\<lparr>app_inbox := mo, app_snaps := SetBootstrap (Some nx) ((app_snaps a)\<lparr>sst_active := Some nx, sst_previous := Some s\<rparr>), app_idemp := clear (app_idemp a)\<rparr>"
  obtain a2 eid where ra: "recordAudit ev (applyEvent ev actor ''state.reset'' reason nx (Some s) diff (storeGeneration mo)) ?a1 = (a2, eid)" by fastforce
  then have a2: "app_snaps a2 = app_snaps ?a1 \<and> app_inbox a2 = mo \<and> app_idemp a2 = clear (app_idemp a)"
    by (auto simp: recordAudit_def split: option.splits prod.splits)
  have "a' = a2 \<and> ar_RuntimeRevision res = sn_Revision nx"
    using assms(1) act nx st d ri ra by (auto simp: resetLocked_def snapSwap_def Let_def cloneApply_fields applyResult_def)
  with a2 g m resetInbox_empty[OF ri[unfolded m] assms(3)] loadBootstrap_compiles[OF nx] show ?thesis by (simp add: SetBootstrap_def clear_def)
qed

text \<open>(C10) A reset that fails leaves the snapshots, the inbox and the audit log alone. One that succeeds
  leaves an empty inbox and an empty idempotency cache; it has compiled the bootstrap file as it is now
  (or, without a file, the bootstrap state) for the next generation, made the result the active and the
  bootstrap snapshot, and returned its revision.\<close>

theorem reset_starts_over:
  assumes "app_reach u a" and "ce_go (av_compile ev) = u" and "appReset ev a actor reason = (a', r)"
  shows "case r of Inl e \<Rightarrow> untouched a a'
    | Inr res \<Rightarrow> \<exists>s s' m. sst_active (app_snaps a) = Some s \<and> sst_active (app_snaps a') = Some s' \<and> sst_bootstrap (app_snaps a') = Some s'
        \<and> (\<exists>st0. (if app_bootstrapPath a \<noteq> '''' then av_loadFile ev (app_bootstrapPath a) = Inr st0
                else Option.bind (sst_bootstrap (app_snaps a)) sn_Canonical = Some st0)
              \<and> Compile (av_compile ev) (Some st0) (bootOpts (sn_Generation s + 1)) = Inr s')
        \<and> sn_Generation s' = sn_Generation s + 1 \<and> ar_RuntimeRevision res = sn_Revision s'
        \<and> app_inbox a' = Some m \<and> m_byID m = [] \<and> m_bytes m = 0 \<and> ic_entries (app_idemp a') = []"
proof (cases "ce_ctxErr (av_compile ev)")
  case True
  with assms(3) show ?thesis by (auto simp: appReset_def untouched_def)
next
  case False
  with assms(3) have r: "resetLocked ev a actor reason = (a', r)" by (simp add: appReset_def)
  note ok = app_reach_ok[OF assms(1)]
  then obtain s where s: "sst_active (app_snaps a) = Some s" "app_inbox a \<noteq> None" by (auto simp: app_ok_def inboxFits_def)
  show ?thesis
  proof (cases r)
    case (Inl e)
    with resetLocked_ok[OF ok assms(2) r] show ?thesis by simp
  next
    case (Inr res)
    with resetLocked_success[OF r[unfolded Inr] s] s(1) show ?thesis unfolding compiledBootstrap_def by auto
  qed
qed

theorem reset_starts_over_witness:
  "\<exists>a res s' m. appReset exEnv exApp exActor ''again'' = (a, Inr res) \<and> sst_active (app_snaps a) = Some s' \<and> sst_bootstrap (app_snaps a) = Some s'
    \<and> app_inbox a = Some m \<and> m_byID m = [] \<and> ic_entries (app_idemp a) = []"
proof -
  have "\<not> isl (snd (appReset exEnv exApp exActor ''again''))" by code_simp
  then obtain a res where "appReset exEnv exApp exActor ''again'' = (a, Inr res)"
    by (metis isl_def sum.exhaust_sel prod.collapse sum.collapse(2))
  with reset_starts_over[OF exApp_reach exEnv_go this] show ?thesis by auto
qed

end
