(* ===== verification/Go_IP.thy ===== *)
theory Go_IP
  imports Go_Net
begin

text \<open>
  IP addresses of the standard library: \<open>netip.ParseAddr\<close>, \<open>net.ParseIP\<close>,
  \<open>netip.AddrFromSlice\<close>, \<open>Addr.Unmap\<close>, \<open>Prefix.Contains\<close>, the loopback test and
  \<open>net.JoinHostPort\<close>. A \<open>net.IP\<close> is its byte slice (the nil one is empty); a valid
  \<open>netip.Addr\<close> keeps its zone, and an invalid one is no value of the type.
\<close>

datatype ipaddr =
    IPv4 "byte list"
  | IPv6 "byte list" string

subsection \<open>Parsing\<close>

text \<open>\<open>parseIPv4Fields\<close>: the fields before, the value and the number of digits of the current one.\<close>

fun v4Fields :: "byte list \<Rightarrow> nat \<Rightarrow> nat \<Rightarrow> string \<Rightarrow> byte list option" where
  "v4Fields fs val dig [] = (if length fs < 3 then None else Some (fs @ [of_nat val]))"
| "v4Fields fs val dig (c # s) =
     (if isDigit c then
        if dig = 1 \<and> val = 0 then None
        else let v = val * 10 + (code c - 48) in if v > 255 then None else v4Fields fs v (Suc dig) s
      else if c = CHR ''.'' then
        if dig = 0 \<or> s = [] then None else if length fs = 3 then None else v4Fields (fs @ [of_nat val]) 0 0 s
      else None)"

definition hexDigit :: "char \<Rightarrow> int option" where
  "hexDigit c =
     (if isDigit c then Some (int (code c) - 48)
      else if 97 \<le> code c \<and> code c \<le> 102 then Some (int (code c) - 87)
      else if 65 \<le> code c \<and> code c \<le> 70 then Some (int (code c) - 55)
      else None)"

text \<open>A group of one to four hexadecimal digits and what follows it.\<close>

definition hexGroup :: "string \<Rightarrow> (int \<times> string) option" where
  "hexGroup s =
     (let ds = takeWhile (\<lambda>c. hexDigit c \<noteq> None) s
      in if ds = [] \<or> length ds > 4 then None
         else Some (foldl (\<lambda>v c. v * 16 + the (hexDigit c)) 0 ds, drop (length ds) s))"

text \<open>The loop of \<open>parseIPv6\<close>: the position of the ellipsis, the bytes so far, the rest.\<close>

function v6Loop :: "nat option \<Rightarrow> byte list \<Rightarrow> string \<Rightarrow> (byte list \<times> nat option \<times> string) option" where
  "v6Loop el ip s =
     (if length ip \<ge> 16 then Some (ip, el, s)
      else case hexGroup s of None \<Rightarrow> None
      | Some (acc, rest) \<Rightarrow>
        if rest \<noteq> [] \<and> hd rest = CHR ''.'' then
          (if el = None \<and> length ip \<noteq> 12 then None
           else if length ip + 4 > 16 then None
           else map_option (\<lambda>fs. (ip @ fs, el, [])) (v4Fields [] 0 0 s))
        else let ip' = ip @ [of_int (acc div 256), of_int acc]
        in case rest of [] \<Rightarrow> Some (ip', el, [])
           | c # t \<Rightarrow>
             if c \<noteq> CHR '':'' \<or> t = [] then None
             else if hd t = CHR '':'' then
               (if el \<noteq> None then None
                else if tl t = [] then Some (ip', Some (length ip'), [])
                else v6Loop (Some (length ip')) ip' (tl t))
             else v6Loop el ip' t)"
  by pat_completeness auto
termination by (relation "measure (\<lambda>(el, ip, s). 16 - length ip)") auto

declare v6Loop.simps [simp del]

definition v6Finish :: "byte list \<times> nat option \<times> string \<Rightarrow> byte list option" where
  "v6Finish r =
     (case r of (ip, el, s) \<Rightarrow>
        if s \<noteq> [] then None
        else if length ip < 16 then map_option (\<lambda>e. take e ip @ replicate (16 - length ip) 0 @ drop e ip) el
        else if el \<noteq> None then None
        else Some ip)"

definition parseIPv6 :: "string \<Rightarrow> ipaddr option" where
  "parseIPv6 input =
     (let s = takeWhile (\<lambda>c. c \<noteq> CHR ''%'') input; zone = tl (dropWhile (\<lambda>c. c \<noteq> CHR ''%'') input)
      in if CHR ''%'' \<in> set input \<and> zone = [] then None
         else map_option (\<lambda>ip. IPv6 ip zone)
           (if take 2 s = ''::'' then
              (if drop 2 s = [] then Some (replicate 16 0) else Option.bind (v6Loop (Some 0) [] (drop 2 s)) v6Finish)
            else Option.bind (v6Loop None [] s) v6Finish))"

text \<open>The first of the three characters decides.\<close>

definition ParseAddr :: "string \<Rightarrow> ipaddr option" where
  "ParseAddr s =
     (case find (\<lambda>c. c \<in> {CHR ''.'', CHR '':'', CHR ''%''}) s of None \<Rightarrow> None
      | Some c \<Rightarrow> if c = CHR ''.'' then map_option IPv4 (v4Fields [] 0 0 s)
                  else if c = CHR '':'' then parseIPv6 s else None)"

definition v4InV6 :: "byte list" where
  "v4InV6 = replicate 10 0 @ [255, 255]"

definition ParseIP :: "string \<Rightarrow> byte list option" where
  "ParseIP s = (case ParseAddr s of None \<Rightarrow> None
     | Some (IPv4 b) \<Rightarrow> Some (v4InV6 @ b)
     | Some (IPv6 b zone) \<Rightarrow> if zone = [] then Some b else None)"

subsection \<open>Tests\<close>

definition AddrFromSlice :: "byte list \<Rightarrow> ipaddr option" where
  "AddrFromSlice b = (if length b = 4 then Some (IPv4 b) else if length b = 16 then Some (IPv6 b '''') else None)"

definition Unmap :: "ipaddr \<Rightarrow> ipaddr" where
  "Unmap a = (case a of IPv6 b zone \<Rightarrow> if take 12 b = v4InV6 then IPv4 (drop 12 b) else a | _ \<Rightarrow> a)"

definition To4 :: "byte list \<Rightarrow> byte list option" where
  "To4 b = (if length b = 4 then Some b else if length b = 16 \<and> take 12 b = v4InV6 then Some (drop 12 b) else None)"

fun samePrefix :: "nat \<Rightarrow> byte list \<Rightarrow> byte list \<Rightarrow> bool" where
  "samePrefix n (x # xs) (y # ys) =
     (if n = 0 then True
      else if n < 8 then drop_bit (8 - n) x = drop_bit (8 - n) y
      else x = y \<and> samePrefix (n - 8) xs ys)"
| "samePrefix n _ _ = True"

definition prefixContains :: "ipaddr \<times> nat \<Rightarrow> ipaddr \<Rightarrow> bool" where
  "prefixContains p a =
     (case (fst p, a) of
        (IPv4 x, IPv4 y) \<Rightarrow> samePrefix (snd p) x y
      | (IPv6 x _, IPv6 y zone) \<Rightarrow> zone = [] \<and> samePrefix (snd p) x y
      | _ \<Rightarrow> False)"

definition addrIsLoopback :: "ipaddr \<Rightarrow> bool" where
  "addrIsLoopback a = (case a of IPv4 b \<Rightarrow> take 1 b = [127]
     | IPv6 b zone \<Rightarrow> if take 12 b = v4InV6 then take 1 (drop 12 b) = [127] else b = replicate 15 0 @ [1])"

definition JoinHostPort :: "string \<Rightarrow> string \<Rightarrow> string" where
  "JoinHostPort host port =
     (if CHR '':'' \<in> set host then ''['' @ host @ '']:'' @ port else host @ '':'' @ port)"

subsection \<open>Facts\<close>

lemma v4Fields_length: "v4Fields fs val dig s = Some b \<Longrightarrow> length fs \<le> 3 \<Longrightarrow> length b = 4"
  by (induction fs val dig s rule: v4Fields.induct) (auto simp: Let_def split: if_splits)

lemma v6Loop_length:
  "v6Loop el ip s = Some (ip', el', s') \<Longrightarrow> even (length ip) \<Longrightarrow> length ip \<le> 16 \<Longrightarrow> (\<forall>e. el = Some e \<longrightarrow> e \<le> length ip)
     \<Longrightarrow> length ip' \<le> 16 \<and> (\<forall>e. el' = Some e \<longrightarrow> e \<le> length ip')"
proof (induction el ip s rule: v6Loop.induct)
  case (1 el ip s)
  show ?case
  proof (cases "length ip \<ge> 16")
    case True
    with "1.prems" show ?thesis by (simp add: v6Loop.simps[of el ip s])
  next
    case False
    then have short: "length ip + 2 \<le> 16" using "1.prems"(2,3) by presburger
    from False "1.prems"(1) obtain acc rest where g: "hexGroup s = Some (acc, rest)"
      by (auto simp: v6Loop.simps[of el ip s] split: option.splits)
    note IH = "1.IH"[OF False g refl]
    from False g "1.prems" short v4Fields_length[of "[]" 0 0 s] IH show ?thesis
      by (fastforce simp: v6Loop.simps[of el ip s] Let_def split: if_splits list.splits)
  qed
qed

lemma parseIPv6_length: "parseIPv6 s = Some a \<Longrightarrow> \<exists>b z. a = IPv6 b z \<and> length b = 16"
proof -
  have fin: "length b = 16" if "v6Loop el [] t = Some r" "v6Finish r = Some b" "el = None \<or> el = Some 0" for el t r b
  proof -
    obtain ip el' s' where r: "r = (ip, el', s')" by (cases r) auto
    from v6Loop_length[OF that(1)[unfolded r]] that(3) have "length ip \<le> 16 \<and> (\<forall>e. el' = Some e \<longrightarrow> e \<le> length ip)" by auto
    with that(2) r show ?thesis by (auto simp: v6Finish_def min_def split: if_splits)
  qed
  assume "parseIPv6 s = Some a"
  then show ?thesis by (auto simp: parseIPv6_def Let_def bind_eq_Some_conv fin split: if_splits)
qed

lemma ParseIP_length: "ParseIP s = Some b \<Longrightarrow> length b = 16"
  by (auto simp: ParseIP_def ParseAddr_def v4InV6_def dest: v4Fields_length parseIPv6_length split: option.splits ipaddr.splits if_splits)

lemma indexWhere_split: "P x \<Longrightarrow> \<forall>y \<in> set xs. \<not> P y \<Longrightarrow> indexWhere P (xs @ x # ys) = Some (length xs)"
  by (induction xs) auto

lemma LastIndexByte_split: "c \<notin> set t \<Longrightarrow> LastIndexByte (h @ c # t) c = Some (length h)"
proof -
  assume "c \<notin> set t"
  then have "indexWhere (\<lambda>x. x = c) (rev t @ c # rev h) = Some (length t)" using indexWhere_split[of "\<lambda>x. x = c" c "rev t" "rev h"] by auto
  then show ?thesis by (simp add: LastIndexByte_def)
qed

lemma IndexByte_split: "c \<notin> set h \<Longrightarrow> IndexByte (h @ c # t) c = Some (length h)"
  by (auto simp: IndexByte_def intro: indexWhere_split)

subsection \<open>Printing\<close>

text \<open>\<open>net.IP.String\<close> of a slice of 4 or 16 bytes: a mapped IPv4 address is printed as IPv4; in IPv6 the
  first longest run of at least two zero groups is written as a double colon.\<close>

definition v4String :: "byte list \<Rightarrow> string" where
  "v4String b = concat (map (\<lambda>i. (if i = 0 then [] else ''.'') @ formatNat (unat (b ! i))) [0..<4])"

definition hexNibble :: "int \<Rightarrow> char" where
  "hexNibble d = char_of (if d < 10 then 48 + d else 87 + d)"

definition hexString :: "int \<Rightarrow> string" where
  "hexString n = map hexNibble
     (if n \<ge> 4096 then [n div 4096, n div 256 mod 16, n div 16 mod 16, n mod 16]
      else if n \<ge> 256 then [n div 256, n div 16 mod 16, n mod 16]
      else if n \<ge> 16 then [n div 16, n mod 16]
      else [n])"

definition v6Groups :: "byte list \<Rightarrow> int list" where
  "v6Groups b = map (\<lambda>i. uint (b ! (2 * i)) * 256 + uint (b ! (2 * i + 1))) [0..<8]"

definition zeroRun :: "int list \<Rightarrow> nat \<times> nat" where
  "zeroRun gs = foldl (\<lambda>(s, e) i. let l = length (takeWhile (\<lambda>g. g = 0) (drop i gs)) in if l \<ge> 2 \<and> l > e - s then (i, i + l) else (s, e))
     (255, 255) [0..<8]"

function printGroups :: "int list \<Rightarrow> nat \<times> nat \<Rightarrow> nat \<Rightarrow> string" where
  "printGroups gs run i =
     (if i \<ge> 8 then []
      else if i = fst run then
        ''::'' @ (if max i (snd run) \<ge> 8 then [] else hexString (gs ! max i (snd run)) @ printGroups gs run (Suc (max i (snd run))))
      else (if i > 0 then '':'' else []) @ hexString (gs ! i) @ printGroups gs run (Suc i))"
  by pat_completeness auto
termination by (relation "measure (\<lambda>(gs, run, i). 8 - i)") auto

declare printGroups.simps [simp del]

definition ipString :: "byte list \<Rightarrow> string" where
  "ipString b = (case To4 b of Some b4 \<Rightarrow> v4String b4 | None \<Rightarrow> printGroups (v6Groups b) (zeroRun (v6Groups b)) 0)"

subsection \<open>A digest in a table\<close>

text \<open>The loop that compares a digest with every entry: the index is kept by arithmetic on the outcome of
  the comparison, so that every entry is touched whatever matches.\<close>

fun constScan :: "byte list \<Rightarrow> int \<Rightarrow> int \<Rightarrow> int \<Rightarrow> byte list list \<Rightarrow> int \<times> int" where
  "constScan digest i idx found [] = (idx, found)"
| "constScan digest i idx found (d # ds) =
     (let eq = (if d = digest then 1 else 0)
      in constScan digest (i + 1) (idx * (1 - eq) + i * eq) (found + eq) ds)"

lemma constScan_spec:
  "constScan x i idx found ds = (idx', found') \<Longrightarrow>
     found' = found + int (count_list ds x) \<and> (x \<notin> set ds \<longrightarrow> idx' = idx)
     \<and> (x \<in> set ds \<longrightarrow> i \<le> idx' \<and> idx' < i + int (length ds) \<and> ds ! nat (idx' - i) = x)"
proof (induction ds arbitrary: i idx found)
  case (Cons d ds)
  let ?eq = "if d = x then 1 else 0 :: int"
  from Cons.prems have "constScan x (i + 1) (idx * (1 - ?eq) + i * ?eq) (found + ?eq) ds = (idx', found')" by (simp add: Let_def)
  note IH = Cons.IH[OF this]
  have shift: "nat (idx' - i) = Suc (nat (idx' - (i + 1)))" if "i + 1 \<le> idx'" using that by linarith
  show ?case
  proof (cases "x \<in> set ds")
    case False
    with IH show ?thesis by (auto simp: count_notin)
  next
    case True
    with IH have "i + 1 \<le> idx'" "idx' < i + 1 + int (length ds)" "ds ! nat (idx' - (i + 1)) = x" by auto
    with IH True show ?thesis by (auto simp: shift)
  qed
qed simp

lemma count_list_distinct: "distinct ds \<Longrightarrow> count_list ds x = (if x \<in> set ds then 1 else 0)"
  by (induction ds) auto

text \<open>In a table of distinct digests it finds the one entry, or none.\<close>

lemma constScan_distinct:
  assumes "distinct ds" and "constScan x 0 0 0 ds = (idx, found)"
  shows "found = 1 \<longleftrightarrow> x \<in> set ds" and "x \<in> set ds \<Longrightarrow> nat idx < length ds \<and> ds ! nat idx = x"
  using constScan_spec[OF assms(2)] count_list_distinct[OF assms(1), of x] by (auto split: if_splits)

end
