(* ===== verification/Auth_Verify.thy ===== *)
theory Auth_Verify
  imports Config_Validate App_Compile Go_IP
begin

text \<open>
  Authentication of the management API (\<open>internal/auth\<close>: \<open>principal.go\<close>, \<open>roles.go\<close>,
  \<open>digest.go\<close>, \<open>verifier.go\<close>). SHA-256 and the disk are arguments. A pointer to a verifier is
  its address; the verifier's generation is Go's wrapping 64-bit counter. Of an error its class is
  kept, of a validation error the violation; the hooks \<open>Replace\<close> runs are reported as a flag.
\<close>

datatype auth_error =
    Unauthenticated
  | Forbidden string
  | AuthInvalid FieldViolation
  | AuthInternal

definition ClassToken :: string where "ClassToken = ''token''"
definition ClassLoopback :: string where "ClassLoopback = ''loopback''"
definition MinTokenBytes :: nat where "MinTokenBytes = 32"

record Principal =
  pn_ID :: string
  pn_Class :: string
  pn_Role :: string
  pn_Scopes :: "string list"
  pn_verifier :: "nat option"
  pn_generation :: "64 word"

subsection \<open>Scopes and roles (principal.go, roles.go)\<close>

definition ScopeMITMAdmin :: string where "ScopeMITMAdmin = ''mitm.admin''"

definition HasScope :: "string list \<Rightarrow> string \<Rightarrow> bool" where
  "HasScope scopes want = (if want = '''' then True else list_ex (\<lambda>s. s = ScopeMITMAdmin \<or> s = want) scopes)"

fun AuthorizeScopes :: "string list \<Rightarrow> string list \<Rightarrow> auth_error option" where
  "AuthorizeScopes scopes [] = None"
| "AuthorizeScopes scopes (want # required) =
     (if \<not> HasScope scopes want then Some (Forbidden (''missing scope '' @ want)) else AuthorizeScopes scopes required)"

definition Authorize :: "Principal \<Rightarrow> string list \<Rightarrow> auth_error option" where
  "Authorize p required = AuthorizeScopes (pn_Scopes p) required"

definition allScopes :: "string list" where
  "allScopes = [''mitm.read'', ''mitm.write'', ScopeMITMAdmin, ''mitm.audit.read'']"

definition DefaultScopes :: "string \<Rightarrow> string list" where
  "DefaultScopes role =
     (if role = ''viewer'' then [''mitm.read'']
      else if role = ''operator'' then [''mitm.read'', ''mitm.write'']
      else if role = ''administrator'' then allScopes
      else [])"

definition expandScopes :: "string \<Rightarrow> string list \<Rightarrow> string \<times> string list" where
  "expandScopes role scopes =
     (let r = (if role = '''' then ''administrator'' else role)
      in if scopes \<noteq> [] then (r, scopes) else (r, DefaultScopes r))"

subsection \<open>The token index (verifier.go)\<close>

record storedToken =
  tok_id :: string
  tok_role :: string
  tok_scopes :: "string list"
  tok_digest :: "byte list"

record Verifier =
  vf_mode :: string
  vf_tokens :: "storedToken list"
  vf_generation :: "64 word"

record AuthRequest =
  rqa_Authorization :: string
  rqa_RemoteAddr :: string

definition readSecretFile :: "go_env \<Rightarrow> disk \<Rightarrow> string \<Rightarrow> byte list option" where
  "readSecretFile u dk path =
     (case dk_ReadFile dk path of None \<Rightarrow> None | Some b \<Rightarrow> map_option bytes_of (firstSecret u (secretLines b)))"

fun compileTokens :: "go_env \<Rightarrow> disk \<Rightarrow> (byte list \<Rightarrow> byte list) \<Rightarrow> string list \<Rightarrow> byte list list \<Rightarrow> nat \<Rightarrow> TokenSpec list \<Rightarrow>
    auth_error + storedToken list" where
  "compileTokens u dk sha ids digests i [] = Inr []"
| "compileTokens u dk sha ids digests i (tok # toks) =
     (let key = TrimSpace u (tk_ID tok); at = indexPath ''spec.management.auth.tokens'' i;
          bad = (\<lambda>f c. Inl (AuthInvalid \<lparr>fv_Path = at @ f, fv_Code = c\<rparr>))
      in if key = [] then bad ''.id'' ''empty_id''
         else if key \<in> set ids then bad ''.id'' ''duplicate_id''
         else case readSecretFile u dk (tk_SecretFile tok) of None \<Rightarrow> bad ''.secretFile'' ''unresolved_reference''
         | Some raw \<Rightarrow>
           if length raw < MinTokenBytes then bad ''.secretFile'' ''invalid_value''
           else if sha raw \<in> set digests then bad ''.secretFile'' ''duplicate_id''
           else if tk_Role tok \<noteq> [] \<and> \<not> KnownRole (tk_Role tok) then bad ''.role'' ''invalid_value''
           else case expandScopes (tk_Role tok) (elems (tk_Scopes tok)) of (role, scopes) \<Rightarrow>
             map_sum id (\<lambda>ts. \<lparr>tok_id = key, tok_role = role, tok_scopes = scopes, tok_digest = sha raw\<rparr> # ts)
               (compileTokens u dk sha (key # ids) (sha raw # digests) (Suc i) toks))"

definition FromSpec :: "go_env \<Rightarrow> disk \<Rightarrow> (byte list \<Rightarrow> byte list) \<Rightarrow> MgmtAuthSpec \<Rightarrow> auth_error + Verifier" where
  "FromSpec u dk sha spec =
     (let mode0 = TrimSpace u (mau_Mode spec); mode = (if mode0 = [] then MgmtAuthBearer else mode0)
      in if mode \<noteq> MgmtAuthBearer \<and> mode \<noteq> MgmtAuthDevLoopbackUnauth
         then Inl (AuthInvalid \<lparr>fv_Path = ''spec.management.auth.mode'', fv_Code = ''invalid_value''\<rparr>)
         else map_sum id (\<lambda>ts. \<lparr>vf_mode = mode, vf_tokens = ts, vf_generation = 0\<rparr>)
                (compileTokens u dk sha [] [] 0 (elems (mau_Tokens spec))))"

definition sameScopes :: "string list \<Rightarrow> string list \<Rightarrow> bool" where
  "sameScopes a b \<longleftrightarrow> sort a = sort b"

text \<open>The map of the first list has, for each identifier, its last token.\<close>

definition identitiesEqual :: "string \<Rightarrow> storedToken list \<Rightarrow> string \<Rightarrow> storedToken list \<Rightarrow> bool" where
  "identitiesEqual modeA toksA modeB toksB =
     (if modeA \<noteq> modeB \<or> length toksA \<noteq> length toksB then False
      else list_all (\<lambda>t. case map_of (rev (map (\<lambda>x. (tok_id x, x)) toksA)) (tok_id t) of None \<Rightarrow> False
        | Some got \<Rightarrow> tok_digest got = tok_digest t \<and> tok_role got = tok_role t \<and> sameScopes (tok_scopes got) (tok_scopes t)) toksB)"

definition Equivalent :: "Verifier \<Rightarrow> Verifier \<Rightarrow> bool" where
  "Equivalent v w = identitiesEqual (vf_mode v) (vf_tokens v) (vf_mode w) (vf_tokens w)"

definition verifierReplace :: "Verifier \<Rightarrow> Verifier \<Rightarrow> Verifier \<times> bool" where
  "verifierReplace next v =
     (let changed = \<not> identitiesEqual (vf_mode v) (vf_tokens v) (vf_mode next) (vf_tokens next)
      in (v\<lparr>vf_generation := (if changed then vf_generation v + 1 else vf_generation v),
            vf_mode := vf_mode next, vf_tokens := vf_tokens next\<rparr>, changed))"

definition RequireListen :: "Verifier option \<Rightarrow> bool" where
  "RequireListen vo =
     (case vo of None \<Rightarrow> False
      | Some v \<Rightarrow> if vf_mode v = MgmtAuthDevLoopbackUnauth then True
                  else if vf_mode v = MgmtAuthBearer then vf_tokens v \<noteq> []
                  else False)"

subsection \<open>Authenticating\<close>

definition IsLoopback :: "go_env \<Rightarrow> string \<Rightarrow> bool" where
  "IsLoopback u remoteAddr =
     (let host0 = TrimSpace u remoteAddr; host = (case SplitHostPort host0 of Some (h, _) \<Rightarrow> h | None \<Rightarrow> host0)
      in if host = ''localhost'' then True
         else case ParseAddr host of None \<Rightarrow> False | Some a \<Rightarrow> addrIsLoopback a)"

definition principalOf :: "storedToken \<Rightarrow> Principal" where
  "principalOf t = \<lparr>pn_ID = tok_id t, pn_Class = ClassToken, pn_Role = tok_role t, pn_Scopes = tok_scopes t,
     pn_verifier = None, pn_generation = 0\<rparr>"

definition loopbackPrincipal :: Principal where
  "loopbackPrincipal = \<lparr>pn_ID = ''loopback'', pn_Class = ClassLoopback, pn_Role = ''administrator'', pn_Scopes = allScopes,
     pn_verifier = None, pn_generation = 0\<rparr>"

definition bindPrincipal :: "nat \<Rightarrow> Verifier \<Rightarrow> Principal \<Rightarrow> Principal" where
  "bindPrincipal addr v p = p\<lparr>pn_verifier := Some addr, pn_generation := vf_generation v\<rparr>"

definition lookupBearerLocked :: "(byte list \<Rightarrow> byte list) \<Rightarrow> nat \<Rightarrow> Verifier \<Rightarrow> string \<Rightarrow> auth_error + Principal" where
  "lookupBearerLocked sha addr v secret =
     (if secret = [] \<or> ContainsAny secret [CHR '' '', CHR 0x09] then Inl Unauthenticated
      else case constScan (sha (bytes_of secret)) 0 0 0 (map tok_digest (vf_tokens v)) of (idx, found) \<Rightarrow>
        if found \<noteq> 1 then Inl Unauthenticated
        else Inr (bindPrincipal addr v (principalOf (vf_tokens v ! nat idx))))"

definition Authenticate :: "go_env \<Rightarrow> (byte list \<Rightarrow> byte list) \<Rightarrow> nat \<Rightarrow> Verifier \<Rightarrow> AuthRequest \<Rightarrow> auth_error + Principal" where
  "Authenticate u sha addr v req =
     (let h = TrimSpace u (rqa_Authorization req)
      in if h = [] then
           (if vf_mode v = MgmtAuthDevLoopbackUnauth \<and> IsLoopback u (rqa_RemoteAddr req)
            then Inr (bindPrincipal addr v loopbackPrincipal) else Inl Unauthenticated)
         else if CHR '' '' \<notin> set h then Inl Unauthenticated
         else let scheme = takeWhile (\<lambda>c. c \<noteq> CHR '' '') h; rest = TrimSpace u (tl (dropWhile (\<lambda>c. c \<noteq> CHR '' '') h))
         in if \<not> EqualFold u scheme ''Bearer'' then Inl Unauthenticated
            else lookupBearerLocked sha addr v rest)"

definition AuthenticateBearer :: "go_env \<Rightarrow> (byte list \<Rightarrow> byte list) \<Rightarrow> nat \<Rightarrow> Verifier \<Rightarrow> string \<Rightarrow> auth_error + Principal" where
  "AuthenticateBearer u sha addr v secret = lookupBearerLocked sha addr v (TrimSpace u secret)"

subsection \<open>What the scan finds\<close>

lemma lookupBearer_iff:
  assumes "distinct (map tok_digest (vf_tokens v))"
  shows "lookupBearerLocked sha addr v secret = Inr p \<longleftrightarrow>
    secret \<noteq> [] \<and> \<not> ContainsAny secret [CHR '' '', CHR 0x09]
    \<and> (\<exists>t \<in> set (vf_tokens v). tok_digest t = sha (bytes_of secret) \<and> p = bindPrincipal addr v (principalOf t))"
proof -
  let ?d = "sha (bytes_of secret)" and ?ts = "vf_tokens v"
  obtain idx found where sc: "constScan ?d 0 0 0 (map tok_digest ?ts) = (idx, found)" by fastforce
  note sp = constScan_distinct[OF assms sc]
  have inj: "t = t'" if "t \<in> set ?ts" "t' \<in> set ?ts" "tok_digest t = tok_digest t'" for t t'
    using assms that by (auto simp: distinct_map inj_on_def)
  have "?ts ! nat idx = t" if "t \<in> set ?ts" "tok_digest t = ?d" for t
    using sp(2) that inj[of "?ts ! nat idx" t] by (metis image_eqI length_map list.set_map nth_map nth_mem)
  moreover have "found = 1 \<longleftrightarrow> (\<exists>t \<in> set ?ts. tok_digest t = ?d)" unfolding sp(1) by (auto simp: image_iff) metis
  ultimately show ?thesis using sc by (auto simp: lookupBearerLocked_def)
qed

text \<open>What a compiled token index holds: one entry per token of the specification, in order.\<close>

definition compiledToken :: "go_env \<Rightarrow> disk \<Rightarrow> (byte list \<Rightarrow> byte list) \<Rightarrow> TokenSpec \<Rightarrow> storedToken \<Rightarrow> bool" where
  "compiledToken u dk sha tok t \<longleftrightarrow> (\<exists>raw. readSecretFile u dk (tk_SecretFile tok) = Some raw \<and> MinTokenBytes \<le> length raw
     \<and> tok_digest t = sha raw \<and> tok_id t = TrimSpace u (tk_ID tok) \<and> (tok_role t, tok_scopes t) = expandScopes (tk_Role tok) (elems (tk_Scopes tok)))"

lemma compileTokens_ok:
  "compileTokens u dk sha ids digests i toks = Inr ts \<Longrightarrow>
     list_all2 (compiledToken u dk sha) toks ts \<and> distinct (map tok_digest ts) \<and> distinct (map tok_id ts)
     \<and> set (map tok_digest ts) \<inter> set digests = {} \<and> set (map tok_id ts) \<inter> set ids = {}"
proof (induction toks arbitrary: ids digests i ts)
  case (Cons tok toks)
  let ?k = "TrimSpace u (tk_ID tok)"
  obtain role scopes where e: "expandScopes (tk_Role tok) (elems (tk_Scopes tok)) = (role, scopes)" by fastforce
  from Cons.prems e obtain raw ts' where raw: "readSecretFile u dk (tk_SecretFile tok) = Some raw" "MinTokenBytes \<le> length raw" "sha raw \<notin> set digests"
    and k: "?k \<notin> set ids" and c: "compileTokens u dk sha (?k # ids) (sha raw # digests) (Suc i) toks = Inr ts'"
    and ts: "ts = \<lparr>tok_id = ?k, tok_role = role, tok_scopes = scopes, tok_digest = sha raw\<rparr> # ts'"
    by (auto simp: Let_def not_less map_sum_def split: if_splits option.splits sum.splits)
  from Cons.IH[OF c] raw k e show ?case by (auto simp: ts compiledToken_def)
qed simp

text \<open>The secret a header presents: the Bearer scheme, then one word.\<close>

definition bearerSecret :: "go_env \<Rightarrow> string \<Rightarrow> string option" where
  "bearerSecret u header =
     (let h = TrimSpace u header; rest = TrimSpace u (tl (dropWhile (\<lambda>c. c \<noteq> CHR '' '') h))
      in if CHR '' '' \<in> set h \<and> EqualFold u (takeWhile (\<lambda>c. c \<noteq> CHR '' '') h) ''Bearer''
            \<and> rest \<noteq> [] \<and> \<not> ContainsAny rest [CHR '' '', CHR 0x09]
         then Some rest else None)"

text \<open>(C25) Authentication is exact. With the verifier compiled from a specification, at any credential
  generation, a request is let in either with no Authorization header, in the development mode and from
  a loopback address, as the loopback administrator; or with a Bearer secret whose digest is the
  digest of the secret file of some token, as that token's identity, role and scopes. Every other
  request is refused.\<close>

theorem authentication_is_exact:
  assumes "FromSpec u dk sha spec = Inr v"
  shows "Authenticate u sha addr (v\<lparr>vf_generation := g\<rparr>) req = Inr p \<longleftrightarrow>
    TrimSpace u (rqa_Authorization req) = [] \<and> TrimSpace u (mau_Mode spec) = MgmtAuthDevLoopbackUnauth \<and> IsLoopback u (rqa_RemoteAddr req)
      \<and> p = \<lparr>pn_ID = ''loopback'', pn_Class = ClassLoopback, pn_Role = ''administrator'', pn_Scopes = allScopes, pn_verifier = Some addr, pn_generation = g\<rparr>
    \<or> (\<exists>secret tok raw role scopes. bearerSecret u (rqa_Authorization req) = Some secret \<and> tok \<in> set (elems (mau_Tokens spec))
      \<and> readSecretFile u dk (tk_SecretFile tok) = Some raw \<and> sha raw = sha (bytes_of secret)
      \<and> expandScopes (tk_Role tok) (elems (tk_Scopes tok)) = (role, scopes)
      \<and> p = \<lparr>pn_ID = TrimSpace u (tk_ID tok), pn_Class = ClassToken, pn_Role = role, pn_Scopes = scopes, pn_verifier = Some addr, pn_generation = g\<rparr>)"
    (is "?auth \<longleftrightarrow> ?loop \<or> ?token")
proof -
  let ?h = "TrimSpace u (rqa_Authorization req)"
  let ?rest = "TrimSpace u (tl (dropWhile (\<lambda>c. c \<noteq> CHR '' '') ?h))"
  let ?v = "v\<lparr>vf_generation := g\<rparr>"
  from assms obtain ts where ts: "compileTokens u dk sha [] [] 0 (elems (mau_Tokens spec)) = Inr ts" "vf_tokens v = ts"
    and mode: "vf_mode v = (if TrimSpace u (mau_Mode spec) = [] then MgmtAuthBearer else TrimSpace u (mau_Mode spec))"
    by (auto simp: FromSpec_def Let_def map_sum_def split: if_splits sum.splits)
  note c = compileTokens_ok[OF ts(1)]
  have d: "distinct (map tok_digest (vf_tokens ?v))" using c ts(2) by simp
  have m: "vf_mode v = MgmtAuthDevLoopbackUnauth \<longleftrightarrow> TrimSpace u (mau_Mode spec) = MgmtAuthDevLoopbackUnauth"
    using mode by (auto simp: MgmtAuthBearer_def MgmtAuthDevLoopbackUnauth_def)
  have token: "(\<exists>t \<in> set ts. tok_digest t = sha (bytes_of s) \<and> p = bindPrincipal addr ?v (principalOf t)) \<longleftrightarrow>
      (\<exists>tok raw role scopes. tok \<in> set (elems (mau_Tokens spec)) \<and> readSecretFile u dk (tk_SecretFile tok) = Some raw \<and> sha raw = sha (bytes_of s)
        \<and> expandScopes (tk_Role tok) (elems (tk_Scopes tok)) = (role, scopes)
        \<and> p = \<lparr>pn_ID = TrimSpace u (tk_ID tok), pn_Class = ClassToken, pn_Role = role, pn_Scopes = scopes, pn_verifier = Some addr, pn_generation = g\<rparr>)" for s
  proof -
    from c have all2: "list_all2 (compiledToken u dk sha) (elems (mau_Tokens spec)) ts" by blast
    have "\<exists>tok \<in> set (elems (mau_Tokens spec)). compiledToken u dk sha tok t" if "t \<in> set ts" for t
      using all2 that by (metis in_set_conv_nth list_all2_conv_all_nth)
    moreover have "\<exists>t \<in> set ts. compiledToken u dk sha tok t" if "tok \<in> set (elems (mau_Tokens spec))" for tok
      using all2 that by (metis in_set_conv_nth list_all2_conv_all_nth)
    ultimately show ?thesis by (fastforce simp: compiledToken_def bindPrincipal_def principalOf_def)
  qed
  show ?thesis
  proof (cases "?h = []")
    case True
    then have "bearerSecret u (rqa_Authorization req) = None" by (simp add: bearerSecret_def)
    with True m show ?thesis by (auto simp: Authenticate_def bindPrincipal_def loopbackPrincipal_def)
  next
    case False
    then have "?auth \<longleftrightarrow> CHR '' '' \<in> set ?h \<and> EqualFold u (takeWhile (\<lambda>c. c \<noteq> CHR '' '') ?h) ''Bearer'' \<and> lookupBearerLocked sha addr ?v ?rest = Inr p"
      by (auto simp: Authenticate_def Let_def)
    also have "\<dots> \<longleftrightarrow> (\<exists>s. bearerSecret u (rqa_Authorization req) = Some s
        \<and> (\<exists>t \<in> set ts. tok_digest t = sha (bytes_of s) \<and> p = bindPrincipal addr ?v (principalOf t)))"
      using ts(2) unfolding lookupBearer_iff[OF d] bearerSecret_def Let_def by auto
    also have "\<dots> \<longleftrightarrow> ?token" unfolding token by blast
    finally show ?thesis using False by blast
  qed
qed

definition exAuth :: MgmtAuthSpec where
  "exAuth = \<lparr>mau_Mode = '''', mau_Tokens = Some [\<lparr>tk_ID = ''ops'', tk_SecretFile = ''/run/t'', tk_Role = ''operator'', tk_Scopes = None\<rparr>]\<rparr>"

definition exDisk :: disk where
  "exDisk = \<lparr>dk_Stat = (\<lambda>_. Some 0), dk_ReadFile = (\<lambda>_. Some (replicate 32 (CHR ''k'')))\<rparr>"

theorem authentication_is_exact_witness:
  "\<exists>v. FromSpec ascii_env exDisk id exAuth = Inr v
    \<and> Authenticate ascii_env id 0 (v\<lparr>vf_generation := 3\<rparr>) \<lparr>rqa_Authorization = ''Bearer '' @ replicate 32 (CHR ''k''), rqa_RemoteAddr = ''10.0.0.1:1''\<rparr>
      = Inr \<lparr>pn_ID = ''ops'', pn_Class = ''token'', pn_Role = ''operator'', pn_Scopes = [''mitm.read'', ''mitm.write''], pn_verifier = Some 0, pn_generation = 3\<rparr>"
proof -
  let ?h = "''Bearer '' @ replicate 32 (CHR ''k'')" and ?s = "replicate 32 (CHR ''k'')"
  have "\<not> isl (FromSpec ascii_env exDisk id exAuth)" by code_simp
  then obtain v where v: "FromSpec ascii_env exDisk id exAuth = Inr v" by (cases "FromSpec ascii_env exDisk id exAuth") auto
  have "bearerSecret ascii_env ?h = Some ?s" "readSecretFile ascii_env exDisk ''/run/t'' = Some (bytes_of ?s)" "TrimSpace ascii_env ''ops'' = ''ops''"
    "expandScopes ''operator'' [] = (''operator'', [''mitm.read'', ''mitm.write''])" by code_simp+
  with v authentication_is_exact[OF v, of 0 3 "\<lparr>rqa_Authorization = ?h, rqa_RemoteAddr = ''10.0.0.1:1''\<rparr>"
      "\<lparr>pn_ID = ''ops'', pn_Class = ''token'', pn_Role = ''operator'', pn_Scopes = [''mitm.read'', ''mitm.write''], pn_verifier = Some 0, pn_generation = 3\<rparr>"]
  show ?thesis by (auto simp: exAuth_def ClassToken_def elems_def)
qed

end
