(* ===== verification/Auth_Session.thy ===== *)
theory Auth_Session
  imports Auth_Verify
begin

text \<open>
  The cookie sessions of the management interface (\<open>internal/auth/session.go\<close>): a table from
  cookies to records, with an idle and an absolute lifetime, a size limit and revocation by the
  generation of the verifier that let the principal in. The clock and what the random source returns
  (\<open>None\<close> when it fails) are arguments; so is the order in which Go walks the map when it looks
  for the oldest record. \<open>gens\<close> reads the generation of a verifier.
\<close>

record SessionConfig =
  sc_Idle :: duration
  sc_Absolute :: duration
  sc_Max :: int

record Session =
  se_ID :: string
  se_TokenID :: string
  se_Role :: string
  se_Scopes :: "string list"
  se_CreatedAt :: gotime
  se_LastSeen :: gotime
  se_verifier :: "nat option"
  se_generation :: "64 word"

record sessRecord =
  sr_public :: Session
  sr_csrf :: string
  sr_createdAt :: gotime
  sr_lastSeen :: gotime

record SessStore =
  ses_sessions :: "(string, sessRecord) gomap"
  ses_cfg :: SessionConfig

definition DefaultSessionConfig :: SessionConfig where
  "DefaultSessionConfig = \<lparr>sc_Idle = 14400000000000, sc_Absolute = 43200000000000, sc_Max = 64\<rparr>"

definition newSessStore :: "SessionConfig \<Rightarrow> SessStore" where
  "newSessStore cfg =
     \<lparr>ses_sessions = [], ses_cfg =
       \<lparr>sc_Idle = (if sc_Idle cfg \<le> 0 then sc_Idle DefaultSessionConfig else sc_Idle cfg),
        sc_Absolute = (if sc_Absolute cfg \<le> 0 then sc_Absolute DefaultSessionConfig else sc_Absolute cfg),
        sc_Max = (if sc_Max cfg \<le> 0 then sc_Max DefaultSessionConfig else sc_Max cfg)\<rparr>\<rparr>"

definition expiredLocked :: "SessionConfig \<Rightarrow> sessRecord \<Rightarrow> gotime \<Rightarrow> bool" where
  "expiredLocked cfg r now = (if now - sr_lastSeen r > sc_Idle cfg then True else now - sr_createdAt r > sc_Absolute cfg)"

definition revokedLocked :: "(nat \<Rightarrow> 64 word) \<Rightarrow> sessRecord \<Rightarrow> bool" where
  "revokedLocked gens r = (case se_verifier (sr_public r) of None \<Rightarrow> False | Some a \<Rightarrow> se_generation (sr_public r) \<noteq> gens a)"

definition expireLocked :: "gotime \<Rightarrow> SessStore \<Rightarrow> SessStore" where
  "expireLocked now s = s\<lparr>ses_sessions := filter (\<lambda>(k, r). \<not> expiredLocked (ses_cfg s) r now) (ses_sessions s)\<rparr>"

text \<open>One turn of the search for the oldest record: the key and time so far, \<open>None\<close> at first.\<close>

definition olderOf :: "(string, sessRecord) gomap \<Rightarrow> string \<Rightarrow> (string \<times> gotime) option \<Rightarrow> (string \<times> gotime) option" where
  "olderOf m k acc =
     (case map_of m k of None \<Rightarrow> acc
      | Some r \<Rightarrow> (case acc of None \<Rightarrow> Some (k, sr_lastSeen r)
          | Some (k0, t0) \<Rightarrow> if sr_lastSeen r < t0 then Some (k, sr_lastSeen r) else acc))"

definition evictOldestLocked :: "string list \<Rightarrow> SessStore \<Rightarrow> SessStore" where
  "evictOldestLocked order s =
     (case fold (olderOf (ses_sessions s)) order None of
        None \<Rightarrow> s
      | Some (k, _) \<Rightarrow> if k \<noteq> '''' then s\<lparr>ses_sessions := AList.delete k (ses_sessions s)\<rparr> else s)"

definition newSessRecord :: "Principal \<Rightarrow> string \<Rightarrow> string \<Rightarrow> gotime \<Rightarrow> sessRecord" where
  "newSessRecord p publicID csrf now =
     \<lparr>sr_public = \<lparr>se_ID = publicID, se_TokenID = pn_ID p, se_Role = pn_Role p, se_Scopes = pn_Scopes p,
        se_CreatedAt = now, se_LastSeen = now, se_verifier = pn_verifier p, se_generation = pn_generation p\<rparr>,
      sr_csrf = csrf, sr_createdAt = now, sr_lastSeen = now\<rparr>"

definition sessCreate :: "(nat \<Rightarrow> 64 word) \<Rightarrow> gotime \<Rightarrow> string option \<Rightarrow> string option \<Rightarrow> string option \<Rightarrow> string list \<Rightarrow> Principal \<Rightarrow> SessStore \<Rightarrow>
    SessStore \<times> (auth_error + string \<times> string \<times> Session)" where
  "sessCreate gens now rnd1 rnd2 rnd3 order p s =
     (if (case pn_verifier p of None \<Rightarrow> False | Some a \<Rightarrow> pn_generation p \<noteq> gens a) then (s, Inl Unauthenticated)
      else case rnd1 of None \<Rightarrow> (s, Inl AuthInternal)
      | Some cookie \<Rightarrow>
        (case rnd2 of None \<Rightarrow> (s, Inl AuthInternal)
         | Some csrf \<Rightarrow>
           (case rnd3 of None \<Rightarrow> (s, Inl AuthInternal)
            | Some publicID \<Rightarrow>
              let r = newSessRecord p publicID csrf now;
                  s1 = expireLocked now s;
                  s2 = (if int (length (ses_sessions s1)) \<ge> sc_Max (ses_cfg s1) then evictOldestLocked order s1 else s1)
              in (s2\<lparr>ses_sessions := AList.update cookie r (ses_sessions s2)\<rparr>, Inr (cookie, csrf, sr_public r)))))"

definition sessLookup :: "(nat \<Rightarrow> 64 word) \<Rightarrow> gotime \<Rightarrow> string \<Rightarrow> SessStore \<Rightarrow> SessStore \<times> (Session \<times> string) option" where
  "sessLookup gens now cookie s =
     (if cookie = '''' then (s, None)
      else case map_of (ses_sessions s) cookie of None \<Rightarrow> (s, None)
      | Some r \<Rightarrow>
        if revokedLocked gens r \<or> expiredLocked (ses_cfg s) r now then (s\<lparr>ses_sessions := AList.delete cookie (ses_sessions s)\<rparr>, None)
        else let r' = r\<lparr>sr_lastSeen := now, sr_public := (sr_public r)\<lparr>se_LastSeen := now\<rparr>\<rparr>
             in (s\<lparr>ses_sessions := AList.update cookie r' (ses_sessions s)\<rparr>, Some (sr_public r', sr_csrf r')))"

definition sessDelete :: "string \<Rightarrow> SessStore \<Rightarrow> SessStore" where
  "sessDelete cookie s = (if cookie = '''' then s else s\<lparr>ses_sessions := AList.delete cookie (ses_sessions s)\<rparr>)"

definition sessClear :: "SessStore \<Rightarrow> SessStore" where
  "sessClear s = s\<lparr>ses_sessions := []\<rparr>"

definition ValidCSRF :: "(nat \<Rightarrow> 64 word) \<Rightarrow> (byte list \<Rightarrow> byte list) \<Rightarrow> gotime \<Rightarrow> string \<Rightarrow> string \<Rightarrow> SessStore \<Rightarrow> SessStore \<times> bool" where
  "ValidCSRF gens sha now cookie presented s =
     (if cookie = '''' \<or> presented = '''' then (s, False)
      else case map_of (ses_sessions s) cookie of None \<Rightarrow> (s, False)
      | Some r \<Rightarrow>
        if revokedLocked gens r \<or> expiredLocked (ses_cfg s) r now then (s\<lparr>ses_sessions := AList.delete cookie (ses_sessions s)\<rparr>, False)
        else (s, sha (bytes_of (sr_csrf r)) = sha (bytes_of presented)))"

definition ExpiresAt :: "SessStore \<Rightarrow> Session \<Rightarrow> gotime" where
  "ExpiresAt s sess =
     (let idle = se_LastSeen sess + sc_Idle (ses_cfg s); abso = se_CreatedAt sess + sc_Absolute (ses_cfg s)
      in if idle < abso then idle else abso)"

definition UnsafeMethod :: "string \<Rightarrow> bool" where
  "UnsafeMethod m \<longleftrightarrow> m \<in> {''POST'', ''PUT'', ''PATCH'', ''DELETE''}"

definition PrincipalFromSession :: "Session \<Rightarrow> Principal" where
  "PrincipalFromSession sess = \<lparr>pn_ID = se_TokenID sess, pn_Class = ClassToken, pn_Role = se_Role sess, pn_Scopes = se_Scopes sess,
     pn_verifier = se_verifier sess, pn_generation = se_generation sess\<rparr>"

subsection \<open>The table under any use\<close>

text \<open>A state: the table, how often the credentials of each verifier changed, and, as a record of what
  happened, for which principal, at which change and when a cookie was issued, and the issued cookies that were
  deleted or wiped. The random source
  returns a new cookie every time.\<close>

record auth_state =
  as_store :: SessStore
  as_changes :: "nat \<Rightarrow> nat"
  as_issued :: "string \<Rightarrow> (Principal \<times> nat \<times> gotime) option"
  as_ended :: "string set"

definition gensOf :: "auth_state \<Rightarrow> nat \<Rightarrow> 64 word" where
  "gensOf st a = of_nat (as_changes st a)"

definition changeOf :: "auth_state \<Rightarrow> Principal \<Rightarrow> nat" where
  "changeOf st p = (case pn_verifier p of None \<Rightarrow> 0 | Some a \<Rightarrow> as_changes st a)"

inductive auth_reach :: "auth_state \<Rightarrow> bool" where
  start: "auth_reach \<lparr>as_store = newSessStore cfg, as_changes = (\<lambda>_. 0), as_issued = (\<lambda>_. None), as_ended = {}\<rparr>"
| create: "auth_reach st \<Longrightarrow> cookie \<noteq> '''' \<Longrightarrow> as_issued st cookie = None \<Longrightarrow> set order = fst ` set (ses_sessions (expireLocked now (as_store st)))
    \<Longrightarrow> sessCreate (gensOf st) now (Some cookie) rnd2 rnd3 order p (as_store st) = (s', res)
    \<Longrightarrow> auth_reach (st\<lparr>as_store := s', as_issued := (case res of Inl _ \<Rightarrow> as_issued st | Inr _ \<Rightarrow> (as_issued st)(cookie \<mapsto> (p, changeOf st p, now)))\<rparr>)"
| look: "auth_reach st \<Longrightarrow> sessLookup (gensOf st) now cookie (as_store st) = (s', res) \<Longrightarrow> auth_reach (st\<lparr>as_store := s'\<rparr>)"
| csrf: "auth_reach st \<Longrightarrow> ValidCSRF (gensOf st) sha now cookie presented (as_store st) = (s', ok) \<Longrightarrow> auth_reach (st\<lparr>as_store := s'\<rparr>)"
| del: "auth_reach st \<Longrightarrow> auth_reach (st\<lparr>as_store := sessDelete cookie (as_store st),
      as_ended := (if as_issued st cookie = None then as_ended st else insert cookie (as_ended st))\<rparr>)"
| wipe: "auth_reach st \<Longrightarrow> auth_reach (st\<lparr>as_store := sessClear (as_store st), as_ended := {k. as_issued st k \<noteq> None}\<rparr>)"
| credentials: "auth_reach st \<Longrightarrow> auth_reach (st\<lparr>as_changes := (as_changes st)(a := Suc (as_changes st a))\<rparr>)"

text \<open>A record is the one its cookie was issued with, but for the time it was last seen.\<close>

definition fromIssue :: "auth_state \<Rightarrow> string \<Rightarrow> sessRecord \<Rightarrow> bool" where
  "fromIssue st k r \<longleftrightarrow> (\<exists>p n t0. as_issued st k = Some (p, n, t0) \<and> sr_createdAt r = t0 \<and> se_TokenID (sr_public r) = pn_ID p
     \<and> se_Role (sr_public r) = pn_Role p \<and> se_Scopes (sr_public r) = pn_Scopes p \<and> se_CreatedAt (sr_public r) = t0
     \<and> se_LastSeen (sr_public r) = sr_lastSeen r \<and> se_verifier (sr_public r) = pn_verifier p
     \<and> (\<forall>a. pn_verifier p = Some a \<longrightarrow> se_generation (sr_public r) = of_nat n \<and> n \<le> as_changes st a))"

definition sess_inv :: "auth_state \<Rightarrow> bool" where
  "sess_inv st \<longleftrightarrow> distinct (map fst (ses_sessions (as_store st))) \<and> 0 < sc_Max (ses_cfg (as_store st))
     \<and> int (length (ses_sessions (as_store st))) \<le> sc_Max (ses_cfg (as_store st))
     \<and> (\<forall>k r. map_of (ses_sessions (as_store st)) k = Some r \<longrightarrow> k \<noteq> '''' \<and> fromIssue st k r)
     \<and> (\<forall>k \<in> as_ended st. map_of (ses_sessions (as_store st)) k = None \<and> as_issued st k \<noteq> None)"

lemma fold_olderOf:
  "\<exists>k t. fold (olderOf m) ks (Some (k0, t0)) = Some (k, t) \<and> (k = k0 \<or> k \<in> set ks \<and> map_of m k \<noteq> None)"
proof (induction ks arbitrary: k0 t0)
  case (Cons x ks)
  obtain k1 t1 where "olderOf m x (Some (k0, t0)) = Some (k1, t1)" and k1: "k1 = k0 \<or> k1 = x \<and> map_of m x \<noteq> None"
    by (cases "map_of m x"; cases "sr_lastSeen (the (map_of m x)) < t0") (auto simp: olderOf_def)
  with Cons.IH[of k1 t1] show ?case by auto
qed simp

lemma evictOldest_removes:
  assumes "set order = fst ` set (ses_sessions s)" and "ses_sessions s \<noteq> []" and "\<forall>k r. map_of (ses_sessions s) k = Some r \<longrightarrow> k \<noteq> ''''"
  shows "\<exists>k. map_of (ses_sessions s) k \<noteq> None \<and> evictOldestLocked order s = s\<lparr>ses_sessions := AList.delete k (ses_sessions s)\<rparr>"
proof -
  let ?m = "ses_sessions s"
  from assms(1,2) obtain x ks where order: "order = x # ks" by (cases order) auto
  with assms(1) have "x \<in> fst ` set ?m" by auto
  then obtain r where r: "map_of ?m x = Some r" by (metis map_of_eq_None_iff not_None_eq)
  then have "olderOf ?m x None = Some (x, sr_lastSeen r)" by (simp add: olderOf_def)
  with fold_olderOf[of ?m ks x "sr_lastSeen r"] obtain k t where "fold (olderOf ?m) order None = Some (k, t)" "k = x \<or> map_of ?m k \<noteq> None"
    by (auto simp: order)
  with r assms(3) show ?thesis by (auto simp: evictOldestLocked_def)
qed


lemma map_of_filter: "distinct (map fst m) \<Longrightarrow> map_of (filter P m) k = Some r \<longleftrightarrow> map_of m k = Some r \<and> P (k, r)"
  by (simp add: distinct_map_filter)

declare map_of_eq_Some_iff [simp del]

lemma fromIssue_store [simp]: "fromIssue (st\<lparr>as_store := s\<rparr>) k r = fromIssue st k r"
  by (simp add: fromIssue_def)

lemma fromIssue_ended [simp]: "fromIssue (st\<lparr>as_ended := E\<rparr>) k r = fromIssue st k r"
  "fromIssue (st\<lparr>as_store := s, as_ended := E\<rparr>) k r = fromIssue st k r"
  by (simp_all add: fromIssue_def)

lemma map_of_filter_None: "distinct (map fst m) \<Longrightarrow> map_of m k = None \<Longrightarrow> map_of (filter P m) k = None"
  using map_of_filter[of m P k] by (cases "map_of (filter P m) k") auto

lemma fromIssue_touch: "fromIssue st k r \<Longrightarrow> fromIssue st k (r\<lparr>sr_lastSeen := now, sr_public := (sr_public r)\<lparr>se_LastSeen := now\<rparr>\<rparr>)"
  by (auto simp: fromIssue_def)

lemma distinct_delete: "distinct (map fst m) \<Longrightarrow> distinct (map fst (AList.delete k m))"
  by (simp add: AList.delete_eq distinct_map_filter)

text \<open>Dropping records keeps the invariant.\<close>

lemma sess_inv_drop:
  assumes "sess_inv st"
  shows "sess_inv (st\<lparr>as_store := (as_store st)\<lparr>ses_sessions := AList.delete k (ses_sessions (as_store st))\<rparr>\<rparr>)"
    and "sess_inv (st\<lparr>as_store := (as_store st)\<lparr>ses_sessions := filter P (ses_sessions (as_store st))\<rparr>\<rparr>)"
    and "sess_inv (st\<lparr>as_store := sessClear (as_store st), as_ended := {k. as_issued st k \<noteq> None}\<rparr>)"
proof -
  let ?m = "ses_sessions (as_store st)"
  from assms have d: "distinct (map fst ?m)" by (simp add: sess_inv_def)
  have "int (length (filter P ?m)) \<le> int (length ?m)" by simp
  moreover have "int (length ?m) \<le> sc_Max (ses_cfg (as_store st))" using assms by (simp add: sess_inv_def)
  ultimately have "int (length (filter P ?m)) \<le> sc_Max (ses_cfg (as_store st))" by linarith
  with assms show "sess_inv (st\<lparr>as_store := (as_store st)\<lparr>ses_sessions := filter P ?m\<rparr>\<rparr>)"
    by (auto simp: sess_inv_def distinct_map_filter map_of_filter[OF d] map_of_filter_None[OF d])
  from assms length_delete_le[of k ?m] show "sess_inv (st\<lparr>as_store := (as_store st)\<lparr>ses_sessions := AList.delete k ?m\<rparr>\<rparr>)"
    by (auto simp: sess_inv_def distinct_delete split: if_splits)
  from assms show "sess_inv (st\<lparr>as_store := sessClear (as_store st), as_ended := {k. as_issued st k \<noteq> None}\<rparr>)" by (auto simp: sess_inv_def sessClear_def)
qed

text \<open>A deleted cookie is not in the table and may be marked as ended.\<close>

lemma sess_inv_end:
  assumes "sess_inv st" and "as_issued st k \<noteq> None" and "map_of (ses_sessions (as_store st)) k = None"
  shows "sess_inv (st\<lparr>as_store := as_store st, as_ended := insert k (as_ended st)\<rparr>)"
  using assms by (auto simp: sess_inv_def)

lemma sess_inv_delete:
  assumes "sess_inv st"
  shows "sess_inv (st\<lparr>as_store := sessDelete k (as_store st), as_ended := (if as_issued st k = None then as_ended st else insert k (as_ended st))\<rparr>)"
proof -
  let ?t = "st\<lparr>as_store := sessDelete k (as_store st)\<rparr>"
  have t: "sess_inv ?t" using sess_inv_drop(1)[OF assms, of k] assms by (simp add: sessDelete_def)
  have "map_of (ses_sessions (as_store ?t)) k = None"
  proof (cases "k = ''''")
    case True
    with assms show ?thesis by (cases "map_of (ses_sessions (as_store st)) k") (auto simp: sessDelete_def sess_inv_def)
  next
    case False
    then show ?thesis by (simp add: sessDelete_def delete_conv')
  qed
  with sess_inv_end[OF t, of k] t show ?thesis by simp
qed

lemma sess_inv_touch:
  assumes inv: "sess_inv st" and r: "map_of (ses_sessions (as_store st)) k = Some r"
  shows "sess_inv (st\<lparr>as_store := (as_store st)\<lparr>ses_sessions :=
    AList.update k (r\<lparr>sr_lastSeen := now, sr_public := (sr_public r)\<lparr>se_LastSeen := now\<rparr>\<rparr>) (ses_sessions (as_store st))\<rparr>\<rparr>)"
proof -
  let ?m = "ses_sessions (as_store st)" and ?r = "r\<lparr>sr_lastSeen := now, sr_public := (sr_public r)\<lparr>se_LastSeen := now\<rparr>\<rparr>"
  from r have "k \<in> fst ` set ?m" by (metis map_of_eq_None_iff option.distinct(1))
  then have "length (AList.update k ?r ?m) = length ?m" "distinct (map fst (AList.update k ?r ?m))"
    using inv length_update_old[of k ?m ?r] distinct_update[of ?m k ?r] by (auto simp: sess_inv_def)
  moreover have "k \<noteq> ''''" "fromIssue st k ?r" using inv r fromIssue_touch by (auto simp: sess_inv_def)
  moreover have "k \<notin> as_ended st" using inv r by (auto simp: sess_inv_def)
  ultimately show ?thesis using inv by (auto simp: sess_inv_def)
qed

lemma sess_inv_create:
  assumes inv: "sess_inv st" and fresh: "cookie \<noteq> ''''" "as_issued st cookie = None"
    and order: "set order = fst ` set (ses_sessions (expireLocked now (as_store st)))"
    and c: "sessCreate (gensOf st) now (Some cookie) rnd2 rnd3 order p (as_store st) = (s', Inr res)"
  shows "sess_inv (st\<lparr>as_store := s', as_issued := (as_issued st)(cookie \<mapsto> (p, changeOf st p, now))\<rparr>)"
proof -
  let ?s1 = "expireLocked now (as_store st)"
  let ?s2 = "if int (length (ses_sessions ?s1)) \<ge> sc_Max (ses_cfg ?s1) then evictOldestLocked order ?s1 else ?s1"
  from c obtain csrf pid where gen: "\<forall>a. pn_verifier p = Some a \<longrightarrow> pn_generation p = gensOf st a"
    and s': "s' = ?s2\<lparr>ses_sessions := AList.update cookie (newSessRecord p pid csrf now) (ses_sessions ?s2)\<rparr>"
    by (auto simp: sessCreate_def Let_def split: if_splits option.splits)
  have i1: "sess_inv (st\<lparr>as_store := ?s1\<rparr>)" unfolding expireLocked_def by (rule sess_inv_drop(2)[OF inv])
  have i2: "sess_inv (st\<lparr>as_store := ?s2\<rparr>) \<and> int (length (ses_sessions ?s2)) < sc_Max (ses_cfg ?s2) \<and> ses_cfg ?s2 = ses_cfg ?s1"
  proof (cases "int (length (ses_sessions ?s1)) \<ge> sc_Max (ses_cfg ?s1)")
    case True
    with i1 have ne: "ses_sessions ?s1 \<noteq> []" and kn: "\<forall>k r. map_of (ses_sessions ?s1) k = Some r \<longrightarrow> k \<noteq> ''''" by (auto simp: sess_inv_def)
    from evictOldest_removes[OF order ne kn] obtain k where k: "map_of (ses_sessions ?s1) k \<noteq> None"
      and e: "evictOldestLocked order ?s1 = ?s1\<lparr>ses_sessions := AList.delete k (ses_sessions ?s1)\<rparr>" by blast
    have "length (AList.delete k (ses_sessions ?s1)) < length (ses_sessions ?s1)"
      using k i1 length_delete_key[of "ses_sessions ?s1" k] ne by (auto simp: sess_inv_def map_of_eq_None_iff)
    with sess_inv_drop(1)[OF i1, of k] i1 True show ?thesis by (auto simp: e sess_inv_def)
  qed (use i1 in \<open>auto simp: sess_inv_def\<close>)
  define s2 where "s2 = ?s2"
  note i2 = i2[folded s2_def] and s' = s'[folded s2_def]
  have new: "map_of (ses_sessions s2) cookie = None"
  proof (rule ccontr)
    assume "map_of (ses_sessions s2) cookie \<noteq> None"
    then obtain r where "map_of (ses_sessions s2) cookie = Some r" by blast
    with i2 have "fromIssue st cookie r" by (simp add: sess_inv_def)
    with fresh(2) show False by (simp add: fromIssue_def)
  qed
  have len: "length (AList.update cookie (newSessRecord p pid csrf now) (ses_sessions s2)) = Suc (length (ses_sessions s2))"
    using new length_update_new[of cookie "ses_sessions s2" "newSessRecord p pid csrf now"] by (auto simp: map_of_eq_None_iff)
  let ?st = "st\<lparr>as_store := s', as_issued := (as_issued st)(cookie \<mapsto> (p, changeOf st p, now))\<rparr>"
  have "fromIssue ?st cookie (newSessRecord p pid csrf now)"
    using gen by (auto simp: fromIssue_def newSessRecord_def changeOf_def gensOf_def)
  moreover have "k \<noteq> '''' \<and> fromIssue ?st k r" if "map_of (ses_sessions s2) k = Some r" "k \<noteq> cookie" for k r
    using i2 that by (auto simp: sess_inv_def fromIssue_def)
  moreover have "cookie \<notin> as_ended st" using inv fresh(2) by (auto simp: sess_inv_def)
  ultimately show ?thesis using i2 len fresh(1) distinct_update[of "ses_sessions s2" cookie "newSessRecord p pid csrf now"]
    by (auto simp: sess_inv_def s')
qed

lemma sess_inv_reach: "auth_reach st \<Longrightarrow> sess_inv st"
proof (induction rule: auth_reach.induct)
  case (start cfg)
  show ?case by (simp add: sess_inv_def newSessStore_def DefaultSessionConfig_def)
next
  case (create st cookie order now rnd2 rnd3 p s' res)
  show ?case
  proof (cases res)
    case (Inl e)
    then have "s' = as_store st" using create.hyps(5) by (auto simp: sessCreate_def Let_def split: if_splits option.splits)
    with Inl create.IH show ?thesis by simp
  next
    case (Inr x)
    with sess_inv_create[OF create.IH create.hyps(2,3,4)] create.hyps(5) show ?thesis by simp
  qed
next
  case (look st now cookie s' res)
  then show ?case using sess_inv_drop(1)[of st cookie] sess_inv_touch[of st cookie _ now]
    by (auto simp: sessLookup_def Let_def split: if_splits option.splits)
next
  case (csrf st sha now cookie presented s' ok)
  then show ?case using sess_inv_drop(1)[of st cookie] by (auto simp: ValidCSRF_def split: if_splits option.splits)
next
  case (del st cookie)
  show ?case by (rule sess_inv_delete[OF del.IH])
next
  case (wipe st)
  show ?case by (rule sess_inv_drop(3)[OF wipe.IH])
next
  case (credentials st a)
  then show ?case by (fastforce simp: sess_inv_def fromIssue_def)
qed

lemma of_nat_eq_iff_64: "n \<le> m \<Longrightarrow> m < 2 ^ 64 \<Longrightarrow> (of_nat n :: 64 word) = of_nat m \<longleftrightarrow> n = m"
  by (auto simp: word_of_nat_eq_iff take_bit_nat_eq_self)

text \<open>(C26) Sessions live no longer than they may. In every reachable state the table holds at most its
  maximum of sessions; and a cookie is accepted only if it was issued and neither deleted nor wiped since, to a principal whose identity,
  role and scopes the session has, not longer ago than the absolute lifetime, if it was used within the
  idle lifetime, and if the credentials of the verifier that let the principal in have not changed
  since, given that they changed fewer than \<open>2 ^ 64\<close> times in all.\<close>

theorem sessions_are_live:
  assumes "auth_reach st" and "\<forall>a. as_changes st a < 2 ^ 64" and "sessLookup (gensOf st) now cookie (as_store st) = (s', Some (sess, csrf))"
  shows "int (length (ses_sessions (as_store st))) \<le> sc_Max (ses_cfg (as_store st)) \<and>
    (\<exists>p n t0 r. as_issued st cookie = Some (p, n, t0) \<and> cookie \<notin> as_ended st \<and> map_of (ses_sessions (as_store st)) cookie = Some r
      \<and> se_TokenID sess = pn_ID p \<and> se_Role sess = pn_Role p \<and> se_Scopes sess = pn_Scopes p
      \<and> now - t0 \<le> sc_Absolute (ses_cfg (as_store st)) \<and> now - sr_lastSeen r \<le> sc_Idle (ses_cfg (as_store st))
      \<and> (\<forall>a. pn_verifier p = Some a \<longrightarrow> as_changes st a = n))"
proof -
  note inv = sess_inv_reach[OF assms(1)]
  from assms(3) obtain r where r: "map_of (ses_sessions (as_store st)) cookie = Some r" "\<not> revokedLocked (gensOf st) r"
    "\<not> expiredLocked (ses_cfg (as_store st)) r now" and sess: "sess = (sr_public r)\<lparr>se_LastSeen := now\<rparr>"
    by (auto simp: sessLookup_def Let_def split: if_splits option.splits)
  from inv r(1) have "fromIssue st cookie r" by (simp add: sess_inv_def)
  then obtain p n t0 where i: "as_issued st cookie = Some (p, n, t0)" "sr_createdAt r = t0" "se_TokenID (sr_public r) = pn_ID p"
    "se_Role (sr_public r) = pn_Role p" "se_Scopes (sr_public r) = pn_Scopes p" "se_verifier (sr_public r) = pn_verifier p"
    "\<forall>a. pn_verifier p = Some a \<longrightarrow> se_generation (sr_public r) = of_nat n \<and> n \<le> as_changes st a" by (auto simp: fromIssue_def)
  have same: "as_changes st a = n" if "pn_verifier p = Some a" for a
  proof -
    from r(2) i(6,7) that have "(of_nat n :: 64 word) = of_nat (as_changes st a)" "n \<le> as_changes st a" by (auto simp: revokedLocked_def gensOf_def)
    moreover have "as_changes st a < 2 ^ 64" using assms(2) by blast
    ultimately show ?thesis by (simp add: of_nat_eq_iff_64)
  qed
  from inv have "int (length (ses_sessions (as_store st))) \<le> sc_Max (ses_cfg (as_store st))" by (simp add: sess_inv_def)
  moreover have "cookie \<notin> as_ended st" using inv r(1) by (auto simp: sess_inv_def)
  ultimately show ?thesis using i r same sess by (auto simp: expiredLocked_def split: if_splits)
qed

definition exPrincipal :: Principal where
  "exPrincipal = \<lparr>pn_ID = ''ops'', pn_Class = ''token'', pn_Role = ''viewer'', pn_Scopes = [''mitm.read''], pn_verifier = Some 0, pn_generation = 0\<rparr>"

definition exSessStart :: auth_state where
  "exSessStart = \<lparr>as_store = newSessStore DefaultSessionConfig, as_changes = (\<lambda>_. 0), as_issued = (\<lambda>_. None), as_ended = {}\<rparr>"

definition exSessState :: auth_state where
  "exSessState = exSessStart\<lparr>
     as_store := fst (sessCreate (gensOf exSessStart) 1 (Some ''c'') (Some ''x'') (Some ''i'') [] exPrincipal (as_store exSessStart)),
     as_issued := [''c'' \<mapsto> (exPrincipal, 0, 1)]\<rparr>"

theorem sessions_are_live_witness:
  "\<exists>s' sess. sessLookup (gensOf exSessState) 5 ''c'' (as_store exSessState) = (s', Some (sess, ''x'')) \<and> se_TokenID sess = ''ops''
    \<and> se_Scopes sess = [''mitm.read''] \<and> length (ses_sessions (as_store exSessState)) \<le> 64"
proof -
  let ?st = exSessStart
  have reach0: "auth_reach ?st" unfolding exSessStart_def by (rule auth_reach.start)
  obtain s1 res where c: "sessCreate (gensOf ?st) 1 (Some ''c'') (Some ''x'') (Some ''i'') [] exPrincipal (as_store ?st) = (s1, Inr res)"
    by (simp add: sessCreate_def exPrincipal_def exSessStart_def gensOf_def Let_def)
  have "auth_reach (?st\<lparr>as_store := s1, as_issued := (case (Inr res :: auth_error + string \<times> string \<times> Session) of Inl _ \<Rightarrow> as_issued ?st | Inr _ \<Rightarrow> (as_issued ?st)(''c'' \<mapsto> (exPrincipal, changeOf ?st exPrincipal, 1)))\<rparr>)"
    by (rule auth_reach.create[OF reach0 _ _ _ c]) (simp_all add: exSessStart_def newSessStore_def expireLocked_def)
  then have reach: "auth_reach exSessState"
    using c by (simp add: exSessState_def exSessStart_def changeOf_def exPrincipal_def)
  obtain s' sess where l: "sessLookup (gensOf exSessState) 5 ''c'' (as_store exSessState) = (s', Some (sess, ''x''))"
    by (simp add: sessLookup_def exSessState_def sessCreate_def exPrincipal_def exSessStart_def gensOf_def Let_def newSessStore_def
        DefaultSessionConfig_def expireLocked_def newSessRecord_def revokedLocked_def expiredLocked_def)
  have "sc_Max (ses_cfg (as_store exSessState)) = 64" "\<forall>a. as_changes exSessState a < 2 ^ 64" "as_issued exSessState ''c'' = Some (exPrincipal, 0, 1)"
    by (simp_all add: exSessState_def sessCreate_def exPrincipal_def exSessStart_def gensOf_def Let_def newSessStore_def DefaultSessionConfig_def expireLocked_def)
  with sessions_are_live[OF reach _ l] l show ?thesis by (auto simp: exPrincipal_def)
qed

end
