(* ===== verification/Http_Hop.thy ===== *)
theory Http_Hop
  imports Go_Net
begin

text \<open>
  Hop-by-hop headers (\<open>internal/httputilx/hop.go\<close>). A header map is an association list from
  canonical keys to their values, nil being empty.
\<close>

type_synonym headers = "(string, string list) gomap"

subsection \<open>Header maps (net/http)\<close>

definition tokenByte :: "char \<Rightarrow> bool" where
  "tokenByte c \<longleftrightarrow> isDigit c \<or> 65 \<le> code c \<and> code c \<le> 90 \<or> 97 \<le> code c \<and> code c \<le> 122
     \<or> code c \<in> {33, 35, 36, 37, 38, 39, 42, 43, 45, 46, 94, 95, 96, 124, 126}"

fun canonLoop :: "bool \<Rightarrow> string \<Rightarrow> string" where
  "canonLoop upper [] = []"
| "canonLoop upper (c # s) =
     (let d = (if upper \<and> 97 \<le> code c \<and> code c \<le> 122 then char_of (code c - 32)
               else if \<not> upper \<and> 65 \<le> code c \<and> code c \<le> 90 then char_of (code c + 32)
               else c)
      in d # canonLoop (d = CHR ''-'') s)"

definition CanonicalHeaderKey :: "string \<Rightarrow> string" where
  "CanonicalHeaderKey s = (if list_all tokenByte s then canonLoop True s else s)"

definition hdrValues :: "headers \<Rightarrow> string \<Rightarrow> string list" where
  "hdrValues h key = (case map_of h (CanonicalHeaderKey key) of None \<Rightarrow> [] | Some vs \<Rightarrow> vs)"

definition hdrDel :: "string \<Rightarrow> headers \<Rightarrow> headers" where
  "hdrDel key h = AList.delete (CanonicalHeaderKey key) h"

definition hdrSet :: "string \<Rightarrow> string \<Rightarrow> headers \<Rightarrow> headers" where
  "hdrSet key v h = AList.update (CanonicalHeaderKey key) [v] h"

subsection \<open>hop.go\<close>

definition hopByHop :: "string list" where
  "hopByHop = [''Connection'', ''Proxy-Connection'', ''Keep-Alive'', ''Te'', ''Trailer'', ''Transfer-Encoding'', ''Proxy-Authorization'', ''Upgrade'']"

definition headerHasToken :: "go_env \<Rightarrow> headers \<Rightarrow> string \<Rightarrow> string \<Rightarrow> bool" where
  "headerHasToken u h key want =
     list_ex (\<lambda>v. list_ex (\<lambda>tok. EqualFold u (TrimSpace u tok) (ToLower u want)) (SplitByte (CHR '','') v)) (hdrValues h key)"

definition IsWebSocketUpgrade :: "go_env \<Rightarrow> headers \<Rightarrow> bool" where
  "IsWebSocketUpgrade u h = (if \<not> headerHasToken u h ''Upgrade'' ''websocket'' then False else headerHasToken u h ''Connection'' ''Upgrade'')"

text \<open>Deleting what one value of Connection names.\<close>

definition stripTokens :: "go_env \<Rightarrow> string \<Rightarrow> headers \<Rightarrow> headers" where
  "stripTokens u v h =
     fold (\<lambda>tok h. let name = CanonicalHeaderKey (TrimSpace u tok) in if name \<noteq> '''' then hdrDel name h else h) (SplitByte (CHR '','') v) h"

definition StripHopByHop :: "go_env \<Rightarrow> headers \<Rightarrow> headers" where
  "StripHopByHop u h = fold hdrDel hopByHop (fold (stripTokens u) (hdrValues h ''Connection'') h)"

definition PrepareRequest :: "go_env \<Rightarrow> headers \<Rightarrow> headers" where
  "PrepareRequest u h =
     (let ws = IsWebSocketUpgrade u h; h1 = hdrDel ''Expect'' (StripHopByHop u h)
      in if ws then hdrSet ''Connection'' ''Upgrade'' (hdrSet ''Upgrade'' ''websocket'' h1) else h1)"

definition PrepareResponse :: "go_env \<Rightarrow> headers \<Rightarrow> bool \<Rightarrow> headers" where
  "PrepareResponse u h websocket =
     (let h1 = StripHopByHop u h
      in if websocket then hdrSet ''Connection'' ''Upgrade'' (hdrSet ''Upgrade'' ''websocket'' h1) else h1)"

definition CopyHeaders :: "headers \<Rightarrow> headers \<Rightarrow> headers" where
  "CopyHeaders dst src = fold (\<lambda>(k, vs) d. AList.update k vs d) src dst"

subsection \<open>What is stripped\<close>

lemma tokenByte_letter: "65 \<le> code c \<and> code c \<le> 90 \<or> 97 \<le> code c \<and> code c \<le> 122 \<Longrightarrow> tokenByte c"
  unfolding tokenByte_def by blast

lemma tokenByte_flip:
  "97 \<le> code c \<Longrightarrow> code c \<le> 122 \<Longrightarrow> tokenByte (char_of (code c - 32))"
  "65 \<le> code c \<Longrightarrow> code c \<le> 90 \<Longrightarrow> tokenByte (char_of (code c + 32))"
  by (rule tokenByte_letter, simp, linarith) (rule tokenByte_letter, simp)

lemma canonLoop_token: "list_all tokenByte s \<Longrightarrow> list_all tokenByte (canonLoop up s)"
  by (induction s arbitrary: up) (auto simp: Let_def tokenByte_flip)

lemma canonLoop_idem: "canonLoop up (canonLoop up s) = canonLoop up s"
proof (induction s arbitrary: up)
  case (Cons c s)
  then show ?case by (auto simp: Let_def)
qed simp

lemma CanonicalHeaderKey_idem [simp]: "CanonicalHeaderKey (CanonicalHeaderKey s) = CanonicalHeaderKey s"
  by (simp add: CanonicalHeaderKey_def canonLoop_token canonLoop_idem)

lemma canonical_words:
  "map CanonicalHeaderKey hopByHop = hopByHop" "CanonicalHeaderKey ''Expect'' = ''Expect''"
  "CanonicalHeaderKey ''Connection'' = ''Connection''" "CanonicalHeaderKey ''Upgrade'' = ''Upgrade''"
  by code_simp+

text \<open>The keys the Connection header names.\<close>

definition nominated :: "go_env \<Rightarrow> headers \<Rightarrow> string set" where
  "nominated u h = {CanonicalHeaderKey (TrimSpace u tok) | tok v. v \<in> set (hdrValues h ''Connection'') \<and> tok \<in> set (SplitByte (CHR '','') v)} - {''''}"

lemma map_of_hdrDels: "map_of (fold hdrDel ks h) k = (if k \<in> CanonicalHeaderKey ` set ks then None else map_of h k)"
  by (induction ks arbitrary: h) (auto simp: hdrDel_def)

lemma map_of_stripTokens:
  "map_of (stripTokens u v h) k = (if k \<in> (\<lambda>tok. CanonicalHeaderKey (TrimSpace u tok)) ` set (SplitByte (CHR '','') v) - {''''} then None else map_of h k)"
proof -
  have "map_of (fold (\<lambda>tok h. let name = CanonicalHeaderKey (TrimSpace u tok) in if name \<noteq> '''' then hdrDel name h else h) toks h) k
      = (if k \<in> (\<lambda>tok. CanonicalHeaderKey (TrimSpace u tok)) ` set toks - {''''} then None else map_of h k)" for toks
    by (induction toks arbitrary: h) (auto simp: hdrDel_def Let_def)
  then show ?thesis by (simp add: stripTokens_def)
qed

lemma map_of_stripValues:
  "map_of (fold (stripTokens u) vs h) k =
     (if k \<in> {CanonicalHeaderKey (TrimSpace u tok) | tok v. v \<in> set vs \<and> tok \<in> set (SplitByte (CHR '','') v)} - {''''} then None else map_of h k)"
  by (induction vs arbitrary: h) (auto simp: map_of_stripTokens)

lemma map_of_StripHopByHop:
  "map_of (StripHopByHop u h) k = (if k \<in> set hopByHop \<or> k \<in> nominated u h then None else map_of h k)"
proof -
  have "CanonicalHeaderKey ` set hopByHop = set hopByHop" using canonical_words(1) by (metis list.set_map)
  then show ?thesis unfolding StripHopByHop_def map_of_hdrDels map_of_stripValues nominated_def by (simp only: if_P if_not_P split: if_splits) blast
qed

text \<open>What goes upstream has no hop-by-hop header: after \<open>PrepareRequest\<close> every key has the values
  it had before, but the fixed hop-by-hop keys, Expect and whatever the Connection header names are
  gone; and exactly on a WebSocket upgrade Upgrade and Connection are there, with the one value each
  the upgrade needs.\<close>

theorem prepared_request_is_end_to_end:
  "map_of (PrepareRequest u h) k =
     (if IsWebSocketUpgrade u h \<and> k = ''Upgrade'' then Some [''websocket'']
      else if IsWebSocketUpgrade u h \<and> k = ''Connection'' then Some [''Upgrade'']
      else if k \<in> set hopByHop \<or> k = ''Expect'' \<or> k \<in> nominated u h then None
      else map_of h k)"
  by (simp add: PrepareRequest_def Let_def hdrSet_def hdrDel_def canonical_words map_of_StripHopByHop)

end
