(* ===== verification/Proxy_Guard.thy ===== *)
theory Proxy_Guard
  imports Go_IP Model_Spec
begin

text \<open>
  The target guard of the proxy (\<open>internal/proxy/guard.go\<close>): which addresses it may dial, and
  how authorities are split and written. The resolver is an argument, a failing lookup being
  \<open>None\<close>; of an error only its class is kept.
\<close>

datatype guard_error = errTargetDenied | errDNS

record resolved =
  rv_Host :: string
  rv_Port :: string
  rv_Selected :: "byte list"
  rv_All :: "byte list list"

definition metadataCIDRs :: "(ipaddr \<times> nat) list" where
  "metadataCIDRs = [(IPv4 [169, 254, 169, 254], 32), (IPv6 [0xfd, 0, 0x0e, 0xc2, 0, 0, 0, 0, 0, 0, 0, 0, 0, 0, 2, 0x54] '''', 128)]"

definition linkLocalCIDRs :: "(ipaddr \<times> nat) list" where
  "linkLocalCIDRs = [(IPv4 [169, 254, 0, 0], 16), (IPv6 (0xfe # 0x80 # replicate 14 0) '''', 10)]"

definition inPrefixes :: "ipaddr \<Rightarrow> (ipaddr \<times> nat) list \<Rightarrow> bool" where
  "inPrefixes a ps = list_ex (\<lambda>p. prefixContains p a) ps"

definition denyIP :: "TargetsSpec \<Rightarrow> byte list \<Rightarrow> bool" where
  "denyIP t ip =
     (case AddrFromSlice ip of None \<Rightarrow> True
      | Some a0 \<Rightarrow>
        let a = Unmap a0
        in if tg_DenyCloudMetadata t \<and> inPrefixes a metadataCIDRs then True
           else if tg_DenyLinkLocal t \<and> inPrefixes a linkLocalCIDRs then True
           else addrIsLoopback a \<and> \<not> tg_AllowLoopback t)"

definition pickAddr :: "byte list list \<Rightarrow> byte list" where
  "pickAddr addrs = (case find (\<lambda>a. a \<noteq> [] \<and> To4 a = None) addrs of Some a \<Rightarrow> a | None \<Rightarrow> hd addrs)"

definition guardMatchHost :: "go_env \<Rightarrow> string \<Rightarrow> string \<Rightarrow> bool" where
  "guardMatchHost u pattern host =
     (let p = ToLower u (TrimSpace u pattern); h = ToLower u (TrimSpace u host)
      in if p = [] \<or> h = [] then False
         else if HasPrefix p ''*.'' then let suf = drop 1 p in HasSuffix h suf \<and> h \<noteq> drop 1 suf
         else p = h)"

definition matchHostList :: "go_env \<Rightarrow> string list \<Rightarrow> string \<Rightarrow> bool" where
  "matchHostList u patterns host = list_ex (\<lambda>p. guardMatchHost u p host) patterns"

text \<open>The loop over the addresses stops at the first one denied.\<close>

definition guardAddrs :: "TargetsSpec \<Rightarrow> string \<Rightarrow> string \<Rightarrow> byte list list \<Rightarrow> guard_error + resolved" where
  "guardAddrs t host port addrs =
     (if list_ex (denyIP t) addrs then Inl errTargetDenied
      else if addrs = [] then Inl errTargetDenied
      else Inr \<lparr>rv_Host = host, rv_Port = port, rv_Selected = pickAddr addrs, rv_All = addrs\<rparr>)"

definition resolveThenGuard ::
    "go_env \<Rightarrow> (string \<Rightarrow> byte list list option) \<Rightarrow> TargetsSpec \<Rightarrow> string \<Rightarrow> string \<Rightarrow> guard_error + resolved" where
  "resolveThenGuard u lookupIP t host0 port0 =
     (let host = TrimSpace u host0; port = TrimSpace u port0
      in if host = [] \<or> port = [] then Inl errTargetDenied
         else case ParseIP host of Some ip \<Rightarrow> guardAddrs t host port [ip]
         | None \<Rightarrow>
           if matchHostList u (elems (tg_DenyHosts t)) host then Inl errTargetDenied
           else if elems (tg_AllowHosts t) \<noteq> [] \<and> \<not> matchHostList u (elems (tg_AllowHosts t)) host then Inl errTargetDenied
           else case lookupIP host of None \<Rightarrow> Inl errDNS
           | Some looked \<Rightarrow> if looked = [] then Inl errDNS else guardAddrs t host port looked)"

subsection \<open>Authorities\<close>

definition unbracketIP :: "string \<Rightarrow> string option" where
  "unbracketIP s =
     (if length s < 2 \<or> hd s \<noteq> CHR ''['' \<or> last s \<noteq> CHR '']'' then None
      else let inner = butlast (tl s) in if ParseIP inner = None then None else Some inner)"

definition splitAuthority :: "go_env \<Rightarrow> string \<Rightarrow> string \<Rightarrow> (string \<times> string) option" where
  "splitAuthority u authority0 defaultPort =
     (let authority = TrimSpace u authority0
      in if authority = [] then None
         else case SplitHostPort authority of Some hp \<Rightarrow> Some hp
         | None \<Rightarrow>
           (case unbracketIP authority of
              Some inner \<Rightarrow> if defaultPort = [] then None else Some (inner, defaultPort)
            | None \<Rightarrow>
              if ParseIP authority \<noteq> None then (if defaultPort = [] then None else Some (authority, defaultPort))
              else if CHR '':'' \<in> set authority then None
              else if defaultPort = [] then None
              else Some (authority, defaultPort)))"

definition originHost :: "string \<Rightarrow> string \<Rightarrow> string" where
  "originHost host port =
     (if port \<noteq> [] \<and> port \<noteq> ''80'' then JoinHostPort host port
      else if (\<exists>ip. ParseIP host = Some ip \<and> To4 ip = None) then ''['' @ host @ '']''
      else host)"

lemma originHost_code [code]:
  "originHost host port =
     (if port \<noteq> [] \<and> port \<noteq> ''80'' then JoinHostPort host port
      else case ParseIP host of Some ip \<Rightarrow> if To4 ip = None then ''['' @ host @ '']'' else host | None \<Rightarrow> host)"
  by (auto simp: originHost_def split: option.splits)

subsection \<open>What the guard denies\<close>

text \<open>The IPv4 address an address stands for, plain or mapped into IPv6.\<close>

definition v4of :: "byte list \<Rightarrow> byte list option" where
  "v4of ip = (if length ip = 4 then Some ip else if take 12 ip = v4InV6 then Some (drop 12 ip) else None)"

definition forbidden :: "TargetsSpec \<Rightarrow> byte list \<Rightarrow> bool" where
  "forbidden t ip \<longleftrightarrow>
     (case v4of ip of
        Some b \<Rightarrow> tg_DenyCloudMetadata t \<and> b = [169, 254, 169, 254]
          \<or> tg_DenyLinkLocal t \<and> b ! 0 = 169 \<and> b ! 1 = 254
          \<or> \<not> tg_AllowLoopback t \<and> b ! 0 = 127
      | None \<Rightarrow> tg_DenyCloudMetadata t \<and> ip = [0xfd, 0, 0x0e, 0xc2, 0, 0, 0, 0, 0, 0, 0, 0, 0, 0, 2, 0x54]
          \<or> tg_DenyLinkLocal t \<and> ip ! 0 = 0xfe \<and> drop_bit 6 (ip ! 1) = 2
          \<or> \<not> tg_AllowLoopback t \<and> ip = replicate 15 0 @ [1])"

lemma samePrefix_all: "length xs = length ys \<Longrightarrow> samePrefix (8 * length xs) xs ys \<longleftrightarrow> xs = ys"
proof (induction xs ys rule: list_induct2)
  case (Cons x xs y ys)
  have "8 * length (x # xs) - 8 = 8 * length xs" by simp
  with Cons show ?case by (simp only: samePrefix.simps) auto
qed simp

lemma list4: "length b = 4 \<longleftrightarrow> (\<exists>w x y z. b = [w, x, y, z])"
  by (auto simp: numeral_eq_Suc length_Suc_conv)

lemma denies_v4:
  assumes "length b = 4"
  shows "inPrefixes (IPv4 b) metadataCIDRs \<longleftrightarrow> b = [169, 254, 169, 254]"
    and "inPrefixes (IPv4 b) linkLocalCIDRs \<longleftrightarrow> b ! 0 = 169 \<and> b ! 1 = 254"
    and "addrIsLoopback (IPv4 b) \<longleftrightarrow> b ! 0 = 127"
  using assms by (auto simp: list4 inPrefixes_def metadataCIDRs_def linkLocalCIDRs_def prefixContains_def addrIsLoopback_def)

lemma denies_v6:
  assumes "length b = 16" and "take 12 b \<noteq> v4InV6"
  shows "inPrefixes (IPv6 b '''') metadataCIDRs \<longleftrightarrow> b = [0xfd, 0, 0x0e, 0xc2, 0, 0, 0, 0, 0, 0, 0, 0, 0, 0, 2, 0x54]"
    and "inPrefixes (IPv6 b '''') linkLocalCIDRs \<longleftrightarrow> b ! 0 = 0xfe \<and> drop_bit 6 (b ! 1) = 2"
    and "addrIsLoopback (IPv6 b '''') \<longleftrightarrow> b = replicate 15 0 @ [1]"
proof -
  show "inPrefixes (IPv6 b '''') metadataCIDRs \<longleftrightarrow> b = [0xfd, 0, 0x0e, 0xc2, 0, 0, 0, 0, 0, 0, 0, 0, 0, 0, 2, 0x54]"
    using assms samePrefix_all[of "[0xfd, 0, 0x0e, 0xc2, 0, 0, 0, 0, 0, 0, 0, 0, 0, 0, 2, 0x54]" b]
    by (auto simp: inPrefixes_def metadataCIDRs_def prefixContains_def)
  from assms(1) obtain x y r where b: "b = x # y # r" by (cases b; cases "tl b") auto
  show "inPrefixes (IPv6 b '''') linkLocalCIDRs \<longleftrightarrow> b ! 0 = 0xfe \<and> drop_bit 6 (b ! 1) = 2"
    by (auto simp: b inPrefixes_def linkLocalCIDRs_def prefixContains_def)
  show "addrIsLoopback (IPv6 b '''') \<longleftrightarrow> b = replicate 15 0 @ [1]"
    using assms(2) by (simp add: addrIsLoopback_def)
qed

lemma denyIP_exact: "denyIP t ip \<longleftrightarrow> (length ip \<noteq> 4 \<and> length ip \<noteq> 16) \<or> forbidden t ip"
proof -
  consider "length ip = 4" | "length ip = 16" "take 12 ip = v4InV6" | "length ip = 16" "take 12 ip \<noteq> v4InV6"
    | "length ip \<noteq> 4" "length ip \<noteq> 16" by blast
  then show ?thesis
  proof cases
    case 1
    then show ?thesis by (auto simp: denyIP_def AddrFromSlice_def Unmap_def Let_def denies_v4 forbidden_def v4of_def)
  next
    case 2
    then have "length (drop 12 ip) = 4" by simp
    with 2 show ?thesis by (auto simp: denyIP_def AddrFromSlice_def Unmap_def Let_def denies_v4 forbidden_def v4of_def)
  next
    case 3
    then show ?thesis by (auto simp: denyIP_def AddrFromSlice_def Unmap_def Let_def denies_v6 forbidden_def v4of_def)
  next
    case 4
    then show ?thesis by (simp add: denyIP_def AddrFromSlice_def)
  qed
qed

lemma pickAddr_in: "addrs \<noteq> [] \<Longrightarrow> pickAddr addrs \<in> set addrs"
  by (auto simp: pickAddr_def find_Some_iff split: option.splits)


text \<open>(C19) The guard accepts a target exactly when host and port are not blank and every address it stands
  for is a well-formed address that is not forbidden: for a literal that address, for a name every
  address the resolver gave, the name having passed the deny list and the allow list. It then pins one
  of exactly these addresses. Forbidden are, as the switches say, the metadata addresses, the
  link-local ranges and loopback, each also in its form mapped into IPv6.\<close>

theorem guard_accepts_exactly:
  "resolveThenGuard u lookupIP t host port = Inr r \<longleftrightarrow>
     (\<exists>addrs. TrimSpace u host \<noteq> [] \<and> TrimSpace u port \<noteq> [] \<and> addrs \<noteq> []
        \<and> (case ParseIP (TrimSpace u host) of
             Some ip \<Rightarrow> addrs = [ip]
           | None \<Rightarrow> \<not> matchHostList u (elems (tg_DenyHosts t)) (TrimSpace u host)
               \<and> (elems (tg_AllowHosts t) = [] \<or> matchHostList u (elems (tg_AllowHosts t)) (TrimSpace u host))
               \<and> lookupIP (TrimSpace u host) = Some addrs)
        \<and> list_all (\<lambda>ip. (length ip = 4 \<or> length ip = 16) \<and> \<not> forbidden t ip) addrs
        \<and> pickAddr addrs \<in> set addrs
        \<and> r = \<lparr>rv_Host = TrimSpace u host, rv_Port = TrimSpace u port, rv_Selected = pickAddr addrs, rv_All = addrs\<rparr>)"
proof -
  have g: "guardAddrs t h p addrs = Inr r \<longleftrightarrow> addrs \<noteq> [] \<and> list_all (\<lambda>ip. (length ip = 4 \<or> length ip = 16) \<and> \<not> forbidden t ip) addrs
      \<and> pickAddr addrs \<in> set addrs \<and> r = \<lparr>rv_Host = h, rv_Port = p, rv_Selected = pickAddr addrs, rv_All = addrs\<rparr>" for h p addrs
    using pickAddr_in[of addrs] by (auto simp: guardAddrs_def denyIP_exact list_ex_iff list_all_iff)
  show ?thesis by (cases "ParseIP (TrimSpace u host)"; cases "lookupIP (TrimSpace u host)") (auto simp: resolveThenGuard_def Let_def g)
qed

lemma guard_accepted:
  assumes "resolveThenGuard u lookupIP t host port = Inr r"
  shows "rv_Selected r \<in> set (rv_All r)" and "a \<in> set (rv_All r) \<Longrightarrow> (length a = 4 \<or> length a = 16) \<and> \<not> forbidden t a"
proof -
  have g: "guardAddrs t h p addrs = Inr r \<Longrightarrow> rv_Selected r \<in> set (rv_All r)
      \<and> (\<forall>a \<in> set (rv_All r). (length a = 4 \<or> length a = 16) \<and> \<not> forbidden t a)" for h p addrs
    using pickAddr_in[of addrs] by (auto simp: guardAddrs_def denyIP_exact list_ex_iff split: if_splits)
  from assms have "rv_Selected r \<in> set (rv_All r) \<and> (\<forall>a \<in> set (rv_All r). (length a = 4 \<or> length a = 16) \<and> \<not> forbidden t a)"
    by (auto simp: resolveThenGuard_def Let_def split: option.splits if_splits dest: g)
  then show "rv_Selected r \<in> set (rv_All r)" and "a \<in> set (rv_All r) \<Longrightarrow> (length a = 4 \<or> length a = 16) \<and> \<not> forbidden t a" by auto
qed

subsection \<open>The Host header names the target\<close>

lemma SplitHostPort_join:
  assumes "CHR ''['' \<notin> set h" "CHR '']'' \<notin> set h" "h \<noteq> []" "CHR '':'' \<notin> set p" "CHR ''['' \<notin> set p" "CHR '']'' \<notin> set p" "p \<noteq> []"
  shows "SplitHostPort (JoinHostPort h p) = Some (h, p)"
proof (cases "CHR '':'' \<in> set h")
  case True
  let ?hp = "CHR ''['' # h @ CHR '']'' # CHR '':'' # p"
  have "LastIndexByte ?hp (CHR '':'') = Some (length h + 2)"
    using LastIndexByte_split[OF assms(4), of "CHR ''['' # h @ [CHR '']'']"] by simp
  moreover have "IndexByte ?hp (CHR '']'') = Some (length h + 1)"
    using IndexByte_split[of "CHR '']''" "CHR ''['' # h" "CHR '':'' # p"] assms(2) by simp
  moreover have "IndexByte (h @ CHR '']'' # CHR '':'' # p) (CHR ''['') = None" "IndexByte (CHR '':'' # p) (CHR '']'') = None"
    using assms by (auto simp: IndexByte_def indexWhere_None)
  moreover have "length ?hp = length h + length p + 3" by simp
  moreover have "JoinHostPort h p = ?hp" using True by (simp add: JoinHostPort_def)
  ultimately show ?thesis using assms(7) by (simp add: SplitHostPort_def Let_def)
next
  case False
  have "LastIndexByte (h @ CHR '':'' # p) (CHR '':'') = Some (length h)" by (rule LastIndexByte_split[OF assms(4)])
  moreover have "hd (h @ CHR '':'' # p) \<noteq> CHR ''[''" using assms(1,3) by (cases h) auto
  moreover have "IndexByte h (CHR '':'') = None" "IndexByte (h @ CHR '':'' # p) (CHR ''['') = None" "IndexByte (h @ CHR '':'' # p) (CHR '']'') = None"
    using assms False by (auto simp: IndexByte_def indexWhere_None)
  ultimately show ?thesis using False by (simp add: SplitHostPort_def JoinHostPort_def Let_def)
qed

lemma SplitHostPort_no_colon: "CHR '':'' \<notin> set s \<Longrightarrow> SplitHostPort s = None"
proof -
  assume "CHR '':'' \<notin> set s"
  then have "indexWhere (\<lambda>x. x = CHR '':'') (rev s) = None" by (auto simp: indexWhere_None)
  then show ?thesis by (simp add: SplitHostPort_def LastIndexByte_def)
qed

lemma SplitHostPort_bracketed:
  assumes "CHR '']'' \<notin> set h"
  shows "SplitHostPort (''['' @ h @ '']'') = None"
proof -
  have "IndexByte (CHR ''['' # h @ [CHR '']'']) (CHR '']'') = Some (length h + 1)"
    using IndexByte_split[of "CHR '']''" "CHR ''['' # h" "[]"] assms by simp
  then show ?thesis by (simp add: SplitHostPort_def Let_def split: option.splits)
qed

lemma ParseIP_no_colon: "CHR '':'' \<notin> set s \<Longrightarrow> ParseIP s = Some ip \<Longrightarrow> To4 ip \<noteq> None"
proof -
  assume nc: "CHR '':'' \<notin> set s" and ip: "ParseIP s = Some ip"
  then have "find (\<lambda>c. c \<in> {CHR ''.'', CHR '':'', CHR ''%''}) s \<noteq> Some (CHR '':'')" by (auto simp: find_Some_iff)
  with ip obtain b where "v4Fields [] 0 0 s = Some b" "ip = v4InV6 @ b"
    by (auto simp: ParseIP_def ParseAddr_def split: option.splits if_splits)
  then show ?thesis using v4Fields_length[of "[]" 0 0 s b] by (simp add: To4_def v4InV6_def)
qed

definition plainName :: "string \<Rightarrow> bool" where
  "plainName s \<longleftrightarrow> s \<noteq> [] \<and> list_all (\<lambda>c. \<not> runeSelf c \<and> \<not> asciiSpace c \<and> c \<noteq> CHR ''['' \<and> c \<noteq> CHR '']'') s"

lemma TrimSpace_plain: "list_all (\<lambda>c. \<not> runeSelf c \<and> \<not> asciiSpace c) s \<Longrightarrow> TrimSpace u s = s"
  by (rule TrimSpace_id) (auto simp: isASCII_def list_all_iff)

text \<open>The Host header the proxy writes for an origin names exactly the target the guard checked: split
  again, with the default port 80, it gives the host and the port it was written from. The host is a
  name, an IPv4 literal, or an IPv6 literal that is not a mapped IPv4 address; the port is not empty
  and has no colon.\<close>

theorem origin_host_names_target:
  assumes "plainName host" and "plainName port" and "CHR '':'' \<notin> set port"
    and "CHR '':'' \<in> set host \<longrightarrow> (\<exists>ip. ParseIP host = Some ip \<and> To4 ip = None)"
  shows "splitAuthority u (originHost host port) ''80'' = Some (host, port)"
proof -
  have br: "CHR ''['' \<notin> set host" "CHR '']'' \<notin> set host" "CHR ''['' \<notin> set port" "CHR '']'' \<notin> set port" "host \<noteq> []" "port \<noteq> []"
    using assms(1,2) by (auto simp: plainName_def list_all_iff)
  have ok: "list_all (\<lambda>c. \<not> runeSelf c \<and> \<not> asciiSpace c) (''[]:'' @ host @ port)"
    using assms(1,2) by (auto simp: plainName_def list_all_iff runeSelf_def asciiSpace_def code_def)
  have t: "TrimSpace u (originHost host port) = originHost host port"
    by (rule TrimSpace_plain) (use ok in \<open>auto simp: originHost_def JoinHostPort_def list_all_iff\<close>)
  show ?thesis
  proof (cases "port = ''80''")
    case False
    then have "originHost host port = JoinHostPort host port" using br by (simp add: originHost_def)
    with t SplitHostPort_join[OF br(1,2,5) assms(3) br(3,4,6)] show ?thesis
      by (auto simp: splitAuthority_def Let_def JoinHostPort_def)
  next
    case True
    show ?thesis
    proof (cases "CHR '':'' \<in> set host")
      case colon: True
      with assms(4) obtain ip where ip: "ParseIP host = Some ip" "To4 ip = None" by blast
      then have "originHost host port = ''['' @ host @ '']''" using True by (simp add: originHost_def)
      moreover have "unbracketIP (''['' @ host @ '']'') = Some host" using ip(1) by (simp add: unbracketIP_def)
      ultimately show ?thesis using t SplitHostPort_bracketed[OF br(2)] True by (simp add: splitAuthority_def Let_def)
    next
      case no: False
      then have o: "originHost host port = host" using ParseIP_no_colon True by (auto simp: originHost_def)
      moreover have "unbracketIP host = None" using br(1,5) by (cases host) (auto simp: unbracketIP_def)
      ultimately show ?thesis using t SplitHostPort_no_colon[OF no] no br True by (simp add: splitAuthority_def Let_def)
    qed
  qed
qed

theorem origin_host_names_target_witness:
  "originHost ''::1'' ''80'' = ''[::1]'' \<and> splitAuthority ascii_env (originHost ''::1'' ''80'') ''80'' = Some (''::1'', ''80'')"
proof -
  have "plainName ''::1''" "plainName ''80''" "case ParseIP ''::1'' of Some ip \<Rightarrow> To4 ip = None | None \<Rightarrow> False"
    "originHost ''::1'' ''80'' = ''[::1]''" by code_simp+
  moreover from this(3) have "\<exists>ip. ParseIP ''::1'' = Some ip \<and> To4 ip = None" by (auto split: option.splits)
  ultimately show ?thesis using origin_host_names_target[of "''::1''" "''80''" ascii_env] by simp
qed

end
