(* ===== verification/Proxy_Admit.thy ===== *)
theory Proxy_Admit
  imports Go_IP Model_Spec "HOL-Library.Multiset"
begin

text \<open>
  The admission gate of the proxy (\<open>internal/proxy/admit.go\<close>): counters of open sessions, in all
  and per client address. Each operation runs under the gate's mutex.
\<close>

record gate =
  g_sessions :: int
  g_perIP :: "(ipaddr, int) gomap"
  g_inflight :: int

datatype admit_error = errTooManySessions

definition newGate :: gate where
  "newGate = \<lparr>g_sessions = 0, g_perIP = [], g_inflight = 0\<rparr>"

text \<open>An address that is not valid is \<open>None\<close>; a missing entry of the map reads as zero.\<close>

definition perIP :: "gate \<Rightarrow> ipaddr \<Rightarrow> int" where
  "perIP g ip = (case map_of (g_perIP g) ip of None \<Rightarrow> 0 | Some n \<Rightarrow> n)"

definition acquire :: "ipaddr option \<Rightarrow> AdmissionSpec \<Rightarrow> gate \<Rightarrow> gate \<times> admit_error option" where
  "acquire ip ad g =
     (if ad_MaxSessions ad > 0 \<and> g_sessions g \<ge> ad_MaxSessions ad then (g, Some errTooManySessions)
      else if ip \<noteq> None \<and> ad_MaxSessionsPerIP ad > 0 \<and> perIP g (the ip) \<ge> ad_MaxSessionsPerIP ad then (g, Some errTooManySessions)
      else if ad_MaxInFlight ad > 0 \<and> g_inflight g \<ge> ad_MaxInFlight ad then (g, Some errTooManySessions)
      else (let g1 = g\<lparr>g_sessions := g_sessions g + 1, g_inflight := g_inflight g + 1\<rparr>
            in case ip of None \<Rightarrow> g1 | Some a \<Rightarrow> g1\<lparr>g_perIP := AList.update a (perIP g a + 1) (g_perIP g)\<rparr>, None))"

definition inUse :: "gate option \<Rightarrow> int" where
  "inUse go = (case go of None \<Rightarrow> 0 | Some g \<Rightarrow> g_sessions g)"

definition release :: "ipaddr option \<Rightarrow> gate \<Rightarrow> gate" where
  "release ip g =
     (let g1 = g\<lparr>g_sessions := (if g_sessions g > 0 then g_sessions g - 1 else g_sessions g),
                 g_inflight := (if g_inflight g > 0 then g_inflight g - 1 else g_inflight g)\<rparr>
      in case ip of None \<Rightarrow> g1
         | Some a \<Rightarrow> let n = perIP g a - 1
                     in g1\<lparr>g_perIP := (if n \<le> 0 then AList.delete a (g_perIP g) else AList.update a n (g_perIP g))\<rparr>)"

definition clientIP :: "string \<Rightarrow> ipaddr option" where
  "clientIP remote = ParseAddr (case SplitHostPort remote of Some (h, _) \<Rightarrow> h | None \<Rightarrow> remote)"

text \<open>The gate and the sessions that are open, by address. Each session that was admitted is released
  once; the limits may be different at every call.\<close>

inductive gate_reach :: "gate \<Rightarrow> ipaddr option multiset \<Rightarrow> bool" where
  start: "gate_reach newGate {#}"
| admitted: "gate_reach g M \<Longrightarrow> acquire ip ad g = (g', None) \<Longrightarrow> gate_reach g' (add_mset ip M)"
| refused: "gate_reach g M \<Longrightarrow> acquire ip ad g = (g', Some e) \<Longrightarrow> gate_reach g' M"
| released: "gate_reach g M \<Longrightarrow> ip \<in># M \<Longrightarrow> gate_reach (release ip g) (M - {#ip#})"

definition gateCounts :: "gate \<Rightarrow> ipaddr option multiset \<Rightarrow> bool" where
  "gateCounts g M \<longleftrightarrow> g_sessions g = int (size M) \<and> g_inflight g = int (size M)
     \<and> (\<forall>a. map_of (g_perIP g) a = (if Some a \<in># M then Some (int (count M (Some a))) else None))"

lemma gateCounts_perIP: "gateCounts g M \<Longrightarrow> perIP g a = int (count M (Some a))"
  by (simp add: gateCounts_def perIP_def not_in_iff)

lemma gateCounts_acquire:
  assumes "gateCounts g M" and "acquire ip ad g = (g', None)"
  shows "gateCounts g' (add_mset ip M)"
proof -
  let ?g = "g\<lparr>g_sessions := g_sessions g + 1, g_inflight := g_inflight g + 1\<rparr>"
  have g': "g' = (case ip of None \<Rightarrow> ?g | Some a \<Rightarrow> ?g\<lparr>g_perIP := AList.update a (perIP g a + 1) (g_perIP g)\<rparr>)"
    using assms(2) by (auto simp: acquire_def Let_def split: if_splits)
  from assms(1) show ?thesis unfolding g'
    by (cases ip) (simp_all add: gateCounts_perIP[OF assms(1)] gateCounts_def update_conv')
qed

lemma gateCounts_release:
  assumes "gateCounts g M" and "ip \<in># M"
  shows "gateCounts (release ip g) (M - {#ip#})"
proof -
  have n: "0 < size M" "int (size (M - {#ip#})) = int (size M) - 1"
    using multi_member_split[OF assms(2)] by auto
  show ?thesis
  proof (cases ip)
    case None
    with assms n show ?thesis by (auto simp: release_def gateCounts_def Let_def in_diff_count)
  next
    case (Some a)
    have c: "0 < count M (Some a)" using assms(2) Some by simp
    have m: "map_of (g_perIP (release ip g)) b = (if Some b \<in># M - {#ip#} then Some (int (count (M - {#ip#}) (Some b))) else None)" for b
    proof (cases "count M (Some a) = 1")
      case True
      then show ?thesis using assms Some gateCounts_perIP[OF assms(1), of a]
        by (auto simp: release_def gateCounts_def Let_def delete_conv' in_diff_count)
    next
      case False
      with c have "count M (Some a) \<ge> 2" by linarith
      then show ?thesis using assms Some gateCounts_perIP[OF assms(1), of a]
        by (auto simp: release_def gateCounts_def Let_def update_conv' in_diff_count of_nat_diff)
    qed
    with n assms Some show ?thesis by (auto simp: gateCounts_def release_def Let_def)
  qed
qed

lemma gate_reach_counts: "gate_reach g M \<Longrightarrow> gateCounts g M"
proof (induction rule: gate_reach.induct)
  case (refused g M ip ad g' e)
  then show ?case by (auto simp: acquire_def split: if_splits)
qed (auto simp: gateCounts_acquire gateCounts_release, simp add: gateCounts_def newGate_def)

text \<open>(C27) The admission gate counts exactly: after any sequence of admissions, refusals and releases under
  any limits, its counters are the number of open sessions, in all and per address, with no entry left
  for an address that has none; and a session is admitted exactly when each limit that is set exceeds
  the number of open sessions it bounds.\<close>

theorem admission_is_exact:
  assumes "gate_reach g M"
  shows "inUse (Some g) = int (size M) \<and> (\<forall>a. map_of (g_perIP g) a = (if Some a \<in># M then Some (int (count M (Some a))) else None))
    \<and> (snd (acquire ip ad g) = None \<longleftrightarrow>
         (ad_MaxSessions ad \<le> 0 \<or> int (size M) < ad_MaxSessions ad) \<and> (ad_MaxInFlight ad \<le> 0 \<or> int (size M) < ad_MaxInFlight ad)
         \<and> (ip = None \<or> ad_MaxSessionsPerIP ad \<le> 0 \<or> int (count M ip) < ad_MaxSessionsPerIP ad))"
proof -
  note c = gate_reach_counts[OF assms]
  have "snd (acquire ip ad g) = None \<longleftrightarrow>
         (ad_MaxSessions ad \<le> 0 \<or> int (size M) < ad_MaxSessions ad) \<and> (ad_MaxInFlight ad \<le> 0 \<or> int (size M) < ad_MaxInFlight ad)
         \<and> (ip = None \<or> ad_MaxSessionsPerIP ad \<le> 0 \<or> int (count M ip) < ad_MaxSessionsPerIP ad)"
    using c gateCounts_perIP[OF c] by (cases ip) (auto simp: acquire_def gateCounts_def)
  with c show ?thesis by (auto simp: inUse_def gateCounts_def)
qed

definition exLimits :: AdmissionSpec where
  "exLimits = \<lparr>ad_MaxSessions = 8, ad_MaxSessionsPerIP = 1, ad_MaxInFlight = 8, ad_MaxInFlightBytes = 1, ad_SessionTimeout = 1,
     ad_IdleTimeout = 1, ad_HeaderTimeout = 1, ad_DialTimeout = 1, ad_UpstreamTimeout = 1, ad_MaxConcurrentStreams = 1\<rparr>"

theorem admission_is_exact_witness:
  "snd (acquire (Some (IPv4 [10, 0, 0, 1])) exLimits (fst (acquire (Some (IPv4 [10, 0, 0, 1])) exLimits newGate))) = Some errTooManySessions"
proof -
  let ?ip = "Some (IPv4 [10, 0, 0, 1])"
  have "snd (acquire ?ip exLimits newGate) = None" by code_simp
  then have "gate_reach (fst (acquire ?ip exLimits newGate)) {#?ip#}"
    using gate_reach.admitted[OF gate_reach.start, of ?ip exLimits "fst (acquire ?ip exLimits newGate)"] by (metis prod.collapse)
  from admission_is_exact[OF this, of ?ip exLimits] have "snd (acquire ?ip exLimits (fst (acquire ?ip exLimits newGate))) \<noteq> None"
    by (simp add: exLimits_def)
  then show ?thesis by (metis (full_types) admit_error.exhaust not_None_eq)
qed

end
