(* ===== verification/Proxy_Hello.thy ===== *)
theory Proxy_Hello
  imports Go_Strings
begin

text \<open>
  The ClientHello the original-destination listener peeks at (\<open>internal/proxy/origdest_hello.go\<close>):
  the record, the handshake message, the server-name and ALPN extensions, and the connection that
  replays what was read. A connection is the bytes it will deliver before it fails.
\<close>

record clientHello =
  ch_ServerName :: string
  ch_ALPN :: "string list"

datatype hello_error = HelloRead | NotHandshake | RecordTooLarge | Truncated | NotClientHello

definition noHello :: clientHello where
  "noHello = \<lparr>ch_ServerName = '''', ch_ALPN = []\<rparr>"

definition uint16 :: "byte \<Rightarrow> byte \<Rightarrow> nat" where
  "uint16 h l = unat h * 256 + unat l"

text \<open>\<open>io.ReadFull\<close>: the bytes read and what is left.\<close>

definition ReadFull :: "nat \<Rightarrow> byte list \<Rightarrow> (byte list \<times> byte list) option" where
  "ReadFull n s = (if n \<le> length s then Some (take n s, drop n s) else None)"

subsection \<open>Extensions\<close>

fun sniLoop :: "byte list \<Rightarrow> string" where
  "sniLoop (t # h # l # b) =
     (let ln = uint16 h l
      in if ln > length b then ''''
         else if t = 0 then string_of (take ln b)
         else sniLoop (drop ln b))"
| "sniLoop _ = ''''"

definition parseSNI :: "byte list \<Rightarrow> string" where
  "parseSNI b =
     (case b of
        h # l # b1 \<Rightarrow> if uint16 h l > length b1 then '''' else sniLoop (take (uint16 h l) b1)
      | _ \<Rightarrow> '''')"

fun alpnLoop :: "byte list \<Rightarrow> string list" where
  "alpnLoop [] = []"
| "alpnLoop (l # b) = (if unat l > length b then [] else string_of (take (unat l) b) # alpnLoop (drop (unat l) b))"

definition parseALPN :: "byte list \<Rightarrow> string list" where
  "parseALPN b =
     (case b of
        h # l # b1 \<Rightarrow> if uint16 h l > length b1 then [] else alpnLoop (take (uint16 h l) b1)
      | _ \<Rightarrow> [])"

definition extension :: "nat \<Rightarrow> byte list \<Rightarrow> clientHello \<Rightarrow> clientHello" where
  "extension typ body hello =
     (if typ = 0 then hello\<lparr>ch_ServerName := parseSNI body\<rparr>
      else if typ = 16 then hello\<lparr>ch_ALPN := parseALPN body\<rparr>
      else hello)"

fun extLoop :: "clientHello \<Rightarrow> byte list \<Rightarrow> hello_error + clientHello" where
  "extLoop hello (t1 # t2 # h # l # b) =
     (let n = uint16 h l
      in if n > length b then Inl Truncated
         else extLoop (extension (uint16 t1 t2) (take n b) hello) (drop n b))"
| "extLoop hello _ = Inr hello"

subsection \<open>The message\<close>

text \<open>After the compression methods: no extensions at all, or their length and the extensions.\<close>

definition parseExtensions :: "byte list \<Rightarrow> hello_error + clientHello" where
  "parseExtensions b =
     (case b of [] \<Rightarrow> Inr noHello
      | h # l # b1 \<Rightarrow> if uint16 h l > length b1 then Inl Truncated else extLoop noHello (take (uint16 h l) b1)
      | _ \<Rightarrow> Inl Truncated)"

definition parseCompression :: "byte list \<Rightarrow> hello_error + clientHello" where
  "parseCompression b =
     (case b of [] \<Rightarrow> Inl Truncated
      | c # b1 \<Rightarrow> if unat c > length b1 then Inl Truncated else parseExtensions (drop (unat c) b1))"

definition parseCipherSuites :: "byte list \<Rightarrow> hello_error + clientHello" where
  "parseCipherSuites b =
     (case b of
        h # l # b1 \<Rightarrow> if uint16 h l > length b1 \<or> odd (uint16 h l) then Inl Truncated
                      else parseCompression (drop (uint16 h l) b1)
      | _ \<Rightarrow> Inl Truncated)"

definition parseSessionID :: "byte list \<Rightarrow> hello_error + clientHello" where
  "parseSessionID b =
     (case b of [] \<Rightarrow> Inl Truncated
      | s # b1 \<Rightarrow> if unat s > length b1 then Inl Truncated else parseCipherSuites (drop (unat s) b1))"

definition parseClientHelloHandshake :: "byte list \<Rightarrow> hello_error + clientHello" where
  "parseClientHelloHandshake b =
     (case b of
        t # l1 # l2 # l3 # b1 \<Rightarrow>
          let hsLen = unat l1 * 65536 + unat l2 * 256 + unat l3
          in if t \<noteq> 1 then Inl NotClientHello
             else if hsLen > length b1 then Inl Truncated
             else if hsLen < 34 then Inl Truncated
             else parseSessionID (drop 34 (take hsLen b1))
      | _ \<Rightarrow> Inl Truncated)"

text \<open>The result, what was consumed, and what is left on the connection.\<close>

definition parseClientHelloRecord :: "byte list \<Rightarrow> int \<Rightarrow> hello_error + clientHello \<times> byte list \<times> byte list" where
  "parseClientHelloRecord s maxLen =
     (case ReadFull 5 s of None \<Rightarrow> Inl HelloRead
      | Some (hdr, s1) \<Rightarrow>
        if hdr ! 0 \<noteq> 0x16 then Inl NotHandshake
        else let n = uint16 (hdr ! 3) (hdr ! 4)
        in if n = 0 \<or> int n > maxLen then Inl RecordTooLarge
           else case ReadFull n s1 of None \<Rightarrow> Inl HelloRead
           | Some (payload, s2) \<Rightarrow> map_sum id (\<lambda>hello. (hello, hdr @ payload, s2)) (parseClientHelloHandshake payload))"

text \<open>The hello and the bytes the returned connection delivers: the recorded ones, then the rest.\<close>

definition readClientHello :: "byte list \<Rightarrow> int \<Rightarrow> hello_error + clientHello \<times> byte list" where
  "readClientHello s max0 =
     map_sum id (\<lambda>(hello, consumed, rest). (hello, consumed @ rest))
       (parseClientHelloRecord s (if max0 \<le> 0 then 16384 else max0))"

subsection \<open>Writing a ClientHello\<close>

definition put16 :: "nat \<Rightarrow> byte list" where
  "put16 n = [of_nat (n div 256), of_nat n]"

definition putExt :: "nat \<times> byte list \<Rightarrow> byte list" where
  "putExt e = put16 (fst e) @ put16 (length (snd e)) @ snd e"

definition sniBody :: "string \<Rightarrow> byte list" where
  "sniBody name = put16 (length name + 3) @ 0 # put16 (length name) @ bytes_of name"

definition alpnEntries :: "string list \<Rightarrow> byte list" where
  "alpnEntries ps = concat (map (\<lambda>p. of_nat (length p) # bytes_of p) ps)"

definition alpnBody :: "string list \<Rightarrow> byte list" where
  "alpnBody ps = put16 (length (alpnEntries ps)) @ alpnEntries ps"

record helloParts =
  hp_version :: "byte list"
  hp_random :: "byte list"
  hp_session :: "byte list"
  hp_suites :: "byte list"
  hp_compression :: "byte list"
  hp_extensions :: "(nat \<times> byte list) list"

definition helloBody :: "helloParts \<Rightarrow> byte list" where
  "helloBody p = hp_version p @ hp_random p @ of_nat (length (hp_session p)) # hp_session p
     @ put16 (length (hp_suites p)) @ hp_suites p @ of_nat (length (hp_compression p)) # hp_compression p
     @ put16 (length (concat (map putExt (hp_extensions p)))) @ concat (map putExt (hp_extensions p))"

definition helloMessage :: "helloParts \<Rightarrow> byte list" where
  "helloMessage p = 1 # of_nat (length (helloBody p) div 65536) # put16 (length (helloBody p)) @ helloBody p"

definition helloRecord :: "helloParts \<Rightarrow> byte list" where
  "helloRecord p = [0x16, 3, 1] @ put16 (length (helloMessage p)) @ helloMessage p"

definition helloFits :: "helloParts \<Rightarrow> bool" where
  "helloFits p \<longleftrightarrow> length (hp_version p) = 2 \<and> length (hp_random p) = 32 \<and> length (hp_session p) < 256 \<and> length (hp_suites p) < 65536
     \<and> even (length (hp_suites p)) \<and> length (hp_compression p) < 256
     \<and> list_all (\<lambda>e. fst e < 65536 \<and> length (snd e) < 65536) (hp_extensions p) \<and> length (helloMessage p) \<le> 16384"

lemma put16_length [simp]: "length (put16 n) = 2"
  by (simp add: put16_def)

lemma uint16_put [simp]: "n < 65536 \<Longrightarrow> uint16 (of_nat (n div 256)) (of_nat n) = n"
  by (simp add: uint16_def unat_of_nat)

lemma put16_read: "n < 65536 \<Longrightarrow> \<exists>h l. put16 n = [h, l] \<and> uint16 h l = n"
  by (simp add: put16_def)

lemma sni_roundtrip: "length name < 65000 \<Longrightarrow> parseSNI (sniBody name) = name"
proof -
  assume n: "length name < 65000"
  then obtain h l where a: "put16 (length name + 3) = [h, l]" "uint16 h l = length name + 3" using put16_read[of "length name + 3"] by auto
  from n obtain h2 l2 where b: "put16 (length name) = [h2, l2]" "uint16 h2 l2 = length name" using put16_read[of "length name"] by auto
  show ?thesis by (simp add: parseSNI_def sniBody_def a b string_of_bytes_of)
qed

lemma alpnLoop_entries: "list_all (\<lambda>p. length p < 256) ps \<Longrightarrow> alpnLoop (alpnEntries ps) = ps"
  by (induction ps) (auto simp: alpnEntries_def unat_of_nat string_of_bytes_of)

lemma alpn_roundtrip: "list_all (\<lambda>p. length p < 256) ps \<Longrightarrow> length (alpnEntries ps) < 65536 \<Longrightarrow> parseALPN (alpnBody ps) = ps"
  by (simp add: parseALPN_def alpnBody_def put16_def alpnLoop_entries)

lemma extLoop_exts:
  "list_all (\<lambda>e. fst e < 65536 \<and> length (snd e) < 65536) es
     \<Longrightarrow> extLoop hello (concat (map putExt es)) = Inr (fold (\<lambda>e. extension (fst e) (snd e)) es hello)"
  by (induction es arbitrary: hello) (auto simp: putExt_def put16_def)

lemma parse_message:
  assumes fits: "helloFits p"
  shows "parseClientHelloHandshake (helloMessage p) = Inr (fold (\<lambda>e. extension (fst e) (snd e)) (hp_extensions p) noHello)"
proof -
  let ?es = "concat (map putExt (hp_extensions p))"
  have len: "length (helloBody p) < 16384" using fits by (simp add: helloFits_def helloMessage_def)
  then have es: "length ?es < 65536" by (simp add: helloBody_def)
  have "parseExtensions (put16 (length ?es) @ ?es) = Inr (fold (\<lambda>e. extension (fst e) (snd e)) (hp_extensions p) noHello)"
    using es fits by (simp add: parseExtensions_def put16_def extLoop_exts helloFits_def)
  then have "parseSessionID (drop 34 (helloBody p)) = Inr (fold (\<lambda>e. extension (fst e) (snd e)) (hp_extensions p) noHello)"
    using fits by (simp add: helloBody_def helloFits_def parseSessionID_def parseCipherSuites_def parseCompression_def put16_def unat_of_nat)
  moreover have "34 \<le> length (helloBody p)" using fits by (simp add: helloBody_def helloFits_def)
  moreover have "unat (of_nat (length (helloBody p) div 65536) :: byte) * 65536 + unat (of_nat (length (helloBody p) div 256) :: byte) * 256
      + unat (of_nat (length (helloBody p)) :: byte) = length (helloBody p)"
    using len uint16_put[of "length (helloBody p)"] by (simp add: uint16_def unat_of_nat)
  ultimately show ?thesis by (simp add: parseClientHelloHandshake_def helloMessage_def put16_def)
qed

subsection \<open>The round trip\<close>

text \<open>What a client may put in: server names, ALPN lists, and extensions of other types.\<close>

datatype helloExt = ExtSNI string | ExtALPN "string list" | ExtOther nat "byte list"

fun encodeExt :: "helloExt \<Rightarrow> nat \<times> byte list" where
  "encodeExt (ExtSNI name) = (0, sniBody name)"
| "encodeExt (ExtALPN protos) = (16, alpnBody protos)"
| "encodeExt (ExtOther t b) = (t, b)"

fun extOk :: "helloExt \<Rightarrow> bool" where
  "extOk (ExtSNI name) = (length name < 65000)"
| "extOk (ExtALPN protos) = (list_all (\<lambda>q. length q < 256) protos \<and> length (alpnEntries protos) < 65536)"
| "extOk (ExtOther t b) = (t \<noteq> 0 \<and> t \<noteq> 16)"

text \<open>The last server name and the last ALPN list count.\<close>

fun lastName :: "string \<Rightarrow> helloExt list \<Rightarrow> string" where
  "lastName name [] = name"
| "lastName name (ExtSNI n # xs) = lastName n xs"
| "lastName name (ExtALPN ps # xs) = lastName name xs"
| "lastName name (ExtOther t b # xs) = lastName name xs"

fun lastProtos :: "string list \<Rightarrow> helloExt list \<Rightarrow> string list" where
  "lastProtos ps [] = ps"
| "lastProtos ps (ExtSNI n # xs) = lastProtos ps xs"
| "lastProtos ps (ExtALPN qs # xs) = lastProtos qs xs"
| "lastProtos ps (ExtOther t b # xs) = lastProtos ps xs"

lemma fold_extensions:
  "list_all extOk xs \<Longrightarrow> fold (\<lambda>e. extension (fst e) (snd e)) (map encodeExt xs) \<lparr>ch_ServerName = n, ch_ALPN = ps\<rparr>
     = \<lparr>ch_ServerName = lastName n xs, ch_ALPN = lastProtos ps xs\<rparr>"
proof (induction xs arbitrary: n ps)
  case (Cons x xs)
  then show ?case by (cases x) (simp_all add: extension_def sni_roundtrip alpn_roundtrip)
qed simp

text \<open>(C28) The peek at a ClientHello is exact and loses nothing. Take a record with any version, random, session, cipher suites,
  compression methods and extensions, of at most 16384 bytes and no longer than the limit it is read with: the parser returns the
  last server name and the last ALPN list among its extensions (the empty ones if there is none), consumes exactly the
  record, whatever follows it, and the connection that is handed on delivers every byte of the original one.\<close>

theorem client_hello_roundtrip:
  assumes "helloFits p" and "hp_extensions p = map encodeExt xs" and "list_all extOk xs"
    and "0 < limit \<longrightarrow> int (length (helloMessage p)) \<le> limit"
  defines "hello \<equiv> \<lparr>ch_ServerName = lastName '''' xs, ch_ALPN = lastProtos [] xs\<rparr>"
  shows "parseClientHelloRecord (helloRecord p @ rest) (if limit \<le> 0 then 16384 else limit) = Inr (hello, helloRecord p, rest)
    \<and> readClientHello (helloRecord p @ rest) limit = Inr (hello, helloRecord p @ rest)"
proof -
  have m: "parseClientHelloHandshake (helloMessage p) = Inr hello"
    using parse_message[OF assms(1)] fold_extensions[OF assms(3)] by (simp add: assms(2) noHello_def hello_def)
  have l: "0 < length (helloMessage p)" "length (helloMessage p) \<le> 16384" using assms(1) by (simp_all add: helloFits_def helloMessage_def)
  have "ReadFull 5 (helloRecord p @ rest) = Some ([0x16, 3, 1] @ put16 (length (helloMessage p)), helloMessage p @ rest)"
    by (simp add: ReadFull_def helloRecord_def put16_def)
  moreover have "\<not> 16384 < int (length (helloMessage p))" "0 < limit \<Longrightarrow> \<not> limit < int (length (helloMessage p))" using l(2) assms(4) by linarith+
  ultimately have "parseClientHelloRecord (helloRecord p @ rest) (if limit \<le> 0 then 16384 else limit) = Inr (hello, helloRecord p, rest)"
    using l m by (cases "limit \<le> 0") (simp_all add: parseClientHelloRecord_def put16_def ReadFull_def helloRecord_def Let_def)
  then show ?thesis by (simp add: readClientHello_def)
qed

definition exHello :: "helloExt list \<Rightarrow> helloParts" where
  "exHello xs = \<lparr>hp_version = [3, 3], hp_random = replicate 32 7, hp_session = [], hp_suites = [0x13, 1], hp_compression = [0],
     hp_extensions = map encodeExt xs\<rparr>"

theorem client_hello_roundtrip_witness:
  "parseClientHelloRecord (helloRecord (exHello [ExtOther 43 [2, 3, 4], ExtALPN [''h2'', ''http/1.1''], ExtSNI ''lab.test'']) @ [1, 2]) 200
     = Inr (\<lparr>ch_ServerName = ''lab.test'', ch_ALPN = [''h2'', ''http/1.1'']\<rparr>,
         helloRecord (exHello [ExtOther 43 [2, 3, 4], ExtALPN [''h2'', ''http/1.1''], ExtSNI ''lab.test'']), [1, 2])"
proof -
  let ?xs = "[ExtOther 43 [2, 3, 4], ExtALPN [''h2'', ''http/1.1''], ExtSNI ''lab.test'']"
  have "helloFits (exHello ?xs)" "list_all extOk ?xs" "int (length (helloMessage (exHello ?xs))) \<le> 200"
    by (simp_all add: exHello_def helloFits_def helloMessage_def helloBody_def putExt_def put16_def sniBody_def alpnBody_def alpnEntries_def bytes_of_def)
  with client_hello_roundtrip[of "exHello ?xs" ?xs 200 "[1, 2]"] show ?thesis by (simp add: exHello_def)
qed

end
