(* ===== verification/Proxy_Socks.thy ===== *)
theory Proxy_Socks
  imports Proxy_Guard Proxy_Admit Proxy_Hello App_Compile
begin

text \<open>
  The SOCKS front end of the proxy (\<open>internal/proxy/socks.go\<close>, with the hairpin test of
  \<open>replay.go\<close>, the interception test of \<open>connect.go\<close> and the defaults of \<open>server.go\<close>).
  A client is the bytes it sends before its connection fails; what the server writes is collected, and
  whether a write succeeds is an argument, as are the resolver, the dialer and the addresses of the
  interfaces. BIND and UDP ASSOCIATE are parsed up to the hand-over to their own handlers.
\<close>

subsection \<open>Destinations\<close>

record socksDest =
  sd_host :: string
  sd_port :: string
  sd_atyp :: string
  sd_bndATYP :: byte
  sd_via :: string
  sd_ver :: int
  sd_user :: string

datatype socks_command = CmdConnect | CmdBind | CmdUDP

datatype socks_result =
    SocksClosed
  | SocksRequest socks_command socksDest "byte list"

record proxyUsers =
  pu_users :: "SOCKSUserDigest list"
  pu_sha :: "byte list \<Rightarrow> byte list"
  pu_write :: "byte list \<Rightarrow> bool"

definition socks5OffersMethod :: "byte list \<Rightarrow> byte \<Rightarrow> bool" where
  "socks5OffersMethod methods m = list_ex (\<lambda>x. x = m) methods"

definition matchSOCKSUsers :: "SOCKSUserDigest list \<Rightarrow> byte list \<Rightarrow> string option" where
  "matchSOCKSUsers users digest =
     (case constScan digest 0 0 0 (map su_Digest users) of (idx, found) \<Rightarrow>
        if found \<noteq> 1 then None else Some (su_ID (users ! nat idx)))"

definition writeSOCKS5Reply :: "byte \<Rightarrow> byte \<Rightarrow> byte list" where
  "writeSOCKS5Reply rep atyp =
     (if atyp = 4 then [5, rep, 0, 4] @ replicate 18 0 else [5, rep, 0, 1, 0, 0, 0, 0, 0, 0])"

definition writeSOCKS4Reply :: "byte \<Rightarrow> byte list" where
  "writeSOCKS4Reply cd = [0, cd, 0, 0, 0, 0, 0, 0]"

text \<open>The result of an address: host, port, type name, type of the reply, and the rest; or whether the
  type is to be refused with a reply.\<close>

definition readPort :: "string \<Rightarrow> string \<Rightarrow> byte \<Rightarrow> byte list \<Rightarrow> bool + (string \<times> string \<times> string \<times> byte \<times> byte list)" where
  "readPort host name bnd b =
     (case b of h # l # rest \<Rightarrow> Inr (host, formatNat (uint16 h l), name, bnd, rest) | _ \<Rightarrow> Inl False)"

definition readSOCKS5Addr :: "byte \<Rightarrow> byte list \<Rightarrow> bool + (string \<times> string \<times> string \<times> byte \<times> byte list)" where
  "readSOCKS5Addr atyp b =
     (if atyp = 1 then (case ReadFull 4 b of None \<Rightarrow> Inl False | Some (a, b1) \<Rightarrow> readPort (ipString a) ''ipv4'' 1 b1)
      else if atyp = 4 then (case ReadFull 16 b of None \<Rightarrow> Inl False | Some (a, b1) \<Rightarrow> readPort (ipString a) ''ipv6'' 4 b1)
      else if atyp = 3 then
        (case b of [] \<Rightarrow> Inl False
         | n # b1 \<Rightarrow> if n = 0 then Inl True
                     else (case ReadFull (unat n) b1 of None \<Rightarrow> Inl False | Some (a, b2) \<Rightarrow> readPort (string_of a) ''domain'' 1 b2))
      else Inl True)"

text \<open>Reading up to a zero byte, at most \<open>n\<close> bytes before it.\<close>

fun readNUL :: "nat \<Rightarrow> byte list \<Rightarrow> (byte list \<times> byte list) option" where
  "readNUL 0 b = None"
| "readNUL (Suc n) [] = None"
| "readNUL (Suc n) (c # b) = (if c = 0 then Some ([], b) else map_option (\<lambda>(x, r). (c # x, r)) (readNUL n b))"

subsection \<open>Handshakes\<close>

text \<open>Each part takes what was written so far and returns what was written in all.\<close>

definition socks5UserPass :: "proxyUsers \<Rightarrow> byte list \<Rightarrow> byte list \<Rightarrow> byte list \<times> (string \<times> byte list) option" where
  "socks5UserPass pu out b =
     (case b of
        ver # ulen # b1 \<Rightarrow>
          (case ReadFull (unat ulen) b1 of None \<Rightarrow> (out, None)
           | Some (uname, b2) \<Rightarrow>
             (case b2 of [] \<Rightarrow> (out, None)
              | plen # b3 \<Rightarrow>
                (case ReadFull (unat plen) b3 of None \<Rightarrow> (out, None)
                 | Some (passwd, rest) \<Rightarrow>
                   if ver \<noteq> 1 \<or> ulen = 0 \<or> plen = 0 then (out @ [1, 1], None)
                   else (case matchSOCKSUsers (pu_users pu) (DigestSOCKSUser (pu_sha pu) uname passwd) of
                           None \<Rightarrow> (out @ [1, 1], None)
                         | Some user \<Rightarrow> if \<not> pu_write pu [1, 0] then (out, None) else (out @ [1, 0], Some (user, rest))))))
      | _ \<Rightarrow> (out, None))"

definition socks5NegotiateAuth :: "proxyUsers \<Rightarrow> bool \<Rightarrow> byte list \<Rightarrow> byte list \<Rightarrow> byte list \<times> (string \<times> byte list) option" where
  "socks5NegotiateAuth pu acceptUserPass methods b =
     (if acceptUserPass then
        (if \<not> socks5OffersMethod methods 2 then ([5, 0xff], None)
         else if \<not> pu_write pu [5, 2] then ([], None)
         else socks5UserPass pu [5, 2] b)
      else if \<not> socks5OffersMethod methods 0 then ([5, 0xff], None)
      else if \<not> pu_write pu [5, 0] then ([], None)
      else ([5, 0], Some ('''', b)))"

definition socks5Request :: "ProxyListenerSpec \<Rightarrow> string \<Rightarrow> byte list \<Rightarrow> byte list \<Rightarrow> byte list \<times> socks_result" where
  "socks5Request pl user out b =
     (case b of
        ver # cmd # rsv # atyp # b1 \<Rightarrow>
          if ver \<noteq> 5 then (out, SocksClosed)
          else if rsv \<noteq> 0 then (out @ writeSOCKS5Reply 1 1, SocksClosed)
          else (let bind = (cmd = 2 \<and> pl_AcceptBind pl); udp = (cmd = 3 \<and> pl_AcceptUDPAssociate pl)
          in if cmd \<noteq> 1 \<and> \<not> bind \<and> \<not> udp then (out @ writeSOCKS5Reply 7 1, SocksClosed)
             else case readSOCKS5Addr atyp b1 of
               Inl refuse \<Rightarrow> (if refuse then out @ writeSOCKS5Reply 8 1 else out, SocksClosed)
             | Inr (host, port, name, bnd, rest) \<Rightarrow>
               (out, SocksRequest (if bind then CmdBind else if udp then CmdUDP else CmdConnect)
                 \<lparr>sd_host = host, sd_port = port, sd_atyp = name, sd_bndATYP = bnd, sd_via = ''socks5'', sd_ver = 5, sd_user = user\<rparr> rest))
      | _ \<Rightarrow> (out, SocksClosed))"

definition serveSOCKS5 :: "proxyUsers \<Rightarrow> ProxyListenerSpec \<Rightarrow> byte list \<Rightarrow> byte list \<times> socks_result" where
  "serveSOCKS5 pu pl input =
     (case input of
        ver # nmethods # b \<Rightarrow>
          if ver \<noteq> 5 \<or> nmethods = 0 then ([], SocksClosed)
          else (case ReadFull (unat nmethods) b of None \<Rightarrow> ([], SocksClosed)
          | Some (methods, b1) \<Rightarrow>
            (case socks5NegotiateAuth pu (pl_AcceptUserPass pl) methods b1 of
               (out, None) \<Rightarrow> (out, SocksClosed)
             | (out, Some (user, b2)) \<Rightarrow> socks5Request pl user out b2))
      | _ \<Rightarrow> ([], SocksClosed))"

definition serveSOCKS4 :: "ProxyListenerSpec \<Rightarrow> byte list \<Rightarrow> byte list \<times> socks_result" where
  "serveSOCKS4 pl input =
     (case input of
        vn # cd # p1 # p2 # i1 # i2 # i3 # i4 # b \<Rightarrow>
          (let bind = (cd = 2 \<and> pl_AcceptBind pl);
               dest = (\<lambda>host name. \<lparr>sd_host = host, sd_port = formatNat (uint16 p1 p2), sd_atyp = name, sd_bndATYP = 1,
                         sd_via = ''socks4'', sd_ver = 4, sd_user = ''''\<rparr>);
               req = (\<lambda>d rest. SocksRequest (if bind then CmdBind else CmdConnect) d rest)
           in if vn \<noteq> 4 then ([], SocksClosed)
              else if cd \<noteq> 1 \<and> \<not> bind then (writeSOCKS4Reply 91, SocksClosed)
              else case readNUL 256 b of None \<Rightarrow> ([], SocksClosed)
              | Some (_, b1) \<Rightarrow>
                if i1 = 0 \<and> i2 = 0 \<and> i3 = 0 \<and> i4 \<noteq> 0 then
                  (case readNUL 255 b1 of
                     Some (name, b2) \<Rightarrow> if name = [] then (writeSOCKS4Reply 91, SocksClosed) else ([], req (dest (string_of name) ''domain'') b2)
                   | None \<Rightarrow> (writeSOCKS4Reply 91, SocksClosed))
                else ([], req (dest (ipString [i1, i2, i3, i4]) ''ipv4'') b1))
      | _ \<Rightarrow> ([], SocksClosed))"

subsection \<open>Where to connect\<close>

definition unspecifiedHost :: "go_env \<Rightarrow> string \<Rightarrow> bool" where
  "unspecifiedHost u host =
     (let h = TrimSpace u host
      in if h = [] \<or> h = ''*'' then True
         else ParseIP h = Some (v4InV6 @ [0, 0, 0, 0]) \<or> ParseIP h = Some (replicate 16 0))"

text \<open>\<open>ifaces\<close> are the addresses of the interfaces, in the 16-byte form, none if they cannot be read.\<close>

definition isLocalIP :: "go_env \<Rightarrow> byte list list \<Rightarrow> string \<Rightarrow> bool" where
  "isLocalIP u ifaces host =
     (case ParseIP (TrimSpace u host) of None \<Rightarrow> False
      | Some ip \<Rightarrow>
        let a = Unmap (IPv6 ip '''')
        in addrIsLoopback a \<or> ip = v4InV6 @ [0, 0, 0, 0] \<or> ip = replicate 16 0 \<or> inPrefixes a linkLocalCIDRs \<or> ip \<in> set ifaces)"

definition splitListenHostPort :: "go_env \<Rightarrow> string \<Rightarrow> (string \<times> string) option" where
  "splitListenHostPort u addr = (let a = TrimSpace u addr in if a = [] then None else SplitHostPort a)"

definition sameEndpoint :: "go_env \<Rightarrow> byte list list \<Rightarrow> string \<Rightarrow> string \<Rightarrow> bool" where
  "sameEndpoint u ifaces a b =
     (case splitListenHostPort u a of None \<Rightarrow> False
      | Some (ah, ap) \<Rightarrow>
        (case splitListenHostPort u b of None \<Rightarrow> False
         | Some (bh, bp) \<Rightarrow>
           if ap \<noteq> bp then False
           else if unspecifiedHost u ah \<and> unspecifiedHost u bh then True
           else if unspecifiedHost u ah then isLocalIP u ifaces bh
           else if unspecifiedHost u bh then isLocalIP u ifaces ah
           else (case (ParseIP ah, ParseIP bh) of (Some ai, Some bi) \<Rightarrow> ai = bi | _ \<Rightarrow> EqualFold u ah bh)))"

definition pinnedAddr :: "byte list \<Rightarrow> string \<Rightarrow> string" where
  "pinnedAddr ip port = JoinHostPort (ipString ip) port"

text \<open>The own endpoints: the addresses of the interfaces, those the two listeners are bound to, and those
  of the live BIND and UDP sockets.\<close>

record own_env =
  oe_ifaces :: "byte list list"
  oe_proxy :: "string option"
  oe_origDest :: "string option"
  oe_binds :: "string list"

definition isHairpin :: "go_env \<Rightarrow> own_env \<Rightarrow> resolved \<Rightarrow> ListenersSpec \<Rightarrow> bool" where
  "isHairpin u oe res l =
     (let listed = (\<lambda>s. if s \<noteq> [] then [s] else []);
          opt = (\<lambda>a. case a of None \<Rightarrow> [] | Some s \<Rightarrow> [s]);
          candidates = opt (oe_proxy oe) @ listed (pl_Address (ls_Proxy l)) @ opt (oe_origDest oe)
            @ listed (od_Address (ls_OriginalDestination l)) @ oe_binds oe
      in list_ex (\<lambda>c. sameEndpoint u (oe_ifaces oe) c (pinnedAddr (rv_Selected res) (rv_Port res))) candidates)"

definition portListed :: "int list \<Rightarrow> int \<Rightarrow> bool" where
  "portListed ports p = (if ports = [] then p = 443 else list_ex (\<lambda>x. x = p) ports)"

definition shouldIntercept :: "go_env \<Rightarrow> TLSSpec \<Rightarrow> string \<Rightarrow> string \<Rightarrow> bool" where
  "shouldIntercept u t host port =
     (if \<not> ts_Intercept t then False
      else case Atoi port of None \<Rightarrow> False
      | Some p \<Rightarrow>
        if \<not> portListed (elems (ts_Ports t)) p then False
        else if elems (ts_Hosts t) = [] then True
        else list_ex (\<lambda>pat. guardMatchHost u pat host) (elems (ts_Hosts t)))"

definition zeroTargets :: "TargetsSpec \<Rightarrow> bool" where
  "zeroTargets t \<longleftrightarrow> \<not> tg_DenyCloudMetadata t \<and> \<not> tg_DenyLinkLocal t \<and> \<not> tg_AllowLoopback t
     \<and> elems (tg_AllowHosts t) = [] \<and> elems (tg_DenyHosts t) = []"

definition zeroOr :: "int \<Rightarrow> int \<Rightarrow> int" where
  "zeroOr n d = (if n = 0 then d else n)"

definition admissionDefaults :: "AdmissionSpec \<Rightarrow> AdmissionSpec" where
  "admissionDefaults a = a\<lparr>
     ad_MaxSessions := zeroOr (ad_MaxSessions a) 256,
     ad_MaxSessionsPerIP := zeroOr (ad_MaxSessionsPerIP a) 32,
     ad_MaxInFlight := zeroOr (ad_MaxInFlight a) 64,
     ad_MaxInFlightBytes := zeroOr (ad_MaxInFlightBytes a) (64 * 2 ^ 20),
     ad_SessionTimeout := zeroOr (ad_SessionTimeout a) (600 * 10 ^ 9),
     ad_IdleTimeout := zeroOr (ad_IdleTimeout a) (120 * 10 ^ 9),
     ad_HeaderTimeout := zeroOr (ad_HeaderTimeout a) (10 * 10 ^ 9),
     ad_DialTimeout := zeroOr (ad_DialTimeout a) (10 * 10 ^ 9),
     ad_UpstreamTimeout := zeroOr (ad_UpstreamTimeout a) (60 * 10 ^ 9)\<rparr>"

definition targetDefaults :: "TargetsSpec \<Rightarrow> TargetsSpec" where
  "targetDefaults t =
     (if zeroTargets t then t\<lparr>tg_DenyCloudMetadata := True, tg_DenyLinkLocal := True, tg_AllowLoopback := True\<rparr> else t)"

definition withSpecDefaults :: "Spec \<Rightarrow> Spec" where
  "withSpecDefaults sp =
     (let p = sp_Proxy sp; t = sp_TLS sp; st = sp_Store sp
      in sp\<lparr>sp_Proxy := p\<lparr>px_Admission := admissionDefaults (px_Admission p),
             px_Hostname := (if px_Hostname p = [] then ''labmitm.lab'' else px_Hostname p), px_Targets := targetDefaults (px_Targets p)\<rparr>,
           sp_Store := st\<lparr>ss_MaxBodyBytes := zeroOr (ss_MaxBodyBytes st) (2 ^ 20)\<rparr>,
           sp_TLS := t\<lparr>ts_Ports := (if elems (ts_Ports t) = [] then Some [443] else ts_Ports t)\<rparr>\<rparr>)"

subsection \<open>CONNECT\<close>

record connect_env =
  cn_lookup :: "string \<Rightarrow> byte list list option"
  cn_own :: own_env
  cn_dial :: "string \<Rightarrow> bool"
  cn_write :: "byte list \<Rightarrow> bool"

datatype socks_end = Refused | Tunnelled | Intercepted

record socks_outcome =
  so_written :: "byte list"
  so_dialled :: "byte list option"
  so_flow :: "string option"
  so_end :: socks_end

definition replySOCKS :: "socksDest \<Rightarrow> byte \<Rightarrow> byte list" where
  "replySOCKS d rep =
     (if sd_ver d = 4 then writeSOCKS4Reply (if rep \<noteq> 0 then 91 else 90)
      else (let a = (if rep = 4 \<or> rep = 5 then 1 else sd_bndATYP d) in writeSOCKS5Reply rep (if a \<noteq> 4 then 1 else a)))"

text \<open>After admission. The flow that is captured carries its error, empty on success; when the success
  reply cannot be written, or on interception, this handler captures none.\<close>

definition socksDial :: "go_env \<Rightarrow> connect_env \<Rightarrow> Spec \<Rightarrow> socksDest \<Rightarrow> socks_outcome" where
  "socksDial u ev sp d =
     (let no = (\<lambda>rep dialled flow. \<lparr>so_written = replySOCKS d rep, so_dialled = dialled, so_flow = Some flow, so_end = Refused\<rparr>)
      in case resolveThenGuard u (cn_lookup ev) (px_Targets (sp_Proxy sp)) (sd_host d) (sd_port d) of
           Inl errDNS \<Rightarrow> no 4 None ''dns''
         | Inl errTargetDenied \<Rightarrow> no 2 None ''target_denied''
         | Inr res \<Rightarrow>
           if isHairpin u (cn_own ev) res (sp_Listeners sp) then no 2 None ''target_denied''
           else if \<not> cn_dial ev (pinnedAddr (rv_Selected res) (rv_Port res)) then no 5 (Some (rv_Selected res)) ''dial''
           else if \<not> cn_write ev (replySOCKS d 0)
           then \<lparr>so_written = [], so_dialled = Some (rv_Selected res), so_flow = None, so_end = Refused\<rparr>
           else if shouldIntercept u (sp_TLS sp) (sd_host d) (sd_port d)
           then \<lparr>so_written = replySOCKS d 0, so_dialled = Some (rv_Selected res), so_flow = None, so_end = Intercepted\<rparr>
           else \<lparr>so_written = replySOCKS d 0, so_dialled = Some (rv_Selected res), so_flow = Some '''', so_end = Tunnelled\<rparr>)"

text \<open>The gate while the session is open, the gate after it, and the outcome.\<close>

definition serveSOCKSConnect :: "go_env \<Rightarrow> connect_env \<Rightarrow> Spec \<Rightarrow> ipaddr option \<Rightarrow> socksDest \<Rightarrow> gate \<Rightarrow> gate \<times> gate \<times> socks_outcome" where
  "serveSOCKSConnect u ev sp ip d g =
     (case acquire ip (px_Admission (sp_Proxy sp)) g of
        (g1, Some e) \<Rightarrow> (g1, g1, \<lparr>so_written = replySOCKS d 1, so_dialled = None, so_flow = None, so_end = Refused\<rparr>)
      | (g1, None) \<Rightarrow> (g1, release ip g1, socksDial u ev sp d))"

end
