(* ===== verification/Proxy_Socks_Props.thy ===== *)
theory Proxy_Socks_Props
  imports Proxy_Socks App_Reach
begin

text \<open>
  What the SOCKS front end guarantees: with user names on, no request without the credentials of a
  configured user; and no connection to an address the guard did not check, within the limits of the
  admission gate.
\<close>

subsection \<open>Users\<close>

definition loadedUser :: "'ca compile_env \<Rightarrow> UserPassUserSpec \<Rightarrow> SOCKSUserDigest \<Rightarrow> bool" where
  "loadedUser ev x d \<longleftrightarrow> (\<exists>un pw. readRFC1929File (ce_go ev) (ce_disk ev) (up_UsernameFile x) = Some un
     \<and> readRFC1929File (ce_go ev) (ce_disk ev) (up_PasswordFile x) = Some pw
     \<and> su_Digest d = DigestSOCKSUser (ce_sha256 ev) un pw \<and> su_ID d = TrimSpace (ce_go ev) (up_ID x))"

lemma loadUsers_ok:
  "loadUsers ev base seen i xs = Inr ds \<Longrightarrow>
     list_all2 (loadedUser ev) xs ds \<and> distinct (map su_Digest ds) \<and> set (map su_Digest ds) \<inter> set seen = {}"
proof (induction xs arbitrary: seen i ds)
  case (Cons x xs)
  from Cons.prems obtain un pw ds' where r: "readRFC1929File (ce_go ev) (ce_disk ev) (up_UsernameFile x) = Some un"
    "readRFC1929File (ce_go ev) (ce_disk ev) (up_PasswordFile x) = Some pw"
    and n: "DigestSOCKSUser (ce_sha256 ev) un pw \<notin> set seen"
    and l: "loadUsers ev base (DigestSOCKSUser (ce_sha256 ev) un pw # seen) (Suc i) xs = Inr ds'"
    and ds: "ds = \<lparr>su_ID = TrimSpace (ce_go ev) (up_ID x), su_Digest = DigestSOCKSUser (ce_sha256 ev) un pw\<rparr> # ds'"
    by (auto simp: Let_def map_sum_def split: if_splits option.splits sum.splits)
  from Cons.IH[OF l] r n show ?case by (auto simp: ds loadedUser_def)
qed simp

lemma matchSOCKSUsers_Some:
  assumes "distinct (map su_Digest users)" and "matchSOCKSUsers users digest = Some name"
  shows "\<exists>d \<in> set users. su_Digest d = digest \<and> su_ID d = name"
proof -
  obtain idx found where sc: "constScan digest 0 0 0 (map su_Digest users) = (idx, found)" by fastforce
  with assms(2) have f: "found = 1" and name: "name = su_ID (users ! nat idx)" by (auto simp: matchSOCKSUsers_def split: if_splits)
  note sp = constScan_distinct[OF assms(1) sc]
  from sp(1) f have "digest \<in> set (map su_Digest users)" by simp
  with sp(2) have "nat idx < length users" "su_Digest (users ! nat idx) = digest" by auto
  with name show ?thesis by auto
qed

subsection \<open>Reading\<close>

lemma ReadFull_Some: "ReadFull n b = Some (x, r) \<longleftrightarrow> b = x @ r \<and> length x = n"
  by (auto simp: ReadFull_def)

lemma socks5UserPass_Some:
  assumes "socks5UserPass pu out b = (out', Some (user, rest))"
  obtains ulen uname plen passwd where "b = 1 # ulen # uname @ plen # passwd @ rest" "length uname = unat ulen" "length passwd = unat plen"
    "matchSOCKSUsers (pu_users pu) (DigestSOCKSUser (pu_sha pu) uname passwd) = Some user" "uname \<noteq> []" "passwd \<noteq> []"
proof -
  from assms obtain ver ulen b1 where b: "b = ver # ulen # b1" by (auto simp: socks5UserPass_def split: list.splits)
  with assms obtain uname b2 where u: "ReadFull (unat ulen) b1 = Some (uname, b2)" by (auto simp: socks5UserPass_def split: option.splits)
  with assms b obtain plen b3 where b2: "b2 = plen # b3" by (auto simp: socks5UserPass_def split: list.splits)
  with assms b u obtain passwd r where p: "ReadFull (unat plen) b3 = Some (passwd, r)" by (auto simp: socks5UserPass_def split: option.splits)
  from assms b u b2 p have k: "ver = 1" "ulen \<noteq> 0" "plen \<noteq> 0" "r = rest"
    "matchSOCKSUsers (pu_users pu) (DigestSOCKSUser (pu_sha pu) uname passwd) = Some user"
    by (auto simp: socks5UserPass_def split: if_splits option.splits)
  have "uname \<noteq> []" "passwd \<noteq> []" using u p k(2,3) by (auto simp: ReadFull_Some unat_eq_0)
  with that[of ulen uname plen passwd] b b2 u p k show ?thesis by (auto simp: ReadFull_Some)
qed

lemma socks5Request_user: "socks5Request pl user out b = (out', SocksRequest cmd d rest) \<Longrightarrow> sd_user d = user"
  by (auto simp: socks5Request_def Let_def split: list.splits if_splits sum.splits prod.splits)

text \<open>(C21) With user names required and the users loaded from the configured files, a SOCKS5 client gets as
  far as a request only by sending, after its method list, a user name and a password, neither empty,
  whose digest is that of the contents of the two files of one configured user; and the request
  carries the identifier of that user.\<close>

theorem socks5_credentials_enforced:
  assumes "loadSOCKSUserFiles ev sp = Inr users" and "pl_AcceptUserPass (ls_Proxy (sp_Listeners sp))"
    and "pu_users pu = users" and "pu_sha pu = ce_sha256 ev"
    and "serveSOCKS5 pu (ls_Proxy (sp_Listeners sp)) input = (out, SocksRequest cmd d rest)"
  shows "\<exists>n methods ulen uname plen passwd req x un pw.
    input = 5 # n # methods @ 1 # ulen # uname @ plen # passwd @ req \<and> length methods = unat n \<and> length uname = unat ulen \<and> length passwd = unat plen
    \<and> uname \<noteq> [] \<and> passwd \<noteq> [] \<and> x \<in> set (elems (ups_Users (pl_UserPass (ls_Proxy (sp_Listeners sp)))))
    \<and> readRFC1929File (ce_go ev) (ce_disk ev) (up_UsernameFile x) = Some un \<and> readRFC1929File (ce_go ev) (ce_disk ev) (up_PasswordFile x) = Some pw
    \<and> DigestSOCKSUser (ce_sha256 ev) un pw = DigestSOCKSUser (ce_sha256 ev) uname passwd \<and> sd_user d = TrimSpace (ce_go ev) (up_ID x)"
proof -
  let ?pl = "ls_Proxy (sp_Listeners sp)"
  from assms(5) obtain n b where i: "input = 5 # n # b" "n \<noteq> 0" by (auto simp: serveSOCKS5_def split: list.splits if_splits)
  with assms(5) obtain methods b1 where m: "ReadFull (unat n) b = Some (methods, b1)" by (auto simp: serveSOCKS5_def split: option.splits)
  with assms(5) i obtain out1 user b2 where a: "socks5NegotiateAuth pu True methods b1 = (out1, Some (user, b2))"
    and r: "socks5Request ?pl user out1 b2 = (out, SocksRequest cmd d rest)"
    using assms(2) by (auto simp: serveSOCKS5_def split: prod.splits option.splits)
  from a have "socks5UserPass pu [5, 2] b1 = (out1, Some (user, b2))" by (auto simp: socks5NegotiateAuth_def split: if_splits)
  then obtain ulen uname plen passwd where up: "b1 = 1 # ulen # uname @ plen # passwd @ b2" "length uname = unat ulen" "length passwd = unat plen"
    "matchSOCKSUsers users (DigestSOCKSUser (ce_sha256 ev) uname passwd) = Some user" "uname \<noteq> []" "passwd \<noteq> []"
    using assms(3,4) by (metis socks5UserPass_Some)
  from assms(1,2) have "loadUsers ev ''spec.listeners.proxy.userPass.users'' [] 0 (elems (ups_Users (pl_UserPass ?pl))) = Inr users"
    by (simp add: loadSOCKSUserFiles_def Let_def)
  from loadUsers_ok[OF this] have all2: "list_all2 (loadedUser ev) (elems (ups_Users (pl_UserPass ?pl))) users" and di: "distinct (map su_Digest users)" by auto
  from matchSOCKSUsers_Some[OF di up(4)] obtain dg where dg: "dg \<in> set users" "su_Digest dg = DigestSOCKSUser (ce_sha256 ev) uname passwd" "su_ID dg = user" by blast
  from all2 dg(1) obtain x where x: "x \<in> set (elems (ups_Users (pl_UserPass ?pl)))" "loadedUser ev x dg"
    by (metis in_set_conv_nth list_all2_conv_all_nth)
  from socks5Request_user[OF r] x dg i m up show ?thesis by (fastforce simp: loadedUser_def ReadFull_Some)
qed

definition exUser :: UserPassUserSpec where
  "exUser = \<lparr>up_ID = ''ann'', up_UsernameFile = ''/u'', up_PasswordFile = ''/p''\<rparr>"

definition exSocksSpec :: Spec where
  "exSocksSpec = (let sp = st_Spec exState; l = sp_Listeners sp
     in sp\<lparr>sp_Listeners := l\<lparr>ls_Proxy := (ls_Proxy l)\<lparr>pl_AcceptUserPass := True, pl_UserPass := \<lparr>ups_Users = Some [exUser]\<rparr>\<rparr>\<rparr>\<rparr>)"

definition exSocksEnv :: "unit compile_env" where
  "exSocksEnv = \<lparr>ce_go = ascii_env, ce_disk = \<lparr>dk_Stat = (\<lambda>_. Some 0), dk_ReadFile = (\<lambda>p. Some (if p = ''/u'' then ''ann'' else ''pw''))\<rparr>,
     ce_now = 0, ce_ctxErr = False, ce_revision = (\<lambda>_. Some ''r''), ce_newCA = (\<lambda>_. None), ce_sha256 = id\<rparr>"

definition exSocksUsers :: proxyUsers where
  "exSocksUsers = \<lparr>pu_users = [\<lparr>su_ID = ''ann'', su_Digest = [3, 97, 110, 110, 2, 112, 119]\<rparr>], pu_sha = id, pu_write = (\<lambda>_. True)\<rparr>"

theorem socks5_credentials_enforced_witness:
  "\<exists>out cmd d rest. serveSOCKS5 exSocksUsers (ls_Proxy (sp_Listeners exSocksSpec))
       [5, 1, 2, 1, 3, 97, 110, 110, 2, 112, 119, 5, 1, 0, 1, 10, 0, 0, 9, 1, 187] = (out, SocksRequest cmd d rest)
    \<and> sd_user d = ''ann''"
proof -
  let ?in = "[5, 1, 2, 1, 3, 97, 110, 110, 2, 112, 119, 5, 1, 0, 1, 10, 0, 0, 9, 1, 187] :: byte list"
  let ?r = "serveSOCKS5 exSocksUsers (ls_Proxy (sp_Listeners exSocksSpec)) ?in"
  have a: "case loadSOCKSUserFiles exSocksEnv exSocksSpec of Inl e \<Rightarrow> False | Inr us \<Rightarrow> us = pu_users exSocksUsers" by code_simp
  then have a1: "loadSOCKSUserFiles exSocksEnv exSocksSpec = Inr (pu_users exSocksUsers)" by (auto split: sum.splits)
  have b: "pl_AcceptUserPass (ls_Proxy (sp_Listeners exSocksSpec))" by code_simp
  have "case snd ?r of SocksClosed \<Rightarrow> False | SocksRequest c d rs \<Rightarrow> True" by code_simp
  then obtain out cmd d rest where r: "?r = (out, SocksRequest cmd d rest)" by (cases ?r) (auto split: socks_result.splits)
  have h: "pu_sha exSocksUsers = ce_sha256 exSocksEnv" by (simp add: exSocksUsers_def exSocksEnv_def)
  have us: "elems (ups_Users (pl_UserPass (ls_Proxy (sp_Listeners exSocksSpec)))) = [exUser]" "TrimSpace (ce_go exSocksEnv) (up_ID exUser) = ''ann''"
    by code_simp+
  from socks5_credentials_enforced[OF a1 b refl h r] us have "sd_user d = ''ann''" by auto
  with r show ?thesis by blast
qed

subsection \<open>Connections\<close>

lemma socksDial_dialled:
  assumes "so_dialled (socksDial u ev sp d) = Some ip"
  shows "\<exists>res. resolveThenGuard u (cn_lookup ev) (px_Targets (sp_Proxy sp)) (sd_host d) (sd_port d) = Inr res
    \<and> ip = rv_Selected res \<and> ip \<in> set (rv_All res) \<and> \<not> isHairpin u (cn_own ev) res (sp_Listeners sp) \<and> \<not> forbidden (px_Targets (sp_Proxy sp)) ip"
proof -
  from assms obtain res where r: "resolveThenGuard u (cn_lookup ev) (px_Targets (sp_Proxy sp)) (sd_host d) (sd_port d) = Inr res"
    by (auto simp: socksDial_def Let_def split: sum.splits guard_error.splits)
  with assms have "ip = rv_Selected res" "\<not> isHairpin u (cn_own ev) res (sp_Listeners sp)" by (auto simp: socksDial_def Let_def split: if_splits)
  with r guard_accepted[OF r] show ?thesis by blast
qed

lemma socksDial_open: "so_end (socksDial u ev sp d) \<noteq> Refused \<Longrightarrow>
   so_written (socksDial u ev sp d) = replySOCKS d 0 \<and> so_dialled (socksDial u ev sp d) \<noteq> None"
  by (auto simp: socksDial_def Let_def split: sum.splits guard_error.splits if_splits)

text \<open>(C20) A SOCKS CONNECT dials only what it checked, and gives its slot back. Whatever the resolver, the
  network and the client do: an address that is dialled is the one the guard selected among the
  addresses of the requested host, not forbidden by the configured targets and not an own listener,
  and the admission gate had counted the session before, the limit on sessions, if set, not exceeded; a client that sees its connection open was sent the success reply and its
  address was dialled; and when the session ends the gate counts the other open sessions exactly.\<close>

theorem socks_dials_only_checked:
  assumes "gate_reach g M" and "serveSOCKSConnect u ev sp ip d g = (g1, g2, out)"
  shows "gateCounts g2 M \<and> (so_end out \<noteq> Refused \<longrightarrow> so_written out = replySOCKS d 0 \<and> so_dialled out \<noteq> None)
    \<and> (case so_dialled out of None \<Rightarrow> True
       | Some a \<Rightarrow> gateCounts g1 (add_mset ip M)
         \<and> (ad_MaxSessions (px_Admission (sp_Proxy sp)) \<le> 0 \<or> g_sessions g1 \<le> ad_MaxSessions (px_Admission (sp_Proxy sp)))
         \<and> (\<exists>res. resolveThenGuard u (cn_lookup ev) (px_Targets (sp_Proxy sp)) (sd_host d) (sd_port d) = Inr res
              \<and> a = rv_Selected res \<and> a \<in> set (rv_All res) \<and> \<not> isHairpin u (cn_own ev) res (sp_Listeners sp) \<and> \<not> forbidden (px_Targets (sp_Proxy sp)) a))"
proof (cases "acquire ip (px_Admission (sp_Proxy sp)) g")
  case (Pair h e)
  note c = gate_reach_counts[OF assms(1)]
  show ?thesis
  proof (cases e)
    case None
    with Pair assms(2) have x: "g1 = h" "g2 = release ip h" "out = socksDial u ev sp d" by (auto simp: serveSOCKSConnect_def)
    from gateCounts_acquire[OF c] Pair None x have g1: "gateCounts g1 (add_mset ip M)" by simp
    from gateCounts_release[OF this, of ip] x have g2: "gateCounts g2 M" by simp
    have "ad_MaxSessions (px_Admission (sp_Proxy sp)) \<le> 0 \<or> g_sessions g1 \<le> ad_MaxSessions (px_Admission (sp_Proxy sp))"
      using Pair None x by (auto simp: acquire_def Let_def split: if_splits option.splits)
    with g1 g2 x socksDial_open[of u ev sp d] socksDial_dialled[of u ev sp d] show ?thesis by (auto split: option.split)
  next
    case (Some er)
    then have "h = g" using Pair by (auto simp: acquire_def split: if_splits)
    with Pair Some assms(2) have "g2 = g" "so_dialled out = None" "so_end out = Refused" by (auto simp: serveSOCKSConnect_def)
    with c show ?thesis by simp
  qed
qed

definition exConnectEnv :: connect_env where
  "exConnectEnv = \<lparr>cn_lookup = (\<lambda>_. Some [[10, 0, 0, 9]]), cn_own = \<lparr>oe_ifaces = [], oe_proxy = Some ''127.0.0.1:8888'', oe_origDest = None, oe_binds = []\<rparr>, cn_dial = (\<lambda>_. True), cn_write = (\<lambda>_. True)\<rparr>"

definition exDest :: socksDest where
  "exDest = \<lparr>sd_host = ''lab'', sd_port = ''443'', sd_atyp = ''domain'', sd_bndATYP = 1, sd_via = ''socks5'', sd_ver = 5, sd_user = ''''\<rparr>"

theorem socks_dials_only_checked_witness:
  "\<exists>g1 g2 out. serveSOCKSConnect ascii_env exConnectEnv exSocksSpec (Some (IPv4 [10, 0, 0, 1])) exDest newGate = (g1, g2, out)
    \<and> so_dialled out = Some [10, 0, 0, 9] \<and> gateCounts g2 {#} \<and> g_sessions g1 = 1
    \<and> \<not> forbidden (px_Targets (sp_Proxy exSocksSpec)) [10, 0, 0, 9]"
proof -
  let ?r = "serveSOCKSConnect ascii_env exConnectEnv exSocksSpec (Some (IPv4 [10, 0, 0, 1])) exDest newGate"
  obtain g1 g2 out where r: "?r = (g1, g2, out)" by (cases ?r)
  have "so_dialled (snd (snd ?r)) = Some [10, 0, 0, 9]" by code_simp
  then have "so_dialled out = Some [10, 0, 0, 9]" by (simp add: r)
  with r socks_dials_only_checked[OF gate_reach.start r] show ?thesis by (auto simp: gateCounts_def)
qed

end
