(* ===== verification/Proxy_Relay.thy ===== *)
theory Proxy_Relay
  imports Proxy_Socks App_Reach
begin

text \<open>
  SOCKS BIND and UDP ASSOCIATE (\<open>internal/proxy/socks_bind.go\<close>, \<open>socks_udp.go\<close>). A
  \<open>net.Addr\<close> is what its \<open>String\<close> method returns, none if nil: the sources look at
  nothing else. The network is an argument: which listener comes up, who connects, which datagrams
  arrive and when, and which writes succeed.
\<close>

subsection \<open>Addresses\<close>

definition ipIsUnspecified :: "byte list \<Rightarrow> bool" where
  "ipIsUnspecified ip \<longleftrightarrow> To4 ip = Some [0, 0, 0, 0] \<or> ip = replicate 16 0"

definition ipEqual :: "byte list \<Rightarrow> byte list \<Rightarrow> bool" where
  "ipEqual a b \<longleftrightarrow> a = b \<or> (To4 a \<noteq> None \<and> To4 a = To4 b)"

definition splitIPPort :: "string option \<Rightarrow> (byte list \<times> int) option" where
  "splitIPPort addr =
     (case addr of None \<Rightarrow> None
      | Some a \<Rightarrow>
        (case SplitHostPort a of None \<Rightarrow> None
         | Some (host, port) \<Rightarrow>
           (case ParseIP host of None \<Rightarrow> None
            | Some ip \<Rightarrow> (case Atoi port of None \<Rightarrow> None | Some p \<Rightarrow> Some (ip, p)))))"

definition checkBindListenIP :: "byte list \<Rightarrow> bool" where
  "checkBindListenIP ip \<longleftrightarrow> ip \<noteq> [] \<and> \<not> ipIsUnspecified ip
     \<and> \<not> denyIP \<lparr>tg_DenyCloudMetadata = True, tg_DenyLinkLocal = True, tg_AllowLoopback = True, tg_AllowHosts = None, tg_DenyHosts = None\<rparr> ip"

definition unicastControlIP :: "string option \<Rightarrow> byte list option" where
  "unicastControlIP addr =
     (case addr of None \<Rightarrow> None
      | Some a \<Rightarrow>
        (case SplitHostPort a of None \<Rightarrow> None
         | Some (host, _) \<Rightarrow>
           (case ParseIP host of None \<Rightarrow> None
            | Some ip \<Rightarrow>
              if \<not> checkBindListenIP ip then None
              else (case To4 ip of Some v4 \<Rightarrow> Some v4 | None \<Rightarrow> Some ip))))"

definition socksUnspecifiedDST :: "go_env \<Rightarrow> string \<Rightarrow> string \<Rightarrow> bool" where
  "socksUnspecifiedDST u host0 port0 =
     (let host = TrimSpace u host0; port = TrimSpace u port0
      in if host = [] \<or> port = [] then True
         else case ParseIP host of None \<Rightarrow> False | Some ip \<Rightarrow> ipIsUnspecified ip)"

definition ipInResolved :: "byte list \<Rightarrow> resolved \<Rightarrow> bool" where
  "ipInResolved ip res \<longleftrightarrow> ip \<noteq> [] \<and> list_ex (\<lambda>a. a \<noteq> [] \<and> ipEqual a ip) (rv_All res)"

text \<open>A port as two bytes, \<open>uint16(port)\<close> in network order.\<close>

definition putPort :: "int \<Rightarrow> byte list" where
  "putPort p = [of_int (p div 256), of_int p]"

text \<open>The nil address is the empty slice.\<close>

definition writeSOCKS5ReplyAddr :: "byte \<Rightarrow> byte list \<Rightarrow> int \<Rightarrow> byte list" where
  "writeSOCKS5ReplyAddr rep ip port =
     (case To4 ip of Some v4 \<Rightarrow> [5, rep, 0, 1] @ v4 @ putPort port
      | None \<Rightarrow> if length ip = 16 then [5, rep, 0, 4] @ ip @ putPort port else writeSOCKS5Reply rep 1)"

definition writeSOCKS4ReplyAddr :: "byte \<Rightarrow> byte list \<Rightarrow> int \<Rightarrow> byte list" where
  "writeSOCKS4ReplyAddr cd ip port =
     [0, cd] @ putPort port @ (case To4 ip of Some v4 \<Rightarrow> v4 | None \<Rightarrow> [0, 0, 0, 0])"

definition writeSOCKSBindReply :: "socksDest \<Rightarrow> byte \<Rightarrow> byte list \<Rightarrow> int \<Rightarrow> byte list" where
  "writeSOCKSBindReply d rep ip port =
     (if sd_ver d = 4 then writeSOCKS4ReplyAddr (if rep \<noteq> 0 then 91 else 90) ip port
      else writeSOCKS5ReplyAddr rep ip port)"

subsection \<open>BIND\<close>

text \<open>What the network does in one session: the local address of the control connection, the address of
  the listener if it comes up, whether the server still accepts, the address of the peer that
  connects if one does, and whether each of the two replies is written.\<close>

record bind_env =
  be_lookup :: "string \<Rightarrow> byte list list option"
  be_local :: "string option"
  be_listen :: "byte list \<Rightarrow> string option"
  be_accepting :: bool
  be_peer :: "string option option"
  be_write :: "byte list \<Rightarrow> bool"

datatype bind_end = BindClosed | BindTunnel "byte list" int

record bind_outcome =
  bo_written :: "byte list list"
  bo_listened :: "byte list option"
  bo_flow :: "string option"
  bo_end :: bind_end

definition bindAccepted :: "TargetsSpec \<Rightarrow> bind_env \<Rightarrow> socksDest \<Rightarrow> resolved \<Rightarrow> byte list \<Rightarrow> byte list \<Rightarrow> string option \<Rightarrow> bind_outcome" where
  "bindAccepted t ev d res controlIP reply1 peer =
     (let denied = \<lparr>bo_written = [reply1, writeSOCKSBindReply d 2 [] 0], bo_listened = Some controlIP, bo_flow = Some ''target_denied'', bo_end = BindClosed\<rparr>
      in case splitIPPort peer of None \<Rightarrow> denied
         | Some (peerIP, peerPort) \<Rightarrow>
           if denyIP t peerIP \<or> \<not> ipInResolved peerIP res then denied
           else let reply = writeSOCKSBindReply d 0 peerIP peerPort
                in if \<not> be_write ev reply then \<lparr>bo_written = [reply1], bo_listened = Some controlIP, bo_flow = None, bo_end = BindClosed\<rparr>
                   else \<lparr>bo_written = [reply1, reply], bo_listened = Some controlIP, bo_flow = Some '''', bo_end = BindTunnel peerIP peerPort\<rparr>)"

definition bindListening :: "TargetsSpec \<Rightarrow> bind_env \<Rightarrow> socksDest \<Rightarrow> resolved \<Rightarrow> byte list \<Rightarrow> string \<Rightarrow> bind_outcome" where
  "bindListening t ev d res controlIP lnAddr =
     (let no = \<lparr>bo_written = [replySOCKS d 1], bo_listened = Some controlIP, bo_flow = None, bo_end = BindClosed\<rparr>
      in if \<not> be_accepting ev then no
         else case SplitHostPort lnAddr of None \<Rightarrow> no
         | Some (_, bndPortStr) \<Rightarrow>
           (case Atoi bndPortStr of None \<Rightarrow> no
            | Some bndPort \<Rightarrow>
              let reply1 = writeSOCKSBindReply d 0 controlIP bndPort
              in if \<not> be_write ev reply1 then \<lparr>bo_written = [], bo_listened = Some controlIP, bo_flow = None, bo_end = BindClosed\<rparr>
                 else case be_peer ev of
                   None \<Rightarrow> \<lparr>bo_written = [reply1, writeSOCKSBindReply d 1 [] 0], bo_listened = Some controlIP, bo_flow = Some ''accept'', bo_end = BindClosed\<rparr>
                 | Some peer \<Rightarrow> bindAccepted t ev d res controlIP reply1 peer))"

text \<open>The listener, on the control address only; \<open>listen\<close> is the call of the operating system.\<close>

definition listenEphemeralTCP :: "(byte list \<Rightarrow> string option) \<Rightarrow> byte list \<Rightarrow> string option" where
  "listenEphemeralTCP listen controlIP =
     (if \<not> checkBindListenIP controlIP then None
      else case SplitHostPort (JoinHostPort (ipString controlIP) ''0'') of None \<Rightarrow> None
      | Some (host, _) \<Rightarrow> if host = [] then None else listen controlIP)"

definition bindResolved :: "go_env \<Rightarrow> bind_env \<Rightarrow> Spec \<Rightarrow> socksDest \<Rightarrow> bind_outcome" where
  "bindResolved u ev sp d =
     (let no = (\<lambda>rep flow. \<lparr>bo_written = [replySOCKS d rep], bo_listened = None, bo_flow = flow, bo_end = BindClosed\<rparr>); t = px_Targets (sp_Proxy sp)
      in case resolveThenGuard u (be_lookup ev) t (sd_host d) (sd_port d) of
           Inl errDNS \<Rightarrow> no 4 (Some ''dns'')
         | Inl errTargetDenied \<Rightarrow> no 2 (Some ''target_denied'')
         | Inr res \<Rightarrow>
           (case unicastControlIP (be_local ev) of None \<Rightarrow> no 1 None
            | Some controlIP \<Rightarrow>
              if sd_ver d = 4 \<and> To4 controlIP = None then no 1 None
              else case listenEphemeralTCP (be_listen ev) controlIP of None \<Rightarrow> no 1 (Some ''listen'')
              | Some lnAddr \<Rightarrow> bindListening t ev d res controlIP lnAddr))"

definition serveSOCKSBind :: "go_env \<Rightarrow> bind_env \<Rightarrow> Spec \<Rightarrow> ipaddr option \<Rightarrow> socksDest \<Rightarrow> gate \<Rightarrow> gate \<times> gate \<times> bind_outcome" where
  "serveSOCKSBind u ev sp client d g =
     (if socksUnspecifiedDST u (sd_host d) (sd_port d)
      then (g, g, \<lparr>bo_written = [replySOCKS d 2], bo_listened = None, bo_flow = Some ''target_denied'', bo_end = BindClosed\<rparr>)
      else case acquire client (px_Admission (sp_Proxy sp)) g of
        (g1, Some e) \<Rightarrow> (g1, g1, \<lparr>bo_written = [replySOCKS d 1], bo_listened = None, bo_flow = None, bo_end = BindClosed\<rparr>)
      | (g1, None) \<Rightarrow> (g1, release client g1, bindResolved u ev sp d))"

subsection \<open>Datagrams\<close>

definition parseSOCKS5AddrBytes :: "byte list \<Rightarrow> (string \<times> string \<times> byte list) option" where
  "parseSOCKS5AddrBytes p0 =
     (let port = (\<lambda>host p. Some (host, formatNat (uint16 (p ! 0) (p ! 1)), drop 2 p))
      in case p0 of [] \<Rightarrow> None
         | atyp # p \<Rightarrow>
           if atyp = 1 then (if length p < 6 then None else port (ipString (take 4 p)) (drop 4 p))
           else if atyp = 4 then (if length p < 18 then None else port (ipString (take 16 p)) (drop 16 p))
           else if atyp = 3 then
             (case p of [] \<Rightarrow> None
              | b # q \<Rightarrow> let n = unat b
                        in if n = 0 then None else if length q < n + 2 then None else port (string_of (take n q)) (drop n q))
           else None)"

definition parseSOCKSUDP :: "byte list \<Rightarrow> (string \<times> string \<times> byte list) option" where
  "parseSOCKSUDP pkt =
     (if length pkt < 4 then None
      else if pkt ! 0 \<noteq> 0 \<or> pkt ! 1 \<noteq> 0 then None
      else if pkt ! 2 \<noteq> 0 then None
      else parseSOCKS5AddrBytes (drop 3 pkt))"

definition encodeSOCKSUDP :: "string option \<Rightarrow> byte list \<Rightarrow> byte list" where
  "encodeSOCKSUDP from data =
     (case splitIPPort from of None \<Rightarrow> []
      | Some (ip, port) \<Rightarrow>
        (case To4 ip of Some v4 \<Rightarrow> [0, 0, 0] @ [1] @ v4 @ putPort port @ data
         | None \<Rightarrow> if length ip = 16 then [0, 0, 0] @ [4] @ ip @ putPort port @ data else []))"

text \<open>\<open>UDPAddr.String\<close> of an address without zone.\<close>

definition udpAddrString :: "byte list \<Rightarrow> int \<Rightarrow> string" where
  "udpAddrString ip port = JoinHostPort (ipString ip) (FormatInt port)"

definition udpEndpointKey :: "string \<Rightarrow> string" where
  "udpEndpointKey addr =
     (case splitIPPort (Some addr) of None \<Rightarrow> addr
      | Some (ip, port) \<Rightarrow> JoinHostPort (ipString (case To4 ip of Some v4 \<Rightarrow> v4 | None \<Rightarrow> ip)) (FormatInt port))"

definition copyUDPAddr :: "string \<Rightarrow> string" where
  "copyUDPAddr addr =
     (case splitIPPort (Some addr) of None \<Rightarrow> addr
      | Some (ip, port) \<Rightarrow> udpAddrString (case To4 ip of Some v4 \<Rightarrow> v4 | None \<Rightarrow> ip) port)"

definition pickUDPIP :: "resolved \<Rightarrow> byte list \<Rightarrow> byte list" where
  "pickUDPIP res listenIP =
     (if listenIP = [] then []
      else case find (\<lambda>a. a \<noteq> [] \<and> (To4 a \<noteq> None) = (To4 listenIP \<noteq> None)) (rv_All res) of
             None \<Rightarrow> []
           | Some a \<Rightarrow> (case To4 a of Some v4 \<Rightarrow> v4 | None \<Rightarrow> a))"

definition udpFamilyMismatch :: "byte list \<Rightarrow> byte list \<Rightarrow> bool" where
  "udpFamilyMismatch listenIP dest = (if listenIP = [] \<or> dest = [] then True else (To4 listenIP \<noteq> None) \<noteq> (To4 dest \<noteq> None))"

subsection \<open>UDP ASSOCIATE\<close>

record udpNamePin =
  un_ip :: "byte list"
  un_deny :: bool

record udp_env =
  ux_lookup :: "string \<Rightarrow> byte list list option"
  ux_own :: own_env

text \<open>The pins after it, the address (empty if none), and whether the target is denied.\<close>

definition selectUDPDest ::
    "go_env \<Rightarrow> udp_env \<Rightarrow> Spec \<Rightarrow> byte list \<Rightarrow> string \<Rightarrow> string \<Rightarrow> (string, udpNamePin) gomap \<Rightarrow> (string, udpNamePin) gomap \<times> byte list \<times> bool" where
  "selectUDPDest u ev sp listenIP host0 port0 pins =
     (let host = TrimSpace u host0; port = TrimSpace u port0; t = px_Targets (sp_Proxy sp)
      in if host = [] \<or> port = [] then (pins, [], True)
         else case ParseIP host of
           Some ip0 \<Rightarrow> (let ip = (case To4 ip0 of Some v4 \<Rightarrow> v4 | None \<Rightarrow> ip0)
                        in if denyIP t ip \<or> udpFamilyMismatch listenIP ip then (pins, [], True) else (pins, ip, False))
         | None \<Rightarrow>
           (let key = ToLower u host
            in case map_of pins key of Some pin \<Rightarrow> (pins, un_ip pin, un_deny pin)
               | None \<Rightarrow>
                 (case resolveThenGuard u (ux_lookup ev) t host port of
                    Inl _ \<Rightarrow> (AList.update key \<lparr>un_ip = [], un_deny = True\<rparr> pins, [], True)
                  | Inr res \<Rightarrow>
                    let ip = pickUDPIP res listenIP
                    in if ip = [] then (AList.update key \<lparr>un_ip = [], un_deny = True\<rparr> pins, [], True)
                       else (AList.update key \<lparr>un_ip = ip, un_deny = False\<rparr> pins, ip, False))))"

definition socksUDPMaxPayload :: int where "socksUDPMaxPayload = 65536"
definition socksUDPMaxDatagrams :: int where "socksUDPMaxDatagrams = 4096"

text \<open>The pins after it, and the datagram it writes with the name of its target.\<close>

definition forwardSOCKSUDPClient ::
    "go_env \<Rightarrow> udp_env \<Rightarrow> Spec \<Rightarrow> byte list \<Rightarrow> byte list \<Rightarrow> (string, udpNamePin) gomap \<Rightarrow>
     (string, udpNamePin) gomap \<times> (string \<times> byte list \<times> int \<times> byte list) option" where
  "forwardSOCKSUDPClient u ev sp listenIP pkt pins =
     (case parseSOCKSUDP pkt of None \<Rightarrow> (pins, None)
      | Some (host, port, data) \<Rightarrow>
        if int (length data) > socksUDPMaxPayload then (pins, None)
        else case selectUDPDest u ev sp listenIP host port pins of (pins', ip, deny) \<Rightarrow>
          if deny \<or> ip = [] then (pins', None)
          else case Atoi port of None \<Rightarrow> (pins', None)
          | Some p \<Rightarrow>
            if p < 0 \<or> p > 65535 then (pins', None)
            else if isHairpin u (ux_own ev) \<lparr>rv_Host = host, rv_Port = port, rv_Selected = ip, rv_All = [ip]\<rparr> (sp_Listeners sp) then (pins', None)
            else (pins', Some (JoinHostPort host port, ip, p, data)))"

record udp_state =
  us_client :: "string option"
  us_pins :: "(string, udpNamePin) gomap"
  us_origins :: "string list"
  us_inboundN :: int
  us_inboundB :: int
  us_datagrams :: int
  us_lastDest :: string
  us_lastRelay :: gotime
  us_truncated :: bool

text \<open>A datagram that arrives: when, what, from whom, and whether the write it leads to succeeds.\<close>

record udp_event =
  ue_at :: gotime
  ue_pkt :: "byte list"
  ue_from :: "string option"
  ue_ok :: bool

datatype udp_send = ToOrigin "byte list" int "byte list" | ToClient string "byte list"

definition fromClient :: "go_env \<Rightarrow> udp_env \<Rightarrow> Spec \<Rightarrow> byte list \<Rightarrow> udp_event \<Rightarrow> udp_state \<Rightarrow> udp_state \<times> udp_send option" where
  "fromClient u ev sp listenIP e st =
     (case forwardSOCKSUDPClient u ev sp listenIP (ue_pkt e) (us_pins st) of
        (pins, None) \<Rightarrow> (st\<lparr>us_pins := pins\<rparr>, None)
      | (pins, Some (name, ip, port, data)) \<Rightarrow>
        (if \<not> ue_ok e then st\<lparr>us_pins := pins\<rparr>
         else st\<lparr>us_pins := pins, us_datagrams := us_datagrams st + 1, us_lastDest := name,
                 us_origins := List.insert (udpEndpointKey (udpAddrString ip port)) (us_origins st), us_lastRelay := ue_at e\<rparr>,
         Some (ToOrigin ip port data)))"

definition fromOrigin :: "int \<Rightarrow> string \<Rightarrow> udp_event \<Rightarrow> udp_state \<Rightarrow> udp_state \<times> udp_send option" where
  "fromOrigin maxIn client e st =
     (let n = int (length (ue_pkt e))
      in if n > socksUDPMaxPayload then (st, None)
         else if us_inboundN st \<ge> socksUDPMaxDatagrams \<or> us_inboundB st + n > maxIn then (st\<lparr>us_truncated := True\<rparr>, None)
         else let enc = encodeSOCKSUDP (ue_from e) (ue_pkt e)
              in if enc = [] then (st, None)
                 else (if \<not> ue_ok e then st
                       else st\<lparr>us_inboundN := us_inboundN st + 1, us_inboundB := us_inboundB st + n,
                               us_datagrams := us_datagrams st + 1, us_lastRelay := ue_at e\<rparr>, Some (ToClient client enc)))"

definition relayEvent :: "go_env \<Rightarrow> udp_env \<Rightarrow> Spec \<Rightarrow> byte list \<Rightarrow> int \<Rightarrow> udp_event \<Rightarrow> udp_state \<Rightarrow> udp_state \<times> udp_send option" where
  "relayEvent u ev sp listenIP maxIn e st =
     (case ue_from e of None \<Rightarrow> (st, None)
      | Some from \<Rightarrow>
        if ue_pkt e = [] then (st, None)
        else case us_client st of
          None \<Rightarrow> fromClient u ev sp listenIP e (st\<lparr>us_client := Some (copyUDPAddr from)\<rparr>)
        | Some client \<Rightarrow>
          if sameEndpoint u (oe_ifaces (ux_own ev)) from client then fromClient u ev sp listenIP e st
          else if udpEndpointKey from \<notin> set (us_origins st) then (st, None)
          else fromOrigin maxIn client e st)"

text \<open>The loop ends when the read fails: at the end of what arrives, or when nothing arrived before the
  deadline. What was written is collected, the latest first.\<close>

fun relayLoop ::
    "go_env \<Rightarrow> udp_env \<Rightarrow> Spec \<Rightarrow> byte list \<Rightarrow> int \<Rightarrow> gotime \<Rightarrow> duration \<Rightarrow> udp_event list \<Rightarrow> udp_state \<Rightarrow> (udp_event \<times> udp_send) list \<Rightarrow>
     udp_state \<times> (udp_event \<times> udp_send) list" where
  "relayLoop u ev sp listenIP maxIn sessionEnd idle [] st tr = (st, tr)"
| "relayLoop u ev sp listenIP maxIn sessionEnd idle (e # es) st tr =
     (if ue_at e > min (us_lastRelay st + idle) sessionEnd then (st, tr)
      else case relayEvent u ev sp listenIP maxIn e st of
             (st', None) \<Rightarrow> relayLoop u ev sp listenIP maxIn sessionEnd idle es st' tr
           | (st', Some sent) \<Rightarrow> relayLoop u ev sp listenIP maxIn sessionEnd idle es st' ((e, sent) # tr))"

definition inFlightLimit :: "AdmissionSpec \<Rightarrow> int" where
  "inFlightLimit ad = (if ad_MaxInFlightBytes ad \<le> 0 then 64 * 2 ^ 20 else ad_MaxInFlightBytes ad)"

definition relaySOCKSUDP :: "go_env \<Rightarrow> udp_env \<Rightarrow> Spec \<Rightarrow> byte list \<Rightarrow> gotime \<Rightarrow> udp_event list \<Rightarrow> udp_state \<times> (udp_event \<times> udp_send) list" where
  "relaySOCKSUDP u ev sp listenIP now es =
     (let ad = px_Admission (sp_Proxy sp);
          sessionEnd = now + (if ad_SessionTimeout ad \<le> 0 then 600 * 10 ^ 9 else ad_SessionTimeout ad);
          idle = (if ad_IdleTimeout ad \<le> 0 then 120 * 10 ^ 9 else ad_IdleTimeout ad)
      in relayLoop u ev sp listenIP (inFlightLimit ad) sessionEnd idle es
           \<lparr>us_client = None, us_pins = [], us_origins = [], us_inboundN = 0, us_inboundB = 0, us_datagrams = 0, us_lastDest = '''',
            us_lastRelay = now, us_truncated = False\<rparr> [])"

text \<open>The session: admission, the socket on the control address, the reply, the relay.\<close>

record udp_session =
  uo_written :: "byte list"
  uo_flow :: "string option"
  uo_relay :: "(udp_state \<times> (udp_event \<times> udp_send) list) option"

record udp_serve_env =
  uv_udp :: udp_env
  uv_local :: "string option"
  uv_listen :: "byte list \<Rightarrow> string option"
  uv_accepting :: bool
  uv_write :: "byte list \<Rightarrow> bool"
  uv_now :: gotime
  uv_events :: "udp_event list"

definition listenEphemeralUDP :: "(byte list \<Rightarrow> string option) \<Rightarrow> byte list \<Rightarrow> string option" where
  "listenEphemeralUDP listen controlIP =
     (if \<not> checkBindListenIP controlIP then None else listen (case To4 controlIP of Some v4 \<Rightarrow> v4 | None \<Rightarrow> controlIP))"

definition udpAdmitted :: "go_env \<Rightarrow> udp_serve_env \<Rightarrow> Spec \<Rightarrow> socksDest \<Rightarrow> udp_session" where
  "udpAdmitted u ev sp d =
     (let no = (\<lambda>flow. \<lparr>uo_written = replySOCKS d 1, uo_flow = flow, uo_relay = None\<rparr>)
      in case unicastControlIP (uv_local ev) of None \<Rightarrow> no None
         | Some controlIP \<Rightarrow>
           (case listenEphemeralUDP (uv_listen ev) controlIP of None \<Rightarrow> no (Some ''listen'')
            | Some local \<Rightarrow>
              if \<not> uv_accepting ev then no None
              else case SplitHostPort local of None \<Rightarrow> no None
              | Some (_, bndPortStr) \<Rightarrow>
                (case Atoi bndPortStr of None \<Rightarrow> no None
                 | Some bndPort \<Rightarrow>
                   let reply = writeSOCKS5ReplyAddr 0 controlIP bndPort
                   in if \<not> uv_write ev reply then \<lparr>uo_written = [], uo_flow = None, uo_relay = None\<rparr>
                      else \<lparr>uo_written = reply, uo_flow = Some '''', uo_relay = Some (relaySOCKSUDP u (uv_udp ev) sp controlIP (uv_now ev) (uv_events ev))\<rparr>)))"

definition serveSOCKSUDP :: "go_env \<Rightarrow> udp_serve_env \<Rightarrow> Spec \<Rightarrow> ipaddr option \<Rightarrow> socksDest \<Rightarrow> gate \<Rightarrow> gate \<times> gate \<times> udp_session" where
  "serveSOCKSUDP u ev sp client d g =
     (case acquire client (px_Admission (sp_Proxy sp)) g of
        (g1, Some e) \<Rightarrow> (g1, g1, \<lparr>uo_written = replySOCKS d 1, uo_flow = None, uo_relay = None\<rparr>)
      | (g1, None) \<Rightarrow> (g1, release client g1, udpAdmitted u ev sp d))"

end
