(* ===== verification/Proxy_Relay_Props.thy ===== *)
theory Proxy_Relay_Props
  imports Proxy_Relay
begin

text \<open>
  What the SOCKS relays guarantee: a BIND session connects the client only with a peer the guard let
  pass, a UDP session sends only to addresses the guard let pass and takes back only what such
  addresses answer, within its limits.
\<close>

subsection \<open>Addresses\<close>

lemma To4_Some: "To4 ip = Some v4 \<Longrightarrow> length v4 = 4"
  by (auto simp: To4_def split: if_splits)

lemma To4_4: "length ip = 4 \<Longrightarrow> To4 ip = Some ip"
  by (simp add: To4_def)

lemma forbidden_To4: "To4 ip = Some v4 \<Longrightarrow> forbidden t v4 = forbidden t ip"
proof -
  assume a: "To4 ip = Some v4"
  from To4_Some[OF a] have "v4of v4 = Some v4" by (simp add: v4of_def)
  moreover from a have "v4of ip = Some v4" by (auto simp: v4of_def To4_def split: if_splits)
  ultimately show ?thesis by (simp add: forbidden_def)
qed

definition sendable :: "TargetsSpec \<Rightarrow> byte list \<Rightarrow> byte list \<Rightarrow> bool" where
  "sendable t listenIP ip \<longleftrightarrow> (length ip = 4 \<or> length ip = 16) \<and> \<not> forbidden t ip \<and> (To4 ip \<noteq> None) = (To4 listenIP \<noteq> None)"

lemma pickUDPIP_sendable:
  assumes "resolveThenGuard u lookupIP t host port = Inr res" and "pickUDPIP res listenIP = ip" and "ip \<noteq> []"
  shows "sendable t listenIP ip"
proof -
  from assms(2,3) obtain a where a: "find (\<lambda>a. a \<noteq> [] \<and> (To4 a \<noteq> None) = (To4 listenIP \<noteq> None)) (rv_All res) = Some a"
    and ip: "ip = (case To4 a of Some v4 \<Rightarrow> v4 | None \<Rightarrow> a)"
    by (auto simp: pickUDPIP_def split: if_splits option.splits)
  from a have m: "a \<in> set (rv_All res)" "(To4 a \<noteq> None) = (To4 listenIP \<noteq> None)" by (auto simp: find_Some_iff)
  from guard_accepted(2)[OF assms(1) m(1)] m(2) ip show ?thesis
    by (cases "To4 a") (auto simp: sendable_def forbidden_To4 To4_4 dest: To4_Some)
qed

text \<open>The guard accepted the host, or the same name in other letters, and the address is one of those it accepted for it, in its
  short form.\<close>

definition guardedFor :: "go_env \<Rightarrow> (string \<Rightarrow> byte list list option) \<Rightarrow> TargetsSpec \<Rightarrow> string \<Rightarrow> byte list \<Rightarrow> bool" where
  "guardedFor u lookupIP t host ip \<longleftrightarrow>
     (\<exists>host' port res a. (host' = host \<or> ToLower u host' = ToLower u (TrimSpace u host)) \<and> resolveThenGuard u lookupIP t host' port = Inr res
        \<and> a \<in> set (rv_All res) \<and> ip = (case To4 a of Some v4 \<Rightarrow> v4 | None \<Rightarrow> a))"

text \<open>A pin is one of the addresses the guard accepted for a name with its key.\<close>

definition pinGuarded :: "go_env \<Rightarrow> (string \<Rightarrow> byte list list option) \<Rightarrow> TargetsSpec \<Rightarrow> byte list \<Rightarrow> string \<Rightarrow> byte list \<Rightarrow> bool" where
  "pinGuarded u lookupIP t listenIP key ip \<longleftrightarrow>
     (\<exists>host port res. ToLower u host = key \<and> resolveThenGuard u lookupIP t host port = Inr res \<and> ip = pickUDPIP res listenIP)"

definition pinsOK :: "go_env \<Rightarrow> (string \<Rightarrow> byte list list option) \<Rightarrow> TargetsSpec \<Rightarrow> byte list \<Rightarrow> (string, udpNamePin) gomap \<Rightarrow> bool" where
  "pinsOK u lookupIP t listenIP pins \<longleftrightarrow>
     (\<forall>k pin. map_of pins k = Some pin \<longrightarrow> un_deny pin \<or> un_ip pin = [] \<or> pinGuarded u lookupIP t listenIP k (un_ip pin))"

lemma pinsOK_update: "pinsOK u lookupIP t l pins \<Longrightarrow> un_deny pin \<or> un_ip pin = [] \<or> pinGuarded u lookupIP t l k (un_ip pin) \<Longrightarrow>
    pinsOK u lookupIP t l (AList.update k pin pins)"
  by (auto simp: pinsOK_def update_conv')

lemma find_in: "find P xs = Some a \<Longrightarrow> a \<in> set xs \<and> P a"
  by (auto simp: find_Some_iff)

lemma pinGuarded_ok:
  assumes "pinGuarded u lookupIP t listenIP (ToLower u (TrimSpace u host)) ip" and "ip \<noteq> []"
  shows "sendable t listenIP ip \<and> guardedFor u lookupIP t host ip"
proof -
  obtain host' port res where r: "ToLower u host' = ToLower u (TrimSpace u host)" "resolveThenGuard u lookupIP t host' port = Inr res" "ip = pickUDPIP res listenIP"
    using assms(1) by (auto simp: pinGuarded_def)
  obtain a where "a \<in> set (rv_All res)" "ip = (case To4 a of Some v4 \<Rightarrow> v4 | None \<Rightarrow> a)"
    using r(3) assms(2) by (auto simp: pickUDPIP_def split: if_splits option.splits dest!: find_in)
  with r assms(2) pickUDPIP_sendable[OF r(2) refl] show ?thesis unfolding guardedFor_def by blast
qed

lemma literal_ok:
  assumes "ParseIP (TrimSpace u host) = Some ip0" and "ip = (case To4 ip0 of Some v4 \<Rightarrow> v4 | None \<Rightarrow> ip0)" and "TrimSpace u host \<noteq> []" and "TrimSpace u port \<noteq> []"
    and "\<not> denyIP t ip" and "\<not> udpFamilyMismatch listenIP ip"
  shows "sendable t listenIP ip \<and> guardedFor u lookupIP t host ip"
proof
  show "sendable t listenIP ip" using assms(5,6) by (auto simp: sendable_def udpFamilyMismatch_def denyIP_exact split: if_splits)
  have "\<not> denyIP t ip0" using assms(2,5) ParseIP_length[OF assms(1)] by (cases "To4 ip0") (auto simp: denyIP_exact forbidden_To4 dest: To4_Some)
  then have "resolveThenGuard u lookupIP t host port = Inr \<lparr>rv_Host = TrimSpace u host, rv_Port = TrimSpace u port, rv_Selected = pickAddr [ip0], rv_All = [ip0]\<rparr>"
    using assms(1,3,4) by (simp add: resolveThenGuard_def guardAddrs_def)
  then show "guardedFor u lookupIP t host ip" using assms(2) unfolding guardedFor_def by fastforce
qed

lemma selectUDPDest_ok:
  assumes "pinsOK u (ux_lookup ev) (px_Targets (sp_Proxy sp)) listenIP pins" and "selectUDPDest u ev sp listenIP host port pins = (pins', ip, deny)"
  shows "pinsOK u (ux_lookup ev) (px_Targets (sp_Proxy sp)) listenIP pins'"
    and "\<not> deny \<Longrightarrow> ip \<noteq> [] \<Longrightarrow> sendable (px_Targets (sp_Proxy sp)) listenIP ip \<and> guardedFor u (ux_lookup ev) (px_Targets (sp_Proxy sp)) host ip"
proof -
  let ?t = "px_Targets (sp_Proxy sp)" and ?l = "ux_lookup ev" and ?h = "TrimSpace u host" and ?p = "TrimSpace u port"
  have "pinsOK u ?l ?t listenIP pins' \<and> (\<not> deny \<longrightarrow> ip \<noteq> [] \<longrightarrow> sendable ?t listenIP ip \<and> guardedFor u ?l ?t host ip)"
  proof (cases "?h = [] \<or> ?p = []")
    case True
    with assms show ?thesis by (auto simp: selectUDPDest_def Let_def)
  next
    case named: False
    show ?thesis
    proof (cases "ParseIP ?h")
      case (Some ip0)
      with named assms literal_ok[OF Some refl] show ?thesis by (auto simp: selectUDPDest_def Let_def split: if_splits)
    next
      case lit: None
      show ?thesis
      proof (cases "map_of pins (ToLower u ?h)")
        case (Some pin)
        then have "un_deny pin \<or> un_ip pin = [] \<or> pinGuarded u ?l ?t listenIP (ToLower u ?h) (un_ip pin)" using assms(1) by (auto simp: pinsOK_def)
        with Some named lit assms pinGuarded_ok[of u ?l ?t listenIP host "un_ip pin"] show ?thesis by (auto simp: selectUDPDest_def Let_def)
      next
        case None
        show ?thesis
        proof (cases "resolveThenGuard u ?l ?t ?h ?p")
          case (Inl er)
          with named lit None assms show ?thesis by (auto simp: selectUDPDest_def Let_def intro: pinsOK_update)
        next
          case (Inr res)
          have g: "pinGuarded u ?l ?t listenIP (ToLower u ?h) (pickUDPIP res listenIP)" unfolding pinGuarded_def using Inr by blast
          with named lit None Inr assms pinGuarded_ok[OF g] show ?thesis
            by (auto simp: selectUDPDest_def Let_def split: if_splits intro: pinsOK_update)
        qed
      qed
    qed
  qed
  then show "pinsOK u ?l ?t listenIP pins'" and "\<not> deny \<Longrightarrow> ip \<noteq> [] \<Longrightarrow> sendable ?t listenIP ip \<and> guardedFor u ?l ?t host ip" by auto
qed

subsection \<open>What a trace must satisfy\<close>

definition toOriginOK :: "go_env \<Rightarrow> udp_env \<Rightarrow> Spec \<Rightarrow> byte list \<Rightarrow> byte list \<Rightarrow> byte list \<Rightarrow> int \<Rightarrow> byte list \<Rightarrow> bool" where
  "toOriginOK u ev sp listenIP pkt ip port data \<longleftrightarrow>
     sendable (px_Targets (sp_Proxy sp)) listenIP ip \<and> 0 \<le> port \<and> port \<le> 65535 \<and> int (length data) \<le> socksUDPMaxPayload
     \<and> (\<exists>host ps. parseSOCKSUDP pkt = Some (host, ps, data) \<and> Atoi ps = Some port
          \<and> guardedFor u (ux_lookup ev) (px_Targets (sp_Proxy sp)) host ip
          \<and> \<not> isHairpin u (ux_own ev) \<lparr>rv_Host = host, rv_Port = ps, rv_Selected = ip, rv_All = [ip]\<rparr> (sp_Listeners sp))"

definition wroteTo :: "string \<Rightarrow> (udp_event \<times> udp_send) list \<Rightarrow> bool" where
  "wroteTo key tr \<longleftrightarrow> (\<exists>e ip port data. (e, ToOrigin ip port data) \<in> set tr \<and> ue_ok e \<and> udpEndpointKey (udpAddrString ip port) = key)"

primrec traceOK :: "go_env \<Rightarrow> udp_env \<Rightarrow> Spec \<Rightarrow> byte list \<Rightarrow> string \<Rightarrow> (udp_event \<times> udp_send) list \<Rightarrow> bool" where
  "traceOK u ev sp listenIP client [] \<longleftrightarrow> True"
| "traceOK u ev sp listenIP client (x # tr) \<longleftrightarrow> traceOK u ev sp listenIP client tr \<and>
     (\<exists>src. ue_from (fst x) = Some src \<and>
       (case snd x of
          ToOrigin ip port data \<Rightarrow> toOriginOK u ev sp listenIP (ue_pkt (fst x)) ip port data
            \<and> (copyUDPAddr src = client \<or> sameEndpoint u (oe_ifaces (ux_own ev)) src client)
        | ToClient c enc \<Rightarrow> c = client \<and> enc = encodeSOCKSUDP (Some src) (ue_pkt (fst x)) \<and> wroteTo (udpEndpointKey src) tr))"

definition delivered :: "(udp_event \<times> udp_send) list \<Rightarrow> udp_event list" where
  "delivered tr = map fst (filter (\<lambda>(e, s). ue_ok e \<and> (case s of ToClient _ _ \<Rightarrow> True | _ \<Rightarrow> False)) tr)"

definition relayInv :: "go_env \<Rightarrow> udp_env \<Rightarrow> Spec \<Rightarrow> byte list \<Rightarrow> int \<Rightarrow> udp_state \<Rightarrow> (udp_event \<times> udp_send) list \<Rightarrow> bool" where
  "relayInv u ev sp listenIP maxIn st tr \<longleftrightarrow>
     (case us_client st of None \<Rightarrow> tr = [] | Some c \<Rightarrow> traceOK u ev sp listenIP c tr)
     \<and> pinsOK u (ux_lookup ev) (px_Targets (sp_Proxy sp)) listenIP (us_pins st) \<and> (\<forall>k \<in> set (us_origins st). wroteTo k tr)
     \<and> us_inboundN st = int (length (delivered tr)) \<and> us_inboundB st = (\<Sum>e \<leftarrow> delivered tr. int (length (ue_pkt e)))
     \<and> us_inboundN st \<le> socksUDPMaxDatagrams \<and> us_inboundB st \<le> maxIn
     \<and> us_datagrams st = int (length (filter (\<lambda>(e, s). ue_ok e) tr))"

lemma wroteTo_Cons: "wroteTo k tr \<Longrightarrow> wroteTo k (x # tr)"
  by (auto simp: wroteTo_def)

lemma forward_ok:
  assumes "pinsOK u (ux_lookup ev) (px_Targets (sp_Proxy sp)) listenIP pins" and "forwardSOCKSUDPClient u ev sp listenIP pkt pins = (pins', r)"
  shows "pinsOK u (ux_lookup ev) (px_Targets (sp_Proxy sp)) listenIP pins' \<and> (case r of None \<Rightarrow> True | Some (name, ip, port, data) \<Rightarrow> toOriginOK u ev sp listenIP pkt ip port data)"
proof (cases "parseSOCKSUDP pkt")
  case None
  with assms show ?thesis by (auto simp: forwardSOCKSUDPClient_def)
next
  case (Some q)
  obtain host ps data where q: "q = (host, ps, data)" by (cases q) auto
  obtain pins1 ip deny where sel: "selectUDPDest u ev sp listenIP host ps pins = (pins1, ip, deny)" by (cases "selectUDPDest u ev sp listenIP host ps pins") auto
  note s = selectUDPDest_ok[OF assms(1) sel]
  from assms Some q sel s show ?thesis
    by (auto simp: forwardSOCKSUDPClient_def toOriginOK_def split: if_splits option.splits)
qed

lemma fromClient_inv:
  assumes "relayInv u ev sp listenIP maxIn st tr" and "us_client st = Some c" and "ue_from e = Some src"
    and "copyUDPAddr src = c \<or> sameEndpoint u (oe_ifaces (ux_own ev)) src c"
    and "fromClient u ev sp listenIP e st = (st', s)"
  shows "relayInv u ev sp listenIP maxIn st' (case s of None \<Rightarrow> tr | Some x \<Rightarrow> (e, x) # tr)"
proof -
  obtain pins r where f: "forwardSOCKSUDPClient u ev sp listenIP (ue_pkt e) (us_pins st) = (pins, r)" by fastforce
  from assms(1) have "pinsOK u (ux_lookup ev) (px_Targets (sp_Proxy sp)) listenIP (us_pins st)" by (simp add: relayInv_def)
  note ok = forward_ok[OF this f]
  show ?thesis
  proof (cases r)
    case None
    with assms f ok show ?thesis by (auto simp: fromClient_def relayInv_def)
  next
    case (Some q)
    obtain name ip port data where q: "q = (name, ip, port, data)" by (cases q) auto
    let ?x = "(e, ToOrigin ip port data)"
    have s: "s = Some (ToOrigin ip port data)" using assms(5) f Some q by (auto simp: fromClient_def)
    have w: "ue_ok e \<Longrightarrow> wroteTo (udpEndpointKey (udpAddrString ip port)) (?x # tr)" by (auto simp: wroteTo_def)
    from assms f Some q s ok w wroteTo_Cons[of _ tr ?x] show ?thesis
      by (cases "ue_ok e") (auto simp: fromClient_def relayInv_def delivered_def)
  qed
qed

lemma fromOrigin_inv:
  assumes "relayInv u ev sp listenIP maxIn st tr" and "us_client st = Some c" and "ue_from e = Some src"
    and "udpEndpointKey src \<in> set (us_origins st)" and "fromOrigin maxIn c e st = (st', s)"
  shows "relayInv u ev sp listenIP maxIn st' (case s of None \<Rightarrow> tr | Some x \<Rightarrow> (e, x) # tr)"
  using assms wroteTo_Cons[of _ tr "(e, ToClient c (encodeSOCKSUDP (Some src) (ue_pkt e)))"]
  by (auto simp: fromOrigin_def Let_def relayInv_def delivered_def split: if_splits)

lemma relayEvent_inv:
  assumes "relayInv u ev sp listenIP maxIn st tr" and "relayEvent u ev sp listenIP maxIn e st = (st', s)"
  shows "relayInv u ev sp listenIP maxIn st' (case s of None \<Rightarrow> tr | Some x \<Rightarrow> (e, x) # tr)"
proof (cases "ue_from e = None \<or> ue_pkt e = []")
  case True
  with assms show ?thesis by (auto simp: relayEvent_def split: option.splits)
next
  case False
  then obtain src where src: "ue_from e = Some src" by auto
  show ?thesis
  proof (cases "us_client st")
    case None
    let ?st = "st\<lparr>us_client := Some (copyUDPAddr src)\<rparr>"
    from assms(1) None have "relayInv u ev sp listenIP maxIn ?st tr" by (auto simp: relayInv_def)
    from fromClient_inv[OF this _ src, of "copyUDPAddr src" st' s] assms(2) None False src show ?thesis by (simp add: relayEvent_def)
  next
    case (Some c)
    with assms False src fromClient_inv[OF assms(1) Some src, of st' s] fromOrigin_inv[OF assms(1) Some src, of st' s]
    show ?thesis by (auto simp: relayEvent_def split: if_splits)
  qed
qed

lemma relayLoop_inv:
  "relayInv u ev sp listenIP maxIn st tr \<Longrightarrow> relayLoop u ev sp listenIP maxIn sessionEnd idle es st tr = (st', tr') \<Longrightarrow>
     relayInv u ev sp listenIP maxIn st' tr'"
proof (induction es arbitrary: st tr)
  case (Cons e es)
  obtain st1 s where r: "relayEvent u ev sp listenIP maxIn e st = (st1, s)" by fastforce
  note i = relayEvent_inv[OF Cons.prems(1) r]
  from Cons.prems(2) Cons.prems(1) r i Cons.IH[of st1 tr] Cons.IH[of st1 "(e, the s) # tr"] show ?case
    by (auto split: if_splits option.splits)
qed simp

text \<open>(C22) The UDP relay is closed. Whatever datagrams arrive, in any order, from anyone: each one it sends out
  goes to one of the addresses the guard accepted for the host the datagram names (a name that was resolved before keeps
  its address, whatever the case of its letters), not a forbidden one, of the family of the socket, not an own
  listener, and was sent by the one client the session is pinned to; each one it hands the client is
  the wrapped packet of an address it had successfully written to before; at most 4096 are handed
  over, with at most the configured number of bytes in all; and the counter it reports is the number
  of datagrams relayed.\<close>

theorem udp_relay_is_closed:
  assumes "relaySOCKSUDP u ev sp listenIP now es = (st, tr)"
  shows "(\<exists>client. traceOK u ev sp listenIP client tr) \<and> int (length (delivered tr)) \<le> socksUDPMaxDatagrams
    \<and> (\<Sum>e \<leftarrow> delivered tr. int (length (ue_pkt e))) \<le> inFlightLimit (px_Admission (sp_Proxy sp))
    \<and> us_datagrams st = int (length (filter (\<lambda>(e, s). ue_ok e) tr))"
proof -
  let ?st0 = "\<lparr>us_client = None, us_pins = [], us_origins = [], us_inboundN = 0, us_inboundB = 0, us_datagrams = 0, us_lastDest = '''',
            us_lastRelay = now, us_truncated = False\<rparr>"
  have "relayInv u ev sp listenIP (inFlightLimit (px_Admission (sp_Proxy sp))) ?st0 []"
    by (simp add: relayInv_def pinsOK_def delivered_def socksUDPMaxDatagrams_def inFlightLimit_def)
  from relayLoop_inv[OF this] assms have "relayInv u ev sp listenIP (inFlightLimit (px_Admission (sp_Proxy sp))) st tr"
    by (auto simp: relaySOCKSUDP_def Let_def)
  then show ?thesis by (cases "us_client st") (auto simp: relayInv_def)
qed

definition exUdpEnv :: udp_env where
  "exUdpEnv = \<lparr>ux_lookup = (\<lambda>_. None), ux_own = \<lparr>oe_ifaces = [], oe_proxy = None, oe_origDest = None, oe_binds = []\<rparr>\<rparr>"

definition exDatagrams :: "udp_event list" where
  "exDatagrams = [\<lparr>ue_at = 1, ue_pkt = [0, 0, 0, 1, 10, 0, 0, 9, 0, 53, 7], ue_from = Some ''10.0.0.1:40'', ue_ok = True\<rparr>,
     \<lparr>ue_at = 2, ue_pkt = [8, 9], ue_from = Some ''10.0.0.9:53'', ue_ok = True\<rparr>,
     \<lparr>ue_at = 3, ue_pkt = [1], ue_from = Some ''10.0.0.8:53'', ue_ok = True\<rparr>]"

theorem udp_relay_is_closed_witness:
  "\<exists>st tr client. relaySOCKSUDP ascii_env exUdpEnv (st_Spec exState) [10, 0, 0, 2] 0 exDatagrams = (st, tr)
    \<and> map snd tr = [ToClient ''10.0.0.1:40'' [0, 0, 0, 1, 10, 0, 0, 9, 0, 53, 8, 9], ToOrigin [10, 0, 0, 9] 53 [7]]
    \<and> traceOK ascii_env exUdpEnv (st_Spec exState) [10, 0, 0, 2] client tr \<and> us_datagrams st = 2"
proof -
  let ?r = "relaySOCKSUDP ascii_env exUdpEnv (st_Spec exState) [10, 0, 0, 2] 0 exDatagrams"
  obtain st tr where r: "?r = (st, tr)" by (cases ?r)
  have "map snd (snd ?r) = [ToClient ''10.0.0.1:40'' [0, 0, 0, 1, 10, 0, 0, 9, 0, 53, 8, 9], ToOrigin [10, 0, 0, 9] 53 [7]]"
    "us_datagrams (fst ?r) = 2" by code_simp+
  with r udp_relay_is_closed[OF r] show ?thesis by auto
qed

subsection \<open>Wrapping\<close>

lemma putPort_uint16: "0 \<le> p \<Longrightarrow> p < 65536 \<Longrightarrow> int (uint16 (putPort p ! 0) (putPort p ! 1)) = p"
  by (simp add: putPort_def uint16_def uint_word_of_int_eq take_bit_int_def)

text \<open>What the relay hands the client names its sender: a datagram that was wrapped with the address it
  came from is unwrapped to the same IP address, the same port and the same payload.\<close>

theorem udp_wrapping_roundtrip:
  assumes "splitIPPort (Some addr) = Some (ip, port)" and "0 \<le> port" and "port < 65536"
  shows "parseSOCKSUDP (encodeSOCKSUDP (Some addr) data) = Some (ipString ip, FormatInt port, data)"
proof -
  from assms(1) have l: "length ip = 16" by (auto simp: splitIPPort_def ParseIP_length split: option.splits)
  have p: "formatNat (uint16 (of_int (port div 256)) (of_int port)) = FormatInt port"
    using putPort_uint16[OF assms(2,3)] assms(2) by (simp add: putPort_def FormatInt_def flip: nat_eq_iff2)
  show ?thesis
  proof (cases "To4 ip")
    case None
    then show ?thesis using assms(1) l p
      by (simp add: encodeSOCKSUDP_def parseSOCKSUDP_def parseSOCKS5AddrBytes_def putPort_def Let_def)
  next
    case (Some v4)
    note l4 = To4_Some[OF Some]
    have "ipString v4 = ipString ip" using Some l4 by (simp add: ipString_def To4_4)
    then show ?thesis using assms(1) l4 Some p
      by (simp add: encodeSOCKSUDP_def parseSOCKSUDP_def parseSOCKS5AddrBytes_def putPort_def Let_def)
  qed
qed

theorem udp_wrapping_roundtrip_witness:
  "parseSOCKSUDP (encodeSOCKSUDP (Some ''[fd00::1]:53'') [1, 2]) = Some (''fd00::1'', ''53'', [1, 2])"
proof -
  let ?ip = "0xfd # replicate 14 0 @ [1] :: byte list"
  have "splitIPPort (Some ''[fd00::1]:53'') = Some (?ip, 53)" "ipString ?ip = ''fd00::1''" "FormatInt 53 = ''53''" by code_simp+
  with udp_wrapping_roundtrip[of "''[fd00::1]:53''" ?ip 53 "[1, 2]"] show ?thesis by simp
qed

subsection \<open>BIND\<close>

lemma bindListening_facts:
  shows "bo_listened (bindListening t ev d res controlIP lnAddr) = Some controlIP"
    and "bo_end (bindListening t ev d res controlIP lnAddr) = BindTunnel ip port \<Longrightarrow>
      \<not> denyIP t ip \<and> ipInResolved ip res \<and> (\<exists>reply1. bo_written (bindListening t ev d res controlIP lnAddr) = [reply1, writeSOCKSBindReply d 0 ip port])"
  by (auto simp: bindListening_def bindAccepted_def Let_def split: option.splits prod.splits if_splits)

lemma unicastControlIP_ok: "unicastControlIP a = Some ip \<Longrightarrow> checkBindListenIP ip"
proof -
  assume "unicastControlIP a = Some ip"
  then obtain ip0 where ip0: "checkBindListenIP ip0" "ip = (case To4 ip0 of Some v4 \<Rightarrow> v4 | None \<Rightarrow> ip0)"
    by (auto simp: unicastControlIP_def split: option.splits prod.splits if_splits)
  then show ?thesis
  proof (cases "To4 ip0")
    case (Some v4)
    from ip0(1) have "\<not> ipIsUnspecified v4" using Some To4_Some[OF Some] To4_4[OF To4_Some[OF Some]] by (auto simp: checkBindListenIP_def ipIsUnspecified_def)
    then show ?thesis using ip0 Some To4_Some[OF Some] by (auto simp: checkBindListenIP_def denyIP_exact forbidden_To4[OF Some])
  qed simp
qed

lemma bindResolved_facts:
  assumes "out = bindResolved u ev sp d"
  shows "bo_listened out = Some ctl \<Longrightarrow> checkBindListenIP ctl"
    and "bo_end out = BindTunnel ip port \<Longrightarrow> \<exists>res reply1. resolveThenGuard u (be_lookup ev) (px_Targets (sp_Proxy sp)) (sd_host d) (sd_port d) = Inr res
      \<and> \<not> denyIP (px_Targets (sp_Proxy sp)) ip \<and> ipInResolved ip res \<and> bo_written out = [reply1, writeSOCKSBindReply d 0 ip port]"
  unfolding assms
  by (auto simp: bindResolved_def Let_def bindListening_facts(1) dest: unicastControlIP_ok bindListening_facts(2)
      split: sum.splits guard_error.splits option.splits if_splits)

text \<open>(C39) A BIND session relays only for the announced peer: it listens, if at all, on an address that is
  neither unspecified nor link-local nor a metadata address; it connects the client only with a peer
  whose address is one of those the guard accepted for the requested host and is not forbidden itself,
  has written the client the success reply with that address and port, and holds an admitted slot
  meanwhile; and it gives the slot back exactly, however it ends.\<close>

theorem bind_relays_only_announced_peer:
  assumes "gate_reach g M" and "serveSOCKSBind u ev sp client d g = (g1, g2, out)"
  shows "gateCounts g2 M
    \<and> (case bo_listened out of None \<Rightarrow> True
       | Some ctl \<Rightarrow> \<not> ipIsUnspecified ctl \<and> \<not> inPrefixes (Unmap (the (AddrFromSlice ctl))) (metadataCIDRs @ linkLocalCIDRs))
    \<and> (case bo_end out of BindClosed \<Rightarrow> True
       | BindTunnel ip port \<Rightarrow> gateCounts g1 (add_mset client M)
         \<and> (\<exists>res a reply1. resolveThenGuard u (be_lookup ev) (px_Targets (sp_Proxy sp)) (sd_host d) (sd_port d) = Inr res
              \<and> a \<in> set (rv_All res) \<and> ipEqual a ip \<and> \<not> forbidden (px_Targets (sp_Proxy sp)) ip
              \<and> bo_written out = [reply1, writeSOCKSBindReply d 0 ip port]))"
proof -
  note c = gate_reach_counts[OF assms(1)]
  have listen: "\<not> ipIsUnspecified ctl \<and> \<not> inPrefixes (Unmap (the (AddrFromSlice ctl))) (metadataCIDRs @ linkLocalCIDRs)" if "checkBindListenIP ctl" for ctl
    using that by (auto simp: checkBindListenIP_def denyIP_def inPrefixes_def Let_def split: option.splits if_splits)
  have slot: "gateCounts g2 M \<and> (out \<noteq> bindResolved u ev sp d \<longrightarrow> bo_listened out = None \<and> bo_end out = BindClosed)
      \<and> (bo_end out \<noteq> BindClosed \<longrightarrow> gateCounts g1 (add_mset client M))"
  proof (cases "socksUnspecifiedDST u (sd_host d) (sd_port d)")
    case True
    with assms(2) have "g2 = g" "bo_listened out = None" "bo_end out = BindClosed" by (auto simp: serveSOCKSBind_def)
    with c show ?thesis by simp
  next
    case named: False
    obtain h e where a: "acquire client (px_Admission (sp_Proxy sp)) g = (h, e)" by fastforce
    show ?thesis
    proof (cases e)
      case None
      with a gateCounts_acquire[OF c] have g1: "gateCounts h (add_mset client M)" by simp
      with gateCounts_release[OF g1, of client] a None named assms(2) show ?thesis by (auto simp: serveSOCKSBind_def)
    next
      case (Some er)
      then have "h = g" using a by (auto simp: acquire_def split: if_splits)
      with a Some named assms(2) have "g2 = g" "bo_listened out = None" "bo_end out = BindClosed" by (auto simp: serveSOCKSBind_def)
      with c show ?thesis by simp
    qed
  qed
  show ?thesis
  proof (cases "out = bindResolved u ev sp d")
    case True
    note f = bindResolved_facts[OF True]
    have "\<exists>res a reply1. resolveThenGuard u (be_lookup ev) (px_Targets (sp_Proxy sp)) (sd_host d) (sd_port d) = Inr res
        \<and> a \<in> set (rv_All res) \<and> ipEqual a ip \<and> \<not> forbidden (px_Targets (sp_Proxy sp)) ip
        \<and> bo_written out = [reply1, writeSOCKSBindReply d 0 ip port]" if "bo_end out = BindTunnel ip port" for ip port
      using f(2)[OF that] by (fastforce simp: ipInResolved_def denyIP_exact list_ex_iff)
    with slot True f(1) listen show ?thesis by (auto split: option.split bind_end.split)
  next
    case False
    with slot show ?thesis by auto
  qed
qed

definition exBindEnv :: bind_env where
  "exBindEnv = \<lparr>be_lookup = (\<lambda>_. Some [[10, 0, 0, 9]]), be_local = Some ''10.0.0.2:80'', be_listen = (\<lambda>_. Some ''10.0.0.2:21''),
     be_accepting = True, be_peer = Some (Some ''10.0.0.9:20''), be_write = (\<lambda>_. True)\<rparr>"

definition exBindDest :: socksDest where
  "exBindDest = \<lparr>sd_host = ''ftp'', sd_port = ''20'', sd_atyp = ''domain'', sd_bndATYP = 1, sd_via = ''socks5'', sd_ver = 5, sd_user = ''''\<rparr>"

theorem bind_relays_only_announced_peer_witness:
  "\<exists>g1 g2 out ip. serveSOCKSBind ascii_env exBindEnv (st_Spec exState) None exBindDest newGate = (g1, g2, out)
    \<and> bo_end out = BindTunnel ip 20 \<and> To4 ip = Some [10, 0, 0, 9] \<and> gateCounts g1 {#None#} \<and> gateCounts g2 {#}
    \<and> \<not> forbidden (px_Targets (sp_Proxy (st_Spec exState))) ip"
proof -
  let ?r = "serveSOCKSBind ascii_env exBindEnv (st_Spec exState) None exBindDest newGate"
  obtain g1 g2 out where r: "?r = (g1, g2, out)" by (cases ?r)
  have "bo_end (snd (snd ?r)) = BindTunnel (v4InV6 @ [10, 0, 0, 9]) 20" "To4 (v4InV6 @ [10, 0, 0, 9]) = Some [10, 0, 0, 9]" by code_simp+
  with r have "bo_end out = BindTunnel (v4InV6 @ [10, 0, 0, 9]) 20" "To4 (v4InV6 @ [10, 0, 0, 9]) = Some [10, 0, 0, 9]" by simp_all
  with r bind_relays_only_announced_peer[OF gate_reach.start r] show ?thesis by auto
qed

end
