(* ===== verification/Proxy_HTTPAuth.thy ===== *)
theory Proxy_HTTPAuth
  imports Proxy_Socks_Props Http_Hop
begin

text \<open>
  Proxy authentication of HTTP clients (\<open>internal/proxy/httpauth.go\<close>), with the decoder of
  \<open>encoding/base64\<close> it calls.
\<close>

subsection \<open>Standard base64\<close>

definition b64Value :: "char \<Rightarrow> int option" where
  "b64Value c =
     (let n = int (code c)
      in if 65 \<le> n \<and> n \<le> 90 then Some (n - 65)
         else if 97 \<le> n \<and> n \<le> 122 then Some (n - 71)
         else if 48 \<le> n \<and> n \<le> 57 then Some (n + 4)
         else if n = 43 then Some 62
         else if n = 47 then Some 63
         else None)"

text \<open>The three bytes of four sextets.\<close>

definition octet1 :: "int \<Rightarrow> int \<Rightarrow> byte" where "octet1 va vb = of_int (va * 4 + vb div 16)"
definition octet2 :: "int \<Rightarrow> int \<Rightarrow> byte" where "octet2 vb vc = of_int (vb mod 16 * 16 + vc div 4)"
definition octet3 :: "int \<Rightarrow> int \<Rightarrow> byte" where "octet3 vc vd = of_int (vc mod 4 * 64 + vd)"

text \<open>Quanta of four characters; the last one may be padded, and nothing may follow it.\<close>

fun b64Quanta :: "string \<Rightarrow> byte list option" where
  "b64Quanta [] = Some []"
| "b64Quanta (a # b # c # d # rest) =
     (case (b64Value a, b64Value b) of
        (Some va, Some vb) \<Rightarrow>
          (case b64Value c of
             None \<Rightarrow> if c = CHR ''='' \<and> d = CHR ''='' \<and> rest = [] then Some [octet1 va vb] else None
           | Some vc \<Rightarrow>
             (case b64Value d of
                None \<Rightarrow> if d = CHR ''='' \<and> rest = [] then Some [octet1 va vb, octet2 vb vc] else None
              | Some vd \<Rightarrow> map_option (\<lambda>r. octet1 va vb # octet2 vb vc # octet3 vc vd # r)
                             (b64Quanta rest)))
      | _ \<Rightarrow> None)"
| "b64Quanta _ = None"

text \<open>The decoder skips line breaks wherever they are.\<close>

definition DecodeString :: "string \<Rightarrow> byte list option" where
  "DecodeString s = b64Quanta (filter (\<lambda>c. c \<noteq> CHR 0x0A \<and> c \<noteq> CHR 0x0D) s)"

subsection \<open>httpauth.go\<close>

definition parseBasicProxyAuth :: "go_env \<Rightarrow> string \<Rightarrow> (byte list \<times> byte list) option" where
  "parseBasicProxyAuth u header =
     (let h = TrimSpace u header
      in if h = [] then None
         else if CHR '' '' \<notin> set h \<or> \<not> EqualFold u (takeWhile (\<lambda>c. c \<noteq> CHR '' '') h) ''Basic'' then None
         else let raw = TrimSpace u (tl (dropWhile (\<lambda>c. c \<noteq> CHR '' '') h))
         in if raw = [] then None
            else case DecodeString raw of None \<Rightarrow> None
            | Some dec \<Rightarrow> if 58 \<notin> set dec then None
                          else Some (takeWhile (\<lambda>b. b \<noteq> 58) dec, tl (dropWhile (\<lambda>b. b \<noteq> 58) dec)))"

definition hdrGet :: "headers \<Rightarrow> string \<Rightarrow> string" where
  "hdrGet h key = (case hdrValues h key of [] \<Rightarrow> '''' | v # _ \<Rightarrow> v)"

definition matchHTTPAuth :: "go_env \<Rightarrow> (byte list \<Rightarrow> byte list) \<Rightarrow> headers \<Rightarrow> SOCKSUserDigest list \<Rightarrow> bool" where
  "matchHTTPAuth u sha h users =
     (case parseBasicProxyAuth u (hdrGet h ''Proxy-Authorization'') of None \<Rightarrow> False
      | Some (user, pass) \<Rightarrow> matchSOCKSUsers users (DigestSOCKSUser sha user pass) \<noteq> None)"

text \<open>Whether the request is turned away.\<close>

definition rejectHTTPAuth :: "go_env \<Rightarrow> (byte list \<Rightarrow> byte list) \<Rightarrow> Spec \<Rightarrow> headers \<Rightarrow> SOCKSUserDigest list \<Rightarrow> bool" where
  "rejectHTTPAuth u sha sp h users =
     (if \<not> ha_Enabled (px_HTTPAuth (sp_Proxy sp)) then False else \<not> matchHTTPAuth u sha h users)"

subsection \<open>Encoding\<close>

definition b64Char :: "int \<Rightarrow> char" where
  "b64Char v = char_of (nat (if v < 26 then v + 65 else if v < 52 then v + 71 else if v < 62 then v - 4 else if v = 62 then 43 else 47))"

fun b64Encode :: "byte list \<Rightarrow> string" where
  "b64Encode [] = []"
| "b64Encode [x] = [b64Char (uint x div 4), b64Char (uint x mod 4 * 16), CHR ''='', CHR ''='']"
| "b64Encode [x, y] = [b64Char (uint x div 4), b64Char (uint x mod 4 * 16 + uint y div 16), b64Char (uint y mod 16 * 4), CHR ''='']"
| "b64Encode (x # y # z # rest) =
     b64Char (uint x div 4) # b64Char (uint x mod 4 * 16 + uint y div 16) # b64Char (uint y mod 16 * 4 + uint z div 64)
       # b64Char (uint z mod 64) # b64Encode rest"

lemma b64Value_Char: "0 \<le> v \<Longrightarrow> v < 64 \<Longrightarrow> b64Value (b64Char v) = Some v"
proof -
  have c: "code (b64Char v) = nat (if v < 26 then v + 65 else if v < 52 then v + 71 else if v < 62 then v - 4 else if v = 62 then 43 else 47)"
    if "0 \<le> v" "v < 64" for v
  proof -
    have "nat (if v < 26 then v + 65 else if v < 52 then v + 71 else if v < 62 then v - 4 else if v = 62 then 43 else 47) < 256" using that by auto
    then show ?thesis unfolding b64Char_def by (simp add: code_char_of)
  qed
  assume "0 \<le> v" "v < 64"
  then show ?thesis by (auto simp: b64Value_def c Let_def split: if_splits)
qed

lemma byte_range: "0 \<le> uint (x :: byte)" "uint (x :: byte) < 256"
  using uint_bounded[of x] by auto

lemma digits_split:
  fixes a q m :: int
  assumes "0 \<le> q" and "q < m"
  shows "(a * m + q) div m = a" and "(a * m + q) mod m = q"
  using assms by (simp_all add: div_pos_pos_trivial)

lemma byte_parts:
  fixes x :: byte
  shows "0 \<le> uint x div 4" "uint x div 4 < 64" "0 \<le> uint x div 16" "uint x div 16 < 16" "0 \<le> uint x div 64" "uint x div 64 < 4"
  using byte_range[of x] by (auto simp: div_int_pos_iff)

lemma b64_sextets:
  fixes x y z :: byte
  shows "b64Value (b64Char (uint x div 4)) = Some (uint x div 4)"
    and "b64Value (b64Char (uint x mod 4 * 16)) = Some (uint x mod 4 * 16)"
    and "b64Value (b64Char (uint x mod 4 * 16 + uint y div 16)) = Some (uint x mod 4 * 16 + uint y div 16)"
    and "b64Value (b64Char (uint y mod 16 * 4)) = Some (uint y mod 16 * 4)"
    and "b64Value (b64Char (uint y mod 16 * 4 + uint z div 64)) = Some (uint y mod 16 * 4 + uint z div 64)"
    and "b64Value (b64Char (uint z mod 64)) = Some (uint z mod 64)"
proof -
  have m: "0 \<le> uint x mod 4" "uint x mod 4 < 4" "0 \<le> uint y mod 16" "uint y mod 16 < 16" "0 \<le> uint z mod 64" "uint z mod 64 < 64" by simp_all
  note p = byte_parts[of x] byte_parts[of y] byte_parts[of z]
  show "b64Value (b64Char (uint x div 4)) = Some (uint x div 4)"
    and "b64Value (b64Char (uint x mod 4 * 16)) = Some (uint x mod 4 * 16)"
    and "b64Value (b64Char (uint x mod 4 * 16 + uint y div 16)) = Some (uint x mod 4 * 16 + uint y div 16)"
    and "b64Value (b64Char (uint y mod 16 * 4)) = Some (uint y mod 16 * 4)"
    and "b64Value (b64Char (uint y mod 16 * 4 + uint z div 64)) = Some (uint y mod 16 * 4 + uint z div 64)"
    and "b64Value (b64Char (uint z mod 64)) = Some (uint z mod 64)"
    by (rule b64Value_Char; use m p in linarith)+
qed

lemma b64_padding: "b64Value (CHR ''='') = None"
  by code_simp

lemma b64_octets:
  fixes x y z :: byte
  shows "octet1 (uint x div 4) (uint x mod 4 * 16) = x" and "octet1 (uint x div 4) (uint x mod 4 * 16 + uint y div 16) = x"
    and "octet2 (uint x mod 4 * 16 + uint y div 16) (uint y mod 16 * 4) = y"
    and "octet2 (uint x mod 4 * 16 + uint y div 16) (uint y mod 16 * 4 + uint z div 64) = y"
    and "octet3 (uint y mod 16 * 4 + uint z div 64) (uint z mod 64) = z"
proof -
  note d = digits_split[OF byte_parts(3,4)[of y], of "uint x mod 4"] digits_split[OF byte_parts(5,6)[of z], of "uint y mod 16"]
  have m: "uint x mod 4 * 16 div 16 = uint x mod 4" "uint y mod 16 * 4 div 4 = uint y mod 16" by simp_all
  show "octet1 (uint x div 4) (uint x mod 4 * 16) = x" and "octet1 (uint x div 4) (uint x mod 4 * 16 + uint y div 16) = x"
    and "octet2 (uint x mod 4 * 16 + uint y div 16) (uint y mod 16 * 4) = y"
    and "octet2 (uint x mod 4 * 16 + uint y div 16) (uint y mod 16 * 4 + uint z div 64) = y"
    and "octet3 (uint y mod 16 * 4 + uint z div 64) (uint z mod 64) = z"
    unfolding octet1_def octet2_def octet3_def d m div_mult_mod_eq by simp_all
qed

lemma b64_roundtrip: "b64Quanta (b64Encode bs) = Some bs"
proof (induction bs rule: b64Encode.induct)
  case (2 x)
  show ?case by (simp add: b64_sextets b64_padding b64_octets(1))
next
  case (3 x y)
  show ?case by (simp add: b64_sextets b64_padding b64_octets(2,3))
next
  case (4 x y z rest)
  then show ?case by (simp add: b64_sextets b64_octets(2,4,5))
qed simp

lemma b64Encode_range: "list_all (\<lambda>c. 43 \<le> code c \<and> code c \<le> 122) (b64Encode bs)"
proof -
  have c: "43 \<le> code (b64Char v) \<and> code (b64Char v) \<le> 122" if "0 \<le> v" "v < 64" for v
  proof -
    have "nat (if v < 26 then v + 65 else if v < 52 then v + 71 else if v < 62 then v - 4 else if v = 62 then 43 else 47) < 256" using that by auto
    then show ?thesis using that unfolding b64Char_def by (auto simp: code_char_of)
  qed
  have m: "0 \<le> uint x mod 4" "uint x mod 4 < 4" "0 \<le> uint x mod 16" "uint x mod 16 < 16" "0 \<le> uint x mod 64" "uint x mod 64 < 64" for x :: byte
    by simp_all
  have "43 \<le> code (CHR ''='')" "code (CHR ''='') \<le> 122" by (simp_all add: code_def)
  moreover have "43 \<le> code (b64Char (uint x div 4)) \<and> code (b64Char (uint x div 4)) \<le> 122"
    "43 \<le> code (b64Char (uint x mod 4 * 16)) \<and> code (b64Char (uint x mod 4 * 16)) \<le> 122"
    "43 \<le> code (b64Char (uint x mod 4 * 16 + uint y div 16)) \<and> code (b64Char (uint x mod 4 * 16 + uint y div 16)) \<le> 122"
    "43 \<le> code (b64Char (uint y mod 16 * 4)) \<and> code (b64Char (uint y mod 16 * 4)) \<le> 122"
    "43 \<le> code (b64Char (uint y mod 16 * 4 + uint z div 64)) \<and> code (b64Char (uint y mod 16 * 4 + uint z div 64)) \<le> 122"
    "43 \<le> code (b64Char (uint z mod 64)) \<and> code (b64Char (uint z mod 64)) \<le> 122" for x y z :: byte
    by (rule c; use m[of x] m[of y] m[of z] byte_parts[of x] byte_parts[of y] byte_parts[of z] in linarith)+
  ultimately show ?thesis by (induction bs rule: b64Encode.induct) simp_all
qed

lemma b64Encode_plain:
  "filter (\<lambda>c. c \<noteq> CHR 0x0A \<and> c \<noteq> CHR 0x0D) (b64Encode bs) = b64Encode bs" "CHR '' '' \<notin> set (b64Encode bs)"
  "list_all (\<lambda>c. \<not> runeSelf c \<and> \<not> asciiSpace c) (b64Encode bs)"
  using b64Encode_range[of bs] by (auto simp: filter_id_conv list_all_iff runeSelf_def asciiSpace_def code_def)

lemma basic_roundtrip:
  assumes "58 \<notin> set un"
  shows "parseBasicProxyAuth u (''Basic '' @ b64Encode (un @ 58 # pw)) = Some (un, pw)"
proof -
  let ?e = "b64Encode (un @ 58 # pw)" and ?h = "''Basic '' @ b64Encode (un @ 58 # pw)"
  have ne: "?e \<noteq> []" using b64_roundtrip[of "un @ 58 # pw"] by (metis append_is_Nil_conv b64Quanta.simps(1) list.discI option.inject)
  note e = b64Encode_plain[of "un @ 58 # pw"]
  have "isASCII ?h" using e(3) by (auto simp: isASCII_def list_all_iff runeSelf_def code_def)
  moreover have "\<not> asciiSpace (last ?h)" using e(3) ne by (auto simp: list_all_iff)
  ultimately have t: "TrimSpace u ?h = ?h" by (intro TrimSpace_id) (auto simp: asciiSpace_def code_def)
  have te: "TrimSpace u ?e = ?e" by (rule TrimSpace_plain[OF e(3)])
  have d: "DecodeString ?e = Some (un @ 58 # pw)" by (simp add: DecodeString_def e(1) b64_roundtrip)
  have f: "EqualFold u ''Basic'' ''Basic''" by (rule EqualFold_refl_ascii) (simp add: isASCII_def runeSelf_def code_def)
  have split: "takeWhile (\<lambda>b. b \<noteq> 58) (un @ 58 # pw) = un" "dropWhile (\<lambda>b. b \<noteq> 58) (un @ 58 # pw) = 58 # pw"
    using assms by (auto simp: takeWhile_append dropWhile_append takeWhile_eq_all_conv)
  show ?thesis unfolding parseBasicProxyAuth_def Let_def t using ne f by (simp add: te d split)
qed

lemma matchSOCKSUsers_iff: "distinct (map su_Digest users) \<Longrightarrow> matchSOCKSUsers users digest \<noteq> None \<longleftrightarrow> digest \<in> set (map su_Digest users)"
  using constScan_distinct(1)[of "map su_Digest users" digest] by (cases "constScan digest 0 0 0 (map su_Digest users)") (auto simp: matchSOCKSUsers_def)

lemma loaded_digests:
  assumes all2: "list_all2 (loadedUser ev) us users"
  shows "digest \<in> set (map su_Digest users) \<longleftrightarrow> (\<exists>x un' pw'. x \<in> set us
      \<and> readRFC1929File (ce_go ev) (ce_disk ev) (up_UsernameFile x) = Some un' \<and> readRFC1929File (ce_go ev) (ce_disk ev) (up_PasswordFile x) = Some pw'
      \<and> DigestSOCKSUser (ce_sha256 ev) un' pw' = digest)" (is "?l \<longleftrightarrow> ?r")
proof
  assume ?l
  then obtain dg where "dg \<in> set users" "su_Digest dg = digest" by auto
  with all2 obtain x where "x \<in> set us" "loadedUser ev x dg" by (metis in_set_conv_nth list_all2_conv_all_nth)
  with \<open>su_Digest dg = digest\<close> show ?r by (auto simp: loadedUser_def)
next
  assume ?r
  then obtain x where x: "x \<in> set us" "\<exists>un' pw'. readRFC1929File (ce_go ev) (ce_disk ev) (up_UsernameFile x) = Some un'
    \<and> readRFC1929File (ce_go ev) (ce_disk ev) (up_PasswordFile x) = Some pw' \<and> DigestSOCKSUser (ce_sha256 ev) un' pw' = digest" by blast
  with all2 obtain dg where "dg \<in> set users" "loadedUser ev x dg" by (metis in_set_conv_nth list_all2_conv_all_nth)
  with x(2) show ?l by (force simp: loadedUser_def)
qed

text \<open>(C23) With proxy authentication on and the users loaded from the configured files, a request passes
  exactly when its Proxy-Authorization header decodes to a user name and a password whose digest is
  that of the contents of the two files of a configured user; and a client that sends the contents of
  the files of a configured user, as Basic credentials in base64, passes whenever the user name has no
  colon.\<close>

theorem http_auth_is_exact:
  assumes "loadHTTPAuthUserFiles ev sp = Inr users" and "ha_Enabled (px_HTTPAuth (sp_Proxy sp))"
  shows "(\<not> rejectHTTPAuth (ce_go ev) (ce_sha256 ev) sp h users \<longleftrightarrow>
      (\<exists>un pw x un' pw'. parseBasicProxyAuth (ce_go ev) (hdrGet h ''Proxy-Authorization'') = Some (un, pw)
         \<and> x \<in> set (elems (ha_Users (px_HTTPAuth (sp_Proxy sp))))
         \<and> readRFC1929File (ce_go ev) (ce_disk ev) (up_UsernameFile x) = Some un' \<and> readRFC1929File (ce_go ev) (ce_disk ev) (up_PasswordFile x) = Some pw'
         \<and> DigestSOCKSUser (ce_sha256 ev) un' pw' = DigestSOCKSUser (ce_sha256 ev) un pw))
    \<and> list_all (\<lambda>x. \<forall>un pw. readRFC1929File (ce_go ev) (ce_disk ev) (up_UsernameFile x) = Some un
         \<longrightarrow> readRFC1929File (ce_go ev) (ce_disk ev) (up_PasswordFile x) = Some pw \<longrightarrow> 58 \<notin> set un
         \<longrightarrow> \<not> rejectHTTPAuth (ce_go ev) (ce_sha256 ev) sp [(''Proxy-Authorization'', [''Basic '' @ b64Encode (un @ 58 # pw)])] users)
       (elems (ha_Users (px_HTTPAuth (sp_Proxy sp))))"
proof -
  let ?us = "elems (ha_Users (px_HTTPAuth (sp_Proxy sp)))"
  from assms have "loadUsers ev ''spec.proxy.httpAuth.users'' [] 0 ?us = Inr users" by (simp add: loadHTTPAuthUserFiles_def Let_def)
  note l = loadUsers_ok[OF this]
  then have all2: "list_all2 (loadedUser ev) ?us users" and di: "distinct (map su_Digest users)" by auto
  note mem = loaded_digests[OF all2]
  have pass: "\<not> rejectHTTPAuth (ce_go ev) (ce_sha256 ev) sp h users \<longleftrightarrow> (\<exists>un pw. parseBasicProxyAuth (ce_go ev) (hdrGet h ''Proxy-Authorization'') = Some (un, pw)
      \<and> DigestSOCKSUser (ce_sha256 ev) un pw \<in> set (map su_Digest users))" for h
    using assms(2) matchSOCKSUsers_iff[OF di] by (auto simp: rejectHTTPAuth_def matchHTTPAuth_def split: option.splits)
  have canon: "CanonicalHeaderKey ''Proxy-Authorization'' = ''Proxy-Authorization''" by code_simp
  have get: "hdrGet [(''Proxy-Authorization'', [v])] ''Proxy-Authorization'' = v" for v by (simp add: hdrGet_def hdrValues_def canon)
  show ?thesis
  proof
    show "\<not> rejectHTTPAuth (ce_go ev) (ce_sha256 ev) sp h users \<longleftrightarrow> (\<exists>un pw x un' pw'. parseBasicProxyAuth (ce_go ev) (hdrGet h ''Proxy-Authorization'') = Some (un, pw)
        \<and> x \<in> set ?us \<and> readRFC1929File (ce_go ev) (ce_disk ev) (up_UsernameFile x) = Some un' \<and> readRFC1929File (ce_go ev) (ce_disk ev) (up_PasswordFile x) = Some pw'
        \<and> DigestSOCKSUser (ce_sha256 ev) un' pw' = DigestSOCKSUser (ce_sha256 ev) un pw)" unfolding pass mem by blast
    show "list_all (\<lambda>x. \<forall>un pw. readRFC1929File (ce_go ev) (ce_disk ev) (up_UsernameFile x) = Some un
         \<longrightarrow> readRFC1929File (ce_go ev) (ce_disk ev) (up_PasswordFile x) = Some pw \<longrightarrow> 58 \<notin> set un
         \<longrightarrow> \<not> rejectHTTPAuth (ce_go ev) (ce_sha256 ev) sp [(''Proxy-Authorization'', [''Basic '' @ b64Encode (un @ 58 # pw)])] users) ?us"
      unfolding list_all_iff pass get mem using basic_roundtrip by blast
  qed
qed

definition exHTTPAuthSpec :: Spec where
  "exHTTPAuthSpec = (let sp = st_Spec exState; p = sp_Proxy sp
     in sp\<lparr>sp_Proxy := p\<lparr>px_HTTPAuth := \<lparr>ha_Enabled = True, ha_Realm = '''', ha_Users = Some [exUser]\<rparr>\<rparr>\<rparr>)"

theorem http_auth_is_exact_witness:
  "loadHTTPAuthUserFiles exSocksEnv exHTTPAuthSpec = Inr (pu_users exSocksUsers)
   \<and> \<not> rejectHTTPAuth ascii_env id exHTTPAuthSpec [(''Proxy-Authorization'', [''Basic YW5uOnB3''])] (pu_users exSocksUsers)
   \<and> rejectHTTPAuth ascii_env id exHTTPAuthSpec [] (pu_users exSocksUsers)"
proof -
  have "case loadHTTPAuthUserFiles exSocksEnv exHTTPAuthSpec of Inl e \<Rightarrow> False | Inr us \<Rightarrow> us = pu_users exSocksUsers" by code_simp
  then have l: "loadHTTPAuthUserFiles exSocksEnv exHTTPAuthSpec = Inr (pu_users exSocksUsers)" by (auto split: sum.splits)
  have e: "ha_Enabled (px_HTTPAuth (sp_Proxy exHTTPAuthSpec))" "elems (ha_Users (px_HTTPAuth (sp_Proxy exHTTPAuthSpec))) = [exUser]"
    "readRFC1929File (ce_go exSocksEnv) (ce_disk exSocksEnv) (up_UsernameFile exUser) = Some [97, 110, 110]"
    "readRFC1929File (ce_go exSocksEnv) (ce_disk exSocksEnv) (up_PasswordFile exUser) = Some [112, 119]"
    "b64Encode ([97, 110, 110] @ 58 # [112, 119]) = ''YW5uOnB3''" "parseBasicProxyAuth ascii_env (hdrGet [] ''Proxy-Authorization'') = None"
    "58 \<notin> set ([97, 110, 110] :: byte list)" by code_simp+
  have c: "ce_go exSocksEnv = ascii_env" "ce_sha256 exSocksEnv = id" by (simp_all add: exSocksEnv_def)
  note w = http_auth_is_exact[OF l e(1)]
  from w[of "[]", THEN conjunct1] e(6) have "rejectHTTPAuth ascii_env id exHTTPAuthSpec [] (pu_users exSocksUsers)" by (simp add: c)
  moreover from w[of "[]", THEN conjunct2] e
  have "\<not> rejectHTTPAuth ascii_env id exHTTPAuthSpec [(''Proxy-Authorization'', [''Basic YW5uOnB3''])] (pu_users exSocksUsers)" by (simp add: c)
  ultimately show ?thesis using l by blast
qed

end
