(* ===== verification/TLS_Leaf.thy ===== *)
theory TLS_Leaf
  imports Go_IP
begin

text \<open>
  The leaf certificates of the lab CA (\<open>internal/tlsmitm/leaf.go\<close>, and the choice of the name in
  \<open>handshake.go\<close>): the bounded cache and minting. Signing a template and parsing the result is
  an argument, with what it draws at random; a certificate is what its parsed leaf says and a payload
  of a type \<open>'k\<close> nothing here looks into.
\<close>

record leafTemplate =
  lf_CommonName :: string
  lf_NotBefore :: gotime
  lf_NotAfter :: gotime
  lf_DNSNames :: "string list"
  lf_IPAddresses :: "byte list list"

record 'k certificate =
  ct_Leaf :: "leafTemplate option"
  ct_Payload :: 'k

datatype leaf_error = ErrEmptyName | ErrMint

definition leafCacheCap :: int where "leafCacheCap = 256"
definition leafValidity :: duration where "leafValidity = 24 * 3600 * 10 ^ 9"
definition notBeforeSkew :: duration where "notBeforeSkew = 300 * 10 ^ 9"

subsection \<open>The cache\<close>

record 'k leafCache =
  lc_cap :: int
  lc_order :: "string list"
  lc_items :: "(string, 'k certificate) gomap"

definition newLeafCache :: "int \<Rightarrow> 'k leafCache" where
  "newLeafCache cap = \<lparr>lc_cap = (if cap \<le> 0 then leafCacheCap else cap), lc_order = [], lc_items = []\<rparr>"

definition leafTouch :: "string \<Rightarrow> 'k leafCache \<Rightarrow> 'k leafCache" where
  "leafTouch host c = c\<lparr>lc_order := remove1 host (lc_order c) @ [host]\<rparr>"

definition leafGet :: "string \<Rightarrow> 'k leafCache \<Rightarrow> 'k leafCache \<times> 'k certificate option" where
  "leafGet host c =
     (case map_of (lc_items c) host of None \<Rightarrow> (c, None) | Some cert \<Rightarrow> (leafTouch host c, Some cert))"

text \<open>The eviction loop runs over the order.\<close>

fun leafEvict :: "int \<Rightarrow> string list \<Rightarrow> (string, 'k certificate) gomap \<Rightarrow> string list \<times> (string, 'k certificate) gomap" where
  "leafEvict cap [] items = ([], items)"
| "leafEvict cap (old # order) items =
     (if int (length items) \<ge> cap then leafEvict cap order (AList.delete old items) else (old # order, items))"

definition leafPut :: "string \<Rightarrow> 'k certificate \<Rightarrow> 'k leafCache \<Rightarrow> 'k leafCache" where
  "leafPut host cert c =
     (if map_of (lc_items c) host \<noteq> None then leafTouch host (c\<lparr>lc_items := AList.update host cert (lc_items c)\<rparr>)
      else case leafEvict (lc_cap c) (lc_order c) (lc_items c) of (order, items) \<Rightarrow>
        c\<lparr>lc_order := order @ [host], lc_items := AList.update host cert items\<rparr>)"

subsection \<open>Minting\<close>

definition mintTemplate :: "string \<Rightarrow> gotime \<Rightarrow> leafTemplate" where
  "mintTemplate host now =
     \<lparr>lf_CommonName = host, lf_NotBefore = now - notBeforeSkew, lf_NotAfter = now + leafValidity,
      lf_DNSNames = (if ParseIP host = None then [host] else []),
      lf_IPAddresses = (case ParseIP host of Some ip \<Rightarrow> [ip] | None \<Rightarrow> [])\<rparr>"

definition mintLocked :: "(leafTemplate \<Rightarrow> 'k certificate option) \<Rightarrow> string \<Rightarrow> gotime \<Rightarrow> 'k certificate option" where
  "mintLocked sign host now = sign (mintTemplate host now)"

definition leafValidAt :: "gotime \<Rightarrow> 'k certificate \<Rightarrow> bool" where
  "leafValidAt now cert = (case ct_Leaf cert of None \<Rightarrow> False | Some l \<Rightarrow> lf_NotBefore l \<le> now \<and> now < lf_NotAfter l)"

definition leafForAt :: "go_env \<Rightarrow> (leafTemplate \<Rightarrow> 'k certificate option) \<Rightarrow> string \<Rightarrow> gotime \<Rightarrow> 'k leafCache \<Rightarrow> 'k leafCache \<times> (leaf_error + 'k certificate)" where
  "leafForAt u sign host0 now c =
     (let host = ToLower u (TrimSpace u host0)
      in if host = [] then (c, Inl ErrEmptyName)
         else case leafGet host c of (c1, hit) \<Rightarrow>
           if (case hit of None \<Rightarrow> False | Some cert \<Rightarrow> leafValidAt now cert) then (c1, Inr (the hit))
           else case mintLocked sign host now of None \<Rightarrow> (c1, Inl ErrMint)
           | Some cert \<Rightarrow> (leafPut host cert c1, Inr cert))"

text \<open>The certificate a handshake presents: for the server name the client sends, else for the host of
  the CONNECT.\<close>

definition serverLeaf :: "go_env \<Rightarrow> (leafTemplate \<Rightarrow> 'k certificate option) \<Rightarrow> string \<Rightarrow> string \<Rightarrow> gotime \<Rightarrow> 'k leafCache \<Rightarrow>
    'k leafCache \<times> (leaf_error + 'k certificate)" where
  "serverLeaf u sign connectHost serverName now c =
     (let name = (if serverName = [] then connectHost else serverName)
      in if name = [] then (c, Inl ErrEmptyName) else leafForAt u sign name now c)"

subsection \<open>The cache as a list\<close>

text \<open>The abstract cache: hosts with their certificates, the least recently used first.\<close>

definition moveLast :: "string \<Rightarrow> 'k certificate \<Rightarrow> (string \<times> 'k certificate) list \<Rightarrow> (string \<times> 'k certificate) list" where
  "moveLast host cert L = AList.delete host L @ [(host, cert)]"

definition lruLeaf :: "go_env \<Rightarrow> nat \<Rightarrow> string \<times> gotime \<times> (leafTemplate \<Rightarrow> 'k certificate option) \<Rightarrow> (string \<times> 'k certificate) list \<Rightarrow>
    (string \<times> 'k certificate) list \<times> (leaf_error + 'k certificate)" where
  "lruLeaf u cap x L =
     (case x of (host0, now, sign) \<Rightarrow>
        let host = ToLower u (TrimSpace u host0)
        in if host = [] then (L, Inl ErrEmptyName)
           else case map_of L host of
             Some cert \<Rightarrow>
               if leafValidAt now cert then (moveLast host cert L, Inr cert)
               else (case sign (mintTemplate host now) of None \<Rightarrow> (moveLast host cert L, Inl ErrMint)
                     | Some new \<Rightarrow> (moveLast host new L, Inr new))
           | None \<Rightarrow>
               (case sign (mintTemplate host now) of None \<Rightarrow> (L, Inl ErrMint)
                | Some new \<Rightarrow> (drop (Suc (length L) - cap) L @ [(host, new)], Inr new)))"

definition leafHolds :: "nat \<Rightarrow> 'k leafCache \<Rightarrow> (string \<times> 'k certificate) list \<Rightarrow> bool" where
  "leafHolds cap c L \<longleftrightarrow> lc_order c = map fst L \<and> distinct (map fst L) \<and> map_of (lc_items c) = map_of L
     \<and> distinct (map fst (lc_items c)) \<and> length (lc_items c) = length L \<and> length L \<le> cap \<and> 0 < cap \<and> lc_cap c = int cap"

lemma remove1_fst: "distinct (map fst L) \<Longrightarrow> remove1 h (map fst L) = map fst (AList.delete h L)"
proof (induction L)
  case (Cons a L)
  then show ?case by (cases a) (auto simp: AList.delete_idem)
qed simp

lemma distinct_delete_keys: "distinct (map fst L) \<Longrightarrow> distinct (map fst (AList.delete h L))"
  by (simp add: AList.delete_eq distinct_map_filter)

lemma map_of_moveLast: "map_of (moveLast host cert L) = (map_of L)(host \<mapsto> cert)"
  by (auto simp: moveLast_def fun_eq_iff map_add_def split: option.splits)

lemma leafHolds_touch:
  assumes "leafHolds cap c L" and "map_of L host = Some old"
  shows "leafHolds cap (leafTouch host (c\<lparr>lc_items := AList.update host cert (lc_items c)\<rparr>)) (moveLast host cert L)"
proof -
  have k: "host \<in> keys L" "host \<in> keys (lc_items c)" using assms by (auto simp: in_keys_iff leafHolds_def)
  have len: "length (moveLast host cert L) = length L" using length_delete_key[OF _ k(1)] assms(1) by (simp add: moveLast_def leafHolds_def)
  have m: "map_of (AList.update host cert (lc_items c)) = map_of (moveLast host cert L)"
    using assms(1) by (simp add: fun_eq_iff map_of_moveLast leafHolds_def)
  have "distinct (map fst (moveLast host cert L))" using assms(1) by (auto simp: moveLast_def leafHolds_def distinct_delete_keys)
  with assms(1) len m remove1_fst[of L host] length_update_old[OF k(2), of cert] show ?thesis
    by (simp add: leafHolds_def leafTouch_def distinct_update) (simp add: moveLast_def)
qed

lemma update_same: "map_of m k = Some v \<Longrightarrow> AList.update k v m = m"
  by (induction m) (auto split: if_splits)

lemma leafHolds_get:
  assumes "leafHolds cap c L" and "map_of L host = Some cert"
  shows "leafGet host c = (leafTouch host c, Some cert)" and "leafHolds cap (leafTouch host c) (moveLast host cert L)"
proof -
  have m: "map_of (lc_items c) host = Some cert" using assms by (simp add: leafHolds_def)
  then show "leafGet host c = (leafTouch host c, Some cert)" by (simp add: leafGet_def)
  from leafHolds_touch[OF assms, of cert] show "leafHolds cap (leafTouch host c) (moveLast host cert L)" by (simp add: update_same[OF m])
qed

lemma leafEvict_spec:
  assumes "distinct (map fst L)" and "map_of items = map_of L" and "distinct (map fst items)" and "length items = length L" and "0 < cap"
  shows "\<exists>items'. leafEvict (int cap) (map fst L) items = (map fst (drop (Suc (length L) - cap) L), items')
    \<and> map_of items' = map_of (drop (Suc (length L) - cap) L) \<and> distinct (map fst items') \<and> length items' = length (drop (Suc (length L) - cap) L)"
  using assms
proof (induction L arbitrary: items)
  case (Cons a L)
  show ?case
  proof (cases "cap \<le> length items")
    case True
    have k: "fst a \<in> keys items" using Cons.prems(2) by (cases a) (auto simp: in_keys_iff)
    let ?items = "AList.delete (fst a) items"
    have "map_of ?items = map_of L" using Cons.prems(1,2)
      by (cases a) (auto simp: fun_eq_iff dest!: map_of_eq_None_iff[THEN iffD2])
    moreover have "length ?items = length L" using length_delete_key[OF Cons.prems(3) k] Cons.prems(4) by simp
    ultimately have "\<exists>items'. leafEvict (int cap) (map fst L) ?items = (map fst (drop (Suc (length L) - cap) L), items')
        \<and> map_of items' = map_of (drop (Suc (length L) - cap) L) \<and> distinct (map fst items') \<and> length items' = length (drop (Suc (length L) - cap) L)"
      using Cons.IH[of ?items] Cons.prems distinct_delete_keys[of items] by simp
    moreover have "Suc (length (a # L)) - cap = Suc (Suc (length L) - cap)" using True Cons.prems(4) by simp
    ultimately show ?thesis using True by simp
  next
    case False
    then have "Suc (length (a # L)) - cap = 0" using Cons.prems(4) by simp
    with False Cons.prems show ?thesis by simp
  qed
qed simp

lemma leafHolds_put_new:
  assumes "leafHolds cap c L" and "map_of L host = None"
  shows "leafHolds cap (leafPut host cert c) (drop (Suc (length L) - cap) L @ [(host, cert)])"
proof -
  let ?L = "drop (Suc (length L) - cap) L"
  from leafEvict_spec[of L "lc_items c" cap] assms(1) obtain items where e: "leafEvict (lc_cap c) (lc_order c) (lc_items c) = (map fst ?L, items)"
    and i: "map_of items = map_of ?L" "distinct (map fst items)" "length items = length ?L" by (auto simp: leafHolds_def)
  have n: "host \<notin> keys ?L" using assms(2) by (auto simp: map_of_eq_None_keys image_iff dest: in_set_dropD)
  then have n': "host \<notin> keys items" using i(1) by (metis map_of_eq_None_keys)
  have d: "distinct (map fst ?L)" using assms(1) by (simp add: leafHolds_def drop_map flip: drop_map)
  have "map_of (AList.update host cert items) = map_of (?L @ [(host, cert)])"
    using i(1) map_of_eq_None_keys[THEN iffD2, OF n] by (auto simp: fun_eq_iff map_add_def split: option.splits)
  with assms e i n d length_update_new[OF n', of cert] distinct_update[OF i(2), of host cert] show ?thesis
    by (auto simp: leafPut_def leafHolds_def)
qed

text \<open>The interface of the component, as steps over requests with the time and the signer of each.\<close>

definition leafStep :: "go_env \<Rightarrow> string \<times> gotime \<times> (leafTemplate \<Rightarrow> 'k certificate option) \<Rightarrow> 'k leafCache \<Rightarrow>
    ('k leafCache \<times> (leaf_error + 'k certificate)) option" where
  "leafStep u x c = (case x of (host, now, sign) \<Rightarrow> Some (leafForAt u sign host now c))"

lemma leafStep_spec:
  assumes "leafHolds cap c L"
  shows "\<exists>c'. leafStep u x c = Some (c', snd (lruLeaf u cap x L)) \<and> leafHolds cap c' (fst (lruLeaf u cap x L))"
proof -
  obtain host0 now sign where x: "x = (host0, now, sign)" by (cases x) auto
  let ?h = "ToLower u (TrimSpace u host0)"
  show ?thesis
  proof (cases "map_of L ?h")
    case None
    then have g: "leafGet ?h c = (c, None)" using assms by (simp add: leafGet_def leafHolds_def)
    show ?thesis using assms leafHolds_put_new[OF assms None]
      by (cases "sign (mintTemplate ?h now)") (auto simp: x leafStep_def leafForAt_def lruLeaf_def Let_def g None mintLocked_def)
  next
    case (Some cert)
    note g = leafHolds_get[OF assms Some]
    have m: "map_of (moveLast ?h cert L) ?h = Some cert" by (simp add: map_of_moveLast)
    have p: "leafHolds cap (leafPut ?h new (leafTouch ?h c)) (moveLast ?h new L)" for new
    proof -
      have "moveLast ?h new (moveLast ?h cert L) = moveLast ?h new L" by (simp add: moveLast_def AList.delete_eq)
      moreover have "map_of (lc_items (leafTouch ?h c)) ?h \<noteq> None" using g(2) m by (simp add: leafHolds_def)
      ultimately show ?thesis using leafHolds_touch[OF g(2) m, of new] by (simp add: leafPut_def)
    qed
    show ?thesis using g p assms
      by (cases "sign (mintTemplate ?h now)") (auto simp: x leafStep_def leafForAt_def lruLeaf_def Let_def Some mintLocked_def)
  qed
qed

interpretation leafcache: implements "leafHolds cap" "leafStep u" "lruLeaf u cap" for u cap
  by unfold_locales (rule leafStep_spec)

subsection \<open>Properties\<close>

text \<open>The leaf cache is a least-recently-used cache: over any sequence of requests, at any times and
  with any outcomes of signing, it gives the answers of a list of hosts with certificates, the least
  recently used first, that is never longer than the cap, moves a host that is asked for to the end,
  replaces a certificate that is not valid any more, and drops from the front when it is full.\<close>

theorem leaf_cache_is_lru:
  "\<exists>c'. runSome (leafStep u) xs (newLeafCache n) = Some (c', snd (runSpec (lruLeaf u (nat (if n \<le> 0 then 256 else n))) xs []))
     \<and> leafHolds (nat (if n \<le> 0 then 256 else n)) c' (fst (runSpec (lruLeaf u (nat (if n \<le> 0 then 256 else n))) xs []))"
  by (rule leafcache.run_spec) (simp add: leafHolds_def newLeafCache_def leafCacheCap_def)

text \<open>What the certificate library promises: the parsed certificate says what the template said, with
  times cut to the second and IPv4 addresses in their four bytes.\<close>

definition shortIP :: "byte list \<Rightarrow> byte list" where
  "shortIP ip = (case To4 ip of Some v4 \<Rightarrow> v4 | None \<Rightarrow> ip)"

definition signsTemplate :: "(leafTemplate \<Rightarrow> 'k certificate option) \<Rightarrow> bool" where
  "signsTemplate sign \<longleftrightarrow> (\<forall>t c. sign t = Some c \<longrightarrow> (\<exists>l. ct_Leaf c = Some l \<and> lf_CommonName l = lf_CommonName t \<and> lf_DNSNames l = lf_DNSNames t
     \<and> lf_IPAddresses l = map shortIP (lf_IPAddresses t) \<and> lf_NotBefore l = lf_NotBefore t div 10 ^ 9 * 10 ^ 9 \<and> lf_NotAfter l = lf_NotAfter t div 10 ^ 9 * 10 ^ 9))"

definition leafFor :: "string \<Rightarrow> 'k certificate \<Rightarrow> bool" where
  "leafFor host c \<longleftrightarrow> (case ct_Leaf c of None \<Rightarrow> False
     | Some l \<Rightarrow> lf_CommonName l = host \<and> (case ParseIP host of Some ip \<Rightarrow> lf_IPAddresses l = [shortIP ip] \<and> lf_DNSNames l = []
         | None \<Rightarrow> lf_DNSNames l = [host] \<and> lf_IPAddresses l = []))"

lemma minted_leaf:
  assumes "signsTemplate sign" and "sign (mintTemplate host now) = Some c"
  shows "leafFor host c \<and> leafValidAt now c"
proof -
  from assms obtain l where l: "ct_Leaf c = Some l" "lf_CommonName l = host" "lf_DNSNames l = lf_DNSNames (mintTemplate host now)"
    "lf_IPAddresses l = map shortIP (lf_IPAddresses (mintTemplate host now))" "lf_NotBefore l = (now - notBeforeSkew) div 10 ^ 9 * 10 ^ 9"
    "lf_NotAfter l = (now + leafValidity) div 10 ^ 9 * 10 ^ 9" by (fastforce simp: signsTemplate_def mintTemplate_def)
  have "lf_NotBefore l \<le> now" "now < lf_NotAfter l" unfolding l notBeforeSkew_def leafValidity_def by simp_all
  with l show ?thesis by (auto simp: leafFor_def leafValidAt_def mintTemplate_def split: option.splits)
qed

definition leavesFor :: "(string \<times> 'k certificate) list \<Rightarrow> bool" where
  "leavesFor L \<longleftrightarrow> (\<forall>h c. map_of L h = Some c \<longrightarrow> leafFor h c)"

lemma lruLeaf_leaves:
  assumes "leavesFor L" and "distinct (map fst L)" and "signsTemplate sign" and "lruLeaf u cap (host0, now, sign) L = (L', r)"
  shows "leavesFor L' \<and> (case r of Inl e \<Rightarrow> True | Inr c \<Rightarrow> leafFor (ToLower u (TrimSpace u host0)) c \<and> leafValidAt now c)"
proof -
  let ?h = "ToLower u (TrimSpace u host0)"
  have mv: "leavesFor (moveLast ?h c L)" if "leafFor ?h c" for c using that assms(1) by (auto simp: leavesFor_def map_of_moveLast)
  have dr: "leavesFor (drop n L @ [(?h, c)])" if "leafFor ?h c" for n c
  proof -
    have "map_of (drop n L) k = Some v \<Longrightarrow> map_of L k = Some v" for k v
      using assms(2) by (meson in_set_dropD map_of_SomeD map_of_is_SomeI)
    then show ?thesis using that assms(1) by (auto simp: leavesFor_def map_add_def split: option.splits if_splits)
  qed
  note new = minted_leaf[OF assms(3), of ?h now]
  show ?thesis
  proof (cases "map_of L ?h")
    case None
    with assms(1,4) dr new show ?thesis by (auto simp: lruLeaf_def Let_def split: if_splits option.splits)
  next
    case (Some c)
    then have "leafFor ?h c" using assms(1) by (simp add: leavesFor_def)
    with Some assms(1,4) mv new show ?thesis by (auto simp: lruLeaf_def Let_def split: if_splits option.splits)
  qed
qed

definition goodLeaf :: "go_env \<Rightarrow> string \<times> gotime \<times> (leafTemplate \<Rightarrow> 'k certificate option) \<Rightarrow> leaf_error + 'k certificate \<Rightarrow> bool" where
  "goodLeaf u x r = (case x of (host, now, sign) \<Rightarrow> (case r of Inl e \<Rightarrow> True | Inr c \<Rightarrow> leafFor (ToLower u (TrimSpace u host)) c \<and> leafValidAt now c))"

lemma runSpec_leaves:
  assumes "leafHolds cap c L" and "leavesFor L" and "list_all (\<lambda>(host, now, sign). signsTemplate sign) xs"
  shows "list_all2 (goodLeaf u) xs (snd (runSpec (lruLeaf u cap) xs L))"
  using assms
proof (induction xs arbitrary: c L)
  case (Cons x xs)
  obtain host now sign where x: "x = (host, now, sign)" by (cases x) auto
  obtain L' r where s: "lruLeaf u cap x L = (L', r)" by fastforce
  from leafStep_spec[OF Cons.prems(1), of u x] s obtain c' where c': "leafHolds cap c' L'" by auto
  have "leavesFor L'" "goodLeaf u x r"
    using lruLeaf_leaves[OF Cons.prems(2), of sign u cap host now L' r] Cons.prems(1,3) s x by (auto simp: leafHolds_def goodLeaf_def)
  with Cons.IH[OF c'] Cons.prems(3) s show ?case by (auto split: prod.splits)
qed simp

text \<open>(C24) Whatever the cache did before, the certificate a client is shown is for the name that was asked
  for, trimmed and in lower case, as an IP address or as a DNS name and nothing else, and is valid at
  that moment; and the cache never outgrows its cap. The signer is one that, when it signs, signs what the template says: the same
  names, the addresses (IPv4 ones in four bytes), the times cut to the second.\<close>

theorem presented_leaf_is_valid:
  assumes "list_all (\<lambda>(host, now, sign). signsTemplate sign) xs"
  shows "\<exists>c rs. runSome (leafStep u) xs (newLeafCache n) = Some (c, rs) \<and> list_all2 (goodLeaf u) xs rs
    \<and> int (length (lc_items c)) \<le> (if n \<le> 0 then 256 else n)"
proof -
  let ?cap = "nat (if n \<le> 0 then 256 else n)"
  have h: "leafHolds ?cap (newLeafCache n) []" by (simp add: leafHolds_def newLeafCache_def leafCacheCap_def)
  from leafcache.run_spec[OF h, of u xs] obtain c where c: "runSome (leafStep u) xs (newLeafCache n) = Some (c, snd (runSpec (lruLeaf u ?cap) xs []))"
    "leafHolds ?cap c (fst (runSpec (lruLeaf u ?cap) xs []))" by blast
  from c(2) have "int (length (lc_items c)) \<le> (if n \<le> 0 then 256 else n)" by (auto simp: leafHolds_def split: if_splits)
  with c(1) runSpec_leaves[OF h _ assms, of u] show ?thesis by (auto simp: leavesFor_def)
qed

definition exSign :: "leafTemplate \<Rightarrow> unit certificate option" where
  "exSign t = Some \<lparr>ct_Leaf = Some (t\<lparr>lf_NotBefore := lf_NotBefore t div 10 ^ 9 * 10 ^ 9, lf_NotAfter := lf_NotAfter t div 10 ^ 9 * 10 ^ 9,
     lf_IPAddresses := map shortIP (lf_IPAddresses t)\<rparr>), ct_Payload = ()\<rparr>"

theorem presented_leaf_is_valid_witness:
  "\<exists>c r1 r2 r3. runSome (leafStep ascii_env) [(''Lab.test'', 5, exSign), ('' lab.test'', 100000000000000, exSign), (''10.0.0.1'', 7, exSign)] (newLeafCache 1) = Some (c, [r1, r2, r3])
    \<and> goodLeaf ascii_env ('' lab.test'', 100000000000000, exSign) r2 \<and> \<not> isl r2 \<and> lc_order c = [''10.0.0.1'']"
proof -
  let ?xs = "[(''Lab.test'', 5, exSign), ('' lab.test'', 100000000000000, exSign), (''10.0.0.1'', 7, exSign)]"
  let ?r = "runSome (leafStep ascii_env) ?xs (newLeafCache 1)"
  have "signsTemplate exSign" by (auto simp: signsTemplate_def exSign_def)
  then have g: "list_all (\<lambda>(host, now, sign). signsTemplate sign) ?xs" by simp
  have e: "case ?r of None \<Rightarrow> False | Some (c, rs) \<Rightarrow> lc_order c = [''10.0.0.1''] \<and> map isl rs = [False, False, False]" by code_simp
  from presented_leaf_is_valid[OF g, of ascii_env 1] obtain c rs where c: "?r = Some (c, rs)" "list_all2 (goodLeaf ascii_env) ?xs rs" by blast
  from c(2) obtain r1 r2 r3 where rs: "rs = [r1, r2, r3]" by (auto simp: list_all2_Cons1)
  with c e show ?thesis by auto
qed

end
