(* ===== verification/Proxy_Exchange.thy ===== *)
theory Proxy_Exchange
  imports Proxy_HTTPAuth Store_Breakpoint GRPC_Decode
begin

text \<open>
  One HTTP exchange under the rules (\<open>internal/proxy/rules.go\<close>, with the capped capture of
  \<open>capture.go\<close>, the flows of \<open>forward.go\<close> and \<open>intercept.go\<close>, and the stamping of
  \<open>server.go\<close>). A body is the bytes its reader will still deliver and whether it then fails;
  nil and \<open>http.NoBody\<close> are no body. How far a body is read, how a sleep ends and what the inbox
  answers are arguments; what is written to the client and which flows are stored is collected. A
  throttle changes when bytes move, not which: a paced body is marked with its rate.
\<close>

subsection \<open>Messages\<close>

record http_body =
  bd_data :: "byte list"
  bd_err :: bool

record h2Meta =
  hm_streamID :: "32 word"
  hm_protocol :: string
  hm_pseudos :: "header list"

record httpReq =
  hq_Method :: string
  hq_Path :: string
  hq_RawQuery :: string
  hq_URL :: string
  hq_ProtoMajor :: int
  hq_Header :: headers
  hq_Body :: "http_body option"
  hq_ContentLength :: int
  hq_TransferEncoding :: "string list"
  hq_Meta :: "h2Meta option"
  hq_Host :: string
  hq_URLScheme :: string
  hq_URLHost :: string
  hq_RemoteAddr :: string
  hq_pace :: "int option"

record httpResp =
  hr_StatusCode :: int
  hr_Header :: headers
  hr_Body :: "http_body option"
  hr_ContentLength :: int
  hr_TransferEncoding :: "string list"
  hr_Trailer :: headers
  hr_pace :: "int option"

definition bytesBody :: "byte list \<Rightarrow> http_body option" where
  "bytesBody b = Some \<lparr>bd_data = b, bd_err = False\<rparr>"

definition hdrAdd :: "string \<Rightarrow> string \<Rightarrow> headers \<Rightarrow> headers" where
  "hdrAdd key v h = AList.update (CanonicalHeaderKey key) (hdrValues h key @ [v]) h"

subsection \<open>Capped capture (capture.go)\<close>

record cappedWriter =
  cw_buf :: "byte list"
  cw_max :: int
  cw_truncated :: bool

definition cappedWrite :: "byte list \<Rightarrow> cappedWriter \<Rightarrow> cappedWriter" where
  "cappedWrite p c0 =
     (let c = (if cw_max c0 \<le> 0 then c0\<lparr>cw_max := 2 ^ 20\<rparr> else c0); remain = cw_max c - int (length (cw_buf c))
      in if remain > 0 then
           (if int (length p) > remain then c\<lparr>cw_buf := cw_buf c @ take (nat remain) p, cw_truncated := True\<rparr>
            else c\<lparr>cw_buf := cw_buf c @ p\<rparr>)
         else if p \<noteq> [] then c\<lparr>cw_truncated := True\<rparr>
         else c)"

text \<open>What the tee has captured after the first \<open>k\<close> bytes went through it, in pieces of any size.\<close>

definition teeBody :: "int \<Rightarrow> cappedWriter" where
  "teeBody mx = \<lparr>cw_buf = [], cw_max = mx, cw_truncated = False\<rparr>"

definition headersFrom :: "headers \<Rightarrow> header slice" where
  "headersFrom h =
     (if h = [] then None else Some (concat (map (\<lambda>(name, vs). map (\<lambda>v. \<lparr>hdr_Name = name, hdr_Value = v\<rparr>) vs) h)))"

subsection \<open>The request as the rules and the inbox see it\<close>

definition requestProtocol :: "httpReq \<Rightarrow> string" where
  "requestProtocol req =
     (case hq_Meta req of
        Some m \<Rightarrow> if hm_protocol m \<noteq> '''' then hm_protocol m else if hq_ProtoMajor req = 2 then ''h2'' else ''http/1.1''
      | None \<Rightarrow> if hq_ProtoMajor req = 2 then ''h2'' else ''http/1.1'')"

definition mergePseudoHeaders :: "go_env \<Rightarrow> header list \<Rightarrow> headers \<Rightarrow> header list" where
  "mergePseudoHeaders u pseudos h =
     pseudos @ filter (\<lambda>x. ToLower u (hdr_Name x) \<notin> (\<lambda>p. ToLower u (hdr_Name p)) ` set pseudos) (elems (headersFrom h))"

definition stripCapturedProxyAuthorization :: "go_env \<Rightarrow> header slice \<Rightarrow> header slice" where
  "stripCapturedProxyAuthorization u hs =
     (if elems hs = [] then hs else Some (filter (\<lambda>x. \<not> EqualFold u (hdr_Name x) ''Proxy-Authorization'') (elems hs)))"

definition pseudosOf :: "httpReq \<Rightarrow> header list" where
  "pseudosOf req = (case hq_Meta req of None \<Rightarrow> [] | Some m \<Rightarrow> hm_pseudos m)"

definition requestCaptureHeaders :: "go_env \<Rightarrow> httpReq \<Rightarrow> header slice" where
  "requestCaptureHeaders u req =
     stripCapturedProxyAuthorization u
       (if pseudosOf req \<noteq> [] then Some (mergePseudoHeaders u (pseudosOf req) (hq_Header req)) else headersFrom (hq_Header req))"

definition requestPath :: "httpReq \<Rightarrow> string" where
  "requestPath req = (if hq_Path req = '''' then ''/'' else hq_Path req)"

definition matchHit :: "go_env \<Rightarrow> Engine option \<Rightarrow> string \<Rightarrow> string \<Rightarrow> httpReq \<Rightarrow> headers \<Rightarrow> Hit option" where
  "matchHit u eng phase host req hdr =
     Match u eng phase
       \<lparr>rq_Host = host, rq_Path = requestPath req, rq_Method = hq_Method req,
        rq_Headers = elems (if phase = RulePhaseRequest then requestCaptureHeaders u req
                            else if pseudosOf req \<noteq> [] then Some (mergePseudoHeaders u (pseudosOf req) hdr) else headersFrom hdr),
        rq_Protocol = requestProtocol req, rq_Opcode = '''', rq_Direction = '''', rq_Payload = None\<rparr>"

subsection \<open>Headers and bodies\<close>

definition applyHTTPHeaders :: "RuleHeadersSpec \<Rightarrow> headers \<Rightarrow> headers" where
  "applyHTTPHeaders spec h =
     (let h1 = fold hdrDel (rh_Remove spec) h
      in fold (\<lambda>k. hdrSet k (case map_of (rh_Set spec) k of None \<Rightarrow> '''' | Some v \<Rightarrow> v)) (sort (map fst (rh_Set spec))) h1)"

definition applyPatchToHeader :: "header slice \<Rightarrow> headers \<Rightarrow> headers" where
  "applyPatchToHeader hs h =
     (case hs of None \<Rightarrow> h
      | Some xs \<Rightarrow> fold (\<lambda>x. hdrAdd (hdr_Name x) (hdr_Value x)) xs (fold hdrDel (map fst h) h))"

text \<open>The prefix, whether the body goes on, what is then left to read, and whether the read failed.\<close>

definition readCapped :: "http_body option \<Rightarrow> int \<Rightarrow> byte list \<times> bool \<times> http_body option \<times> bool" where
  "readCapped r mx0 =
     (case r of None \<Rightarrow> ([], False, None, False)
      | Some b \<Rightarrow>
        let mx = (if mx0 \<le> 0 then 2 ^ 20 else mx0)
        in if int (length (bd_data b)) > mx then (take (nat mx) (bd_data b), True, Some (b\<lparr>bd_data := drop (nat mx) (bd_data b)\<rparr>), False)
           else (bd_data b, False, None, bd_err b))"

text \<open>\<open>io.MultiReader\<close> of a prefix and the rest.\<close>

definition prefixed :: "byte list \<Rightarrow> http_body option \<Rightarrow> http_body option" where
  "prefixed p r = Some (case r of None \<Rightarrow> \<lparr>bd_data = p, bd_err = False\<rparr> | Some b \<Rightarrow> b\<lparr>bd_data := p @ bd_data b\<rparr>)"

definition maxBodyOf :: "Spec \<Rightarrow> int" where
  "maxBodyOf sp = (if ss_MaxBodyBytes (sp_Store sp) \<le> 0 then 2 ^ 20 else ss_MaxBodyBytes (sp_Store sp))"

definition maxBodyReplace :: int where "maxBodyReplace = 65536"

definition replaceable :: "bool \<Rightarrow> byte list \<Rightarrow> int \<Rightarrow> bool" where
  "replaceable overflow new mx \<longleftrightarrow> \<not> (overflow \<or> int (length new) > mx \<or> int (length new) > maxBodyReplace)"

definition maybeReplaceRequestBody :: "Hit option \<Rightarrow> bool \<Rightarrow> int \<Rightarrow> httpReq \<times> cappedWriter \<Rightarrow> httpReq \<times> cappedWriter" where
  "maybeReplaceRequestBody hit overflow mx x =
     (case x of (req, capw) \<Rightarrow>
        case BodyReplace hit of (new, ok) \<Rightarrow>
          if \<not> ok then (req, capw)
          else if \<not> replaceable overflow (elems new) mx then (req, capw)
          else (req\<lparr>hq_Body := bytesBody (elems new), hq_ContentLength := int (length (elems new)), hq_TransferEncoding := []\<rparr>,
                capw\<lparr>cw_buf := elems new, cw_truncated := False\<rparr>))"

definition prepareRequestBody :: "Hit option \<Rightarrow> Spec \<Rightarrow> httpReq \<Rightarrow> httpReq \<times> cappedWriter option" where
  "prepareRequestBody hit sp req =
     (if \<not> Mutates hit then (req, None)
      else let mx = maxBodyOf sp; capw = \<lparr>cw_buf = [], cw_max = mx, cw_truncated = False\<rparr>
      in case hq_Body req of
           None \<Rightarrow> apsnd Some (maybeReplaceRequestBody hit False mx (req, capw))
         | Some b \<Rightarrow>
           (case readCapped (Some b) mx of (pre, overflow, rest, err) \<Rightarrow>
              let capw1 = capw\<lparr>cw_buf := pre, cw_truncated := overflow\<rparr>
              in if err then (req\<lparr>hq_Body := bytesBody pre, hq_ContentLength := int (length pre)\<rparr>, Some capw1)
                 else let req1 = (if overflow then req\<lparr>hq_Body := prefixed pre rest, hq_ContentLength := - 1, hq_TransferEncoding := [''chunked'']\<rparr>
                                  else req\<lparr>hq_Body := bytesBody pre, hq_ContentLength := int (length pre), hq_TransferEncoding := []\<rparr>)
                 in apsnd Some (maybeReplaceRequestBody hit overflow mx (req1, capw1))))"

definition bufferResponse :: "Hit option \<Rightarrow> Spec \<Rightarrow> httpResp \<Rightarrow> httpResp \<times> cappedWriter" where
  "bufferResponse hit sp resp =
     (let mx = maxBodyOf sp
      in case readCapped (hr_Body resp) mx of (pre, overflow, rest, err) \<Rightarrow>
        let capw = \<lparr>cw_buf = pre, cw_max = mx, cw_truncated = overflow\<rparr>
        in if err then (resp\<lparr>hr_Body := bytesBody pre, hr_ContentLength := int (length pre)\<rparr>, capw)
           else let resp1 = (if overflow then resp\<lparr>hr_Body := prefixed pre rest, hr_ContentLength := - 1\<rparr>
                             else resp\<lparr>hr_Body := bytesBody pre, hr_ContentLength := int (length pre), hr_TransferEncoding := []\<rparr>)
           in case BodyReplace hit of (new, ok) \<Rightarrow>
             if \<not> ok then (resp1, capw)
             else if \<not> replaceable overflow (elems new) mx then (resp1, capw)
             else (resp1\<lparr>hr_Body := bytesBody (elems new), hr_ContentLength := int (length (elems new)),
                     hr_Header := hdrSet ''Content-Length'' (FormatInt (int (length (elems new)))) (hr_Header resp1), hr_TransferEncoding := []\<rparr>,
                   capw\<lparr>cw_buf := elems new, cw_truncated := False\<rparr>))"

definition applyResumePatchRequest :: "ResumePatch \<Rightarrow> httpReq \<times> cappedWriter option \<Rightarrow> httpReq \<times> cappedWriter option" where
  "applyResumePatchRequest patch x =
     (case x of (req, capw) \<Rightarrow>
        let req1 = req\<lparr>hq_Header := applyPatchToHeader (rp_Headers patch) (hq_Header req)\<rparr>
        in case rp_Body patch of None \<Rightarrow> (req1, capw)
           | Some b \<Rightarrow> (req1\<lparr>hq_Body := bytesBody b, hq_ContentLength := int (length b), hq_TransferEncoding := []\<rparr>,
                        Some \<lparr>cw_buf = b, cw_max = int (length b), cw_truncated = False\<rparr>))"

definition applyResumePatchResponse :: "ResumePatch \<Rightarrow> httpResp \<times> cappedWriter \<Rightarrow> httpResp \<times> cappedWriter" where
  "applyResumePatchResponse patch x =
     (case x of (resp, capw) \<Rightarrow>
        let resp1 = resp\<lparr>hr_Header := applyPatchToHeader (rp_Headers patch) (hr_Header resp)\<rparr>
        in case rp_Body patch of None \<Rightarrow> (resp1, capw)
           | Some b \<Rightarrow> (resp1\<lparr>hr_Body := bytesBody b, hr_ContentLength := int (length b),
                          hr_Header := hdrSet ''Content-Length'' (FormatInt (int (length b))) (hr_Header resp1), hr_TransferEncoding := []\<rparr>,
                        \<lparr>cw_buf = b, cw_max = int (length b), cw_truncated = False\<rparr>))"

definition syntheticResponse :: "go_env \<Rightarrow> Hit \<Rightarrow> httpResp" where
  "syntheticResponse u hit =
     (let t = ra_Type (hit_Action hit);
          status = (if t = ''redirect'' then RedirectStatus (Some hit) else if t = ''breakpoint'' then DefaultSyntheticStatus else StatusFor (Some hit));
          h1 = (if t \<noteq> ''breakpoint'' then applyHTTPHeaders (ra_Headers (hit_Action hit)) [] else []);
          h2 = (if t = ''redirect'' then hdrSet ''Location'' (RedirectLocation u (Some hit)) h1 else h1);
          body = (case BodyReplace (Some hit) of (new, ok) \<Rightarrow> if \<not> ok \<or> t = ''breakpoint'' then [] else elems new);
          h3 = (if body \<noteq> [] \<and> hdrGet h2 ''Content-Type'' = '''' then hdrSet ''Content-Type'' ''text/plain; charset=utf-8'' h2 else h2)
      in \<lparr>hr_StatusCode = status, hr_Header = hdrSet ''Content-Length'' (FormatInt (int (length body))) h3, hr_Body = bytesBody body,
          hr_ContentLength = int (length body), hr_TransferEncoding = [], hr_Trailer = [], hr_pace = None\<rparr>)"

subsection \<open>Sessions and flows\<close>

text \<open>A session as far as the rules use it; the spec, the engine and the epoch it pins are arguments or
  kept outside.\<close>

record ruleSession =
  xs_spec :: Spec
  xs_eng :: "Engine option"
  xs_reqHit :: "Hit option"
  xs_respHit :: "Hit option"
  xs_reqCap :: "cappedWriter option"
  xs_skipInsert :: bool
  xs_reqTrailers :: "header slice"
  xs_respTrailers :: "header slice"
  xs_via :: string
  xs_socks :: "SOCKSInfo option"
  xs_originalDest :: string
  xs_closeMode :: string

definition setCloseMode :: "go_env \<Rightarrow> Hit \<Rightarrow> ruleSession \<Rightarrow> ruleSession" where
  "setCloseMode u hit sess = sess\<lparr>xs_closeMode := SilentClose u (Some hit)\<rparr>"

definition closeModeOr :: "ruleSession \<Rightarrow> string \<Rightarrow> string" where
  "closeModeOr sess d = (if xs_closeMode sess \<noteq> '''' then xs_closeMode sess else d)"

definition zeroMessage :: HTTPMessage where
  "zeroMessage = \<lparr>msg_Headers = None, msg_Trailers = None, msg_Body = None, msg_Size = 0, msg_Truncated = False\<rparr>"

definition zeroFlow :: Flow where
  "zeroFlow = \<lparr>fl_ID = '''', fl_StartedAt = 0, fl_CompletedAt = 0, fl_State = '''', fl_PausedPhase = '''', fl_ClientAddr = '''', fl_Method = '''',
     fl_URL = '''', fl_Host = '''', fl_Scheme = '''', fl_Protocol = '''', fl_Status = 0, fl_Error = '''', fl_Intercepted = False,
     fl_Request = zeroMessage, fl_Response = zeroMessage, fl_TLS = None, fl_HTTP2 = None, fl_SOCKS = None, fl_WebSocket = None, fl_GRPC = None,
     fl_Via = '''', fl_OriginalDest = '''', fl_Timings = \<lparr>tm_DNSMs = 0, tm_ConnectMs = 0, tm_TLSMs = 0, tm_TTFBMs = 0, tm_TotalMs = 0\<rparr>,
     fl_RuleIDs = None, fl_Truncated = False\<rparr>"

definition FlowStateError :: string where "FlowStateError = ''error''"

definition applyH2Meta :: "httpReq \<Rightarrow> Flow \<Rightarrow> Flow" where
  "applyH2Meta req f =
     (case hq_Meta req of None \<Rightarrow> f
      | Some m \<Rightarrow>
        let f1 = (if hm_protocol m \<noteq> '''' then f\<lparr>fl_Protocol := hm_protocol m\<rparr> else f)
        in if hm_streamID m \<noteq> 0
           then f1\<lparr>fl_HTTP2 := Some \<lparr>h2_StreamID = hm_streamID m, h2_ParentStreamID = 0, h2_PromisedID = 0, h2_Pushed = False\<rparr>\<rparr>
           else f1)"

text \<open>What an exchange needs of its surroundings: the clock when a flow completes, \<open>URL.String\<close> of an
  https URL, the media type parser, how sleeps end, how many bytes of a body the peer takes, and the
  answers of the inbox: the identifier an insert gives, how the wait ends, the row found after it.\<close>

record exchange_env =
  xe_now :: gotime
  xe_started :: gotime
  xe_httpsURL :: "string \<Rightarrow> string \<Rightarrow> string \<Rightarrow> string"
  xe_mime :: "string \<Rightarrow> string option"
  xe_sleep :: "duration \<Rightarrow> bool"
  xe_reqRead :: nat
  xe_respRead :: nat
  xe_inbox :: bool
  xe_insert :: "Flow \<Rightarrow> string option"
  xe_wait :: "string \<Rightarrow> duration \<Rightarrow> ResumePatch \<times> store_error option"
  xe_get :: "string \<Rightarrow> Flow option"

definition flowFromReq :: "exchange_env \<Rightarrow> httpReq \<Rightarrow> string \<Rightarrow> string \<Rightarrow> int \<Rightarrow> string \<Rightarrow> Flow" where
  "flowFromReq ev req host scheme status ferr =
     applyH2Meta req (zeroFlow\<lparr>fl_StartedAt := xe_started ev, fl_CompletedAt := xe_now ev,
       fl_State := (if ferr \<noteq> '''' then FlowStateError else FlowStateCompleted), fl_Method := hq_Method req, fl_URL := hq_URL req,
       fl_Host := host, fl_Scheme := scheme, fl_Protocol := requestProtocol req, fl_Status := status, fl_Error := ferr\<rparr>)"

definition httpsOriginHost :: "string \<Rightarrow> string \<Rightarrow> string" where
  "httpsOriginHost host port =
     (if port \<noteq> [] \<and> port \<noteq> ''443'' then JoinHostPort host port
      else case ParseIP host of Some ip \<Rightarrow> if To4 ip = None then ''['' @ host @ '']'' else host | None \<Rightarrow> host)"

definition putRequestCap :: "cappedWriter option \<Rightarrow> Flow \<Rightarrow> Flow" where
  "putRequestCap c f =
     (case c of None \<Rightarrow> f
      | Some w \<Rightarrow> f\<lparr>fl_Request := (fl_Request f)\<lparr>msg_Body := append_nil (cw_buf w), msg_Size := int (length (cw_buf w)), msg_Truncated := cw_truncated w\<rparr>,
                     fl_Truncated := (fl_Truncated f \<or> cw_truncated w)\<rparr>)"

definition putResponseCap :: "cappedWriter option \<Rightarrow> Flow \<Rightarrow> Flow" where
  "putResponseCap c f =
     (case c of None \<Rightarrow> f
      | Some w \<Rightarrow> f\<lparr>fl_Response := (fl_Response f)\<lparr>msg_Body := append_nil (cw_buf w), msg_Size := int (length (cw_buf w)), msg_Truncated := cw_truncated w\<rparr>,
                     fl_Truncated := (fl_Truncated f \<or> cw_truncated w)\<rparr>)"

definition putRequestHeaders :: "go_env \<Rightarrow> httpReq \<Rightarrow> Flow \<Rightarrow> Flow" where
  "putRequestHeaders u req f = f\<lparr>fl_Request := (fl_Request f)\<lparr>msg_Headers := requestCaptureHeaders u req\<rparr>\<rparr>"

definition innerFlow :: "go_env \<Rightarrow> exchange_env \<Rightarrow> httpReq \<Rightarrow> string \<Rightarrow> string \<Rightarrow> int \<Rightarrow> string \<Rightarrow> TLSInfo \<Rightarrow> cappedWriter option \<Rightarrow> cappedWriter option \<Rightarrow> Flow" where
  "innerFlow u ev req host port status ferr info reqCap respCap =
     putResponseCap respCap (putRequestCap reqCap (putRequestHeaders u req
       (applyH2Meta req (zeroFlow\<lparr>fl_StartedAt := xe_started ev, fl_CompletedAt := xe_now ev,
          fl_State := (if ferr \<noteq> '''' then FlowStateError else FlowStateCompleted), fl_Method := hq_Method req,
          fl_URL := xe_httpsURL ev (httpsOriginHost host port) (hq_Path req) (hq_RawQuery req), fl_Host := host, fl_Scheme := ''https'',
          fl_Protocol := requestProtocol req, fl_Status := status, fl_Error := ferr, fl_Intercepted := True, fl_TLS := Some info\<rparr>))))"

definition completedFlow :: "go_env \<Rightarrow> exchange_env \<Rightarrow> httpReq \<Rightarrow> string \<Rightarrow> string \<Rightarrow> string \<Rightarrow> int \<Rightarrow> TLSInfo option \<Rightarrow> cappedWriter option \<Rightarrow> cappedWriter option \<Rightarrow> Flow" where
  "completedFlow u ev req host port scheme status info reqCap respCap =
     (case info of Some i \<Rightarrow> innerFlow u ev req host port status '''' i reqCap respCap
      | None \<Rightarrow> flowFromReq ev req host scheme status '''')"

text \<open>\<open>respHdr\<close> is none when the argument is nil.\<close>

definition annotateFlow :: "go_env \<Rightarrow> httpReq \<Rightarrow> cappedWriter option \<Rightarrow> cappedWriter option \<Rightarrow> headers option \<Rightarrow> Hit option list \<Rightarrow> Flow \<Rightarrow> Flow" where
  "annotateFlow u req reqCap respCap respHdr hits f =
     (let f1 = putRequestCap reqCap (applyH2Meta req (putRequestHeaders u req f));
          f2 = (case respHdr of None \<Rightarrow> f1 | Some h \<Rightarrow> f1\<lparr>fl_Response := (fl_Response f1)\<lparr>msg_Headers := headersFrom h\<rparr>\<rparr>);
          f3 = putResponseCap respCap f2;
          ids = filter (\<lambda>x. x \<noteq> '''') (map hit_ID (List.map_filter id hits))
      in if ids = [] then f3 else f3\<lparr>fl_RuleIDs := Some (elems (fl_RuleIDs f3) @ ids)\<rparr>)"

definition stampSession :: "ruleSession \<Rightarrow> Flow \<Rightarrow> Flow" where
  "stampSession sess f =
     (let f1 = (if fl_Via f = '''' \<and> xs_via sess \<noteq> '''' then f\<lparr>fl_Via := xs_via sess\<rparr> else f)
      in if fl_SOCKS f1 = None \<and> xs_socks sess \<noteq> None then f1\<lparr>fl_SOCKS := xs_socks sess\<rparr> else f1)"

definition maybeDecodeGRPC :: "go_env \<Rightarrow> exchange_env \<Rightarrow> ruleSession \<Rightarrow> Flow \<Rightarrow> Flow" where
  "maybeDecodeGRPC u ev sess f =
     (if \<not> h2s_GRPCDecode (pr_HTTP2 (sp_Protocols (xs_spec sess))) then f
      else case DecodeFlow u (xe_mime ev) (Some f) of (None, _) \<Rightarrow> f | (Some info, _) \<Rightarrow> f\<lparr>fl_GRPC := Some info\<rparr>)"

text \<open>The flow as it is handed to the inbox.\<close>

definition captureFlow :: "go_env \<Rightarrow> exchange_env \<Rightarrow> ruleSession \<Rightarrow> Flow \<Rightarrow> Flow" where
  "captureFlow u ev sess f =
     (let f1 = maybeDecodeGRPC u ev sess (stampSession sess f)
      in if xs_originalDest sess \<noteq> '''' \<and> fl_OriginalDest f1 = '''' then f1\<lparr>fl_OriginalDest := xs_originalDest sess\<rparr> else f1)"

definition putTrailers :: "ruleSession \<Rightarrow> Flow \<Rightarrow> Flow" where
  "putTrailers sess f =
     (let f1 = (if elems (xs_reqTrailers sess) \<noteq> [] \<and> elems (msg_Trailers (fl_Request f)) = []
                then f\<lparr>fl_Request := (fl_Request f)\<lparr>msg_Trailers := Some (elems (xs_reqTrailers sess))\<rparr>\<rparr> else f)
      in if elems (xs_respTrailers sess) \<noteq> [] \<and> elems (msg_Trailers (fl_Response f1)) = []
         then f1\<lparr>fl_Response := (fl_Response f1)\<lparr>msg_Trailers := Some (elems (xs_respTrailers sess))\<rparr>\<rparr> else f1)"

definition captureRule :: "go_env \<Rightarrow> exchange_env \<Rightarrow> ruleSession \<Rightarrow> httpReq \<Rightarrow> cappedWriter option \<Rightarrow> cappedWriter option \<Rightarrow> headers option \<Rightarrow> Hit option list \<Rightarrow> Flow \<Rightarrow> Flow" where
  "captureRule u ev sess req reqCap respCap respHdr hits f =
     captureFlow u ev sess (putTrailers sess (annotateFlow u req reqCap respCap respHdr hits f))"

definition pausedFlow :: "go_env \<Rightarrow> exchange_env \<Rightarrow> httpReq \<Rightarrow> string \<Rightarrow> string \<Rightarrow> string \<Rightarrow> cappedWriter option \<Rightarrow> cappedWriter option \<Rightarrow> httpResp option \<Rightarrow> Hit option list \<Rightarrow> Flow" where
  "pausedFlow u ev req host scheme phase reqCap respCap resp hits =
     annotateFlow u req reqCap respCap (map_option hr_Header resp) hits
       (zeroFlow\<lparr>fl_StartedAt := xe_started ev, fl_State := FlowStatePaused, fl_PausedPhase := phase, fl_Method := hq_Method req, fl_URL := hq_URL req,
          fl_Host := host, fl_Scheme := scheme, fl_Protocol := requestProtocol req, fl_Status := (case resp of None \<Rightarrow> 0 | Some r \<Rightarrow> hr_StatusCode r)\<rparr>)"

subsection \<open>Breakpoints\<close>

record bpResult =
  bp_id :: string
  bp_patch :: ResumePatch
  bp_dropped :: bool
  bp_timedOut :: bool
  bp_stored :: bool

definition noPatch :: ResumePatch where
  "noPatch = \<lparr>rp_Headers = None, rp_Body = None\<rparr>"

definition noBP :: bpResult where
  "noBP = \<lparr>bp_id = '''', bp_patch = noPatch, bp_dropped = False, bp_timedOut = False, bp_stored = False\<rparr>"

definition patchFromFlow :: "Flow \<Rightarrow> ResumePatch" where
  "patchFromFlow f =
     (let side = (if fl_PausedPhase f = RulePhaseResponse then fl_Response f else fl_Request f)
      in \<lparr>rp_Headers = msg_Headers side, rp_Body = msg_Body side\<rparr>)"

text \<open>The result and the row that was stored, if any.\<close>

definition waitBreakpoint :: "exchange_env \<Rightarrow> ruleSession \<Rightarrow> Hit \<Rightarrow> Flow \<Rightarrow> bpResult \<times> Flow list" where
  "waitBreakpoint ev sess hit f0 =
     (if \<not> xe_inbox ev then (noBP\<lparr>bp_timedOut := True\<rparr>, [])
      else let timeout = ClampBreakpointTimeout (ra_BreakpointTimeout (hit_Action hit)) (ss_MaxWait (sp_Store (xs_spec sess)));
               f1 = f0\<lparr>fl_State := FlowStatePaused, fl_PausedPhase := hit_Phase hit\<rparr>;
               f = stampSession sess (if fl_StartedAt f1 = 0 then f1\<lparr>fl_StartedAt := xe_now ev\<rparr> else f1)
      in case xe_insert ev f of None \<Rightarrow> (noBP\<lparr>bp_timedOut := True\<rparr>, [])
      | Some ident \<Rightarrow>
        (case xe_wait ev ident timeout of (patch, err) \<Rightarrow>
           let res = noBP\<lparr>bp_id := ident, bp_stored := True\<rparr>;
               after = (if err = None then res\<lparr>bp_patch := patch\<rparr>
                        else if err = Some ErrDropped then res\<lparr>bp_dropped := True\<rparr>
                        else res\<lparr>bp_timedOut := True\<rparr>)
           in (case xe_get ev ident of None \<Rightarrow> after
               | Some got \<Rightarrow>
                 if fl_State got = FlowStateDropped then res\<lparr>bp_dropped := True\<rparr>
                 else if fl_State got = FlowStateOpen \<or> fl_State got = FlowStateCompleted
                 then (if err = None then res\<lparr>bp_patch := patch\<rparr> else res\<lparr>bp_patch := patchFromFlow got\<rparr>)
                 else after, [f])))"

end
