(* ===== verification/Proxy_Phases.thy ===== *)
theory Proxy_Phases
  imports Proxy_Exchange
begin

text \<open>
  The two phases of the rules in one exchange (\<open>internal/proxy/rules.go\<close>, \<open>close.go\<close>) and
  their composition around the round trip to the origin (\<open>forward.go\<close>). Each phase returns the
  session, the message it went on with, what it wrote to the client and which flows it stored.
\<close>

datatype ruleResult = ruleContinue | ruleSynthesize | ruleSilentClose | ruleAbort

record request_out =
  ro_result :: ruleResult
  ro_sess :: ruleSession
  ro_req :: httpReq
  ro_written :: "httpResp list"
  ro_rows :: "Flow list"

definition captureSilentRequest :: "go_env \<Rightarrow> exchange_env \<Rightarrow> ruleSession \<Rightarrow> httpReq \<Rightarrow> string \<Rightarrow> string \<Rightarrow> string \<Rightarrow> Hit \<Rightarrow> string \<Rightarrow> TLSInfo option \<Rightarrow> Flow" where
  "captureSilentRequest u ev sess req host port scheme hit ferr info =
     captureRule u ev sess req (xs_reqCap sess) None None [Some hit]
       ((completedFlow u ev req host port scheme 0 info (xs_reqCap sess) None)\<lparr>fl_Error := ferr\<rparr>)"

text \<open>The response as it is written: writing strips the hop-by-hop headers from the header map itself.\<close>

definition writeClientResponse :: "go_env \<Rightarrow> httpResp \<Rightarrow> httpResp" where
  "writeClientResponse u resp = resp\<lparr>hr_Header := PrepareResponse u (hr_Header resp) False\<rparr>"

subsection \<open>The request phase\<close>

definition requestSynthesized :: "go_env \<Rightarrow> exchange_env \<Rightarrow> ruleSession \<Rightarrow> httpReq \<Rightarrow> string \<Rightarrow> string \<Rightarrow> Hit \<Rightarrow> request_out" where
  "requestSynthesized u ev sess req host scheme hit =
     (case prepareRequestBody (Some hit) (xs_spec sess) req of (req1, cap) \<Rightarrow>
        let sess1 = sess\<lparr>xs_reqCap := cap\<rparr>; syn = writeClientResponse u (syntheticResponse u hit); body = elems (fst (BodyReplace (Some hit)));
            respCap = \<lparr>cw_buf = body, cw_max = int (length body), cw_truncated = False\<rparr>
        in \<lparr>ro_result = ruleSynthesize, ro_sess = sess1, ro_req = req1, ro_written = [syn],
            ro_rows = [captureRule u ev sess1 req1 cap (Some respCap) (Some (hr_Header syn)) [Some hit]
              (flowFromReq ev req1 host scheme (hr_StatusCode syn) '''')]\<rparr>)"

definition requestBreakpoint :: "go_env \<Rightarrow> exchange_env \<Rightarrow> ruleSession \<Rightarrow> httpReq \<Rightarrow> string \<Rightarrow> string \<Rightarrow> Hit \<Rightarrow> request_out" where
  "requestBreakpoint u ev sess req host scheme hit =
     (case prepareRequestBody (Some hit) (xs_spec sess) req of (req1, cap) \<Rightarrow>
        let sess1 = sess\<lparr>xs_reqCap := cap\<rparr>
        in case waitBreakpoint ev sess1 hit (pausedFlow u ev req1 host scheme RulePhaseRequest cap None None [Some hit]) of (bp, rows) \<Rightarrow>
          if bp_dropped bp
          then \<lparr>ro_result = ruleSynthesize, ro_sess = sess1, ro_req = req1, ro_written = [writeClientResponse u (syntheticResponse u hit)], ro_rows = rows\<rparr>
          else if bp_timedOut bp
          then \<lparr>ro_result = ruleContinue, ro_sess = sess1\<lparr>xs_skipInsert := True\<rparr>, ro_req = req1, ro_written = [], ro_rows = rows\<rparr>
          else (case applyResumePatchRequest (bp_patch bp) (req1, cap) of (req2, cap2) \<Rightarrow>
                  \<lparr>ro_result = ruleContinue, ro_sess = sess1\<lparr>xs_reqCap := cap2\<rparr>, ro_req = req2, ro_written = [], ro_rows = rows\<rparr>))"

definition runRequestRulesWrite :: "go_env \<Rightarrow> exchange_env \<Rightarrow> ruleSession \<Rightarrow> httpReq \<Rightarrow> string \<Rightarrow> string \<Rightarrow> string \<Rightarrow> TLSInfo option \<Rightarrow> request_out" where
  "runRequestRulesWrite u ev sess req host port scheme info =
     (let go = (\<lambda>res sess req. \<lparr>ro_result = res, ro_sess = sess, ro_req = req, ro_written = [], ro_rows = []\<rparr>)
      in case xs_reqHit sess of None \<Rightarrow> go ruleContinue sess req
      | Some hit \<Rightarrow>
        let a = hit_Action hit; t = ra_Type a;
            silent = (\<lambda>ferr. let sess1 = setCloseMode u hit sess
                             in \<lparr>ro_result = ruleSilentClose, ro_sess = sess1, ro_req = req, ro_written = [],
                                 ro_rows = [captureSilentRequest u ev sess1 req host port scheme hit ferr info]\<rparr>)
        in if t = ''delay'' then (if ClampDelay (ra_Delay a) \<le> 0 \<or> xe_sleep ev (ClampDelay (ra_Delay a)) then go ruleContinue sess req else go ruleAbort sess req)
           else if t = ''throttle'' then go ruleContinue sess (req\<lparr>hq_pace := (if hq_Body req = None then None else Some (ra_BytesPerSecond a))\<rparr>)
           else if t = ''header'' then go ruleContinue sess (req\<lparr>hq_Header := applyHTTPHeaders (ra_Headers a) (hq_Header req)\<rparr>)
           else if t = ''body'' then (case prepareRequestBody (Some hit) (xs_spec sess) req of (req1, cap) \<Rightarrow> go ruleContinue (sess\<lparr>xs_reqCap := cap\<rparr>) req1)
           else if t \<in> {''drop'', ''status'', ''redirect''} then requestSynthesized u ev sess req host scheme hit
           else if t = ''silent'' then silent ''rule_silent''
           else if t = ''hang'' then
             (if xe_sleep ev (ClampDelay (ClampHangTimeout (ra_HangTimeout a) (ad_SessionTimeout (px_Admission (sp_Proxy (xs_spec sess))))))
              then silent ''rule_hang'' else go ruleAbort sess req)
           else if t = ''breakpoint'' then requestBreakpoint u ev sess req host scheme hit
           else go ruleContinue sess req)"

subsection \<open>The response phase\<close>

record response_out =
  so_result :: ruleResult
  so_sess :: ruleSession
  so_sent :: "httpResp list"
  so_rows :: "Flow list"

text \<open>How the phase goes on after the action: it is over, or the response is written, with the capture
  (none if the body is teed as it is written) and whether the flow is stored.\<close>

datatype response_step =
    PhaseOver response_out
  | WriteResponse ruleSession httpResp "cappedWriter option" bool "Flow list"

definition responseSilent :: "go_env \<Rightarrow> exchange_env \<Rightarrow> ruleSession \<Rightarrow> httpReq \<Rightarrow> string \<Rightarrow> string \<Rightarrow> string \<Rightarrow> TLSInfo option \<Rightarrow> Hit \<Rightarrow> response_step" where
  "responseSilent u ev sess req host port scheme info hit =
     (let hang = (ra_Type (hit_Action hit) = ''hang'')
      in if hang \<and> \<not> xe_sleep ev (ClampDelay (ClampHangTimeout (ra_HangTimeout (hit_Action hit)) (ad_SessionTimeout (px_Admission (sp_Proxy (xs_spec sess))))))
         then PhaseOver \<lparr>so_result = ruleAbort, so_sess = sess, so_sent = [], so_rows = []\<rparr>
         else let sess1 = setCloseMode u hit sess
         in PhaseOver \<lparr>so_result = ruleSilentClose, so_sess = sess1, so_sent = [],
              so_rows = [captureRule u ev sess1 req (xs_reqCap sess1) None None [xs_reqHit sess1, Some hit]
                ((completedFlow u ev req host port scheme 0 info (xs_reqCap sess1) None)\<lparr>fl_Error := (if hang then ''rule_hang'' else ''rule_silent'')\<rparr>)]\<rparr>)"

definition responseDropped :: "go_env \<Rightarrow> exchange_env \<Rightarrow> ruleSession \<Rightarrow> httpReq \<Rightarrow> httpResp \<Rightarrow> string \<Rightarrow> string \<Rightarrow> string \<Rightarrow> TLSInfo option \<Rightarrow> Hit \<Rightarrow> response_step" where
  "responseDropped u ev sess req resp host port scheme info hit =
     (case bufferResponse (Some hit) (xs_spec sess) resp of (resp1, cap) \<Rightarrow>
        let syn = writeClientResponse u (syntheticResponse u hit)
        in PhaseOver \<lparr>so_result = ruleSynthesize, so_sess = sess, so_sent = [syn],
             so_rows = [captureRule u ev sess req (xs_reqCap sess) (Some cap) (Some (hr_Header syn)) [xs_reqHit sess, Some hit]
               (completedFlow u ev req host port scheme (hr_StatusCode syn) info (xs_reqCap sess) (Some cap))]\<rparr>)"

definition responseBreakpoint :: "go_env \<Rightarrow> exchange_env \<Rightarrow> ruleSession \<Rightarrow> httpReq \<Rightarrow> httpResp \<Rightarrow> string \<Rightarrow> string \<Rightarrow> TLSInfo option \<Rightarrow> Hit \<Rightarrow> response_step" where
  "responseBreakpoint u ev sess req resp host scheme info hit =
     (case bufferResponse (Some hit) (xs_spec sess) resp of (resp1, cap) \<Rightarrow>
        let f0 = pausedFlow u ev req host scheme RulePhaseResponse (xs_reqCap sess) (Some cap) (Some resp1) [xs_reqHit sess, Some hit];
            f = (case info of None \<Rightarrow> f0 | Some i \<Rightarrow> f0\<lparr>fl_TLS := Some i, fl_Intercepted := True, fl_Scheme := scheme\<rparr>)
        in case waitBreakpoint ev sess hit f of (bp, rows) \<Rightarrow>
          if bp_dropped bp then PhaseOver \<lparr>so_result = ruleSynthesize, so_sess = sess, so_sent = [writeClientResponse u (syntheticResponse u hit)], so_rows = rows\<rparr>
          else if bp_timedOut bp then WriteResponse sess resp1 (Some cap) True rows
          else (case applyResumePatchResponse (bp_patch bp) (resp1, cap) of (resp2, cap2) \<Rightarrow> WriteResponse sess resp2 (Some cap2) (bp_stored bp) rows))"

definition responseAction :: "go_env \<Rightarrow> exchange_env \<Rightarrow> ruleSession \<Rightarrow> httpReq \<Rightarrow> httpResp \<Rightarrow> string \<Rightarrow> string \<Rightarrow> string \<Rightarrow> TLSInfo option \<Rightarrow> response_step" where
  "responseAction u ev sess req resp host port scheme info =
     (let skip = xs_skipInsert sess
      in case xs_respHit sess of None \<Rightarrow> WriteResponse sess resp None skip []
      | Some hit \<Rightarrow>
        let a = hit_Action hit; t = ra_Type a;
            buffered = (\<lambda>resp. case bufferResponse (Some hit) (xs_spec sess) resp of (resp1, cap) \<Rightarrow> WriteResponse sess resp1 (Some cap) skip [])
        in if t = ''header'' then WriteResponse sess (resp\<lparr>hr_Header := applyHTTPHeaders (ra_Headers a) (hr_Header resp)\<rparr>) None skip []
           else if t = ''body'' then buffered resp
           else if t = ''status'' then
             buffered (resp\<lparr>hr_StatusCode := StatusFor (Some hit), hr_Header := applyHTTPHeaders (ra_Headers a) (hr_Header resp)\<rparr>)
           else if t = ''redirect'' then
             buffered (resp\<lparr>hr_StatusCode := RedirectStatus (Some hit),
               hr_Header := hdrSet ''Location'' (RedirectLocation u (Some hit)) (applyHTTPHeaders (ra_Headers a) (hr_Header resp))\<rparr>)
           else if t \<in> {''silent'', ''hang''} then responseSilent u ev sess req host port scheme info hit
           else if t = ''drop'' then responseDropped u ev sess req resp host port scheme info hit
           else if t = ''breakpoint'' then responseBreakpoint u ev sess req resp host scheme info hit
           else WriteResponse sess resp None skip [])"

definition teeResponse :: "exchange_env \<Rightarrow> Spec \<Rightarrow> httpResp \<Rightarrow> cappedWriter" where
  "teeResponse ev sp resp =
     cappedWrite (take (xe_respRead ev) (case hr_Body resp of None \<Rightarrow> [] | Some b \<Rightarrow> bd_data b)) (teeBody (maxBodyOf sp))"

definition finishResponseWrite :: "go_env \<Rightarrow> exchange_env \<Rightarrow> ruleSession \<Rightarrow> httpReq \<Rightarrow> httpResp \<Rightarrow> string \<Rightarrow> string \<Rightarrow> string \<Rightarrow> TLSInfo option \<Rightarrow> bool \<Rightarrow> response_out" where
  "finishResponseWrite u ev sess0 req resp host port scheme info streamClient =
     (let sess = sess0\<lparr>xs_respHit := matchHit u (xs_eng sess0) RulePhaseResponse host req (hr_Header resp)\<rparr>
      in case responseAction u ev sess req resp host port scheme info of
           PhaseOver out \<Rightarrow> out
         | WriteResponse sess1 resp1 cap skip rows \<Rightarrow>
           let respCap = (case cap of Some c \<Rightarrow> c | None \<Rightarrow> teeResponse ev (xs_spec sess1) resp1);
               paced = (case xs_respHit sess1 of Some hit \<Rightarrow> streamClient \<and> ra_Type (hit_Action hit) = ''throttle'' \<and> hr_Body resp1 \<noteq> None | None \<Rightarrow> False);
               resp2 = writeClientResponse u (if paced then resp1\<lparr>hr_pace := Some (ra_BytesPerSecond (hit_Action (the (xs_respHit sess1))))\<rparr> else resp1);
               sess2 = sess1\<lparr>xs_respTrailers := headersFrom (hr_Trailer resp2)\<rparr>
           in \<lparr>so_result = ruleContinue, so_sess = sess2, so_sent = [resp2],
               so_rows = rows @ (if skip then []
                 else [captureRule u ev sess2 req (xs_reqCap sess2) (Some respCap) (Some (hr_Header resp2)) [xs_reqHit sess2, xs_respHit sess2]
                   (completedFlow u ev req host port scheme (hr_StatusCode resp2) info (xs_reqCap sess2) (Some respCap))])\<rparr>)"

subsection \<open>The exchange\<close>

text \<open>The request that goes to the origin: the pinned address, the Host value, end-to-end headers, and the
  capture of its body as far as it is read.\<close>

definition originRequest :: "go_env \<Rightarrow> exchange_env \<Rightarrow> Spec \<Rightarrow> httpReq \<Rightarrow> resolved \<Rightarrow> string \<Rightarrow> string \<Rightarrow> cappedWriter option \<Rightarrow> string \<times> string \<times> httpReq \<times> cappedWriter option" where
  "originRequest u ev sp req res host port preCap =
     (let out = req\<lparr>hq_Header := PrepareRequest u (hq_Header req), hq_Path := (if hq_Path req = '''' then ''/'' else hq_Path req)\<rparr>
      in (pinnedAddr (rv_Selected res) (rv_Port res), originHost host port, out,
          case preCap of Some c \<Rightarrow> Some c
          | None \<Rightarrow> (case hq_Body out of None \<Rightarrow> None
                     | Some b \<Rightarrow> Some (cappedWrite (take (xe_reqRead ev) (bd_data b)) (teeBody (maxBodyOf sp))))))"

record exchange_out =
  eo_result :: ruleResult
  eo_origin :: "(string \<times> string \<times> httpReq) option"
  eo_sent :: "httpResp list"
  eo_rows :: "Flow list"
  eo_close :: "string option"

text \<open>The answer of the proxy itself, with its header map; it closes the connection.\<close>

definition writeProxyError :: "int \<Rightarrow> string \<Rightarrow> string \<Rightarrow> string \<Rightarrow> httpResp" where
  "writeProxyError status ecode msg remediation =
     \<lparr>hr_StatusCode = status, hr_Header = [(''Content-Type'', [''text/plain; charset=utf-8'']), (''Connection'', [''close''])],
      hr_Body = bytesBody (bytes_of (ecode @ '': '' @ msg @ [CHR 0x0A] @ (if remediation \<noteq> '''' then remediation @ [CHR 0x0A] else []))),
      hr_ContentLength = - 1, hr_TransferEncoding = [], hr_Trailer = [], hr_pace = None\<rparr>"

definition badGateway :: httpResp where
  "badGateway = writeProxyError 502 ''internal_error'' ''upstream request failed'' ''''"

text \<open>\<open>forwardOriginHTTP\<close> for a request that is neither a WebSocket upgrade nor expects a 100: the round
  trip to the origin is an argument, a failing one being none. The writer is that of a client.\<close>

definition forwardOriginHTTP :: "go_env \<Rightarrow> exchange_env \<Rightarrow> ruleSession \<Rightarrow> httpReq \<Rightarrow> resolved \<Rightarrow> string \<Rightarrow> string \<Rightarrow> (string \<times> string \<times> httpReq \<Rightarrow> httpResp option) \<Rightarrow> exchange_out" where
  "forwardOriginHTTP u ev sess0 req0 res host port roundTrip =
     (let sess = sess0\<lparr>xs_reqHit := matchHit u (xs_eng sess0) RulePhaseRequest host req0 (hq_Header req0)\<rparr>;
          r = runRequestRulesWrite u ev sess req0 host '''' ''http'' None
      in if ro_result r = ruleSilentClose
         then \<lparr>eo_result = ruleSilentClose, eo_origin = None, eo_sent = ro_written r, eo_rows = ro_rows r, eo_close = Some (closeModeOr (ro_sess r) ''rst'')\<rparr>
         else if ro_result r = ruleSynthesize \<or> ro_result r = ruleAbort
         then \<lparr>eo_result = ro_result r, eo_origin = None, eo_sent = ro_written r, eo_rows = ro_rows r, eo_close = None\<rparr>
         else case originRequest u ev (xs_spec sess) (ro_req r) res host port (xs_reqCap (ro_sess r)) of (addr, hostHdr, out, cap) \<Rightarrow>
           let sess1 = (case cap of None \<Rightarrow> ro_sess r | Some c \<Rightarrow> (ro_sess r)\<lparr>xs_reqCap := Some c\<rparr>)
           in case roundTrip (addr, hostHdr, out) of
                None \<Rightarrow> \<lparr>eo_result = ruleAbort, eo_origin = Some (addr, hostHdr, out), eo_sent = ro_written r @ [badGateway],
                         eo_rows = ro_rows r @ [captureRule u ev sess1 (ro_req r) (xs_reqCap sess1) None None [xs_reqHit sess1]
                           (flowFromReq ev (ro_req r) host ''http'' 0 ''upstream'')], eo_close = None\<rparr>
              | Some resp \<Rightarrow>
                let f = finishResponseWrite u ev sess1 (ro_req r) (writeClientResponse u resp) host '''' ''http'' None True
                in \<lparr>eo_result = so_result f, eo_origin = Some (addr, hostHdr, out), eo_sent = ro_written r @ so_sent f, eo_rows = ro_rows r @ so_rows f,
                    eo_close = (if so_result f = ruleSilentClose then Some (closeModeOr (so_sess f) ''rst'') else None)\<rparr>)"

end
