(* ===== verification/Proxy_Phases_Props.thy ===== *)
theory Proxy_Phases_Props
  imports Proxy_Phases
begin

text \<open>
  What the rules do to an exchange: the client gets a whole body, the inbox shows what the client got,
  every answered exchange is on record, and proxy credentials are neither stored nor sent on.
\<close>

subsection \<open>Capture\<close>

text \<open>The capture does not depend on how the bytes are cut into writes.\<close>

lemma cappedWrite_append: "cappedWrite q (cappedWrite p c) = cappedWrite (p @ q) c"
proof -
  define m where "m = (if cw_max c \<le> 0 then 2 ^ 20 else cw_max c)"
  define r where "r = m - int (length (cw_buf c))"
  have m: "0 < m" by (simp add: m_def)
  have wr: "cappedWrite p d = (let r = m - int (length (cw_buf d)) in
      if r > 0 then (if int (length p) > r then d\<lparr>cw_max := m, cw_buf := cw_buf d @ take (nat r) p, cw_truncated := True\<rparr> else d\<lparr>cw_max := m, cw_buf := cw_buf d @ p\<rparr>)
      else if p \<noteq> [] then d\<lparr>cw_max := m, cw_truncated := True\<rparr> else d\<lparr>cw_max := m\<rparr>)" if "m = (if cw_max d \<le> 0 then 2 ^ 20 else cw_max d)" for p d
    using that by (cases d) (simp add: cappedWrite_def Let_def)
  have again: "m = (if cw_max d \<le> 0 then 2 ^ 20 else cw_max d)" if "cw_max d = m" for d using that m by simp
  note one = wr[OF m_def, of p] and all = wr[OF m_def, of "p @ q"] and two = wr[OF again]
  consider "r \<le> 0" | "0 < r" "r < int (length p)" | "0 < r" "int (length p) \<le> r" by linarith
  then show ?thesis
  proof cases
    case 1
    then show ?thesis by (simp add: one all two Let_def r_def)
  next
    case 2
    then have "m - int (length (cw_buf c) + nat r) = 0" by (simp add: r_def)
    with 2 show ?thesis by (simp add: one all two Let_def flip: r_def)
  next
    case 3
    then have rest: "nat (m - (int (length (cw_buf c)) + int (length p))) = nat (m - int (length (cw_buf c))) - length p" by (simp add: r_def)
    consider "q = []" | "q \<noteq> []" "int (length p) = r" | "int (length p) < r" using 3 by linarith
    then show ?thesis
      by cases (use 3 rest in \<open>simp_all add: one all two Let_def r_def\<close>)
  qed
qed

lemma cappedWrite_pieces: "fold cappedWrite ps c = cappedWrite (concat ps) c" if "ps \<noteq> []"
  using that by (induction ps arbitrary: c rule: list_nonempty_induct) (simp_all add: cappedWrite_append)

lemma teed:
  assumes "0 < mx"
  shows "cw_buf (cappedWrite p (teeBody mx)) = take (nat mx) p" and "cw_truncated (cappedWrite p (teeBody mx)) = (int (length p) > mx)"
  using assms by (auto simp: cappedWrite_def teeBody_def Let_def)

lemma maxBodyOf_pos: "0 < maxBodyOf sp"
  by (simp add: maxBodyOf_def)

definition bodyBytes :: "http_body option \<Rightarrow> byte list" where
  "bodyBytes b = (case b of None \<Rightarrow> [] | Some x \<Rightarrow> bd_data x)"

lemma bodyBytes_simps [simp]: "bodyBytes None = []" "bodyBytes (Some b) = bd_data b" "bodyBytes (bytesBody p) = p"
  by (simp_all add: bodyBytes_def bytesBody_def)

lemma bodyBytes_prefixed [simp]: "bodyBytes (prefixed p r) = p @ bodyBytes r"
  by (auto simp: prefixed_def bodyBytes_def split: option.splits)

lemma readCapped_facts:
  assumes "readCapped r mx = (pre, overflow, rest, err)" and "0 < mx"
  shows "pre = take (nat mx) (bodyBytes r)" and "overflow = (int (length (bodyBytes r)) > mx)" and "overflow \<Longrightarrow> pre @ bodyBytes rest = bodyBytes r"
  using assms by (auto simp: readCapped_def Let_def split: option.splits if_splits)

text \<open>A body that is read to its end, not cut by an error of the connection.\<close>

definition bodyIntact :: "http_body option \<Rightarrow> bool" where
  "bodyIntact b \<longleftrightarrow> (case b of None \<Rightarrow> True | Some x \<Rightarrow> \<not> bd_err x)"

lemma bodyIntact_bytes [simp]: "bodyIntact (bytesBody b)"
  by (simp add: bodyIntact_def bytesBody_def)

text \<open>What buffering a response does to its bytes, and what is captured of them.\<close>

definition replacedBody :: "Hit option \<Rightarrow> int \<Rightarrow> httpResp \<Rightarrow> httpResp \<Rightarrow> bool" where
  "replacedBody hit mx resp resp1 \<longleftrightarrow>
     (case BodyReplace hit of (new, ok) \<Rightarrow> ok \<and> int (length (bodyBytes (hr_Body resp))) \<le> mx \<and> int (length (elems new)) \<le> min mx maxBodyReplace
        \<and> bodyBytes (hr_Body resp1) = elems new \<and> hr_ContentLength resp1 = int (length (elems new)))"

definition capturedAs :: "int \<Rightarrow> byte list \<Rightarrow> cappedWriter \<Rightarrow> bool" where
  "capturedAs mx b cap \<longleftrightarrow> cw_buf cap = take (nat mx) b \<and> cw_truncated cap = (int (length b) > mx)"

lemma bufferResponse_facts:
  assumes "bufferResponse hit sp resp = (resp1, cap)"
  shows "(bodyBytes (hr_Body resp1) = bodyBytes (hr_Body resp) \<or> replacedBody hit (maxBodyOf sp) resp resp1)
    \<and> capturedAs (maxBodyOf sp) (bodyBytes (hr_Body resp1)) cap \<and> hr_StatusCode resp1 = hr_StatusCode resp \<and> hr_Trailer resp1 = hr_Trailer resp
    \<and> (bodyIntact (hr_Body resp) \<longrightarrow> bodyIntact (hr_Body resp1))"
proof -
  define mx where "mx = maxBodyOf sp"
  obtain pre overflow rest err where r: "readCapped (hr_Body resp) mx = (pre, overflow, rest, err)" by (metis prod_cases4)
  obtain new ok where b: "BodyReplace hit = (new, ok)" by fastforce
  have mx: "0 < mx" by (simp add: mx_def maxBodyOf_pos)
  have f: "pre = take (nat mx) (bodyBytes (hr_Body resp))" "overflow = (int (length (bodyBytes (hr_Body resp))) > mx)" "overflow \<Longrightarrow> pre @ bodyBytes rest = bodyBytes (hr_Body resp)"
    using readCapped_facts[OF r mx] by blast+
  have noerr: "err \<Longrightarrow> \<not> overflow" using r by (auto simp: readCapped_def Let_def split: option.splits if_splits)
  note eq = assms(1)[unfolded bufferResponse_def Let_def, folded mx_def, unfolded r b prod.case]
  have rest: "bodyIntact (hr_Body resp) \<Longrightarrow> bodyIntact (prefixed pre rest)"
    using r by (auto simp: readCapped_def prefixed_def bodyIntact_def Let_def split: option.splits if_splits)
  consider (err) "err" | (over) "\<not> err" "overflow" | (same) "\<not> err" "\<not> overflow" "\<not> (ok \<and> replaceable overflow (elems new) mx)"
    | (new) "\<not> err" "\<not> overflow" "ok" "replaceable overflow (elems new) mx" by blast
  then have "(bodyBytes (hr_Body resp1) = bodyBytes (hr_Body resp) \<or> replacedBody hit mx resp resp1)
    \<and> capturedAs mx (bodyBytes (hr_Body resp1)) cap \<and> hr_StatusCode resp1 = hr_StatusCode resp \<and> hr_Trailer resp1 = hr_Trailer resp
    \<and> (bodyIntact (hr_Body resp) \<longrightarrow> bodyIntact (hr_Body resp1))"
  proof cases
    case err
    have "pre = bodyBytes (hr_Body resp)" using noerr[OF err] f(1,2) by simp
    moreover have "resp1 = resp\<lparr>hr_Body := bytesBody pre, hr_ContentLength := int (length pre)\<rparr>" "cap = \<lparr>cw_buf = pre, cw_max = mx, cw_truncated = overflow\<rparr>"
      using eq err by simp_all
    ultimately show ?thesis using f(2) noerr[OF err] by (simp add: capturedAs_def)
  next
    case over
    have "resp1 = resp\<lparr>hr_Body := prefixed pre rest, hr_ContentLength := - 1\<rparr>" "cap = \<lparr>cw_buf = pre, cw_max = mx, cw_truncated = overflow\<rparr>"
      using eq over by (simp_all add: replaceable_def split: if_splits)
    then show ?thesis using f(1,2) f(3)[OF over(2)] rest by (simp add: capturedAs_def)
  next
    case same
    have "pre = bodyBytes (hr_Body resp)" using same(2) f(1,2) by simp
    moreover have "resp1 = resp\<lparr>hr_Body := bytesBody pre, hr_ContentLength := int (length pre), hr_TransferEncoding := []\<rparr>" "cap = \<lparr>cw_buf = pre, cw_max = mx, cw_truncated = overflow\<rparr>"
      using eq same by (simp_all split: if_splits)
    ultimately show ?thesis using f(2) same(2) by (simp add: capturedAs_def)
  next
    case new
    have "bodyBytes (hr_Body resp1) = elems new \<and> hr_ContentLength resp1 = int (length (elems new)) \<and> hr_StatusCode resp1 = hr_StatusCode resp \<and> hr_Trailer resp1 = hr_Trailer resp
        \<and> cw_buf cap = elems new \<and> \<not> cw_truncated cap \<and> bodyIntact (hr_Body resp1)"
      using eq new by auto
    moreover have "length (elems new) \<le> nat mx" using new(4) by (simp add: replaceable_def not_less le_nat_iff nat_le_iff)
    ultimately show ?thesis using f(2) new b by (simp add: capturedAs_def replacedBody_def replaceable_def)
  qed
  then show ?thesis by (simp add: mx_def)
qed

subsection \<open>What a stored row keeps\<close>

lemma stampSession_fields [simp]:
  "fl_Request (stampSession sess f) = fl_Request f"
  "fl_Response (stampSession sess f) = fl_Response f"
  "fl_Status (stampSession sess f) = fl_Status f"
  "fl_Error (stampSession sess f) = fl_Error f"
  "fl_State (stampSession sess f) = fl_State f"
  by (simp_all add: stampSession_def Let_def)

lemma maybeDecodeGRPC_fields [simp]:
  "fl_Request (maybeDecodeGRPC u ev sess f) = fl_Request f"
  "fl_Response (maybeDecodeGRPC u ev sess f) = fl_Response f"
  "fl_Status (maybeDecodeGRPC u ev sess f) = fl_Status f"
  "fl_Error (maybeDecodeGRPC u ev sess f) = fl_Error f"
  "fl_State (maybeDecodeGRPC u ev sess f) = fl_State f"
  by (cases "DecodeFlow u (xe_mime ev) (Some f)"; cases "fst (DecodeFlow u (xe_mime ev) (Some f))"; simp add: maybeDecodeGRPC_def)+

lemma captureFlow_fields [simp]:
  "fl_Request (captureFlow u ev sess f) = fl_Request f"
  "fl_Response (captureFlow u ev sess f) = fl_Response f"
  "fl_Status (captureFlow u ev sess f) = fl_Status f"
  "fl_Error (captureFlow u ev sess f) = fl_Error f"
  "fl_State (captureFlow u ev sess f) = fl_State f"
  by (simp_all add: captureFlow_def Let_def)

lemma putTrailers_fields [simp]:
  "msg_Headers (fl_Request (putTrailers sess f)) = msg_Headers (fl_Request f)" "msg_Body (fl_Request (putTrailers sess f)) = msg_Body (fl_Request f)"
  "msg_Truncated (fl_Request (putTrailers sess f)) = msg_Truncated (fl_Request f)"
  "msg_Headers (fl_Response (putTrailers sess f)) = msg_Headers (fl_Response f)" "msg_Body (fl_Response (putTrailers sess f)) = msg_Body (fl_Response f)"
  "msg_Truncated (fl_Response (putTrailers sess f)) = msg_Truncated (fl_Response f)"
  "fl_Status (putTrailers sess f) = fl_Status f"
  by (simp_all add: putTrailers_def Let_def)

lemma applyH2Meta_fields [simp]:
  "fl_Request (applyH2Meta req f) = fl_Request f" "fl_Response (applyH2Meta req f) = fl_Response f" "fl_Status (applyH2Meta req f) = fl_Status f"
  by (simp_all add: applyH2Meta_def Let_def split: option.splits)

lemma putCap_fields [simp]:
  "msg_Headers (fl_Request (putRequestCap c f)) = msg_Headers (fl_Request f)" "fl_Response (putRequestCap c f) = fl_Response f" "fl_Status (putRequestCap c f) = fl_Status f"
  "fl_Request (putResponseCap c f) = fl_Request f" "msg_Headers (fl_Response (putResponseCap c f)) = msg_Headers (fl_Response f)" "fl_Status (putResponseCap c f) = fl_Status f"
  "msg_Body (fl_Response (putResponseCap (Some w) f)) = append_nil (cw_buf w)" "msg_Truncated (fl_Response (putResponseCap (Some w) f)) = cw_truncated w"
  by (simp_all add: putRequestCap_def putResponseCap_def split: option.splits)

lemma annotateFlow_fields [simp]:
  "msg_Headers (fl_Request (annotateFlow u req rc sc h hits f)) = requestCaptureHeaders u req"
  "fl_Status (annotateFlow u req rc sc h hits f) = fl_Status f"
  "msg_Headers (fl_Response (annotateFlow u req rc sc (Some hh) hits f)) = headersFrom hh"
  "msg_Body (fl_Response (annotateFlow u req rc (Some w) h hits f)) = append_nil (cw_buf w)"
  "msg_Truncated (fl_Response (annotateFlow u req rc (Some w) h hits f)) = cw_truncated w"
  by (simp_all add: annotateFlow_def Let_def putRequestHeaders_def split: option.splits)

lemma captureRule_fields [simp]:
  "msg_Headers (fl_Request (captureRule u ev sess req rc sc h hits f)) = requestCaptureHeaders u req"
  "fl_Status (captureRule u ev sess req rc sc h hits f) = fl_Status f"
  "msg_Headers (fl_Response (captureRule u ev sess req rc sc (Some hh) hits f)) = headersFrom hh"
  "msg_Body (fl_Response (captureRule u ev sess req rc (Some w) h hits f)) = append_nil (cw_buf w)"
  "msg_Truncated (fl_Response (captureRule u ev sess req rc (Some w) h hits f)) = cw_truncated w"
  by (simp_all add: captureRule_def)

lemma completedFlow_status [simp]: "fl_Status (completedFlow u ev req host port scheme status info rc sc) = status"
  by (simp add: completedFlow_def innerFlow_def flowFromReq_def putRequestHeaders_def split: option.splits)

lemma requestCaptureHeaders_clean: "x \<in> set (elems (requestCaptureHeaders u req)) \<Longrightarrow> \<not> EqualFold u (hdr_Name x) ''Proxy-Authorization''"
  by (auto simp: requestCaptureHeaders_def stripCapturedProxyAuthorization_def split: if_splits)

text \<open>The row a breakpoint stores, and that it stores one whenever the inbox takes it.\<close>

lemma waitBreakpoint_rows:
  assumes "waitBreakpoint ev sess hit f = (bp, rows)"
  shows "\<forall>r \<in> set rows. fl_Request r = fl_Request f" and "length rows \<le> 1" and "bp_dropped bp \<Longrightarrow> bp_stored bp"
    and "bp_stored bp \<longleftrightarrow> rows \<noteq> []" and "xe_inbox ev \<Longrightarrow> \<forall>g. xe_insert ev g \<noteq> None \<Longrightarrow> rows \<noteq> []"
  using assms by (auto simp: waitBreakpoint_def noBP_def Let_def split: if_splits option.splits prod.splits) (metis option.distinct(1))+

text \<open>The patch a breakpoint goes on with: none, the one the session was woken with, or, when its wait
  failed although the flow was resumed, what the row holds by then.\<close>

definition resumedWith :: "exchange_env \<Rightarrow> ResumePatch \<Rightarrow> bool" where
  "resumedWith ev p \<longleftrightarrow> (\<exists>ident t. xe_wait ev ident t = (p, None))"

definition raced :: "exchange_env \<Rightarrow> Flow \<Rightarrow> bool" where
  "raced ev got \<longleftrightarrow> (\<exists>ident t p e. xe_wait ev ident t = (p, Some e) \<and> xe_get ev ident = Some got)"

lemma waitBreakpoint_patch:
  assumes "waitBreakpoint ev sess hit f = (bp, rows)"
  shows "bp_patch bp = noPatch \<or> resumedWith ev (bp_patch bp) \<or> (\<exists>got. raced ev got \<and> bp_patch bp = patchFromFlow got)"
proof (cases "xe_inbox ev")
  case False
  with assms show ?thesis by (auto simp: waitBreakpoint_def noBP_def)
next
  case True
  define timeout where "timeout = ClampBreakpointTimeout (ra_BreakpointTimeout (hit_Action hit)) (ss_MaxWait (sp_Store (xs_spec sess)))"
  define g where "g = stampSession sess (if fl_StartedAt (f\<lparr>fl_State := FlowStatePaused, fl_PausedPhase := hit_Phase hit\<rparr>) = 0
      then (f\<lparr>fl_State := FlowStatePaused, fl_PausedPhase := hit_Phase hit\<rparr>)\<lparr>fl_StartedAt := xe_now ev\<rparr> else f\<lparr>fl_State := FlowStatePaused, fl_PausedPhase := hit_Phase hit\<rparr>)"
  note eq = assms[unfolded waitBreakpoint_def Let_def, folded timeout_def, folded g_def]
  show ?thesis
  proof (cases "xe_insert ev g")
    case None
    with True eq show ?thesis by (auto simp: noBP_def)
  next
    case (Some ident)
    obtain p err where w: "xe_wait ev ident timeout = (p, err)" by fastforce
    have "err = None \<Longrightarrow> resumedWith ev p" using w by (auto simp: resumedWith_def)
    moreover have "err \<noteq> None \<Longrightarrow> xe_get ev ident = Some got \<Longrightarrow> raced ev got" for got using w by (auto simp: raced_def)
    ultimately show ?thesis using True eq Some w
      by (auto simp: noBP_def split: option.splits if_splits)
  qed
qed

subsection \<open>The response phase\<close>

text \<open>The side of a row a patch is taken from.\<close>

definition pausedSide :: "Flow \<Rightarrow> HTTPMessage" where
  "pausedSide f = (if fl_PausedPhase f = RulePhaseResponse then fl_Response f else fl_Request f)"

lemma patchFromFlow_body: "rp_Body (patchFromFlow f) = msg_Body (pausedSide f)"
  by (simp add: patchFromFlow_def pausedSide_def Let_def)

text \<open>The complete body of the patch a breakpoint was resumed with.\<close>

definition patchedBody :: "exchange_env \<Rightarrow> Hit option \<Rightarrow> httpResp \<Rightarrow> bool" where
  "patchedBody ev hit resp1 \<longleftrightarrow>
     (\<exists>h b. hit = Some h \<and> ra_Type (hit_Action h) = ''breakpoint'' \<and> bodyBytes (hr_Body resp1) = b \<and> hr_ContentLength resp1 = int (length b)
        \<and> ((\<exists>p. resumedWith ev p \<and> rp_Body p = Some b)
           \<or> (\<exists>got. raced ev got \<and> \<not> msg_Truncated (pausedSide got) \<and> msg_Body (pausedSide got) = Some b)))"

text \<open>No resume races the timeout of a breakpoint on a row whose body was cut at the limit.\<close>

definition noCutRace :: "exchange_env \<Rightarrow> bool" where
  "noCutRace ev \<longleftrightarrow> (\<forall>got. raced ev got \<longrightarrow> \<not> msg_Truncated (pausedSide got))"

definition wroteWhole :: "exchange_env \<Rightarrow> Hit option \<Rightarrow> int \<Rightarrow> httpResp \<Rightarrow> httpResp \<Rightarrow> bool" where
  "wroteWhole ev hit mx resp resp1 \<longleftrightarrow>
     bodyBytes (hr_Body resp1) = bodyBytes (hr_Body resp) \<or> replacedBody hit mx resp resp1 \<or> patchedBody ev hit resp1"

lemma body_only [simp]:
  "replacedBody hit mx (r\<lparr>hr_StatusCode := st\<rparr>) r1 = replacedBody hit mx r r1" "replacedBody hit mx (r\<lparr>hr_Header := h\<rparr>) r1 = replacedBody hit mx r r1"
  "replacedBody hit mx r (r1\<lparr>hr_Header := h\<rparr>) = replacedBody hit mx r r1" "replacedBody hit mx r (r1\<lparr>hr_pace := pc\<rparr>) = replacedBody hit mx r r1"
  "patchedBody ev hit (r1\<lparr>hr_Header := h\<rparr>) = patchedBody ev hit r1" "patchedBody ev hit (r1\<lparr>hr_pace := pc\<rparr>) = patchedBody ev hit r1"
  by (simp_all add: replacedBody_def patchedBody_def)

lemma wroteWhole_header [simp]: "wroteWhole ev hit mx resp (r1\<lparr>hr_Header := h\<rparr>) = wroteWhole ev hit mx resp r1"
  "wroteWhole ev hit mx resp (r1\<lparr>hr_pace := pc\<rparr>) = wroteWhole ev hit mx resp r1"
  by (simp_all add: wroteWhole_def)

text \<open>A response breakpoint that goes on to write has stored its row, or could not, and stores no other.\<close>

lemma responseBreakpoint_write:
  assumes "responseBreakpoint u ev sess req resp host scheme info hit = WriteResponse sess1 resp1 cap skip rows" and "ra_Type (hit_Action hit) = ''breakpoint''"
  shows "sess1 = sess \<and> skip \<and> cap \<noteq> None \<and> (noCutRace ev \<longrightarrow> wroteWhole ev (Some hit) (maxBodyOf (xs_spec sess)) resp resp1)
    \<and> (bodyIntact (hr_Body resp) \<longrightarrow> bodyIntact (hr_Body resp1))"
proof -
  obtain r0 c0 where b: "bufferResponse (Some hit) (xs_spec sess) resp = (r0, c0)" by fastforce
  note whole = bufferResponse_facts[OF b]
  define f where "f = (let f0 = pausedFlow u ev req host scheme RulePhaseResponse (xs_reqCap sess) (Some c0) (Some r0) [xs_reqHit sess, Some hit]
    in case info of None \<Rightarrow> f0 | Some i \<Rightarrow> f0\<lparr>fl_TLS := Some i, fl_Intercepted := True, fl_Scheme := scheme\<rparr>)"
  obtain bp rs where w: "waitBreakpoint ev sess hit f = (bp, rs)" by fastforce
  have stored: "bp_stored bp \<or> bp_timedOut bp"
    using w by (auto simp: waitBreakpoint_def Let_def split: if_splits option.splits prod.splits)
  obtain r2 c2 where p: "applyResumePatchResponse (bp_patch bp) (r0, c0) = (r2, c2)" by fastforce
  have eq: "WriteResponse sess1 resp1 cap skip rows = (if bp_timedOut bp then WriteResponse sess r0 (Some c0) True rs else WriteResponse sess r2 (Some c2) (bp_stored bp) rs)"
    using assms(1) w p by (simp add: responseBreakpoint_def b Let_def f_def split: if_splits)
  show ?thesis
  proof (cases "bp_timedOut bp")
    case True
    with eq whole show ?thesis by (auto simp: wroteWhole_def)
  next
    case False
    have "(noCutRace ev \<longrightarrow> wroteWhole ev (Some hit) (maxBodyOf (xs_spec sess)) resp r2) \<and> (bodyIntact (hr_Body resp) \<longrightarrow> bodyIntact (hr_Body r2))"
    proof (cases "rp_Body (bp_patch bp)")
      case None
      then show ?thesis using p whole by (auto simp: applyResumePatchResponse_def Let_def wroteWhole_def)
    next
      case (Some pb)
      with waitBreakpoint_patch[OF w] have "(\<exists>p. resumedWith ev p \<and> rp_Body p = Some pb) \<or> (\<exists>got. raced ev got \<and> msg_Body (pausedSide got) = Some pb)"
        by (auto simp: noPatch_def patchFromFlow_body)
      moreover have "bodyBytes (hr_Body r2) = pb" "hr_ContentLength r2 = int (length pb)" "bodyIntact (hr_Body r2)"
        using p Some by (auto simp: applyResumePatchResponse_def Let_def)
      ultimately show ?thesis using assms(2) by (auto simp: wroteWhole_def patchedBody_def noCutRace_def)
    qed
    with False eq stored show ?thesis by auto
  qed
qed

lemma responseAction_write:
  assumes "responseAction u ev sess req resp host port scheme info = WriteResponse sess1 resp1 cap skip rows"
  defines "hit \<equiv> xs_respHit sess" and "mx \<equiv> maxBodyOf (xs_spec sess)"
  shows "sess1 = sess \<and> (noCutRace ev \<longrightarrow> wroteWhole ev hit mx resp resp1) \<and> (bodyIntact (hr_Body resp) \<longrightarrow> bodyIntact (hr_Body resp1)) \<and>
    ((\<exists>h. hit = Some h \<and> ra_Type (hit_Action h) = ''breakpoint'') \<and> skip \<and> cap \<noteq> None
     \<or> skip = xs_skipInsert sess \<and> rows = [] \<and>
       (case cap of None \<Rightarrow> \<not> Mutates hit \<and> hr_Body resp1 = hr_Body resp \<and> hr_StatusCode resp1 = hr_StatusCode resp
        | Some c \<Rightarrow> Mutates hit \<and> capturedAs mx (bodyBytes (hr_Body resp1)) c))"
proof (cases hit)
  case None
  with assms show ?thesis by (auto simp: responseAction_def wroteWhole_def Mutates_def)
next
  case (Some h)
  then have h: "xs_respHit sess = Some h" by (simp add: hit_def)
  let ?t = "ra_Type (hit_Action h)"
  have buffered: ?thesis if "WriteResponse sess1 resp1 cap skip rows = (case bufferResponse (Some h) (xs_spec sess) r of (r1, c) \<Rightarrow> WriteResponse sess r1 (Some c) (xs_skipInsert sess) [])"
    and "hr_Body r = hr_Body resp" and "Mutates (Some h)" for r
  proof -
    obtain r1 c where b: "bufferResponse (Some h) (xs_spec sess) r = (r1, c)" by fastforce
    from bufferResponse_facts[OF b] that b Some show ?thesis by (auto simp: wroteWhole_def replacedBody_def mx_def)
  qed
  consider "?t = ''header''" | "?t = ''body''" | "?t = ''status''" | "?t = ''redirect''" | "?t \<in> {''silent'', ''hang''}" | "?t = ''drop''" | "?t = ''breakpoint''"
    | "?t \<notin> {''header'', ''body'', ''status'', ''redirect'', ''silent'', ''hang'', ''drop'', ''breakpoint''}" by blast
  then show ?thesis
  proof cases
    case 1
    with assms(1) h Some show ?thesis by (auto simp: responseAction_def Let_def wroteWhole_def Mutates_def)
  next
    case 2
    with assms(1) h show ?thesis by (intro buffered[of resp]) (simp_all add: responseAction_def Let_def Mutates_def)
  next
    case 3
    with assms(1) h show ?thesis
      by (intro buffered[of "resp\<lparr>hr_StatusCode := StatusFor (Some h), hr_Header := applyHTTPHeaders (ra_Headers (hit_Action h)) (hr_Header resp)\<rparr>"])
         (simp_all add: responseAction_def Let_def Mutates_def)
  next
    case 4
    with assms(1) h show ?thesis
      by (intro buffered[of "resp\<lparr>hr_StatusCode := RedirectStatus (Some h),
            hr_Header := hdrSet ''Location'' (RedirectLocation u (Some h)) (applyHTTPHeaders (ra_Headers (hit_Action h)) (hr_Header resp))\<rparr>"])
         (simp_all add: responseAction_def Let_def Mutates_def)
  next
    case 5
    with assms(1) h show ?thesis by (auto simp: responseAction_def responseSilent_def Let_def split: if_splits)
  next
    case 6
    with assms(1) h show ?thesis by (simp add: responseAction_def responseDropped_def Let_def split: prod.splits)
  next
    case 7
    with assms(1) h have "responseBreakpoint u ev sess req resp host scheme info h = WriteResponse sess1 resp1 cap skip rows" by (simp add: responseAction_def Let_def)
    from responseBreakpoint_write[OF this 7] Some 7 show ?thesis by (simp add: mx_def)
  next
    case 8
    with assms(1) h Some show ?thesis by (auto simp: responseAction_def Let_def wroteWhole_def Mutates_def)
  qed
qed

abbreviation respHitOf :: "go_env \<Rightarrow> ruleSession \<Rightarrow> string \<Rightarrow> httpReq \<Rightarrow> httpResp \<Rightarrow> Hit option" where
  "respHitOf u sess host req resp \<equiv> matchHit u (xs_eng sess) RulePhaseResponse host req (hr_Header resp)"

lemma writeClientResponse_fields [simp]:
  "hr_Body (writeClientResponse u r) = hr_Body r" "hr_StatusCode (writeClientResponse u r) = hr_StatusCode r"
  "wroteWhole ev hit mx resp (writeClientResponse u r) = wroteWhole ev hit mx resp r"
  by (simp_all add: writeClientResponse_def)

lemma phaseOver_result:
  assumes "responseAction u ev sess req resp host port scheme info = PhaseOver out"
  shows "so_result out \<noteq> ruleContinue"
proof -
  have "so_result out \<noteq> ruleContinue" if "responseSilent u ev sess req host port scheme info h = PhaseOver out" for h
    using that by (auto simp: responseSilent_def Let_def split: if_splits)
  moreover have "so_result out \<noteq> ruleContinue" if "responseDropped u ev sess req resp host port scheme info h = PhaseOver out" for h
    using that by (auto simp: responseDropped_def Let_def split: prod.splits)
  moreover have "so_result out \<noteq> ruleContinue" if "responseBreakpoint u ev sess req resp host scheme info h = PhaseOver out" for h
    using that by (auto simp: responseBreakpoint_def Let_def split: prod.splits if_splits)
  ultimately show ?thesis using assms by (auto simp: responseAction_def Let_def split: option.splits prod.splits if_splits)
qed

text \<open>How the phase ends when it goes on: what it wrote and what it stored.\<close>

lemma finishResponseWrite_continue:
  assumes "so_result (finishResponseWrite u ev sess req resp host port scheme info streamClient) = ruleContinue"
  obtains sess1 resp1 cap skip rows sent sess2 where
    "responseAction u ev (sess\<lparr>xs_respHit := respHitOf u sess host req resp\<rparr>) req resp host port scheme info = WriteResponse sess1 resp1 cap skip rows"
    and "hr_Body sent = hr_Body resp1" and "hr_StatusCode sent = hr_StatusCode resp1" and "\<And>hit mx r. wroteWhole ev hit mx r sent = wroteWhole ev hit mx r resp1"
    and "so_sent (finishResponseWrite u ev sess req resp host port scheme info streamClient) = [sent]"
    and "so_rows (finishResponseWrite u ev sess req resp host port scheme info streamClient) = rows @ (if skip then []
      else [captureRule u ev sess2 req (xs_reqCap sess2) (Some (case cap of Some c \<Rightarrow> c | None \<Rightarrow> teeResponse ev (xs_spec sess1) resp1)) (Some (hr_Header sent)) [xs_reqHit sess2, xs_respHit sess2]
        (completedFlow u ev req host port scheme (hr_StatusCode sent) info (xs_reqCap sess2) (Some (case cap of Some c \<Rightarrow> c | None \<Rightarrow> teeResponse ev (xs_spec sess1) resp1)))])"
proof (cases "responseAction u ev (sess\<lparr>xs_respHit := respHitOf u sess host req resp\<rparr>) req resp host port scheme info")
  case (PhaseOver out)
  with assms phaseOver_result[OF PhaseOver] show ?thesis by (simp add: finishResponseWrite_def)
next
  case (WriteResponse sess1 resp1 cap skip rows)
  show ?thesis by (rule that[OF WriteResponse]) (simp_all add: finishResponseWrite_def WriteResponse Let_def)
qed


text \<open>(C12) The inbox is offered what the client got. Take a response phase that goes on (it was not ended by a
  drop, silent or hang rule), without a breakpoint in it and without a row already left by a request
  breakpoint, and a client that took the whole body. The inbox is then offered exactly one row, with the
  status and the header the client got and its body cut at the body limit, marked truncated exactly if it
  was longer. (Whether the inbox takes the row depends on its caps: a full one that rejects stores none.)\<close>

theorem inbox_shows_what_client_got:
  assumes "so_result (finishResponseWrite u ev sess req resp host port scheme info streamClient) = ruleContinue"
    and "so_sent (finishResponseWrite u ev sess req resp host port scheme info streamClient) = [sent]"
    and "\<not> xs_skipInsert sess"
    and "\<forall>h. respHitOf u sess host req resp = Some h \<longrightarrow> ra_Type (hit_Action h) \<noteq> ''breakpoint''"
    and "length (bodyBytes (hr_Body sent)) \<le> xe_respRead ev"
  shows "\<exists>row. so_rows (finishResponseWrite u ev sess req resp host port scheme info streamClient) = [row]
    \<and> fl_Status row = hr_StatusCode sent \<and> msg_Headers (fl_Response row) = headersFrom (hr_Header sent)
    \<and> msg_Body (fl_Response row) = append_nil (take (nat (maxBodyOf (xs_spec sess))) (bodyBytes (hr_Body sent)))
    \<and> msg_Truncated (fl_Response row) = (int (length (bodyBytes (hr_Body sent))) > maxBodyOf (xs_spec sess))"
  using assms(1)
proof (rule finishResponseWrite_continue)
  fix sess1 resp1 cap skip rows sent1 sess2
  assume act: "responseAction u ev (sess\<lparr>xs_respHit := respHitOf u sess host req resp\<rparr>) req resp host port scheme info = WriteResponse sess1 resp1 cap skip rows"
    and sent: "hr_Body sent1 = hr_Body resp1" "so_sent (finishResponseWrite u ev sess req resp host port scheme info streamClient) = [sent1]"
    and rows: "so_rows (finishResponseWrite u ev sess req resp host port scheme info streamClient) = rows @ (if skip then []
      else [captureRule u ev sess2 req (xs_reqCap sess2) (Some (case cap of Some c \<Rightarrow> c | None \<Rightarrow> teeResponse ev (xs_spec sess1) resp1)) (Some (hr_Header sent1)) [xs_reqHit sess2, xs_respHit sess2]
        (completedFlow u ev req host port scheme (hr_StatusCode sent1) info (xs_reqCap sess2) (Some (case cap of Some c \<Rightarrow> c | None \<Rightarrow> teeResponse ev (xs_spec sess1) resp1)))])"
  have eq: "sent1 = sent" using assms(2) sent(2) by simp
  note facts = responseAction_write[OF act]
  let ?c = "case cap of Some c \<Rightarrow> c | None \<Rightarrow> teeResponse ev (xs_spec sess1) resp1"
  have "capturedAs (maxBodyOf (xs_spec sess)) (bodyBytes (hr_Body sent)) ?c"
  proof (cases cap)
    case None
    have "?c = cappedWrite (bodyBytes (hr_Body sent)) (teeBody (maxBodyOf (xs_spec sess)))"
      using None facts assms(5) eq sent(1) by (auto simp: teeResponse_def bodyBytes_def split: option.splits)
    then show ?thesis by (simp add: capturedAs_def teed maxBodyOf_pos)
  next
    case (Some c)
    with facts assms(4) eq sent(1) show ?thesis by auto
  qed
  moreover have "\<not> skip" "rows = []" using facts assms(3,4) by auto
  ultimately show ?thesis using rows eq by (simp add: capturedAs_def)
qed

subsection \<open>Both phases around the origin\<close>

definition cleanRow :: "go_env \<Rightarrow> Flow \<Rightarrow> bool" where
  "cleanRow u f \<longleftrightarrow> (\<forall>x \<in> set (elems (msg_Headers (fl_Request f))). \<not> EqualFold u (hdr_Name x) ''Proxy-Authorization'')"

lemma cleanRow_capture [simp]: "cleanRow u (captureRule u ev sess req rc sc h hits f)"
  by (auto simp: cleanRow_def dest: requestCaptureHeaders_clean)

lemma cleanRow_paused: "cleanRow u (pausedFlow u ev req host scheme phase rc sc resp hits)"
  by (auto simp: cleanRow_def pausedFlow_def dest: requestCaptureHeaders_clean)

lemma waitBreakpoint_clean:
  assumes "waitBreakpoint ev sess hit f = (bp, rows)" and "cleanRow u f"
  shows "\<forall>r \<in> set rows. cleanRow u r"
  using waitBreakpoint_rows(1)[OF assms(1)] assms(2) by (simp add: cleanRow_def)

abbreviation isBreakpoint :: "Hit option \<Rightarrow> bool" where
  "isBreakpoint hit \<equiv> (case hit of None \<Rightarrow> False | Some h \<Rightarrow> ra_Type (hit_Action h) = ''breakpoint'')"

text \<open>The inbox takes every flow it is offered.\<close>

definition takesRows :: "exchange_env \<Rightarrow> bool" where
  "takesRows ev \<longleftrightarrow> xe_inbox ev \<and> (\<forall>g. xe_insert ev g \<noteq> None)"

text \<open>What a request phase leaves behind.\<close>

definition requestPhaseOk :: "go_env \<Rightarrow> exchange_env \<Rightarrow> ruleSession \<Rightarrow> request_out \<Rightarrow> bool" where
  "requestPhaseOk u ev sess r \<longleftrightarrow>
     (\<forall>f \<in> set (ro_rows r). cleanRow u f) \<and> length (ro_rows r) \<le> 1
     \<and> (ro_result r = ruleContinue \<longrightarrow> ro_written r = [] \<and> (\<not> isBreakpoint (xs_reqHit sess) \<longrightarrow> ro_rows r = []))
     \<and> (takesRows ev \<longrightarrow> (ro_written r \<noteq> [] \<or> ro_result r = ruleSilentClose \<longrightarrow> ro_rows r \<noteq> [])
         \<and> (xs_skipInsert (ro_sess r) \<and> \<not> xs_skipInsert sess \<longrightarrow> ro_rows r \<noteq> []))"

lemma requestBreakpoint_ok: "isBreakpoint (xs_reqHit sess) \<Longrightarrow> requestPhaseOk u ev sess (requestBreakpoint u ev sess req host scheme hit)"
proof -
  assume bp: "isBreakpoint (xs_reqHit sess)"
  obtain req1 cap where p: "prepareRequestBody (Some hit) (xs_spec sess) req = (req1, cap)" by fastforce
  let ?f = "pausedFlow u ev req1 host scheme RulePhaseRequest cap None None [Some hit]"
  obtain b rows where w: "waitBreakpoint ev (sess\<lparr>xs_reqCap := cap\<rparr>) hit ?f = (b, rows)" by fastforce
  obtain req2 cap2 where a: "applyResumePatchRequest (bp_patch b) (req1, cap) = (req2, cap2)" by fastforce
  have "takesRows ev \<longrightarrow> rows \<noteq> []" using waitBreakpoint_rows(5)[OF w] by (auto simp: takesRows_def)
  with bp waitBreakpoint_rows(2)[OF w] waitBreakpoint_clean[OF w cleanRow_paused] show ?thesis
    by (simp add: requestPhaseOk_def requestBreakpoint_def Let_def p w a)
qed

lemma runRequestRulesWrite_ok: "requestPhaseOk u ev sess (runRequestRulesWrite u ev sess req host port scheme info)"
proof (cases "xs_reqHit sess")
  case None
  then show ?thesis by (simp add: runRequestRulesWrite_def requestPhaseOk_def)
next
  case (Some h)
  have go: "requestPhaseOk u ev sess \<lparr>ro_result = res, ro_sess = s, ro_req = q, ro_written = [], ro_rows = []\<rparr>"
    if "res \<noteq> ruleSilentClose" "xs_skipInsert s = xs_skipInsert sess" for res s q using that by (simp add: requestPhaseOk_def)
  have one: "requestPhaseOk u ev sess \<lparr>ro_result = res, ro_sess = s, ro_req = q, ro_written = w, ro_rows = [f]\<rparr>"
    if "res \<noteq> ruleContinue" "cleanRow u f" for res s q w f using that by (simp add: requestPhaseOk_def)
  have syn: "requestPhaseOk u ev sess (requestSynthesized u ev sess req host scheme h)"
    by (cases "prepareRequestBody (Some h) (xs_spec sess) req") (simp add: requestSynthesized_def Let_def one)
  have bp: "requestPhaseOk u ev sess (requestBreakpoint u ev sess req host scheme h)" if "ra_Type (hit_Action h) = ''breakpoint''"
    using that Some by (intro requestBreakpoint_ok) simp
  have silent: "requestPhaseOk u ev sess (let sess1 = setCloseMode u h sess in
      \<lparr>ro_result = ruleSilentClose, ro_sess = sess1, ro_req = req, ro_written = [], ro_rows = [captureSilentRequest u ev sess1 req host port scheme h e info]\<rparr>)" for e
    by (simp add: Let_def one captureSilentRequest_def)
  have body: "requestPhaseOk u ev sess (case prepareRequestBody (Some h) (xs_spec sess) req of (req1, cap) \<Rightarrow>
      \<lparr>ro_result = ruleContinue, ro_sess = sess\<lparr>xs_reqCap := cap\<rparr>, ro_req = req1, ro_written = [], ro_rows = []\<rparr>)"
    by (simp add: go split: prod.splits)
  show ?thesis
    unfolding runRequestRulesWrite_def Let_def Some option.case
    using syn bp silent[unfolded Let_def] body go by (simp del: split_paired_All)
qed

definition responsePhaseOk :: "go_env \<Rightarrow> exchange_env \<Rightarrow> bool \<Rightarrow> response_out \<Rightarrow> bool" where
  "responsePhaseOk u ev before out \<longleftrightarrow>
     (\<forall>f \<in> set (so_rows out). cleanRow u f) \<and> length (so_rows out) \<le> 1
     \<and> (takesRows ev \<and> \<not> before \<and> (so_sent out \<noteq> [] \<or> so_result out = ruleSilentClose) \<longrightarrow> so_rows out \<noteq> [])"

definition responseStepOk :: "go_env \<Rightarrow> exchange_env \<Rightarrow> bool \<Rightarrow> response_step \<Rightarrow> bool" where
  "responseStepOk u ev before st \<longleftrightarrow>
     (case st of PhaseOver out \<Rightarrow> responsePhaseOk u ev before out
      | WriteResponse _ _ _ skip rows \<Rightarrow> (\<forall>f \<in> set rows. cleanRow u f) \<and> length rows \<le> 1 \<and> (\<not> skip \<longrightarrow> rows = []) \<and> (takesRows ev \<and> \<not> before \<and> skip \<longrightarrow> rows \<noteq> []))"

lemma responseBreakpoint_ok: "responseStepOk u ev before (responseBreakpoint u ev sess req resp host scheme info hit)"
proof -
  obtain r0 c0 where b: "bufferResponse (Some hit) (xs_spec sess) resp = (r0, c0)" by fastforce
  define f where "f = (let f0 = pausedFlow u ev req host scheme RulePhaseResponse (xs_reqCap sess) (Some c0) (Some r0) [xs_reqHit sess, Some hit]
    in case info of None \<Rightarrow> f0 | Some i \<Rightarrow> f0\<lparr>fl_TLS := Some i, fl_Intercepted := True, fl_Scheme := scheme\<rparr>)"
  have clean: "cleanRow u f"
    using cleanRow_paused[of u ev req host scheme RulePhaseResponse "xs_reqCap sess" "Some c0" "Some r0" "[xs_reqHit sess, Some hit]"]
    by (simp add: f_def Let_def cleanRow_def split: option.splits)
  obtain bp rows where w: "waitBreakpoint ev sess hit f = (bp, rows)" by fastforce
  have stored: "bp_stored bp \<or> bp_timedOut bp"
    using w by (auto simp: waitBreakpoint_def Let_def split: if_splits option.splits prod.splits)
  have "takesRows ev \<longrightarrow> rows \<noteq> []" using waitBreakpoint_rows(5)[OF w] by (auto simp: takesRows_def)
  moreover obtain r2 c2 where "applyResumePatchResponse (bp_patch bp) (r0, c0) = (r2, c2)" by fastforce
  ultimately show ?thesis
    using waitBreakpoint_rows(2)[OF w] waitBreakpoint_clean[OF w clean] stored w
    by (simp add: responseBreakpoint_def b Let_def f_def responseStepOk_def responsePhaseOk_def) blast
qed

lemma responseAction_ok: "responseStepOk u ev (xs_skipInsert sess) (responseAction u ev sess req resp host port scheme info)"
proof (cases "xs_respHit sess")
  case None
  then show ?thesis by (simp add: responseAction_def responseStepOk_def)
next
  case (Some h)
  have plain: "responseStepOk u ev (xs_skipInsert sess) (WriteResponse s r c (xs_skipInsert sess) [])" for s r c by (simp add: responseStepOk_def)
  have buffered: "responseStepOk u ev (xs_skipInsert sess)
      (case bufferResponse (Some h) (xs_spec sess) r of (r1, c) \<Rightarrow> WriteResponse sess r1 (Some c) (xs_skipInsert sess) [])" for r by (simp add: plain split: prod.splits)
  have silent: "responseStepOk u ev (xs_skipInsert sess) (responseSilent u ev sess req host port scheme info h)"
    by (simp add: responseSilent_def Let_def responseStepOk_def responsePhaseOk_def)
  have dropped: "responseStepOk u ev (xs_skipInsert sess) (responseDropped u ev sess req resp host port scheme info h)"
    by (simp add: responseDropped_def Let_def responseStepOk_def responsePhaseOk_def split: prod.splits)
  show ?thesis
    unfolding responseAction_def Let_def Some option.case
    by (simp add: plain buffered silent dropped responseBreakpoint_ok)
qed

lemma finishResponseWrite_ok: "responsePhaseOk u ev (xs_skipInsert sess) (finishResponseWrite u ev sess req resp host port scheme info sc)"
proof -
  let ?s = "sess\<lparr>xs_respHit := respHitOf u sess host req resp\<rparr>"
  have ok: "responseStepOk u ev (xs_skipInsert sess) (responseAction u ev ?s req resp host port scheme info)"
    using responseAction_ok[of u ev ?s req resp host port scheme info] by simp
  show ?thesis
  proof (cases "responseAction u ev ?s req resp host port scheme info")
    case (PhaseOver out)
    with ok show ?thesis by (simp add: finishResponseWrite_def responseStepOk_def)
  next
    case (WriteResponse s r c skip rows)
    with ok show ?thesis by (auto simp: finishResponseWrite_def Let_def responseStepOk_def responsePhaseOk_def)
  qed
qed

abbreviation reqHitOf :: "go_env \<Rightarrow> ruleSession \<Rightarrow> string \<Rightarrow> httpReq \<Rightarrow> Hit option" where
  "reqHitOf u sess host req \<equiv> matchHit u (xs_eng sess) RulePhaseRequest host req (hq_Header req)"

lemma forwardOriginHTTP_rows:
  assumes "\<not> xs_skipInsert sess" and out: "out = forwardOriginHTTP u ev sess req res host port roundTrip"
  shows "(\<forall>f \<in> set (eo_rows out). cleanRow u f)
    \<and> length (eo_rows out) \<le> (if isBreakpoint (reqHitOf u sess host req) then 2 else 1)
    \<and> (takesRows ev \<and> (eo_sent out \<noteq> [] \<or> eo_close out \<noteq> None) \<longrightarrow> eo_rows out \<noteq> [])"
proof -
  define s where "s = sess\<lparr>xs_reqHit := reqHitOf u sess host req\<rparr>"
  define r where "r = runRequestRulesWrite u ev s req host '''' ''http'' None"
  have r: "requestPhaseOk u ev s r" by (simp add: r_def runRequestRulesWrite_ok)
  have s: "xs_reqHit s = reqHitOf u sess host req" "\<not> xs_skipInsert s" using assms(1) by (simp_all add: s_def)
  obtain addr hh oreq cap where o: "originRequest u ev (xs_spec s) (ro_req r) res host port (xs_reqCap (ro_sess r)) = (addr, hh, oreq, cap)" by (metis prod_cases4)
  define s1 where "s1 = (case cap of None \<Rightarrow> ro_sess r | Some c \<Rightarrow> (ro_sess r)\<lparr>xs_reqCap := Some c\<rparr>)"
  have skip: "xs_skipInsert s1 = xs_skipInsert (ro_sess r)" by (simp add: s1_def split: option.splits)
  note eq = out[unfolded forwardOriginHTTP_def Let_def, folded s_def, folded r_def]
  show ?thesis
  proof (cases "ro_result r")
    case ruleContinue
    show ?thesis
    proof (cases "roundTrip (addr, hh, oreq)")
      case None
      with r s ruleContinue show ?thesis by (simp add: eq o requestPhaseOk_def s1_def[symmetric] split: if_splits)
    next
      case (Some resp)
      let ?f = "finishResponseWrite u ev s1 (ro_req r) (writeClientResponse u resp) host '''' ''http'' None True"
      have f: "responsePhaseOk u ev (xs_skipInsert (ro_sess r)) ?f" using finishResponseWrite_ok skip by metis
      have "out = \<lparr>eo_result = so_result ?f, eo_origin = Some (addr, hh, oreq), eo_sent = so_sent ?f, eo_rows = ro_rows r @ so_rows ?f,
          eo_close = (if so_result ?f = ruleSilentClose then Some (closeModeOr (so_sess ?f) ''rst'') else None)\<rparr>"
        using ruleContinue Some r by (simp add: eq o requestPhaseOk_def s1_def[symmetric])
      with r s f ruleContinue show ?thesis by (auto simp: requestPhaseOk_def responsePhaseOk_def split: if_splits)
    qed
  qed (use r s in \<open>auto simp: eq requestPhaseOk_def split: if_splits\<close>)
qed

text \<open>Every answered exchange is on record. When the inbox takes the flows it is offered, an exchange in which
  anything was written to the client or its connection was closed by a rule leaves at least one row; it
  leaves a second one only if a request breakpoint stopped it first.\<close>

theorem answered_exchange_is_on_record:
  assumes "\<not> xs_skipInsert sess" and "takesRows ev"
    and "eo_sent (forwardOriginHTTP u ev sess req res host port roundTrip) \<noteq> [] \<or> eo_close (forwardOriginHTTP u ev sess req res host port roundTrip) \<noteq> None"
  shows "1 \<le> length (eo_rows (forwardOriginHTTP u ev sess req res host port roundTrip))
    \<and> length (eo_rows (forwardOriginHTTP u ev sess req res host port roundTrip)) \<le> (if isBreakpoint (reqHitOf u sess host req) then 2 else 1)"
  using forwardOriginHTTP_rows[OF assms(1) refl, of u ev req res host port roundTrip] assms(2,3) by (simp add: Suc_le_eq)

text \<open>What goes upstream carries no proxy credentials.\<close>

lemma prepared_without_credentials: "hdrValues (PrepareRequest u h) ''Proxy-Authorization'' = []"
proof -
  have key: "CanonicalHeaderKey ''Proxy-Authorization'' = ''Proxy-Authorization''" by code_simp
  have member: "''Proxy-Authorization'' \<in> set hopByHop" "''Proxy-Authorization'' \<notin> {''Upgrade'', ''Connection''}" by code_simp+
  show ?thesis
    using member by (simp add: hdrValues_def key PrepareRequest_def Let_def hdrSet_def hdrDel_def canonical_words map_of_StripHopByHop)
qed

text \<open>Proxy credentials stay with the proxy: no row of an exchange has a Proxy-Authorization header among those of the
  request, in any spelling of its case, and the request that goes to the origin has no value for it, even if a
  rule or a resumed breakpoint put one there.\<close>

theorem proxy_credentials_stay:
  assumes "\<not> xs_skipInsert sess"
  shows "(\<forall>f \<in> set (eo_rows (forwardOriginHTTP u ev sess req res host port roundTrip)).
      \<forall>x \<in> set (elems (msg_Headers (fl_Request f))). \<not> EqualFold u (hdr_Name x) ''Proxy-Authorization'')
    \<and> (\<forall>addr h out. eo_origin (forwardOriginHTTP u ev sess req res host port roundTrip) = Some (addr, h, out) \<longrightarrow> hdrValues (hq_Header out) ''Proxy-Authorization'' = [])"
proof -
  have "\<And>addr h out. eo_origin (forwardOriginHTTP u ev sess req res host port roundTrip) = Some (addr, h, out) \<Longrightarrow> hdrValues (hq_Header out) ''Proxy-Authorization'' = []"
    by (auto simp: forwardOriginHTTP_def originRequest_def Let_def prepared_without_credentials split: if_splits option.splits)
  moreover have "\<forall>f \<in> set (eo_rows (forwardOriginHTTP u ev sess req res host port roundTrip)). cleanRow u f"
    using forwardOriginHTTP_rows[OF assms refl] by blast
  ultimately show ?thesis by (simp add: cleanRow_def)
qed

subsection \<open>A resume that races the timeout\<close>

lemma stampSession_phase [simp]: "fl_PausedPhase (stampSession sess f) = fl_PausedPhase f"
  by (simp add: stampSession_def Let_def)

text \<open>The row a response breakpoint stores has the body as far as it was buffered, so the patch read back from it has too.\<close>

lemma waitBreakpoint_raced:
  assumes "xe_inbox ev" and "\<forall>f. xe_insert ev f = Some ident" and "\<forall>t. snd (xe_wait ev ident t) = Some e"
    and "xe_get ev ident = Some (row\<lparr>fl_State := FlowStateCompleted\<rparr>)" and "waitBreakpoint ev sess hit f = (bp, [row])" and "hit_Phase hit = RulePhaseResponse"
  shows "\<not> bp_dropped bp \<and> \<not> bp_timedOut bp \<and> rp_Body (bp_patch bp) = msg_Body (fl_Response f)"
proof -
  obtain pt where w: "xe_wait ev ident (ClampBreakpointTimeout (ra_BreakpointTimeout (hit_Action hit)) (ss_MaxWait (sp_Store (xs_spec sess)))) = (pt, Some e)"
    using assms(3) by (metis prod.collapse)
  have "FlowStateCompleted \<noteq> FlowStateDropped" by code_simp
  with assms w show ?thesis
    by (auto simp: waitBreakpoint_def noBP_def Let_def patchFromFlow_def)
qed

text \<open>What the code does when a resume without a body lands after the wait of a response breakpoint has timed out
  and before its row is looked up: the patch is read back from the row, whose body is the buffered prefix,
  so a response longer than the body limit reaches the client cut off at the limit.\<close>

theorem raced_resume_cuts_body:
  assumes "respHitOf u sess host req resp = Some h" and "ra_Type (hit_Action h) = ''breakpoint''" and "hit_Phase h = RulePhaseResponse"
    and "xe_inbox ev" and "\<forall>f. xe_insert ev f = Some ident" and "\<forall>t. snd (xe_wait ev ident t) = Some e"
    and "so_rows (finishResponseWrite u ev sess req resp host port scheme info streamClient) = [row]" and "xe_get ev ident = Some (row\<lparr>fl_State := FlowStateCompleted\<rparr>)"
    and "maxBodyOf (xs_spec sess) < int (length (bodyBytes (hr_Body resp)))"
  shows "\<exists>sent. so_sent (finishResponseWrite u ev sess req resp host port scheme info streamClient) = [sent]
    \<and> bodyBytes (hr_Body sent) = take (nat (maxBodyOf (xs_spec sess))) (bodyBytes (hr_Body resp))"
proof -
  let ?s = "sess\<lparr>xs_respHit := respHitOf u sess host req resp\<rparr>" and ?mx = "maxBodyOf (xs_spec sess)" and ?data = "bodyBytes (hr_Body resp)"
  obtain r0 c0 where b: "bufferResponse (Some h) (xs_spec sess) resp = (r0, c0)" by fastforce
  have "BodyReplace (Some h) = (None, False)" using assms(2) by (simp add: BodyReplace_def Let_def)
  then have cap: "cw_buf c0 = take (nat ?mx) ?data" using bufferResponse_facts[OF b] by (simp add: replacedBody_def capturedAs_def)
  define f where "f = (let f0 = pausedFlow u ev req host scheme RulePhaseResponse (xs_reqCap sess) (Some c0) (Some r0) [xs_reqHit sess, Some h]
    in case info of None \<Rightarrow> f0 | Some i \<Rightarrow> f0\<lparr>fl_TLS := Some i, fl_Intercepted := True, fl_Scheme := scheme\<rparr>)"
  obtain bp rows where w: "waitBreakpoint ev ?s h f = (bp, rows)" by fastforce
  have act: "responseAction u ev ?s req resp host port scheme info = responseBreakpoint u ev ?s req resp host scheme info h"
    using assms(1,2) by (simp add: responseAction_def Let_def)
  have rows: "rows = [row]"
  proof -
    have "waitBreakpoint ev ?s h f = (bp, rows) \<Longrightarrow> so_rows (finishResponseWrite u ev sess req resp host port scheme info streamClient) = rows"
      using waitBreakpoint_rows(4)[OF w] assms(4,5) waitBreakpoint_rows(5)[OF w]
      by (simp add: finishResponseWrite_def act responseBreakpoint_def b Let_def f_def applyResumePatchResponse_def split: if_splits option.splits)
    then show ?thesis using w assms(7) by simp
  qed
  have body: "msg_Body (fl_Response f) = append_nil (take (nat ?mx) ?data)"
    by (simp add: f_def Let_def pausedFlow_def cap split: option.splits)
  have ne: "append_nil (take (nat ?mx) ?data) = Some (take (nat ?mx) ?data)"
    using assms(9) maxBodyOf_pos[of "xs_spec sess"] by (cases ?data) (auto simp: append_nil_def)
  have "\<not> bp_dropped bp \<and> \<not> bp_timedOut bp \<and> rp_Body (bp_patch bp) = Some (take (nat ?mx) ?data)"
    using waitBreakpoint_raced[OF assms(4,5,6,8) w[unfolded rows] assms(3)] body ne by simp
  with w rows show ?thesis
    by (simp add: finishResponseWrite_def act responseBreakpoint_def b Let_def f_def applyResumePatchResponse_def)
qed

text \<open>What a response breakpoint stores does not depend on what is looked up after it.\<close>

lemma pausedFlow_get: "pausedFlow u (ev\<lparr>xe_get := g\<rparr>) req host scheme phase rc sc resp hits = pausedFlow u ev req host scheme phase rc sc resp hits"
  by (simp add: pausedFlow_def)

lemma waitBreakpoint_get: "snd (waitBreakpoint (ev\<lparr>xe_get := g\<rparr>) sess hit f) = snd (waitBreakpoint ev sess hit f)"
  by (simp add: waitBreakpoint_def Let_def split: option.splits prod.splits)

lemma breakpoint_rows:
  assumes "respHitOf u sess host req resp = Some h" and "ra_Type (hit_Action h) = ''breakpoint''"
  obtains f where "\<And>g sc. so_rows (finishResponseWrite u (ev\<lparr>xe_get := g\<rparr>) sess req resp host port scheme info sc)
    = snd (waitBreakpoint (ev\<lparr>xe_get := g\<rparr>) (sess\<lparr>xs_respHit := Some h\<rparr>) h f)"
proof -
  obtain r0 c0 where b: "bufferResponse (Some h) (xs_spec sess) resp = (r0, c0)" by fastforce
  define f where "f = (let f0 = pausedFlow u ev req host scheme RulePhaseResponse (xs_reqCap sess) (Some c0) (Some r0) [xs_reqHit sess, Some h]
    in case info of None \<Rightarrow> f0 | Some i \<Rightarrow> f0\<lparr>fl_TLS := Some i, fl_Intercepted := True, fl_Scheme := scheme\<rparr>)"
  have "so_rows (finishResponseWrite u (ev\<lparr>xe_get := g\<rparr>) sess req resp host port scheme info sc) = snd (waitBreakpoint (ev\<lparr>xe_get := g\<rparr>) (sess\<lparr>xs_respHit := Some h\<rparr>) h f)" for g sc
  proof -
    obtain bp rows where w: "waitBreakpoint (ev\<lparr>xe_get := g\<rparr>) (sess\<lparr>xs_respHit := Some h\<rparr>) h f = (bp, rows)" by fastforce
    have stored: "bp_stored bp \<or> bp_timedOut bp"
      using w by (auto simp: waitBreakpoint_def Let_def split: if_splits option.splits prod.splits)
    obtain r2 c2 where p: "applyResumePatchResponse (bp_patch bp) (r0, c0) = (r2, c2)" by fastforce
    have "responseAction u (ev\<lparr>xe_get := g\<rparr>) (sess\<lparr>xs_respHit := Some h\<rparr>) req resp host port scheme info =
      (if bp_dropped bp then PhaseOver \<lparr>so_result = ruleSynthesize, so_sess = sess\<lparr>xs_respHit := Some h\<rparr>, so_sent = [writeClientResponse u (syntheticResponse u h)], so_rows = rows\<rparr>
       else if bp_timedOut bp then WriteResponse (sess\<lparr>xs_respHit := Some h\<rparr>) r0 (Some c0) True rows
       else WriteResponse (sess\<lparr>xs_respHit := Some h\<rparr>) r2 (Some c2) (bp_stored bp) rows)"
      using assms(2) w[unfolded f_def Let_def] by (simp add: responseAction_def responseBreakpoint_def Let_def b p pausedFlow_get)
    then show ?thesis using stored by (auto simp: finishResponseWrite_def assms(1) w Let_def)
  qed
  then show thesis by (rule that)
qed

lemma finishResponseWrite_get:
  assumes "respHitOf u sess host req resp = Some h" and "ra_Type (hit_Action h) = ''breakpoint''"
  shows "so_rows (finishResponseWrite u (ev\<lparr>xe_get := g\<rparr>) sess req resp host port scheme info sc) = so_rows (finishResponseWrite u ev sess req resp host port scheme info sc)"
proof -
  obtain f where "\<And>g sc. so_rows (finishResponseWrite u (ev\<lparr>xe_get := g\<rparr>) sess req resp host port scheme info sc)
    = snd (waitBreakpoint (ev\<lparr>xe_get := g\<rparr>) (sess\<lparr>xs_respHit := Some h\<rparr>) h f)" using breakpoint_rows[OF assms] by blast
  from this[of g] this[of "xe_get ev"] show ?thesis by (simp add: waitBreakpoint_get)
qed

text \<open>An exchange whose request phase goes on reaches the origin.\<close>

lemma continues_to_origin:
  assumes "ro_result (runRequestRulesWrite u ev (sess\<lparr>xs_reqHit := reqHitOf u sess host req\<rparr>) req host '''' ''http'' None) = ruleContinue"
  shows "\<exists>x. eo_origin (forwardOriginHTTP u ev sess req res host port roundTrip) = Some x"
  using assms by (auto simp: forwardOriginHTTP_def originRequest_def Let_def split: option.splits)

subsection \<open>Concrete exchanges\<close>

definition exRule :: "string \<Rightarrow> string \<Rightarrow> RuleSpec" where
  "exRule phase t = \<lparr>rs_ID = ''r1'', rs_Enabled = True, rs_Phase = phase, rs_Match = exMatch '''' '''', rs_Action = (exAction t)\<lparr>ra_BodyReplace := ''ok''\<rparr>\<rparr>"

definition exBodySpec :: Spec where
  "exBodySpec = (let sp = st_Spec exState in sp\<lparr>sp_Store := (sp_Store sp)\<lparr>ss_MaxBodyBytes := 4\<rparr>\<rparr>)"

definition exRuleSession :: "string \<Rightarrow> string \<Rightarrow> ruleSession" where
  "exRuleSession phase t = \<lparr>xs_spec = exBodySpec, xs_eng = Some \<lparr>en_enabled = True, en_items = [exRule phase t]\<rparr>, xs_reqHit = None, xs_respHit = None,
     xs_reqCap = None, xs_skipInsert = False, xs_reqTrailers = None, xs_respTrailers = None, xs_via = ''http'', xs_socks = None, xs_originalDest = '''',
     xs_closeMode = ''''\<rparr>"

definition exHttpReq :: httpReq where
  "exHttpReq = \<lparr>hq_Method = ''GET'', hq_Path = ''/'', hq_RawQuery = '''', hq_URL = ''http://a.test/'', hq_ProtoMajor = 1,
     hq_Header = [(''Proxy-Authorization'', [''Basic eA=='']), (''Accept'', [''*/*''])], hq_Body = None, hq_ContentLength = 0,
     hq_TransferEncoding = [], hq_Meta = None, hq_Host = ''a.test'', hq_URLScheme = ''http'', hq_URLHost = ''a.test'', hq_RemoteAddr = ''10.0.0.2:5000'', hq_pace = None\<rparr>"

definition exHttpResp :: "byte list \<Rightarrow> httpResp" where
  "exHttpResp b = \<lparr>hr_StatusCode = 200, hr_Header = [(''Server'', [''x''])], hr_Body = bytesBody b, hr_ContentLength = int (length b), hr_TransferEncoding = [],
     hr_Trailer = [], hr_pace = None\<rparr>"

definition exExchange :: "Flow option \<Rightarrow> exchange_env" where
  "exExchange got = \<lparr>xe_now = 7, xe_started = 5, xe_httpsURL = (\<lambda>h p q. p), xe_mime = (\<lambda>_. None), xe_sleep = (\<lambda>_. True), xe_reqRead = 9, xe_respRead = 9,
     xe_inbox = True, xe_insert = (\<lambda>_. Some ''f1''), xe_wait = (\<lambda>_ _. (noPatch, Some ErrContext)), xe_get = (\<lambda>_. got)\<rparr>"

abbreviation exFinish :: "Flow option \<Rightarrow> string \<Rightarrow> byte list \<Rightarrow> response_out" where
  "exFinish got t b \<equiv> finishResponseWrite ascii_env (exExchange got) (exRuleSession RulePhaseResponse t) exHttpReq (exHttpResp b) ''a.test'' '''' ''http'' None True"


theorem inbox_shows_what_client_got_witness:
  "\<exists>row. so_rows (exFinish None ''body'' [1, 2, 3]) = [row] \<and> msg_Body (fl_Response row) = Some (bytes_of ''ok'') \<and> \<not> msg_Truncated (fl_Response row)"
proof -
  let ?out = "exFinish None ''body'' [1, 2, 3]"
  have c: "so_result ?out = ruleContinue" and one: "length (so_sent ?out) = 1" by code_simp+
  have h: "case respHitOf ascii_env (exRuleSession RulePhaseResponse ''body'') ''a.test'' exHttpReq (exHttpResp [1, 2, 3]) of None \<Rightarrow> True | Some h \<Rightarrow> ra_Type (hit_Action h) \<noteq> ''breakpoint''"
    and k: "\<not> xs_skipInsert (exRuleSession RulePhaseResponse ''body'')"
    and b: "bodyBytes (hr_Body (hd (so_sent ?out))) = bytes_of ''ok''" "xe_respRead (exExchange None) = 9" "length (bytes_of ''ok'') = 2" by code_simp+
  have v: "append_nil (take (nat (maxBodyOf exBodySpec)) (bytes_of ''ok'')) = Some (bytes_of ''ok'')" "\<not> int (length (bytes_of ''ok'')) > maxBodyOf exBodySpec" by code_simp+
  have s: "xs_spec (exRuleSession RulePhaseResponse ''body'') = exBodySpec" by (simp add: exRuleSession_def)
  have sent: "so_sent ?out = [hd (so_sent ?out)]" using one by (cases "so_sent ?out") simp_all
  have h': "\<forall>h. respHitOf ascii_env (exRuleSession RulePhaseResponse ''body'') ''a.test'' exHttpReq (exHttpResp [1, 2, 3]) = Some h \<longrightarrow> ra_Type (hit_Action h) \<noteq> ''breakpoint''"
    using h by (auto split: option.splits)
  have l: "length (bodyBytes (hr_Body (hd (so_sent ?out)))) \<le> xe_respRead (exExchange None)" unfolding b by simp
  from inbox_shows_what_client_got[OF c sent k h' l] show ?thesis unfolding b(1) s using v by metis
qed

definition exResolved :: resolved where
  "exResolved = \<lparr>rv_Host = ''a.test'', rv_Port = ''80'', rv_Selected = [10, 0, 0, 9], rv_All = [[10, 0, 0, 9]]\<rparr>"

abbreviation exForward :: "string \<Rightarrow> exchange_out" where
  "exForward t \<equiv> forwardOriginHTTP ascii_env (exExchange None) (exRuleSession RulePhaseRequest t) exHttpReq exResolved ''a.test'' ''80'' (\<lambda>_. Some (exHttpResp [1, 2]))"

theorem answered_exchange_is_on_record_witness:
  "1 \<le> length (eo_rows (exForward ''silent'')) \<and> length (eo_rows (exForward ''silent'')) \<le> 1"
proof -
  have "\<not> xs_skipInsert (exRuleSession RulePhaseRequest ''silent'')" by code_simp
  moreover have "eo_close (exForward ''silent'') \<noteq> None" by code_simp
  moreover have "\<not> isBreakpoint (reqHitOf ascii_env (exRuleSession RulePhaseRequest ''silent'') ''a.test'' exHttpReq)" by code_simp
  moreover have "takesRows (exExchange None)" by (simp add: takesRows_def exExchange_def)
  ultimately show ?thesis
    using answered_exchange_is_on_record[of "exRuleSession RulePhaseRequest ''silent''" "exExchange None" ascii_env exHttpReq exResolved "''a.test''" "''80''" "\<lambda>_. Some (exHttpResp [1, 2])"]
    by presburger
qed

theorem proxy_credentials_stay_witness:
  "\<exists>addr h out. eo_origin (exForward ''header'') = Some (addr, h, out) \<and> hdrValues (hq_Header out) ''Proxy-Authorization'' = []"
proof -
  have s: "\<not> xs_skipInsert (exRuleSession RulePhaseRequest ''header'')" by code_simp
  have "ro_result (runRequestRulesWrite ascii_env (exExchange None) ((exRuleSession RulePhaseRequest ''header'')\<lparr>xs_reqHit :=
      reqHitOf ascii_env (exRuleSession RulePhaseRequest ''header'') ''a.test'' exHttpReq\<rparr>) exHttpReq ''a.test'' '''' ''http'' None) = ruleContinue" by code_simp
  from continues_to_origin[OF this] obtain addr h out where "eo_origin (exForward ''header'') = Some (addr, h, out)" by (metis prod_cases3)
  with proxy_credentials_stay[OF s] show ?thesis by blast
qed

definition exRacedRow :: Flow where
  "exRacedRow = hd (so_rows (exFinish None ''breakpoint'' [1, 2, 3, 4, 5]))"

theorem raced_resume_cuts_body_witness:
  "\<exists>sent. so_sent (exFinish (Some (exRacedRow\<lparr>fl_State := FlowStateCompleted\<rparr>)) ''breakpoint'' [1, 2, 3, 4, 5]) = [sent] \<and> bodyBytes (hr_Body sent) = [1, 2, 3, 4]"
proof -
  let ?g = "Some (exRacedRow\<lparr>fl_State := FlowStateCompleted\<rparr>)"
  let ?h = "hitOf (exRule RulePhaseResponse ''breakpoint'')"
  have h: "respHitOf ascii_env (exRuleSession RulePhaseResponse ''breakpoint'') ''a.test'' exHttpReq (exHttpResp [1, 2, 3, 4, 5]) = Some ?h" by code_simp
  have a: "ra_Type (hit_Action ?h) = ''breakpoint''" "hit_Phase ?h = RulePhaseResponse" by code_simp+
  have l: "maxBodyOf (xs_spec (exRuleSession RulePhaseResponse ''breakpoint'')) < int (length (bodyBytes (hr_Body (exHttpResp [1, 2, 3, 4, 5]))))" by code_simp
  have t: "take (nat (maxBodyOf (xs_spec (exRuleSession RulePhaseResponse ''breakpoint'')))) (bodyBytes (hr_Body (exHttpResp [1, 2, 3, 4, 5]))) = [1, 2, 3, 4]" by code_simp
  have ev: "exExchange ?g = (exExchange None)\<lparr>xe_get := \<lambda>_. ?g\<rparr>" by (simp add: exExchange_def)
  have "length (so_rows (exFinish None ''breakpoint'' [1, 2, 3, 4, 5])) = 1" by code_simp
  then have "so_rows (exFinish None ''breakpoint'' [1, 2, 3, 4, 5]) = [exRacedRow]" by (auto simp: exRacedRow_def length_Suc_conv)
  moreover have "so_rows (exFinish ?g ''breakpoint'' [1, 2, 3, 4, 5]) = so_rows (exFinish None ''breakpoint'' [1, 2, 3, 4, 5])"
    unfolding ev by (rule finishResponseWrite_get[OF h a(1)])
  ultimately have r: "so_rows (exFinish ?g ''breakpoint'' [1, 2, 3, 4, 5]) = [exRacedRow]" by simp
  have i: "xe_inbox (exExchange ?g)" by (simp add: exExchange_def)
  have e: "\<forall>f. xe_insert (exExchange ?g) f = Some ''f1''" "\<forall>t. snd (xe_wait (exExchange ?g) ''f1'' t) = Some ErrContext" "xe_get (exExchange ?g) ''f1'' = ?g"
    by (simp_all add: exExchange_def)
  from raced_resume_cuts_body[OF h a i e(1,2) r e(3) l] show ?thesis by (simp add: t)
qed

end
