(* ===== verification/Proxy_Serve.thy ===== *)
theory Proxy_Serve
  imports Proxy_Phases_Props Proxy_Relay
begin

text \<open>
  How a request reaches an exchange (\<open>internal/proxy/handler.go\<close>, \<open>forward.go\<close>, \<open>connect.go\<close>,
  \<open>intercept.go\<close>): admission, the protocol gates, proxy authentication, the target guard, and for CONNECT the
  tunnel or the interception with its inner HTTP/1.1 requests. The network, the two TLS handshakes and
  the hijacking of the connection are arguments; requests of the original-destination listener go to the
  destination their connection was redirected from (\<open>origdest.go\<close>). Requests that upgrade to WebSocket or
  expect a 100 are handed, with the address they may be sent to, to handlers that are not part of this
  theory; so are connections that open with the HTTP/2 preface.
\<close>

subsection \<open>Surroundings\<close>

text \<open>The state of the TLS connection to the client, and how the handshake with the origin ended.\<close>

record clientTLS =
  ct_ServerName :: string
  ct_ALPN :: string
  ct_Version :: string
  ct_CipherSuite :: string

datatype upTLS = UpstreamFailed bool | UpstreamTLS string bool

record serve_env =
  se_lookup :: "string \<Rightarrow> byte list list option"
  se_sha :: "byte list \<Rightarrow> byte list"
  se_users :: "SOCKSUserDigest list"
  se_hijack :: "bool option"
  se_dial :: "string \<Rightarrow> bool"
  se_established :: bool
  se_hasCA :: bool
  se_insecure :: bool
  se_leafDNS :: "string \<Rightarrow> string slice"
  se_clientTLS :: "string \<Rightarrow> string list \<Rightarrow> clientTLS option"
  se_upTLS :: "string \<Rightarrow> string list \<Rightarrow> upTLS"
  se_date :: string
  se_own :: own_env

type_synonym origin_trip = "string \<times> string \<times> httpReq \<Rightarrow> httpResp option"

text \<open>An inner request with the surroundings of its exchange, and whether an answer of the proxy itself reaches
  the client.\<close>

record inner_item =
  ii_req :: httpReq
  ii_ev :: exchange_env
  ii_trip :: origin_trip
  ii_writeOK :: bool

datatype serve_end =
    ServedHTTP ruleResult
  | ServedNothing
  | ServedTunnel
  | ServedUpgrade
  | ServedInnerH2
  | ServedH2C
  | ServedElsewhere

text \<open>What was sent to the client, the rows offered to the inbox, and the address that was dialled or handed to the
  code that dials it.\<close>

record serve_out =
  sx_sent :: "httpResp list"
  sx_rows :: "Flow list"
  sx_dialled :: "string option"
  sx_end :: serve_end

definition refusal :: "httpResp \<Rightarrow> Flow list \<Rightarrow> serve_out" where
  "refusal resp rows = \<lparr>sx_sent = [resp], sx_rows = rows, sx_dialled = None, sx_end = ServedHTTP ruleAbort\<rparr>"

subsection \<open>Answers of the proxy\<close>

text \<open>Realms are UTF-8, so quoting by runes is quoting by bytes.\<close>

definition quoteAuthRealm :: "string \<Rightarrow> string" where
  "quoteAuthRealm realm = concat (map (\<lambda>c. if c = CHR 0x5C \<or> c = CHR 0x22 then [CHR 0x5C, c] else [c]) realm)"

definition proxyAuthenticateValue :: "go_env \<Rightarrow> string \<Rightarrow> string" where
  "proxyAuthenticateValue u realm =
     ''Basic realm='' @ [CHR 0x22] @ quoteAuthRealm (if TrimSpace u realm = '''' then ''labmitm-proxy'' else realm) @ [CHR 0x22]"

definition proxyAuthChallengeBody :: string where
  "proxyAuthChallengeBody = ''proxy authentication required'' @ [CHR 0x0A]"

definition writeProxyAuthChallenge :: "go_env \<Rightarrow> serve_env \<Rightarrow> string \<Rightarrow> httpResp" where
  "writeProxyAuthChallenge u se realm =
     \<lparr>hr_StatusCode = 407, hr_Header = [(''Content-Type'', [''text/plain; charset=utf-8'']), (''Proxy-Authenticate'', [proxyAuthenticateValue u realm]),
        (''Content-Length'', [FormatInt (int (length proxyAuthChallengeBody))]), (''Date'', [se_date se])],
      hr_Body = bytesBody (bytes_of proxyAuthChallengeBody), hr_ContentLength = int (length proxyAuthChallengeBody), hr_TransferEncoding = [],
      hr_Trailer = [], hr_pace = None\<rparr>"

definition innerForbiddenResponse :: "string \<Rightarrow> string \<Rightarrow> httpResp" where
  "innerForbiddenResponse msg remediation =
     (let body = ''forbidden: '' @ msg @ [CHR 0x0A] @ (if remediation \<noteq> '''' then remediation @ [CHR 0x0A] else [])
      in \<lparr>hr_StatusCode = 403, hr_Header = [(''Content-Type'', [''text/plain; charset=utf-8'']), (''Content-Length'', [FormatInt (int (length body))])],
          hr_Body = bytesBody (bytes_of body), hr_ContentLength = int (length body), hr_TransferEncoding = [], hr_Trailer = [], hr_pace = None\<rparr>)"

definition writeHijackedError :: "int \<Rightarrow> string \<Rightarrow> string \<Rightarrow> httpResp" where
  "writeHijackedError status ecode msg =
     (let body = ecode @ '': '' @ msg @ [CHR 0x0A]
      in \<lparr>hr_StatusCode = status, hr_Header = [(''Content-Type'', [''text/plain; charset=utf-8'']), (''Connection'', [''close'']), (''Content-Length'', [FormatInt (int (length body))])],
          hr_Body = bytesBody (bytes_of body), hr_ContentLength = int (length body), hr_TransferEncoding = [], hr_Trailer = [], hr_pace = None\<rparr>)"

definition established :: httpResp where
  "established = \<lparr>hr_StatusCode = 200, hr_Header = [], hr_Body = None, hr_ContentLength = 0, hr_TransferEncoding = [], hr_Trailer = [], hr_pace = None\<rparr>"

text \<open>Refusals that start their flow at the moment they are written.\<close>

definition startNow :: "exchange_env \<Rightarrow> exchange_env" where
  "startNow ev = ev\<lparr>xe_started := xe_now ev\<rparr>"

subsection \<open>Absolute-form requests\<close>

definition forbiddenByWebSocketGate :: "go_env \<Rightarrow> Spec \<Rightarrow> httpReq \<Rightarrow> bool" where
  "forbiddenByWebSocketGate u sp req \<longleftrightarrow> IsWebSocketUpgrade u (hq_Header req) \<and> \<not> wss_Enabled (pr_WebSocket (sp_Protocols sp))"

text \<open>The row and the answer, if the gate is closed.\<close>

definition rejectDisabledWebSocket :: "go_env \<Rightarrow> exchange_env \<Rightarrow> ruleSession \<Rightarrow> httpReq \<Rightarrow> string \<Rightarrow> serve_out option" where
  "rejectDisabledWebSocket u ev sess req host =
     (if \<not> forbiddenByWebSocketGate u (xs_spec sess) req then None
      else Some (refusal (writeProxyError 403 ''forbidden'' ''websocket is disabled'' ''spec.protocols.websocket.enabled'')
        [captureFlow u ev sess ((flowFromReq (startNow ev) req (if host = '''' then hq_URLHost req else host) ''http'' 403 ''forbidden'')\<lparr>fl_Protocol := ''websocket''\<rparr>)]))"

definition rejectResolve :: "go_env \<Rightarrow> exchange_env \<Rightarrow> ruleSession \<Rightarrow> httpReq \<Rightarrow> string \<Rightarrow> guard_error \<Rightarrow> serve_out" where
  "rejectResolve u ev sess req host err =
     (case err of
        errDNS \<Rightarrow> refusal (writeProxyError 502 ''internal_error'' ''dns lookup failed'' '''') [captureFlow u ev sess (flowFromReq (startNow ev) req host ''http'' 502 ''dns'')]
      | errTargetDenied \<Rightarrow> refusal (writeProxyError 403 ''target_denied'' ''target denied'' '''') [captureFlow u ev sess (flowFromReq (startNow ev) req host ''http'' 403 ''target_denied'')])"

definition headerHasExpect :: "go_env \<Rightarrow> headers \<Rightarrow> bool" where
  "headerHasExpect u h = list_ex (\<lambda>v. EqualFold u (TrimSpace u v) ''100-continue'') (hdrValues h ''Expect'')"

definition ofExchange :: "resolved \<Rightarrow> exchange_out \<Rightarrow> serve_out" where
  "ofExchange res x = \<lparr>sx_sent = eo_sent x, sx_rows = eo_rows x,
     sx_dialled = (case eo_origin x of None \<Rightarrow> None | Some (addr, _) \<Rightarrow> Some addr), sx_end = ServedHTTP (eo_result x)\<rparr>"

definition forwardHTTP :: "go_env \<Rightarrow> exchange_env \<Rightarrow> ruleSession \<Rightarrow> httpReq \<Rightarrow> resolved \<Rightarrow> string \<Rightarrow> string \<Rightarrow> origin_trip \<Rightarrow> serve_out" where
  "forwardHTTP u ev sess req res host port roundTrip =
     (if IsWebSocketUpgrade u (hq_Header req) \<or> headerHasExpect u (hq_Header req)
      then \<lparr>sx_sent = [], sx_rows = [], sx_dialled = Some (pinnedAddr (rv_Selected res) (rv_Port res)), sx_end = ServedElsewhere\<rparr>
      else ofExchange res (forwardOriginHTTP u ev sess req res host port roundTrip))"

definition serveAbsolute :: "go_env \<Rightarrow> serve_env \<Rightarrow> exchange_env \<Rightarrow> ruleSession \<Rightarrow> httpReq \<Rightarrow> origin_trip \<Rightarrow> serve_out" where
  "serveAbsolute u se ev sess req roundTrip =
     (case splitAuthority u (hq_URLHost req) ''80'' of
        None \<Rightarrow> refusal (writeProxyError 400 ''validation_failed'' ''invalid authority'' '''') []
      | Some (host, port) \<Rightarrow>
        case rejectDisabledWebSocket u ev sess req host of Some out \<Rightarrow> out
        | None \<Rightarrow>
          if \<not> pg_Enabled (pr_AbsoluteForm (sp_Protocols (xs_spec sess)))
          then refusal (writeProxyError 403 ''forbidden'' ''absolute-form is disabled'' ''spec.protocols.absoluteForm.enabled'')
                 [captureFlow u ev sess (flowFromReq ev req host ''http'' 403 ''forbidden'')]
          else if rejectHTTPAuth u (se_sha se) (xs_spec sess) (hq_Header req) (se_users se)
          then refusal (writeProxyAuthChallenge u se (ha_Realm (px_HTTPAuth (sp_Proxy (xs_spec sess)))))
                 [captureFlow u ev sess (flowFromReq ev req host ''http'' 407 ''proxy_auth'')]
          else case resolveThenGuard u (se_lookup se) (px_Targets (sp_Proxy (xs_spec sess))) host port of
               Inl err \<Rightarrow> rejectResolve u ev sess req host err
             | Inr res \<Rightarrow> forwardHTTP u ev sess req res host port roundTrip)"

subsection \<open>The original-destination listener\<close>

record origDestMeta =
  od_IP :: "byte list"
  od_Port :: string
  od_HostPort :: string

text \<open>None when the destination is refused.\<close>

definition makeOrigDest :: "byte list \<Rightarrow> int \<Rightarrow> origDestMeta option" where
  "makeOrigDest ip0 port =
     (if ip0 = [] \<or> port \<le> 0 \<or> port > 65535 then None
      else let ip = (case To4 ip0 of Some v4 \<Rightarrow> v4 | None \<Rightarrow> ip0); ps = FormatInt port
      in Some \<lparr>od_IP = ip, od_Port = ps, od_HostPort = JoinHostPort (ipString ip) ps\<rparr>)"

definition destIsLoopback :: "byte list \<Rightarrow> bool" where
  "destIsLoopback ip \<longleftrightarrow> (case To4 ip of Some v4 \<Rightarrow> v4 ! 0 = 127 | None \<Rightarrow> ip = replicate 15 0 @ [1])"

definition isDirectConnect :: "go_env \<Rightarrow> own_env \<Rightarrow> origDestMeta \<Rightarrow> bool" where
  "isDirectConnect u oe dest =
     (case oe_origDest oe of None \<Rightarrow> False
      | Some listen \<Rightarrow>
        if od_IP dest = [] \<or> od_Port dest = '''' then False
        else case SplitHostPort listen of None \<Rightarrow> False
        | Some (_, lp) \<Rightarrow>
          if od_Port dest \<noteq> lp then False
          else ipIsUnspecified (od_IP dest) \<or> destIsLoopback (od_IP dest) \<or> isLocalIP u (oe_ifaces oe) (ipString (od_IP dest)))"

definition isListenAuthority :: "go_env \<Rightarrow> own_env \<Rightarrow> string \<Rightarrow> string \<Rightarrow> ListenersSpec \<Rightarrow> bool" where
  "isListenAuthority u oe h p l =
     (let opt = (\<lambda>a. case a of None \<Rightarrow> [] | Some s \<Rightarrow> [s]); listed = (\<lambda>s. if s \<noteq> '''' then [s] else []);
          cands = opt (oe_proxy oe) @ opt (oe_origDest oe) @ listed (pl_Address (ls_Proxy l)) @ listed (od_Address (ls_OriginalDestination l))
      in list_ex (\<lambda>c. sameEndpoint u (oe_ifaces oe) c (JoinHostPort h p)) cands)"

text \<open>The name a redirected request goes by in rules and rows; where it is sent does not depend on it.\<close>

definition origDestCaptureHost :: "go_env \<Rightarrow> own_env \<Rightarrow> httpReq \<Rightarrow> origDestMeta \<Rightarrow> ListenersSpec \<Rightarrow> string \<times> string" where
  "origDestCaptureHost u oe req dest l =
     (let host = ipString (od_IP dest); port = od_Port dest;
          raw = (if TrimSpace u (hq_Host req) = '''' then hq_URLHost req else TrimSpace u (hq_Host req))
      in if raw = '''' then (host, port)
         else case splitAuthority u raw port of None \<Rightarrow> (host, port)
         | Some (h, p) \<Rightarrow> if h = '''' then (host, port) else if isListenAuthority u oe h p l then (host, port) else (h, p))"

definition serveOrigDestHTTP :: "go_env \<Rightarrow> serve_env \<Rightarrow> exchange_env \<Rightarrow> ruleSession \<Rightarrow> httpReq \<Rightarrow> origDestMeta \<Rightarrow> origin_trip \<Rightarrow> serve_out" where
  "serveOrigDestHTTP u se ev sess0 req dest roundTrip =
     (let sess = sess0\<lparr>xs_via := ''original-dest'', xs_originalDest := od_HostPort dest\<rparr>; ip = ipString (od_IP dest)
      in case rejectDisabledWebSocket u ev sess req ip of Some out \<Rightarrow> out
        | None \<Rightarrow>
          case resolveThenGuard u (se_lookup se) (px_Targets (sp_Proxy (xs_spec sess))) ip (od_Port dest) of
            Inl err \<Rightarrow> rejectResolve u ev sess req ip err
          | Inr res \<Rightarrow>
            if isHairpin u (se_own se) res (sp_Listeners (xs_spec sess)) \<or> isDirectConnect u (se_own se) dest
            then refusal (writeProxyError 403 ''target_denied'' ''target denied'' '''') [captureFlow u ev sess (flowFromReq ev req ip ''http'' 403 ''target_denied'')]
            else (case origDestCaptureHost u (se_own se) req dest (sp_Listeners (xs_spec sess)) of (host, port) \<Rightarrow>
                    forwardHTTP u ev sess req res host port roundTrip))"

subsection \<open>CONNECT and interception\<close>

definition connectFlow :: "exchange_env \<Rightarrow> httpReq \<Rightarrow> string \<Rightarrow> int \<Rightarrow> string \<Rightarrow> Flow" where
  "connectFlow ev req host status ferr =
     zeroFlow\<lparr>fl_StartedAt := xe_started ev, fl_CompletedAt := xe_now ev, fl_State := (if ferr \<noteq> '''' then FlowStateError else FlowStateCompleted),
       fl_Method := hq_Method req, fl_Host := host, fl_Protocol := ''connect'', fl_Status := status, fl_Error := ferr\<rparr>"

definition connectErrFlow :: "exchange_env \<Rightarrow> httpReq \<Rightarrow> string \<Rightarrow> string \<Rightarrow> string \<Rightarrow> Flow" where
  "connectErrFlow ev req host state ferr = (connectFlow ev req host 0 ferr)\<lparr>fl_State := state, fl_Scheme := ''https'', fl_Intercepted := False\<rparr>"

definition failIntercept :: "go_env \<Rightarrow> exchange_env \<Rightarrow> ruleSession \<Rightarrow> httpReq \<Rightarrow> string \<Rightarrow> string \<Rightarrow> Flow" where
  "failIntercept u ev sess req host result = captureFlow u ev sess (connectErrFlow ev req host FlowStateError result)"

definition hostNameAllowed :: "go_env \<Rightarrow> TargetsSpec \<Rightarrow> string \<Rightarrow> bool" where
  "hostNameAllowed u t host =
     (if ParseIP host \<noteq> None then True
      else if matchHostList u (elems (tg_DenyHosts t)) host then False
      else if elems (tg_AllowHosts t) \<noteq> [] \<and> \<not> matchHostList u (elems (tg_AllowHosts t)) host then False
      else True)"

definition handshakeClientNextProtos :: "Spec \<Rightarrow> string list" where
  "handshakeClientNextProtos sp = (if h2s_Enabled (pr_HTTP2 (sp_Protocols sp)) then [''h2'', ''http/1.1''] else [''http/1.1''])"

definition handshakeOriginNextProtos :: "Spec \<Rightarrow> string \<Rightarrow> string list" where
  "handshakeOriginNextProtos sp innerALPN =
     (if h2s_Origin (pr_HTTP2 (sp_Protocols sp)) \<and> innerALPN = ''h2'' then [''h2'', ''http/1.1''] else [''http/1.1''])"

definition tlsInfo :: "serve_env \<Rightarrow> clientTLS \<Rightarrow> bool \<Rightarrow> string \<Rightarrow> string \<Rightarrow> TLSInfo" where
  "tlsInfo se c verified sni0 connectHost =
     (let sni = (if sni0 = '''' then ct_ServerName c else sni0)
      in \<lparr>tls_SNI = sni, tls_Version = ct_Version c, tls_CipherSuite = ct_CipherSuite c, tls_ALPN = ct_ALPN c,
          tls_UpstreamVerified = (verified \<and> \<not> se_insecure se), tls_LeafDNS = se_leafDNS se (if sni = '''' then connectHost else sni)\<rparr>)"

definition fork :: "ruleSession \<Rightarrow> ruleSession" where
  "fork sess = sess\<lparr>xs_reqHit := None, xs_respHit := None, xs_reqCap := None, xs_skipInsert := False, xs_reqTrailers := None, xs_respTrailers := None, xs_closeMode := ''''\<rparr>"

definition innerOriginRequest :: "go_env \<Rightarrow> exchange_env \<Rightarrow> Spec \<Rightarrow> httpReq \<Rightarrow> resolved \<Rightarrow> string \<Rightarrow> string \<Rightarrow> cappedWriter option \<Rightarrow> (string \<times> string \<times> httpReq) \<times> cappedWriter option" where
  "innerOriginRequest u ev sp req res host port preCap =
     (let out = req\<lparr>hq_Header := PrepareRequest u (hq_Header req), hq_Path := (if hq_Path req = '''' then ''/'' else hq_Path req)\<rparr>
      in ((pinnedAddr (rv_Selected res) (rv_Port res), if hq_Host req \<noteq> '''' then hq_Host req else httpsOriginHost host port, out),
          case preCap of Some c \<Rightarrow> Some c
          | None \<Rightarrow> (case hq_Body out of None \<Rightarrow> None
                     | Some b \<Rightarrow> Some (cappedWrite (take (xe_reqRead ev) (bd_data b)) (teeBody (maxBodyOf sp))))))"

text \<open>One inner request: the exchange, whether the connection ends with it, and the flow of an upgraded connection
  with whether its frames are to be inspected.\<close>

record inner_out =
  io_exchange :: exchange_out
  io_stop :: bool
  io_upgrade :: "(Flow \<times> bool) option"

definition innerFinish :: "go_env \<Rightarrow> exchange_env \<Rightarrow> ruleSession \<Rightarrow> httpReq \<Rightarrow> (string \<times> string \<times> httpReq) \<Rightarrow> httpResp list \<Rightarrow> Flow list \<Rightarrow> httpResp \<Rightarrow> string \<Rightarrow> string \<Rightarrow> TLSInfo \<Rightarrow> inner_out" where
  "innerFinish u ev sess req origin written rows resp host port info =
     (let f = finishResponseWrite u ev sess req (writeClientResponse u resp) host port ''https'' (Some info) True
      in \<lparr>io_exchange = \<lparr>eo_result = so_result f, eo_origin = Some origin, eo_sent = written @ so_sent f, eo_rows = rows @ so_rows f,
            eo_close = (if so_result f = ruleSilentClose then Some (closeModeOr (so_sess f) ''rst'') else None)\<rparr>,
          io_stop = (so_result f = ruleSilentClose), io_upgrade = None\<rparr>)"

definition roundTripInner :: "go_env \<Rightarrow> ruleSession \<Rightarrow> string \<Rightarrow> string \<Rightarrow> resolved \<Rightarrow> TLSInfo \<Rightarrow> inner_item \<Rightarrow> inner_out" where
  "roundTripInner u pinned host port res info it =
     (let ev = ii_ev it; req0 = ii_req it; sess0 = fork pinned
      in if forbiddenByWebSocketGate u (xs_spec sess0) req0
         then \<lparr>io_exchange = \<lparr>eo_result = ruleAbort, eo_origin = None, eo_sent = [writeClientResponse u (innerForbiddenResponse ''websocket is disabled'' ''spec.protocols.websocket.enabled'')],
                 eo_rows = [captureFlow u ev sess0 ((innerFlow u ev req0 host port 403 ''forbidden'' info (xs_reqCap sess0) None)\<lparr>fl_Protocol := ''websocket''\<rparr>)], eo_close = None\<rparr>,
               io_stop = (\<not> ii_writeOK it), io_upgrade = None\<rparr>
         else let sess = sess0\<lparr>xs_reqHit := matchHit u (xs_eng sess0) RulePhaseRequest host req0 (hq_Header req0)\<rparr>;
                  r = runRequestRulesWrite u ev sess req0 host port ''https'' (Some info)
         in if ro_result r = ruleSilentClose
            then \<lparr>io_exchange = \<lparr>eo_result = ruleSilentClose, eo_origin = None, eo_sent = ro_written r, eo_rows = ro_rows r, eo_close = Some (closeModeOr (ro_sess r) ''rst'')\<rparr>,
                  io_stop = True, io_upgrade = None\<rparr>
            else if ro_result r = ruleSynthesize \<or> ro_result r = ruleAbort
            then \<lparr>io_exchange = \<lparr>eo_result = ro_result r, eo_origin = None, eo_sent = ro_written r, eo_rows = ro_rows r, eo_close = None\<rparr>, io_stop = False, io_upgrade = None\<rparr>
            else case innerOriginRequest u ev (xs_spec sess) (ro_req r) res host port (xs_reqCap (ro_sess r)) of (origin, cap) \<Rightarrow>
              let sess1 = (case cap of None \<Rightarrow> ro_sess r | Some c \<Rightarrow> (ro_sess r)\<lparr>xs_reqCap := Some c\<rparr>)
              in case ii_trip it origin of
                   None \<Rightarrow> \<lparr>io_exchange = \<lparr>eo_result = ruleAbort, eo_origin = Some origin,
                       eo_sent = ro_written r @ [writeHijackedError 502 ''internal_error'' ''upstream request failed''],
                       eo_rows = ro_rows r @ [captureRule u ev sess1 (ro_req r) (xs_reqCap sess1) None None [xs_reqHit sess1]
                         (innerFlow u ev (ro_req r) host port 502 ''upstream'' info (xs_reqCap sess1) None)], eo_close = None\<rparr>, io_stop = True, io_upgrade = None\<rparr>
                 | Some resp \<Rightarrow>
                   if IsWebSocketUpgrade u (hq_Header (ro_req r)) \<and> hr_StatusCode resp = 101
                   then if \<not> ii_writeOK it
                        then \<lparr>io_exchange = \<lparr>eo_result = ruleAbort, eo_origin = Some origin, eo_sent = ro_written r,
                               eo_rows = ro_rows r @ [captureFlow u ev sess1 (innerFlow u ev (ro_req r) host port (hr_StatusCode resp) ''client'' info (xs_reqCap sess1) None)], eo_close = None\<rparr>,
                              io_stop = True, io_upgrade = None\<rparr>
                        else \<lparr>io_exchange = \<lparr>eo_result = ruleContinue, eo_origin = Some origin, eo_sent = ro_written r, eo_rows = ro_rows r, eo_close = None\<rparr>, io_stop = True,
                         io_upgrade = Some ((innerFlow u ev (ro_req r) host port 101 '''' info (xs_reqCap sess1) None)\<lparr>fl_Protocol := ''websocket''\<rparr>,
                           wss_InspectFrames (pr_WebSocket (sp_Protocols (xs_spec sess1))))\<rparr>
                   else innerFinish u ev sess1 (ro_req r) origin (ro_written r) (ro_rows r) resp host port info)"

text \<open>The loop over the inner requests: the exchanges in order, and whether it handed the connection to a tunnel.\<close>

fun innerLoop :: "go_env \<Rightarrow> ruleSession \<Rightarrow> httpReq \<Rightarrow> string \<Rightarrow> string \<Rightarrow> resolved \<Rightarrow> TLSInfo \<Rightarrow> inner_item list \<Rightarrow> exchange_out list \<times> bool" where
  "innerLoop u sess creq host port res info [] = ([], False)"
| "innerLoop u sess creq host port res info (it # rest) =
     (if hq_Method (ii_req it) = ''PRI''
      then ([\<lparr>eo_result = ruleAbort, eo_origin = None, eo_sent = [], eo_rows = [captureFlow u (ii_ev it) sess (connectErrFlow (startNow (ii_ev it)) creq host FlowStateError ''http2_inner'')],
              eo_close = None\<rparr>], False)
      else let o1 = roundTripInner u sess host port res info it
      in if io_stop o1 then ([io_exchange o1], io_upgrade o1 \<noteq> None)
         else case innerLoop u sess creq host port res info rest of (xs, up) \<Rightarrow> (io_exchange o1 # xs, up))"

definition innerHTTP :: "go_env \<Rightarrow> ruleSession \<Rightarrow> clientTLS \<Rightarrow> httpReq \<Rightarrow> string \<Rightarrow> string \<Rightarrow> resolved \<Rightarrow> TLSInfo \<Rightarrow> inner_item list \<Rightarrow> serve_out" where
  "innerHTTP u sess c creq host port res info items =
     (if ct_ALPN c = ''h2'' \<and> h2s_Enabled (pr_HTTP2 (sp_Protocols (xs_spec sess)))
      then \<lparr>sx_sent = [], sx_rows = [], sx_dialled = None, sx_end = ServedInnerH2\<rparr>
      else case innerLoop u sess creq host port res info items of (xs, up) \<Rightarrow>
        \<lparr>sx_sent = concat (map eo_sent xs), sx_rows = concat (map eo_rows xs), sx_dialled = None, sx_end = (if up then ServedUpgrade else ServedNothing)\<rparr>)"

definition serveInterceptConn :: "go_env \<Rightarrow> serve_env \<Rightarrow> exchange_env \<Rightarrow> ruleSession \<Rightarrow> httpReq \<Rightarrow> string \<Rightarrow> string \<Rightarrow> resolved \<Rightarrow> inner_item list \<Rightarrow> serve_out" where
  "serveInterceptConn u se ev sess req host port res items =
     (let failed = (\<lambda>f. \<lparr>sx_sent = [], sx_rows = [f], sx_dialled = None, sx_end = ServedNothing\<rparr>)
      in if \<not> se_hasCA se then failed (failIntercept u ev sess req host ''mint_fail'')
         else case se_clientTLS se host (handshakeClientNextProtos (xs_spec sess)) of
           None \<Rightarrow> failed (failIntercept u ev sess req host ''tls_handshake'')
         | Some c \<Rightarrow>
           let sni = ct_ServerName c
           in if sni \<noteq> '''' \<and> \<not> EqualFold u sni host \<and> \<not> hostNameAllowed u (px_Targets (sp_Proxy (xs_spec sess))) sni
              then failed (captureFlow u ev sess (connectErrFlow ev req host FlowStateError ''target_denied''))
              else case se_upTLS se (if sni = '''' then host else sni) (handshakeOriginNextProtos (xs_spec sess) (ct_ALPN c)) of
                UpstreamFailed verify \<Rightarrow> failed (failIntercept u ev sess req host (if verify then ''upstream_verify_fail'' else ''upstream_tls''))
              | UpstreamTLS alpn verified \<Rightarrow> innerHTTP u sess c req host port res (tlsInfo se c verified sni host) items)"

definition rejectCONNECT :: "go_env \<Rightarrow> exchange_env \<Rightarrow> ruleSession \<Rightarrow> httpReq \<Rightarrow> string \<Rightarrow> guard_error \<Rightarrow> serve_out" where
  "rejectCONNECT u ev sess req host err =
     (case err of
        errDNS \<Rightarrow> refusal (writeHijackedError 502 ''internal_error'' ''dns lookup failed'') [captureFlow u ev sess (connectFlow (startNow ev) req host 502 ''dns'')]
      | errTargetDenied \<Rightarrow> refusal (writeHijackedError 403 ''target_denied'' ''target denied'') [captureFlow u ev sess (connectFlow (startNow ev) req host 403 ''target_denied'')])"

definition serveCONNECT :: "go_env \<Rightarrow> serve_env \<Rightarrow> exchange_env \<Rightarrow> ruleSession \<Rightarrow> httpReq \<Rightarrow> inner_item list \<Rightarrow> serve_out" where
  "serveCONNECT u se ev sess req items =
     (let sp = xs_spec sess;
          authority = (if hq_URLHost req = '''' then hq_Host req else hq_URLHost req)
      in case splitAuthority u authority '''' of
           None \<Rightarrow> refusal (writeProxyError 400 ''validation_failed'' ''CONNECT host:port required'' '''') []
         | Some (host, port) \<Rightarrow>
           if port = '''' then refusal (writeProxyError 400 ''validation_failed'' ''CONNECT host:port required'' '''') []
           else if rejectHTTPAuth u (se_sha se) sp (hq_Header req) (se_users se)
           then refusal (writeProxyAuthChallenge u se (ha_Realm (px_HTTPAuth (sp_Proxy sp)))) [captureFlow u ev sess (connectFlow ev req host 407 ''proxy_auth'')]
           else case se_hijack se of
                None \<Rightarrow> refusal (writeProxyError 500 ''internal_error'' ''hijack not supported'' '''') []
              | Some False \<Rightarrow> \<lparr>sx_sent = [], sx_rows = [], sx_dialled = None, sx_end = ServedNothing\<rparr>
              | Some True \<Rightarrow>
                case resolveThenGuard u (se_lookup se) (px_Targets (sp_Proxy sp)) host port of
                  Inl err \<Rightarrow> rejectCONNECT u ev sess req host err
                | Inr res \<Rightarrow>
                  let addr = pinnedAddr (rv_Selected res) (rv_Port res)
                  in if \<not> se_dial se addr
                     then (refusal (writeHijackedError 502 ''internal_error'' ''dial failed'') [captureFlow u ev sess (connectFlow ev req host 502 ''dial'')])\<lparr>sx_dialled := Some addr\<rparr>
                     else if \<not> se_established se then \<lparr>sx_sent = [], sx_rows = [], sx_dialled = Some addr, sx_end = ServedNothing\<rparr>
                     else if shouldIntercept u (sp_TLS sp) host port
                     then (let out = serveInterceptConn u se ev sess req host port res items in out\<lparr>sx_sent := established # sx_sent out, sx_dialled := Some addr\<rparr>)
                     else \<lparr>sx_sent = [established], sx_rows = [captureFlow u ev sess (connectFlow ev req host 200 '''')], sx_dialled = Some addr, sx_end = ServedTunnel\<rparr>)"

subsection \<open>The handler\<close>

text \<open>The gate while the request is served, the gate after it, and the outcome. A request of the
  original-destination listener carries the destination its connection was redirected from.\<close>

definition ServeHTTP :: "go_env \<Rightarrow> serve_env \<Rightarrow> exchange_env \<Rightarrow> ruleSession \<Rightarrow> origDestMeta option \<Rightarrow> httpReq \<Rightarrow> origin_trip \<Rightarrow> inner_item list \<Rightarrow> gate \<Rightarrow> gate \<times> gate \<times> serve_out" where
  "ServeHTTP u se ev sess origDest req roundTrip items g =
     (let sp = xs_spec sess; connect = (hq_Method req = ''CONNECT''); ip = clientIP (hq_RemoteAddr req)
      in if hq_Method req = ''PRI''
         then (g, g, \<lparr>sx_sent = [], sx_rows = [], sx_dialled = None, sx_end = (if h2s_ClientCleartext (pr_HTTP2 (sp_Protocols sp)) then ServedH2C else ServedNothing)\<rparr>)
         else case acquire ip (px_Admission (sp_Proxy sp)) g of
           (g1, Some e) \<Rightarrow> (g1, g1, refusal (writeProxyError (if connect then 503 else 429) ''rate_limited'' ''too many sessions'' '''') [])
         | (g1, None) \<Rightarrow>
           (g1, release ip g1,
            case origDest of
              Some dest \<Rightarrow>
                if connect then refusal (writeProxyError 400 ''validation_failed'' ''CONNECT is not supported on original-destination'' '''') []
                else serveOrigDestHTTP u se ev sess req dest roundTrip
            | None \<Rightarrow>
            if connect \<and> \<not> pg_Enabled (pr_Connect (sp_Protocols sp))
            then (let authority = (if hq_URLHost req = '''' then hq_Host req else hq_URLHost req);
                      host = (case splitAuthority u authority '''' of None \<Rightarrow> authority | Some (h, _) \<Rightarrow> if h = '''' then authority else h)
                  in refusal (writeProxyError 403 ''forbidden'' ''CONNECT is disabled'' ''spec.protocols.connect.enabled'') [captureFlow u ev sess (connectFlow (startNow ev) req host 403 ''forbidden'')])
            else if connect then serveCONNECT u se ev sess req items
            else if ToLower u (hq_URLScheme req) = ''https''
            then refusal (writeProxyError 400 ''validation_failed'' ''https absolute-form is not supported'' ''use CONNECT'')
                   [captureFlow u ev sess (zeroFlow\<lparr>fl_Method := hq_Method req, fl_URL := hq_URL req, fl_Host := hq_URLHost req, fl_Scheme := ''https'', fl_Protocol := ''http/1.1'',
                      fl_State := FlowStateError, fl_Error := ''validation_failed'', fl_Status := 400\<rparr>)]
            else if ToLower u (hq_URLScheme req) \<noteq> ''http'' \<or> hq_URLHost req = ''''
            then refusal (writeProxyError 400 ''validation_failed'' ''absolute-form or CONNECT required'' '''') []
            else serveAbsolute u se ev sess req roundTrip))"

end
