(* ===== verification/Proxy_Serve_Props.thy ===== *)
theory Proxy_Serve_Props
  imports Proxy_Serve
begin

text \<open>
  What a client can make the proxy do: it dials only guarded addresses, for admitted and authenticated
  requests whose protocol is on; an intercepted session stays on the address of its CONNECT, starts
  only after both handshakes, and every answered inner request is on record.
\<close>

subsection \<open>What is dialled\<close>

lemma ofExchange_dialled:
  assumes "sx_dialled (ofExchange res (forwardOriginHTTP u ev sess req res host port roundTrip)) = Some addr"
  shows "addr = pinnedAddr (rv_Selected res) (rv_Port res)"
  using assms by (auto simp: ofExchange_def forwardOriginHTTP_def originRequest_def Let_def split: if_splits option.splits)

lemma refusal_dialled [simp]: "sx_dialled (refusal r rows) = None"
  by (simp add: refusal_def)

lemma reject_dialled [simp]:
  "sx_dialled (rejectResolve u ev sess req host err) = None" "sx_dialled (rejectCONNECT u ev sess req host err) = None"
  "rejectDisabledWebSocket u ev sess req host = Some out \<Longrightarrow> sx_dialled out = None"
  by (auto simp: rejectResolve_def rejectCONNECT_def rejectDisabledWebSocket_def split: guard_error.splits if_splits)

text \<open>The request was let through to this address.\<close>

definition letThrough :: "go_env \<Rightarrow> serve_env \<Rightarrow> Spec \<Rightarrow> httpReq \<Rightarrow> string \<Rightarrow> string \<Rightarrow> string \<Rightarrow> bool" where
  "letThrough u se sp req authority dflt addr \<longleftrightarrow>
     (\<exists>host port res. splitAuthority u authority dflt = Some (host, port)
        \<and> resolveThenGuard u (se_lookup se) (px_Targets (sp_Proxy sp)) host port = Inr res
        \<and> addr = pinnedAddr (rv_Selected res) (rv_Port res) \<and> \<not> forbidden (px_Targets (sp_Proxy sp)) (rv_Selected res)
        \<and> \<not> rejectHTTPAuth u (se_sha se) sp (hq_Header req) (se_users se))"

lemma letThrough_intro:
  assumes "splitAuthority u authority dflt = Some (host, port)" and "resolveThenGuard u (se_lookup se) (px_Targets (sp_Proxy sp)) host port = Inr res"
    and "\<not> rejectHTTPAuth u (se_sha se) sp (hq_Header req) (se_users se)"
  shows "letThrough u se sp req authority dflt (pinnedAddr (rv_Selected res) (rv_Port res))"
  using guard_accepted[OF assms(2)] assms unfolding letThrough_def by blast

lemma forwardHTTP_dialled:
  "sx_dialled (forwardHTTP u ev sess req res host port roundTrip) = Some addr \<Longrightarrow> addr = pinnedAddr (rv_Selected res) (rv_Port res)"
  by (auto simp: forwardHTTP_def split: if_splits dest: ofExchange_dialled)

text \<open>A redirected request was let through to this address.\<close>

definition letThroughOrigDest :: "go_env \<Rightarrow> serve_env \<Rightarrow> Spec \<Rightarrow> origDestMeta \<Rightarrow> string \<Rightarrow> bool" where
  "letThroughOrigDest u se sp dest addr \<longleftrightarrow>
     (\<exists>res. resolveThenGuard u (se_lookup se) (px_Targets (sp_Proxy sp)) (ipString (od_IP dest)) (od_Port dest) = Inr res
        \<and> addr = pinnedAddr (rv_Selected res) (rv_Port res) \<and> \<not> forbidden (px_Targets (sp_Proxy sp)) (rv_Selected res)
        \<and> \<not> isHairpin u (se_own se) res (sp_Listeners sp) \<and> \<not> isDirectConnect u (se_own se) dest)"

lemma serveOrigDestHTTP_dialled:
  assumes "sx_dialled (serveOrigDestHTTP u se ev sess req dest roundTrip) = Some addr"
  shows "letThroughOrigDest u se (xs_spec sess) dest addr"
proof -
  define s where "s = sess\<lparr>xs_via := ''original-dest'', xs_originalDest := od_HostPort dest\<rparr>"
  have spec: "xs_spec s = xs_spec sess" by (simp add: s_def)
  note eq = assms[unfolded serveOrigDestHTTP_def Let_def, folded s_def, unfolded spec]
  have none: "rejectDisabledWebSocket u ev s req (ipString (od_IP dest)) = None" using eq by (cases "rejectDisabledWebSocket u ev s req (ipString (od_IP dest))") auto
  obtain res where r: "resolveThenGuard u (se_lookup se) (px_Targets (sp_Proxy (xs_spec sess))) (ipString (od_IP dest)) (od_Port dest) = Inr res"
    using eq none by (cases "resolveThenGuard u (se_lookup se) (px_Targets (sp_Proxy (xs_spec sess))) (ipString (od_IP dest)) (od_Port dest)") simp_all
  have own: "\<not> isHairpin u (se_own se) res (sp_Listeners (xs_spec sess))" "\<not> isDirectConnect u (se_own se) dest" using eq none r by (auto split: if_splits)
  have "addr = pinnedAddr (rv_Selected res) (rv_Port res)" using eq none r own by (auto split: prod.splits dest: forwardHTTP_dialled)
  then show ?thesis using guard_accepted[OF r] r own unfolding letThroughOrigDest_def by blast
qed

lemma serveAbsolute_dialled:
  assumes "sx_dialled (serveAbsolute u se ev sess req roundTrip) = Some addr"
  shows "pg_Enabled (pr_AbsoluteForm (sp_Protocols (xs_spec sess))) \<and> letThrough u se (xs_spec sess) req (hq_URLHost req) ''80'' addr"
  using assms
  by (auto simp: serveAbsolute_def Let_def split: option.splits if_splits sum.splits dest!: forwardHTTP_dialled intro: letThrough_intro)

lemma serveCONNECT_dialled:
  assumes "sx_dialled (serveCONNECT u se ev sess req items) = Some addr"
  shows "letThrough u se (xs_spec sess) req (if hq_URLHost req = '''' then hq_Host req else hq_URLHost req) '''' addr"
proof -
  let ?a = "if hq_URLHost req = '''' then hq_Host req else hq_URLHost req"
  note eq = assms[unfolded serveCONNECT_def Let_def]
  obtain hp where "splitAuthority u ?a '''' = Some hp"
    using eq by (cases "splitAuthority u ?a ''''") (simp_all only: option.case refusal_dialled option.distinct)
  then obtain host port where s: "splitAuthority u ?a '''' = Some (host, port)" by (metis prod.collapse)
  note eq1 = eq[unfolded s option.case prod.case]
  have r: "\<not> rejectHTTPAuth u (se_sha se) (xs_spec sess) (hq_Header req) (se_users se)" and p: "port \<noteq> ''''" using eq1 by (auto split: if_splits)
  note eq2 = eq1[unfolded if_not_P[OF r] if_not_P[OF p]]
  have h: "se_hijack se = Some True"
    using eq2 by (cases "se_hijack se"; cases "the (se_hijack se)") (simp_all only: option.case option.sel bool.case refusal_dialled option.distinct serve_out.simps)
  note eq3 = eq2[unfolded h option.case bool.case]
  show ?thesis
  proof (cases "resolveThenGuard u (se_lookup se) (px_Targets (sp_Proxy (xs_spec sess))) host port")
    case (Inl err)
    then show ?thesis using eq3 by simp
  next
    case (Inr res)
    have "addr = pinnedAddr (rv_Selected res) (rv_Port res)"
      using eq3[unfolded Inr sum.case] by (simp split: if_splits)
    then show ?thesis using letThrough_intro[OF s Inr r] by simp
  qed
qed

text \<open>(C13) The proxy dials only what it may. Whenever serving a request of a connection that did not open with the preface of
  HTTP/2 dials an address, or hands one to the code that dials it (WebSocket upgrades, requests that expect a 100), the request was
  admitted and the address is the pinned one of a target the guard accepted, so not a forbidden one. A request to the proxy itself
  has its protocol (CONNECT or absolute form) on and its proxy credentials accepted if they are required, and the target is the
  authority it names. A request of the original-destination listener is no CONNECT, and the target is the destination of the
  redirected connection, whatever its Host says, and neither a listener of the proxy nor a connection made to that listener
  directly.\<close>

theorem http_dials_only_guarded:
  assumes "hq_Method req \<noteq> ''PRI''"
    and "sx_dialled (snd (snd (ServeHTTP u se ev sess origDest req roundTrip items g))) = Some addr"
  shows "snd (acquire (clientIP (hq_RemoteAddr req)) (px_Admission (sp_Proxy (xs_spec sess))) g) = None
    \<and> (case origDest of
         Some dest \<Rightarrow> hq_Method req \<noteq> ''CONNECT'' \<and> letThroughOrigDest u se (xs_spec sess) dest addr
       | None \<Rightarrow>
         if hq_Method req = ''CONNECT''
         then pg_Enabled (pr_Connect (sp_Protocols (xs_spec sess)))
           \<and> letThrough u se (xs_spec sess) req (if hq_URLHost req = '''' then hq_Host req else hq_URLHost req) '''' addr
         else pg_Enabled (pr_AbsoluteForm (sp_Protocols (xs_spec sess))) \<and> letThrough u se (xs_spec sess) req (hq_URLHost req) ''80'' addr)"
proof -
  let ?ip = "clientIP (hq_RemoteAddr req)" and ?ad = "px_Admission (sp_Proxy (xs_spec sess))"
  obtain g1 e where q: "acquire ?ip ?ad g = (g1, e)" by fastforce
  note eq1 = assms(2)[unfolded ServeHTTP_def Let_def q prod.case if_not_P[OF assms(1)]]
  have e: "e = None" using eq1 by (cases e) simp_all
  note eq2 = eq1[unfolded e option.case snd_conv]
  show ?thesis
  proof (cases origDest)
    case (Some dest)
    with eq2 have "hq_Method req \<noteq> ''CONNECT''" "sx_dialled (serveOrigDestHTTP u se ev sess req dest roundTrip) = Some addr" by (auto split: if_splits)
    with Some q e serveOrigDestHTTP_dialled show ?thesis by simp
  next
    case None
    note eq3 = eq2[unfolded None option.case]
    show ?thesis
    proof (cases "hq_Method req = ''CONNECT''")
      case True
      then have "pg_Enabled (pr_Connect (sp_Protocols (xs_spec sess)))" and "sx_dialled (serveCONNECT u se ev sess req items) = Some addr" using eq3 by (simp_all split: if_splits)
      then show ?thesis using True None q e serveCONNECT_dialled by simp
    next
      case False
      then have "sx_dialled (serveAbsolute u se ev sess req roundTrip) = Some addr" using eq3 by (simp split: if_splits)
      then show ?thesis using False None q e serveAbsolute_dialled by simp
    qed
  qed
qed

subsection \<open>Intercepted sessions\<close>

text \<open>What an exchange of an intercepted session keeps to.\<close>

definition innerOk :: "go_env \<Rightarrow> resolved \<Rightarrow> bool \<Rightarrow> exchange_out \<Rightarrow> bool" where
  "innerOk u res takes x \<longleftrightarrow>
     (\<forall>f \<in> set (eo_rows x). cleanRow u f)
     \<and> (case eo_origin x of None \<Rightarrow> True
        | Some (addr, h, out) \<Rightarrow> addr = pinnedAddr (rv_Selected res) (rv_Port res) \<and> hdrValues (hq_Header out) ''Proxy-Authorization'' = [])
     \<and> (takes \<and> (eo_sent x \<noteq> [] \<or> eo_close x \<noteq> None) \<longrightarrow> eo_rows x \<noteq> [])"

lemma cleanRow_fields: "fl_Request f = fl_Request g \<Longrightarrow> cleanRow u f = cleanRow u g"
  by (simp add: cleanRow_def)

lemma cleanRow_captureFlow [simp]: "cleanRow u (captureFlow u ev sess f) = cleanRow u f"
  by (simp add: cleanRow_def)

lemma cleanRow_inner [simp]: "cleanRow u (innerFlow u ev req host port status ferr info rc sc)"
  "cleanRow u ((innerFlow u ev req host port status ferr info rc sc)\<lparr>fl_Protocol := pr\<rparr>)"
  by (auto simp: cleanRow_def innerFlow_def putRequestHeaders_def dest: requestCaptureHeaders_clean)

lemma cleanRow_noHeaders: "msg_Headers (fl_Request f) = None \<Longrightarrow> cleanRow u f"
  by (simp add: cleanRow_def)

lemma cleanRow_connect [simp]: "cleanRow u (connectFlow ev req host status ferr)" "cleanRow u (connectErrFlow ev req host state ferr)"
  by (simp_all add: cleanRow_noHeaders connectFlow_def connectErrFlow_def zeroFlow_def zeroMessage_def)

lemma fork_fields [simp]: "xs_spec (fork s) = xs_spec s" "xs_eng (fork s) = xs_eng s" "\<not> xs_skipInsert (fork s)"
  by (simp_all add: fork_def)

lemma innerFinish_ok:
  assumes "requestPhaseOk u ev sess r" and "\<not> xs_skipInsert sess" and "ro_result r = ruleContinue"
    and "xs_skipInsert sess1 = xs_skipInsert (ro_sess r)" and "fst origin = pinnedAddr (rv_Selected res) (rv_Port res)"
    and "hdrValues (hq_Header (snd (snd origin))) ''Proxy-Authorization'' = []"
  shows "innerOk u res (takesRows ev) (io_exchange (innerFinish u ev sess1 req origin (ro_written r) (ro_rows r) resp host port info))"
proof -
  let ?f = "finishResponseWrite u ev sess1 req (writeClientResponse u resp) host port ''https'' (Some info) True"
  have "responsePhaseOk u ev (xs_skipInsert (ro_sess r)) ?f" using finishResponseWrite_ok assms(4) by metis
  with assms show ?thesis
    by (cases origin) (auto simp: innerFinish_def Let_def innerOk_def requestPhaseOk_def responsePhaseOk_def)
qed

lemma roundTripInner_ok: "innerOk u res (takesRows (ii_ev it)) (io_exchange (roundTripInner u sess host port res info it))"
proof (cases "forbiddenByWebSocketGate u (xs_spec (fork sess)) (ii_req it)")
  case True
  then show ?thesis by (simp add: roundTripInner_def Let_def innerOk_def)
next
  case False
  define s where "s = (fork sess)\<lparr>xs_reqHit := reqHitOf u sess host (ii_req it)\<rparr>"
  define r where "r = runRequestRulesWrite u (ii_ev it) s (ii_req it) host port ''https'' (Some info)"
  have r: "requestPhaseOk u (ii_ev it) s r" by (simp add: r_def runRequestRulesWrite_ok)
  have s: "\<not> xs_skipInsert s" by (simp add: s_def)
  obtain origin cap where o: "innerOriginRequest u (ii_ev it) (xs_spec s) (ro_req r) res host port (xs_reqCap (ro_sess r)) = (origin, cap)" by fastforce
  have origin: "fst origin = pinnedAddr (rv_Selected res) (rv_Port res)" "hdrValues (hq_Header (snd (snd origin))) ''Proxy-Authorization'' = []"
    using o by (auto simp: innerOriginRequest_def Let_def prepared_without_credentials)
  define s1 where "s1 = (case cap of None \<Rightarrow> ro_sess r | Some c \<Rightarrow> (ro_sess r)\<lparr>xs_reqCap := Some c\<rparr>)"
  have skip: "xs_skipInsert s1 = xs_skipInsert (ro_sess r)" by (simp add: s1_def split: option.splits)
  show ?thesis
  proof (cases "ro_result r")
    case ruleContinue
    then have rc: "ro_result r \<noteq> ruleSilentClose" "\<not> (ro_result r = ruleSynthesize \<or> ro_result r = ruleAbort)" by simp_all
    have w: "ro_written r = []" using r ruleContinue by (simp add: requestPhaseOk_def)
    show ?thesis
    proof (cases "ii_trip it origin")
      case None
      let ?row = "captureRule u (ii_ev it) s1 (ro_req r) (xs_reqCap s1) None None [xs_reqHit s1] (innerFlow u (ii_ev it) (ro_req r) host port 502 ''upstream'' info (xs_reqCap s1) None)"
      have "io_exchange (roundTripInner u sess host port res info it) = \<lparr>eo_result = ruleAbort, eo_origin = Some origin,
          eo_sent = ro_written r @ [writeHijackedError 502 ''internal_error'' ''upstream request failed''], eo_rows = ro_rows r @ [?row], eo_close = None\<rparr>"
        using None rc by (simp add: roundTripInner_def Let_def False[simplified] s_def[symmetric] r_def[symmetric] o s1_def[unfolded r_def, symmetric])
      moreover have "\<forall>f \<in> set (ro_rows r). cleanRow u f" using r by (simp add: requestPhaseOk_def)
      ultimately show ?thesis using origin by (cases origin) (auto simp: innerOk_def)
    next
      case (Some resp)
      show ?thesis
      proof (cases "IsWebSocketUpgrade u (hq_Header (ro_req r)) \<and> hr_StatusCode resp = 101")
        case True
        have "\<exists>rows res'. io_exchange (roundTripInner u sess host port res info it) = \<lparr>eo_result = res', eo_origin = Some origin, eo_sent = [], eo_rows = ro_rows r @ rows, eo_close = None\<rparr>
            \<and> (\<forall>f \<in> set rows. cleanRow u f)"
          using Some rc w True by (simp add: roundTripInner_def Let_def False[simplified] s_def[symmetric] r_def[symmetric] o s1_def[unfolded r_def, symmetric])
        moreover have "\<forall>f \<in> set (ro_rows r). cleanRow u f" using r by (simp add: requestPhaseOk_def)
        ultimately show ?thesis using origin by (cases origin) (auto simp: innerOk_def)
      next
        case no: False
        have "roundTripInner u sess host port res info it = innerFinish u (ii_ev it) s1 (ro_req r) origin (ro_written r) (ro_rows r) resp host port info"
          using Some rc no by (auto simp: roundTripInner_def Let_def False[simplified] s_def[symmetric] r_def[symmetric] o s1_def[unfolded r_def, symmetric])
        then show ?thesis using innerFinish_ok[OF r s ruleContinue skip origin] by simp
      qed
    qed
  qed (use r False in \<open>auto simp: roundTripInner_def Let_def s_def[symmetric] r_def[symmetric] innerOk_def requestPhaseOk_def\<close>)
qed

lemma innerLoop_ok:
  assumes "innerLoop u sess creq host port res info items = (xs, up)"
  shows "length xs \<le> length items \<and> (\<forall>i < length xs. innerOk u res (takesRows (ii_ev (items ! i))) (xs ! i))"
  using assms
proof (induction items arbitrary: xs up)
  case Nil
  then show ?case by simp
next
  case (Cons it rest)
  show ?case
  proof (cases "hq_Method (ii_req it) = ''PRI''")
    case True
    with Cons.prems show ?thesis by (auto simp: innerOk_def)
  next
    case False
    let ?o = "roundTripInner u sess host port res info it"
    show ?thesis
    proof (cases "io_stop ?o")
      case True
      with False Cons.prems roundTripInner_ok[of u res it sess host port info] show ?thesis by (auto simp: Let_def)
    next
      case go: False
      obtain ys up' where l: "innerLoop u sess creq host port res info rest = (ys, up')" by fastforce
      with go False Cons.prems have "xs = io_exchange ?o # ys" by (simp add: Let_def)
      with Cons.IH[OF l] roundTripInner_ok[of u res it sess host port info] show ?thesis by (auto simp: nth_Cons split: nat.splits)
    qed
  qed
qed


lemma innerLoop_starts: "innerLoop u sess creq host port res info (it # rest) = (xs, up) \<Longrightarrow> xs \<noteq> []"
  by (auto simp: Let_def split: if_splits prod.splits)

text \<open>Both handshakes of an intercepted connection succeeded, the one with the origin for a name the target lists allow.\<close>

definition handshakesDone :: "go_env \<Rightarrow> serve_env \<Rightarrow> Spec \<Rightarrow> string \<Rightarrow> bool" where
  "handshakesDone u se sp host \<longleftrightarrow>
     (\<exists>c alpn verified. se_hasCA se \<and> se_clientTLS se host (handshakeClientNextProtos sp) = Some c
        \<and> (ct_ServerName c = '''' \<or> EqualFold u (ct_ServerName c) host \<or> hostNameAllowed u (px_Targets (sp_Proxy sp)) (ct_ServerName c))
        \<and> se_upTLS se (if ct_ServerName c = '''' then host else ct_ServerName c) (handshakeOriginNextProtos sp (ct_ALPN c)) = UpstreamTLS alpn verified)"

lemma innerHTTP_end: "sx_end (innerHTTP u sess c req host port res info items) \<noteq> ServedTunnel"
  by (auto simp: innerHTTP_def split: prod.splits)

lemma serveInterceptConn_handshakes:
  "sx_end (serveInterceptConn u se ev sess req host port res items) \<noteq> ServedTunnel
   \<and> (handshakesDone u se (xs_spec sess) host
      \<or> sx_sent (serveInterceptConn u se ev sess req host port res items) = [] \<and> sx_end (serveInterceptConn u se ev sess req host port res items) = ServedNothing
        \<and> length (sx_rows (serveInterceptConn u se ev sess req host port res items)) = 1)"
proof (cases "se_hasCA se")
  case False
  then show ?thesis by (simp add: serveInterceptConn_def)
next
  case ca: True
  show ?thesis
  proof (cases "se_clientTLS se host (handshakeClientNextProtos (xs_spec sess))")
    case None
    with ca show ?thesis by (simp add: serveInterceptConn_def)
  next
    case (Some c)
    let ?denied = "ct_ServerName c \<noteq> '''' \<and> \<not> EqualFold u (ct_ServerName c) host \<and> \<not> hostNameAllowed u (px_Targets (sp_Proxy (xs_spec sess))) (ct_ServerName c)"
    show ?thesis
    proof (cases ?denied)
      case True
      with ca Some show ?thesis by (simp add: serveInterceptConn_def Let_def)
    next
      case ok: False
      show ?thesis
      proof (cases "se_upTLS se (if ct_ServerName c = '''' then host else ct_ServerName c) (handshakeOriginNextProtos (xs_spec sess) (ct_ALPN c))")
        case (UpstreamFailed v)
        with ca Some ok show ?thesis by (simp add: serveInterceptConn_def Let_def)
      next
        case (UpstreamTLS alpn v)
        with ca Some ok have "handshakesDone u se (xs_spec sess) host" unfolding handshakesDone_def by blast
        moreover have "sx_end (serveInterceptConn u se ev sess req host port res items) \<noteq> ServedTunnel"
          using ca Some ok UpstreamTLS by (simp add: serveInterceptConn_def Let_def innerHTTP_end)
        ultimately show ?thesis by blast
      qed
    qed
  qed
qed

text \<open>(C14) Interception never falls back. A CONNECT to a host and port that are to be intercepted is never tunnelled blindly; and
  unless the certificate authority is there, the handshake with the client succeeds, the name it asked for is allowed and the
  handshake with the origin under that name succeeds, the client gets at most the answer to its CONNECT.\<close>

theorem interception_never_falls_back:
  assumes "splitAuthority u (if hq_URLHost req = '''' then hq_Host req else hq_URLHost req) '''' = Some (host, port)"
    and "shouldIntercept u (sp_TLS (xs_spec sess)) host port"
  shows "sx_end (serveCONNECT u se ev sess req items) \<noteq> ServedTunnel
    \<and> (handshakesDone u se (xs_spec sess) host
       \<or> length (sx_sent (serveCONNECT u se ev sess req items)) \<le> 1 \<and> sx_end (serveCONNECT u se ev sess req items) \<in> {ServedNothing, ServedHTTP ruleAbort})"
proof -
  have refused: "sx_end (refusal r rows) = ServedHTTP ruleAbort" "length (sx_sent (refusal r rows)) = 1" for r rows by (simp_all add: refusal_def)
  have rejected: "sx_end (rejectCONNECT u ev sess req host err) = ServedHTTP ruleAbort" "length (sx_sent (rejectCONNECT u ev sess req host err)) = 1" for err
    by (cases err; simp add: rejectCONNECT_def refused)+
  show ?thesis
  proof (cases "resolveThenGuard u (se_lookup se) (px_Targets (sp_Proxy (xs_spec sess))) host port")
    case (Inl err)
    with assms show ?thesis by (simp add: serveCONNECT_def Let_def refused rejected split: option.splits bool.splits)
  next
    case (Inr res)
    with assms serveInterceptConn_handshakes[of u se ev sess req host port res items] show ?thesis
      by (auto simp: serveCONNECT_def Let_def refused split: option.splits bool.splits)
  qed
qed

subsection \<open>Concrete requests\<close>

definition exServeSession :: ruleSession where
  "exServeSession = (let s = exRuleSession RulePhaseRequest ''silent''; sp = xs_spec s in
     s\<lparr>xs_spec := sp\<lparr>sp_TLS := (sp_TLS sp)\<lparr>ts_Intercept := True, ts_Hosts := None, ts_Ports := None\<rparr>\<rparr>\<rparr>)"

definition exConnectReq :: "string \<Rightarrow> httpReq" where
  "exConnectReq authority = exHttpReq\<lparr>hq_Method := ''CONNECT'', hq_URLHost := authority, hq_URLScheme := ''''\<rparr>"

definition exServeEnv :: serve_env where
  "exServeEnv = \<lparr>se_lookup = (\<lambda>_. Some [[10, 0, 0, 9]]), se_sha = id, se_users = [], se_hijack = Some True, se_dial = (\<lambda>_. True), se_established = True,
     se_hasCA = True, se_insecure = False, se_leafDNS = (\<lambda>n. Some [n]), se_clientTLS = (\<lambda>_ _. None), se_upTLS = (\<lambda>_ _. UpstreamFailed True), se_date = '''',
     se_own = \<lparr>oe_ifaces = [], oe_proxy = Some ''127.0.0.1:8888'', oe_origDest = Some ''127.0.0.1:8890'', oe_binds = []\<rparr>\<rparr>"

definition exRedirect :: origDestMeta where
  "exRedirect = \<lparr>od_IP = [10, 0, 0, 9], od_Port = ''80'', od_HostPort = ''10.0.0.9:80''\<rparr>"

theorem http_dials_only_guarded_witness:
  "letThrough ascii_env exServeEnv (xs_spec exServeSession) (exConnectReq ''a.test:80'') ''a.test:80'' '''' ''10.0.0.9:80''
   \<and> letThroughOrigDest ascii_env exServeEnv (xs_spec exServeSession) exRedirect ''10.0.0.9:80''"
proof -
  have a: "sx_dialled (snd (snd (ServeHTTP ascii_env exServeEnv (exExchange None) exServeSession None (exConnectReq ''a.test:80'') (\<lambda>_. None) [] newGate))) = Some ''10.0.0.9:80''"
    by code_simp
  have b: "sx_dialled (snd (snd (ServeHTTP ascii_env exServeEnv (exExchange None) exServeSession (Some exRedirect) (exHttpReq\<lparr>hq_Header := [(''Expect'', [''100-continue''])]\<rparr>)
      (\<lambda>_. None) [] newGate))) = Some ''10.0.0.9:80''"
    by code_simp
  have m: "hq_Method (exConnectReq ''a.test:80'') = ''CONNECT''" "hq_URLHost (exConnectReq ''a.test:80'') = ''a.test:80''" "hq_Method exHttpReq \<noteq> ''PRI''"
    by (simp_all add: exConnectReq_def exHttpReq_def)
  then have "hq_Method (exConnectReq ''a.test:80'') \<noteq> ''PRI''" "hq_Method (exHttpReq\<lparr>hq_Header := [(''Expect'', [''100-continue''])]\<rparr>) \<noteq> ''PRI''" by simp_all
  from http_dials_only_guarded[OF this(1) a] http_dials_only_guarded[OF this(2) b] m show ?thesis by simp
qed

definition exInnerItem :: inner_item where
  "exInnerItem = \<lparr>ii_req = exHttpReq, ii_ev = exExchange None, ii_trip = (\<lambda>_. Some (exHttpResp [1, 2])), ii_writeOK = True\<rparr>"

definition exTLSInfo :: TLSInfo where
  "exTLSInfo = \<lparr>tls_SNI = ''a.test'', tls_Version = '''', tls_CipherSuite = '''', tls_ALPN = '''', tls_UpstreamVerified = True, tls_LeafDNS = None\<rparr>"


theorem interception_never_falls_back_witness:
  "sx_end (serveCONNECT ascii_env exServeEnv (exExchange None) exServeSession (exConnectReq ''a.test:443'') [exInnerItem]) \<noteq> ServedTunnel"
proof -
  have u: "hq_URLHost (exConnectReq ''a.test:443'') = ''a.test:443''" by (simp add: exConnectReq_def)
  have "splitAuthority ascii_env ''a.test:443'' '''' = Some (''a.test'', ''443'')" "shouldIntercept ascii_env (sp_TLS (xs_spec exServeSession)) ''a.test'' ''443''" by code_simp+
  then show ?thesis using interception_never_falls_back[of ascii_env "exConnectReq ''a.test:443''" "''a.test''" "''443''" exServeSession exServeEnv "exExchange None" "[exInnerItem]"] by (simp add: u)
qed

end
