(* ===== verification/Proxy_Replay.thy ===== *)
theory Proxy_Replay
  imports Proxy_Serve
begin

text \<open>
  Replay of a stored flow (\<open>internal/proxy/replay.go\<close> and the checks of \<open>internal/app/replay.go\<close>): what may
  be replayed, where it is sent, the request that is rebuilt from the flow and the flow that records the
  answer. Parsing the stored URL, the test of \<open>http.NewRequest\<close> on the method, and the round trip with
  its dial and handshake are arguments; the encoded form of a path is left out.
\<close>

datatype replay_error = ReplayInvalid string | ReplayInternal string | ReplayTargetDenied string

record parsedURL =
  pu_Host :: string
  pu_Path :: string
  pu_RawQuery :: string

record replay_env =
  re_lookup :: "string \<Rightarrow> byte list list option"
  re_own :: own_env
  re_parseURL :: "string \<Rightarrow> parsedURL option"
  re_newRequest :: "string \<Rightarrow> bool"
  re_trip :: "string \<Rightarrow> string \<times> string \<times> httpReq \<Rightarrow> (httpResp \<times> int) option"

record replay_out =
  ry_result :: "replay_error + Flow"
  ry_sent :: "(string \<times> string \<times> httpReq) option"
  ry_rows :: "Flow list"

subsection \<open>What may be replayed\<close>

definition rejectReplayable :: "go_env \<Rightarrow> Flow \<Rightarrow> replay_error option" where
  "rejectReplayable u stored =
     (if EqualFold u (fl_Method stored) ''CONNECT'' \<or> fl_Protocol stored = ''connect'' then Some (ReplayInvalid ''protocol'')
      else if fl_Protocol stored = ''websocket'' then Some (ReplayInvalid ''protocol'')
      else if msg_Truncated (fl_Request stored) then Some (ReplayInvalid ''request'')
      else None)"

definition validateReplay :: "go_env \<Rightarrow> Flow \<Rightarrow> replay_error option" where
  "validateReplay u f =
     (if EqualFold u (fl_Method f) ''CONNECT'' \<or> fl_Protocol f = ''connect'' then Some (ReplayInvalid ''protocol'')
      else if fl_Protocol f = ''websocket'' then Some (ReplayInvalid ''protocol'')
      else if (case fl_HTTP2 f of None \<Rightarrow> False | Some h \<Rightarrow> h2_Pushed h) then Some (ReplayInvalid ''http2.pushed'')
      else if msg_Truncated (fl_Request f) then Some (ReplayInvalid ''request'')
      else None)"

subsection \<open>The request\<close>

definition isPseudoHeaderName :: "string \<Rightarrow> bool" where
  "isPseudoHeaderName name = HasPrefix name '':''"

definition stripLeadingColonHeaders :: "headers \<Rightarrow> headers" where
  "stripLeadingColonHeaders h = filter (\<lambda>(k, _). \<not> isPseudoHeaderName k) h"

definition originHostTLS :: "string \<Rightarrow> string \<Rightarrow> string" where
  "originHostTLS host port =
     (if port \<noteq> [] \<and> port \<noteq> ''443'' then JoinHostPort host port
      else case ParseIP host of Some ip \<Rightarrow> if To4 ip = None then ''['' @ host @ '']'' else host | None \<Rightarrow> host)"

definition addHeaders :: "header list \<Rightarrow> headers" where
  "addHeaders hs = fold (\<lambda>h m. if hdr_Name h = '''' \<or> isPseudoHeaderName (hdr_Name h) then m else hdrAdd (hdr_Name h) (hdr_Value h) m) hs []"

definition replayRequest :: "go_env \<Rightarrow> replay_env \<Rightarrow> Flow \<Rightarrow> resolved \<Rightarrow> string \<Rightarrow> string \<Rightarrow> string \<Rightarrow> replay_error + (string \<times> string \<times> httpReq)" where
  "replayRequest u re stored res host port scheme =
     (let addr = pinnedAddr (rv_Selected res) (rv_Port res);
          parsed = (if fl_URL stored = '''' then None else re_parseURL re (fl_URL stored));
          path = (case parsed of None \<Rightarrow> ''/'' | Some pu \<Rightarrow> if pu_Path pu \<noteq> '''' then pu_Path pu else ''/'');
          query = (case parsed of None \<Rightarrow> '''' | Some pu \<Rightarrow> pu_RawQuery pu);
          meth = (if fl_Method stored = '''' then ''GET'' else fl_Method stored);
          body = elems (msg_Body (fl_Request stored)); hs = elems (msg_Headers (fl_Request stored));
          auth = headerValue u hs '':authority''
      in if \<not> re_newRequest re meth then Inl (ReplayInvalid ''url'')
         else Inr (addr,
           if auth \<noteq> '''' then auth else if scheme = ''https'' then originHostTLS host port else originHost host port,
           \<lparr>hq_Method = meth, hq_Path = path, hq_RawQuery = query, hq_URL = scheme @ ''://'' @ addr @ path, hq_ProtoMajor = 1,
            hq_Header = PrepareRequest u (stripLeadingColonHeaders (addHeaders hs)),
            hq_Body = (if body = [] then None else bytesBody body), hq_ContentLength = int (length body), hq_TransferEncoding = [], hq_Meta = None,
            hq_Host = '''', hq_URLScheme = scheme, hq_URLHost = addr, hq_RemoteAddr = '''', hq_pace = None\<rparr>))"

subsection \<open>The flow of a replay\<close>

definition replayFlow :: "exchange_env \<Rightarrow> Flow \<Rightarrow> string \<Rightarrow> string \<Rightarrow> int \<Rightarrow> string \<Rightarrow> (httpResp \<times> int) option \<Rightarrow> cappedWriter option \<Rightarrow> Flow" where
  "replayFlow ev stored host scheme status ferr resp respCap =
     (let f = zeroFlow\<lparr>fl_StartedAt := xe_started ev, fl_CompletedAt := xe_now ev, fl_State := (if ferr \<noteq> '''' then FlowStateError else FlowStateCompleted),
            fl_Method := fl_Method stored, fl_URL := (if fl_URL stored = '''' then scheme @ ''://'' @ host @ ''/'' else fl_URL stored),
            fl_Host := host, fl_Scheme := scheme,
            fl_Protocol := (case resp of Some (_, major) \<Rightarrow> if major = 2 then ''h2'' else ''http/1.1'' | None \<Rightarrow> ''http/1.1''),
            fl_Status := status, fl_Error := ferr, fl_Request := fl_Request stored\<rparr>;
          f1 = (case resp of None \<Rightarrow> f | Some (r, _) \<Rightarrow> f\<lparr>fl_Response := (fl_Response f)\<lparr>msg_Headers := headersFrom (hr_Header r)\<rparr>\<rparr>)
      in putResponseCap respCap f1)"

text \<open>The flow with its identifier, and the row that is stored. Without an inbox, or when it refuses the flow, the flow is captured outside a
  session, under the spec the server started with.\<close>

definition emptySession :: "Spec \<Rightarrow> ruleSession" where
  "emptySession sp = \<lparr>xs_spec = sp, xs_eng = None, xs_reqHit = None, xs_respHit = None, xs_reqCap = None, xs_skipInsert = False, xs_reqTrailers = None,
     xs_respTrailers = None, xs_via = '''', xs_socks = None, xs_originalDest = '''', xs_closeMode = ''''\<rparr>"

definition captureReplay :: "go_env \<Rightarrow> exchange_env \<Rightarrow> Spec \<Rightarrow> Flow \<Rightarrow> Flow \<times> Flow" where
  "captureReplay u ev startSpec f =
     (case (if xe_inbox ev then xe_insert ev f else None) of
        Some ident \<Rightarrow> (f\<lparr>fl_ID := ident\<rparr>, f)
      | None \<Rightarrow> (let g = captureFlow u ev (emptySession startSpec) f in (g, g)))"

subsection \<open>Replay\<close>

definition replayAuthority :: "replay_env \<Rightarrow> Flow \<Rightarrow> string" where
  "replayAuthority re stored =
     (case re_parseURL re (fl_URL stored) of
        None \<Rightarrow> fl_Host stored
      | Some pu \<Rightarrow>
        if pu_Host pu = '''' then fl_Host stored
        else if fl_Host stored = '''' then pu_Host pu
        else if SplitHostPort (fl_Host stored) = None \<and> SplitHostPort (pu_Host pu) \<noteq> None then pu_Host pu
        else fl_Host stored)"

definition Replay :: "go_env \<Rightarrow> replay_env \<Rightarrow> exchange_env \<Rightarrow> Spec \<Rightarrow> Spec \<Rightarrow> Flow \<Rightarrow> replay_out" where
  "Replay u re ev startSpec sp stored =
     (let fail = (\<lambda>e. \<lparr>ry_result = Inl e, ry_sent = None, ry_rows = []\<rparr>);
          scheme0 = ToLower u (TrimSpace u (fl_Scheme stored)); scheme = (if scheme0 = '''' then ''http'' else scheme0)
      in case rejectReplayable u stored of Some e \<Rightarrow> fail e
      | None \<Rightarrow>
        case splitAuthority u (replayAuthority re stored) (if scheme = ''https'' then ''443'' else ''80'') of
          None \<Rightarrow> fail (ReplayInvalid ''host'')
        | Some (host, port) \<Rightarrow>
          case resolveThenGuard u (re_lookup re) (px_Targets (sp_Proxy sp)) host port of
            Inl errDNS \<Rightarrow> fail (ReplayInternal ''dns lookup failed'')
          | Inl errTargetDenied \<Rightarrow> fail (ReplayTargetDenied ''target denied'')
          | Inr res \<Rightarrow>
            if isHairpin u (re_own re) res (sp_Listeners sp) then fail (ReplayTargetDenied ''replay must not hairpin the proxy listener'')
            else case replayRequest u re stored res host port scheme of
                Inl e \<Rightarrow> fail e
              | Inr out \<Rightarrow>
                case re_trip re scheme out of
                  None \<Rightarrow> \<lparr>ry_result = Inl (ReplayInternal ''upstream request failed''), ry_sent = Some out,
                           ry_rows = [snd (captureReplay u ev startSpec (replayFlow ev stored host scheme 0 ''upstream'' None None))]\<rparr>
                | Some (resp, major) \<Rightarrow>
                  let cap = cappedWrite (case hr_Body resp of None \<Rightarrow> [] | Some b \<Rightarrow> bd_data b) (teeBody (maxBodyOf sp))
                  in case captureReplay u ev startSpec (replayFlow ev stored host scheme (hr_StatusCode resp) '''' (Some (resp, major)) (Some cap)) of (f, row) \<Rightarrow>
                     \<lparr>ry_result = Inr (if xe_inbox ev \<and> fl_ID f \<noteq> '''' then (case xe_get ev (fl_ID f) of Some got \<Rightarrow> got | None \<Rightarrow> f) else f),
                      ry_sent = Some out, ry_rows = [row]\<rparr>)"

subsection \<open>The rebuilt request\<close>

lemma map_of_filterKeys: "map_of (filter (\<lambda>(k, _). P k) h) k = (if P k then map_of h k else None)"
  by (induction h) auto

lemma hdrValues_add: "hdrValues (hdrAdd name v h) k = (if CanonicalHeaderKey k = CanonicalHeaderKey name then hdrValues h k @ [v] else hdrValues h k)"
  by (auto simp: hdrValues_def hdrAdd_def update_conv')

text \<open>The values of a header among those of a message, in order.\<close>

definition valuesOf :: "header list \<Rightarrow> string \<Rightarrow> string list" where
  "valuesOf hs k = map hdr_Value (filter (\<lambda>h. hdr_Name h \<noteq> '''' \<and> \<not> isPseudoHeaderName (hdr_Name h) \<and> CanonicalHeaderKey (hdr_Name h) = CanonicalHeaderKey k) hs)"

lemma hdrValues_addHeaders: "hdrValues (addHeaders hs) k = valuesOf hs k"
proof -
  have "hdrValues (fold (\<lambda>h m. if hdr_Name h = '''' \<or> isPseudoHeaderName (hdr_Name h) then m else hdrAdd (hdr_Name h) (hdr_Value h) m) hs m) k = hdrValues m k @ valuesOf hs k" for m
    by (induction hs arbitrary: m) (auto simp: valuesOf_def hdrValues_add)
  from this[of "[]"] show ?thesis by (simp add: addHeaders_def hdrValues_def)
qed

lemma hdrValues_strip: "\<not> isPseudoHeaderName (CanonicalHeaderKey k) \<Longrightarrow> hdrValues (stripLeadingColonHeaders h) k = hdrValues h k"
  by (simp add: hdrValues_def stripLeadingColonHeaders_def map_of_filterKeys)

lemma Replay_sent:
  assumes "ry_sent (Replay u re ev startSpec sp stored) = Some out"
  obtains scheme host port res where "rejectReplayable u stored = None"
    and "splitAuthority u (replayAuthority re stored) (if scheme = ''https'' then ''443'' else ''80'') = Some (host, port)"
    and "resolveThenGuard u (re_lookup re) (px_Targets (sp_Proxy sp)) host port = Inr res"
    and "\<not> isHairpin u (re_own re) res (sp_Listeners sp)" and "replayRequest u re stored res host port scheme = Inr out"
proof -
  define scheme where "scheme = (if ToLower u (TrimSpace u (fl_Scheme stored)) = '''' then ''http'' else ToLower u (TrimSpace u (fl_Scheme stored)))"
  note eq = assms[unfolded Replay_def Let_def, folded scheme_def]
  have r: "rejectReplayable u stored = None" using eq by (cases "rejectReplayable u stored") simp_all
  note eq1 = eq[unfolded r option.case]
  obtain hp where "splitAuthority u (replayAuthority re stored) (if scheme = ''https'' then ''443'' else ''80'') = Some hp"
    using eq1 by (cases "splitAuthority u (replayAuthority re stored) (if scheme = ''https'' then ''443'' else ''80'')") simp_all
  then obtain host port where s: "splitAuthority u (replayAuthority re stored) (if scheme = ''https'' then ''443'' else ''80'') = Some (host, port)" by (metis prod.collapse)
  note eq2 = eq1[unfolded s option.case prod.case]
  obtain res where g: "resolveThenGuard u (re_lookup re) (px_Targets (sp_Proxy sp)) host port = Inr res"
    using eq2 by (cases "resolveThenGuard u (re_lookup re) (px_Targets (sp_Proxy sp)) host port") (auto split: guard_error.splits)
  note eq3 = eq2[unfolded g sum.case]
  have h: "\<not> isHairpin u (re_own re) res (sp_Listeners sp)" using eq3 by (simp split: if_splits)
  note eq4 = eq3[unfolded if_not_P[OF h]]
  obtain x where q: "replayRequest u re stored res host port scheme = Inr x"
    using eq4 by (cases "replayRequest u re stored res host port scheme") simp_all
  have "x = out" using eq4[unfolded q sum.case] by (cases "re_trip re scheme x") (simp_all split: prod.splits)
  then show thesis using that[OF r s g h] q by simp
qed

text \<open>(C18) A replay reaches only where live traffic may go, and sends what was captured. Whenever replaying a flow sends a request, the flow is
  no CONNECT, no WebSocket and its request was captured whole; the address is the pinned one of the authority of the
  flow, as the guard accepted it, and not an endpoint of the proxy itself; and the request has the method (GET if none
  was captured) and the body of the flow, no proxy credentials, and for every other end-to-end header exactly the
  captured values in their order.\<close>

theorem replay_sends_what_was_captured:
  assumes "ry_sent (Replay u re ev startSpec sp stored) = Some (addr, hostHdr, out)"
  shows "\<not> EqualFold u (fl_Method stored) ''CONNECT'' \<and> fl_Protocol stored \<noteq> ''websocket'' \<and> \<not> msg_Truncated (fl_Request stored)
    \<and> (\<exists>host port dflt res. splitAuthority u (replayAuthority re stored) dflt = Some (host, port)
         \<and> resolveThenGuard u (re_lookup re) (px_Targets (sp_Proxy sp)) host port = Inr res \<and> addr = pinnedAddr (rv_Selected res) (rv_Port res)
         \<and> \<not> forbidden (px_Targets (sp_Proxy sp)) (rv_Selected res) \<and> \<not> isHairpin u (re_own re) res (sp_Listeners sp))
    \<and> hq_Method out = (if fl_Method stored = '''' then ''GET'' else fl_Method stored)
    \<and> bodyBytes (hq_Body out) = elems (msg_Body (fl_Request stored))
    \<and> hdrValues (hq_Header out) ''Proxy-Authorization'' = []
    \<and> (\<forall>k. CanonicalHeaderKey k \<notin> set hopByHop \<and> CanonicalHeaderKey k \<noteq> ''Expect'' \<and> \<not> isPseudoHeaderName (CanonicalHeaderKey k)
          \<and> CanonicalHeaderKey k \<notin> nominated u (stripLeadingColonHeaders (addHeaders (elems (msg_Headers (fl_Request stored)))))
          \<longrightarrow> hdrValues (hq_Header out) k = valuesOf (elems (msg_Headers (fl_Request stored))) k)"
  using assms
proof (rule Replay_sent)
  fix scheme host port res
  assume r: "rejectReplayable u stored = None"
    and s: "splitAuthority u (replayAuthority re stored) (if scheme = ''https'' then ''443'' else ''80'') = Some (host, port)"
    and g: "resolveThenGuard u (re_lookup re) (px_Targets (sp_Proxy sp)) host port = Inr res"
    and h: "\<not> isHairpin u (re_own re) res (sp_Listeners sp)" and q: "replayRequest u re stored res host port scheme = Inr (addr, hostHdr, out)"
  let ?hs = "elems (msg_Headers (fl_Request stored))"
  have fields: "addr = pinnedAddr (rv_Selected res) (rv_Port res)" "hq_Method out = (if fl_Method stored = '''' then ''GET'' else fl_Method stored)"
    "bodyBytes (hq_Body out) = elems (msg_Body (fl_Request stored))" "hq_Header out = PrepareRequest u (stripLeadingColonHeaders (addHeaders ?hs))"
    using q by (auto simp: replayRequest_def Let_def split: if_splits)
  have up: "''Upgrade'' \<in> set hopByHop" "''Connection'' \<in> set hopByHop" by code_simp+
  have "hdrValues (hq_Header out) k = valuesOf ?hs k"
    if "CanonicalHeaderKey k \<notin> set hopByHop" "CanonicalHeaderKey k \<noteq> ''Expect''" "\<not> isPseudoHeaderName (CanonicalHeaderKey k)"
      "CanonicalHeaderKey k \<notin> nominated u (stripLeadingColonHeaders (addHeaders ?hs))" for k
  proof -
    have "CanonicalHeaderKey k \<noteq> ''Upgrade''" "CanonicalHeaderKey k \<noteq> ''Connection''" using that(1) up by metis+
    with that have "hdrValues (hq_Header out) k = hdrValues (stripLeadingColonHeaders (addHeaders ?hs)) k"
      by (simp add: hdrValues_def fields(4) prepared_request_is_end_to_end)
    then show ?thesis using that(3) by (simp add: hdrValues_strip hdrValues_addHeaders)
  qed
  moreover have "\<not> EqualFold u (fl_Method stored) ''CONNECT'' \<and> fl_Protocol stored \<noteq> ''websocket'' \<and> \<not> msg_Truncated (fl_Request stored)"
    using r by (simp add: rejectReplayable_def split: if_splits)
  moreover have "hdrValues (hq_Header out) ''Proxy-Authorization'' = []" by (simp add: fields(4) prepared_without_credentials)
  moreover have "\<not> forbidden (px_Targets (sp_Proxy sp)) (rv_Selected res)" using guard_accepted[OF g] by blast
  ultimately show ?thesis using s g h fields by blast
qed

text \<open>Targets with every switch off are read by live traffic as the defaults, which deny the metadata service; a replay takes them as they are.\<close>

definition exReplayTargets :: TargetsSpec where
  "exReplayTargets = \<lparr>tg_DenyCloudMetadata = False, tg_DenyLinkLocal = False, tg_AllowLoopback = False, tg_AllowHosts = None, tg_DenyHosts = None\<rparr>"

lemma replay_guards_without_defaults:
  "\<not> forbidden exReplayTargets [169, 254, 169, 254] \<and> forbidden (targetDefaults exReplayTargets) [169, 254, 169, 254]"
  by code_simp

definition exReplayEnv :: replay_env where
  "exReplayEnv = \<lparr>re_lookup = (\<lambda>_. Some [[10, 0, 0, 9]]), re_own = \<lparr>oe_ifaces = [], oe_proxy = None, oe_origDest = None, oe_binds = []\<rparr>,
     re_parseURL = (\<lambda>_. Some \<lparr>pu_Host = ''a.test:81'', pu_Path = ''/x'', pu_RawQuery = ''''\<rparr>), re_newRequest = (\<lambda>_. True), re_trip = (\<lambda>_ _. None)\<rparr>"

definition exStored :: Flow where
  "exStored = zeroFlow\<lparr>fl_Method := ''POST'', fl_Host := ''a.test'', fl_URL := ''http://a.test:81/x'', fl_Protocol := ''http/1.1'',
     fl_Request := zeroMessage\<lparr>msg_Headers := Some [\<lparr>hdr_Name = ''x-a'', hdr_Value = ''1''\<rparr>, \<lparr>hdr_Name = ''X-A'', hdr_Value = ''2''\<rparr>], msg_Body := Some [7, 8]\<rparr>\<rparr>"

theorem replay_sends_what_was_captured_witness:
  "\<exists>addr h out. ry_sent (Replay ascii_env exReplayEnv (exExchange None) exBodySpec exBodySpec exStored) = Some (addr, h, out)
     \<and> hq_Method out = ''POST'' \<and> bodyBytes (hq_Body out) = [7, 8]"
proof -
  let ?r = "ry_sent (Replay ascii_env exReplayEnv (exExchange None) exBodySpec exBodySpec exStored)"
  have "case ?r of None \<Rightarrow> False | Some x \<Rightarrow> True" by code_simp
  then obtain addr h out where q: "?r = Some (addr, h, out)" by (cases ?r) auto
  have "fl_Method exStored = ''POST''" "elems (msg_Body (fl_Request exStored)) = [7, 8]" by (simp_all add: exStored_def zeroMessage_def)
  with q replay_sends_what_was_captured[OF q] show ?thesis by simp
qed

end
