(* ===== verification/Proxy_H2Inner.thy ===== *)
theory Proxy_H2Inner
  imports Proxy_Serve_Props Proxy_Replay
begin

text \<open>
  One stream of an intercepted HTTP/2 connection (\<open>roundTripInnerH2\<close> and its helpers in \<open>internal/proxy/intercept.go\<close>): the request
  rebuilt from the stream, the two phases of the rules around the origin, and the response that goes back to the codec. The parser of
  request URIs is an argument. The response travels through the stream of \<open>Proxy_Stream\<close>; here it is the response
  that was written to it. With extended CONNECT on, a stream that asks for a WebSocket tunnel (\<open>innerH2Tunnel\<close>) becomes an upgrade
  at an HTTP/1.1 origin, an extended CONNECT at an HTTP/2 origin; the bytes of the tunnel, and the random key of its handshake, are
  arguments.
\<close>

record h2Stream =
  hs_ID :: "32 word"
  hs_Pseudos :: "header list"
  hs_Headers :: "header list"
  hs_Trailers :: "header list"
  hs_Body :: "http_body option"
  hs_Method :: string
  hs_Authority :: string
  hs_Path :: string
  hs_Protocol :: string

definition h2InnerForbidden :: "go_env \<Rightarrow> h2Stream \<Rightarrow> bool" where
  "h2InnerForbidden u st =
     (if EqualFold u (hs_Method st) ''CONNECT'' then True
      else if list_ex (\<lambda>h. EqualFold u (hdr_Name h) '':protocol'') (hs_Pseudos st) then True
      else IsWebSocketUpgrade u (fold (\<lambda>h. hdrAdd (hdr_Name h) (hdr_Value h)) (hs_Headers st) []))"

definition addNamed :: "header list \<Rightarrow> headers \<Rightarrow> headers" where
  "addNamed hs m = fold (\<lambda>h m. if hdr_Name h = '''' then m else hdrAdd (hdr_Name h) (hdr_Value h) m) hs m"

definition reconstructH2Request :: "(string \<Rightarrow> (string \<times> string) option) \<Rightarrow> h2Stream \<Rightarrow> httpReq" where
  "reconstructH2Request parseURI st =
     (let rawPath = (if hs_Path st = '''' then ''/'' else hs_Path st);
          pq = (case parseURI rawPath of Some x \<Rightarrow> x | None \<Rightarrow> (rawPath, ''''));
          hdr = addNamed (hs_Headers st) (addNamed (hs_Pseudos st) []);
          cl = hdrGet hdr ''Content-Length''
      in \<lparr>hq_Method = (if hs_Method st = '''' then ''GET'' else hs_Method st), hq_Path = fst pq, hq_RawQuery = snd pq, hq_URL = rawPath, hq_ProtoMajor = 2,
          hq_Header = hdr, hq_Body = hs_Body st,
          hq_ContentLength = (if cl \<noteq> '''' then (case Atoi cl of Some n \<Rightarrow> n | None \<Rightarrow> - 1) else if hs_Body st \<noteq> None then - 1 else 0),
          hq_TransferEncoding = [], hq_Meta = Some \<lparr>hm_streamID = hs_ID st, hm_protocol = ''h2'', hm_pseudos = hs_Pseudos st\<rparr>,
          hq_Host = (if hs_Authority st = '''' then hdrGet hdr '':authority'' else hs_Authority st), hq_URLScheme = '''', hq_URLHost = '''', hq_RemoteAddr = '''', hq_pace = None\<rparr>)"

definition badGatewayH2 :: httpResp where
  "badGatewayH2 = \<lparr>hr_StatusCode = 502, hr_Header = [], hr_Body = None, hr_ContentLength = 0, hr_TransferEncoding = [], hr_Trailer = [], hr_pace = None\<rparr>"

definition rewindResponseBody :: "httpResp \<Rightarrow> httpResp" where
  "rewindResponseBody resp =
     (case hr_Body resp of None \<Rightarrow> resp
      | Some b \<Rightarrow> if bd_err b then resp\<lparr>hr_Body := bytesBody (bd_data b)\<rparr>
                  else resp\<lparr>hr_Body := bytesBody (bd_data b), hr_ContentLength := int (length (bd_data b))\<rparr>)"

definition paceReturnedResponse :: "ruleSession \<Rightarrow> httpResp \<Rightarrow> httpResp" where
  "paceReturnedResponse sess resp =
     (case xs_respHit sess of None \<Rightarrow> resp
      | Some hit \<Rightarrow> if ra_Type (hit_Action hit) = ''throttle'' \<and> hr_Body resp \<noteq> None then resp\<lparr>hr_pace := Some (ra_BytesPerSecond (hit_Action hit))\<rparr> else resp)"

text \<open>What the codec gets: a response, a tunnel, or an error that resets the stream. A tunnel is the status and header fields of the
  answer (0 is 200) and, if it opens, the flow of its connection with whether its frames are to be inspected.\<close>

datatype h2_error = ErrInnerCONNECT | ErrSilentClose | ErrUpstream

record h2Tunnel =
  tn_Status :: int
  tn_Headers :: "header slice"
  tn_AfterAck :: "(Flow \<times> bool) option"

datatype h2_answer = AnswerResponse httpResp | AnswerTunnel h2Tunnel

record h2_out =
  ho_result :: "h2_error + h2_answer"
  ho_origin :: "(string \<times> string \<times> httpReq) option"
  ho_rows :: "Flow list"

text \<open>The trailers of the request are kept for the flow; toward an HTTP/1.1 origin they are dropped.\<close>

definition requestTrailersH2 :: "h2Stream \<Rightarrow> header slice" where
  "requestTrailersH2 st = append_nil (hs_Trailers st)"

definition originRequestH2 :: "go_env \<Rightarrow> exchange_env \<Rightarrow> Spec \<Rightarrow> httpReq \<Rightarrow> resolved \<Rightarrow> string \<Rightarrow> string \<Rightarrow> cappedWriter option \<Rightarrow> (string \<times> string \<times> httpReq) \<times> cappedWriter option" where
  "originRequestH2 u ev sp req res host port preCap =
     (case innerOriginRequest u ev sp req res host port preCap of ((addr, h, out), cap) \<Rightarrow>
        ((addr, h, out\<lparr>hq_Header := stripLeadingColonHeaders (hq_Header out)\<rparr>), cap))"

definition finishH2 :: "go_env \<Rightarrow> exchange_env \<Rightarrow> ruleSession \<Rightarrow> httpReq \<Rightarrow> (string \<times> string \<times> httpReq) \<Rightarrow> Flow list \<Rightarrow> httpResp \<Rightarrow> string \<Rightarrow> string \<Rightarrow> TLSInfo \<Rightarrow> h2_out" where
  "finishH2 u ev sess req origin rows resp host port info =
     (let f = finishResponseWrite u ev sess req (writeClientResponse u resp) host port ''https'' (Some info) False
      in \<lparr>ho_result = (if so_result f = ruleSilentClose then Inl ErrSilentClose
                       else case so_sent f of [] \<Rightarrow> Inr (AnswerResponse badGatewayH2) | r # _ \<Rightarrow> Inr (AnswerResponse (paceReturnedResponse (so_sess f) r))),
          ho_origin = Some origin, ho_rows = rows @ so_rows f\<rparr>)"

definition roundTripInnerH2 :: "go_env \<Rightarrow> exchange_env \<Rightarrow> (string \<Rightarrow> (string \<times> string) option) \<Rightarrow> ruleSession \<Rightarrow> string \<Rightarrow> string \<Rightarrow> resolved \<Rightarrow> TLSInfo \<Rightarrow> origin_trip \<Rightarrow> h2Stream \<Rightarrow> h2_out" where
  "roundTripInnerH2 u ev parseURI pinned host port res info roundTrip st =
     (if h2InnerForbidden u st then \<lparr>ho_result = Inl ErrInnerCONNECT, ho_origin = None, ho_rows = []\<rparr>
      else let req0 = reconstructH2Request parseURI st; sess0 = fork pinned;
               sess = sess0\<lparr>xs_reqHit := matchHit u (xs_eng sess0) RulePhaseRequest host req0 (hq_Header req0)\<rparr>;
               r = runRequestRulesWrite u ev sess req0 host port ''https'' (Some info)
      in if ro_result r = ruleSilentClose then \<lparr>ho_result = Inl ErrSilentClose, ho_origin = None, ho_rows = ro_rows r\<rparr>
         else if ro_result r = ruleSynthesize
         then \<lparr>ho_result = Inr (AnswerResponse (case ro_written r of [] \<Rightarrow> badGatewayH2 | syn # _ \<Rightarrow> rewindResponseBody syn)), ho_origin = None, ho_rows = ro_rows r\<rparr>
         else if ro_result r = ruleAbort then \<lparr>ho_result = Inr (AnswerResponse badGatewayH2), ho_origin = None, ho_rows = ro_rows r\<rparr>
         else case originRequestH2 u ev (xs_spec sess) (ro_req r) res host port (xs_reqCap (ro_sess r)) of (origin, cap) \<Rightarrow>
           let sess1 = (ro_sess r)\<lparr>xs_reqTrailers := requestTrailersH2 st, xs_reqCap := (case cap of None \<Rightarrow> xs_reqCap (ro_sess r) | Some c \<Rightarrow> Some c)\<rparr>
           in case roundTrip origin of
                None \<Rightarrow> \<lparr>ho_result = Inr (AnswerResponse badGatewayH2), ho_origin = Some origin,
                         ho_rows = ro_rows r @ [captureRule u ev sess1 (ro_req r) (xs_reqCap sess1) None None [xs_reqHit sess1]
                           (innerFlow u ev (ro_req r) host port 502 ''upstream'' info (xs_reqCap sess1) None)]\<rparr>
              | Some resp \<Rightarrow> finishH2 u ev sess1 (ro_req r) origin (ro_rows r) resp host port info)"

subsection \<open>Extended CONNECT\<close>

definition isTunnelStream :: "go_env \<Rightarrow> h2Stream \<Rightarrow> bool" where
  "isTunnelStream u st = (if EqualFold u (hs_Method st) ''CONNECT'' then True else hs_Protocol st \<noteq> '''')"

definition tunnelRefused :: "go_env \<Rightarrow> h2Stream \<Rightarrow> bool" where
  "tunnelRefused u st =
     (let proto = TrimSpace u (hs_Protocol st) in proto = '''' \<or> \<not> EqualFold u (hs_Method st) ''CONNECT'' \<or> \<not> EqualFold u proto ''websocket'')"

definition tunnelResponseHeaders :: "go_env \<Rightarrow> headers \<Rightarrow> header slice" where
  "tunnelResponseHeaders u h = headersFrom (PrepareResponse u h False)"

definition setIfMissing :: "string \<Rightarrow> string \<Rightarrow> headers \<Rightarrow> headers" where
  "setIfMissing key v h = (if hdrGet h key = '''' then hdrSet key v h else h)"

text \<open>The stream as the request the rules see.\<close>

definition tunnelRequest :: "(string \<Rightarrow> (string \<times> string) option) \<Rightarrow> string \<Rightarrow> h2Stream \<Rightarrow> httpReq" where
  "tunnelRequest parseURI key st =
     (let inner = reconstructH2Request parseURI st
      in inner\<lparr>hq_Body := None, hq_ContentLength := 0,
           hq_Header := setIfMissing ''Sec-WebSocket-Key'' key (setIfMissing ''Sec-WebSocket-Version'' ''13''
             (hdrSet ''Connection'' ''Upgrade'' (hdrSet ''Upgrade'' ''websocket'' (hq_Header inner)))),
           hq_Meta := Some \<lparr>hm_streamID = hs_ID st, hm_protocol = ''websocket'', hm_pseudos = hs_Pseudos st\<rparr>\<rparr>)"

text \<open>The request as it goes to the origin.\<close>

definition tunnelOriginRequest :: "bool \<Rightarrow> string \<Rightarrow> httpReq \<Rightarrow> httpReq" where
  "tunnelOriginRequest originH2 key out =
     (if originH2
      then out\<lparr>hq_Method := ''CONNECT'', hq_ProtoMajor := 2, hq_Header := hdrSet '':protocol'' ''websocket'' (hdrDel ''Connection'' (hdrDel ''Upgrade'' (hq_Header out))),
             hq_Body := None, hq_ContentLength := - 1, hq_TransferEncoding := []\<rparr>
      else out\<lparr>hq_Method := ''GET'', hq_ProtoMajor := 1, hq_Header := setIfMissing ''Sec-WebSocket-Key'' key (hq_Header out),
             hq_Body := None, hq_ContentLength := 0, hq_TransferEncoding := []\<rparr>)"

definition tunnelStatus :: "bool \<Rightarrow> int" where
  "tunnelStatus originH2 = (if originH2 then 200 else 101)"

definition innerH2Tunnel :: "go_env \<Rightarrow> exchange_env \<Rightarrow> (string \<Rightarrow> (string \<times> string) option) \<Rightarrow> string \<Rightarrow> bool \<Rightarrow> ruleSession \<Rightarrow> string \<Rightarrow> string \<Rightarrow> resolved \<Rightarrow> TLSInfo \<Rightarrow> origin_trip \<Rightarrow> h2Stream \<Rightarrow> h2_out" where
  "innerH2Tunnel u ev parseURI key originH2 pinned host port res info roundTrip st =
     (let answer = (\<lambda>status hs. Inr (AnswerTunnel \<lparr>tn_Status = status, tn_Headers = hs, tn_AfterAck = None\<rparr>))
      in if tunnelRefused u st then \<lparr>ho_result = Inl ErrInnerCONNECT, ho_origin = None, ho_rows = []\<rparr>
      else let req0 = tunnelRequest parseURI key st; sess0 = fork pinned;
               sess = sess0\<lparr>xs_reqHit := matchHit u (xs_eng sess0) RulePhaseRequest host req0 (hq_Header req0)\<rparr>;
               r = runRequestRulesWrite u ev sess req0 host port ''https'' (Some info)
      in if ro_result r = ruleSilentClose then \<lparr>ho_result = Inl ErrSilentClose, ho_origin = None, ho_rows = ro_rows r\<rparr>
         else if ro_result r = ruleSynthesize
         then \<lparr>ho_result = (case ro_written r of [] \<Rightarrow> answer 403 None
                            | syn # _ \<Rightarrow> answer (if hr_StatusCode syn \<noteq> 0 then hr_StatusCode syn else 403) (headersFrom (hr_Header syn))),
               ho_origin = None, ho_rows = ro_rows r\<rparr>
         else if ro_result r = ruleAbort then \<lparr>ho_result = answer 403 None, ho_origin = None, ho_rows = ro_rows r\<rparr>
         else case originRequestH2 u ev (xs_spec sess) (ro_req r) res host port (xs_reqCap (ro_sess r)) of ((addr, h, out0), cap) \<Rightarrow>
           let sess1 = (ro_sess r)\<lparr>xs_reqCap := (case cap of None \<Rightarrow> xs_reqCap (ro_sess r) | Some c \<Rightarrow> Some c)\<rparr>;
               out = tunnelOriginRequest originH2 key out0
           in case roundTrip (addr, h, out) of
                None \<Rightarrow> \<lparr>ho_result = Inl ErrUpstream, ho_origin = Some (addr, h, out),
                         ho_rows = ro_rows r @ [captureRule u ev sess1 (ro_req r) (xs_reqCap sess1) None None [xs_reqHit sess1]
                           (innerFlow u ev (ro_req r) host port 502 ''upstream'' info (xs_reqCap sess1) None)]\<rparr>
              | Some resp \<Rightarrow>
                if hr_StatusCode resp \<noteq> tunnelStatus originH2
                then let rh = PrepareResponse u (hr_Header resp) False;
                         f = innerFlow u ev (ro_req r) host port (hr_StatusCode resp) '''' info (xs_reqCap sess1) None
                     in \<lparr>ho_result = answer (hr_StatusCode resp) (tunnelResponseHeaders u rh), ho_origin = Some (addr, h, out),
                         ho_rows = ro_rows r @ [captureFlow u ev sess1 (f\<lparr>fl_Response := (fl_Response f)\<lparr>msg_Headers := headersFrom rh\<rparr>\<rparr>)]\<rparr>
                else \<lparr>ho_result = Inr (AnswerTunnel \<lparr>tn_Status = 0, tn_Headers = tunnelResponseHeaders u (hr_Header resp),
                        tn_AfterAck = Some ((innerFlow u ev (ro_req r) host port 200 '''' info (xs_reqCap sess1) None)\<lparr>fl_Protocol := ''websocket''\<rparr>,
                          wss_InspectFrames (pr_WebSocket (sp_Protocols (xs_spec sess1))))\<rparr>), ho_origin = Some (addr, h, out), ho_rows = ro_rows r\<rparr>)"

text \<open>The handler of a stream: with extended CONNECT on, tunnels have a handler of their own.\<close>

definition serveInnerH2 :: "go_env \<Rightarrow> exchange_env \<Rightarrow> (string \<Rightarrow> (string \<times> string) option) \<Rightarrow> string \<Rightarrow> bool \<Rightarrow> ruleSession \<Rightarrow> string \<Rightarrow> string \<Rightarrow> resolved \<Rightarrow> TLSInfo \<Rightarrow> origin_trip \<Rightarrow> h2Stream \<Rightarrow> h2_out" where
  "serveInnerH2 u ev parseURI key originH2 sess host port res info roundTrip st =
     (if h2s_ExtendedConnect (pr_HTTP2 (sp_Protocols (xs_spec sess))) \<and> isTunnelStream u st
      then innerH2Tunnel u ev parseURI key originH2 sess host port res info roundTrip st
      else roundTripInnerH2 u ev parseURI sess host port res info roundTrip st)"

subsection \<open>Properties\<close>

lemma originRequestH2_facts:
  assumes "originRequestH2 u ev sp req res host port pre = (origin, cap)"
  shows "fst origin = pinnedAddr (rv_Selected res) (rv_Port res)" and "hdrValues (hq_Header (snd (snd origin))) ''Proxy-Authorization'' = []"
    and "\<forall>k \<in> fst ` set (hq_Header (snd (snd origin))). \<not> isPseudoHeaderName k"
proof -
  have key: "\<not> isPseudoHeaderName (CanonicalHeaderKey ''Proxy-Authorization'')" by code_simp
  obtain out where o: "origin = (pinnedAddr (rv_Selected res) (rv_Port res), if hq_Host req \<noteq> '''' then hq_Host req else httpsOriginHost host port, out)"
      and out: "hq_Header out = stripLeadingColonHeaders (PrepareRequest u (hq_Header req))"
    using assms by (auto simp: originRequestH2_def innerOriginRequest_def Let_def)
  show "fst origin = pinnedAddr (rv_Selected res) (rv_Port res)" by (simp add: o)
  show "hdrValues (hq_Header (snd (snd origin))) ''Proxy-Authorization'' = []"
    using hdrValues_strip[OF key] prepared_without_credentials by (simp add: o out)
  show "\<forall>k \<in> fst ` set (hq_Header (snd (snd origin))). \<not> isPseudoHeaderName k" by (auto simp: o out stripLeadingColonHeaders_def)
qed

text \<open>What a stream keeps to.\<close>

definition h2Ok :: "go_env \<Rightarrow> resolved \<Rightarrow> h2_out \<Rightarrow> bool" where
  "h2Ok u res x \<longleftrightarrow>
     (\<forall>f \<in> set (ho_rows x). cleanRow u f)
     \<and> (case ho_origin x of None \<Rightarrow> True
        | Some (addr, h, out) \<Rightarrow> addr = pinnedAddr (rv_Selected res) (rv_Port res) \<and> hdrValues (hq_Header out) ''Proxy-Authorization'' = []
            \<and> (\<forall>k \<in> fst ` set (hq_Header out). \<not> isPseudoHeaderName k))"

lemma finishH2_ok:
  assumes "requestPhaseOk u ev sess r" and "fst origin = pinnedAddr (rv_Selected res) (rv_Port res)"
    and "hdrValues (hq_Header (snd (snd origin))) ''Proxy-Authorization'' = []" and "\<forall>k \<in> fst ` set (hq_Header (snd (snd origin))). \<not> isPseudoHeaderName k"
  shows "h2Ok u res (finishH2 u ev sess1 req origin (ro_rows r) resp host port info)"
proof -
  have "responsePhaseOk u ev (xs_skipInsert sess1) (finishResponseWrite u ev sess1 req (writeClientResponse u resp) host port ''https'' (Some info) False)"
    by (rule finishResponseWrite_ok)
  with assms show ?thesis by (cases origin) (auto simp: finishH2_def Let_def h2Ok_def requestPhaseOk_def responsePhaseOk_def)
qed

lemma roundTripInnerH2_ok: "h2Ok u res (roundTripInnerH2 u ev parseURI sess host port res info roundTrip st)"
proof (cases "h2InnerForbidden u st")
  case True
  then show ?thesis by (simp add: roundTripInnerH2_def h2Ok_def)
next
  case False
  define q where "q = reconstructH2Request parseURI st"
  define s where "s = (fork sess)\<lparr>xs_reqHit := reqHitOf u sess host q\<rparr>"
  define r where "r = runRequestRulesWrite u ev s q host port ''https'' (Some info)"
  have r: "requestPhaseOk u ev s r" by (simp add: r_def runRequestRulesWrite_ok)
  have clean: "\<forall>f \<in> set (ro_rows r). cleanRow u f" using r by (simp add: requestPhaseOk_def)
  obtain origin cap where o: "originRequestH2 u ev (xs_spec s) (ro_req r) res host port (xs_reqCap (ro_sess r)) = (origin, cap)" by fastforce
  note facts = originRequestH2_facts[OF o]
  note unfold = roundTripInnerH2_def[of u ev parseURI sess host port res info roundTrip st] Let_def False[simplified] q_def[symmetric] s_def[symmetric] r_def[symmetric] o
  show ?thesis
  proof (cases "ro_result r")
    case ruleContinue
    show ?thesis
    proof (cases "roundTrip origin")
      case None
      have "ho_origin (roundTripInnerH2 u ev parseURI sess host port res info roundTrip st) = Some origin"
        "\<exists>row. ho_rows (roundTripInnerH2 u ev parseURI sess host port res info roundTrip st) = ro_rows r @ [row] \<and> cleanRow u row"
        using None ruleContinue by (simp_all add: unfold)
      then show ?thesis using clean facts by (cases origin) (auto simp: h2Ok_def)
    next
      case (Some resp)
      have "\<exists>s1. roundTripInnerH2 u ev parseURI sess host port res info roundTrip st = finishH2 u ev s1 (ro_req r) origin (ro_rows r) resp host port info"
        using Some ruleContinue by (auto simp: unfold)
      then show ?thesis using finishH2_ok[OF r facts] by auto
    qed
  qed (use clean in \<open>simp_all add: unfold h2Ok_def\<close>)
qed

text \<open>A stream that is let through as a WebSocket tunnel.\<close>

definition webSocketTunnel :: "go_env \<Rightarrow> Spec \<Rightarrow> h2Stream \<Rightarrow> bool" where
  "webSocketTunnel u sp st \<longleftrightarrow> h2s_ExtendedConnect (pr_HTTP2 (sp_Protocols sp)) \<and> EqualFold u (hs_Method st) ''CONNECT''
     \<and> TrimSpace u (hs_Protocol st) \<noteq> '''' \<and> EqualFold u (TrimSpace u (hs_Protocol st)) ''websocket''"

text \<open>What a tunnel keeps to; \<open>roundTrip\<close> tells how the origin answered it.\<close>

definition tunnelOk :: "go_env \<Rightarrow> resolved \<Rightarrow> bool \<Rightarrow> origin_trip \<Rightarrow> h2_out \<Rightarrow> bool" where
  "tunnelOk u res originH2 roundTrip x \<longleftrightarrow>
     (\<forall>f \<in> set (ho_rows x). cleanRow u f)
     \<and> (case ho_origin x of None \<Rightarrow> True
        | Some (addr, h, out) \<Rightarrow> addr = pinnedAddr (rv_Selected res) (rv_Port res) \<and> hdrValues (hq_Header out) ''Proxy-Authorization'' = []
            \<and> (\<forall>k \<in> fst ` set (hq_Header out). isPseudoHeaderName k \<longrightarrow> originH2 \<and> k = '':protocol''))
     \<and> (\<forall>t f i. ho_result x = Inr (AnswerTunnel t) \<and> tn_AfterAck t = Some (f, i) \<longrightarrow> cleanRow u f
          \<and> (\<exists>origin resp. ho_origin x = Some origin \<and> roundTrip origin = Some resp \<and> hr_StatusCode resp = tunnelStatus originH2))"

lemma keys_hdrSet: "fst ` set (hdrSet k v h) = insert (CanonicalHeaderKey k) (fst ` set h)"
  by (simp add: hdrSet_def dom_update)

lemma keys_hdrDel: "fst ` set (hdrDel k h) = fst ` set h - {CanonicalHeaderKey k}"
  by (auto simp: hdrDel_def AList.delete_eq image_iff)

lemma tunnelOriginRequest_facts:
  assumes "hdrValues (hq_Header out) ''Proxy-Authorization'' = []" and "\<forall>k \<in> fst ` set (hq_Header out). \<not> isPseudoHeaderName k"
  shows "hdrValues (hq_Header (tunnelOriginRequest b key out)) ''Proxy-Authorization'' = []"
    and "\<forall>k \<in> fst ` set (hq_Header (tunnelOriginRequest b key out)). isPseudoHeaderName k \<longrightarrow> b \<and> k = '':protocol''"
proof -
  have keys: "CanonicalHeaderKey ''Proxy-Authorization'' = ''Proxy-Authorization''" "CanonicalHeaderKey ''Sec-WebSocket-Key'' = ''Sec-Websocket-Key''"
    "CanonicalHeaderKey '':protocol'' = '':protocol''" "\<not> isPseudoHeaderName ''Sec-Websocket-Key''" by code_simp+
  show "hdrValues (hq_Header (tunnelOriginRequest b key out)) ''Proxy-Authorization'' = []"
    using assms(1) by (auto simp: tunnelOriginRequest_def setIfMissing_def hdrValues_def hdrSet_def hdrDel_def keys canonical_words update_conv' delete_conv' split: option.splits)
  have h: "hq_Header (tunnelOriginRequest b key out) =
      (if b then hdrSet '':protocol'' ''websocket'' (hdrDel ''Connection'' (hdrDel ''Upgrade'' (hq_Header out))) else setIfMissing ''Sec-WebSocket-Key'' key (hq_Header out))"
    by (simp add: tunnelOriginRequest_def)
  have "fst ` set (hq_Header (tunnelOriginRequest b key out)) \<subseteq> insert (if b then '':protocol'' else ''Sec-Websocket-Key'') (fst ` set (hq_Header out))"
    unfolding h by (cases b) (auto simp only: setIfMissing_def keys_hdrSet keys_hdrDel keys if_True if_False split: if_splits)
  then have sub: "k = (if b then '':protocol'' else ''Sec-Websocket-Key'')" if "k \<in> fst ` set (hq_Header (tunnelOriginRequest b key out))" "isPseudoHeaderName k" for k
    using that assms(2) by blast
  show "\<forall>k \<in> fst ` set (hq_Header (tunnelOriginRequest b key out)). isPseudoHeaderName k \<longrightarrow> b \<and> k = '':protocol''"
  proof (intro ballI impI)
    fix k
    assume "k \<in> fst ` set (hq_Header (tunnelOriginRequest b key out))" and p: "isPseudoHeaderName k"
    from sub[OF this] p keys(4) show "b \<and> k = '':protocol''" by (cases b) simp_all
  qed
qed

lemma innerH2Tunnel_ok: "tunnelOk u res originH2 roundTrip (innerH2Tunnel u ev parseURI key originH2 sess host port res info roundTrip st)"
proof (cases "tunnelRefused u st")
  case True
  then show ?thesis by (simp add: innerH2Tunnel_def tunnelOk_def)
next
  case False
  define q where "q = tunnelRequest parseURI key st"
  define s where "s = (fork sess)\<lparr>xs_reqHit := reqHitOf u sess host q\<rparr>"
  define r where "r = runRequestRulesWrite u ev s q host port ''https'' (Some info)"
  have r: "requestPhaseOk u ev s r" by (simp add: r_def runRequestRulesWrite_ok)
  have clean: "\<forall>f \<in> set (ro_rows r). cleanRow u f" using r by (simp add: requestPhaseOk_def)
  obtain addr h out0 cap where o: "originRequestH2 u ev (xs_spec s) (ro_req r) res host port (xs_reqCap (ro_sess r)) = ((addr, h, out0), cap)" by (metis prod.exhaust)
  note facts = originRequestH2_facts[OF o, unfolded fst_conv snd_conv]
  note sent = tunnelOriginRequest_facts[OF facts(2,3)]
  note unfold = innerH2Tunnel_def[of u ev parseURI key originH2 sess host port res info roundTrip st] Let_def False[simplified] q_def[symmetric] s_def[symmetric] r_def[symmetric] o
  show ?thesis
  proof (cases "ro_result r")
    case ruleContinue
    define out where "out = tunnelOriginRequest originH2 key out0"
    show ?thesis
    proof (cases "roundTrip (addr, h, out)")
      case None
      then show ?thesis using ruleContinue clean facts(1) sent[of originH2 key] by (auto simp: unfold out_def tunnelOk_def)
    next
      case (Some resp)
      show ?thesis
      proof (cases "hr_StatusCode resp = tunnelStatus originH2")
        case True
        then show ?thesis using Some ruleContinue clean facts(1) sent[of originH2 key] by (auto simp: unfold out_def tunnelOk_def)
      next
        case no: False
        have "cleanRow u (captureFlow u ev s1 (f\<lparr>fl_Response := m\<rparr>)) = cleanRow u f" for s1 f m by (simp add: cleanRow_def)
        with no show ?thesis using Some ruleContinue clean facts(1) sent[of originH2 key] by (auto simp: unfold out_def tunnelOk_def)
      qed
    qed
  qed (use clean in \<open>simp_all add: unfold tunnelOk_def split: list.split\<close>)
qed

text \<open>(C16) A stream of an intercepted HTTP/2 connection stays where its CONNECT went. Whatever its pseudo headers name, its request goes
  to the address that was resolved and guarded for the CONNECT, without proxy credentials and without any pseudo
  header among its header fields, but for the :protocol of a WebSocket tunnel to an HTTP/2 origin; none of its rows holds proxy
  credentials. A stream that asks for a nested CONNECT, an extended CONNECT or an upgrade is reset without reaching the origin, unless
  extended CONNECT is on and it is a CONNECT for the protocol websocket; and such a tunnel opens only when the origin
  accepted it.\<close>

theorem h2_stream_is_pinned:
  assumes "serveInnerH2 u ev parseURI key originH2 sess host port res info roundTrip st = x"
  shows "(\<forall>f \<in> set (ho_rows x). \<forall>h \<in> set (elems (msg_Headers (fl_Request f))). \<not> EqualFold u (hdr_Name h) ''Proxy-Authorization'')
    \<and> (\<forall>addr h out. ho_origin x = Some (addr, h, out) \<longrightarrow> addr = pinnedAddr (rv_Selected res) (rv_Port res)
          \<and> hdrValues (hq_Header out) ''Proxy-Authorization'' = []
          \<and> (\<forall>k \<in> fst ` set (hq_Header out). isPseudoHeaderName k \<longrightarrow> webSocketTunnel u (xs_spec sess) st \<and> originH2 \<and> k = '':protocol''))
    \<and> (h2InnerForbidden u st \<and> \<not> webSocketTunnel u (xs_spec sess) st \<longrightarrow> ho_result x = Inl ErrInnerCONNECT \<and> ho_origin x = None \<and> ho_rows x = [])
    \<and> (\<forall>t f i. ho_result x = Inr (AnswerTunnel t) \<and> tn_AfterAck t = Some (f, i) \<longrightarrow> webSocketTunnel u (xs_spec sess) st
          \<and> (\<exists>origin resp. ho_origin x = Some origin \<and> roundTrip origin = Some resp \<and> hr_StatusCode resp = (if originH2 then 200 else 101)))"
proof (cases "h2s_ExtendedConnect (pr_HTTP2 (sp_Protocols (xs_spec sess))) \<and> isTunnelStream u st")
  case True
  then have x: "x = innerH2Tunnel u ev parseURI key originH2 sess host port res info roundTrip st" using assms by (simp add: serveInnerH2_def)
  show ?thesis
  proof (cases "tunnelRefused u st")
    case refused: True
    then have "\<not> webSocketTunnel u (xs_spec sess) st"
      by (auto simp: tunnelRefused_def webSocketTunnel_def Let_def)
    with refused show ?thesis by (simp add: x innerH2Tunnel_def)
  next
    case False
    then have w: "webSocketTunnel u (xs_spec sess) st" using True by (simp add: tunnelRefused_def webSocketTunnel_def Let_def)
    have "tunnelOk u res originH2 roundTrip x" using innerH2Tunnel_ok by (simp add: x)
    with w show ?thesis by (fastforce simp: tunnelOk_def cleanRow_def tunnelStatus_def)
  qed
next
  case False
  then have x: "x = roundTripInnerH2 u ev parseURI sess host port res info roundTrip st" using assms unfolding serveInnerH2_def if_not_P[OF False] by simp
  have "h2Ok u res x" using roundTripInnerH2_ok by (simp add: x)
  moreover have "h2InnerForbidden u st \<Longrightarrow> x = \<lparr>ho_result = Inl ErrInnerCONNECT, ho_origin = None, ho_rows = []\<rparr>"
    by (simp add: x roundTripInnerH2_def)
  moreover have "ho_result x \<noteq> Inr (AnswerTunnel t)" for t by (auto simp: x roundTripInnerH2_def finishH2_def Let_def split: if_splits prod.splits option.splits list.splits)
  ultimately show ?thesis by (fastforce simp: h2Ok_def cleanRow_def)
qed

definition exH2Stream :: h2Stream where
  "exH2Stream = \<lparr>hs_ID = 1, hs_Pseudos = [\<lparr>hdr_Name = '':method'', hdr_Value = ''GET''\<rparr>, \<lparr>hdr_Name = '':path'', hdr_Value = ''/''\<rparr>], hs_Headers = [\<lparr>hdr_Name = ''accept'', hdr_Value = ''*''\<rparr>],
     hs_Trailers = [], hs_Body = None, hs_Method = ''GET'', hs_Authority = ''a.test'', hs_Path = ''/'', hs_Protocol = ''''\<rparr>"

definition exTunnelSession :: ruleSession where
  "exTunnelSession = (let s = exRuleSession RulePhaseResponse ''body''; sp = xs_spec s; ps = sp_Protocols sp
     in s\<lparr>xs_spec := sp\<lparr>sp_Protocols := ps\<lparr>pr_HTTP2 := (pr_HTTP2 ps)\<lparr>h2s_ExtendedConnect := True\<rparr>\<rparr>\<rparr>\<rparr>)"

definition exTunnelStream :: h2Stream where
  "exTunnelStream = exH2Stream\<lparr>hs_Method := ''CONNECT'', hs_Protocol := ''websocket'',
     hs_Pseudos := [\<lparr>hdr_Name = '':method'', hdr_Value = ''CONNECT''\<rparr>, \<lparr>hdr_Name = '':protocol'', hdr_Value = ''websocket''\<rparr>]\<rparr>"

theorem h2_stream_is_pinned_witness:
  "(\<exists>addr h out. ho_origin (serveInnerH2 ascii_env (exExchange None) (\<lambda>_. None) ''k'' False (exRuleSession RulePhaseResponse ''body'') ''a.test'' ''443'' exResolved exTLSInfo (\<lambda>_. None) exH2Stream) = Some (addr, h, out)
     \<and> addr = pinnedAddr (rv_Selected exResolved) (rv_Port exResolved) \<and> hdrValues (hq_Header out) ''Proxy-Authorization'' = [])
   \<and> webSocketTunnel ascii_env (xs_spec exTunnelSession) exTunnelStream"
proof -
  let ?x = "serveInnerH2 ascii_env (exExchange None) (\<lambda>_. None) ''k'' False (exRuleSession RulePhaseResponse ''body'') ''a.test'' ''443'' exResolved exTLSInfo (\<lambda>_. None) exH2Stream"
  let ?y = "serveInnerH2 ascii_env (exExchange None) (\<lambda>_. None) ''k'' False exTunnelSession ''a.test'' ''443'' exResolved exTLSInfo
    (\<lambda>_. Some ((exHttpResp [])\<lparr>hr_StatusCode := 101\<rparr>)) exTunnelStream"
  have "ho_origin ?x \<noteq> None" by code_simp
  then obtain addr h out where x: "ho_origin ?x = Some (addr, h, out)" by (cases "ho_origin ?x") auto
  have "case ho_result ?y of Inr (AnswerTunnel t) \<Rightarrow> tn_AfterAck t \<noteq> None | _ \<Rightarrow> False" by code_simp
  then obtain t f i where y: "ho_result ?y = Inr (AnswerTunnel t)" "tn_AfterAck t = Some (f, i)" by (auto split: sum.splits h2_answer.splits)
  have "webSocketTunnel ascii_env (xs_spec exTunnelSession) exTunnelStream"
    using y h2_stream_is_pinned[where x = ?y, OF refl, THEN conjunct2, THEN conjunct2, THEN conjunct2] by blast
  moreover have "addr = pinnedAddr (rv_Selected exResolved) (rv_Port exResolved) \<and> hdrValues (hq_Header out) ''Proxy-Authorization'' = []"
    using x h2_stream_is_pinned[where x = ?x, OF refl, THEN conjunct2, THEN conjunct1] by simp
  ultimately show ?thesis using x by blast
qed

end
