(* ===== verification/Proxy_Stream.thy ===== *)
theory Proxy_Stream
  imports Proxy_Serve "HOL-Library.Sublist"
begin

text \<open>
  The stream a response takes from the exchange to the HTTP/2 codec (\<open>internal/proxy/response_stream.go\<close>): a writer that cuts
  the body into chunks, a queue of two, the goroutine that pumps the queue into an \<open>io.Pipe\<close>, and the reader of the codec. Any
  of them may be interrupted by the context. Each operation is a partial function on the state, none where it blocks; the steps
  interleave freely. What was offered, what the writer gave up and what was read are kept beside the state.
  Who writes ends the stream: the handler of an intercepted stream with the error its copy failed with (\<open>roundTripInnerH2\<close>), the
  handler of a cleartext one without, since it does not look at that error (\<open>roundTripH2C\<close>).
\<close>

subsection \<open>State\<close>

datatype responseChunk = ChunkData "byte list" | ChunkDone "string option"

text \<open>\<open>pp_hand\<close> is the chunk the pump is writing to the pipe, \<open>pp_closed\<close> the error its writing side was closed with (none inside: end of
  file), \<open>pp_ended\<close> what the reader saw at the end.\<close>

record responseStream =
  pp_pending :: "byte list"
  pp_failed :: bool
  pp_finished :: bool
  pp_queue :: "responseChunk list"
  pp_hand :: "byte list option"
  pp_pumpDone :: bool
  pp_closed :: "string option option"
  pp_rclosed :: bool
  pp_cancelled :: bool
  pp_ended :: "string option option"
  pp_offered :: "byte list"
  pp_lost :: "byte list"
  pp_read :: "byte list"

definition newResponseStream :: responseStream where
  "newResponseStream = \<lparr>pp_pending = [], pp_failed = False, pp_finished = False, pp_queue = [], pp_hand = None, pp_pumpDone = False, pp_closed = None,
     pp_rclosed = False, pp_cancelled = False, pp_ended = None, pp_offered = [], pp_lost = [], pp_read = []\<rparr>"

definition chunkLimit :: nat where "chunkLimit = 16384"

definition queueLimit :: nat where "queueLimit = 2"

definition ctxError :: string where "ctxError = ''context canceled''"

subsection \<open>The writer\<close>

text \<open>\<open>io.Copy\<close> calls \<open>Write\<close> with the next bytes of the body, or fails to read them.\<close>

definition startWrite :: "byte list \<Rightarrow> responseStream \<Rightarrow> responseStream option" where
  "startWrite p s = (if pp_pending s = [] \<and> \<not> pp_finished s \<and> \<not> pp_failed s then Some (s\<lparr>pp_pending := p, pp_offered := pp_offered s @ p\<rparr>) else None)"

definition sourceFails :: "responseStream \<Rightarrow> responseStream option" where
  "sourceFails s = (if pp_pending s = [] \<and> \<not> pp_finished s then Some (s\<lparr>pp_failed := True\<rparr>) else None)"

definition sendChunk :: "responseStream \<Rightarrow> responseStream option" where
  "sendChunk s =
     (if pp_pending s \<noteq> [] \<and> length (pp_queue s) < queueLimit
      then Some (s\<lparr>pp_queue := pp_queue s @ [ChunkData (take chunkLimit (pp_pending s))], pp_pending := drop chunkLimit (pp_pending s)\<rparr>) else None)"

definition abandonWrite :: "responseStream \<Rightarrow> responseStream option" where
  "abandonWrite s = (if pp_pending s \<noteq> [] \<and> pp_cancelled s then Some (s\<lparr>pp_pending := [], pp_failed := True, pp_lost := pp_pending s @ pp_lost s\<rparr>) else None)"

definition finishStream :: "string option \<Rightarrow> responseStream \<Rightarrow> responseStream option" where
  "finishStream e s =
     (if pp_pending s = [] \<and> \<not> pp_finished s \<and> length (pp_queue s) < queueLimit
      then Some (s\<lparr>pp_queue := pp_queue s @ [ChunkDone e], pp_finished := True\<rparr>) else None)"

definition finishCancelled :: "responseStream \<Rightarrow> responseStream option" where
  "finishCancelled s = (if pp_pending s = [] \<and> \<not> pp_finished s \<and> pp_cancelled s then Some (s\<lparr>pp_finished := True\<rparr>) else None)"

subsection \<open>The pump and the pipe\<close>

definition closeWith :: "string option \<Rightarrow> responseStream \<Rightarrow> responseStream" where
  "closeWith e s = (case pp_closed s of None \<Rightarrow> s\<lparr>pp_closed := Some e\<rparr> | Some _ \<Rightarrow> s)"

definition pumpTake :: "responseStream \<Rightarrow> responseStream option" where
  "pumpTake s =
     (if pp_pumpDone s \<or> pp_hand s \<noteq> None then None
      else case pp_queue s of [] \<Rightarrow> None
      | ChunkDone e # q \<Rightarrow> Some (closeWith e (s\<lparr>pp_queue := q, pp_pumpDone := True\<rparr>))
      | ChunkData d # q \<Rightarrow> Some (s\<lparr>pp_queue := q, pp_hand := Some d\<rparr>))"

definition pumpCancelled :: "responseStream \<Rightarrow> responseStream option" where
  "pumpCancelled s =
     (if pp_cancelled s \<and> \<not> pp_pumpDone s \<and> pp_hand s = None then Some (closeWith (Some ctxError) (s\<lparr>pp_pumpDone := True\<rparr>)) else None)"

text \<open>A write to a closed pipe fails and ends the pump.\<close>

definition pumpWriteFails :: "responseStream \<Rightarrow> responseStream option" where
  "pumpWriteFails s =
     (if pp_hand s \<noteq> None \<and> (pp_closed s \<noteq> None \<or> pp_rclosed s) then Some (s\<lparr>pp_hand := None, pp_pumpDone := True\<rparr>) else None)"

definition cancelStream :: "responseStream \<Rightarrow> responseStream option" where
  "cancelStream s = Some (s\<lparr>pp_cancelled := True\<rparr>)"

text \<open>On cancellation the reading side is closed first, then the writing side.\<close>

definition closeReader :: "responseStream \<Rightarrow> responseStream option" where
  "closeReader s = (if pp_cancelled s then Some (s\<lparr>pp_rclosed := True\<rparr>) else None)"

definition closeWriter :: "responseStream \<Rightarrow> responseStream option" where
  "closeWriter s = (if pp_cancelled s \<and> pp_rclosed s then Some (closeWith (Some ctxError) s) else None)"

definition readPipe :: "nat \<Rightarrow> responseStream \<Rightarrow> responseStream option" where
  "readPipe k s =
     (case pp_hand s of None \<Rightarrow> None
      | Some d \<Rightarrow>
        if 0 < k \<and> pp_closed s = None \<and> \<not> pp_rclosed s \<and> pp_ended s = None
        then Some (s\<lparr>pp_read := pp_read s @ take k d, pp_hand := (if drop k d = [] then None else Some (drop k d))\<rparr>) else None)"

definition readEnd :: "responseStream \<Rightarrow> responseStream option" where
  "readEnd s =
     (if pp_ended s \<noteq> None then None
      else if pp_rclosed s then Some (s\<lparr>pp_ended := Some (Some ''io: read/write on closed pipe'')\<rparr>)
      else case pp_closed s of None \<Rightarrow> None | Some e \<Rightarrow> Some (s\<lparr>pp_ended := Some e\<rparr>))"

subsection \<open>Runs\<close>

text \<open>\<open>tells\<close> says that the writer ends the stream with an error when a copy has failed.\<close>

inductive stream_step :: "bool \<Rightarrow> responseStream \<Rightarrow> responseStream \<Rightarrow> bool" for tells :: bool where
  "startWrite p s = Some t \<Longrightarrow> stream_step tells s t"
| "sourceFails s = Some t \<Longrightarrow> stream_step tells s t"
| "sendChunk s = Some t \<Longrightarrow> stream_step tells s t"
| "abandonWrite s = Some t \<Longrightarrow> stream_step tells s t"
| "finishStream e s = Some t \<Longrightarrow> tells \<and> pp_failed s \<longrightarrow> e \<noteq> None \<Longrightarrow> stream_step tells s t"
| "finishCancelled s = Some t \<Longrightarrow> stream_step tells s t"
| "pumpTake s = Some t \<Longrightarrow> stream_step tells s t"
| "pumpCancelled s = Some t \<Longrightarrow> stream_step tells s t"
| "pumpWriteFails s = Some t \<Longrightarrow> stream_step tells s t"
| "cancelStream s = Some t \<Longrightarrow> stream_step tells s t"
| "closeReader s = Some t \<Longrightarrow> stream_step tells s t"
| "closeWriter s = Some t \<Longrightarrow> stream_step tells s t"
| "readPipe k s = Some t \<Longrightarrow> stream_step tells s t"
| "readEnd s = Some t \<Longrightarrow> stream_step tells s t"

inductive stream_reach :: "bool \<Rightarrow> responseStream \<Rightarrow> bool" for tells :: bool where
  start: "stream_reach tells newResponseStream"
| step: "stream_reach tells s \<Longrightarrow> stream_step tells s t \<Longrightarrow> stream_reach tells t"

lemmas stream_ops = startWrite_def sourceFails_def sendChunk_def abandonWrite_def finishStream_def finishCancelled_def pumpTake_def pumpCancelled_def
  pumpWriteFails_def cancelStream_def closeReader_def closeWriter_def readPipe_def readEnd_def

subsection \<open>Invariant\<close>

fun chunkBytes :: "responseChunk \<Rightarrow> byte list" where
  "chunkBytes (ChunkData d) = d"
| "chunkBytes (ChunkDone e) = []"

fun chunkOk :: "responseChunk \<Rightarrow> bool" where
  "chunkOk (ChunkData d) = (d \<noteq> [] \<and> length d \<le> chunkLimit)"
| "chunkOk (ChunkDone e) = True"

definition handBytes :: "responseStream \<Rightarrow> byte list" where
  "handBytes s = (case pp_hand s of None \<Rightarrow> [] | Some d \<Rightarrow> d)"

definition queueBytes :: "responseStream \<Rightarrow> byte list" where
  "queueBytes s = concat (map chunkBytes (pp_queue s))"

definition boundedStream :: "responseStream \<Rightarrow> bool" where
  "boundedStream s \<longleftrightarrow> length (pp_queue s) \<le> queueLimit \<and> list_all chunkOk (pp_queue s) \<and> (\<forall>d. pp_hand s = Some d \<longrightarrow> d \<noteq> [] \<and> length d \<le> chunkLimit)"

text \<open>While the pump works, what was offered is what was read, what is in flight, what the writer still holds and what it gave up; an end
  mark is the last chunk, and from a writer that tells a clean one says that nothing was given up; a clean end then means that nothing is missing.\<close>

definition orderedStream :: "responseStream \<Rightarrow> bool" where
  "orderedStream s \<longleftrightarrow> pp_offered s = pp_read s @ handBytes s @ queueBytes s @ pp_pending s @ pp_lost s"

fun endOk :: "bool \<Rightarrow> bool \<Rightarrow> responseChunk list \<Rightarrow> bool" where
  "endOk fin failed [] = True"
| "endOk fin failed (ChunkData d # q) = endOk fin failed q"
| "endOk fin failed (ChunkDone e # q) = (q = [] \<and> fin \<and> (e = None \<longrightarrow> \<not> failed))"

fun endMarked :: "responseChunk list \<Rightarrow> bool" where
  "endMarked [] = False"
| "endMarked (ChunkData d # q) = endMarked q"
| "endMarked (ChunkDone e # q) = True"

lemma endMarked_snoc [simp]: "endMarked (q @ [c]) = (endMarked q \<or> endMarked [c])"
  by (induction q rule: endMarked.induct) auto

definition streamInv :: "bool \<Rightarrow> responseStream \<Rightarrow> bool" where
  "streamInv tells s \<longleftrightarrow>
     prefix (pp_read s) (pp_offered s)
     \<and> (\<not> pp_pumpDone s \<longrightarrow> orderedStream s) \<and> (\<not> pp_failed s \<longrightarrow> pp_lost s = []) \<and> (pp_hand s \<noteq> None \<longrightarrow> \<not> pp_pumpDone s)
     \<and> endOk (pp_finished s) (tells \<and> pp_failed s) (pp_queue s)
     \<and> (pp_finished s \<longrightarrow> pp_pending s = [])
     \<and> (pp_closed s = Some None \<longrightarrow> (tells \<longrightarrow> pp_read s = pp_offered s \<and> \<not> pp_failed s) \<and> pp_finished s \<and> pp_hand s = None \<and> pp_pumpDone s)
     \<and> (pp_ended s = Some None \<longrightarrow> pp_closed s = Some None)
     \<and> (pp_pumpDone s \<longrightarrow> pp_closed s \<noteq> None \<or> pp_rclosed s) \<and> (pp_rclosed s \<longrightarrow> pp_cancelled s)
     \<and> (pp_finished s \<and> \<not> pp_cancelled s \<longrightarrow> endMarked (pp_queue s) \<or> pp_pumpDone s)"

lemma endOk_open: "endOk False failed q \<Longrightarrow> endOk fin failed' q"
proof (induction q)
  case (Cons c q)
  then show ?case by (cases c) auto
qed simp

lemma endOk_snoc: "endOk False failed q \<Longrightarrow> endOk fin failed' (q @ [c]) = endOk fin failed' [c]"
proof (induction q)
  case (Cons c q)
  then show ?case by (cases c) auto
qed simp

lemmas stream_fields = handBytes_def queueBytes_def orderedStream_def

lemma ordered_frame [simp]:
  "orderedStream (s\<lparr>pp_failed := b\<rparr>) = orderedStream s" "orderedStream (s\<lparr>pp_finished := b\<rparr>) = orderedStream s" "orderedStream (s\<lparr>pp_cancelled := b\<rparr>) = orderedStream s"
  "orderedStream (s\<lparr>pp_rclosed := b\<rparr>) = orderedStream s" "orderedStream (s\<lparr>pp_closed := c\<rparr>) = orderedStream s" "orderedStream (s\<lparr>pp_ended := e\<rparr>) = orderedStream s"
  by (simp_all add: stream_fields)

lemma inv_startWrite:
  assumes "streamInv tells s" and "startWrite p s = Some t"
  shows "streamInv tells t"
proof -
  have g: "pp_pending s = []" "\<not> pp_finished s" "\<not> pp_failed s" and t: "t = s\<lparr>pp_pending := p, pp_offered := pp_offered s @ p\<rparr>"
    using assms(2) by (auto simp: startWrite_def split: if_splits)
  have "prefix (pp_read s) (pp_offered s @ p)" using assms(1) by (simp add: streamInv_def prefix_prefix)
  with assms(1) g show ?thesis by (simp add: streamInv_def stream_fields t)
qed

lemma inv_sourceFails:
  assumes "streamInv tells s" and "sourceFails s = Some t"
  shows "streamInv tells t"
proof -
  have g: "pp_pending s = []" "\<not> pp_finished s" and t: "t = s\<lparr>pp_failed := True\<rparr>" using assms(2) by (auto simp: sourceFails_def split: if_splits)
  have "endOk False tells (pp_queue s)" using assms(1) g(2) endOk_open by (auto simp: streamInv_def)
  with assms(1) g show ?thesis by (simp add: streamInv_def t)
qed

lemma take_drop_append: "take n xs @ drop n xs @ r = xs @ r"
  by (metis append.assoc append_take_drop_id)

lemma inv_sendChunk:
  assumes "streamInv tells s" and "sendChunk s = Some t"
  shows "streamInv tells t"
proof -
  have g: "pp_pending s \<noteq> []" and t: "t = s\<lparr>pp_queue := pp_queue s @ [ChunkData (take chunkLimit (pp_pending s))], pp_pending := drop chunkLimit (pp_pending s)\<rparr>"
    using assms(2) by (auto simp: sendChunk_def split: if_splits)
  have f: "\<not> pp_finished s" using assms(1) g by (auto simp: streamInv_def)
  have e: "endOk False (tells \<and> pp_failed s) (pp_queue s @ [ChunkData (take chunkLimit (pp_pending s))])" using assms(1) f endOk_snoc by (auto simp: streamInv_def)
  have "orderedStream t = orderedStream s" by (simp add: t stream_fields take_drop_append)
  with assms(1) f e show ?thesis by (simp add: streamInv_def t)
qed

lemma inv_abandonWrite:
  assumes "streamInv tells s" and "abandonWrite s = Some t"
  shows "streamInv tells t"
proof -
  have g: "pp_pending s \<noteq> []" and t: "t = s\<lparr>pp_pending := [], pp_failed := True, pp_lost := pp_pending s @ pp_lost s\<rparr>" using assms(2) by (auto simp: abandonWrite_def split: if_splits)
  have f: "\<not> pp_finished s" using assms(1) g by (auto simp: streamInv_def)
  have e: "endOk False tells (pp_queue s)" using assms(1) f endOk_open by (auto simp: streamInv_def)
  have "orderedStream t = orderedStream s" by (simp add: t stream_fields)
  with assms(1) f e show ?thesis by (simp add: streamInv_def t)
qed

lemma inv_finishStream:
  assumes "streamInv tells s" and "finishStream e s = Some t" and "tells \<and> pp_failed s \<longrightarrow> e \<noteq> None"
  shows "streamInv tells t"
proof -
  have g: "pp_pending s = []" "\<not> pp_finished s" "tells \<and> pp_failed s \<longrightarrow> e \<noteq> None" and t: "t = s\<lparr>pp_queue := pp_queue s @ [ChunkDone e], pp_finished := True\<rparr>"
    using assms(2,3) by (auto simp: finishStream_def split: if_splits)
  have e: "endOk True (tells \<and> pp_failed s) (pp_queue s @ [ChunkDone e])" using assms(1) g(2,3) endOk_snoc by (auto simp: streamInv_def)
  have "orderedStream t = orderedStream s" by (simp add: t stream_fields)
  with assms(1) g e show ?thesis by (simp add: streamInv_def t)
qed

lemma inv_finishCancelled:
  assumes "streamInv tells s" and "finishCancelled s = Some t"
  shows "streamInv tells t"
proof -
  have g: "pp_pending s = []" "\<not> pp_finished s" "pp_cancelled s" and t: "t = s\<lparr>pp_finished := True\<rparr>" using assms(2) by (auto simp: finishCancelled_def split: if_splits)
  have "endOk True (tells \<and> pp_failed s) (pp_queue s)" using assms(1) g(2) endOk_open by (auto simp: streamInv_def)
  with assms(1) g show ?thesis by (simp add: streamInv_def t)
qed

lemma inv_pumpTake:
  assumes "streamInv tells s" and "pumpTake s = Some t"
  shows "streamInv tells t"
proof -
  have idle: "\<not> pp_pumpDone s" "pp_hand s = None" using assms(2) by (auto simp: pumpTake_def split: if_splits)
  obtain c q where q: "pp_queue s = c # q" using assms(2) idle by (cases "pp_queue s") (auto simp: pumpTake_def)
  have o: "orderedStream s" using assms(1) idle by (simp add: streamInv_def)
  show ?thesis
  proof (cases c)
    case (ChunkData d)
    then have t: "t = s\<lparr>pp_queue := q, pp_hand := Some d\<rparr>" using assms(2) idle q by (simp add: pumpTake_def)
    have "orderedStream t" using o idle q ChunkData by (simp add: t stream_fields)
    moreover have "endOk (pp_finished s) (tells \<and> pp_failed s) q" using assms(1) q ChunkData by (simp add: streamInv_def)
    ultimately show ?thesis using assms(1) idle q ChunkData by (simp add: streamInv_def t)
  next
    case (ChunkDone e)
    then have t: "t = closeWith e (s\<lparr>pp_queue := q, pp_pumpDone := True\<rparr>)" using assms(2) idle q by (simp add: pumpTake_def)
    have e: "q = []" "pp_finished s" "tells \<and> e = None \<longrightarrow> \<not> pp_failed s" using assms(1) q ChunkDone by (auto simp: streamInv_def)
    have "tells \<and> e = None \<longrightarrow> pp_read s = pp_offered s" using assms(1) o idle q ChunkDone e by (simp add: streamInv_def stream_fields)
    with assms(1) idle e show ?thesis by (cases "pp_closed s") (auto simp: streamInv_def t closeWith_def)
  qed
qed

lemma inv_readPipe:
  assumes "streamInv tells s" and "readPipe k s = Some t"
  shows "streamInv tells t"
proof -
  obtain d where d: "pp_hand s = Some d" "pp_closed s = None" using assms(2) by (auto simp: readPipe_def split: option.splits if_splits)
  have t: "t = s\<lparr>pp_read := pp_read s @ take k d, pp_hand := (if drop k d = [] then None else Some (drop k d))\<rparr>" "pp_ended s = None"
    using assms(2) d by (auto simp: readPipe_def split: if_splits)
  have "pp_offered s = pp_read s @ d @ queueBytes s @ pp_pending s @ pp_lost s" using assms(1) d by (simp add: streamInv_def stream_fields)
  then have o: "pp_offered s = (pp_read s @ take k d) @ drop k d @ queueBytes s @ pp_pending s @ pp_lost s" by (simp add: take_drop_append)
  then have "prefix (pp_read s @ take k d) (pp_offered s)" by (metis prefixI)
  moreover have "orderedStream t" using o by (simp add: t stream_fields)
  ultimately show ?thesis using assms(1) d t(2) by (auto simp: streamInv_def t(1))
qed

text \<open>The other steps do not touch what is in flight, or lose it with an error.\<close>

lemma inv_closing:
  assumes "streamInv tells s"
  shows "pumpCancelled s = Some t \<Longrightarrow> streamInv tells t" and "pumpWriteFails s = Some t \<Longrightarrow> streamInv tells t" and "cancelStream s = Some t \<Longrightarrow> streamInv tells t"
    and "closeReader s = Some t \<Longrightarrow> streamInv tells t" and "closeWriter s = Some t \<Longrightarrow> streamInv tells t" and "readEnd s = Some t \<Longrightarrow> streamInv tells t"
proof -
  have close: "streamInv tells (closeWith (Some e) r)" if "streamInv tells r" for e r
    using that by (cases "pp_closed r") (simp_all add: streamInv_def closeWith_def)
  have idle: "streamInv tells (closeWith (Some e) (s\<lparr>pp_pumpDone := True\<rparr>))" if "pp_hand s = None" for e
    using assms that by (cases "pp_closed s") (auto simp: streamInv_def closeWith_def)
  have lost: "streamInv tells (s\<lparr>pp_hand := None, pp_pumpDone := True\<rparr>)" if "pp_closed s \<noteq> None \<or> pp_rclosed s" using assms that by (simp add: streamInv_def)
  have cancelled: "streamInv tells (s\<lparr>pp_cancelled := True\<rparr>)" using assms by (simp add: streamInv_def)
  have rclosed: "streamInv tells (s\<lparr>pp_rclosed := True\<rparr>)" if "pp_cancelled s" using assms that by (simp add: streamInv_def)
  have failed: "streamInv tells (s\<lparr>pp_ended := Some (Some e)\<rparr>)" for e using assms by (simp add: streamInv_def)
  have ended: "streamInv tells (s\<lparr>pp_ended := Some e\<rparr>)" if "pp_closed s = Some e" for e using assms that by (simp add: streamInv_def)
  show "pumpCancelled s = Some t \<Longrightarrow> streamInv tells t" using idle by (auto simp: pumpCancelled_def split: if_splits)
  show "pumpWriteFails s = Some t \<Longrightarrow> streamInv tells t" using lost by (auto simp: pumpWriteFails_def split: if_splits)
  show "cancelStream s = Some t \<Longrightarrow> streamInv tells t" using cancelled by (simp add: cancelStream_def)
  show "closeReader s = Some t \<Longrightarrow> streamInv tells t" using rclosed by (auto simp: closeReader_def split: if_splits)
  show "closeWriter s = Some t \<Longrightarrow> streamInv tells t" using close[OF assms] by (auto simp: closeWriter_def split: if_splits)
  show "readEnd s = Some t \<Longrightarrow> streamInv tells t" using failed ended by (auto simp: readEnd_def split: if_splits option.splits)
qed

lemmas stream_inv = inv_startWrite inv_sourceFails inv_sendChunk inv_abandonWrite inv_finishStream inv_finishCancelled inv_pumpTake inv_readPipe inv_closing

lemma bounded_step:
  assumes "boundedStream s" and "stream_step tells s t"
  shows "boundedStream t"
proof -
  have close: "boundedStream (closeWith e r) = boundedStream r" for e r by (simp add: closeWith_def boundedStream_def split: option.splits)
  have take: "pumpTake s = Some t \<Longrightarrow> boundedStream t"
    using assms(1) by (auto simp: pumpTake_def close split: if_splits list.splits responseChunk.splits) (auto simp: boundedStream_def)
  have "sendChunk s = Some t \<Longrightarrow> boundedStream t" using assms(1) by (auto simp: sendChunk_def boundedStream_def chunkLimit_def split: if_splits)
  moreover have "finishStream e s = Some t \<Longrightarrow> boundedStream t" for e using assms(1) by (auto simp: finishStream_def boundedStream_def split: if_splits)
  moreover have "readPipe k s = Some t \<Longrightarrow> boundedStream t" for k using assms(1) by (auto simp: readPipe_def boundedStream_def split: if_splits option.splits)
  moreover have "pumpWriteFails s = Some t \<Longrightarrow> boundedStream t" using assms(1) by (auto simp: pumpWriteFails_def boundedStream_def split: if_splits)
  moreover have "pumpCancelled s = Some t \<Longrightarrow> boundedStream t" "closeWriter s = Some t \<Longrightarrow> boundedStream t"
    using assms(1) by (auto simp: pumpCancelled_def closeWriter_def close split: if_splits) (simp add: boundedStream_def)
  moreover have "startWrite p s = Some t \<Longrightarrow> boundedStream t" "sourceFails s = Some t \<Longrightarrow> boundedStream t" "abandonWrite s = Some t \<Longrightarrow> boundedStream t"
    "finishCancelled s = Some t \<Longrightarrow> boundedStream t" "cancelStream s = Some t \<Longrightarrow> boundedStream t" "closeReader s = Some t \<Longrightarrow> boundedStream t" "readEnd s = Some t \<Longrightarrow> boundedStream t" for p
    using assms(1) by (auto simp: startWrite_def sourceFails_def abandonWrite_def finishCancelled_def cancelStream_def closeReader_def readEnd_def boundedStream_def split: if_splits option.splits)
  ultimately show ?thesis using assms(2) take by (elim stream_step.cases) blast+
qed

lemma stream_reach_inv: "stream_reach tells s \<Longrightarrow> streamInv tells s \<and> boundedStream s"
proof (induction rule: stream_reach.induct)
  case start
  show ?case by (simp add: newResponseStream_def streamInv_def boundedStream_def stream_fields)
next
  case (step s t)
  note inv = stream_inv[OF conjunct1[OF step.IH]]
  from step.hyps(2) have "streamInv tells t" by cases (erule inv, assumption?)+
  with step bounded_step show ?case by blast
qed

text \<open>Once the writer has finished and nothing was cancelled, the pump or the reader can move on until the reader has seen the end.\<close>

lemma stream_progress:
  assumes "streamInv tells s" and "pp_finished s" and "pp_ended s = None" and "\<not> pp_cancelled s"
  shows "\<exists>t. pumpTake s = Some t \<or> readPipe 1 s = Some t \<or> readEnd s = Some t"
proof -
  have r: "\<not> pp_rclosed s" and d: "pp_pumpDone s \<longrightarrow> pp_closed s \<noteq> None" and q: "endMarked (pp_queue s) \<or> pp_pumpDone s"
    using assms by (auto simp: streamInv_def)
  consider e where "pp_closed s = Some e" | h where "pp_closed s = None" "pp_hand s = Some h" | "pp_closed s = None" "pp_hand s = None" by fastforce
  then show ?thesis
  proof cases
    case 1
    then show ?thesis using assms(3) r by (auto simp: readEnd_def)
  next
    case 2
    then show ?thesis using assms(3) r by (auto simp: readPipe_def)
  next
    case 3
    then have "\<not> pp_pumpDone s" "pp_queue s \<noteq> []" using d q by auto
    then obtain c cs where "pp_queue s = c # cs" by (meson neq_Nil_conv)
    with 3 \<open>\<not> pp_pumpDone s\<close> show ?thesis by (cases c) (auto simp: pumpTake_def)
  qed
qed

text \<open>(C17) A client never takes a cut response for a whole one. Under every interleaving of writer, pump, reader and cancellation, what the
  reader got is the beginning of what the writer was given, in order, and the reader sees a clean end of file only
  after all of it, none of it given up and its source read without an error, provided the writer tells: it ends the stream with an
  error when its copy failed, as the handler of an intercepted stream does. Never more than two chunks of 16 KiB are queued and
  one is in the hands of the pump. Once the writer has finished,
  without a cancellation, the pump or the reader can move on until the reader has seen the end.\<close>

theorem streamed_response_is_whole:
  assumes "stream_reach tells s"
  shows "prefix (pp_read s) (pp_offered s) \<and> (tells \<and> pp_ended s = Some None \<longrightarrow> pp_read s = pp_offered s \<and> \<not> pp_failed s)
    \<and> length (queueBytes s) \<le> 2 * 16384 \<and> length (handBytes s) \<le> 16384
    \<and> (pp_finished s \<and> pp_ended s = None \<and> \<not> pp_cancelled s \<longrightarrow> (\<exists>t. pumpTake s = Some t \<or> readPipe 1 s = Some t \<or> readEnd s = Some t))"
proof -
  have i: "streamInv tells s" "boundedStream s" using stream_reach_inv[OF assms] by simp_all
  have "length (concat (map chunkBytes q)) \<le> length q * chunkLimit" if "list_all chunkOk q" for q
    using that
  proof (induction q)
    case (Cons c q)
    then show ?case by (cases c) auto
  qed simp
  with i(2) have "length (queueBytes s) \<le> length (pp_queue s) * chunkLimit" "length (pp_queue s) \<le> 2" by (auto simp: boundedStream_def queueBytes_def queueLimit_def)
  then have "length (queueBytes s) \<le> 2 * chunkLimit" by (meson le_trans mult_le_mono1)
  moreover have "length (handBytes s) \<le> chunkLimit" using i(2) by (auto simp: boundedStream_def handBytes_def split: option.splits)
  ultimately show ?thesis using i(1) stream_progress[OF i(1)] by (simp add: streamInv_def chunkLimit_def)
qed

text \<open>A sequence of operations.\<close>

definition runOps :: "(responseStream \<Rightarrow> responseStream option) list \<Rightarrow> responseStream \<Rightarrow> responseStream option" where
  "runOps fs s = fold (\<lambda>f x. Option.bind x f) fs (Some s)"

lemma runOps_Cons: "runOps (f # fs) s = (case f s of None \<Rightarrow> None | Some t \<Rightarrow> runOps fs t)"
proof -
  have "fold (\<lambda>f x. Option.bind x f) fs None = None" by (induction fs) simp_all
  then show ?thesis by (cases "f s") (simp_all add: runOps_def)
qed

lemma runOps_reach: "\<forall>f \<in> set fs. \<forall>s t. f s = Some t \<longrightarrow> stream_step tells s t \<Longrightarrow> runOps fs s = Some t \<Longrightarrow> stream_reach tells s \<Longrightarrow> stream_reach tells t"
proof (induction fs arbitrary: s)
  case Nil
  then show ?case by (simp add: runOps_def)
next
  case (Cons f fs)
  obtain s1 where s1: "f s = Some s1" "runOps fs s1 = Some t" using Cons.prems(2) by (cases "f s") (simp_all add: runOps_Cons)
  then have "stream_step tells s s1" using Cons.prems(1) by simp
  then have "stream_reach tells s1" using Cons.prems(3) stream_reach.step by blast
  then show ?case using Cons.IH[OF _ s1(2)] Cons.prems(1) by simp
qed

theorem streamed_response_is_whole_witness:
  "\<exists>s. stream_reach True s \<and> pp_ended s = Some None \<and> pp_read s = [1, 2] \<and> pp_offered s = [1, 2] \<and> \<not> pp_failed s"
proof -
  let ?ops = "[startWrite [1, 2], sendChunk, pumpTake, readPipe 1, readPipe 1, \<lambda>s. if pp_failed s then None else finishStream None s, pumpTake, readEnd]"
  have ops: "\<forall>f \<in> set ?ops. \<forall>s t. f s = Some t \<longrightarrow> stream_step True s t"
    by (auto intro: stream_step.intros split: if_splits)
  have "case runOps ?ops newResponseStream of None \<Rightarrow> False | Some t \<Rightarrow> pp_ended t = Some None \<and> pp_offered t = [1, 2]"
    by (simp add: runOps_def stream_ops newResponseStream_def queueLimit_def chunkLimit_def closeWith_def)
  then obtain t where t: "runOps ?ops newResponseStream = Some t" "pp_ended t = Some None" "pp_offered t = [1, 2]"
    by (cases "runOps ?ops newResponseStream") auto
  have "stream_reach True t" by (rule runOps_reach[OF ops t(1) stream_reach.start])
  with t(2,3) streamed_response_is_whole[OF this] show ?thesis by auto
qed

text \<open>A writer that does not tell lets a cut response end like a whole one: the source fails after one byte, and the reader sees the
  end of the file.\<close>

lemma untold_failure_ends_cleanly:
  "\<exists>s. stream_reach False s \<and> pp_failed s \<and> pp_read s = [1] \<and> pp_ended s = Some None"
proof -
  let ?ops = "[startWrite [1], sendChunk, sourceFails, finishStream None, pumpTake, readPipe 1, pumpTake, readEnd]"
  have ops: "\<forall>f \<in> set ?ops. \<forall>s t. f s = Some t \<longrightarrow> stream_step False s t"
    by (auto intro: stream_step.intros)
  have "case runOps ?ops newResponseStream of None \<Rightarrow> False | Some t \<Rightarrow> pp_failed t \<and> pp_read t = [1] \<and> pp_ended t = Some None"
    by (simp add: runOps_def stream_ops newResponseStream_def queueLimit_def chunkLimit_def closeWith_def)
  then obtain t where t: "runOps ?ops newResponseStream = Some t" "pp_failed t" "pp_read t = [1]" "pp_ended t = Some None"
    by (cases "runOps ?ops newResponseStream") auto
  have "stream_reach False t" by (rule runOps_reach[OF ops t(1) stream_reach.start])
  with t show ?thesis by blast
qed

end
