(* ===== verification/Rest_Routes.thy ===== *)
theory Rest_Routes
  imports Go_Strings Go_Net "HOL-Library.Sublist"
begin

text \<open>
  The capability table (\<open>internal/capabilities\<close>: \<open>capability.go\<close>, \<open>id.go\<close>,
  \<open>scopes.go\<close>, \<open>catalog.go\<close>, \<open>compat.go\<close>, \<open>registry.go\<close>) and the router of the
  management API over it (\<open>internal/control/rest/mux.go\<close>). Of a row the titles, descriptions, schema
  names and the version tag, which only documentation reads, are left out. A slice expression whose
  bounds cross is a panic of the match, not an unspecified value. It ends with the facts the
  authorization of requests rests on: the table is well-formed and no request fits two routes.
\<close>

subsection \<open>Rows of the table (capability.go)\<close>

record RESTBinding =
  rb_Method :: string
  rb_Path :: string

record MCPBinding =
  mb_Tools :: "string list"
  mb_Resources :: "string list"

record Capability =
  cp_ID :: string
  cp_RequiredScopes :: "string list"
  cp_Mutating :: bool
  cp_Idempotent :: bool
  cp_RESTOnly :: bool
  cp_DifferentBinding :: bool
  cp_REST :: "RESTBinding list"
  cp_MCP :: "MCPBinding option"
  cp_ServiceMethods :: "string list"

definition RESTRef :: "RESTBinding \<Rightarrow> string" where
  "RESTRef b = (if rb_Method b = '''' then rb_Path b else rb_Method b @ '' '' @ rb_Path b)"

definition mkCap :: "string \<Rightarrow> string list \<Rightarrow> bool \<Rightarrow> bool \<Rightarrow> bool \<Rightarrow> bool \<Rightarrow> string \<Rightarrow> string \<Rightarrow> MCPBinding option \<Rightarrow> string list \<Rightarrow> Capability" where
  "mkCap i scopes mutating idempotent restOnly differentBinding method path mcp methods =
     \<lparr>cp_ID = i, cp_RequiredScopes = scopes, cp_Mutating = mutating, cp_Idempotent = idempotent, cp_RESTOnly = restOnly,
      cp_DifferentBinding = differentBinding, cp_REST = [\<lparr>rb_Method = method, rb_Path = path\<rparr>], cp_MCP = mcp, cp_ServiceMethods = methods\<rparr>"

subsection \<open>The tables (catalog.go, compat.go)\<close>

text \<open>The flags of a row are in the order mutating, idempotent, REST-only, different binding.\<close>

definition catalog :: "Capability list" where
  "catalog = [
     mkCap ''health.live'' [] False True True False ''GET'' ''/v1/health/live''
       None [],
     mkCap ''health.ready'' [] False True True False ''GET'' ''/v1/health/ready''
       None [],
     mkCap ''version.get'' [''mitm.read''] False True False False ''GET'' ''/v1/version''
       (Some \<lparr>mb_Tools = [''mitm_version_get''], mb_Resources = []\<rparr>) [''Version''],
     mkCap ''capabilities.get'' [''mitm.read''] False True False False ''GET'' ''/v1/capabilities''
       (Some \<lparr>mb_Tools = [''mitm_capabilities_get''], mb_Resources = [''labmitm://capabilities'']\<rparr>) [''Capabilities''],
     mkCap ''status.get'' [''mitm.read''] False True False False ''GET'' ''/v1/status''
       (Some \<lparr>mb_Tools = [''mitm_status_get''], mb_Resources = [''labmitm://status'']\<rparr>) [''Status''],
     mkCap ''features.get'' [''mitm.read''] False True False False ''GET'' ''/v1/features''
       (Some \<lparr>mb_Tools = [''mitm_features_list''], mb_Resources = [''labmitm://features'']\<rparr>) [''Features''],
     mkCap ''schema.get'' [''mitm.read''] False True False False ''GET'' ''/v1/schema/config''
       (Some \<lparr>mb_Tools = [''mitm_schema_get''], mb_Resources = [''labmitm://schema/config'']\<rparr>) [''ConfigSchema''],
     mkCap ''state.get'' [''mitm.read''] False True False False ''GET'' ''/v1/state''
       (Some \<lparr>mb_Tools = [''mitm_state_get''], mb_Resources = [''labmitm://state'']\<rparr>) [''GetState''],
     mkCap ''state.validate'' [''mitm.admin''] False True False False ''POST'' ''/v1/state:validate''
       (Some \<lparr>mb_Tools = [''mitm_state_validate''], mb_Resources = []\<rparr>) [''Validate''],
     mkCap ''state.export'' [''mitm.admin''] False True False False ''GET'' ''/v1/state:export''
       (Some \<lparr>mb_Tools = [''mitm_state_export''], mb_Resources = []\<rparr>) [''Export''],
     mkCap ''state.reset'' [''mitm.admin''] True False False False ''POST'' ''/v1/state:reset''
       (Some \<lparr>mb_Tools = [''mitm_state_reset''], mb_Resources = []\<rparr>) [''Reset''],
     mkCap ''changes.plan'' [''mitm.admin''] False True False False ''POST'' ''/v1/changes:plan''
       (Some \<lparr>mb_Tools = [''mitm_change_plan''], mb_Resources = []\<rparr>) [''Plan''],
     mkCap ''changes.apply'' [''mitm.admin''] True True False False ''POST'' ''/v1/changes:apply''
       (Some \<lparr>mb_Tools = [''mitm_change_apply''], mb_Resources = []\<rparr>) [''Apply''],
     mkCap ''session.create'' [] True False True False ''POST'' ''/v1/session''
       None [],
     mkCap ''session.delete'' [] True True True False ''DELETE'' ''/v1/session''
       None [],
     mkCap ''session.get'' [] False True True False ''GET'' ''/v1/session''
       None [],
     mkCap ''events.stream'' [''mitm.read''] False True False True ''GET'' ''/v1/events/stream''
       (Some \<lparr>mb_Tools = [], mb_Resources = [''labmitm://flows'']\<rparr>) [''Subscribe''],
     mkCap ''flows.list'' [''mitm.read''] False True False False ''GET'' ''/v1/flows''
       (Some \<lparr>mb_Tools = [''mitm_flows_list''], mb_Resources = [''labmitm://flows'']\<rparr>) [''ListFlows''],
     mkCap ''flows.get'' [''mitm.read''] False True False False ''GET'' ''/v1/flows/{id}''
       (Some \<lparr>mb_Tools = [''mitm_flow_get''], mb_Resources = [''labmitm://flows/{id}'']\<rparr>) [''GetFlow''],
     mkCap ''flows.request'' [''mitm.read''] False True False False ''GET'' ''/v1/flows/{id}/request''
       (Some \<lparr>mb_Tools = [''mitm_flow_request_get''], mb_Resources = []\<rparr>) [''GetFlow''],
     mkCap ''flows.response'' [''mitm.read''] False True False False ''GET'' ''/v1/flows/{id}/response''
       (Some \<lparr>mb_Tools = [''mitm_flow_response_get''], mb_Resources = []\<rparr>) [''GetFlow''],
     mkCap ''flows.delete'' [''mitm.write''] True True False False ''DELETE'' ''/v1/flows/{id}''
       (Some \<lparr>mb_Tools = [''mitm_flow_delete''], mb_Resources = []\<rparr>) [''DeleteFlow''],
     mkCap ''flows.clear'' [''mitm.write''] True True False False ''DELETE'' ''/v1/flows''
       (Some \<lparr>mb_Tools = [''mitm_flows_clear''], mb_Resources = []\<rparr>) [''ClearFlows''],
     mkCap ''flows.wait'' [''mitm.read''] False True False False ''POST'' ''/v1/flows:wait''
       (Some \<lparr>mb_Tools = [''mitm_flows_wait''], mb_Resources = []\<rparr>) [''Wait''],
     mkCap ''flows.resume'' [''mitm.write''] True True False False ''POST'' ''/v1/flows/{id}:resume''
       (Some \<lparr>mb_Tools = [''mitm_flow_resume''], mb_Resources = []\<rparr>) [''Resume''],
     mkCap ''flows.drop'' [''mitm.write''] True True False False ''POST'' ''/v1/flows/{id}:drop''
       (Some \<lparr>mb_Tools = [''mitm_flow_drop''], mb_Resources = []\<rparr>) [''Drop''],
     mkCap ''flows.replay'' [''mitm.write''] True False False False ''POST'' ''/v1/flows/{id}:replay''
       (Some \<lparr>mb_Tools = [''mitm_flow_replay''], mb_Resources = []\<rparr>) [''Replay''],
     mkCap ''ca.get'' [''mitm.read''] False True False False ''GET'' ''/v1/ca''
       (Some \<lparr>mb_Tools = [''mitm_ca_get''], mb_Resources = [''labmitm://ca'']\<rparr>) [''GetCA''],
     mkCap ''audit.list'' [''mitm.audit.read''] False True False False ''GET'' ''/v1/audit''
       (Some \<lparr>mb_Tools = [''mitm_audit_query''], mb_Resources = [''labmitm://audit/recent'']\<rparr>) [''QueryAudit''],
     mkCap ''audit.get'' [''mitm.audit.read''] False True False False ''GET'' ''/v1/audit/{eventId}''
       (Some \<lparr>mb_Tools = [''mitm_audit_get''], mb_Resources = []\<rparr>) [''GetAudit''],
     mkCap ''metrics.get'' [''mitm.read''] False True True False ''GET'' ''/v1/metrics''
       None []]"

definition compatDefaultPrefix :: string where "compatDefaultPrefix = ''/compat''"

definition CompatBindings :: "Capability list" where
  "CompatBindings = [
     mkCap ''flows.list'' [''mitm.read''] False True True False ''GET'' ''/compat/flows''
       None [''ListFlows''],
     mkCap ''flows.get'' [''mitm.read''] False True True False ''GET'' ''/compat/flows/{id}''
       None [''GetFlow''],
     mkCap ''flows.delete'' [''mitm.write''] True True True False ''DELETE'' ''/compat/flows/{id}''
       None [''DeleteFlow''],
     mkCap ''flows.clear'' [''mitm.write''] True True True False ''DELETE'' ''/compat/flows''
       None [''ClearFlows''],
     mkCap ''flows.replay'' [''mitm.write''] True False True False ''POST'' ''/compat/flows/{id}/replay''
       None [''Replay''],
     mkCap ''flows.request'' [''mitm.read''] False True True False ''GET'' ''/compat/flows/{id}/content/request''
       None [''GetFlow''],
     mkCap ''flows.response'' [''mitm.read''] False True True False ''GET'' ''/compat/flows/{id}/content/response''
       None [''GetFlow'']]"

subsection \<open>The registry (registry.go)\<close>

definition TableRowCount :: nat where "TableRowCount = 31"

record indexes =
  ix_all :: "Capability list"
  ix_byID :: "(string, Capability) gomap"
  ix_byREST :: "(string, Capability) gomap"
  ix_byTool :: "(string, Capability list) gomap"
  ix_byRes :: "(string, Capability) gomap"

text \<open>\<open>None\<close> is the panic of \<open>newIndexes\<close> on a duplicate identifier or binding.\<close>

fun indexREST :: "Capability \<Rightarrow> RESTBinding list \<Rightarrow> (string, Capability) gomap \<Rightarrow> (string, Capability) gomap option" where
  "indexREST c [] m = Some m"
| "indexREST c (b # bs) m =
     (if map_of m (RESTRef b) \<noteq> None then None else indexREST c bs (AList.update (RESTRef b) c m))"

definition indexTool :: "Capability \<Rightarrow> string \<Rightarrow> (string, Capability list) gomap \<Rightarrow> (string, Capability list) gomap" where
  "indexTool c t m = AList.update t ((case map_of m t of None \<Rightarrow> [] | Some cs \<Rightarrow> cs) @ [c]) m"

definition indexRes :: "Capability \<Rightarrow> string \<Rightarrow> (string, Capability) gomap \<Rightarrow> (string, Capability) gomap" where
  "indexRes c r m = (if map_of m r \<noteq> None then m else AList.update r c m)"

fun indexRows :: "Capability list \<Rightarrow> indexes \<Rightarrow> indexes option" where
  "indexRows [] ix = Some ix"
| "indexRows (c # cs) ix =
     (if map_of (ix_byID ix) (cp_ID c) \<noteq> None then None
      else case indexREST c (cp_REST c) (ix_byREST ix) of None \<Rightarrow> None
      | Some rest \<Rightarrow>
        let ix1 = ix\<lparr>ix_byID := AList.update (cp_ID c) c (ix_byID ix), ix_byREST := rest\<rparr>
        in indexRows cs (case cp_MCP c of None \<Rightarrow> ix1
             | Some m \<Rightarrow> ix1\<lparr>ix_byTool := fold (indexTool c) (mb_Tools m) (ix_byTool ix1),
                            ix_byRes := fold (indexRes c) (mb_Resources m) (ix_byRes ix1)\<rparr>))"

definition newIndexes :: "indexes option" where
  "newIndexes = indexRows catalog \<lparr>ix_all = catalog, ix_byID = [], ix_byREST = [], ix_byTool = [], ix_byRes = []\<rparr>"

definition LookupREST :: "indexes \<Rightarrow> string \<Rightarrow> string \<Rightarrow> Capability option" where
  "LookupREST ix method path = map_of (ix_byREST ix) (RESTRef \<lparr>rb_Method = method, rb_Path = path\<rparr>)"

definition LookupTool :: "indexes \<Rightarrow> string \<Rightarrow> Capability list" where
  "LookupTool ix name = (case map_of (ix_byTool ix) name of None \<Rightarrow> [] | Some cs \<Rightarrow> cs)"

definition LookupResource :: "indexes \<Rightarrow> string \<Rightarrow> Capability option" where
  "LookupResource ix uri = map_of (ix_byRes ix) uri"

definition SessionCapability :: "string \<Rightarrow> bool" where
  "SessionCapability i \<longleftrightarrow> i \<in> {''session.create'', ''session.delete'', ''session.get''}"

text \<open>The structural test the package runs when it is loaded; \<open>True\<close> is the nil error. The tests for
  an empty title and version concern fields that are left out.\<close>

definition rowValid :: "Capability \<Rightarrow> bool" where
  "rowValid c =
     (if cp_ID c = '''' then False
      else if cp_REST c = [] then False
      else if cp_RESTOnly c then (case cp_MCP c of None \<Rightarrow> True | Some m \<Rightarrow> \<not> (mb_Tools m \<noteq> [] \<or> mb_Resources m \<noteq> []))
      else if cp_DifferentBinding c then (case cp_MCP c of None \<Rightarrow> False | Some m \<Rightarrow> \<not> (mb_Tools m = [] \<and> mb_Resources m = []))
      else (case cp_MCP c of None \<Rightarrow> False | Some m \<Rightarrow> mb_Tools m \<noteq> []))"

definition ValidateCatalog :: "Capability list \<Rightarrow> bool" where
  "ValidateCatalog rows = (if length rows \<noteq> TableRowCount then False else list_all rowValid rows)"

subsection \<open>Routes (mux.go)\<close>

record pathSeg =
  sg_wild :: string
  sg_lit :: string
  sg_suffix :: string

record compiledRoute =
  rt_method :: string
  rt_path :: string
  rt_segs :: "pathSeg list"
  rt_cap :: Capability
  rt_binding :: RESTBinding

text \<open>Upper-casing is Go's on ASCII text and an argument outside.\<close>

definition upperByte :: "char \<Rightarrow> char" where
  "upperByte c = (if 97 \<le> code c \<and> code c \<le> 122 then char_of (code c - 32) else c)"

definition ToUpper :: "(string \<Rightarrow> string) \<Rightarrow> string \<Rightarrow> string" where
  "ToUpper up s = (if isASCII s then map upperByte s else up s)"

definition compileSeg :: "string \<Rightarrow> pathSeg" where
  "compileSeg p =
     (case (IndexByte p (CHR ''{''), IndexByte p (CHR ''}'')) of
        (Some open, Some close) \<Rightarrow>
          if open < close then \<lparr>sg_wild = take (close - (open + 1)) (drop (open + 1) p), sg_lit = take open p, sg_suffix = drop (close + 1) p\<rparr>
          else \<lparr>sg_wild = '''', sg_lit = p, sg_suffix = ''''\<rparr>
      | _ \<Rightarrow> \<lparr>sg_wild = '''', sg_lit = p, sg_suffix = ''''\<rparr>)"

definition compilePath :: "string \<Rightarrow> pathSeg list" where
  "compilePath path =
     (let p = TrimPrefix path ''/'' in if p = '''' then [] else map compileSeg (SplitByte (CHR ''/'') p))"

definition compileRoutes :: "(string \<Rightarrow> string) \<Rightarrow> Capability list \<Rightarrow> compiledRoute list" where
  "compileRoutes up caps = concat (map (\<lambda>c. map (\<lambda>b.
     \<lparr>rt_method = ToUpper up (rb_Method b), rt_path = rb_Path b, rt_segs = compilePath (rb_Path b), rt_cap = c, rt_binding = b\<rparr>) (cp_REST c)) caps)"

datatype segMatch = NoMatch | SlicePanic | SegMatch "(string, string) gomap"

fun matchParts :: "pathSeg list \<Rightarrow> string list \<Rightarrow> (string, string) gomap \<Rightarrow> segMatch" where
  "matchParts (seg # segs) (p # parts) params =
     (if sg_wild seg = '''' then (if p \<noteq> sg_lit seg then NoMatch else matchParts segs parts params)
      else if \<not> HasPrefix p (sg_lit seg) \<or> \<not> HasSuffix p (sg_suffix seg) then NoMatch
      else if length p < length (sg_lit seg) + length (sg_suffix seg) then SlicePanic
      else let val = take (length p - length (sg_suffix seg) - length (sg_lit seg)) (drop (length (sg_lit seg)) p)
           in if val = '''' then NoMatch else matchParts segs parts (AList.update (sg_wild seg) val params))"
| "matchParts _ _ params = SegMatch params"

definition pathParts :: "string \<Rightarrow> string list" where
  "pathParts path = (let p = TrimPrefix path ''/'' in if p = '''' then [] else SplitByte (CHR ''/'') p)"

definition matchSegs :: "pathSeg list \<Rightarrow> string \<Rightarrow> segMatch" where
  "matchSegs segs path =
     (let parts = pathParts path in if length parts \<noteq> length segs then NoMatch else matchParts segs parts [])"

text \<open>What \<open>matchRoute\<close> found: nothing, the last route with this path for other methods, or the route.\<close>

datatype routeMatch = NoRoute | RoutePanic | WrongMethod compiledRoute | Routed compiledRoute "(string, string) gomap"

fun matchLoop :: "compiledRoute list \<Rightarrow> string \<Rightarrow> string \<Rightarrow> compiledRoute option \<Rightarrow> routeMatch" where
  "matchLoop [] method path pathHit = (case pathHit of None \<Rightarrow> NoRoute | Some rt \<Rightarrow> WrongMethod rt)"
| "matchLoop (rt # routes) method path pathHit =
     (case matchSegs (rt_segs rt) path of
        NoMatch \<Rightarrow> matchLoop routes method path pathHit
      | SlicePanic \<Rightarrow> RoutePanic
      | SegMatch params \<Rightarrow> if rt_method rt = method then Routed rt params else matchLoop routes method path (Some rt))"

definition matchRoute :: "(string \<Rightarrow> string) \<Rightarrow> compiledRoute list \<Rightarrow> string \<Rightarrow> string \<Rightarrow> routeMatch" where
  "matchRoute up routes method path = matchLoop routes (ToUpper up method) path None"

definition allowedMethods :: "compiledRoute list \<Rightarrow> string \<Rightarrow> string list" where
  "allowedMethods routes path =
     fold (\<lambda>rt methods. case matchSegs (rt_segs rt) path of
        SegMatch _ \<Rightarrow> if rt_method rt \<in> set methods then methods else methods @ [rt_method rt]
      | _ \<Rightarrow> methods) routes []"

subsection \<open>No request fits two routes\<close>

definition segFits :: "pathSeg \<Rightarrow> string \<Rightarrow> bool" where
  "segFits seg p \<longleftrightarrow> (if sg_wild seg = '''' then p = sg_lit seg else HasPrefix p (sg_lit seg) \<and> HasSuffix p (sg_suffix seg))"

lemma matchParts_fits:
  "matchParts segs parts params = SegMatch params' \<Longrightarrow> length parts = length segs \<Longrightarrow> list_all2 segFits segs parts"
proof (induction segs parts params rule: matchParts.induct)
  case (1 seg segs p parts params)
  from 1(3) have "segFits seg p" by (auto simp: segFits_def Let_def split: if_splits)
  with 1 show ?case by (auto simp: Let_def split: if_splits)
qed auto

lemma HasPrefix_prefix: "HasPrefix s p \<longleftrightarrow> prefix p s"
  by (auto simp: HasPrefix_def prefix_def) (metis append_take_drop_id)

lemma HasSuffix_suffix: "HasSuffix s p \<longleftrightarrow> suffix p s"
  by (auto simp: HasSuffix_def suffix_def) (metis append_take_drop_id)

text \<open>A test on two segments, and on two routes, that no part and no path can fit both.\<close>

definition segsApart :: "pathSeg \<Rightarrow> pathSeg \<Rightarrow> bool" where
  "segsApart a b \<longleftrightarrow>
     (if sg_wild a = '''' then \<not> segFits b (sg_lit a)
      else if sg_wild b = '''' then \<not> segFits a (sg_lit b)
      else \<not> HasSuffix (sg_suffix a) (sg_suffix b) \<and> \<not> HasSuffix (sg_suffix b) (sg_suffix a)
           \<or> \<not> HasPrefix (sg_lit a) (sg_lit b) \<and> \<not> HasPrefix (sg_lit b) (sg_lit a))"

lemma segsApart: "segsApart a b \<Longrightarrow> segFits a p \<Longrightarrow> \<not> segFits b p"
proof (rule notI)
  assume s: "segsApart a b" "segFits a p" "segFits b p"
  show False
  proof (cases "sg_wild a = '''' \<or> sg_wild b = ''''")
    case True
    with s show False by (auto simp: segsApart_def segFits_def split: if_splits)
  next
    case False
    with s(2,3) have "HasPrefix p (sg_lit a)" "HasPrefix p (sg_lit b)" "HasSuffix p (sg_suffix a)" "HasSuffix p (sg_suffix b)"
      by (auto simp: segFits_def)
    with False s(1) show False
      unfolding segsApart_def HasPrefix_prefix HasSuffix_suffix
      by (auto dest: suffix_same_cases prefix_same_cases)
  qed
qed

fun segListsApart :: "pathSeg list \<Rightarrow> pathSeg list \<Rightarrow> bool" where
  "segListsApart (a # as) (b # bs) = (segsApart a b \<or> segListsApart as bs)"
| "segListsApart [] [] = False"
| "segListsApart _ _ = True"

lemma segListsApart: "segListsApart as bs \<Longrightarrow> list_all2 segFits as ps \<Longrightarrow> \<not> list_all2 segFits bs ps"
proof (induction as bs arbitrary: ps rule: segListsApart.induct)
  case (1 a as b bs)
  then show ?case using segsApart by (cases ps) auto
qed auto

lemma matchSegs_fits: "matchSegs segs path = SegMatch params \<Longrightarrow> list_all2 segFits segs (pathParts path)"
  by (auto simp: matchSegs_def Let_def matchParts_fits split: if_splits)

fun routesApart :: "compiledRoute list \<Rightarrow> bool" where
  "routesApart [] = True"
| "routesApart (r # rs) = (list_all (\<lambda>q. rt_method r \<noteq> rt_method q \<or> segListsApart (rt_segs r) (rt_segs q)) rs \<and> routesApart rs)"

lemma apart_not_both:
  "segListsApart (rt_segs r) (rt_segs q) \<Longrightarrow> matchSegs (rt_segs r) path = SegMatch ps \<Longrightarrow> matchSegs (rt_segs q) path \<noteq> SegMatch qs"
  using matchSegs_fits segListsApart by metis

lemma routesApart_unique:
  assumes "routesApart rts" and "r \<in> set rts" "q \<in> set rts" and "rt_method r = rt_method q"
    and "matchSegs (rt_segs r) path = SegMatch ps" "matchSegs (rt_segs q) path = SegMatch qs"
  shows "r = q"
  using assms
proof (induction rts)
  case (Cons x rts)
  show ?case
  proof (cases "r = x \<or> q = x")
    case True
    with Cons.prems apart_not_both[of x _ path] show ?thesis by (fastforce simp: list_all_iff)
  next
    case False
    with Cons show ?thesis by simp
  qed
qed simp

text \<open>A segment with text before its wildcard could make the slice of the match panic; none has.\<close>

definition segSafe :: "pathSeg \<Rightarrow> bool" where
  "segSafe seg \<longleftrightarrow> sg_wild seg = '''' \<or> sg_lit seg = ''''"

lemma matchParts_no_panic: "list_all segSafe segs \<Longrightarrow> matchParts segs parts params \<noteq> SlicePanic"
proof (induction segs parts params rule: matchParts.induct)
  case (1 seg segs p parts params)
  then show ?case by (auto simp: segSafe_def Let_def HasSuffix_def)
qed auto

lemma matchSegs_no_panic: "list_all segSafe segs \<Longrightarrow> matchSegs segs path \<noteq> SlicePanic"
  by (simp add: matchSegs_def Let_def matchParts_no_panic)

lemma matchLoop_no_panic:
  "list_all (\<lambda>rt. list_all segSafe (rt_segs rt)) rts \<Longrightarrow> matchLoop rts method path hit \<noteq> RoutePanic"
  by (induction rts arbitrary: hit) (auto simp: matchSegs_no_panic split: segMatch.splits option.splits)

lemma matchLoop_routed:
  "matchLoop rts method path hit = Routed rt params \<Longrightarrow> rt \<in> set rts \<and> rt_method rt = method \<and> matchSegs (rt_segs rt) path = SegMatch params"
  by (induction rts arbitrary: hit) (auto split: segMatch.splits option.splits if_splits)

lemma matchLoop_complete:
  assumes "list_all (\<lambda>rt. list_all segSafe (rt_segs rt)) rts"
    and "rt \<in> set rts" and "rt_method rt = method" and "matchSegs (rt_segs rt) path = SegMatch params"
  shows "\<exists>rt' params'. matchLoop rts method path hit = Routed rt' params'"
  using assms
  by (induction rts arbitrary: hit) (auto simp: matchSegs_no_panic split: segMatch.splits)

end
