(* ===== verification/Domain_Err.thy ===== *)
theory Domain_Err
  imports Go_Strings
begin

text \<open>
  Domain errors and how the two transports show them (\<open>internal/domainerr/code.go\<close>,
  \<open>internal/capabilities/errors.go\<close>). Of an error its code is kept; messages and remediation hints
  are left out.
\<close>

datatype Code =
    CodeValidationFailed
  | CodeUnauthenticated
  | CodeForbidden
  | CodeTargetDenied
  | CodeNotFound
  | CodeMethodNotAllowed
  | CodeRevisionConflict
  | CodeIdempotencyConflict
  | CodeStoreFull
  | CodeStoreOverNewCap
  | CodeCursorStale
  | CodeBreakpointInactive
  | CodeRateLimited
  | CodeTimeout
  | CodeInternalError

primrec codeName :: "Code \<Rightarrow> string" where
  "codeName CodeValidationFailed = ''validation_failed''"
| "codeName CodeUnauthenticated = ''unauthenticated''"
| "codeName CodeForbidden = ''forbidden''"
| "codeName CodeTargetDenied = ''target_denied''"
| "codeName CodeNotFound = ''not_found''"
| "codeName CodeMethodNotAllowed = ''method_not_allowed''"
| "codeName CodeRevisionConflict = ''revision_conflict''"
| "codeName CodeIdempotencyConflict = ''idempotency_conflict''"
| "codeName CodeStoreFull = ''store_full''"
| "codeName CodeStoreOverNewCap = ''store_over_new_cap''"
| "codeName CodeCursorStale = ''cursor_stale''"
| "codeName CodeBreakpointInactive = ''breakpoint_inactive''"
| "codeName CodeRateLimited = ''rate_limited''"
| "codeName CodeTimeout = ''timeout''"
| "codeName CodeInternalError = ''internal_error''"

definition errCatalog :: "(Code \<times> bool) list" where
  "errCatalog =
     [(CodeValidationFailed, False), (CodeUnauthenticated, False), (CodeForbidden, False), (CodeTargetDenied, False),
      (CodeNotFound, False), (CodeMethodNotAllowed, False), (CodeRevisionConflict, True), (CodeIdempotencyConflict, False),
      (CodeStoreFull, True), (CodeStoreOverNewCap, False), (CodeCursorStale, False), (CodeBreakpointInactive, False),
      (CodeRateLimited, True), (CodeTimeout, True), (CodeInternalError, True)]"

definition Codes :: "Code list" where
  "Codes = map fst errCatalog"

definition Retryable :: "Code \<Rightarrow> bool" where
  "Retryable c = (case map_of errCatalog c of None \<Rightarrow> False | Some r \<Rightarrow> r)"

text \<open>The table: HTTP status, JSON-RPC code, title.\<close>

definition errorMap :: "(Code \<times> int \<times> int \<times> string) list" where
  "errorMap =
     [(CodeValidationFailed, 400, -32602, ''Validation failed''), (CodeUnauthenticated, 401, -32001, ''Unauthenticated''),
      (CodeForbidden, 403, -32003, ''Forbidden''), (CodeTargetDenied, 403, -32003, ''Target denied''),
      (CodeNotFound, 404, -32004, ''Not Found''), (CodeMethodNotAllowed, 405, -32601, ''Method not allowed''),
      (CodeRevisionConflict, 409, -32009, ''State revision conflict''), (CodeIdempotencyConflict, 409, -32009, ''Idempotency key conflict''),
      (CodeStoreFull, 409, -32009, ''Store full''), (CodeStoreOverNewCap, 400, -32602, ''Store over new cap''),
      (CodeCursorStale, 400, -32602, ''Cursor stale''), (CodeBreakpointInactive, 409, -32009, ''Breakpoint inactive''),
      (CodeRateLimited, 429, -32005, ''Rate limited''), (CodeTimeout, 504, -32010, ''Timeout''),
      (CodeInternalError, 500, -32603, ''Internal error'')]"

definition lookupMapping :: "Code \<Rightarrow> int \<times> int \<times> string" where
  "lookupMapping c = (case map_of errorMap c of Some m \<Rightarrow> m | None \<Rightarrow> (500, -32603, ''Internal error''))"

definition HTTPStatus :: "Code \<Rightarrow> int" where
  "HTTPStatus c = fst (lookupMapping c)"

definition JSONRPCCode :: "Code \<Rightarrow> int" where
  "JSONRPCCode c = fst (snd (lookupMapping c))"

definition TitleFor :: "Code \<Rightarrow> string" where
  "TitleFor c = snd (snd (lookupMapping c))"

definition ProblemTypeURN :: "Code \<Rightarrow> string" where
  "ProblemTypeURN c = ''urn:labmitm:error:'' @ map (\<lambda>x. if x = CHR ''_'' then CHR ''-'' else x) (codeName c)"

lemma statuses_agree: "HTTPStatus c \<in> {400, 401, 403, 404, 405, 409, 429, 500, 504} \<and> (Retryable c \<longrightarrow> HTTPStatus c \<in> {409, 429, 500, 504})"
  by (cases c) (simp_all add: HTTPStatus_def lookupMapping_def errorMap_def Retryable_def errCatalog_def)

lemma every_code_listed: "set Codes = UNIV"
proof -
  have "c \<in> set Codes" for c by (cases c) (simp_all add: Codes_def errCatalog_def)
  then show ?thesis by blast
qed

end
