(* ===== verification/Rest_Serve.thy ===== *)
theory Rest_Serve
  imports Rest_Routes Domain_Err Auth_Session App_Mutate
begin

text \<open>
  The way of a management request to its handler (\<open>internal/auth/origin.go\<close>,
  \<open>internal/control/rest\<close>: \<open>auth.go\<close>, \<open>server.go\<close>, \<open>compat.go\<close>, \<open>spa.go\<close>):
  the origin check, the limits, routing, authentication by bearer, cookie or loopback address, and
  authorization with scopes and the CSRF token. Arguments: URL parsing, SHA-256, the verdict of the
  rate limiter (which computes in floating point), how many requests are in flight, which requests the
  mounted handlers take, and the clock. What the handlers do is not modelled.
\<close>

record restReq =
  rr_Method :: string
  rr_Path :: string
  rr_RemoteAddr :: string
  rr_Header :: "string \<Rightarrow> string"
  rr_Cookie :: "string option"

text \<open>\<open>rr_Header\<close> is \<open>Header.Get\<close>, \<open>rr_Cookie\<close> the value of the session cookie, if there is one.
  \<open>rv_urlParse\<close> gives scheme, host and host name of a URL; \<open>rv_gens\<close> the credential generation of any
  other verifier than the server's.\<close>

record rest_env =
  rv_go :: go_env
  rv_toUpper :: "string \<Rightarrow> string"
  rv_urlParse :: "string \<Rightarrow> (string \<times> string \<times> string) option"
  rv_sha256 :: "byte list \<Rightarrow> byte list"
  rv_now :: gotime
  rv_gens :: "nat \<Rightarrow> 64 word"
  rv_rateAllows :: "string \<Rightarrow> bool"
  rv_inflight :: nat
  rv_mounted :: "restReq \<Rightarrow> bool"

text \<open>The session table of a server made by \<open>New\<close> is never nil.\<close>

record restServer =
  sv_Auth :: "Verifier option"
  sv_authAddr :: nat
  sv_Sessions :: SessStore
  sv_AllowedOrigins :: "string list"
  sv_maxConcurrent :: nat
  sv_UI :: bool
  sv_UIEnabled :: "bool option"
  sv_PublicMetrics :: bool

definition DefaultMaxConcurrent :: int where "DefaultMaxConcurrent = 256"

definition newRestServer :: "Verifier option \<Rightarrow> nat \<Rightarrow> SessStore option \<Rightarrow> string list \<Rightarrow> int \<Rightarrow> bool \<Rightarrow> bool option \<Rightarrow> bool \<Rightarrow> restServer" where
  "newRestServer auth addr sessions origins maxConcurrent ui uiEnabled publicMetrics =
     \<lparr>sv_Auth = auth, sv_authAddr = addr,
      sv_Sessions = (case sessions of None \<Rightarrow> newSessStore DefaultSessionConfig | Some s \<Rightarrow> s),
      sv_AllowedOrigins = origins,
      sv_maxConcurrent = nat (if maxConcurrent \<le> 0 then DefaultMaxConcurrent else maxConcurrent),
      sv_UI = ui, sv_UIEnabled = uiEnabled, sv_PublicMetrics = publicMetrics\<rparr>"

definition serverGens :: "rest_env \<Rightarrow> restServer \<Rightarrow> nat \<Rightarrow> 64 word" where
  "serverGens ev sv a = (case sv_Auth sv of Some v \<Rightarrow> if a = sv_authAddr sv then vf_generation v else rv_gens ev a | None \<Rightarrow> rv_gens ev a)"

subsection \<open>Origins (origin.go)\<close>

definition ipIsLoopback :: "byte list \<Rightarrow> bool" where
  "ipIsLoopback ip = (case To4 ip of Some b \<Rightarrow> take 1 b = [127] | None \<Rightarrow> ip = replicate 15 0 @ [1])"

definition isLoopbackHost :: "go_env \<Rightarrow> string \<Rightarrow> bool" where
  "isLoopbackHost u host =
     (let h = TrimSpace u host
      in if h = ''localhost'' then True else case ParseIP h of None \<Rightarrow> False | Some ip \<Rightarrow> ipIsLoopback ip)"

definition trimSlashes :: "string \<Rightarrow> string" where
  "trimSlashes s = rev (dropWhile (\<lambda>c. c = CHR ''/'') (rev s))"

definition originMatches :: "go_env \<Rightarrow> string \<Rightarrow> string \<Rightarrow> bool" where
  "originMatches u got want = EqualFold u (trimSlashes (TrimSpace u got)) (trimSlashes (TrimSpace u want))"

definition CheckOrigin :: "rest_env \<Rightarrow> string \<Rightarrow> string list \<Rightarrow> Code option" where
  "CheckOrigin ev origin0 allowlist =
     (let origin = TrimSpace (rv_go ev) origin0
      in if origin = '''' then None
         else case rv_urlParse ev origin of None \<Rightarrow> Some CodeForbidden
         | Some (scheme, host, hostname) \<Rightarrow>
           if host = '''' then Some CodeForbidden
           else if ToLower (rv_go ev) scheme \<noteq> ''http'' \<and> ToLower (rv_go ev) scheme \<noteq> ''https'' then Some CodeForbidden
           else if isLoopbackHost (rv_go ev) hostname then None
           else if list_ex (originMatches (rv_go ev) origin) allowlist then None
           else Some CodeForbidden)"

subsection \<open>Authentication and authorization (auth.go)\<close>

definition actorOf :: "Principal \<Rightarrow> string \<Rightarrow> Actor" where
  "actorOf p transport = \<lparr>ac_ID = pn_ID p, ac_Class = pn_Class p, ac_Role = pn_Role p, ac_Scopes = pn_Scopes p, ac_Transport = transport\<rparr>"

definition probeActor :: Actor where
  "probeActor = \<lparr>ac_ID = ''probe'', ac_Class = ''startup'', ac_Role = '''', ac_Scopes = [], ac_Transport = ''rest''\<rparr>"

primrec authCode :: "auth_error \<Rightarrow> Code" where
  "authCode Unauthenticated = CodeUnauthenticated"
| "authCode (Forbidden _) = CodeForbidden"
| "authCode (AuthInvalid _) = CodeValidationFailed"
| "authCode AuthInternal = CodeInternalError"

text \<open>The principal is what the handler later finds in the context of the request.\<close>

definition bearerHeader :: "rest_env \<Rightarrow> restReq \<Rightarrow> string" where
  "bearerHeader ev r = TrimSpace (rv_go ev) (rr_Header r ''Authorization'')"

definition authenticate :: "rest_env \<Rightarrow> restReq \<Rightarrow> bool \<Rightarrow> restServer \<Rightarrow> restServer \<times> (Code + Actor \<times> Principal option)" where
  "authenticate ev r skip sv =
     (if skip then (sv, Inr (probeActor, None))
      else case sv_Auth sv of None \<Rightarrow> (sv, Inl CodeUnauthenticated)
      | Some v \<Rightarrow>
        let hdr = bearerHeader ev r;
            verify = (\<lambda>h. case Authenticate (rv_go ev) (rv_sha256 ev) (sv_authAddr sv) v \<lparr>rqa_Authorization = h, rqa_RemoteAddr = rr_RemoteAddr r\<rparr> of
               Inl e \<Rightarrow> Inl (authCode e) | Inr p \<Rightarrow> Inr (actorOf p ''rest'', Some p))
        in if hdr \<noteq> '''' then (sv, verify hdr)
           else case rr_Cookie r of
             Some c \<Rightarrow>
               if c \<noteq> '''' then
                 (case sessLookup (serverGens ev sv) (rv_now ev) c (sv_Sessions sv) of
                    (s', Some (sess, _)) \<Rightarrow>
                      let p = PrincipalFromSession sess in (sv\<lparr>sv_Sessions := s'\<rparr>, Inr (actorOf p ''rest'', Some p))
                  | (s', None) \<Rightarrow> (sv\<lparr>sv_Sessions := s'\<rparr>, verify ''''))
               else (sv, verify '''')
           | None \<Rightarrow> (sv, verify ''''))"

definition CSRFHeader :: string where "CSRFHeader = ''X-LabMITM-CSRF''"

definition authorize :: "rest_env \<Rightarrow> restReq \<Rightarrow> Actor \<Rightarrow> Capability \<Rightarrow> restServer \<Rightarrow> restServer \<times> Code option" where
  "authorize ev r actor cap sv =
     (if sv_Auth sv = None then (sv, Some CodeUnauthenticated)
      else case AuthorizeScopes (ac_Scopes actor) (cp_RequiredScopes cap) of Some e \<Rightarrow> (sv, Some (authCode e))
      | None \<Rightarrow>
        if \<not> UnsafeMethod (rr_Method r) then (sv, None)
        else if bearerHeader ev r \<noteq> '''' then (sv, None)
        else case rr_Cookie r of None \<Rightarrow> (sv, None)
        | Some c \<Rightarrow>
          if c = '''' then (sv, None)
          else case ValidCSRF (serverGens ev sv) (rv_sha256 ev) (rv_now ev) c (rr_Header r CSRFHeader) (sv_Sessions sv) of
            (s', ok) \<Rightarrow> (sv\<lparr>sv_Sessions := s'\<rparr>, if ok then None else Some CodeForbidden))"

subsection \<open>Paths of the configuration (compat.go, spa.go)\<close>

text \<open>\<open>path.Clean\<close> of a rooted path: the parts that count, joined again.\<close>

definition cleanStep :: "string \<Rightarrow> string list \<Rightarrow> string list" where
  "cleanStep part acc = (if part = '''' \<or> part = ''.'' then acc else if part = ''..'' then butlast acc else acc @ [part])"

definition cleanRooted :: "string \<Rightarrow> string" where
  "cleanRooted p = (let parts = fold cleanStep (SplitByte (CHR ''/'') p) []
                    in if parts = [] then ''/'' else concat (map (\<lambda>s. CHR ''/'' # s) parts))"

definition pathIsUnder :: "string \<Rightarrow> string \<Rightarrow> bool" where
  "pathIsUnder p0 pre0 =
     (let p = cleanRooted p0; pre = cleanRooted pre0
      in if pre = ''/'' then p = ''/'' else p = pre \<or> HasPrefix p (pre @ ''/''))"

definition liveFlowREST :: "go_env \<Rightarrow> Spec option \<Rightarrow> bool \<times> string" where
  "liveFlowREST u sp =
     (case sp of None \<Rightarrow> (False, compatDefaultPrefix)
      | Some s \<Rightarrow>
        let fr = cs_FlowREST (sp_Compat s); p = TrimSpace u (fr_PathPrefix fr)
        in (fr_Enabled fr, if p \<noteq> '''' then p else compatDefaultPrefix))"

definition compatMatchPath :: "go_env \<Rightarrow> Spec option \<Rightarrow> string \<Rightarrow> string" where
  "compatMatchPath u sp reqPath =
     (let pre = snd (liveFlowREST u sp)
      in if \<not> pathIsUnder reqPath pre then ''''
         else if pre = compatDefaultPrefix then reqPath
         else let trimmed = TrimPrefix reqPath pre
              in if trimmed = '''' then compatDefaultPrefix else compatDefaultPrefix @ trimmed)"

definition matchCompat :: "rest_env \<Rightarrow> Spec option \<Rightarrow> restReq \<Rightarrow> routeMatch" where
  "matchCompat ev sp r =
     (let p = compatMatchPath (rv_go ev) sp (rr_Path r)
      in if p = '''' then NoRoute else matchRoute (rv_toUpper ev) (compileRoutes (rv_toUpper ev) CompatBindings) (rr_Method r) p)"

definition compatAllowedMethods :: "rest_env \<Rightarrow> Spec option \<Rightarrow> string \<Rightarrow> string list" where
  "compatAllowedMethods ev sp reqPath =
     (let p = compatMatchPath (rv_go ev) sp reqPath
      in if p = '''' then [] else allowedMethods (compileRoutes (rv_toUpper ev) CompatBindings) p)"

definition liveManagementPaths :: "go_env \<Rightarrow> Spec option \<Rightarrow> string \<times> string \<times> string" where
  "liveManagementPaths u sp =
     (case sp of None \<Rightarrow> (''/v1'', ''/mcp'', compatDefaultPrefix)
      | Some s \<Rightarrow>
        let m = ls_Management (sp_Listeners s);
            orElse = (\<lambda>x d. if TrimSpace u x \<noteq> '''' then TrimSpace u x else d)
        in (orElse (ml_RESTPath m) ''/v1'', orElse (ml_MCPPath m) ''/mcp'',
            orElse (fr_PathPrefix (cs_FlowREST (sp_Compat s))) compatDefaultPrefix))"

definition reservedPath :: "string \<Rightarrow> bool" where
  "reservedPath p0 =
     (let p = cleanRooted p0
      in list_ex (\<lambda>d. p = d \<or> HasPrefix p (d @ ''/'')) [''/v1'', ''/mcp'', ''/healthz'', ''/config'', ''/.well-known''])"

definition reservedManagementPath :: "go_env \<Rightarrow> Spec option \<Rightarrow> string \<Rightarrow> bool" where
  "reservedManagementPath u sp p =
     (if reservedPath p then True
      else case liveManagementPaths u sp of (restPath, mcpPath, pre) \<Rightarrow>
        pathIsUnder p restPath \<or> pathIsUnder p mcpPath \<or> pathIsUnder p pre)"

subsection \<open>Serving (server.go)\<close>

text \<open>What becomes of a request: a problem, possibly with the \<open>Allow\<close> header, or the handler that takes it.\<close>

datatype restOut =
    ProblemOut Code
  | NotAllowedOut "string list"
  | MountOut
  | UIOut
  | DispatchOut Actor "Principal option" compiledRoute "(string, string) gomap"
  | CompatOut Actor compiledRoute "(string, string) gomap"

definition isHealthCap :: "Capability \<Rightarrow> bool" where
  "isHealthCap c \<longleftrightarrow> cp_ID c = ''health.live'' \<or> cp_ID c = ''health.ready''"

definition serveCompat :: "rest_env \<Rightarrow> Spec option \<Rightarrow> restReq \<Rightarrow> restServer \<Rightarrow> (restServer \<times> restOut) option" where
  "serveCompat ev sp r sv =
     (case matchCompat ev sp r of
        NoRoute \<Rightarrow> None
      | RoutePanic \<Rightarrow> Some (sv, ProblemOut CodeInternalError)
      | WrongMethod rt \<Rightarrow>
          Some (sv, if \<not> fst (liveFlowREST (rv_go ev) sp) then ProblemOut CodeNotFound else NotAllowedOut (compatAllowedMethods ev sp (rr_Path r)))
      | Routed rt params \<Rightarrow>
          Some (if \<not> fst (liveFlowREST (rv_go ev) sp) then (sv, ProblemOut CodeNotFound)
            else if \<not> rv_rateAllows ev (rr_RemoteAddr r) then (sv, ProblemOut CodeRateLimited)
            else case authenticate ev r False sv of
              (sv1, Inl e) \<Rightarrow> (sv1, ProblemOut e)
            | (sv1, Inr (actor, p)) \<Rightarrow>
              (case authorize ev r actor (rt_cap rt) sv1 of
                 (sv2, Some e) \<Rightarrow> (sv2, ProblemOut e)
               | (sv2, None) \<Rightarrow> (sv2, CompatOut actor rt params))))"

definition tryUI :: "rest_env \<Rightarrow> Spec option \<Rightarrow> restReq \<Rightarrow> restServer \<Rightarrow> restOut option" where
  "tryUI ev sp r sv =
     (if \<not> sv_UI sv \<or> reservedManagementPath (rv_go ev) sp (rr_Path r) then None
      else if sv_UIEnabled sv = Some False then None
      else if \<not> rv_rateAllows ev (rr_RemoteAddr r) then Some (ProblemOut CodeRateLimited)
      else Some UIOut)"

definition dispatchMount :: "rest_env \<Rightarrow> restReq \<Rightarrow> restOut option" where
  "dispatchMount ev r =
     (if \<not> rv_mounted ev r then None
      else if \<not> rv_rateAllows ev (rr_RemoteAddr r) then Some (ProblemOut CodeRateLimited)
      else Some MountOut)"

text \<open>The gates of \<open>serveHTTP\<close>, up to the call of the handler.\<close>

definition admitHTTP :: "rest_env \<Rightarrow> Spec option \<Rightarrow> restReq \<Rightarrow> restServer \<Rightarrow> restServer \<times> restOut" where
  "admitHTTP ev sp r sv =
     (case CheckOrigin ev (rr_Header r ''Origin'') (sv_AllowedOrigins sv) of Some e \<Rightarrow> (sv, ProblemOut e)
      | None \<Rightarrow>
        if rr_Method r = ''OPTIONS'' then (sv, ProblemOut CodeForbidden)
        else if \<not> rv_inflight ev < sv_maxConcurrent sv then (sv, ProblemOut CodeRateLimited)
        else case dispatchMount ev r of Some out \<Rightarrow> (sv, out)
        | None \<Rightarrow>
          (let routes = compileRoutes (rv_toUpper ev) catalog
           in case matchRoute (rv_toUpper ev) routes (rr_Method r) (rr_Path r) of
             RoutePanic \<Rightarrow> (sv, ProblemOut CodeInternalError)
           | WrongMethod rt \<Rightarrow> (sv, NotAllowedOut (allowedMethods routes (rr_Path r)))
           | Routed rt params \<Rightarrow>
               if \<not> isHealthCap (rt_cap rt) \<and> \<not> rv_rateAllows ev (rr_RemoteAddr r) then (sv, ProblemOut CodeRateLimited)
               else (case authenticate ev r (isHealthCap (rt_cap rt)) sv of
                 (sv1, Inl e) \<Rightarrow> (sv1, ProblemOut e)
               | (sv1, Inr (actor, p)) \<Rightarrow>
                 (case authorize ev r actor (rt_cap rt) sv1 of
                    (sv2, Some e) \<Rightarrow> (sv2, ProblemOut e)
                  | (sv2, None) \<Rightarrow> (sv2, DispatchOut actor p rt params)))
           | NoRoute \<Rightarrow>
               (case serveCompat ev sp r sv of Some res \<Rightarrow> res
                | None \<Rightarrow> (sv, case tryUI ev sp r sv of Some out \<Rightarrow> out | None \<Rightarrow> ProblemOut CodeNotFound))))"

subsection \<open>Replacing the credentials (server.go)\<close>

text \<open>The hook of a successful apply or reset: compile the credentials of the new state, keep the old ones
  when that fails or would let everybody in, and end the browser sessions when an identity changed.\<close>

definition reloadAuth :: "rest_env \<Rightarrow> disk \<Rightarrow> Spec option \<Rightarrow> restServer \<Rightarrow> restServer" where
  "reloadAuth ev dk sp sv =
     (case (sv_Auth sv, sp) of
        (Some v, Some s) \<Rightarrow>
          (case FromSpec (rv_go ev) dk (rv_sha256 ev) (mg_Auth (sp_Management s)) of Inl _ \<Rightarrow> sv
           | Inr next \<Rightarrow>
             if \<not> RequireListen (Some next) then sv
             else let changed = \<not> Equivalent v next; sv1 = sv\<lparr>sv_Auth := Some (fst (verifierReplace next v))\<rparr>
                  in if changed then sv1\<lparr>sv_Sessions := sessClear (sv_Sessions sv1)\<rparr> else sv1)
      | _ \<Rightarrow> sv)"

end
