(* ===== verification/Rest_Props.thy ===== *)
theory Rest_Props
  imports Rest_Serve
begin

text \<open>
  What reaches a handler of the management API. The session table is any state it can get into
  (\<open>auth_reach\<close>), so that a cookie counts only as what it was issued for.
\<close>

subsection \<open>The tables\<close>

lemma ToUpper_ascii: "isASCII s \<Longrightarrow> ToUpper up s = map upperByte s"
  by (simp add: ToUpper_def)

definition tableRoutes :: "compiledRoute list" where
  "tableRoutes = compileRoutes id (catalog @ CompatBindings)"

lemma methods_ascii: "list_all (\<lambda>c. list_all (\<lambda>b. isASCII (rb_Method b)) (cp_REST c)) (catalog @ CompatBindings)"
  by code_simp

lemma compileRoutes_up:
  assumes "list_all (\<lambda>c. list_all (\<lambda>b. isASCII (rb_Method b)) (cp_REST c)) caps"
  shows "compileRoutes up caps = compileRoutes id caps"
  using assms by (induction caps) (auto simp: compileRoutes_def ToUpper_ascii list_all_iff)

lemma compile_catalog: "compileRoutes up catalog = compileRoutes id catalog"
  using methods_ascii by (intro compileRoutes_up) simp

lemma compile_compat: "compileRoutes up CompatBindings = compileRoutes id CompatBindings"
  using methods_ascii by (intro compileRoutes_up) simp

lemma tableRoutes_set: "set tableRoutes = set (compileRoutes id catalog) \<union> set (compileRoutes id CompatBindings)"
  by (simp add: tableRoutes_def compileRoutes_def)

lemma table_apart: "routesApart tableRoutes"
  by code_simp

lemma table_safe: "list_all (\<lambda>rt. list_all segSafe (rt_segs rt)) tableRoutes"
  by code_simp

text \<open>A row that changes something has only unsafe methods and, unless it is about sessions, asks for the
  write or the admin scope.\<close>

lemma table_mutating:
  "list_all (\<lambda>rt. cp_Mutating (rt_cap rt) \<longrightarrow> UnsafeMethod (rt_method rt) \<and>
     (SessionCapability (cp_ID (rt_cap rt)) \<or> list_ex (\<lambda>s. s = ''mitm.write'' \<or> s = ScopeMITMAdmin) (cp_RequiredScopes (rt_cap rt)))) tableRoutes"
  by code_simp

lemma HasScope_write: "HasScope scopes ScopeMITMAdmin \<Longrightarrow> HasScope scopes ''mitm.write''"
  by (auto simp: HasScope_def ScopeMITMAdmin_def list_ex_iff)

lemma AuthorizeScopes_None: "AuthorizeScopes scopes req = None \<longleftrightarrow> (\<forall>s \<in> set req. HasScope scopes s)"
  by (induction req) auto

subsection \<open>The two steps\<close>

text \<open>How a principal was recognised: the verifier took the header; or the cookie names a session; or the
  verifier takes clients on this machine.\<close>

definition identifiedBy :: "rest_env \<Rightarrow> restReq \<Rightarrow> restServer \<Rightarrow> Verifier \<Rightarrow> Principal \<Rightarrow> bool" where
  "identifiedBy ev r sv v p \<longleftrightarrow>
     (if bearerHeader ev r \<noteq> '''' then
        Authenticate (rv_go ev) (rv_sha256 ev) (sv_authAddr sv) v \<lparr>rqa_Authorization = bearerHeader ev r, rqa_RemoteAddr = rr_RemoteAddr r\<rparr> = Inr p
      else (\<exists>c sess csrf s'. rr_Cookie r = Some c \<and> sessLookup (serverGens ev sv) (rv_now ev) c (sv_Sessions sv) = (s', Some (sess, csrf)) \<and> p = PrincipalFromSession sess)
         \<or> vf_mode v = MgmtAuthDevLoopbackUnauth \<and> IsLoopback (rv_go ev) (rr_RemoteAddr r) \<and> p = bindPrincipal (sv_authAddr sv) v loopbackPrincipal)"

text \<open>The tokens of the sessions that are left are the old ones.\<close>

definition tokensKept :: "SessStore \<Rightarrow> SessStore \<Rightarrow> bool" where
  "tokensKept s s1 \<longleftrightarrow> (\<forall>c q. map_of (ses_sessions s1) c = Some q \<longrightarrow> (\<exists>q0. map_of (ses_sessions s) c = Some q0 \<and> sr_csrf q0 = sr_csrf q))"

lemma tokensKept_refl [simp]: "tokensKept s s"
  by (simp add: tokensKept_def)

lemma tokensKept_lookup: "sessLookup gens now c s = (s1, res) \<Longrightarrow> tokensKept s s1"
  by (auto simp: tokensKept_def sessLookup_def Let_def update_conv' delete_conv' restrict_map_def split: if_splits option.splits)

lemma Authenticate_blank:
  "Authenticate u sha addr v \<lparr>rqa_Authorization = '''', rqa_RemoteAddr = remote\<rparr> = Inr p \<longleftrightarrow>
     vf_mode v = MgmtAuthDevLoopbackUnauth \<and> IsLoopback u remote \<and> p = bindPrincipal addr v loopbackPrincipal"
  by (auto simp: Authenticate_def TrimSpace_def)

lemma authenticate_ok:
  assumes "authenticate ev r False sv = (sv1, Inr (actor, po))"
  shows "\<exists>p v. po = Some p \<and> actor = actorOf p ''rest'' \<and> sv_Auth sv = Some v \<and> identifiedBy ev r sv v p
    \<and> sv_Auth sv1 = sv_Auth sv \<and> tokensKept (sv_Sessions sv) (sv_Sessions sv1)"
proof -
  from assms obtain v where v: "sv_Auth sv = Some v" by (auto simp: authenticate_def split: option.splits)
  show ?thesis
  proof (cases "bearerHeader ev r = ''''")
    case False
    with assms v show ?thesis by (auto simp: authenticate_def identifiedBy_def Let_def split: sum.splits)
  next
    case True
    show ?thesis
    proof (cases "rr_Cookie r = None \<or> rr_Cookie r = Some ''''")
      case none: True
      with True assms v show ?thesis
        by (auto simp: authenticate_def identifiedBy_def Let_def Authenticate_blank split: sum.splits option.splits)
    next
      case False
      then obtain c where c: "rr_Cookie r = Some c" "c \<noteq> ''''" by auto
      obtain s' res where l: "sessLookup (serverGens ev sv) (rv_now ev) c (sv_Sessions sv) = (s', res)" by fastforce
      note kept = tokensKept_lookup[OF l]
      show ?thesis
      proof (cases res)
        case None
        with True assms v c l kept show ?thesis
          by (auto simp: authenticate_def identifiedBy_def Let_def Authenticate_blank split: sum.splits)
      next
        case (Some sc)
        then obtain sess csrf where "sc = (sess, csrf)" by fastforce
        with Some True assms v c l kept show ?thesis
          by (auto simp: authenticate_def identifiedBy_def Let_def)
      qed
    qed
  qed
qed

lemma ValidCSRF_ok:
  assumes "ValidCSRF gens sha now c presented s = (s', True)"
  shows "presented \<noteq> '''' \<and> (\<exists>q. map_of (ses_sessions s) c = Some q \<and> sha (bytes_of (sr_csrf q)) = sha (bytes_of presented))"
  using assms by (auto simp: ValidCSRF_def split: if_splits option.splits)

definition presentsToken :: "rest_env \<Rightarrow> restReq \<Rightarrow> SessStore \<Rightarrow> string \<Rightarrow> bool" where
  "presentsToken ev r s c \<longleftrightarrow> rr_Header r CSRFHeader \<noteq> '''' \<and>
     (\<exists>q. map_of (ses_sessions s) c = Some q \<and> rv_sha256 ev (bytes_of (sr_csrf q)) = rv_sha256 ev (bytes_of (rr_Header r CSRFHeader)))"

lemma authorize_ok:
  assumes "authorize ev r actor cap sv = (sv2, None)"
  shows "(\<forall>s \<in> set (cp_RequiredScopes cap). HasScope (ac_Scopes actor) s) \<and>
    (UnsafeMethod (rr_Method r) \<and> bearerHeader ev r = '''' \<longrightarrow> (\<forall>c. rr_Cookie r = Some c \<and> c \<noteq> '''' \<longrightarrow> presentsToken ev r (sv_Sessions sv) c))"
proof -
  from assms have "AuthorizeScopes (ac_Scopes actor) (cp_RequiredScopes cap) = None"
    by (auto simp: authorize_def split: if_splits option.splits)
  moreover have "presentsToken ev r (sv_Sessions sv) c"
    if "UnsafeMethod (rr_Method r)" "bearerHeader ev r = ''''" "rr_Cookie r = Some c" "c \<noteq> ''''" for c
  proof -
    obtain s' ok where k: "ValidCSRF (serverGens ev sv) (rv_sha256 ev) (rv_now ev) c (rr_Header r CSRFHeader) (sv_Sessions sv) = (s', ok)" by fastforce
    with assms that have "ok" by (auto simp: authorize_def split: if_splits option.splits)
    with k ValidCSRF_ok show ?thesis unfolding presentsToken_def by (metis (full_types))
  qed
  ultimately show ?thesis by (simp add: AuthorizeScopes_None)
qed

lemma presentsToken_kept: "tokensKept s s1 \<Longrightarrow> presentsToken ev r s1 c \<Longrightarrow> presentsToken ev r s c"
  unfolding presentsToken_def tokensKept_def by metis

definition gated :: "rest_env \<Rightarrow> restReq \<Rightarrow> restServer \<Rightarrow> Actor \<Rightarrow> compiledRoute \<Rightarrow> bool" where
  "gated ev r sv actor rt \<longleftrightarrow> (\<exists>p v. sv_Auth sv = Some v \<and> identifiedBy ev r sv v p \<and> actor = actorOf p ''rest''
     \<and> (\<forall>s \<in> set (cp_RequiredScopes (rt_cap rt)). HasScope (pn_Scopes p) s))
     \<and> (UnsafeMethod (rr_Method r) \<and> bearerHeader ev r = '''' \<longrightarrow> (\<forall>c. rr_Cookie r = Some c \<and> c \<noteq> '''' \<longrightarrow> presentsToken ev r (sv_Sessions sv) c))"

lemma both_gates:
  assumes "authenticate ev r False sv = (sv1, Inr (actor, po))" and "authorize ev r actor (rt_cap rt) sv1 = (sv2, None)"
  shows "gated ev r sv actor rt"
proof -
  from authenticate_ok[OF assms(1)] obtain p v where a: "actor = actorOf p ''rest''" "sv_Auth sv = Some v" "identifiedBy ev r sv v p"
    "tokensKept (sv_Sessions sv) (sv_Sessions sv1)" by blast
  from authorize_ok[OF assms(2)] a(1,4) presentsToken_kept
  have "(\<forall>s \<in> set (cp_RequiredScopes (rt_cap rt)). HasScope (pn_Scopes p) s) \<and>
    (UnsafeMethod (rr_Method r) \<and> bearerHeader ev r = '''' \<longrightarrow> (\<forall>c. rr_Cookie r = Some c \<and> c \<noteq> '''' \<longrightarrow> presentsToken ev r (sv_Sessions sv) c))"
    by (auto simp: actorOf_def)
  with a show ?thesis by (auto simp: gated_def)
qed

subsection \<open>What reaches a handler\<close>

lemma compat_gates:
  assumes "serveCompat ev sp r sv = Some (sv', out)"
  shows "out \<noteq> DispatchOut actor po rt params" and
    "out = CompatOut actor rt params \<Longrightarrow> gated ev r sv actor rt \<and> rt \<in> set tableRoutes \<and> rt_method rt = ToUpper (rv_toUpper ev) (rr_Method r)"
proof -
  show "out \<noteq> DispatchOut actor po rt params"
    using assms by (auto simp: serveCompat_def split: routeMatch.splits if_splits prod.splits sum.splits option.splits)
  assume out: "out = CompatOut actor rt params"
  with assms have m: "matchCompat ev sp r = Routed rt params" 
    and a: "\<exists>sv1 po. authenticate ev r False sv = (sv1, Inr (actor, po)) \<and> authorize ev r actor (rt_cap rt) sv1 = (sv', None)"
    by (auto simp: serveCompat_def split: routeMatch.splits if_splits prod.splits sum.splits option.splits)
  from m have "matchLoop (compileRoutes id CompatBindings) (ToUpper (rv_toUpper ev) (rr_Method r)) (compatMatchPath (rv_go ev) sp (rr_Path r)) None = Routed rt params"
    by (auto simp: matchCompat_def matchRoute_def Let_def compile_compat[of "rv_toUpper ev"] split: if_splits)
  from matchLoop_routed[OF this] a both_gates show "gated ev r sv actor rt \<and> rt \<in> set tableRoutes \<and> rt_method rt = ToUpper (rv_toUpper ev) (rr_Method r)"
    by (auto simp: tableRoutes_set)
qed

definition handles :: "restOut \<Rightarrow> (Actor \<times> compiledRoute) option" where
  "handles out = (case out of DispatchOut actor _ rt _ \<Rightarrow> Some (actor, rt) | CompatOut actor rt _ \<Rightarrow> Some (actor, rt) | _ \<Rightarrow> None)"

lemma admit_gates:
  assumes "admitHTTP ev sp r sv = (sv', out)" and "handles out = Some (actor, rt)"
  shows "CheckOrigin ev (rr_Header r ''Origin'') (sv_AllowedOrigins sv) = None \<and> rr_Method r \<noteq> ''OPTIONS'' \<and> rt \<in> set tableRoutes
    \<and> rt_method rt = ToUpper (rv_toUpper ev) (rr_Method r) \<and> (isHealthCap (rt_cap rt) \<or> gated ev r sv actor rt)"
proof -
  let ?routes = "compileRoutes (rv_toUpper ev) catalog"
  from assms have o: "CheckOrigin ev (rr_Header r ''Origin'') (sv_AllowedOrigins sv) = None" "rr_Method r \<noteq> ''OPTIONS''"
    by (auto simp: admitHTTP_def handles_def split: option.splits if_splits)
  have mount: "dispatchMount ev r = None"
  proof (cases "dispatchMount ev r")
    case (Some out')
    then have "handles out' = None" by (auto simp: dispatchMount_def handles_def split: if_splits)
    with Some assms o show ?thesis by (auto simp: admitHTTP_def handles_def split: if_splits)
  qed
  from assms o mount have free: "rv_inflight ev < sv_maxConcurrent sv" by (auto simp: admitHTTP_def handles_def split: if_splits)
  note step = assms(1)[unfolded admitHTTP_def, simplified o mount free Let_def, simplified]
  show ?thesis
  proof (cases "matchRoute (rv_toUpper ev) ?routes (rr_Method r) (rr_Path r)")
    case NoRoute
    show ?thesis
    proof (cases "serveCompat ev sp r sv")
      case None
      have "out = (case tryUI ev sp r sv of Some x \<Rightarrow> x | None \<Rightarrow> ProblemOut CodeNotFound)" using step NoRoute None by auto
      then have "handles out = None" by (auto simp: tryUI_def handles_def)
      with assms(2) show ?thesis by simp
    next
      case (Some res)
      with step NoRoute have s: "serveCompat ev sp r sv = Some (sv', out)" by simp
      with compat_gates(1)[OF s] assms(2) obtain params where "out = CompatOut actor rt params"
        by (cases out) (auto simp: handles_def)
      with compat_gates(2)[OF s] o show ?thesis by blast
    qed
  next
    case (Routed rt' params)
    from matchLoop_routed[OF Routed[unfolded matchRoute_def compile_catalog[of "rv_toUpper ev"]]]
    have rt': "rt' \<in> set tableRoutes" "rt_method rt' = ToUpper (rv_toUpper ev) (rr_Method r)" by (auto simp: tableRoutes_set)
    from step Routed assms(2) obtain sv1 po where a: "authenticate ev r (isHealthCap (rt_cap rt')) sv = (sv1, Inr (actor, po))"
      "authorize ev r actor (rt_cap rt') sv1 = (sv', None)" and [simp]: "rt' = rt"
      by (auto simp: handles_def split: if_splits prod.splits sum.splits option.splits)
    with rt' o both_gates show ?thesis by (cases "isHealthCap (rt_cap rt)") auto
  qed (use step assms(2) in \<open>auto simp: handles_def\<close>)
qed

lemma live_session_was_issued:
  assumes "auth_reach st" and "\<forall>a. as_changes st a < 2 ^ 64" and "sessLookup (gensOf st) now c (as_store st) = (s', Some (sess, csrf))"
  shows "\<exists>p0 n t0. as_issued st c = Some (p0, n, t0) \<and> c \<notin> as_ended st \<and> pn_ID (PrincipalFromSession sess) = pn_ID p0 \<and> pn_Role (PrincipalFromSession sess) = pn_Role p0
    \<and> pn_Scopes (PrincipalFromSession sess) = pn_Scopes p0 \<and> now - t0 \<le> sc_Absolute (ses_cfg (as_store st))
    \<and> (\<forall>a. pn_verifier p0 = Some a \<longrightarrow> as_changes st a = n)"
proof -
  from assms(3) obtain q where q: "map_of (ses_sessions (as_store st)) c = Some q" "\<not> revokedLocked (gensOf st) q"
    "\<not> expiredLocked (ses_cfg (as_store st)) q now" "sess = (sr_public q)\<lparr>se_LastSeen := now\<rparr>"
    by (auto simp: sessLookup_def Let_def split: if_splits option.splits)
  from sess_inv_reach[OF assms(1)] q(1) have "fromIssue st c q" by (simp add: sess_inv_def)
  then obtain p0 n t0 where i: "as_issued st c = Some (p0, n, t0)" "sr_createdAt q = t0" "se_TokenID (sr_public q) = pn_ID p0"
    "se_Role (sr_public q) = pn_Role p0" "se_Scopes (sr_public q) = pn_Scopes p0" "se_verifier (sr_public q) = pn_verifier p0"
    and g: "\<forall>a. pn_verifier p0 = Some a \<longrightarrow> se_generation (sr_public q) = of_nat n \<and> n \<le> as_changes st a" by (auto simp: fromIssue_def)
  have "as_changes st a = n" if "pn_verifier p0 = Some a" for a
  proof -
    from q(2) i(6) g that have "(of_nat n :: 64 word) = of_nat (as_changes st a)" "n \<le> as_changes st a" by (auto simp: revokedLocked_def gensOf_def)
    with assms(2) show ?thesis using of_nat_eq_iff_64 by metis
  qed
  moreover have "c \<notin> as_ended st" using sess_inv_reach[OF assms(1)] q(1) by (auto simp: sess_inv_def)
  ultimately show ?thesis using i q(3,4) by (auto simp: expiredLocked_def PrincipalFromSession_def split: if_splits)
qed

text \<open>(C35) What reaches a handler is authorised. Take any state the session table can be in. A request that
  a handler of the API gets comes from an allowed origin; unless it is a health probe, its client has shown
  a bearer secret the verifier takes, or (without an Authorization header) holds a cookie that was issued and not deleted since,
  less than the absolute lifetime ago and at the current credentials, to the principal it acts for, or
  connects from this machine in the development mode; it acts as exactly that principal, with every scope
  the route asks for. If the route changes something, the principal may write, unless the route is about
  sessions, and with a cookie and no Authorization header the client has also shown the session's CSRF
  token, provided the method is spelt in upper case.\<close>

theorem rest_requests_are_authorised:
  assumes "auth_reach st" and "\<forall>a. as_changes st a < 2 ^ 64" and "sv_Sessions sv = as_store st" and "serverGens ev sv = gensOf st"
    and "admitHTTP ev sp r sv = (sv', out)" and "handles out = Some (actor, rt)"
  shows "CheckOrigin ev (rr_Header r ''Origin'') (sv_AllowedOrigins sv) = None \<and> rt_method rt = ToUpper (rv_toUpper ev) (rr_Method r) \<and>
    (isHealthCap (rt_cap rt) \<or>
      (\<exists>p v. sv_Auth sv = Some v \<and> actor = actorOf p ''rest'' \<and> (\<forall>s \<in> set (cp_RequiredScopes (rt_cap rt)). HasScope (pn_Scopes p) s)
        \<and> (if bearerHeader ev r \<noteq> '''' then
             Authenticate (rv_go ev) (rv_sha256 ev) (sv_authAddr sv) v \<lparr>rqa_Authorization = bearerHeader ev r, rqa_RemoteAddr = rr_RemoteAddr r\<rparr> = Inr p
           else (\<exists>c p0 n t0. rr_Cookie r = Some c \<and> as_issued st c = Some (p0, n, t0) \<and> c \<notin> as_ended st \<and> pn_ID p = pn_ID p0 \<and> pn_Role p = pn_Role p0
                  \<and> pn_Scopes p = pn_Scopes p0 \<and> rv_now ev - t0 \<le> sc_Absolute (ses_cfg (as_store st)) \<and> (\<forall>a. pn_verifier p0 = Some a \<longrightarrow> as_changes st a = n))
              \<or> vf_mode v = MgmtAuthDevLoopbackUnauth \<and> IsLoopback (rv_go ev) (rr_RemoteAddr r) \<and> pn_Class p = ClassLoopback)
        \<and> (cp_Mutating (rt_cap rt) \<longrightarrow> SessionCapability (cp_ID (rt_cap rt)) \<or> HasScope (pn_Scopes p) ''mitm.write'')
        \<and> (cp_Mutating (rt_cap rt) \<and> ToUpper (rv_toUpper ev) (rr_Method r) = rr_Method r \<and> bearerHeader ev r = '''' \<longrightarrow>
             (\<forall>c. rr_Cookie r = Some c \<and> c \<noteq> '''' \<longrightarrow> presentsToken ev r (as_store st) c))))"
proof -
  note g = admit_gates[OF assms(5,6)]
  have mut: "UnsafeMethod (rt_method rt) \<and> (SessionCapability (cp_ID (rt_cap rt)) \<or>
      (\<exists>s \<in> set (cp_RequiredScopes (rt_cap rt)). s = ''mitm.write'' \<or> s = ScopeMITMAdmin))" if "cp_Mutating (rt_cap rt)"
    using that g table_mutating unfolding list_all_iff list_ex_iff by blast
  show ?thesis
  proof (cases "isHealthCap (rt_cap rt)")
    case True
    with g show ?thesis by blast
  next
    case False
    with g obtain p v where p: "sv_Auth sv = Some v" "identifiedBy ev r sv v p" "actor = actorOf p ''rest''"
      and scopes: "\<forall>s \<in> set (cp_RequiredScopes (rt_cap rt)). HasScope (pn_Scopes p) s"
      and csrf: "UnsafeMethod (rr_Method r) \<and> bearerHeader ev r = '''' \<longrightarrow> (\<forall>c. rr_Cookie r = Some c \<and> c \<noteq> '''' \<longrightarrow> presentsToken ev r (as_store st) c)"
      unfolding gated_def assms(3) by blast
    have w: "SessionCapability (cp_ID (rt_cap rt)) \<or> HasScope (pn_Scopes p) ''mitm.write''" if "cp_Mutating (rt_cap rt)"
      using mut[OF that] scopes HasScope_write by blast
    have t: "presentsToken ev r (as_store st) c" if "cp_Mutating (rt_cap rt)" "ToUpper (rv_toUpper ev) (rr_Method r) = rr_Method r"
      "bearerHeader ev r = ''''" "rr_Cookie r = Some c" "c \<noteq> ''''" for c
      using mut[OF that(1)] that csrf g by auto
    have i: "(\<exists>c p0 n t0. rr_Cookie r = Some c \<and> as_issued st c = Some (p0, n, t0) \<and> c \<notin> as_ended st \<and> pn_ID p = pn_ID p0 \<and> pn_Role p = pn_Role p0
          \<and> pn_Scopes p = pn_Scopes p0 \<and> rv_now ev - t0 \<le> sc_Absolute (ses_cfg (as_store st)) \<and> (\<forall>a. pn_verifier p0 = Some a \<longrightarrow> as_changes st a = n))
        \<or> vf_mode v = MgmtAuthDevLoopbackUnauth \<and> IsLoopback (rv_go ev) (rr_RemoteAddr r) \<and> pn_Class p = ClassLoopback" if "bearerHeader ev r = ''''"
      using p(2) that live_session_was_issued[OF assms(1,2)] unfolding identifiedBy_def assms(3,4)
      by (auto simp: bindPrincipal_def loopbackPrincipal_def)
    have "if bearerHeader ev r \<noteq> '''' then
        Authenticate (rv_go ev) (rv_sha256 ev) (sv_authAddr sv) v \<lparr>rqa_Authorization = bearerHeader ev r, rqa_RemoteAddr = rr_RemoteAddr r\<rparr> = Inr p else True"
      using p(2) by (auto simp: identifiedBy_def)
    with i w t p(1,3) scopes g show ?thesis by auto
  qed
qed

subsection \<open>A lab to evaluate on\<close>

definition exWriter :: Principal where
  "exWriter = exPrincipal\<lparr>pn_Scopes := [''mitm.read'', ''mitm.write'']\<rparr>"

definition exRestState :: auth_state where
  "exRestState = exSessStart\<lparr>
     as_store := fst (sessCreate (gensOf exSessStart) 1 (Some ''c'') (Some ''x'') (Some ''i'') [] exWriter (as_store exSessStart)),
     as_issued := [''c'' \<mapsto> (exWriter, 0, 1)]\<rparr>"

definition exRestEnv :: rest_env where
  "exRestEnv = \<lparr>rv_go = ascii_env, rv_toUpper = id, rv_urlParse = (\<lambda>_. None), rv_sha256 = id, rv_now = 5, rv_gens = (\<lambda>_. 0),
     rv_rateAllows = (\<lambda>_. True), rv_inflight = 0, rv_mounted = (\<lambda>_. False)\<rparr>"

definition exRestServer :: restServer where
  "exRestServer = newRestServer (Some \<lparr>vf_mode = MgmtAuthBearer, vf_tokens = [], vf_generation = 0\<rparr>) 0 (Some (as_store exRestState)) [] 0 False None False"

definition exRestReq :: "string \<Rightarrow> string \<Rightarrow> restReq" where
  "exRestReq method csrf = \<lparr>rr_Method = method, rr_Path = ''/v1/flows'', rr_RemoteAddr = ''10.0.0.1:1'',
     rr_Header = (\<lambda>h. if h = CSRFHeader then csrf else ''''), rr_Cookie = Some ''c''\<rparr>"

lemma exRestState_reach: "auth_reach exRestState"
proof -
  let ?st = exSessStart
  have reach0: "auth_reach ?st" unfolding exSessStart_def by (rule auth_reach.start)
  obtain s1 res where c: "sessCreate (gensOf ?st) 1 (Some ''c'') (Some ''x'') (Some ''i'') [] exWriter (as_store ?st) = (s1, Inr res)"
    by (simp add: sessCreate_def exWriter_def exPrincipal_def exSessStart_def gensOf_def Let_def)
  have "auth_reach (?st\<lparr>as_store := s1, as_issued := (case (Inr res :: auth_error + string \<times> string \<times> Session) of Inl _ \<Rightarrow> as_issued ?st | Inr _ \<Rightarrow> (as_issued ?st)(''c'' \<mapsto> (exWriter, changeOf ?st exWriter, 1)))\<rparr>)"
    by (rule auth_reach.create[OF reach0 _ _ _ c]) (simp_all add: exSessStart_def newSessStore_def expireLocked_def)
  then show ?thesis using c by (simp add: exRestState_def exSessStart_def changeOf_def exWriter_def exPrincipal_def)
qed

lemma exRest_server: "sv_Sessions exRestServer = as_store exRestState" "serverGens exRestEnv exRestServer = gensOf exRestState"
  by (auto simp: exRestServer_def newRestServer_def serverGens_def exRestEnv_def gensOf_def exRestState_def exSessStart_def)

theorem rest_requests_are_authorised_witness:
  "\<exists>sv' out actor rt. admitHTTP exRestEnv None (exRestReq ''DELETE'' ''x'') exRestServer = (sv', out) \<and> handles out = Some (actor, rt)
     \<and> cp_ID (rt_cap rt) = ''flows.clear'' \<and> HasScope (ac_Scopes actor) ''mitm.write'' \<and> presentsToken exRestEnv (exRestReq ''DELETE'' ''x'') (as_store exRestState) ''c''"
proof -
  let ?r = "exRestReq ''DELETE'' ''x''"
  have e: "map_option (\<lambda>(a, rt). (ac_ID a, cp_ID (rt_cap rt), cp_Mutating (rt_cap rt))) (handles (snd (admitHTTP exRestEnv None ?r exRestServer)))
      = Some (''ops'', ''flows.clear'', True)" by code_simp
  obtain sv' out where o: "admitHTTP exRestEnv None ?r exRestServer = (sv', out)" by fastforce
  with e obtain actor rt where h: "handles out = Some (actor, rt)" and rt: "cp_ID (rt_cap rt) = ''flows.clear''" "cp_Mutating (rt_cap rt)" by auto
  have "ToUpper id (rr_Method ?r) = rr_Method ?r" "bearerHeader exRestEnv ?r = ''''" "rr_Cookie ?r = Some ''c''" by code_simp+
  moreover have "rv_toUpper exRestEnv = id" "\<forall>a. as_changes exRestState a < 2 ^ 64" by (simp_all add: exRestEnv_def exRestState_def exSessStart_def)
  ultimately show ?thesis
    using rest_requests_are_authorised[OF exRestState_reach _ exRest_server o h] o h rt
    by (auto simp: isHealthCap_def SessionCapability_def actorOf_def)
qed

text \<open>The router reads the method without regard to case, the test for an unsafe method does not: spelt in
  lower case a deletion authorised by the cookie alone goes through, in upper case it is refused.\<close>

theorem lower_case_method_skips_csrf:
  "map_option (\<lambda>(a, rt). (ac_ID a, cp_ID (rt_cap rt))) (handles (snd (admitHTTP exRestEnv None (exRestReq ''delete'' '''') exRestServer)))
     = Some (''ops'', ''flows.clear'')
   \<and> snd (admitHTTP exRestEnv None (exRestReq ''DELETE'' '''') exRestServer) = ProblemOut CodeForbidden"
  by code_simp

end
