(* ===== verification/Spec2Isabelle.thy ===== *)
theory Spec2Isabelle
  imports Store_Props Store_List Rules_Action WS_Frame GRPC_Props H2_Window H2_Conserve Config_Tree Config_Props App_Reach
    Auth_Session Http_Hop Proxy_Socks_Props Proxy_Relay_Props Proxy_HTTPAuth TLS_Leaf
    Proxy_H2Inner Proxy_Stream Rest_Props
begin

text \<open>
  A model of go-lab-mitmproxy, an intercepting lab proxy with an inbox of captured flows, and the
  properties that make its parts correct. Paths are those under \<open>internal/\<close> in the repository.

  \<^bold>\<open>The program.\<close> Clients reach the proxy through absolute-form HTTP, CONNECT, SOCKS 4 and 5 or a
  redirected connection. The front ends admit a session (\<open>proxy/admit.go\<close>), authenticate it, resolve
  the target and ask the guard (\<open>proxy/guard.go\<close>), and dial the one address the guard pinned. A CONNECT
  is tunnelled or intercepted with a leaf certificate of the lab CA (\<open>tlsmitm\<close>). Every exchange runs
  through the rules (\<open>rules\<close>), which may change, answer, pace, pause or end it, and is captured as a
  flow in the inbox (\<open>store\<close>). A paused flow waits there until the control plane resumes, drops or
  expires it. The control plane (\<open>app\<close>) holds the active snapshot of the desired state (\<open>model\<close>,
  \<open>config\<close>, \<open>compiler\<close>, \<open>snapshot\<close>) and replaces it by plan, apply and reset, with an idempotency cache
  and an audit log (\<open>audit\<close>). The management API (\<open>control/rest\<close>, \<open>auth\<close>, \<open>capabilities\<close>) lets
  authenticated clients at it.

  \<^bold>\<open>The prelude.\<close> \<open>Go_Prelude\<close> (slices that may be nil, maps as association lists, times, the locale
  \<open>implements\<close>), \<open>Go_Strings\<close>, \<open>Go_Strconv\<close>, \<open>Go_Net\<close>, \<open>Go_IP\<close> (what the sources use of Go's standard
  library) and \<open>Wire_Codec\<close> (the locale \<open>wire_codec\<close>). Integers that may wrap are words; \<open>int\<close> fields
  hold values that the sources keep in range; a \<open>go_env\<close> is what is consulted outside ASCII.

  \<^bold>\<open>The inbox\<close> (\<open>model/flow.go\<close>, \<open>store\<close>). \<open>Model_Flow\<close> is the flow; \<open>Store_Flow\<close>, \<open>Store_Caps\<close>,
  \<open>Store_Spill\<close> and \<open>Store_Events\<close> are copies, filters, caps, spill files and events; \<open>Store_Memory\<close> and
  \<open>Store_Breakpoint\<close> are the record \<open>memory\<close> with every operation of \<open>memory.go\<close> and \<open>breakpoint.go\<close>.
  \<open>Store_Inv\<close>, \<open>Store_Insert\<close> and \<open>Store_Ops\<close> prove the invariant for each operation, \<open>Store_Step\<close>
  interleaves the locked sections with I/O faults, \<open>Store_Props\<close> and \<open>Store_List\<close> hold the properties:
  caps and index, all-or-nothing inserts and resumes, answered waiters, wipes, pagination. The mutex makes
  a locked section one step; an insert is two, its preparation and its commit.

  \<^bold>\<open>Rules and wire formats.\<close> \<open>Rules_Engine\<close> and \<open>Rules_Action\<close> (\<open>rules\<close>), \<open>WS_Frame\<close> (\<open>wsx/frame.go\<close>),
  \<open>GRPC_Decode\<close> and \<open>GRPC_Props\<close> (\<open>grpcx/decode.go\<close>), with round trips of encoder and decoder.

  \<^bold>\<open>HTTP/2\<close> (\<open>http2x\<close>). \<open>H2_Flow\<close> and \<open>H2_Window\<close>: the send windows under interleaved senders and
  updates, beside a ledger of what the peer allowed. \<open>H2_Conn\<close> and \<open>H2_Conserve\<close>: the frame loop, the body
  buffers and the handlers as interleaved steps, and that no byte of the receive window is lost but for the
  one race that is counted.

  \<^bold>\<open>Configuration and control plane.\<close> \<open>Config_Units\<close>, \<open>Config_Roundtrip\<close>, \<open>Config_Tree\<close> (units of
  documents and their round trips), \<open>Model_Spec\<close>, \<open>Config_Validate\<close> and \<open>Config_Props\<close> (the desired state,
  its defaults and validators, and that rules run as configured), \<open>App_Operations\<close>, \<open>App_Compile\<close>,
  \<open>App_Idemp\<close>, \<open>App_LRU\<close> (operations, snapshots, the linked-list cache and its refinement to a list),
  \<open>Audit_Log\<close>, \<open>Audit_Props\<close> (the ring refined to the history), \<open>App_Mutate\<close> (plan, apply, validate, reset,
  boot), \<open>App_Props\<close>, \<open>App_Apply\<close>, \<open>App_Reach\<close> (what holds in every reachable state).

  \<^bold>\<open>Management API.\<close> \<open>Auth_Verify\<close> and \<open>Auth_Session\<close> (\<open>auth\<close>), \<open>Domain_Err\<close> (\<open>domainerr/code.go\<close>),
  \<open>Rest_Routes\<close> (the capability table and the router), \<open>Rest_Serve\<close> (\<open>admitHTTP\<close> is \<open>serveHTTP\<close> up to the
  call of the handler) and \<open>Rest_Props\<close> (what reaches a handler is authorised).

  \<^bold>\<open>The proxy\<close> (\<open>proxy\<close>, \<open>httputilx\<close>, \<open>tlsmitm\<close>). \<open>Proxy_Guard\<close>, \<open>Proxy_Admit\<close>, \<open>Proxy_Hello\<close>,
  \<open>Http_Hop\<close>, \<open>TLS_Leaf\<close>; \<open>Proxy_Socks\<close> and \<open>Proxy_Relay\<close> (SOCKS with CONNECT, BIND and UDP) and
  \<open>Proxy_HTTPAuth\<close>; \<open>Proxy_Exchange\<close> and \<open>Proxy_Phases\<close> (one exchange under the rules of \<open>rules.go\<close>);
  \<open>Proxy_Serve\<close> (\<open>handler.go\<close>, \<open>forward.go\<close>, \<open>connect.go\<close>, \<open>origdest.go\<close>, \<open>intercept.go\<close>);
  \<open>Proxy_H2Inner\<close> (one stream of an intercepted HTTP/2 connection, tunnels of extended CONNECT included);
  \<open>Proxy_Stream\<close> (\<open>response_stream.go\<close>); \<open>Proxy_Replay\<close>. The \<open>_Props\<close> theories show what a client can make
  the proxy dial, what it is sent, and what is recorded.

  \<^bold>\<open>Interfaces.\<close> \<open>evict_loop\<close> is what the eviction loops of the inbox rely on, interpreted for the commit
  of an insert (\<open>fits_loop\<close>) and for a change of caps (\<open>caps_loop\<close>). \<open>implements\<close> relates a component to its
  abstract specification over any sequence of operations, interpreted for the idempotency cache (\<open>lru\<close>),
  the audit log (\<open>auditlog\<close>) and the leaf cache (\<open>leafcache\<close>). \<open>wire_codec\<close> is a decoder that takes exactly
  one encoding off a stream, interpreted for varints, gRPC envelopes, WebSocket headers and frames.

  \<^bold>\<open>Loops.\<close> The eviction loops of inbox and idempotency cache are \<open>while_option\<close>, proved to return on every
  reachable state; \<open>FormatDuration\<close> is a \<open>partial_function\<close>, proved to return but for the one value on
  which the program recurses for ever; all other recursion is structural or has its \<open>termination\<close> proof.
  \<open>listPages\<close>, a client that follows cursors, takes fuel, of which one more than the number of rows is
  enough.

  \<^bold>\<open>Parameters.\<close> Arguments stand for what is outside the sources: the resolver, the network and its
  failures, the TLS handshakes, the CA's signing, SHA-256, the disk, the clock, random values, the order of
  a walk over a map, the parsers of URLs and media types, the JSON codec, and the verdict of the rate
  limiter. Where a property relies on one, its statement says how (\<open>signsTemplate\<close>: a signer signs what the
  template says).

  \<^bold>\<open>Notes on definitions.\<close> The epoch, generation and eviction counters of \<open>memory\<close> are \<open>nat\<close> for
  \<open>uint64\<close>. \<open>planVictims\<close> charges nothing for an ordered row without an entry, where the program would
  panic; the invariant excludes it. A control-plane call is one step towards the inbox: \<open>checkStoreCaps\<close>
  reads the occupancy and sets the caps without a proxy insert in between. \<open>handlerRead\<close> takes bytes and
  credits them in one step, and \<open>finishTear\<close> credits what it tears down under the mutex; the program
  releases the mutex between the two, and the steps commute. A WebSocket upgrade and a request that expects
  a 100 end \<open>forwardHTTP\<close> with the address they may be sent to. In \<open>App_Reach\<close> the proxy may do to the inbox
  whatever keeps its invariant and its caps, which \<open>Store_Step\<close> proves of its operations.

  \<^bold>\<open>Not modelled.\<close> Copying of tunnels, the pump of WebSocket frames, the cleartext HTTP/2 front end and the
  TLS side of redirected connections (goroutines over live sockets), pushed streams, HPACK and the HTTP/2
  client, certificate generation, decoding of documents (libraries), the REST handlers, the MCP transport and
  the compatibility documents, metrics, logs, and the command line.
\<close>

end
